(* ===== verification/Prelude.thy ===== *)
theory Prelude
  imports Complex_Main "HOL-Library.AList" "HOL-Library.Char_ord" "HOL-Library.List_Lexorder" "HOL-Library.Multiset"
    "HOL-Library.Product_Lexorder" "HOL-Library.Word"
begin

text \<open>
  What every theory of the development shares: Python's exceptions as values, the few string
  operations of the Python standard library the code uses, insertion-ordered dictionaries, the
  error-state monad in which the stateful operations are written, and a locale that lifts an
  invariant of single steps to whole runs.

  A Python \<open>str\<close> is a \<open>string\<close>, one \<open>char\<close> per code point, so the model
  speaks of texts whose code points are below 256. \<open>bytes\<close> is a list of 8-bit words. A
  \<open>float\<close> (clocks, time-to-live values) is an exact rational: rounding is not modelled.
\<close>

section \<open>Exceptions as values\<close>

text \<open>One constructor per exception class of the code, with its message; the extra fields of
  \<open>BridgeRequestError\<close> and \<open>ExternalMcpValidationError\<close> are arguments too.\<close>

datatype py_exn =
    FolioError string
  | ExternalMcpError string
  | ExternalMcpValidationError string string string
  | AuditValidationError string
  | AuthenticationError string
  | MembershipError string
  | JwksError string
  | BridgeRequestError string string
  | PublicMcpError string
  | ToolError string
  | DeploymentError string
  | ValueError string
  | PermissionError string
  | IntegrityError
  | OtherError string

definition guard_raise :: "bool \<Rightarrow> 'e \<Rightarrow> 'e + unit" where
  "guard_raise bad e = (if bad then Inl e else Inr ())"

fun ebind :: "'e + 'a \<Rightarrow> ('a \<Rightarrow> 'e + 'b) \<Rightarrow> 'e + 'b" where
  "ebind (Inl e) f = Inl e"
| "ebind (Inr x) f = f x"

fun emap_list :: "('a \<Rightarrow> 'e + 'b) \<Rightarrow> 'a list \<Rightarrow> 'e + 'b list" where
  "emap_list f [] = Inr []"
| "emap_list f (x # xs) = ebind (f x) (\<lambda>y. ebind (emap_list f xs) (\<lambda>ys. Inr (y # ys)))"

named_theorems err_simps \<open>when a computation that may raise returns a value\<close>

lemma ebind_Inr_iff [err_simps]: "ebind m f = Inr y \<longleftrightarrow> (\<exists>x. m = Inr x \<and> f x = Inr y)"
  by (cases m) auto

lemma ebind_Inl_iff [err_simps]:
  "ebind m f = Inl e \<longleftrightarrow> m = Inl e \<or> (\<exists>x. m = Inr x \<and> f x = Inl e)"
  by (cases m) auto

lemma guard_raise_Inr [err_simps]: "guard_raise bad e = Inr u \<longleftrightarrow> \<not> bad"
  by (simp add: guard_raise_def)

lemma guard_raise_Inl [err_simps]: "guard_raise bad e = Inl e' \<longleftrightarrow> bad \<and> e' = e"
  by (auto simp: guard_raise_def)

lemma ebind_cong [fundef_cong]:
  "m = m' \<Longrightarrow> (\<And>x. m' = Inr x \<Longrightarrow> f x = f' x) \<Longrightarrow> ebind m f = ebind m' f'"
  by (cases m') auto

lemma emap_list_Inr:
  "emap_list f xs = Inr ys \<longleftrightarrow> list_all2 (\<lambda>x y. f x = Inr y) xs ys"
proof (induction xs arbitrary: ys)
  case Nil
  then show ?case by (auto simp: list_all2_Nil)
next
  case (Cons x xs)
  then show ?case by (cases ys) (auto simp: err_simps)
qed

section \<open>Strings\<close>

type_synonym bytes = "8 word list"

definition ord_of :: "char \<Rightarrow> nat" where
  "ord_of c = of_char c"

text \<open>\<open>str.isspace\<close> of one code point below 256.\<close>

definition is_space :: "char \<Rightarrow> bool" where
  "is_space c = (let n = ord_of c in
     (9 \<le> n \<and> n \<le> 13) \<or> (28 \<le> n \<and> n \<le> 32) \<or> n = 133 \<or> n = 160)"

definition lstrip :: "string \<Rightarrow> string" where
  "lstrip s = dropWhile is_space s"

definition strip :: "string \<Rightarrow> string" where
  "strip s = rev (dropWhile is_space (rev (lstrip s)))"

text \<open>\<open>ord(c) < 0x21 or ord(c) == 0x7F\<close> and its variant with \<open>0x20\<close>.\<close>

definition ctrl_or_blank :: "char \<Rightarrow> bool" where
  "ctrl_or_blank c \<longleftrightarrow> ord_of c < 33 \<or> ord_of c = 127"

definition ctrl_char :: "char \<Rightarrow> bool" where
  "ctrl_char c \<longleftrightarrow> ord_of c < 32 \<or> ord_of c = 127"

definition is_upper_ascii :: "char \<Rightarrow> bool" where
  "is_upper_ascii c \<longleftrightarrow> 65 \<le> ord_of c \<and> ord_of c \<le> 90"

definition is_digit_ascii :: "char \<Rightarrow> bool" where
  "is_digit_ascii c \<longleftrightarrow> 48 \<le> ord_of c \<and> ord_of c \<le> 57"

definition is_alpha_ascii :: "char \<Rightarrow> bool" where
  "is_alpha_ascii c \<longleftrightarrow> is_upper_ascii c \<or> (97 \<le> ord_of c \<and> ord_of c \<le> 122)"

definition is_alnum_ascii :: "char \<Rightarrow> bool" where
  "is_alnum_ascii c \<longleftrightarrow> is_alpha_ascii c \<or> is_digit_ascii c"

text \<open>\<open>str.lower\<close> and \<open>str.casefold\<close> below code point 256: the two Latin-1 upper-case
  blocks move by 32, and case folding turns the sharp s (223) into two letters. (The micro sign,
  181, folds to a Greek letter outside this range and is left as it is.)\<close>

definition lower_char :: "char \<Rightarrow> char" where
  "lower_char c = (let n = ord_of c in
     if (65 \<le> n \<and> n \<le> 90) \<or> (192 \<le> n \<and> n \<le> 222 \<and> n \<noteq> 215) then char_of (n + 32) else c)"

definition lower :: "string \<Rightarrow> string" where
  "lower s = map lower_char s"

definition casefold :: "string \<Rightarrow> string" where
  "casefold s = concat (map (\<lambda>c. if ord_of c = 223 then ''ss'' else [lower_char c]) s)"

definition starts_with :: "string \<Rightarrow> string \<Rightarrow> bool" where
  "starts_with p s \<longleftrightarrow> take (length p) s = p"

definition ends_with :: "string \<Rightarrow> string \<Rightarrow> bool" where
  "ends_with p s \<longleftrightarrow> starts_with (rev p) (rev s)"

text \<open>\<open>s.find(p)\<close>: the first offset at which \<open>p\<close> occurs, \<open>None\<close> for -1.\<close>

fun find_sub :: "string \<Rightarrow> string \<Rightarrow> nat option" where
  "find_sub p [] = (if p = [] then Some 0 else None)"
| "find_sub p (c # s) =
     (if starts_with p (c # s) then Some 0 else map_option Suc (find_sub p s))"

definition contains :: "string \<Rightarrow> string \<Rightarrow> bool" where
  "contains p s \<longleftrightarrow> find_sub p s \<noteq> None"

text \<open>\<open>s.partition(c)\<close> for a one-character separator: the part before it, whether it occurs,
  the part after it.\<close>

fun partition_at :: "char \<Rightarrow> string \<Rightarrow> string \<times> bool \<times> string" where
  "partition_at c [] = ([], False, [])"
| "partition_at c (x # xs) =
     (if x = c then ([], True, xs)
      else (case partition_at c xs of (a, found, b) \<Rightarrow> (x # a, found, b)))"

text \<open>Decimal text of an integer, as \<open>str\<close> and f-strings print it.\<close>

definition digit_char :: "nat \<Rightarrow> char" where
  "digit_char d = char_of (48 + d)"

fun nat_text :: "nat \<Rightarrow> string" where
  "nat_text n = (if n < 10 then [digit_char n] else nat_text (n div 10) @ [digit_char (n mod 10)])"

declare nat_text.simps [simp del]

definition int_text :: "int \<Rightarrow> string" where
  "int_text i = (if i < 0 then CHR ''-'' # nat_text (nat (- i)) else nat_text (nat i))"

text \<open>UTF-8 length and encoding of a text below code point 256.\<close>

definition utf8_char :: "char \<Rightarrow> bytes" where
  "utf8_char c = (let n = ord_of c in
     if n < 128 then [of_nat n] else [of_nat (192 + n div 64), of_nat (128 + n mod 64)])"

definition utf8 :: "string \<Rightarrow> bytes" where
  "utf8 s = concat (map utf8_char s)"

lemma find_sub_bound: "find_sub p s = Some i \<Longrightarrow> i + length p \<le> length s"
proof (induction p s arbitrary: i rule: find_sub.induct)
  case (1 p)
  then show ?case by (simp split: if_splits)
next
  case (2 p c s)
  show ?case
  proof (cases "starts_with p (c # s)")
    case True
    then have "length p \<le> length (c # s)"
      unfolding starts_with_def by (metis length_take min.cobounded1 min_def nat_le_linear)
    with True 2 show ?thesis by simp
  next
    case False
    with "2.prems" obtain j where "find_sub p s = Some j" "i = Suc j" by auto
    with "2.IH" [OF False] show ?thesis by simp
  qed
qed

lemma find_sub_occurs: "find_sub p s = Some i \<Longrightarrow> take (length p) (drop i s) = p"
proof (induction p s arbitrary: i rule: find_sub.induct)
  case (1 p)
  then show ?case by (simp split: if_splits)
next
  case (2 p c s)
  then show ?case by (auto simp: starts_with_def split: if_splits)
qed

section \<open>Dictionaries that keep their insertion order\<close>

text \<open>A Python \<open>dict\<close> is an association list with distinct keys; \<open>AList.update\<close>
  overwrites in place or appends, \<open>AList.delete\<close> removes.\<close>

definition dict_ok :: "('k \<times> 'v) list \<Rightarrow> bool" where
  "dict_ok al \<longleftrightarrow> distinct (map fst al)"

lemma dict_ok_update [simp]: "dict_ok al \<Longrightarrow> dict_ok (AList.update k v al)"
  by (simp add: dict_ok_def distinct_update)

lemma dict_ok_delete [simp]: "dict_ok al \<Longrightarrow> dict_ok (AList.delete k al)"
  by (simp add: dict_ok_def distinct_delete)

lemma dict_ok_Nil [simp]: "dict_ok []"
  by (simp add: dict_ok_def)

lemma dict_ok_filter [simp]: "dict_ok al \<Longrightarrow> dict_ok (filter P al)"
  by (auto simp: dict_ok_def distinct_map intro: inj_on_subset)

lemma map_of_filter_Some:
  "dict_ok al \<Longrightarrow> map_of (filter P al) k = Some v \<longleftrightarrow> map_of al k = Some v \<and> P (k, v)"
  by (auto simp: dict_ok_def distinct_map map_of_eq_Some_iff inj_on_def)

lemma length_update:
  "length (AList.update k v al) = (if map_of al k = None then Suc (length al) else length al)"
  by (induction al) auto

lemma set_update:
  "dict_ok al \<Longrightarrow> set (AList.update k v al) = insert (k, v) {p \<in> set al. fst p \<noteq> k}"
  by (induction al) (auto simp: dict_ok_def image_iff)

lemma set_delete: "set (AList.delete k al) = {p \<in> set al. fst p \<noteq> k}"
  by (auto simp: AList.delete_eq)

section \<open>The error-state monad\<close>

text \<open>
  A stateful operation takes the state and returns its result, or the exception it raised, with
  the state it left. \<open>mbind\<close> is sequencing (an exception skips the rest and keeps the state),
  \<open>mtry\<close> is \<open>try/except\<close>.
\<close>

type_synonym ('s, 'a) action = "'s \<Rightarrow> (py_exn + 'a) \<times> 's"

definition mret :: "'a \<Rightarrow> ('s, 'a) action" where
  "mret x = (\<lambda>s. (Inr x, s))"

definition mraise :: "py_exn \<Rightarrow> ('s, 'a) action" where
  "mraise e = (\<lambda>s. (Inl e, s))"

definition mbind :: "('s, 'a) action \<Rightarrow> ('a \<Rightarrow> ('s, 'b) action) \<Rightarrow> ('s, 'b) action" where
  "mbind m f = (\<lambda>s. case m s of (Inl e, s') \<Rightarrow> (Inl e, s') | (Inr x, s') \<Rightarrow> f x s')"

definition mtry :: "('s, 'a) action \<Rightarrow> (py_exn \<Rightarrow> ('s, 'a) action) \<Rightarrow> ('s, 'a) action" where
  "mtry m h = (\<lambda>s. case m s of (Inl e, s') \<Rightarrow> h e s' | (Inr x, s') \<Rightarrow> (Inr x, s'))"

definition mget :: "('s \<Rightarrow> 'a) \<Rightarrow> ('s, 'a) action" where
  "mget f = (\<lambda>s. (Inr (f s), s))"

definition mlift :: "py_exn + 'a \<Rightarrow> ('s, 'a) action" where
  "mlift r = (\<lambda>s. (r, s))"

definition mguard :: "bool \<Rightarrow> py_exn \<Rightarrow> ('s, unit) action" where
  "mguard bad e = (if bad then mraise e else mret ())"

lemmas action_defs = mret_def mraise_def mbind_def mtry_def mget_def mlift_def mguard_def

lemma mbind_Inr_iff [err_simps]:
  "mbind m f s = (Inr y, t) \<longleftrightarrow> (\<exists>x u. m s = (Inr x, u) \<and> f x u = (Inr y, t))"
  by (auto simp: mbind_def split: prod.splits sum.splits)

lemma mbind_Inl_iff [err_simps]:
  "mbind m f s = (Inl e, t) \<longleftrightarrow>
     m s = (Inl e, t) \<or> (\<exists>x u. m s = (Inr x, u) \<and> f x u = (Inl e, t))"
  by (auto simp: mbind_def split: prod.splits sum.splits)

lemma mtry_Inr [err_simps]:
  "mtry m h s = (Inr x, t) \<longleftrightarrow> m s = (Inr x, t) \<or> (\<exists>e u. m s = (Inl e, u) \<and> h e u = (Inr x, t))"
  by (auto simp: mtry_def split: prod.splits sum.splits)

lemma mret_iff [err_simps]: "mret x s = (r, t) \<longleftrightarrow> r = Inr x \<and> t = s"
  by (auto simp: mret_def)

lemma mraise_iff [err_simps]: "mraise e s = (r, t) \<longleftrightarrow> r = Inl e \<and> t = s"
  by (auto simp: mraise_def)

lemma mget_iff [err_simps]: "mget f s = (r, t) \<longleftrightarrow> r = Inr (f s) \<and> t = s"
  by (auto simp: mget_def)

lemma mlift_iff [err_simps]: "mlift x s = (r, t) \<longleftrightarrow> x = r \<and> t = s"
  by (auto simp: mlift_def)

lemma mguard_iff [err_simps]:
  "mguard bad e s = (r, t) \<longleftrightarrow> r = (if bad then Inl e else Inr ()) \<and> t = s"
  by (auto simp: mguard_def mret_def mraise_def)

lemma mbind_assoc: "mbind (mbind m f) g = mbind m (\<lambda>x. mbind (f x) g)"
  by (rule ext) (simp add: mbind_def split: prod.split sum.split)

section \<open>Invariants of step functions\<close>

text \<open>A component whose every step keeps an invariant keeps it over every run.\<close>

locale stepwise =
  fixes step :: "'e \<Rightarrow> 's \<Rightarrow> 's" and inv :: "'s \<Rightarrow> bool"
  assumes step_inv: "inv s \<Longrightarrow> inv (step e s)"
begin

lemma run_inv: "inv s \<Longrightarrow> inv (fold step es s)"
  by (induction es arbitrary: s) (auto intro: step_inv)

lemma run_inv_split: "inv s \<Longrightarrow> es = es1 @ es2 \<Longrightarrow> inv (fold step es1 s)"
  by (simp add: run_inv)

end

section \<open>What an action does to the state\<close>

text \<open>\<open>steps_by R m\<close>: the state \<open>m\<close> leaves, whether it returns or raises, is related
  by \<open>R\<close> to the state it found. For a reflexive and transitive \<open>R\<close> this is proved
  call by call.\<close>

definition steps_by :: "('s \<Rightarrow> 's \<Rightarrow> bool) \<Rightarrow> ('s, 'a) action \<Rightarrow> bool" where
  "steps_by R m \<longleftrightarrow> (\<forall>s. R s (snd (m s)))"

lemma steps_byD: "steps_by R m \<Longrightarrow> m s = (r, s') \<Longrightarrow> R s s'"
  unfolding steps_by_def by (metis snd_conv)

lemma steps_byI: "(\<And>s r s'. m s = (r, s') \<Longrightarrow> R s s') \<Longrightarrow> steps_by R m"
  unfolding steps_by_def by (metis prod.collapse)

text \<open>\<open>yields m P\<close>: whatever \<open>m\<close> returns satisfies \<open>P\<close>.\<close>

definition yields :: "('s, 'a) action \<Rightarrow> ('a \<Rightarrow> bool) \<Rightarrow> bool" where
  "yields m P \<longleftrightarrow> (\<forall>s x s'. m s = (Inr x, s') \<longrightarrow> P x)"

lemma yieldsI: "(\<And>s x s'. m s = (Inr x, s') \<Longrightarrow> P x) \<Longrightarrow> yields m P"
  by (simp add: yields_def)

fun mmap :: "('a \<Rightarrow> ('s, 'b) action) \<Rightarrow> 'a list \<Rightarrow> ('s, 'b list) action" where
  "mmap f [] = mret []"
| "mmap f (x # xs) = mbind (f x) (\<lambda>y. mbind (mmap f xs) (\<lambda>ys. mret (y # ys)))"

fun mfor :: "'a list \<Rightarrow> ('a \<Rightarrow> ('s, unit) action) \<Rightarrow> ('s, unit) action" where
  "mfor [] f = mret ()"
| "mfor (x # xs) f = mbind (f x) (\<lambda>_. mfor xs f)"

locale action_relation =
  fixes R :: "'s \<Rightarrow> 's \<Rightarrow> bool"
  assumes R_refl: "R s s"
    and R_trans: "R s t \<Longrightarrow> R t u \<Longrightarrow> R s u"
begin

lemma steps_mret: "steps_by R (mret x)"
  by (simp add: steps_by_def mret_def R_refl)

lemma steps_mraise: "steps_by R (mraise e)"
  by (simp add: steps_by_def mraise_def R_refl)

lemma steps_mget: "steps_by R (mget f)"
  by (simp add: steps_by_def mget_def R_refl)

lemma steps_mlift: "steps_by R (mlift r)"
  by (simp add: steps_by_def mlift_def R_refl)

lemma steps_mguard: "steps_by R (mguard b e)"
  by (simp add: mguard_def steps_mret steps_mraise)

lemma steps_mbind: "steps_by R m \<Longrightarrow> (\<And>x. steps_by R (f x)) \<Longrightarrow> steps_by R (mbind m f)"
  unfolding steps_by_def mbind_def
  by (auto split: prod.splits sum.splits intro: R_trans) (metis R_trans snd_conv)+

lemma steps_mbind_yields:
  "steps_by R m \<Longrightarrow> yields m P \<Longrightarrow> (\<And>x. P x \<Longrightarrow> steps_by R (f x)) \<Longrightarrow> steps_by R (mbind m f)"
  unfolding steps_by_def mbind_def yields_def
  by (auto split: prod.splits sum.splits intro: R_trans) (metis R_trans snd_conv)+

lemma steps_mtry: "steps_by R m \<Longrightarrow> (\<And>e. steps_by R (h e)) \<Longrightarrow> steps_by R (mtry m h)"
  unfolding steps_by_def mtry_def
  by (auto split: prod.splits sum.splits) (metis R_trans snd_conv)+

lemma steps_mfor: "(\<And>x. x \<in> set xs \<Longrightarrow> steps_by R (f x)) \<Longrightarrow> steps_by R (mfor xs f)"
  by (induction xs) (auto intro: steps_mret steps_mbind)

lemma steps_mmap: "(\<And>x. x \<in> set xs \<Longrightarrow> steps_by R (f x)) \<Longrightarrow> steps_by R (mmap f xs)"
  by (induction xs) (auto intro: steps_mret steps_mbind)

lemma steps_if: "(b \<Longrightarrow> steps_by R m) \<Longrightarrow> (\<not> b \<Longrightarrow> steps_by R n) \<Longrightarrow> steps_by R (if b then m else n)"
  by simp

lemma steps_case_option:
  "steps_by R m \<Longrightarrow> (\<And>x. steps_by R (f x)) \<Longrightarrow> steps_by R (case v of None \<Rightarrow> m | Some x \<Rightarrow> f x)"
  by (cases v) auto

lemmas steps_intros = steps_mret steps_mraise steps_mget steps_mlift steps_mguard
  steps_mbind steps_mtry steps_mfor steps_mmap steps_if steps_case_option

end

end
