(* ===== verification/Resource_Limits.thy ===== *)
theory Resource_Limits
  imports Prelude
begin

text \<open>
  The three in-memory limiters of \<open>src/folio_lattice/resource_limits.py\<close>: the fixed-window
  rate limiter, the limiter that charges tenant, actor and connection buckets together, and the
  concurrency limiter. Each call runs under the object's lock, so a call is one step. The clock is
  an argument: the instant \<open>self._clock()\<close> returned.
\<close>

section \<open>The fixed-window rate limiter\<close>

record rate_limiter =
  rl_limit :: int
  rl_window_seconds :: rat
  rl_max_keys :: int
  rl_windows :: "(string \<times> rat \<times> int) list"

definition rate_limiter_init :: "int \<Rightarrow> rat \<Rightarrow> int \<Rightarrow> py_exn + rate_limiter" where
  "rate_limiter_init limit window_seconds max_keys =
     (if limit < 1 \<or> window_seconds \<le> 0 \<or> max_keys < 1
      then Inl (ValueError ''rate limiter bounds must be positive'')
      else Inr \<lparr>rl_limit = limit, rl_window_seconds = window_seconds,
                rl_max_keys = max_keys, rl_windows = []\<rparr>)"

definition live_windows :: "rat \<Rightarrow> rat \<Rightarrow> ('k \<times> rat \<times> int) list \<Rightarrow> ('k \<times> rat \<times> int) list" where
  "live_windows now window_seconds ws =
     filter (\<lambda>(candidate, started_at, hits). \<not> window_seconds \<le> now - started_at) ws"

definition retry_after :: "rat \<Rightarrow> int" where
  "retry_after t = max 1 \<lceil>t\<rceil>"

definition rate_allow :: "rat \<Rightarrow> string \<Rightarrow> rate_limiter \<Rightarrow> (bool \<times> int) \<times> rate_limiter" where
  "rate_allow now key l =
     (let ws = live_windows now (rl_window_seconds l) (rl_windows l) in
      case map_of ws key of
        None \<Rightarrow>
          if rl_max_keys l \<le> int (length ws)
          then ((False, retry_after (rl_window_seconds l)), l\<lparr>rl_windows := ws\<rparr>)
          else ((True, 0), l\<lparr>rl_windows := AList.update key (now, 1) ws\<rparr>)
      | Some (started_at, hits) \<Rightarrow>
          if rl_limit l \<le> hits
          then ((False, retry_after (rl_window_seconds l - (now - started_at))),
                l\<lparr>rl_windows := ws\<rparr>)
          else ((True, 0), l\<lparr>rl_windows := AList.update key (started_at, hits + 1) ws\<rparr>))"

text \<open>The object between calls: bounds positive, one window per key, no more windows than
  \<open>max_keys\<close>, every hits between 1 and the limit.\<close>

definition rate_ok :: "rate_limiter \<Rightarrow> bool" where
  "rate_ok l \<longleftrightarrow> 1 \<le> rl_limit l \<and> 0 < rl_window_seconds l \<and> 1 \<le> rl_max_keys l \<and>
     dict_ok (rl_windows l) \<and> int (length (rl_windows l)) \<le> rl_max_keys l \<and>
     (\<forall>(k, s, c) \<in> set (rl_windows l). 1 \<le> c \<and> c \<le> rl_limit l)"

definition rate_step :: "rat \<times> string \<Rightarrow> rate_limiter \<Rightarrow> rate_limiter" where
  "rate_step e l = snd (rate_allow (fst e) (snd e) l)"

lemma live_windows_subset: "set (live_windows now w ws) \<subseteq> set ws"
  by (auto simp: live_windows_def)

lemma live_windows_dict_ok [simp]: "dict_ok ws \<Longrightarrow> dict_ok (live_windows now w ws)"
  by (simp add: live_windows_def)

lemma live_windows_length: "length (live_windows now w ws) \<le> length ws"
  by (simp add: live_windows_def)

lemma live_windows_lookup:
  "dict_ok ws \<Longrightarrow> map_of (live_windows now w ws) k =
     (case map_of ws k of Some (s, c) \<Rightarrow> if w \<le> now - s then None else Some (s, c)
      | None \<Rightarrow> None)"
proof -
  assume ok: "dict_ok ws"
  have "map_of (live_windows now w ws) k = Some v \<longleftrightarrow> map_of ws k = Some v \<and> \<not> w \<le> now - fst v" for v
    using ok by (cases v) (simp add: live_windows_def map_of_filter_Some)
  then show ?thesis
    by (cases "map_of ws k"; cases "map_of (live_windows now w ws) k")
       (fastforce split: if_splits)+
qed

lemma rate_allow_frame:
  "rl_limit (snd (rate_allow now k l)) = rl_limit l"
  "rl_window_seconds (snd (rate_allow now k l)) = rl_window_seconds l"
  "rl_max_keys (snd (rate_allow now k l)) = rl_max_keys l"
  by (auto simp: rate_allow_def Let_def split: option.splits)

lemma rate_allow_ok: "rate_ok l \<Longrightarrow> rate_ok (snd (rate_allow now k l))"
proof -
  assume ok: "rate_ok l"
  define ws where "ws = live_windows now (rl_window_seconds l) (rl_windows l)"
  have ws: "dict_ok ws" "int (length ws) \<le> rl_max_keys l"
    "\<And>k s c. (k, s, c) \<in> set ws \<Longrightarrow> 1 \<le> c \<and> 0 \<le> c \<and> c \<le> rl_limit l"
    using ok live_windows_length [of now "rl_window_seconds l" "rl_windows l"]
      live_windows_subset [of now "rl_window_seconds l" "rl_windows l"]
    by (fastforce simp: rate_ok_def ws_def)+
  show ?thesis
    using ok ws map_of_SomeD [of ws k]
    by (fastforce simp: rate_allow_def rate_ok_def ws_def [symmetric] set_update length_update Let_def
        split: option.splits)
qed

interpretation rate: stepwise rate_step rate_ok
  by unfold_locales (simp add: rate_step_def rate_allow_ok)

subsection \<open>How many requests one key gets through\<close>

text \<open>The instants at which requests of one key were admitted in a run.\<close>

fun admitted :: "string \<Rightarrow> (rat \<times> string) list \<Rightarrow> rate_limiter \<Rightarrow> rat list" where
  "admitted k [] l = []"
| "admitted k (e # es) l =
     (if snd e = k \<and> fst (fst (rate_allow (fst e) (snd e) l)) then [fst e] else [])
       @ admitted k es (rate_step e l)"

definition live_window :: "rat \<Rightarrow> string \<Rightarrow> rate_limiter \<Rightarrow> (rat \<times> int) option" where
  "live_window now k l = map_of (live_windows now (rl_window_seconds l) (rl_windows l)) k"

lemma live_window_eq:
  "rate_ok l \<Longrightarrow> live_window now k l =
     (case map_of (rl_windows l) k of
        Some (s, c) \<Rightarrow> if rl_window_seconds l \<le> now - s then None else Some (s, c)
      | None \<Rightarrow> None)"
  by (simp add: live_window_def rate_ok_def live_windows_lookup)

lemma rate_step_lookup:
  assumes "rate_ok l"
  shows "map_of (rl_windows (rate_step (now, k') l)) k =
    (if k' = k \<and> fst (fst (rate_allow now k' l))
     then (case live_window now k l of None \<Rightarrow> Some (now, 1) | Some (s, c) \<Rightarrow> Some (s, c + 1))
     else live_window now k l)"
  using assms by (auto simp: rate_step_def rate_allow_def live_window_def Let_def update_conv'
      split: option.splits)

lemma rate_allow_admits_live:
  "live_window now k l = Some (s, c) \<Longrightarrow> fst (fst (rate_allow now k l)) \<longleftrightarrow> c < rl_limit l"
  by (auto simp: rate_allow_def live_window_def Let_def)

lemma rate_step_frame [simp]:
  "rl_limit (rate_step e l) = rl_limit l"
  "rl_window_seconds (rate_step e l) = rl_window_seconds l"
  by (simp_all add: rate_step_def rate_allow_frame)

lemma admitted_times: "t \<in> set (admitted k es l) \<Longrightarrow> t \<in> fst ` set es"
  by (induction es arbitrary: l) (auto split: if_splits)

definition admitted_before :: "rat \<Rightarrow> string \<Rightarrow> (rat \<times> string) list \<Rightarrow> rate_limiter \<Rightarrow> int" where
  "admitted_before b k es l = int (length (filter (\<lambda>t. t < b) (admitted k es l)))"

lemma admitted_before_Cons:
  "admitted_before b k ((t, k') # es) l =
     (if k' = k \<and> fst (fst (rate_allow t k' l)) \<and> t < b then 1 else 0)
       + admitted_before b k es (rate_step (t, k') l)"
  by (auto simp: admitted_before_def)

lemma admitted_before_none:
  "\<forall>e \<in> set es. b \<le> fst e \<Longrightarrow> admitted_before b k es l = 0"
  using admitted_times [of _ k es l]
  by (force simp: admitted_before_def filter_empty_conv not_less)

text \<open>Inside one window the budget left is the limit minus the hits.\<close>

lemma admitted_in_window:
  assumes "rate_ok l" "map_of (rl_windows l) k = Some (s, c)" "sorted (map fst es)"
    "b \<le> s + rl_window_seconds l"
  shows "admitted_before b k es l \<le> rl_limit l - c"
  using assms
proof (induction es arbitrary: l c)
  case Nil
  then show ?case using map_of_SomeD [of "rl_windows l" k "(s, c)"]
    by (auto simp: admitted_before_def rate_ok_def)
next
  case (Cons e es)
  obtain t k' where e: "e = (t, k')" by (cases e)
  have bound: "c \<le> rl_limit l"
    using Cons.prems(1,2) map_of_SomeD [of "rl_windows l" k "(s, c)"] by (auto simp: rate_ok_def)
  show ?case
  proof (cases "t < b")
    case False
    with Cons.prems(3) have "\<forall>x \<in> set (e # es). b \<le> fst x" by (auto simp: e)
    then show ?thesis using bound admitted_before_none [of "e # es" b k l] by simp
  next
    case True
    then have live: "live_window t k l = Some (s, c)"
      using Cons.prems by (simp add: live_window_eq)
    let ?l = "rate_step (t, k') l"
    have ok: "rate_ok ?l" using Cons.prems(1) by (rule rate.step_inv)
    show ?thesis
    proof (cases "k' = k \<and> c < rl_limit l")
      case True
      then have "map_of (rl_windows ?l) k = Some (s, c + 1)"
        using Cons.prems(1) live by (auto simp: rate_step_lookup rate_allow_admits_live)
      from Cons.IH [OF ok this] Cons.prems(3,4)
      have "admitted_before b k es ?l \<le> rl_limit l - (c + 1)" by (simp add: e)
      then show ?thesis by (auto simp: e admitted_before_Cons)
    next
      case False
      then have no: "\<not> (k' = k \<and> fst (fst (rate_allow t k' l)))"
        using live by (auto simp: rate_allow_admits_live)
      then have "map_of (rl_windows ?l) k = Some (s, c)"
        using Cons.prems(1) live by (simp add: rate_step_lookup)
      from Cons.IH [OF ok this] Cons.prems(3,4)
      have "admitted_before b k es ?l \<le> rl_limit l - c" by (simp add: e)
      moreover have "admitted_before b k (e # es) l = admitted_before b k es ?l"
        using no by (auto simp: e admitted_before_Cons)
      ultimately show ?thesis by simp
    qed
  qed
qed

text \<open>With no live window, at most one fresh window serves an interval of the window's length.\<close>

lemma admitted_fresh:
  assumes "rate_ok l" "sorted (map fst es)" "\<forall>e \<in> set es. b \<le> fst e + rl_window_seconds l"
    "\<forall>e \<in> set es. live_window (fst e) k l = None"
  shows "admitted_before b k es l \<le> rl_limit l"
  using assms
proof (induction es arbitrary: l)
  case Nil
  then show ?case by (simp add: admitted_before_def rate_ok_def)
next
  case (Cons e es)
  obtain t k' where e: "e = (t, k')" by (cases e)
  let ?l = "rate_step (t, k') l"
  have ok: "rate_ok ?l" using Cons.prems(1) by (rule rate.step_inv)
  have dead: "live_window t k l = None" using Cons.prems(4) by (simp add: e)
  show ?case
  proof (cases "k' = k \<and> fst (fst (rate_allow t k' l))")
    case True
    then have "map_of (rl_windows ?l) k = Some (t, 1)"
      using Cons.prems(1) dead by (auto simp: rate_step_lookup)
    from admitted_in_window [OF ok this, of es b] Cons.prems(2,3)
    have "admitted_before b k es ?l \<le> rl_limit l - 1" by (simp add: e)
    then show ?thesis by (auto simp: e admitted_before_Cons)
  next
    case False
    then have none: "map_of (rl_windows ?l) k = None"
      using Cons.prems(1) dead by (auto simp: rate_step_lookup)
    have "admitted_before b k es ?l \<le> rl_limit ?l"
      by (rule Cons.IH) (use ok none Cons.prems(2,3) in \<open>auto simp: e live_window_eq\<close>)
    moreover have "admitted_before b k (e # es) l = admitted_before b k es ?l"
      using False by (auto simp: e admitted_before_Cons)
    ultimately show ?thesis by simp
  qed
qed

lemma admitted_two_windows:
  assumes "rate_ok l" "map_of (rl_windows l) k = Some (s, c)" "sorted (map fst es)"
    "b \<le> s + 2 * rl_window_seconds l"
  shows "admitted_before b k es l \<le> 2 * rl_limit l - c"
  using assms
proof (induction es arbitrary: l c)
  case Nil
  then show ?case using map_of_SomeD [of "rl_windows l" k "(s, c)"]
    by (auto simp: admitted_before_def rate_ok_def)
next
  case (Cons e es)
  obtain t k' where e: "e = (t, k')" by (cases e)
  have bound: "c \<le> rl_limit l"
    using Cons.prems(1,2) map_of_SomeD [of "rl_windows l" k "(s, c)"] by (auto simp: rate_ok_def)
  let ?l = "rate_step (t, k') l"
  have ok: "rate_ok ?l" using Cons.prems(1) by (rule rate.step_inv)
  show ?case
  proof (cases "rl_window_seconds l \<le> t - s")
    case True
    have "admitted_before b k (e # es) l \<le> rl_limit l"
    proof (rule admitted_fresh [OF Cons.prems(1,3)])
      show "\<forall>x \<in> set (e # es). b \<le> fst x + rl_window_seconds l"
        using True Cons.prems(3,4) by (force simp: e)
      show "\<forall>x \<in> set (e # es). live_window (fst x) k l = None"
        using True Cons.prems(1,2,3) by (force simp: e live_window_eq)
    qed
    with bound show ?thesis by simp
  next
    case False
    then have live: "live_window t k l = Some (s, c)"
      using Cons.prems by (simp add: live_window_eq)
    show ?thesis
    proof (cases "k' = k \<and> c < rl_limit l")
      case True
      then have "map_of (rl_windows ?l) k = Some (s, c + 1)"
        using Cons.prems(1) live by (auto simp: rate_step_lookup rate_allow_admits_live)
      from Cons.IH [OF ok this] Cons.prems(3,4)
      have "admitted_before b k es ?l \<le> 2 * rl_limit l - (c + 1)" by (simp add: e)
      then show ?thesis by (auto simp: e admitted_before_Cons)
    next
      case False
      then have no: "\<not> (k' = k \<and> fst (fst (rate_allow t k' l)))"
        using live by (auto simp: rate_allow_admits_live)
      then have "map_of (rl_windows ?l) k = Some (s, c)"
        using Cons.prems(1) live by (simp add: rate_step_lookup)
      from Cons.IH [OF ok this] Cons.prems(3,4)
      have "admitted_before b k es ?l \<le> 2 * rl_limit l - c" by (simp add: e)
      moreover have "admitted_before b k (e # es) l = admitted_before b k es ?l"
        using no by (auto simp: e admitted_before_Cons)
      ultimately show ?thesis by simp
    qed
  qed
qed

lemma admitted_span:
  assumes "rate_ok l" "sorted (map fst es)"
  shows "int (length (filter (\<lambda>t. a \<le> t \<and> t < a + rl_window_seconds l) (admitted k es l)))
           \<le> 2 * rl_limit l"
  using assms
proof (induction es arbitrary: l)
  case Nil
  then show ?case by (simp add: rate_ok_def)
next
  case (Cons e es)
  show ?case
  proof (cases "fst e < a")
    case True
    with Cons.IH [OF rate.step_inv [OF Cons.prems(1)]] Cons.prems(2) show ?thesis by auto
  next
    case False
    with Cons.prems(2) have ge: "\<forall>x \<in> set (e # es). a \<le> fst x" by auto
    let ?b = "a + rl_window_seconds l"
    have "filter (\<lambda>t. a \<le> t \<and> t < ?b) (admitted k (e # es) l)
        = filter (\<lambda>t. t < ?b) (admitted k (e # es) l)"
      using ge admitted_times [of _ k "e # es" l] by (intro filter_cong) auto
    moreover have "admitted_before ?b k (e # es) l \<le> 2 * rl_limit l"
    proof (cases "map_of (rl_windows l) k")
      case None
      with Cons.prems ge have "admitted_before ?b k (e # es) l \<le> rl_limit l"
        by (intro admitted_fresh) (auto simp: live_window_eq)
      then show ?thesis using Cons.prems(1) by (simp add: rate_ok_def)
    next
      case (Some v)
      obtain s c where v: "v = (s, c)" by (cases v)
      have c: "1 \<le> c" "1 \<le> rl_limit l"
        using Cons.prems(1) Some v map_of_SomeD [of "rl_windows l" k v] by (auto simp: rate_ok_def)
      show ?thesis
      proof (cases "a \<le> s + rl_window_seconds l")
        case True
        from admitted_two_windows [OF Cons.prems(1) _ Cons.prems(2), of k s c ?b] Some v True c
        show ?thesis by simp
      next
        case False
        with Cons.prems ge Some v have "admitted_before ?b k (e # es) l \<le> rl_limit l"
          by (intro admitted_fresh) (force simp: live_window_eq)+
        with c show ?thesis by simp
      qed
    qed
    ultimately show ?thesis by (simp only: admitted_before_def)
  qed
qed

lemma rate_limiter_init_ok:
  "rate_limiter_init limit w mk = Inr l \<Longrightarrow>
     rate_ok l \<and> rl_limit l = limit \<and> rl_window_seconds l = w \<and> rl_windows l = []"
  by (auto simp: rate_limiter_init_def rate_ok_def split: if_splits)

text \<open>C39: a rate limiter that was built with positive bounds never admits more than twice its
  limit of one key's requests in any interval as long as its window, whatever requests of whatever
  keys arrive and however their instants fall, as long as the clock does not go back.\<close>

theorem rate_limit_bound:
  assumes "rate_limiter_init limit window mk = Inr l" and "sorted (map fst es)"
  shows "int (length (filter (\<lambda>t. a \<le> t \<and> t < a + window) (admitted k es l))) \<le> 2 * limit"
  using admitted_span [of l es a k] rate_limiter_init_ok [OF assms(1)] assms(2) by simp

lemma rate_limit_bound_witness:
  "int (length (filter (\<lambda>t. 0 \<le> t \<and> t < 0 + 60)
     (admitted ''k'' [(0, ''k''), (59, ''k''), (60, ''k'')]
       \<lparr>rl_limit = 1, rl_window_seconds = 60, rl_max_keys = 4, rl_windows = []\<rparr>))) \<le> 2 * 1"
  by (rule rate_limit_bound [of 1 60 4]) (simp_all add: rate_limiter_init_def)

section \<open>Tenant, actor and connection buckets charged together\<close>

record dimension_limiter =
  dl_limits :: "(string \<times> int) list"
  dl_window_seconds :: rat
  dl_max_keys :: int
  dl_windows :: "((string \<times> string) \<times> rat \<times> int) list"

definition dimension_limiter_init ::
  "(string \<times> int) list \<Rightarrow> rat \<Rightarrow> int \<Rightarrow> py_exn + dimension_limiter" where
  "dimension_limiter_init limits window_seconds max_keys =
     (if limits = [] \<or> list_ex (\<lambda>(name, limit). limit < 1) limits
      then Inl (ValueError ''dimension rate limits must be positive'')
      else if window_seconds \<le> 0 \<or> max_keys < 1
      then Inl (ValueError ''dimension rate bounds must be positive'')
      else Inr \<lparr>dl_limits = limits, dl_window_seconds = window_seconds,
                dl_max_keys = max_keys, dl_windows = []\<rparr>)"

definition dim_candidates :: "dimension_limiter \<Rightarrow> (string \<times> string) list \<Rightarrow> (string \<times> string) list"
where
  "dim_candidates l dimensions =
     filter (\<lambda>(name, v). map_of (dl_limits l) name \<noteq> None \<and> v \<noteq> []) dimensions"

definition dim_limit :: "dimension_limiter \<Rightarrow> string \<Rightarrow> int" where
  "dim_limit l name = (case map_of (dl_limits l) name of Some n \<Rightarrow> n | None \<Rightarrow> 0)"

text \<open>The first loop: the retry delay of the first candidate that has no room, if any.\<close>

fun dim_check :: "dimension_limiter \<Rightarrow> rat \<Rightarrow> ((string \<times> string) \<times> rat \<times> int) list
    \<Rightarrow> (string \<times> string) list \<Rightarrow> int option" where
  "dim_check l now ws [] = None"
| "dim_check l now ws (c # cs) =
     (case map_of ws c of
        Some (started_at, hits) \<Rightarrow>
          if dim_limit l (fst c) \<le> hits
          then Some (retry_after (dl_window_seconds l - (now - started_at)))
          else dim_check l now ws cs
      | None \<Rightarrow>
          if dl_max_keys l \<le> int (length (filter (\<lambda>w. fst (fst w) = fst c) ws))
          then Some (retry_after (dl_window_seconds l))
          else dim_check l now ws cs)"

text \<open>The second loop: every candidate's hits goes up by one, a new bucket starts now.\<close>

fun dim_charge :: "rat \<Rightarrow> ((string \<times> string) \<times> rat \<times> int) list
    \<Rightarrow> (string \<times> string) list \<Rightarrow> ((string \<times> string) \<times> rat \<times> int) list" where
  "dim_charge now ws [] = ws"
| "dim_charge now ws (c # cs) =
     (case (case map_of ws c of Some w \<Rightarrow> w | None \<Rightarrow> (now, 0)) of
        (started_at, hits) \<Rightarrow> dim_charge now (AList.update c (started_at, hits + 1) ws) cs)"

definition dim_allow :: "rat \<Rightarrow> (string \<times> string) list \<Rightarrow> dimension_limiter
    \<Rightarrow> (bool \<times> int) \<times> dimension_limiter" where
  "dim_allow now dimensions l =
     (let candidates = dim_candidates l dimensions in
      if candidates = [] then ((False, retry_after (dl_window_seconds l)), l)
      else let ws = live_windows now (dl_window_seconds l) (dl_windows l) in
        case dim_check l now ws candidates of
          Some r \<Rightarrow> ((False, r), l\<lparr>dl_windows := ws\<rparr>)
        | None \<Rightarrow> ((True, 0), l\<lparr>dl_windows := dim_charge now ws candidates\<rparr>))"

definition bucket :: "((string \<times> string) \<times> rat \<times> int) list \<Rightarrow> string \<times> string \<Rightarrow> int" where
  "bucket ws c = (case map_of ws c of Some (s, n) \<Rightarrow> n | None \<Rightarrow> 0)"

definition dim_ok :: "dimension_limiter \<Rightarrow> bool" where
  "dim_ok l \<longleftrightarrow> dict_ok (dl_windows l) \<and> (\<forall>(name, limit) \<in> set (dl_limits l). 1 \<le> limit) \<and>
     (\<forall>(c, s, n) \<in> set (dl_windows l). 1 \<le> n \<and> n \<le> dim_limit l (fst c))"

lemma bucket_update [simp]:
  "bucket (AList.update c (s, n) ws) d = (if d = c then n else bucket ws d)"
  by (auto simp: bucket_def update_conv')

lemma dim_charge_bucket:
  "distinct cs \<Longrightarrow> bucket (dim_charge now ws cs) c = bucket ws c + (if c \<in> set cs then 1 else 0)"
proof (induction cs arbitrary: ws)
  case Nil
  then show ?case by simp
next
  case (Cons d cs)
  have n: "n = bucket ws d"
    if "(case map_of ws d of Some w \<Rightarrow> w | None \<Rightarrow> (now, 0)) = (s, n)" for s n
    using that by (auto simp: bucket_def split: option.splits)
  show ?case using Cons by (auto split: prod.splits dest: n)
qed

lemma dim_charge_dict_ok: "dict_ok ws \<Longrightarrow> dict_ok (dim_charge now ws cs)"
  by (induction cs arbitrary: ws) (auto split: prod.splits option.splits)

lemma dim_check_None_bucket:
  "dim_check l now ws cs = None \<Longrightarrow> c \<in> set cs \<Longrightarrow> (\<And>d. d \<in> set cs \<Longrightarrow> 1 \<le> dim_limit l (fst d)) \<Longrightarrow>
     bucket ws c < dim_limit l (fst c)"
proof (induction cs)
  case Nil
  then show ?case by simp
next
  case (Cons d cs)
  have "bucket ws d < dim_limit l (fst d)"
    using Cons.prems(1) Cons.prems(3) [of d]
    by (auto simp: bucket_def split: option.splits if_splits)
  moreover have "dim_check l now ws cs = None"
    using Cons.prems(1) by (auto split: option.splits if_splits)
  ultimately show ?case using Cons by auto
qed

lemma dim_candidates_limit:
  assumes "dim_ok l" "c \<in> set (dim_candidates l ds)"
  shows "1 \<le> dim_limit l (fst c)"
  using assms map_of_SomeD [of "dl_limits l" "fst c"]
  by (auto simp: dim_candidates_def dim_limit_def dim_ok_def split: prod.splits)

lemma distinct_dim_candidates: "dict_ok ds \<Longrightarrow> distinct (dim_candidates l ds)"
  by (simp add: dim_candidates_def dict_ok_def distinct_map)

lemma bucket_member:
  "dict_ok ws \<Longrightarrow> (c, s, n) \<in> set ws \<Longrightarrow> n = bucket ws c"
  using map_of_is_SomeI [of ws c "(s, n)"] by (simp add: bucket_def dict_ok_def)

text \<open>Every bucket the charge loop leaves counts at least one request.\<close>

lemma dim_charge_positive:
  "\<forall>(c, s, n) \<in> set ws. 1 \<le> n \<Longrightarrow> dict_ok ws \<Longrightarrow> \<forall>(c, s, n) \<in> set (dim_charge now ws cs). 1 \<le> n"
proof (induction cs arbitrary: ws)
  case Nil
  then show ?case by simp
next
  case (Cons d cs)
  obtain s n where w: "(case map_of ws d of Some w \<Rightarrow> w | None \<Rightarrow> (now, 0)) = (s, n)"
    by (metis surj_pair)
  have "0 \<le> n"
    using w Cons.prems(1) by (auto dest!: map_of_SomeD split: option.splits)
  then have "\<forall>(c, s, n) \<in> set (AList.update d (s, n + 1) ws). 1 \<le> n"
    using Cons.prems by (auto simp: set_update)
  from Cons.IH [OF this] Cons.prems(2) w show ?case by simp
qed

lemma dim_allow_frame:
  "dl_limits (snd (dim_allow now ds l)) = dl_limits l"
  "dl_window_seconds (snd (dim_allow now ds l)) = dl_window_seconds l"
  "dl_max_keys (snd (dim_allow now ds l)) = dl_max_keys l"
  by (auto simp: dim_allow_def Let_def split: option.splits)

lemma dim_allow_ok:
  assumes ok: "dim_ok l" and dims: "dict_ok ds"
  shows "dim_ok (snd (dim_allow now ds l))"
proof -
  define ws where "ws = live_windows now (dl_window_seconds l) (dl_windows l)"
  define cs where "cs = dim_candidates l ds"
  have ws: "dict_ok ws" "\<forall>(c, s, n) \<in> set ws. 1 \<le> n \<and> n \<le> dim_limit l (fst c)"
    using ok live_windows_subset [of now "dl_window_seconds l" "dl_windows l"]
    by (fastforce simp: dim_ok_def ws_def)+
  have limit: "dim_limit (l\<lparr>dl_windows := w\<rparr>) = dim_limit l" for w
    by (simp add: dim_limit_def fun_eq_iff)
  show ?thesis
  proof (cases "cs \<noteq> [] \<and> dim_check l now ws cs = None")
    case True
    let ?ws = "dim_charge now ws cs"
    have dict: "dict_ok ?ws" using ws(1) by (rule dim_charge_dict_ok)
    have "n \<le> dim_limit l (fst c)" if "(c, s, n) \<in> set ?ws" for c s n
    proof -
      have "n = bucket ws c + (if c \<in> set cs then 1 else 0)"
        using bucket_member [OF dict that] distinct_dim_candidates [OF dims]
        by (simp add: cs_def dim_charge_bucket)
      moreover have "bucket ws c < dim_limit l (fst c)" if "c \<in> set cs"
        using dim_check_None_bucket [of l now ws cs c] True that dim_candidates_limit [OF ok]
        by (auto simp: cs_def)
      moreover have "n \<le> dim_limit l (fst c)" if "c \<notin> set cs" "n = bucket ws c"
        using that ws(2) \<open>(c, s, n) \<in> set ?ws\<close> dim_charge_positive [of ws now cs] ws
        by (fastforce simp: bucket_def dest: map_of_SomeD split: option.splits)
      ultimately show ?thesis by (auto split: if_splits)
    qed
    moreover have "\<forall>(c, s, n) \<in> set ?ws. 1 \<le> n"
      by (rule dim_charge_positive) (use ws in auto)
    ultimately show ?thesis
      using True ok dict
      by (auto simp: dim_allow_def dim_ok_def Let_def limit ws_def [symmetric] cs_def [symmetric])
  next
    case False
    then show ?thesis
      using ok ws
      by (auto simp: dim_allow_def dim_ok_def Let_def limit ws_def [symmetric] cs_def [symmetric]
          split: option.splits)
  qed
qed

text \<open>The combined limiter is all or nothing. A refused request changes no bucket beyond
  dropping the expired ones; an admitted request adds exactly one to each of its own buckets, none
  to any other, and leaves every one of them within its limit.\<close>

theorem dim_allow_atomic:
  assumes "dim_ok l" and "dict_ok ds" and "dim_candidates l ds \<noteq> []"
  shows "let live = live_windows now (dl_window_seconds l) (dl_windows l);
             after = dl_windows (snd (dim_allow now ds l)) in
    if fst (fst (dim_allow now ds l))
    then (\<forall>c. bucket after c = bucket live c + (if c \<in> set (dim_candidates l ds) then 1 else 0)) \<and>
         list_all (\<lambda>c. bucket after c \<le> dim_limit l (fst c)) (dim_candidates l ds)
    else after = live"
proof -
  define ws where "ws = live_windows now (dl_window_seconds l) (dl_windows l)"
  define cs where "cs = dim_candidates l ds"
  have d: "distinct cs" using assms(2) by (simp add: cs_def distinct_dim_candidates)
  have lim: "bucket ws c < dim_limit l (fst c)" if "dim_check l now ws cs = None" "c \<in> set cs" for c
    using dim_check_None_bucket [OF that] dim_candidates_limit [OF assms(1)] by (simp add: cs_def)
  show ?thesis
    using assms(3) d lim
    by (auto simp: dim_allow_def Let_def ws_def [symmetric] cs_def [symmetric] dim_charge_bucket
        list_all_iff zless_imp_add1_zle split: option.splits)
qed

lemma dim_allow_atomic_witness:
  "let l = \<lparr>dl_limits = [(''tenant'', 2)], dl_window_seconds = 60, dl_max_keys = 8,
            dl_windows = [((''tenant'', ''a''), 0, 1)]\<rparr>;
       live = live_windows 1 (dl_window_seconds l) (dl_windows l);
       after = dl_windows (snd (dim_allow 1 [(''tenant'', ''a'')] l)) in
    if fst (fst (dim_allow 1 [(''tenant'', ''a'')] l))
    then (\<forall>c. bucket after c = bucket live c +
            (if c \<in> set (dim_candidates l [(''tenant'', ''a'')]) then 1 else 0)) \<and>
         list_all (\<lambda>c. bucket after c \<le> dim_limit l (fst c)) (dim_candidates l [(''tenant'', ''a'')])
    else after = live"
  unfolding Let_def
  by (rule dim_allow_atomic [unfolded Let_def])
     (simp_all add: dim_ok_def dict_ok_def dim_limit_def dim_candidates_def)

section \<open>The concurrency limiter\<close>

record concurrency_limiter =
  cl_limit :: int
  cl_per_key_limit :: int
  cl_max_keys :: int
  cl_active :: "(string \<times> int) list"
  cl_total :: int

definition concurrency_limiter_init :: "int \<Rightarrow> int \<Rightarrow> int \<Rightarrow> py_exn + concurrency_limiter" where
  "concurrency_limiter_init limit per_key_limit max_keys =
     (if limit < 1 \<or> per_key_limit < 1 \<or> max_keys < 1
      then Inl (ValueError ''concurrency bounds must be positive'')
      else Inr \<lparr>cl_limit = limit, cl_per_key_limit = per_key_limit, cl_max_keys = max_keys,
                cl_active = [], cl_total = 0\<rparr>)"

definition active_count :: "concurrency_limiter \<Rightarrow> string \<Rightarrow> int" where
  "active_count l key = (case map_of (cl_active l) key of Some n \<Rightarrow> n | None \<Rightarrow> 0)"

definition try_acquire :: "string \<Rightarrow> concurrency_limiter \<Rightarrow> bool \<times> concurrency_limiter" where
  "try_acquire key l =
     (let active = active_count l key in
      if cl_limit l \<le> cl_total l \<or> cl_per_key_limit l \<le> active
         \<or> (active = 0 \<and> cl_max_keys l \<le> int (length (cl_active l)))
      then (False, l)
      else (True, l\<lparr>cl_active := AList.update key (active + 1) (cl_active l),
                    cl_total := cl_total l + 1\<rparr>))"

definition release :: "string \<Rightarrow> concurrency_limiter \<Rightarrow> concurrency_limiter" where
  "release key l =
     (let active = active_count l key in
      if active = 0 then l
      else let l' = l\<lparr>cl_active := (if active \<le> 1 then AList.delete key (cl_active l)
                                     else AList.update key (active - 1) (cl_active l))\<rparr>
        in if 0 < cl_total l then l'\<lparr>cl_total := cl_total l - 1\<rparr> else l')"

datatype conc_op = Acquire string | Release string

fun conc_step :: "conc_op \<Rightarrow> concurrency_limiter \<Rightarrow> concurrency_limiter" where
  "conc_step (Acquire key) l = snd (try_acquire key l)"
| "conc_step (Release key) l = release key l"

definition conc_ok :: "concurrency_limiter \<Rightarrow> bool" where
  "conc_ok l \<longleftrightarrow> dict_ok (cl_active l) \<and> cl_total l = sum_list (map snd (cl_active l)) \<and>
     cl_total l \<le> cl_limit l \<and> int (length (cl_active l)) \<le> cl_max_keys l \<and>
     (\<forall>(k, n) \<in> set (cl_active l). 1 \<le> n \<and> n \<le> cl_per_key_limit l)"

lemma sum_update:
  "dict_ok al \<Longrightarrow> sum_list (map snd (AList.update k v al)) =
     sum_list (map snd al) + v - (case map_of al k of Some n \<Rightarrow> n | None \<Rightarrow> (0::int))"
  by (induction al) (auto simp: dict_ok_def split: option.splits)

lemma sum_delete:
  "dict_ok al \<Longrightarrow> sum_list (map snd (AList.delete k al)) =
     sum_list (map snd al) - (case map_of al k of Some n \<Rightarrow> n | None \<Rightarrow> (0::int))"
proof (induction al)
  case Nil
  then show ?case by simp
next
  case (Cons p al)
  then show ?case by (auto simp: dict_ok_def)
qed

lemma active_member:
  "conc_ok l \<Longrightarrow> map_of (cl_active l) k = Some n \<Longrightarrow> 1 \<le> n \<and> n \<le> cl_per_key_limit l \<and> n \<le> cl_total l"
proof -
  assume ok: "conc_ok l" and m: "map_of (cl_active l) k = Some n"
  have "sum_list (map snd (AList.delete k (cl_active l))) = cl_total l - n"
    using ok m by (simp add: conc_ok_def sum_delete)
  moreover have "0 \<le> sum_list (map snd (AList.delete k (cl_active l)))"
    using ok unfolding conc_ok_def
    by (intro sum_list_nonneg) (fastforce simp: set_delete)
  ultimately show ?thesis using ok m by (fastforce simp: conc_ok_def dest: map_of_SomeD)
qed

lemma try_acquire_ok: "conc_ok l \<Longrightarrow> conc_ok (snd (try_acquire k l))"
proof -
  assume ok: "conc_ok l"
  show ?thesis
  proof (cases "map_of (cl_active l) k")
    case None
    then show ?thesis using ok
      by (auto simp: try_acquire_def active_count_def conc_ok_def Let_def sum_update set_update
          length_update)
  next
    case (Some n)
    then show ?thesis using ok active_member [OF ok Some]
      by (auto simp: try_acquire_def active_count_def conc_ok_def Let_def sum_update set_update
          length_update)
  qed
qed

lemma release_ok: "conc_ok l \<Longrightarrow> conc_ok (release k l)"
proof -
  assume ok: "conc_ok l"
  show ?thesis
  proof (cases "map_of (cl_active l) k")
    case None
    then show ?thesis using ok by (simp add: release_def active_count_def)
  next
    case (Some n)
    have del: "\<forall>(k', m) \<in> set (AList.delete k (cl_active l)). 1 \<le> m \<and> m \<le> cl_per_key_limit l"
      using ok by (fastforce simp: conc_ok_def set_delete)
    show ?thesis using ok Some active_member [OF ok Some] del length_delete_le [of k "cl_active l"]
      by (auto simp: release_def active_count_def conc_ok_def Let_def sum_update sum_delete
          set_update length_update)
  qed
qed

interpretation conc: stepwise conc_step conc_ok
  by unfold_locales (case_tac e; simp add: try_acquire_ok release_ok)

lemma concurrency_limiter_init_ok:
  "concurrency_limiter_init a b c = Inr l \<Longrightarrow>
     conc_ok l \<and> cl_limit l = a \<and> cl_per_key_limit l = b \<and> cl_max_keys l = c"
  by (auto simp: concurrency_limiter_init_def conc_ok_def split: if_splits)

lemma conc_step_frame:
  "cl_limit (conc_step e l) = cl_limit l \<and> cl_per_key_limit (conc_step e l) = cl_per_key_limit l
     \<and> cl_max_keys (conc_step e l) = cl_max_keys l"
  by (cases e) (auto simp: try_acquire_def release_def Let_def)

lemma conc_run_frame:
  "cl_limit (fold conc_step es l) = cl_limit l \<and>
   cl_per_key_limit (fold conc_step es l) = cl_per_key_limit l \<and>
   cl_max_keys (fold conc_step es l) = cl_max_keys l"
  by (induction es arbitrary: l) (auto simp: conc_step_frame)

text \<open>whatever sequence of acquisitions and releases runs (releases of keys that hold nothing
  included), the limiter never holds more than its limit in total, nor more than the per-key limit
  for one key, and its total is exactly the sum of the per-key counts: no slot is lost.\<close>

theorem concurrency_bounds:
  assumes "concurrency_limiter_init limit per_key max_keys = Inr l"
  shows "let l' = fold conc_step es l in
    cl_total l' = sum_list (map snd (cl_active l')) \<and> cl_total l' \<le> limit \<and>
    active_count l' k \<le> per_key \<and> int (length (cl_active l')) \<le> max_keys"
proof -
  let ?l = "fold conc_step es l"
  have ok: "conc_ok ?l" and frame: "cl_limit ?l = limit" "cl_per_key_limit ?l = per_key"
    "cl_max_keys ?l = max_keys"
    using concurrency_limiter_init_ok [OF assms] by (simp_all add: conc.run_inv conc_run_frame)
  have "active_count ?l k \<le> per_key"
    using active_member [OF ok, of k] frame assms
    by (auto simp: active_count_def concurrency_limiter_init_def split: option.splits if_splits)
  with ok frame show ?thesis by (simp add: conc_ok_def Let_def)
qed

lemma concurrency_bounds_witness:
  "let l' = fold conc_step [Acquire ''a'', Acquire ''a'', Release ''b'', Acquire ''c'']
       \<lparr>cl_limit = 2, cl_per_key_limit = 1, cl_max_keys = 4, cl_active = [], cl_total = 0\<rparr> in
    cl_total l' = sum_list (map snd (cl_active l')) \<and> cl_total l' \<le> 2 \<and>
    active_count l' ''a'' \<le> 1 \<and> int (length (cl_active l')) \<le> 4"
  by (rule concurrency_bounds [of 2 1 4]) (simp add: concurrency_limiter_init_def)

text \<open>Releasing what was just acquired restores the limiter: the total and every key's hits
  are what they were before the acquisition.\<close>

lemma acquire_release:
  assumes "conc_ok l" and "try_acquire k l = (True, l')"
  shows "cl_total (release k l') = cl_total l \<and> (\<forall>j. active_count (release k l') j = active_count l j)"
proof -
  have l': "l' = l\<lparr>cl_active := AList.update k (active_count l k + 1) (cl_active l),
                   cl_total := cl_total l + 1\<rparr>"
    using assms(2) by (auto simp: try_acquire_def Let_def split: if_splits)
  have "0 \<le> n" if "n \<in> set (map snd (cl_active l))" for n
    using assms(1) that by (force simp: conc_ok_def)
  then have "0 \<le> cl_total l"
    using assms(1) sum_list_nonneg [of "map snd (cl_active l)"] by (simp add: conc_ok_def)
  moreover have "1 \<le> n" if "map_of (cl_active l) k = Some n" for n
    using active_member [OF assms(1) that] by simp
  ultimately show ?thesis
    by (cases "map_of (cl_active l) k")
       (simp_all add: l' release_def active_count_def update_conv' delete_conv')
qed

end
