(* ===== verification/Json.thy ===== *)
theory Json
  imports Prelude
begin

text \<open>
  The part of Python's \<open>json\<close> module the code stores and compares text with:
  \<open>json.dumps\<close> with \<open>separators=(",", ":")\<close> and ASCII escapes, with and without
  \<open>sort_keys\<close> and \<open>allow_nan\<close>, and \<open>json.loads\<close>. A float is its \<open>repr\<close> text.
\<close>

section \<open>Values\<close>

datatype json =
    JNull
  | JBool bool
  | JInt int
  | JFloat string
  | JStr string
  | JArr "json list"
  | JObj "(string \<times> json) list"

text \<open>An object is a \<open>dict\<close>: an association list with distinct keys, in insertion order.\<close>

fun jget :: "json \<Rightarrow> string \<Rightarrow> json option" where
  "jget (JObj kvs) k = map_of kvs k"
| "jget _ k = None"

text \<open>The value \<open>d.get(k)\<close> gives, with Python's \<open>None\<close> for a missing key.\<close>

definition jget_none :: "json \<Rightarrow> string \<Rightarrow> json" where
  "jget_none j k = (case jget j k of Some v \<Rightarrow> v | None \<Rightarrow> JNull)"

fun jis_obj :: "json \<Rightarrow> bool" where
  "jis_obj (JObj _) = True"
| "jis_obj _ = False"

fun jkeys :: "json \<Rightarrow> string list" where
  "jkeys (JObj kvs) = map fst kvs"
| "jkeys _ = []"

text \<open>Python's truth value of a JSON value.\<close>

definition float_zero :: "string \<Rightarrow> bool" where
  "float_zero r \<longleftrightarrow> r = ''0.0'' \<or> r = ''-0.0''"

fun jtruthy :: "json \<Rightarrow> bool" where
  "jtruthy JNull = False"
| "jtruthy (JBool b) = b"
| "jtruthy (JInt i) = (i \<noteq> 0)"
| "jtruthy (JFloat r) = (\<not> float_zero r)"
| "jtruthy (JStr s) = (s \<noteq> [])"
| "jtruthy (JArr vs) = (vs \<noteq> [])"
| "jtruthy (JObj kvs) = (kvs \<noteq> [])"

section \<open>dumps\<close>

definition hex_digit :: "nat \<Rightarrow> char" where
  "hex_digit n = char_of (if n < 10 then 48 + n else 87 + n)"

definition hex4 :: "nat \<Rightarrow> string" where
  "hex4 n = [hex_digit (n div 4096 mod 16), hex_digit (n div 256 mod 16),
             hex_digit (n div 16 mod 16), hex_digit (n mod 16)]"

definition escape_char :: "char \<Rightarrow> string" where
  "escape_char c =
     (if c = CHR 0x22 then [CHR 0x5C, CHR 0x22]
      else if c = CHR 0x5C then [CHR 0x5C, CHR 0x5C]
      else if c = CHR 0x0A then [CHR 0x5C, CHR ''n'']
      else if c = CHR 0x0D then [CHR 0x5C, CHR ''r'']
      else if c = CHR 0x09 then [CHR 0x5C, CHR ''t'']
      else if c = CHR 0x0C then [CHR 0x5C, CHR ''f'']
      else if c = CHR 0x08 then [CHR 0x5C, CHR ''b'']
      else if ord_of c < 32 \<or> 126 < ord_of c then CHR 0x5C # CHR ''u'' # hex4 (ord_of c)
      else [c])"

definition render_str :: "string \<Rightarrow> string" where
  "render_str s = CHR 0x22 # concat (map escape_char s) @ [CHR 0x22]"

fun join_with :: "string \<Rightarrow> string list \<Rightarrow> string" where
  "join_with sep [] = []"
| "join_with sep [x] = x"
| "join_with sep (x # y # xs) = x @ sep @ join_with sep (y # xs)"

definition float_text :: "string \<Rightarrow> string" where
  "float_text r = (if r = ''nan'' then ''NaN'' else if r = ''inf'' then ''Infinity''
                   else if r = ''-inf'' then ''-Infinity'' else r)"

fun render :: "json \<Rightarrow> string" where
  "render JNull = ''null''"
| "render (JBool b) = (if b then ''true'' else ''false'')"
| "render (JInt i) = int_text i"
| "render (JFloat r) = float_text r"
| "render (JStr s) = render_str s"
| "render (JArr vs) = ''['' @ join_with '','' (map render vs) @ '']''"
| "render (JObj kvs) = CHR 0x7B # join_with '','' (map (\<lambda>(k, v). render_str k @ '':'' @ render v) kvs)
     @ [CHR 0x7D]"

fun jsort :: "json \<Rightarrow> json" where
  "jsort (JArr vs) = JArr (map jsort vs)"
| "jsort (JObj kvs) = JObj (sort_key fst (map (\<lambda>(k, v). (k, jsort v)) kvs))"
| "jsort v = v"

text \<open>A NaN or an infinity anywhere, which \<open>allow_nan=False\<close> refuses.\<close>

fun has_nonfinite :: "json \<Rightarrow> bool" where
  "has_nonfinite (JFloat r) = (r \<in> {''nan'', ''inf'', ''-inf''})"
| "has_nonfinite (JArr vs) = list_ex has_nonfinite vs"
| "has_nonfinite (JObj kvs) = list_ex (\<lambda>(k, v). has_nonfinite v) kvs"
| "has_nonfinite v = False"

definition dumps :: "json \<Rightarrow> string" where
  "dumps v = render v"

definition dumps_sorted :: "json \<Rightarrow> string" where
  "dumps_sorted v = render (jsort v)"

text \<open>With \<open>allow_nan=False\<close>: \<open>None\<close> is the \<open>ValueError\<close>.\<close>

definition dumps_strict :: "json \<Rightarrow> string option" where
  "dumps_strict v = (if has_nonfinite v then None else Some (render v))"

definition dumps_sorted_strict :: "json \<Rightarrow> string option" where
  "dumps_sorted_strict v = (if has_nonfinite v then None else Some (render (jsort v)))"

section \<open>loads\<close>

definition is_ws :: "char \<Rightarrow> bool" where
  "is_ws c \<longleftrightarrow> c = CHR 0x20 \<or> c = CHR 0x09 \<or> c = CHR 0x0A \<or> c = CHR 0x0D"

definition skip_ws :: "string \<Rightarrow> string" where
  "skip_ws s = dropWhile is_ws s"

definition hex_value :: "char \<Rightarrow> nat option" where
  "hex_value c = (let n = ord_of c in
     if 48 \<le> n \<and> n \<le> 57 then Some (n - 48)
     else if 97 \<le> n \<and> n \<le> 102 then Some (n - 87)
     else if 65 \<le> n \<and> n \<le> 70 then Some (n - 55) else None)"

text \<open>After a backslash: the character it stands for and the rest. A \<open>\u\<close> escape above 255
  has no character in this model and is refused.\<close>

fun parse_escape :: "string \<Rightarrow> (char \<times> string) option" where
  "parse_escape [] = None"
| "parse_escape (c # s) =
     (if c = CHR 0x22 \<or> c = CHR 0x5C \<or> c = CHR ''/'' then Some (c, s)
      else if c = CHR ''n'' then Some (CHR 0x0A, s)
      else if c = CHR ''r'' then Some (CHR 0x0D, s)
      else if c = CHR ''t'' then Some (CHR 0x09, s)
      else if c = CHR ''f'' then Some (CHR 0x0C, s)
      else if c = CHR ''b'' then Some (CHR 0x08, s)
      else if c = CHR ''u'' then
        (case s of
           a # b # d # e # s' \<Rightarrow>
             (case (hex_value a, hex_value b, hex_value d, hex_value e) of
                (Some a', Some b', Some d', Some e') \<Rightarrow>
                  if a' = 0 \<and> b' = 0 then Some (char_of (16 * d' + e'), s') else None
              | _ \<Rightarrow> None)
         | _ \<Rightarrow> None)
      else None)"

lemma parse_escape_shorter: "parse_escape s = Some (c, s') \<Longrightarrow> length s' < length s"
  by (cases s) (auto split: if_splits list.splits option.splits)

text \<open>The body of a string after its opening quote, up to and over the closing one.\<close>

function parse_body :: "string \<Rightarrow> (string \<times> string) option" where
  "parse_body s =
     (case s of
        [] \<Rightarrow> None
      | c # s' \<Rightarrow>
          if c = CHR 0x22 then Some ([], s')
          else if c = CHR 0x5C then
            (case parse_escape s' of
               None \<Rightarrow> None
             | Some (x, r) \<Rightarrow> map_option (\<lambda>(b, r'). (x # b, r')) (parse_body r))
          else if ord_of c < 32 then None
          else map_option (\<lambda>(b, r'). (c # b, r')) (parse_body s'))"
  by pat_completeness auto
termination
  by (relation "measure length") (auto dest: parse_escape_shorter)

declare parse_body.simps [simp del]

definition num_char :: "char \<Rightarrow> bool" where
  "num_char c \<longleftrightarrow> is_digit_ascii c \<or> c = CHR ''-'' \<or> c = CHR ''+'' \<or> c = CHR ''.''
     \<or> c = CHR ''e'' \<or> c = CHR ''E''"

definition digit_value :: "char \<Rightarrow> nat" where
  "digit_value c = ord_of c - 48"

definition digits_value :: "string \<Rightarrow> nat" where
  "digits_value s = foldl (\<lambda>n c. 10 * n + digit_value c) 0 s"

definition nat_lit :: "string \<Rightarrow> bool" where
  "nat_lit s \<longleftrightarrow> s \<noteq> [] \<and> list_all is_digit_ascii s \<and> (s = ''0'' \<or> hd s \<noteq> CHR ''0'')"

definition strip_sign :: "char list \<Rightarrow> string \<Rightarrow> string" where
  "strip_sign cs s = (case s of c # s' \<Rightarrow> if c \<in> set cs then s' else s | [] \<Rightarrow> [])"

definition int_lit :: "string \<Rightarrow> bool" where
  "int_lit s \<longleftrightarrow> nat_lit (strip_sign ''-'' s)"

definition int_value :: "string \<Rightarrow> int" where
  "int_value s = (case s of
     c # s' \<Rightarrow> if c = CHR ''-'' then - int (digits_value s') else int (digits_value s) | [] \<Rightarrow> 0)"

definition digits1 :: "string \<Rightarrow> bool" where
  "digits1 s \<longleftrightarrow> s \<noteq> [] \<and> list_all is_digit_ascii s"

text \<open>An integer part, then a fraction or an exponent or both.\<close>

definition exp_lit :: "string \<Rightarrow> bool" where
  "exp_lit s = (case s of
     c # s' \<Rightarrow> (c = CHR ''e'' \<or> c = CHR ''E'') \<and> digits1 (strip_sign ''+-'' s') | [] \<Rightarrow> False)"

definition float_lit :: "string \<Rightarrow> bool" where
  "float_lit s =
     (let u = strip_sign ''-'' s; n = takeWhile is_digit_ascii u; r = dropWhile is_digit_ascii u in
      nat_lit n \<and>
      (case r of
         [] \<Rightarrow> False
       | c # r' \<Rightarrow>
           if c = CHR ''.'' then
             takeWhile is_digit_ascii r' \<noteq> [] \<and>
             (let e = dropWhile is_digit_ascii r' in e = [] \<or> exp_lit e)
           else exp_lit r))"

definition parse_number :: "string \<Rightarrow> (json \<times> string) option" where
  "parse_number s =
     (let t = takeWhile num_char s; r = dropWhile num_char s in
      if int_lit t then Some (JInt (int_value t), r)
      else if float_lit t then Some (JFloat t, r)
      else None)"

fun parse_value :: "nat \<Rightarrow> string \<Rightarrow> (json \<times> string) option"
  and parse_elems :: "nat \<Rightarrow> string \<Rightarrow> (json list \<times> string) option"
  and parse_members :: "nat \<Rightarrow> string \<Rightarrow> ((string \<times> json) list \<times> string) option" where
  "parse_value 0 s = None"
| "parse_value (Suc n) s =
     (if starts_with ''null'' s then Some (JNull, drop 4 s)
      else if starts_with ''true'' s then Some (JBool True, drop 4 s)
      else if starts_with ''false'' s then Some (JBool False, drop 5 s)
      else if starts_with ''NaN'' s then Some (JFloat ''nan'', drop 3 s)
      else if starts_with ''Infinity'' s then Some (JFloat ''inf'', drop 8 s)
      else if starts_with ''-Infinity'' s then Some (JFloat ''-inf'', drop 9 s)
      else case s of
        [] \<Rightarrow> None
      | c # s' \<Rightarrow>
          if c = CHR 0x22 then map_option (\<lambda>(b, r). (JStr b, r)) (parse_body s')
          else if c = CHR ''['' then
            (case skip_ws s' of
               [] \<Rightarrow> None
             | d # r \<Rightarrow>
                 if d = CHR '']'' then Some (JArr [], r)
                 else map_option (\<lambda>(vs, r'). (JArr vs, r')) (parse_elems n (d # r)))
          else if c = CHR 0x7B then
            (case skip_ws s' of
               [] \<Rightarrow> None
             | d # r \<Rightarrow>
                 if d = CHR 0x7D then Some (JObj [], r)
                 else map_option (\<lambda>(kvs, r'). (JObj (fold (\<lambda>(k, v). AList.update k v) kvs []), r'))
                        (parse_members n (d # r)))
          else parse_number s)"
| "parse_elems 0 s = None"
| "parse_elems (Suc n) s =
     (case parse_value n s of
        None \<Rightarrow> None
      | Some (v, r) \<Rightarrow>
          (case skip_ws r of
             c # r' \<Rightarrow>
               if c = CHR '']'' then Some ([v], r')
               else if c = CHR '','' then
                 map_option (\<lambda>(vs, r''). (v # vs, r'')) (parse_elems n (skip_ws r'))
               else None
           | [] \<Rightarrow> None))"
| "parse_members 0 s = None"
| "parse_members (Suc n) s =
     (case s of
        [] \<Rightarrow> None
      | q # s' \<Rightarrow>
        if q \<noteq> CHR 0x22 then None
        else (case parse_body s' of
          None \<Rightarrow> None
        | Some (k, r) \<Rightarrow>
          (case skip_ws r of
             [] \<Rightarrow> None
           | c # r1 \<Rightarrow>
             if c \<noteq> CHR '':'' then None
             else (case parse_value n (skip_ws r1) of
                None \<Rightarrow> None
              | Some (v, r2) \<Rightarrow>
                (case skip_ws r2 of
                   d # r3 \<Rightarrow>
                     if d = CHR 0x7D then Some ([(k, v)], r3)
                     else if d = CHR '','' then
                       map_option (\<lambda>(kvs, r'). ((k, v) # kvs, r')) (parse_members n (skip_ws r3))
                     else None
                 | [] \<Rightarrow> None)))))"

text \<open>Every recursive call consumes a character or leaves a value for its list, so twice the
  length of the text plus two is fuel enough.\<close>

definition loads :: "string \<Rightarrow> json option" where
  "loads s =
     (case parse_value (2 * length s + 2) (skip_ws s) of
        Some (v, r) \<Rightarrow> if skip_ws r = [] then Some v else None
      | None \<Rightarrow> None)"

section \<open>loads inverts dumps\<close>

fun wf_json :: "json \<Rightarrow> bool" where
  "wf_json (JFloat r) = (float_lit r \<and> list_all num_char r)"
| "wf_json (JArr vs) = list_all wf_json vs"
| "wf_json (JObj kvs) = (dict_ok kvs \<and> list_all (\<lambda>(k, v). wf_json v) kvs)"
| "wf_json v = True"

lemma ord_of_less: "ord_of c < 256"
  by (simp add: ord_of_def)

lemma char_of_ord [simp]: "char_of (ord_of c) = c"
  by (simp add: ord_of_def)

lemma ord_char_of: "n < 256 \<Longrightarrow> ord_of (char_of n) = n"
  by (simp add: ord_of_def)

lemma hex_value_digit: "n < 16 \<Longrightarrow> hex_value (hex_digit n) = Some n"
  by (auto simp: hex_value_def hex_digit_def ord_char_of Let_def)

lemma parse_escape_hex4:
  "parse_escape (CHR ''u'' # hex4 (ord_of c) @ r) = Some (c, r)"
proof -
  have "ord_of c div 256 = 0" "ord_of c div 4096 = 0"
    using ord_of_less [of c] by simp_all
  moreover have "ord_of c div 16 mod 16 = ord_of c div 16"
    using ord_of_less [of c] by simp
  ultimately show ?thesis by (simp add: hex4_def hex_value_digit)
qed

lemma parse_body_plain:
  "c \<noteq> CHR 0x22 \<Longrightarrow> c \<noteq> CHR 0x5C \<Longrightarrow> 32 \<le> ord_of c \<Longrightarrow>
     parse_body (c # s) = map_option (\<lambda>(b, r). (c # b, r)) (parse_body s)"
  by (subst parse_body.simps) simp

lemma parse_body_escape:
  "parse_escape s = Some (x, r) \<Longrightarrow>
     parse_body (CHR 0x5C # s) = map_option (\<lambda>(b, r'). (x # b, r')) (parse_body r)"
  by (subst parse_body.simps) simp

lemma parse_body_char:
  "parse_body (escape_char c @ s) = map_option (\<lambda>(b, r). (c # b, r)) (parse_body s)"
  using parse_escape_hex4 [of c s]
  by (auto simp: escape_char_def parse_body_escape parse_body_plain not_less)

lemma parse_body_render: "parse_body (concat (map escape_char s) @ CHR 0x22 # r) = Some (s, r)"
proof (induction s)
  case Nil
  then show ?case by (subst parse_body.simps) simp
next
  case (Cons c s)
  then show ?case by (simp add: parse_body_char)
qed

lemma digit_char_digit: "d < 10 \<Longrightarrow> is_digit_ascii (digit_char d) \<and> digit_value (digit_char d) = d"
  by (simp add: is_digit_ascii_def digit_char_def digit_value_def ord_char_of)

lemma nat_text_digits: "list_all is_digit_ascii (nat_text n)"
proof (induction n rule: nat_text.induct)
  case (1 n)
  then show ?case by (subst nat_text.simps) (simp add: digit_char_digit)
qed

lemma nat_text_nonempty: "nat_text n \<noteq> []"
  by (subst nat_text.simps) simp

lemma nat_text_value: "digits_value (nat_text n) = n"
proof (induction n rule: nat_text.induct)
  case (1 n)
  then show ?case by (subst nat_text.simps) (simp add: digits_value_def digit_char_digit)
qed

lemma nat_text_hd: "hd (nat_text n) = CHR ''0'' \<Longrightarrow> n = 0"
proof (induction n rule: nat_text.induct)
  case (1 n)
  show ?case
  proof (cases "n < 10")
    case True
    with "1.prems" have "digit_char n = CHR ''0''" by (subst (asm) nat_text.simps) simp
    then have "ord_of (digit_char n) = 48" by (simp add: ord_of_def)
    with True show ?thesis by (simp add: digit_char_def ord_char_of)
  next
    case False
    with "1.prems" nat_text_nonempty [of "n div 10"] have "hd (nat_text (n div 10)) = CHR ''0''"
      by (subst (asm) nat_text.simps) simp
    with "1.IH" [OF False] False show ?thesis by simp
  qed
qed

lemma nat_text_0: "nat_text 0 = ''0''"
  by (subst nat_text.simps) (simp add: digit_char_def char_of_def bit_0)

lemma nat_lit_nat_text: "nat_lit (nat_text n)"
  using nat_text_hd [of n] nat_text_digits nat_text_nonempty nat_text_0
  by (auto simp: nat_lit_def)

lemma digit_num_char: "is_digit_ascii c \<Longrightarrow> num_char c"
  by (simp add: num_char_def)

lemma digit_not_sign: "is_digit_ascii c \<Longrightarrow> c \<noteq> CHR ''-''"
  by (auto simp: is_digit_ascii_def ord_of_def)

lemma nat_text_Cons: obtains d ds where "nat_text n = d # ds" "is_digit_ascii d"
  using nat_text_digits [of n] nat_text_nonempty [of n] by (cases "nat_text n") auto

lemma int_text_lit: "int_lit (int_text i) \<and> int_value (int_text i) = i \<and> list_all num_char (int_text i)"
proof (cases "i < 0")
  case True
  then show ?thesis
    using nat_lit_nat_text nat_text_digits [of "nat (- i)"]
    by (auto simp: int_text_def int_lit_def strip_sign_def int_value_def nat_text_value num_char_def
        list_all_iff)
next
  case False
  obtain d ds where d: "nat_text (nat i) = d # ds" "is_digit_ascii d" by (rule nat_text_Cons)
  have "list_all num_char (nat_text (nat i))"
    using nat_text_digits [of "nat i"] by (auto simp: list_all_iff digit_num_char)
  with False d show ?thesis
    using nat_lit_nat_text [of "nat i"] digit_not_sign [of d] nat_text_value [of "nat i"]
    by (simp add: int_text_def int_lit_def strip_sign_def int_value_def)
qed

definition ends_number :: "string \<Rightarrow> bool" where
  "ends_number r \<longleftrightarrow> r = [] \<or> \<not> num_char (hd r)"

lemma take_number:
  "list_all num_char t \<Longrightarrow> ends_number r \<Longrightarrow>
     takeWhile num_char (t @ r) = t \<and> dropWhile num_char (t @ r) = r"
  by (induction t) (cases r; simp add: ends_number_def)+

lemma float_not_int: "float_lit t \<Longrightarrow> \<not> int_lit t"
proof
  assume "float_lit t" "int_lit t"
  then have "\<forall>c \<in> set (strip_sign ''-'' t). is_digit_ascii c"
    by (simp add: int_lit_def nat_lit_def list_all_iff)
  then have "dropWhile is_digit_ascii (strip_sign ''-'' t) = []"
    by (simp add: dropWhile_eq_Nil_conv)
  with \<open>float_lit t\<close> show False by (simp add: float_lit_def Let_def)
qed

lemma parse_number_int: "ends_number r \<Longrightarrow> parse_number (int_text i @ r) = Some (JInt i, r)"
  using int_text_lit [of i] take_number [of "int_text i" r] by (simp add: parse_number_def)

lemma parse_number_float:
  "float_lit t \<Longrightarrow> list_all num_char t \<Longrightarrow> ends_number r \<Longrightarrow>
     parse_number (t @ r) = Some (JFloat t, r)"
  using take_number [of t r] float_not_int [of t] by (simp add: parse_number_def)

text \<open>The first character of a rendered value decides how it is read.\<close>

definition digit_first :: "string \<Rightarrow> bool" where
  "digit_first t \<longleftrightarrow> (case strip_sign ''-'' t of c # t' \<Rightarrow> is_digit_ascii c | [] \<Rightarrow> False)"

lemma nat_lit_first: "nat_lit t \<Longrightarrow> (case t of c # t' \<Rightarrow> is_digit_ascii c | [] \<Rightarrow> False)"
  by (auto simp: nat_lit_def split: list.splits)

lemma int_digit_first: "digit_first (int_text i)"
  using int_text_lit [of i] nat_lit_first by (simp add: int_lit_def digit_first_def)

lemma float_digit_first: "float_lit t \<Longrightarrow> digit_first t"
  by (cases "strip_sign ''-'' t")
     (auto simp: float_lit_def digit_first_def nat_lit_def Let_def split: if_splits)

lemma digit_char_cases:
  "is_digit_ascii c \<Longrightarrow> c \<noteq> CHR ''n'' \<and> c \<noteq> CHR ''t'' \<and> c \<noteq> CHR ''f'' \<and> c \<noteq> CHR ''N'' \<and>
     c \<noteq> CHR ''I'' \<and> c \<noteq> CHR ''['' \<and> c \<noteq> CHR 0x22 \<and> c \<noteq> CHR 0x7B \<and> \<not> is_ws c"
  by (auto simp: is_digit_ascii_def ord_of_def is_ws_def)

lemma parse_value_number:
  assumes "digit_first t"
  shows "parse_value (Suc n) (t @ r) = parse_number (t @ r) \<and> skip_ws (t @ r) = t @ r"
proof -
  obtain c t' where t: "strip_sign ''-'' t = c # t'" "is_digit_ascii c"
    using assms by (auto simp: digit_first_def split: list.splits)
  then consider "t = c # t'" "c \<noteq> CHR ''-''" | "t = CHR ''-'' # c # t'"
    by (auto simp: strip_sign_def split: list.splits if_splits)
  then show ?thesis
    using digit_char_cases [OF t(2)]
    by cases (auto simp: starts_with_def skip_ws_def is_ws_def)
qed

lemma ends_number_simps [simp]:
  "ends_number []" "ends_number (CHR '','' # r)" "ends_number (CHR '']'' # r)"
  "ends_number (CHR 0x7D # r)" "ends_number (CHR '':'' # r)"
  by (simp_all add: ends_number_def num_char_def is_digit_ascii_def ord_of_def)

fun jfuel :: "json \<Rightarrow> nat" where
  "jfuel (JArr vs) = 1 + sum_list (map (\<lambda>v. 1 + jfuel v) vs)"
| "jfuel (JObj kvs) = 1 + sum_list (map (\<lambda>(k, v). 1 + jfuel v) kvs)"
| "jfuel v = 1"

definition reads :: "json \<Rightarrow> bool" where
  "reads v \<longleftrightarrow> (\<forall>n r. jfuel v \<le> n \<longrightarrow> ends_number r \<longrightarrow>
     parse_value n (render v @ r) = Some (v, r))"

definition solid :: "string \<Rightarrow> bool" where
  "solid t \<longleftrightarrow> (\<forall>r. skip_ws (t @ r) = t @ r)"

lemma solid_first: "\<not> is_ws c \<Longrightarrow> solid (c # t)"
  by (simp add: solid_def skip_ws_def)

lemma skip_ws_solid [simp]: "\<not> is_ws c \<Longrightarrow> skip_ws (c # t) = c # t" "skip_ws [] = []"
  by (simp_all add: skip_ws_def)

lemma not_ws [simp]:
  "\<not> is_ws CHR '',''" "\<not> is_ws CHR '']''" "\<not> is_ws CHR 0x7D" "\<not> is_ws CHR '':''"
  "\<not> is_ws CHR 0x22" "\<not> is_ws CHR ''[''" "\<not> is_ws CHR 0x7B"
  by (simp_all add: is_ws_def)

lemma finite_float_text: "float_lit t \<Longrightarrow> float_text t = t"
  using float_digit_first [of t]
  by (auto simp: float_text_def digit_first_def strip_sign_def is_digit_ascii_def ord_of_def)

lemma solid_render: "wf_json v \<Longrightarrow> solid (render v)"
proof (cases v)
  case (JInt i)
  then show ?thesis
    using parse_value_number [OF int_digit_first [of i]] by (simp add: solid_def)
next
  case (JFloat t)
  assume "wf_json v"
  with JFloat show ?thesis
    using parse_value_number [OF float_digit_first [of t]] by (simp add: solid_def finite_float_text)
qed (auto simp: render_str_def intro!: solid_first simp: is_ws_def)

lemma skip_ws_render: "wf_json v \<Longrightarrow> skip_ws (render v @ r) = render v @ r"
  using solid_render [of v] by (simp add: solid_def)

lemma render_nonempty: "wf_json v \<Longrightarrow> \<exists>c t. render v = c # t \<and> c \<noteq> CHR '']''"
proof (cases v)
  case (JInt i)
  then show ?thesis using int_digit_first [of i]
    by (auto simp: digit_first_def strip_sign_def is_digit_ascii_def ord_of_def split: list.splits if_splits)
next
  case (JFloat t)
  assume "wf_json v"
  with JFloat show ?thesis using float_digit_first [of t]
    by (auto simp: digit_first_def strip_sign_def is_digit_ascii_def ord_of_def finite_float_text
        split: list.splits if_splits)
qed (auto simp: render_str_def)

lemma parse_elems_render:
  assumes "vs \<noteq> []" "\<forall>v \<in> set vs. wf_json v \<and> reads v"
    "sum_list (map (\<lambda>v. 1 + jfuel v) vs) \<le> n"
  shows "parse_elems n (join_with '','' (map render vs) @ CHR '']'' # r) = Some (vs, r)"
  using assms
proof (induction vs arbitrary: n)
  case Nil
  then show ?case by simp
next
  case (Cons v vs)
  then obtain m where n: "n = Suc m" and m: "jfuel v \<le> m" "sum_list (map (\<lambda>v. 1 + jfuel v) vs) \<le> m"
    by (cases n) auto
  show ?case
  proof (cases vs)
    case Nil
    with Cons.prems m show ?thesis by (simp add: n reads_def)
  next
    case (Cons w ws)
    have "skip_ws (join_with '','' (map render vs) @ CHR '']'' # r)
        = join_with '','' (map render vs) @ CHR '']'' # r"
      using Cons Cons.prems(2) skip_ws_render [of w] by (cases ws) auto
    moreover have "parse_elems m (join_with '','' (map render vs) @ CHR '']'' # r) = Some (vs, r)"
      using Cons.IH [of m] Cons Cons.prems(2) m by simp
    ultimately show ?thesis
      using Cons Cons.prems(2) m by (simp add: n reads_def)
  qed
qed

lemma parse_members_render:
  assumes "kvs \<noteq> []" "\<forall>(k, v) \<in> set kvs. wf_json v \<and> reads v"
    "sum_list (map (\<lambda>(k, v). 1 + jfuel v) kvs) \<le> n"
  shows "parse_members n (join_with '','' (map (\<lambda>(k, v). render_str k @ '':'' @ render v) kvs)
           @ CHR 0x7D # r) = Some (kvs, r)"
  using assms
proof (induction kvs arbitrary: n)
  case Nil
  then show ?case by simp
next
  case (Cons p kvs)
  obtain k v where p: "p = (k, v)" by (cases p)
  from Cons.prems obtain m where n: "n = Suc m" and
    m: "jfuel v \<le> m" "sum_list (map (\<lambda>(k, v). 1 + jfuel v) kvs) \<le> m"
    by (cases n) (auto simp: p)
  have pv: "parse_value m (skip_ws (render v @ r')) = Some (v, r')" if "ends_number r'" for r'
    using Cons.prems(2) m(1) that by (simp add: p skip_ws_render reads_def)
  show ?case
  proof (cases kvs)
    case Nil
    then show ?thesis by (simp add: n p render_str_def parse_body_render pv)
  next
    case (Cons q qs)
    let ?rest = "join_with '','' (map (\<lambda>(k, v). render_str k @ '':'' @ render v) kvs) @ CHR 0x7D # r"
    have "skip_ws ?rest = ?rest"
      using Cons by (cases q; cases qs) (simp_all add: render_str_def)
    moreover have "parse_members m ?rest = Some (kvs, r)"
      using Cons.IH [of m] Cons Cons.prems(2) m by simp
    ultimately show ?thesis
      using Cons by (simp add: n p render_str_def parse_body_render pv)
  qed
qed

lemma fold_update_dict:
  "dict_ok (al @ kvs) \<Longrightarrow> fold (\<lambda>(k, v). AList.update k v) kvs al = al @ kvs"
proof (induction kvs arbitrary: al)
  case Nil
  then show ?case by simp
next
  case (Cons p kvs)
  obtain k v where p: "p = (k, v)" by (cases p)
  have "AList.update k v al = al @ [(k, v)]"
    using Cons.prems by (induction al) (auto simp: p dict_ok_def)
  with Cons.IH [of "al @ [(k, v)]"] Cons.prems show ?case by (simp add: p)
qed

lemma reads_wf: "wf_json v \<Longrightarrow> reads v"
proof (induction v)
  case (JArr vs)
  then have vs: "\<forall>v \<in> set vs. wf_json v \<and> reads v" by (auto simp: list_all_iff)
  show ?case
  proof (cases vs)
    case Nil
    then show ?thesis by (auto simp: reads_def starts_with_def Suc_le_eq gr0_conv_Suc)
  next
    case (Cons w ws)
    obtain c t where ct: "render w = c # t" "c \<noteq> CHR '']''"
      using vs Cons render_nonempty [of w] by force
    have hd: "\<exists>t'. join_with '','' (map render vs) @ CHR '']'' # r = c # t'" for r
      using Cons ct by (cases ws) auto
    have sk: "skip_ws (join_with '','' (map render vs) @ CHR '']'' # r)
        = join_with '','' (map render vs) @ CHR '']'' # r" for r
      using Cons vs skip_ws_render [of w] by (cases ws) auto
    show ?thesis
      unfolding reads_def
    proof (intro allI impI)
      fix n r
      assume "jfuel (JArr vs) \<le> n"
      then obtain m where n: "n = Suc m" "sum_list (map (\<lambda>v. 1 + jfuel v) vs) \<le> m"
        by (cases n) auto
      obtain t' where t': "join_with '','' (map render vs) @ CHR '']'' # r = c # t'"
        using hd by blast
      have "parse_elems m (c # t') = Some (vs, r)"
        using parse_elems_render [of vs m r] Cons vs n(2) t' by simp
      moreover have "skip_ws (c # t') = c # t'" using sk [of r] t' by simp
      moreover have "render (JArr vs) @ r = CHR ''['' # c # t'" using t' by simp
      ultimately show "parse_value n (render (JArr vs) @ r) = Some (JArr vs, r)"
        using ct(2) by (simp add: n starts_with_def)
    qed
  qed
next
  case (JObj kvs)
  then have kvs: "\<forall>(k, v) \<in> set kvs. wf_json v \<and> reads v"
    by (fastforce simp: list_all_iff)
  show ?case
  proof (cases kvs)
    case Nil
    then show ?thesis by (auto simp: reads_def starts_with_def Suc_le_eq gr0_conv_Suc)
  next
    case (Cons q qs)
    have hd: "\<exists>t'. join_with '','' (map (\<lambda>(k, v). render_str k @ '':'' @ render v) kvs)
        @ CHR 0x7D # r = CHR 0x22 # t'" for r
      using Cons by (cases q; cases qs) (auto simp: render_str_def)
    show ?thesis
      unfolding reads_def
    proof (intro allI impI)
      fix n r
      assume "jfuel (JObj kvs) \<le> n"
      then obtain m where n: "n = Suc m" "sum_list (map (\<lambda>(k, v). 1 + jfuel v) kvs) \<le> m"
        by (cases n) auto
      obtain t' where t': "join_with '','' (map (\<lambda>(k, v). render_str k @ '':'' @ render v) kvs)
          @ CHR 0x7D # r = CHR 0x22 # t'"
        using hd by blast
      have "parse_members m (CHR 0x22 # t') = Some (kvs, r)"
        using parse_members_render [of kvs m r] Cons kvs n(2) t' by simp
      moreover have "render (JObj kvs) @ r = CHR 0x7B # CHR 0x22 # t'" using t' by simp
      moreover have "fold (\<lambda>(k, v). AList.update k v) kvs [] = kvs"
        using fold_update_dict [of "[]" kvs] JObj.prems by simp
      ultimately show "parse_value n (render (JObj kvs) @ r) = Some (JObj kvs, r)"
        by (simp add: n starts_with_def)
    qed
  qed
next
  case (JStr s)
  then show ?case
    by (auto simp: reads_def starts_with_def render_str_def parse_body_render Suc_le_eq gr0_conv_Suc)
next
  case (JInt i)
  then show ?case
    using parse_value_number [OF int_digit_first [of i]]
    by (auto simp: reads_def parse_number_int Suc_le_eq gr0_conv_Suc)
next
  case (JFloat t)
  then show ?case
    using parse_value_number [OF float_digit_first [of t]]
    by (auto simp: reads_def parse_number_float finite_float_text Suc_le_eq gr0_conv_Suc)
qed (auto simp: reads_def starts_with_def Suc_le_eq gr0_conv_Suc)

lemma length_join_with:
  "xs \<noteq> [] \<Longrightarrow> length (join_with [c] xs) + 1 = sum_list (map (\<lambda>x. 1 + length x) xs)"
  by (induction "[c]" xs rule: join_with.induct) auto

lemma sum_list_double: "sum_list (map (\<lambda>x. 2 * f x) xs) = 2 * sum_list (map (f :: _ \<Rightarrow> nat) xs)"
  by (induction xs) auto

lemma jfuel_bound: "wf_json v \<Longrightarrow> jfuel v \<le> 2 * length (render v)"
proof (induction v)
  case (JArr vs)
  have "sum_list (map (\<lambda>v. 1 + jfuel v) vs) \<le> sum_list (map (\<lambda>v. 2 * (1 + length (render v))) vs)"
    by (rule sum_list_mono) (use JArr in \<open>fastforce simp: list_all_iff\<close>)
  also have "\<dots> = 2 * sum_list (map (\<lambda>x. 1 + length x) (map render vs))"
    by (simp only: sum_list_double map_map comp_def)
  finally show ?case using length_join_with [of "map render vs"] by (cases "vs = []") auto
next
  case (JObj kvs)
  let ?r = "\<lambda>(k, v). render_str k @ '':'' @ render v"
  have "sum_list (map (\<lambda>(k, v). 1 + jfuel v) kvs) \<le> sum_list (map (\<lambda>p. 2 * (1 + length (?r p))) kvs)"
    by (rule sum_list_mono) (use JObj in \<open>fastforce simp: list_all_iff\<close>)
  also have "\<dots> = 2 * sum_list (map (\<lambda>x. 1 + length x) (map ?r kvs))"
    by (simp only: sum_list_double map_map comp_def)
  finally show ?case using length_join_with [of "map ?r kvs"] by (cases "kvs = []") auto
next
  case (JInt i)
  then show ?case using render_nonempty [of "JInt i"] by (cases "int_text i") auto
next
  case (JFloat t)
  then show ?case using render_nonempty [of "JFloat t"] by auto
qed (auto simp: render_str_def)

lemma loads_dumps:
  assumes "wf_json v" shows "loads (dumps v) = Some v"
proof -
  have "jfuel v \<le> 2 * length (render v) + 2"
    using jfuel_bound [OF assms] by simp
  then have "parse_value (2 * length (render v) + 2) (render v @ []) = Some (v, [])"
    using reads_wf [OF assms] unfolding reads_def by (blast intro: ends_number_simps)
  moreover have "skip_ws (render v) = render v"
    using skip_ws_render [OF assms, of "[]"] by simp
  ultimately show ?thesis by (simp add: loads_def dumps_def del: parse_value.simps)
qed

lemma dict_ok_sort_key: "dict_ok (sort_key f al) \<longleftrightarrow> dict_ok al"
proof -
  have "mset (map fst (sort_key f al)) = mset (map fst al)" by (simp only: mset_map mset_sort)
  then show ?thesis unfolding dict_ok_def by (rule mset_eq_imp_distinct_iff)
qed

lemma wf_jsort: "wf_json v \<Longrightarrow> wf_json (jsort v)"
proof (induction v)
  case (JObj kvs)
  have "dict_ok (sort_key fst (map (\<lambda>(k, v). (k, jsort v)) kvs))"
    using JObj.prems by (simp only: dict_ok_sort_key) (simp add: dict_ok_def comp_def split_def)
  moreover have "list_all (\<lambda>(k, v). wf_json v) (sort_key fst (map (\<lambda>(k, v). (k, jsort v)) kvs))"
    using JObj by (fastforce simp: list_all_iff)
  ultimately show ?case by simp
qed (auto simp: list_all_iff)

lemma loads_dumps_sorted: "wf_json v \<Longrightarrow> loads (dumps_sorted v) = Some (jsort v)"
  using loads_dumps [OF wf_jsort] by (simp add: dumps_def dumps_sorted_def)

section \<open>str()\<close>

text \<open>\<open>str\<close> of a parsed value: a string is itself, anything else its \<open>repr\<close>.\<close>

definition repr_char :: "char \<Rightarrow> char \<Rightarrow> string" where
  "repr_char q c = (let n = ord_of c in
     if c = q \<or> n = 92 then [CHR 0x5C, c]
     else if n = 10 then [CHR 0x5C, CHR ''n''] else if n = 13 then [CHR 0x5C, CHR ''r'']
     else if n = 9 then [CHR 0x5C, CHR ''t'']
     else if n < 32 \<or> (127 \<le> n \<and> n \<le> 160) \<or> n = 173
       then [CHR 0x5C, CHR ''x'', hex_digit (n div 16), hex_digit (n mod 16)]
     else [c])"

definition repr_str :: "string \<Rightarrow> string" where
  "repr_str s = (let q = (if CHR 0x27 \<in> set s \<and> CHR 0x22 \<notin> set s then CHR 0x22 else CHR 0x27)
     in q # concat (map (repr_char q) s) @ [q])"

fun py_repr :: "json \<Rightarrow> string" where
  "py_repr JNull = ''None''"
| "py_repr (JBool b) = (if b then ''True'' else ''False'')"
| "py_repr (JInt i) = int_text i"
| "py_repr (JFloat r) = r"
| "py_repr (JStr s) = repr_str s"
| "py_repr (JArr vs) = ''['' @ join_with '', '' (map py_repr vs) @ '']''"
| "py_repr (JObj kvs) = CHR 0x7B # join_with '', '' (map (\<lambda>(k, v). repr_str k @ '': '' @ py_repr v) kvs) @ [CHR 0x7D]"

definition py_str :: "json \<Rightarrow> string" where
  "py_str v = (case v of JStr s \<Rightarrow> s | _ \<Rightarrow> py_repr v)"

end
