(* ===== verification/Clock.thy ===== *)
theory Clock
  imports Prelude
begin

text \<open>
  Time as the code stores it. An instant is the number of microseconds since 0001-01-01T00:00:00 UTC
  (the range of \<open>datetime\<close> is below \<open>MAX_INSTANT\<close>), and \<open>iso_of\<close> is
  \<open>isoformat(timespec="milliseconds")\<close> of a UTC \<open>datetime\<close>. The code compares these
  texts in SQL; \<open>iso_of_less\<close> is why that compares the instants.
\<close>

section \<open>The calendar\<close>

definition days_before_year :: "nat \<Rightarrow> nat" where
  "days_before_year y = 365 * (y - 1) + (y - 1) div 4 - (y - 1) div 100 + (y - 1) div 400"

definition leap_year :: "nat \<Rightarrow> bool" where
  "leap_year y \<longleftrightarrow> y mod 4 = 0 \<and> (y mod 100 \<noteq> 0 \<or> y mod 400 = 0)"

definition month_lengths :: "nat \<Rightarrow> nat list" where
  "month_lengths y = [31, if leap_year y then 29 else 28, 31, 30, 31, 30, 31, 31, 30, 31, 30, 31]"

text \<open>The year of the n-th day: cycles of 400, 100, 4 and 1 years.\<close>

definition year_of :: "nat \<Rightarrow> nat" where
  "year_of n = (let a = n div 146097; m = n mod 146097;
                    b = min 3 (m div 36524); m = m - 36524 * b;
                    c = m div 1461; m = m mod 1461;
                    d = min 3 (m div 365)
                in 400 * a + 100 * b + 4 * c + d + 1)"

fun month_day :: "nat \<Rightarrow> nat list \<Rightarrow> nat \<Rightarrow> nat \<times> nat" where
  "month_day m [] d = (m, d + 1)"
| "month_day m (l # ls) d = (if d < l then (m, d + 1) else month_day (m + 1) ls (d - l))"

definition civil :: "nat \<Rightarrow> nat \<times> nat \<times> nat" where
  "civil n = (let y = year_of n in (y, month_day 1 (month_lengths y) (n - days_before_year y)))"

lemma year_split:
  obtains a b c d r where "n = 146097 * a + 36524 * b + 1461 * c + 365 * d + r"
    "year_of n = 400 * a + 100 * b + 4 * c + d + 1" "b \<le> 3" "c \<le> 24" "d \<le> 3" "r \<le> 365"
    "r = 365 \<longrightarrow> d = 3 \<and> (c < 24 \<or> b = 3)"
proof -
  define a where "a = n div 146097"
  define m where "m = n mod 146097"
  define b where "b = min 3 (m div 36524)"
  define m1 where "m1 = m - 36524 * b"
  define c where "c = m1 div 1461"
  define m2 where "m2 = m1 mod 1461"
  define d where "d = min 3 (m2 div 365)"
  define r where "r = m2 - 365 * d"
  have n: "n = 146097 * a + m" and m: "m < 146097" by (simp_all add: a_def m_def)
  have b: "36524 * b \<le> m" "b \<le> 3" and m1: "m1 < 36524 \<or> b = 3 \<and> m1 < 36525"
    using m by (auto simp: b_def m1_def min_def)
  have c: "m1 = 1461 * c + m2" "m2 < 1461" by (simp_all add: c_def m2_def)
  have d: "365 * d \<le> m2" "d \<le> 3" and r: "r < 365 \<or> d = 3 \<and> r < 366"
    using c(2) by (auto simp: d_def r_def min_def)
  have c24: "c \<le> 24" using c m1 by auto
  have y: "year_of n = 400 * a + 100 * b + 4 * c + d + 1"
    by (simp add: year_of_def Let_def a_def m_def b_def m1_def c_def m2_def d_def)
  have "n = 146097 * a + 36524 * b + 1461 * c + 365 * d + r"
    using n b(1) c(1) d(1) by (simp add: m1_def r_def)
  moreover have "r = 365 \<longrightarrow> d = 3 \<and> (c < 24 \<or> b = 3)"
  proof
    assume r365: "r = 365"
    with r have d3: "d = 3" by simp
    show "d = 3 \<and> (c < 24 \<or> b = 3)"
    proof (cases "c < 24")
      case False
      with c24 have "c = 24" by simp
      with c(1) d(1) d3 r365 have "m1 \<ge> 36524" by (simp add: r_def)
      with m1 d3 show ?thesis by simp
    qed (simp add: d3)
  qed
  ultimately show thesis using that [of a b c d r] y b(2) c24 d(2) r by linarith
qed

lemma days_before_split:
  "b \<le> 3 \<Longrightarrow> c \<le> 24 \<Longrightarrow> d \<le> 3 \<Longrightarrow>
    days_before_year (400 * a + 100 * b + 4 * c + d + 1) = 146097 * a + 36524 * b + 1461 * c + 365 * d"
proof -
  assume h: "b \<le> 3" "c \<le> 24" "d \<le> 3"
  let ?y = "400 * a + 100 * b + 4 * c + d"
  have "?y div 4 = 100 * a + 25 * b + c" "?y div 100 = 4 * a + b" "?y div 400 = a"
    using h by simp_all
  then show ?thesis unfolding days_before_year_def using h by simp
qed

lemma year_of_bounds: "days_before_year (year_of n) \<le> n \<and> n < days_before_year (year_of n + 1)"
proof -
  obtain a b c d r where s: "n = 146097 * a + 36524 * b + 1461 * c + 365 * d + r"
    "year_of n = 400 * a + 100 * b + 4 * c + d + 1" "b \<le> 3" "c \<le> 24" "d \<le> 3" "r \<le> 365"
    "r = 365 \<longrightarrow> d = 3 \<and> (c < 24 \<or> b = 3)" by (rule year_split)
  have lo: "days_before_year (year_of n) = 146097 * a + 36524 * b + 1461 * c + 365 * d"
    unfolding s(2) by (rule days_before_split [OF s(3,4,5)])
  have "days_before_year (year_of n + 1) > n"
  proof (cases "d < 3")
    case True
    then have e: "days_before_year (year_of n + 1) = 146097 * a + 36524 * b + 1461 * c + 365 * (d + 1)"
      using days_before_split [of b c "d + 1" a] s(2,3,4) by (simp add: add.assoc)
    from s(6,7) True have "r < 365" by (auto simp: le_less)
    then show ?thesis unfolding e by (subst s(1)) simp
  next
    case d3: False
    show ?thesis
    proof (cases "c < 24")
      case True
      have "year_of n + 1 = 400 * a + 100 * b + 4 * (c + 1) + 0 + 1" using s(2,5) d3 by simp
      then have e: "days_before_year (year_of n + 1) = 146097 * a + 36524 * b + 1461 * (c + 1) + 365 * 0"
        using days_before_split [of b "c + 1" 0 a] s(3) True by (simp only:)
      show ?thesis unfolding e by (subst s(1)) (use s(5,6) in simp)
    next
      case c24: False
      show ?thesis
      proof (cases "b < 3")
        case True
        have "year_of n + 1 = 400 * a + 100 * (b + 1) + 4 * 0 + 0 + 1" using s(2,4,5) d3 c24 by simp
        then have e: "days_before_year (year_of n + 1) = 146097 * a + 36524 * (b + 1) + 1461 * 0 + 365 * 0"
          using days_before_split [of "b + 1" 0 0 a] True by (simp only:)
        from s(6,7) True c24 have "r < 365" by (auto simp: le_less)
        then show ?thesis unfolding e by (subst s(1)) (use s(4,5) in simp)
      next
        case False
        have "year_of n + 1 = 400 * (a + 1) + 100 * 0 + 4 * 0 + 0 + 1" using s(2,3,4,5) d3 c24 False by simp
        then have e: "days_before_year (year_of n + 1) = 146097 * (a + 1) + 36524 * 0 + 1461 * 0 + 365 * 0"
          using days_before_split [of 0 0 0 "a + 1"] by (simp only:)
        show ?thesis unfolding e by (subst s(1)) (use s(3,4,5,6) in simp)
      qed
    qed
  qed
  with lo s(1) show ?thesis by simp
qed

lemma days_before_year_Suc:
  "days_before_year n \<le> days_before_year (Suc n) \<and> days_before_year (Suc n) \<le> days_before_year n + 366"
proof (cases n)
  case (Suc k)
  have le: "k div 100 \<le> k div 4" "Suc k div 100 \<le> Suc k div 4" by (simp_all add: div_le_mono2)
  have dvd: "100 dvd Suc k \<Longrightarrow> 4 dvd Suc k" "400 dvd Suc k \<Longrightarrow> 100 dvd Suc k"
    by (rule dvd_trans [rotated], assumption, simp)+
  have step: "Suc k div m = k div m + (if m dvd Suc k then 1 else 0)" for m
    by (simp add: div_Suc dvd_eq_mod_eq_0)
  define p q r where "p = k div 4" and "q = k div 100" and "r = k div 400"
  have "q \<le> p" using le by (simp add: p_def q_def)
  have "365 * k + p - q + r \<le> 365 * Suc k + (p + x) - (q + y) + (r + z) \<and>
      365 * Suc k + (p + x) - (q + y) + (r + z) \<le> 365 * k + p - q + r + 366"
    if "y \<le> x" "z \<le> y" "x \<le> 1" for x y z
    proof -
    from \<open>q \<le> p\<close> that obtain e f where "p = q + e" "x = y + f" by (metis le_iff_add)
    with that show ?thesis by simp
  qed
  from this [of "if 100 dvd Suc k then 1 else 0" "if 4 dvd Suc k then 1 else 0" "if 400 dvd Suc k then 1 else 0"]
  show ?thesis
    unfolding days_before_year_def Suc using dvd by (simp add: step flip: p_def q_def r_def)
qed (simp add: days_before_year_def)

lemma days_before_year_mono: "y \<le> z \<Longrightarrow> days_before_year y \<le> days_before_year z"
proof (induction rule: dec_induct)
  case (step n)
  with days_before_year_Suc [of n] show ?case by linarith
qed simp

lemma year_of_mono: "m \<le> n \<Longrightarrow> year_of m \<le> year_of n"
  using year_of_bounds [of m] year_of_bounds [of n] days_before_year_mono [of "year_of n + 1" "year_of m"]
  by (metis Suc_eq_plus1 Suc_leI le_trans linorder_not_le)

lemma month_day_less: "d < e \<Longrightarrow> month_day m ls d < month_day m ls e"
proof (induction m ls d arbitrary: e rule: month_day.induct)
  case (2 m l ls d)
  have up: "m' \<le> fst (month_day m' ls' d')" for m' ls' d'
    by (induction m' ls' d' rule: month_day.induct) auto
  show ?case
  proof (cases "d < l")
    case True
    have "m < fst (month_day (m + 1) ls (e - l))" using up [of "m + 1" ls "e - l"] by linarith
    with True 2 show ?thesis by (auto simp: less_prod_def')
  next
    case False
    with "2.IH" [OF False, of "e - l"] "2.prems" show ?thesis by auto
  qed
qed simp

lemma civil_less: "m < n \<Longrightarrow> civil m < civil n"
proof -
  assume l: "m < n"
  with year_of_mono [of m n] consider "year_of m < year_of n" | "year_of m = year_of n" by linarith
  then show ?thesis
  proof cases
    case 2
    with l year_of_bounds [of m] have "m - days_before_year (year_of m) < n - days_before_year (year_of n)"
      by (simp add: diff_less_mono)
    with 2 show ?thesis by (simp add: civil_def Let_def month_day_less)
  qed (simp add: civil_def Let_def)
qed

section \<open>Text\<close>

fun pad :: "nat \<Rightarrow> nat \<Rightarrow> string" where
  "pad 0 n = []"
| "pad (Suc k) n = pad k (n div 10) @ [digit_char (n mod 10)]"

definition MAX_INSTANT :: nat where
  "MAX_INSTANT = 3652059 * 86400000000"

definition date_text :: "nat \<times> nat \<times> nat \<Rightarrow> string" where
  "date_text ymd = (case ymd of (y, m, d) \<Rightarrow> pad 4 y @ ''-'' @ pad 2 m @ ''-'' @ pad 2 d)"

definition iso_of :: "nat \<Rightarrow> string" where
  "iso_of t = (let ms = t div 1000 in
     date_text (civil (ms div 1000 div 60 div 60 div 24)) @ ''T''
       @ pad 2 (ms div 1000 div 60 div 60 mod 24) @ '':''
       @ pad 2 (ms div 1000 div 60 mod 60) @ '':''
       @ pad 2 (ms div 1000 mod 60) @ ''.'' @ pad 3 (ms mod 1000) @ ''+00:00'')"

lemma length_pad [simp]: "length (pad k n) = k"
  by (induction k n rule: pad.induct) simp_all

lemma append_less:
  "length xs = length ys \<Longrightarrow> xs @ us < ys @ (vs :: 'a :: linorder list) \<longleftrightarrow> xs < ys \<or> xs = ys \<and> us < vs"
  by (induction xs ys rule: list_induct2) auto

lemma digit_char_less: "a < b \<Longrightarrow> b < 10 \<Longrightarrow> digit_char a < digit_char b"
  by (simp add: digit_char_def less_char_def)

lemma pad_less: "m < n \<Longrightarrow> n < 10 ^ k \<Longrightarrow> pad k m < pad k n"
proof (induction k arbitrary: m n)
  case (Suc k)
  have n: "n div 10 < 10 ^ k" using Suc.prems by (simp add: less_mult_imp_div_less mult.commute)
  from Suc.prems consider "m div 10 < n div 10" | "m div 10 = n div 10" "m mod 10 < n mod 10"
    by (metis div_le_mono div_mult_mod_eq le_neq_implies_less less_imp_le nat_add_left_cancel_less)
  then show ?case
  proof cases
    case 1
    with Suc.IH n show ?thesis by (simp add: append_less)
  next
    case 2
    then show ?thesis by (simp add: append_less digit_char_less)
  qed
qed simp

lemma radix_less:
  "0 < k \<Longrightarrow> (s :: nat) < t \<longleftrightarrow> s div k < t div k \<or> s div k = t div k \<and> s mod k < t mod k"
  by (metis div_le_mono div_mult_mod_eq le_neq_implies_less less_imp_le linorder_neqE_nat
      nat_add_left_cancel_less not_less_iff_gr_or_eq)

lemma year_of_small: "n < 3652059 \<Longrightarrow> year_of n \<le> 9999"
  using year_of_mono [of n 3652058] by (simp add: year_of_def)

lemma month_day_small:
  assumes "n < days_before_year (year_of n + 1)"
  shows "fst (snd (civil n)) < 100 \<and> snd (snd (civil n)) < 100"
proof -
  let ?y = "year_of n" and ?d = "n - days_before_year (year_of n)"
  have "days_before_year (?y + 1) \<le> days_before_year ?y + 366"
    using days_before_year_Suc [of ?y] by simp
  with assms have d: "?d < 366" by linarith
  have days: "\<forall>l \<in> set ls. l \<le> 31 \<Longrightarrow> snd (month_day m ls e) \<le> max 31 (e - sum_list ls + 1)"
    for m ls e by (induction m ls e rule: month_day.induct) auto
  have len: "\<forall>l \<in> set (month_lengths ?y). l \<le> 31" "365 \<le> sum_list (month_lengths ?y)"
    "length (month_lengths ?y) = 12" by (simp_all add: month_lengths_def)
  from days [OF len(1), of 1 ?d] len(2) d
  have "snd (month_day 1 (month_lengths ?y) ?d) < 100" by linarith
  moreover have "fst (month_day m ls e) \<le> m + length ls" for m ls e
    by (induction m ls e rule: month_day.induct) (auto simp: le_SucI)
  from this [of 1 "month_lengths ?y" ?d] have "fst (snd (civil n)) < 100"
    using len by (simp add: civil_def Let_def)
  ultimately show ?thesis by (simp add: civil_def Let_def)
qed

lemma date_text_less: "m < n \<Longrightarrow> n < 3652059 \<Longrightarrow> date_text (civil m) < date_text (civil n)"
proof -
  assume l: "m < n" and b: "n < 3652059"
  obtain y mo d where m: "civil m = (y, mo, d)" by (cases "civil m")
  obtain y' mo' d' where n: "civil n = (y', mo', d')" by (cases "civil n")
  have y: "y' = year_of n" using n unfolding civil_def Let_def by simp
  have small: "mo' < 100" "d' < 100" "y' < 10000"
    using month_day_small [OF conjunct2 [OF year_of_bounds [of n]]] year_of_small [OF b]
    unfolding n y by simp_all
  have "(y, mo, d) < (y', mo', d')" using civil_less [OF l] m n by simp
  then consider "y < y'" | "y = y'" "mo < mo'" | "y = y'" "mo = mo'" "d < d'"
    by (auto simp: less_prod_def less_le)
  then show ?thesis
    by cases (simp_all add: date_text_def m n append_less pad_less small)
qed

lemma iso_of_less: "s div 1000 < t div 1000 \<Longrightarrow> t < MAX_INSTANT \<Longrightarrow> iso_of s < iso_of t"
proof -
  assume l: "s div 1000 < t div 1000" and b: "t < MAX_INSTANT"
  define a where "a = s div 1000"
  define c where "c = t div 1000"
  have day: "c div 1000 div 60 div 60 div 24 < 3652059"
    using b by (simp add: c_def MAX_INSTANT_def flip: div_mult2_eq)
  have len: "length (date_text p) = 10" for p by (cases p) (simp add: date_text_def)
  have "a < c" using l by (simp add: a_def c_def)
  then consider "a div 1000 div 60 div 60 div 24 < c div 1000 div 60 div 60 div 24"
    | "a div 1000 div 60 div 60 div 24 = c div 1000 div 60 div 60 div 24"
      "a div 1000 div 60 div 60 mod 24 < c div 1000 div 60 div 60 mod 24"
    | "a div 1000 div 60 div 60 = c div 1000 div 60 div 60"
      "a div 1000 div 60 mod 60 < c div 1000 div 60 mod 60"
    | "a div 1000 div 60 = c div 1000 div 60" "a div 1000 mod 60 < c div 1000 mod 60"
    | "a div 1000 = c div 1000" "a mod 1000 < c mod 1000"
    by (metis radix_less zero_less_numeral)
  moreover have "x mod 24 < 100" "x mod 60 < 100" for x :: nat
    using mod_less_divisor [of 24 x] mod_less_divisor [of 60 x] by linarith+
  ultimately show ?thesis
    unfolding iso_of_def Let_def a_def [symmetric] c_def [symmetric]
    by cases (simp_all add: append_less len pad_less date_text_less day)
qed

lemma iso_of_le_iff:
  assumes "s < MAX_INSTANT" "t < MAX_INSTANT"
  shows "iso_of s \<le> iso_of t \<longleftrightarrow> s div 1000 \<le> t div 1000"
proof -
  have "s div 1000 = t div 1000 \<Longrightarrow> iso_of s = iso_of t" by (simp add: iso_of_def)
  then show ?thesis using iso_of_less [of s t] iso_of_less [of t s] assms
    by (metis linorder_less_linear linorder_not_le order.order_iff_strict)
qed

end
