(* ===== verification/Store.thy ===== *)
theory Store
  imports Json Clock
begin

text \<open>
  The durable state of \<open>FolioLattice\<close> (\<open>src/src/folio_lattice/service.py\<close>): one record per
  table of the schema, the database, the blob directory beside it, and the primitives every
  operation is made of, with the constraints the schema puts on them (primary keys, unique indexes,
  foreign keys, checks) as branches that raise \<open>IntegrityError\<close>.

  A table is the list of its rows in \<open>rowid\<close> order, so \<open>fetchone\<close> is \<open>List.find\<close> and
  \<open>ORDER BY created_at, id\<close> is a \<open>sort_key\<close>. SQLite compares TEXT by bytes, which for texts
  below code point 256 is the lexicographic order of \<open>string\<close>.
\<close>

section \<open>Tables\<close>

record tenant_row =
  tn_id :: string
  tn_created :: string

record artifact_row =
  a_id :: string
  a_tenant :: string
  a_owner :: string
  a_name :: string
  a_media :: string
  a_current :: "string option"
  a_created :: string

record version_row =
  v_id :: string
  v_tenant :: string
  v_artifact :: string
  v_parent :: "string option"
  v_blob :: string
  v_media :: string
  v_size :: nat
  v_actor :: string
  v_reason :: string
  v_context :: string
  v_created :: string

record chunk_row =
  c_id :: string
  c_tenant :: string
  c_artifact :: string
  c_version :: string
  c_ordinal :: nat
  c_start :: nat
  c_end :: nat
  c_content :: string

text \<open>A row of either full-text index.\<close>

record fts_row =
  f_chunk :: string
  f_tenant :: string
  f_artifact :: string
  f_version :: string
  f_content :: string

record edge_row =
  e_id :: string
  e_tenant :: string
  e_source :: string
  e_target :: string
  e_type :: string
  e_metadata :: string
  e_created :: string

record grant_row =
  g_id :: string
  g_tenant :: string
  g_artifact :: string
  g_subject_type :: string
  g_subject :: string
  g_action :: string
  g_status :: string
  g_created_by :: string
  g_created :: string
  g_reason :: string
  g_revoked_by :: "string option"
  g_revoked_at :: "string option"
  g_revocation :: "string option"

record connection_row =
  x_id :: string
  x_tenant :: string
  x_name :: string
  x_endpoint :: string
  x_origin :: string
  x_transport :: string
  x_tools :: string
  x_resources :: string
  x_origins :: string
  x_policy_json :: string
  x_credential :: "string option"
  x_status :: string
  x_health :: string
  x_health_at :: "string option"
  x_created_by :: string
  x_created :: string
  x_revoked_by :: "string option"
  x_revoked_at :: "string option"
  x_policy_version :: string

record call_audit_row =
  y_id :: string
  y_tenant :: string
  y_connection :: string
  y_actor :: string
  y_action :: string
  y_outcome :: string
  y_reason :: string
  y_tool :: "string option"
  y_resource :: "string option"
  y_created :: string

record event_row =
  ev_id :: string
  ev_occurred :: string
  ev_tenant :: string
  ev_actor :: string
  ev_actor_type :: string
  ev_request :: string
  ev_correlation :: string
  ev_trace :: string
  ev_span :: string
  ev_action :: string
  ev_resource_type :: string
  ev_resource :: "string option"
  ev_outcome :: string
  ev_reason :: string
  ev_policy :: string
  ev_source :: string
  ev_details_json :: string
  ev_retention :: string
  ev_expires :: string
  ev_hold :: int
  ev_hash :: string

record export_row =
  xp_id :: string
  xp_tenant :: string
  xp_requested_by :: string
  xp_created :: string
  xp_from :: "string option"
  xp_to :: "string option"
  xp_count :: nat
  xp_checksum :: string
  xp_schema :: string
  xp_expires :: string
  xp_status :: string

record migration_row =
  mg_version :: int
  mg_name :: string
  mg_checksum :: string
  mg_applied :: string

text \<open>\<open>oidc_memberships\<close> belongs to \<open>auth.py\<close>, which opens the same database file.\<close>

record membership_row =
  mb_issuer :: string
  mb_subject :: string
  mb_tenant :: string
  mb_actor :: string
  mb_status :: string
  mb_scopes :: string
  mb_created :: string
  mb_updated :: string

record database =
  t_tenants :: "tenant_row list"
  t_artifacts :: "artifact_row list"
  t_versions :: "version_row list"
  t_chunks :: "chunk_row list"
  t_chunk_fts :: "fts_row list"
  t_substring_fts :: "fts_row list"
  t_edges :: "edge_row list"
  t_grants :: "grant_row list"
  t_connections :: "connection_row list"
  t_call_audit :: "call_audit_row list"
  t_events :: "event_row list"
  t_exports :: "export_row list"
  t_migrations :: "migration_row list"
  t_memberships :: "membership_row list option"

text \<open>
  \<open>w_blobs\<close> is the blob directory by content hash; \<open>w_ids\<close> and \<open>w_now\<close> count
  the identifiers drawn and the clock readings taken so far. None of the three is rolled back with
  the database.
\<close>

record world =
  w_db :: database
  w_blobs :: "string \<rightharpoonup> bytes"
  w_ids :: nat
  w_now :: nat

text \<open>
  What the service takes from outside: the n-th \<open>uuid4().hex\<close>, the n-th clock reading in
  microseconds, SHA-256 in hexadecimal, UTF-8 decoding with replacement, the media type table of
  \<open>mimetypes\<close>, parsing of an ISO time stamp (\<open>None\<close>: \<open>ValueError\<close>; otherwise the
  instant, in UTC when the text names a time zone, and whether it does), and the configured artifact
  size limit.
\<close>

record env =
  uuid_hex :: "nat \<Rightarrow> string"
  clock_us :: "nat \<Rightarrow> nat"
  sha256_hex :: "bytes \<Rightarrow> string"
  decode_utf8 :: "bytes \<Rightarrow> string"
  guess_type :: "string \<Rightarrow> string option"
  iso_parse :: "string \<Rightarrow> (int \<times> bool) option"
  max_artifact_bytes :: nat

text \<open>The n-th clock reading as \<open>utc_now\<close> prints it.\<close>

definition clock_iso :: "env \<Rightarrow> nat \<Rightarrow> string" where
  "clock_iso E n = iso_of (clock_us E n)"

definition empty_db :: database where
  "empty_db = \<lparr>t_tenants = [], t_artifacts = [], t_versions = [], t_chunks = [], t_chunk_fts = [],
     t_substring_fts = [], t_edges = [], t_grants = [], t_connections = [], t_call_audit = [],
     t_events = [], t_exports = [], t_migrations = [], t_memberships = None\<rparr>"

definition empty_world :: world where
  "empty_world = \<lparr>w_db = empty_db, w_blobs = Map.empty, w_ids = 0, w_now = 0\<rparr>"

section \<open>Constants\<close>

definition TEXT_MEDIA_TYPES :: "string list" where
  "TEXT_MEDIA_TYPES = [''application/javascript'', ''application/json'', ''application/ld+json'',
     ''application/xml'', ''text/css'', ''text/csv'', ''text/html'', ''text/javascript'',
     ''text/markdown'', ''text/plain'', ''text/xml'']"

definition MAX_NAME_LENGTH :: nat where "MAX_NAME_LENGTH = 255"
definition MAX_MEDIA_TYPE_LENGTH :: nat where "MAX_MEDIA_TYPE_LENGTH = 255"
definition MAX_REASON_LENGTH :: nat where "MAX_REASON_LENGTH = 2000"
definition MAX_CONTEXT_BYTES :: nat where "MAX_CONTEXT_BYTES = 32 * 1024"
definition MAX_QUERY_LENGTH :: nat where "MAX_QUERY_LENGTH = 500"
definition MAX_CURSOR_LENGTH :: nat where "MAX_CURSOR_LENGTH = 512"
definition MAX_EDGE_TYPE_LENGTH :: nat where "MAX_EDGE_TYPE_LENGTH = 100"
definition MAX_GRAPH_COMPONENT_NODES :: nat where "MAX_GRAPH_COMPONENT_NODES = 500"

definition ACL_ACTIONS :: "string list" where
  "ACL_ACTIONS = [''read'', ''write'', ''share'']"

definition ACL_SUBJECT_TYPE :: string where "ACL_SUBJECT_TYPE = ''actor''"
definition OWNER_GRANT_REASON :: string where "OWNER_GRANT_REASON = ''artifact owner''"

text \<open>\<open>max(lo, min(n, hi))\<close>, the clamp of every page size.\<close>

definition clamp :: "nat \<Rightarrow> nat \<Rightarrow> int \<Rightarrow> nat" where
  "clamp lo hi n = nat (max (int lo) (min n (int hi)))"

lemma clamp_bounds: "lo \<le> hi \<Longrightarrow> lo \<le> clamp lo hi n \<and> clamp lo hi n \<le> hi"
  by (auto simp: clamp_def)

section \<open>Identifiers, clock and transactions\<close>

definition ident :: "env \<Rightarrow> string \<Rightarrow> nat \<Rightarrow> string" where
  "ident E prefix n = prefix @ ''_'' @ uuid_hex E n"

definition new_id :: "env \<Rightarrow> string \<Rightarrow> (world, string) action" where
  "new_id E prefix = (\<lambda>w. (Inr (ident E prefix (w_ids w)), w\<lparr>w_ids := Suc (w_ids w)\<rparr>))"

definition utc_now :: "env \<Rightarrow> (world, string) action" where
  "utc_now E = (\<lambda>w. (Inr (clock_iso E (w_now w)), w\<lparr>w_now := Suc (w_now w)\<rparr>))"

text \<open>\<open>with self.connect() as db\<close>: the block's changes to the database are kept when it
  returns and undone when it raises; the blob directory is not part of the transaction.
  \<open>BEGIN IMMEDIATE\<close> serialises the writing blocks, so each is one step.\<close>

definition transact :: "(world, 'a) action \<Rightarrow> (world, 'a) action" where
  "transact m = (\<lambda>w. case m w of
     (Inl e, w') \<Rightarrow> (Inl e, w'\<lparr>w_db := w_db w\<rparr>)
   | (Inr x, w') \<Rightarrow> (Inr x, w'))"

definition query :: "(database \<Rightarrow> 'a) \<Rightarrow> (world, 'a) action" where
  "query f = mget (f \<circ> w_db)"

definition query_or_raise :: "(database \<Rightarrow> py_exn + 'a) \<Rightarrow> (world, 'a) action" where
  "query_or_raise f = (\<lambda>w. (f (w_db w), w))"

text \<open>An INSERT or UPDATE that the constraint \<open>ok\<close> of the schema guards.\<close>

definition execute :: "(database \<Rightarrow> bool) \<Rightarrow> (database \<Rightarrow> database) \<Rightarrow> (world, unit) action" where
  "execute ok f = (\<lambda>w. if ok (w_db w) then (Inr (), w\<lparr>w_db := f (w_db w)\<rparr>)
                       else (Inl IntegrityError, w))"

lemma new_id_iff [err_simps]:
  "new_id E p w = (r, w') \<longleftrightarrow>
     r = Inr (ident E p (w_ids w)) \<and> w' = w\<lparr>w_ids := Suc (w_ids w)\<rparr>"
  by (auto simp: new_id_def)

lemma utc_now_iff [err_simps]:
  "utc_now E w = (r, w') \<longleftrightarrow> r = Inr (clock_iso E (w_now w)) \<and> w' = w\<lparr>w_now := Suc (w_now w)\<rparr>"
  by (auto simp: utc_now_def)

lemma transact_Inr [err_simps]: "transact m w = (Inr x, w') \<longleftrightarrow> m w = (Inr x, w')"
  by (auto simp: transact_def split: prod.splits sum.splits)

lemma transact_Inl [err_simps]:
  "transact m w = (Inl e, w') \<longleftrightarrow> (\<exists>u. m w = (Inl e, u) \<and> w' = u\<lparr>w_db := w_db w\<rparr>)"
  by (auto simp: transact_def split: prod.splits sum.splits)

lemma query_iff [err_simps]: "query f w = (r, w') \<longleftrightarrow> r = Inr (f (w_db w)) \<and> w' = w"
  by (auto simp: query_def mget_def)

lemma query_or_raise_iff [err_simps]: "query_or_raise f w = (r, w') \<longleftrightarrow> f (w_db w) = r \<and> w' = w"
  by (auto simp: query_or_raise_def)

lemma execute_iff [err_simps]:
  "execute ok f w = (r, w') \<longleftrightarrow>
     (if ok (w_db w) then r = Inr () \<and> w' = w\<lparr>w_db := f (w_db w)\<rparr> else r = Inl IntegrityError \<and> w' = w)"
  by (auto simp: execute_def)

section \<open>Constrained inserts and updates\<close>

definition has_tenant :: "database \<Rightarrow> string \<Rightarrow> bool" where
  "has_tenant db t \<longleftrightarrow> t \<in> tn_id ` set (t_tenants db)"

definition has_artifact :: "database \<Rightarrow> string \<Rightarrow> bool" where
  "has_artifact db a \<longleftrightarrow> a \<in> a_id ` set (t_artifacts db)"

definition has_version :: "database \<Rightarrow> string option \<Rightarrow> bool" where
  "has_version db v \<longleftrightarrow> (case v of None \<Rightarrow> True | Some i \<Rightarrow> i \<in> v_id ` set (t_versions db))"

definition insert_or_ignore_tenant :: "tenant_row \<Rightarrow> (world, unit) action" where
  "insert_or_ignore_tenant r = execute (\<lambda>db. True) (\<lambda>db.
     if has_tenant db (tn_id r) then db else db\<lparr>t_tenants := t_tenants db @ [r]\<rparr>)"

definition insert_artifact_row :: "artifact_row \<Rightarrow> (world, unit) action" where
  "insert_artifact_row r = execute
     (\<lambda>db. \<not> has_artifact db (a_id r) \<and> has_tenant db (a_tenant r) \<and> has_version db (a_current r))
     (\<lambda>db. db\<lparr>t_artifacts := t_artifacts db @ [r]\<rparr>)"

definition insert_version_row :: "version_row \<Rightarrow> (world, unit) action" where
  "insert_version_row r = execute
     (\<lambda>db. \<not> has_version db (Some (v_id r)) \<and> has_tenant db (v_tenant r)
        \<and> has_artifact db (v_artifact r) \<and> has_version db (v_parent r))
     (\<lambda>db. db\<lparr>t_versions := t_versions db @ [r]\<rparr>)"

definition insert_chunk_row :: "chunk_row \<Rightarrow> (world, unit) action" where
  "insert_chunk_row r = execute
     (\<lambda>db. c_id r \<notin> c_id ` set (t_chunks db) \<and> has_tenant db (c_tenant r)
        \<and> has_artifact db (c_artifact r) \<and> has_version db (Some (c_version r))
        \<and> (c_version r, c_ordinal r) \<notin> (\<lambda>c. (c_version c, c_ordinal c)) ` set (t_chunks db))
     (\<lambda>db. db\<lparr>t_chunks := t_chunks db @ [r]\<rparr>)"

definition insert_fts_row :: "fts_row \<Rightarrow> (world, unit) action" where
  "insert_fts_row r = execute (\<lambda>db. True) (\<lambda>db. db\<lparr>t_chunk_fts := t_chunk_fts db @ [r]\<rparr>)"

definition insert_substring_row :: "fts_row \<Rightarrow> (world, unit) action" where
  "insert_substring_row r =
     execute (\<lambda>db. True) (\<lambda>db. db\<lparr>t_substring_fts := t_substring_fts db @ [r]\<rparr>)"

definition edge_key :: "edge_row \<Rightarrow> string \<times> string \<times> string \<times> string" where
  "edge_key e = (e_tenant e, e_source e, e_target e, e_type e)"

definition insert_edge_row :: "edge_row \<Rightarrow> (world, unit) action" where
  "insert_edge_row r = execute
     (\<lambda>db. e_id r \<notin> e_id ` set (t_edges db) \<and> has_tenant db (e_tenant r)
        \<and> has_artifact db (e_source r) \<and> has_artifact db (e_target r)
        \<and> edge_key r \<notin> edge_key ` set (t_edges db))
     (\<lambda>db. db\<lparr>t_edges := t_edges db @ [r]\<rparr>)"

definition grant_key :: "grant_row \<Rightarrow> string \<times> string \<times> string \<times> string \<times> string" where
  "grant_key g = (g_tenant g, g_artifact g, g_subject_type g, g_subject g, g_action g)"

definition active_grants :: "database \<Rightarrow> grant_row list" where
  "active_grants db = filter (\<lambda>g. g_status g = ''active'') (t_grants db)"

definition insert_grant_row :: "grant_row \<Rightarrow> (world, unit) action" where
  "insert_grant_row r = execute
     (\<lambda>db. g_id r \<notin> g_id ` set (t_grants db) \<and> has_tenant db (g_tenant r)
        \<and> has_artifact db (g_artifact r) \<and> g_subject_type r = ''actor''
        \<and> g_action r \<in> set [''read'', ''write'', ''share'']
        \<and> g_status r \<in> set [''active'', ''revoked'']
        \<and> (g_status r = ''active'' \<longrightarrow> grant_key r \<notin> grant_key ` set (active_grants db)))
     (\<lambda>db. db\<lparr>t_grants := t_grants db @ [r]\<rparr>)"

text \<open>\<open>UPDATE artifacts SET current_version_id = ?, media_type = ?\<close>\<close>

definition set_current_version ::
    "string \<Rightarrow> string \<Rightarrow> string \<Rightarrow> string \<Rightarrow> (world, unit) action" where
  "set_current_version vid media aid tenant = execute
     (\<lambda>db. has_version db (Some vid))
     (\<lambda>db. db\<lparr>t_artifacts := map (\<lambda>a. if a_id a = aid \<and> a_tenant a = tenant
        then a\<lparr>a_current := Some vid, a_media := media\<rparr> else a) (t_artifacts db)\<rparr>)"

text \<open>\<open>UPDATE acl_grants SET status = 'revoked' ... WHERE id = ? AND status = 'active'\<close>\<close>

definition set_grant_revoked ::
    "string \<Rightarrow> string \<Rightarrow> string \<Rightarrow> string \<Rightarrow> (world, unit) action" where
  "set_grant_revoked actor now reason gid = execute (\<lambda>db. True)
     (\<lambda>db. db\<lparr>t_grants := map (\<lambda>g. if g_id g = gid \<and> g_status g = ''active''
        then g\<lparr>g_status := ''revoked'', g_revoked_by := Some actor, g_revoked_at := Some now,
               g_revocation := Some reason\<rparr> else g) (t_grants db)\<rparr>)"

section \<open>Relations between a world and the one an operation leaves\<close>

text \<open>A relation that rolling the database back does not break goes through a transaction.\<close>

locale world_relation = action_relation R for R :: "world \<Rightarrow> world \<Rightarrow> bool" +
  assumes R_rollback: "R w w' \<Longrightarrow> R w (w'\<lparr>w_db := w_db w\<rparr>)"
    and R_draw: "R w (w\<lparr>w_ids := Suc (w_ids w)\<rparr>)" "R w (w\<lparr>w_now := Suc (w_now w)\<rparr>)"
begin

lemma steps_transact: "steps_by R m \<Longrightarrow> steps_by R (transact m)"
  unfolding steps_by_def transact_def
  by (auto split: prod.splits sum.splits) (metis R_rollback snd_conv, metis snd_conv)

lemma steps_query: "steps_by R (query f)"
  by (simp add: steps_by_def query_def mget_def R_refl)

lemma steps_query_or_raise: "steps_by R (query_or_raise f)"
  by (simp add: steps_by_def query_or_raise_def R_refl)

lemma steps_new_id: "steps_by R (new_id E p)"
  by (simp add: steps_by_def new_id_def R_draw)

lemma steps_utc_now: "steps_by R (utc_now E)"
  by (simp add: steps_by_def utc_now_def R_draw)

lemma steps_execute:
  "(\<And>w. ok (w_db w) \<Longrightarrow> R w (w\<lparr>w_db := f (w_db w)\<rparr>)) \<Longrightarrow> steps_by R (execute ok f)"
  by (simp add: steps_by_def execute_def R_refl)

lemmas world_intros = steps_intros steps_transact steps_query steps_query_or_raise
  steps_new_id steps_utc_now

end

end
