(* ===== verification/Access.thy ===== *)
theory Access
  imports Store
begin

text \<open>
  Who may do what to an artifact: input validation (\<open>_validate_text\<close>, \<open>_json\<close>), the
  per-operation check \<open>_authorize\<close>, and the SQL condition \<open>_access_clause\<close> that the listing
  and graph queries add to their WHERE clause. The two checks agree, a missing artifact and a
  denied one raise the same error, and the owner is never locked out.
\<close>

section \<open>Validation\<close>

definition validate_text :: "string \<Rightarrow> string \<Rightarrow> nat \<Rightarrow> py_exn + string" where
  "validate_text field v maximum =
     (if v = [] \<or> strip v = [] then Inl (FolioError (field @ '' must not be empty''))
      else if length v > maximum
        then Inl (FolioError (field @ '' exceeds '' @ nat_text maximum @ '' characters''))
      else Inr v)"

definition json_text :: "json \<Rightarrow> string \<Rightarrow> py_exn + string" where
  "json_text v field =
     (case dumps_sorted_strict v of
        None \<Rightarrow> Inl (FolioError (field @ '' must be JSON serializable''))
      | Some encoded \<Rightarrow>
          if length (utf8 encoded) > MAX_CONTEXT_BYTES
          then Inl (FolioError (field @ '' exceeds '' @ nat_text MAX_CONTEXT_BYTES @ '' bytes''))
          else Inr encoded)"

definition ensure_tenant :: "env \<Rightarrow> string \<Rightarrow> (world, unit) action" where
  "ensure_tenant E t =
     mbind (mlift (validate_text ''tenant_id'' t MAX_NAME_LENGTH)) (\<lambda>_.
     mbind (utc_now E) (\<lambda>now.
     insert_or_ignore_tenant \<lparr>tn_id = t, tn_created = now\<rparr>))"

section \<open>Authorization\<close>

definition find_artifact :: "database \<Rightarrow> string \<Rightarrow> string \<Rightarrow> artifact_row option" where
  "find_artifact db tenant aid =
     List.find (\<lambda>a. a_id a = aid \<and> a_tenant a = tenant) (t_artifacts db)"

definition has_grant :: "database \<Rightarrow> string \<Rightarrow> string \<Rightarrow> string \<Rightarrow> string \<Rightarrow> bool" where
  "has_grant db tenant aid actor act \<longleftrightarrow>
     list_ex (\<lambda>g. g_tenant g = tenant \<and> g_artifact g = aid \<and> g_subject_type g = ACL_SUBJECT_TYPE
        \<and> g_subject g = actor \<and> g_action g = act \<and> g_status g = ''active'') (t_grants db)"

definition authorize ::
    "database \<Rightarrow> string \<Rightarrow> string \<Rightarrow> string option \<Rightarrow> string \<Rightarrow> py_exn + unit" where
  "authorize db tenant aid actor act =
     (if act \<notin> set ACL_ACTIONS then Inl (FolioError ''unknown authorization action'')
      else case find_artifact db tenant aid of
        None \<Rightarrow> Inl (FolioError ''artifact not found'')
      | Some a \<Rightarrow>
          (case actor of
             None \<Rightarrow> Inr ()
           | Some who \<Rightarrow>
               ebind (validate_text ''actor'' who MAX_NAME_LENGTH) (\<lambda>_.
               if a_owner a = who then Inr ()
               else if has_grant db tenant aid who act then Inr ()
               else Inl (FolioError ''artifact not found''))))"

definition access_clause ::
    "string option \<Rightarrow> string \<Rightarrow> py_exn + (database \<Rightarrow> artifact_row \<Rightarrow> bool)" where
  "access_clause actor act =
     (case actor of
        None \<Rightarrow> Inr (\<lambda>db a. True)
      | Some who \<Rightarrow>
          ebind (validate_text ''actor'' who MAX_NAME_LENGTH) (\<lambda>_.
          if act \<notin> set ACL_ACTIONS then Inl (FolioError ''unknown authorization action'')
          else Inr (\<lambda>db a. a_owner a = who \<or> has_grant db (a_tenant a) (a_id a) who act)))"

section \<open>What the check decides\<close>

lemma validate_text_Inr [err_simps]:
  "validate_text f v n = Inr r \<longleftrightarrow> r = v \<and> strip v \<noteq> [] \<and> length v \<le> n"
  by (auto simp: validate_text_def strip_def lstrip_def)

text \<open>The actors an operation may be called for: absent (a trusted server-side call) or a text that
  passes \<open>_validate_text\<close>.\<close>

definition actor_ok :: "string option \<Rightarrow> bool" where
  "actor_ok actor \<longleftrightarrow> (case actor of None \<Rightarrow> True | Some who \<Rightarrow> strip who \<noteq> [] \<and> length who \<le> 255)"

definition permits :: "database \<Rightarrow> string option \<Rightarrow> string \<Rightarrow> artifact_row \<Rightarrow> bool" where
  "permits db actor act a \<longleftrightarrow> (case actor of None \<Rightarrow> True
     | Some who \<Rightarrow> a_owner a = who \<or> has_grant db (a_tenant a) (a_id a) who act)"

lemma find_artifact_Some:
  "find_artifact db tenant aid = Some a \<Longrightarrow> a \<in> set (t_artifacts db) \<and> a_id a = aid \<and> a_tenant a = tenant"
  by (auto simp: find_artifact_def find_Some_iff)

lemma find_artifact_None:
  "find_artifact db tenant aid = None \<longleftrightarrow>
     \<not> (\<exists>a \<in> set (t_artifacts db). a_id a = aid \<and> a_tenant a = tenant)"
  by (auto simp: find_artifact_def find_None_iff)

lemma find_artifact_iff:
  assumes "distinct (map a_id (t_artifacts db))"
  shows "find_artifact db tenant aid = Some a \<longleftrightarrow>
    a \<in> set (t_artifacts db) \<and> a_id a = aid \<and> a_tenant a = tenant"
proof
  assume r: "a \<in> set (t_artifacts db) \<and> a_id a = aid \<and> a_tenant a = tenant"
  then obtain b where b: "find_artifact db tenant aid = Some b"
    using find_artifact_None [of db tenant aid] by (cases "find_artifact db tenant aid") auto
  with find_artifact_Some [OF b] r assms have "b = a"
    by (auto simp: distinct_map inj_on_def)
  with b show "find_artifact db tenant aid = Some a" by simp
qed (rule find_artifact_Some)

lemma authorize_Inr [err_simps]:
  "authorize db tenant aid actor act = Inr u \<longleftrightarrow>
     act \<in> set ACL_ACTIONS \<and> actor_ok actor \<and>
     (\<exists>a. find_artifact db tenant aid = Some a \<and> permits db actor act a)"
  by (auto simp: authorize_def actor_ok_def permits_def err_simps MAX_NAME_LENGTH_def
      split: option.splits dest: find_artifact_Some)

lemma access_clause_Inr [err_simps]:
  "access_clause actor act = Inr f \<longleftrightarrow>
     actor_ok actor \<and> (actor \<noteq> None \<longrightarrow> act \<in> set ACL_ACTIONS) \<and> f = (\<lambda>db. permits db actor act)"
  by (cases actor) (auto simp: access_clause_def actor_ok_def permits_def [abs_def] err_simps
      MAX_NAME_LENGTH_def)

lemma authorize_Inl:
  assumes "act \<in> set ACL_ACTIONS" "actor_ok actor"
    and "\<not> (\<exists>a. find_artifact db tenant aid = Some a \<and> permits db actor act a)"
  shows "authorize db tenant aid actor act = Inl (FolioError ''artifact not found'')"
  using assms
  by (auto simp: authorize_def actor_ok_def permits_def err_simps validate_text_def
      strip_def lstrip_def MAX_NAME_LENGTH_def split: option.splits dest: find_artifact_Some)

lemma actions_simps [simp]:
  "''read'' \<in> set ACL_ACTIONS" "''write'' \<in> set ACL_ACTIONS" "''share'' \<in> set ACL_ACTIONS"
  by (simp_all add: ACL_ACTIONS_def)

section \<open>Properties\<close>

text \<open>C8: The listing and graph queries filter rows with exactly the decision that the
  per-artifact check takes: for a stored artifact, the SQL access clause admits its row if and only
  if \<open>_authorize\<close> returns for it, for every actor, absent ones included, and each of the three
  actions.\<close>

theorem access_clause_is_authorize:
  assumes "distinct (map a_id (t_artifacts db))" and "a \<in> set (t_artifacts db)"
    and "act \<in> set ACL_ACTIONS" and "access_clause actor act = Inr clause"
  shows "clause db a \<longleftrightarrow> authorize db (a_tenant a) (a_id a) actor act = Inr ()"
proof -
  have "find_artifact db (a_tenant a) (a_id a) = Some a"
    using assms(1,2) by (simp add: find_artifact_iff)
  with assms(3,4) show ?thesis by (auto simp: err_simps)
qed

definition sample_artifact :: artifact_row where
  "sample_artifact = \<lparr>a_id = ''art_1'', a_tenant = ''t'', a_owner = ''ann'', a_name = ''n'',
     a_media = ''text/plain'', a_current = Some ''ver_1'', a_created = ''2026''\<rparr>"

definition sample_grant :: grant_row where
  "sample_grant = \<lparr>g_id = ''grt_1'', g_tenant = ''t'', g_artifact = ''art_1'',
     g_subject_type = ''actor'', g_subject = ''bob'', g_action = ''read'', g_status = ''active'',
     g_created_by = ''ann'', g_created = ''2026'', g_reason = ''r'', g_revoked_by = None,
     g_revoked_at = None, g_revocation = None\<rparr>"

definition sample_db :: database where
  "sample_db = empty_db\<lparr>t_artifacts := [sample_artifact], t_grants := [sample_grant]\<rparr>"

lemma access_clause_is_authorize_witness:
  "authorize sample_db ''t'' ''art_1'' (Some ''bob'') ''read'' = Inr () \<and>
   authorize sample_db ''t'' ''art_1'' (Some ''bob'') ''write'' \<noteq> Inr ()"
proof -
  have db: "distinct (map a_id (t_artifacts sample_db))"
      "sample_artifact \<in> set (t_artifacts sample_db)"
      "a_tenant sample_artifact = ''t''" "a_id sample_artifact = ''art_1''"
    by (simp_all add: sample_db_def sample_artifact_def)
  have ok: "access_clause (Some ''bob'') act = Inr (\<lambda>db. permits db (Some ''bob'') act)"
    if "act \<in> set ACL_ACTIONS" for act
    using that by (simp add: err_simps actor_ok_def strip_def lstrip_def is_space_def ord_of_def)
  have "permits sample_db (Some ''bob'') ''read'' sample_artifact"
       "\<not> permits sample_db (Some ''bob'') ''write'' sample_artifact"
    by (simp_all add: permits_def sample_db_def sample_artifact_def sample_grant_def has_grant_def
        ACL_SUBJECT_TYPE_def)
  with access_clause_is_authorize [OF db(1,2) _ ok [of "''read''"]]
    access_clause_is_authorize [OF db(1,2) _ ok [of "''write''"]] db(3,4)
  show ?thesis by simp
qed

text \<open>Denial does not tell what exists: for a well-formed actor, \<open>_authorize\<close> raises one and
  the same error, \<open>artifact not found\<close>, when the artifact does not exist in the tenant and when it
  exists but is not permitted.\<close>

theorem denial_hides_existence:
  assumes "act \<in> set ACL_ACTIONS" and "actor_ok actor"
    and "authorize db tenant aid actor act \<noteq> Inr ()"
  shows "authorize db tenant aid actor act = Inl (FolioError ''artifact not found'')"
  using assms by (intro authorize_Inl) (auto simp: err_simps)

lemma denial_hides_existence_witness:
  "authorize sample_db ''t'' ''art_1'' (Some ''eve'') ''read'' =
     authorize sample_db ''t'' ''art_9'' (Some ''eve'') ''read''"
proof -
  have ok: "actor_ok (Some ''eve'')"
    by (simp add: actor_ok_def strip_def lstrip_def is_space_def ord_of_def)
  have "authorize sample_db ''t'' aid (Some ''eve'') ''read'' \<noteq> Inr ()" for aid
    by (auto simp: err_simps permits_def sample_db_def sample_artifact_def sample_grant_def
        has_grant_def dest!: find_artifact_Some)
  from denial_hides_existence [OF _ ok this] show ?thesis by simp
qed

end
