(* ===== verification/Base64.thy ===== *)
theory Base64
  imports Prelude
begin

text \<open>
  \<open>base64.b64encode\<close>, its URL-safe alphabet, and \<open>b64decode(..., validate=True)\<close>, which the
  artifact, relay and session code use to carry bytes as text. The strict decoder refuses foreign
  characters, misplaced padding and a length that is not a multiple of four, and ignores the unused
  low bits of the last sextet: the reason why the relay compares a decoded segment with its
  canonical encoding.
\<close>

definition std_alphabet :: string where
  "std_alphabet = ''ABCDEFGHIJKLMNOPQRSTUVWXYZabcdefghijklmnopqrstuvwxyz0123456789+/''"

definition url_alphabet :: string where
  "url_alphabet = ''ABCDEFGHIJKLMNOPQRSTUVWXYZabcdefghijklmnopqrstuvwxyz0123456789-_''"

fun b64_encode :: "string \<Rightarrow> bytes \<Rightarrow> string" where
  "b64_encode al [] = []"
| "b64_encode al [x] =
     [al ! (unat x div 4), al ! (unat x mod 4 * 16), CHR ''='', CHR ''='']"
| "b64_encode al [x, y] =
     [al ! (unat x div 4), al ! (unat x mod 4 * 16 + unat y div 16),
      al ! (unat y mod 16 * 4), CHR ''='']"
| "b64_encode al (x # y # z # bs) =
     al ! (unat x div 4) # al ! (unat x mod 4 * 16 + unat y div 16) #
     al ! (unat y mod 16 * 4 + unat z div 64) # al ! (unat z mod 64) # b64_encode al bs"

fun index_of :: "'a \<Rightarrow> 'a list \<Rightarrow> nat option" where
  "index_of x [] = None"
| "index_of x (y # ys) = (if x = y then Some 0 else map_option Suc (index_of x ys))"

fun b64_decode :: "string \<Rightarrow> string \<Rightarrow> bytes option" where
  "b64_decode al [] = Some []"
| "b64_decode al (a # b # c # d # s) =
     (case (index_of a al, index_of b al) of
        (Some i, Some j) \<Rightarrow>
          if c = CHR ''='' \<and> d = CHR ''='' \<and> s = [] then Some [of_nat (i * 4 + j div 16)]
          else (case index_of c al of
             None \<Rightarrow> None
           | Some k \<Rightarrow>
               if d = CHR ''='' \<and> s = []
               then Some [of_nat (i * 4 + j div 16), of_nat (j mod 16 * 16 + k div 4)]
               else (case index_of d al of
                  None \<Rightarrow> None
                | Some l \<Rightarrow>
                    map_option (\<lambda>bs. of_nat (i * 4 + j div 16) # of_nat (j mod 16 * 16 + k div 4)
                                # of_nat (k mod 4 * 64 + l) # bs) (b64_decode al s)))
      | _ \<Rightarrow> None)"
| "b64_decode al s = None"

definition good_alphabet :: "string \<Rightarrow> bool" where
  "good_alphabet al \<longleftrightarrow> length al = 64 \<and> distinct al \<and> CHR ''='' \<notin> set al"

lemma good_alphabets: "good_alphabet std_alphabet" "good_alphabet url_alphabet"
  by (simp_all add: good_alphabet_def std_alphabet_def url_alphabet_def)

lemma index_of_nth: "distinct xs \<Longrightarrow> i < length xs \<Longrightarrow> index_of (xs ! i) xs = Some i"
  by (induction xs arbitrary: i) (auto simp: nth_Cons' in_set_conv_nth)

lemma index_of_lt: "index_of x xs = Some i \<Longrightarrow> i < length xs \<and> xs ! i = x"
  by (induction xs arbitrary: i) (auto split: if_splits)

lemma unat_lt [simp]: "unat (x :: 8 word) < 256"
  using unsigned_less [of x, where ?'a = nat] by simp

lemma of_nat_unat8 [simp]: "(of_nat (unat (x :: 8 word)) :: 8 word) = x"
  by simp

lemma sextets:
  fixes x y z :: "8 word"
  shows "unat x div 4 < 64" "unat x mod 4 * 16 + unat y div 16 < 64"
    "unat y mod 16 * 4 + unat z div 64 < 64" "unat z mod 64 < 64"
    "unat x mod 4 * 16 < 64" "unat y mod 16 * 4 < 64"
proof -
  have b: "unat x < 256" "unat y < 256" "unat z < 256" by (rule unat_lt)+
  then show "unat x div 4 < 64" by (simp add: div_less_iff_less_mult)
  have y: "unat y div 16 < 16" and z: "unat z div 64 < 4"
    using b by (simp_all add: div_less_iff_less_mult)
  have m: "unat x mod 4 \<le> 3" "unat y mod 16 \<le> 15"
    using mod_less_divisor [of 4 "unat x"] mod_less_divisor [of 16 "unat y"] by linarith+
  from m y show "unat x mod 4 * 16 + unat y div 16 < 64" by linarith
  from m z show "unat y mod 16 * 4 + unat z div 64 < 64" by linarith
  from m show "unat x mod 4 * 16 < 64" "unat y mod 16 * 4 < 64" by linarith+
  show "unat z mod 64 < 64" by simp
qed

lemma regroup:
  fixes x y z :: nat
  assumes "y < 256" "z < 256"
  shows "x div 4 * 4 + (x mod 4 * 16 + y div 16) div 16 = x"
    and "(x mod 4 * 16 + y div 16) mod 16 * 16 + (y mod 16 * 4 + z div 64) div 4 = y"
    and "(y mod 16 * 4 + z div 64) mod 4 * 64 + z mod 64 = z"
    and "x div 4 * 4 + (x mod 4 * 16) div 16 = x"
    and "(x mod 4 * 16 + y div 16) mod 16 * 16 + (y mod 16 * 4) div 4 = y"
proof -
  have q: "y div 16 < 16" "z div 64 < 4" using assms by (simp_all add: div_less_iff_less_mult)
  then have 1: "(x mod 4 * 16 + y div 16) div 16 = x mod 4" "(x mod 4 * 16 + y div 16) mod 16 = y div 16"
    and 2: "(y mod 16 * 4 + z div 64) div 4 = y mod 16" "(y mod 16 * 4 + z div 64) mod 4 = z div 64"
    by simp_all
  show "x div 4 * 4 + (x mod 4 * 16 + y div 16) div 16 = x"
    "(x mod 4 * 16 + y div 16) mod 16 * 16 + (y mod 16 * 4 + z div 64) div 4 = y"
    "(y mod 16 * 4 + z div 64) mod 4 * 64 + z mod 64 = z"
    "x div 4 * 4 + (x mod 4 * 16) div 16 = x"
    "(x mod 4 * 16 + y div 16) mod 16 * 16 + (y mod 16 * 4) div 4 = y"
    unfolding 1 2 by (simp_all add: mult.commute)
qed

lemma nth_not_pad: "good_alphabet al \<Longrightarrow> i < 64 \<Longrightarrow> al ! i \<noteq> CHR ''=''"
  unfolding good_alphabet_def by (metis nth_mem)

lemma index_of_alphabet: "good_alphabet al \<Longrightarrow> i < 64 \<Longrightarrow> index_of (al ! i) al = Some i"
  by (auto simp: good_alphabet_def index_of_nth)

lemma pad_not_in: "good_alphabet al \<Longrightarrow> index_of CHR ''='' al = None"
  using index_of_lt [of "CHR ''=''" al] nth_not_pad [of al]
  by (cases "index_of CHR ''='' al") (auto simp: good_alphabet_def)

lemma b64_decode_encode: "good_alphabet al \<Longrightarrow> b64_decode al (b64_encode al bs) = Some bs"
proof (induction al bs rule: b64_encode.induct)
  case (2 al x)
  then show ?case
    using regroup(4) [where y = 0 and z = 0 and x = "unat x"]
    by (simp add: index_of_alphabet sextets)
next
  case (3 al x y)
  then show ?case
    using regroup(1,5) [where y = "unat y" and z = 0 and x = "unat x"]
    by (simp add: index_of_alphabet sextets nth_not_pad)
next
  case (4 al x y z bs)
  then show ?case
    using regroup(1,2) [where y = "unat y" and z = "unat z" and x = "unat x"]
      regroup(3) [where y = "unat y" and z = "unat z"]
    by (simp add: index_of_alphabet sextets nth_not_pad)
qed simp

lemma b64_encode_inj: "good_alphabet al \<Longrightarrow> b64_encode al x = b64_encode al y \<Longrightarrow> x = y"
  by (metis b64_decode_encode option.inject)

section \<open>Without padding\<close>

text \<open>\<open>urlsafe_b64encode(...).rstrip(b"=")\<close>, and the padding a decoder puts back.\<close>

definition unpad :: "string \<Rightarrow> string" where
  "unpad s = rev (dropWhile (\<lambda>c. c = CHR ''='') (rev s))"

definition repad :: "string \<Rightarrow> string" where
  "repad s = s @ replicate ((4 - length s mod 4) mod 4) CHR ''=''"

definition b64url :: "bytes \<Rightarrow> string" where
  "b64url bs = unpad (b64_encode url_alphabet bs)"

lemma unpad_Cons: "c \<noteq> CHR ''='' \<Longrightarrow> unpad (c # s) = c # unpad s"
  by (simp add: unpad_def dropWhile_append)

lemma unpad_pads [simp]: "unpad [CHR ''=''] = []" "unpad [CHR ''='', CHR ''=''] = []" "unpad [] = []"
  by (simp_all add: unpad_def)

lemma repad_block: "repad (a # b # c # d # s) = a # b # c # d # repad s"
  by (simp add: repad_def)

lemma unpad_encode:
  "good_alphabet al \<Longrightarrow> repad (unpad (b64_encode al bs)) = b64_encode al bs
     \<and> length (unpad (b64_encode al bs)) mod 4 \<noteq> 1 \<and> set (unpad (b64_encode al bs)) \<subseteq> set al
     \<and> (bs \<noteq> [] \<longrightarrow> unpad (b64_encode al bs) \<noteq> [])"
proof (induction al bs rule: b64_encode.induct)
  case (2 al x)
  then show ?case by (simp add: unpad_Cons nth_not_pad sextets repad_def good_alphabet_def numeral_2_eq_2)
next
  case (3 al x y)
  then show ?case by (simp add: unpad_Cons nth_not_pad sextets repad_def good_alphabet_def numeral_2_eq_2)
next
  case (4 al x y z bs)
  have n: "al ! i \<noteq> CHR ''=''" "al ! i \<in> set al" if "i < 64" for i
    using 4(2) that by (auto simp: nth_not_pad good_alphabet_def)
  have "unpad (b64_encode al (x # y # z # bs)) = al ! (unat x div 4) # al ! (unat x mod 4 * 16 + unat y div 16) #
     al ! (unat y mod 16 * 4 + unat z div 64) # al ! (unat z mod 64) # unpad (b64_encode al bs)"
    by (simp add: unpad_Cons n(1) sextets)
  then show ?case using 4 by (simp add: repad_block n(2) sextets)
qed (simp_all add: repad_def)

lemma b64url_decode: "b64_decode url_alphabet (repad (b64url bs)) = Some bs"
  using unpad_encode[OF good_alphabets(2), of bs] by (simp add: b64url_def b64_decode_encode good_alphabets)

lemma b64url_shape:
  "length (b64url bs) mod 4 \<noteq> 1" "set (b64url bs) \<subseteq> set url_alphabet" "bs \<noteq> [] \<Longrightarrow> b64url bs \<noteq> []"
  using unpad_encode[OF good_alphabets(2), of bs] by (simp_all add: b64url_def)

end
