(* ===== verification/Artifacts.thy ===== *)
theory Artifacts
  imports Access Base64
begin

text \<open>
  Artifacts and their versions (\<open>service.py\<close>): the content-addressed blob store, splitting a
  text into chunks, creating an artifact, writing a version over the current one, and the reads.
  A read is a function of the world, since each opens its own connection and changes nothing; a
  write is an action.
\<close>

section \<open>Blobs and chunks\<close>

definition store_blob :: "env \<Rightarrow> bytes \<Rightarrow> string option \<Rightarrow> (world, string) action" where
  "store_blob E data given =
     (let h = (case given of None \<Rightarrow> sha256_hex E data
               | Some g \<Rightarrow> if g = [] then sha256_hex E data else g) in
      (\<lambda>w. (Inr h,
         (if w_blobs w h = None then w\<lparr>w_blobs := (w_blobs w)(h := Some data)\<rparr> else w))))"

definition text_for :: "env \<Rightarrow> bytes \<Rightarrow> string \<Rightarrow> string option" where
  "text_for E data media =
     (if media \<notin> set TEXT_MEDIA_TYPES \<and> \<not> starts_with ''text/'' media then None
      else Some (decode_utf8 E data))"

text \<open>The chunks of a text: ordinal, start and end offset, and the slice between them.\<close>

definition chunk_list :: "nat \<Rightarrow> string \<Rightarrow> (nat \<times> nat \<times> nat \<times> string) list" where
  "chunk_list csize text =
     map (\<lambda>k. let start = k * csize; stop = min (start + csize) (length text)
              in (k, start, stop, take (stop - start) (drop start text)))
       [0..<(length text + csize - 1) div csize]"

definition CHUNK_SIZE :: nat where "CHUNK_SIZE = 1200"

definition validate_version_input ::
    "env \<Rightarrow> bytes \<Rightarrow> string \<Rightarrow> string \<Rightarrow> string \<Rightarrow> json \<Rightarrow> py_exn + string" where
  "validate_version_input E data media actor reason ctx =
     (if length data > max_artifact_bytes E
      then Inl (FolioError (''artifact exceeds '' @ nat_text (max_artifact_bytes E) @ '' bytes''))
      else ebind (validate_text ''media_type'' media MAX_MEDIA_TYPE_LENGTH) (\<lambda>_.
           ebind (validate_text ''actor'' actor MAX_NAME_LENGTH) (\<lambda>_.
           ebind (validate_text ''reason'' reason MAX_REASON_LENGTH) (\<lambda>_.
           json_text ctx ''source_context''))))"

section \<open>Writing versions\<close>

definition insert_one_chunk ::
    "env \<Rightarrow> string \<Rightarrow> string \<Rightarrow> string \<Rightarrow> nat \<times> nat \<times> nat \<times> string \<Rightarrow> (world, unit) action" where
  "insert_one_chunk E tenant aid vid = (\<lambda>(ord, start, stop, content).
     mbind (new_id E ''chk'') (\<lambda>cid.
     mbind (insert_chunk_row \<lparr>c_id = cid, c_tenant = tenant, c_artifact = aid, c_version = vid,
              c_ordinal = ord, c_start = start, c_end = stop, c_content = content\<rparr>) (\<lambda>_.
     mbind (insert_fts_row \<lparr>f_chunk = cid, f_tenant = tenant, f_artifact = aid, f_version = vid,
              f_content = content\<rparr>) (\<lambda>_.
     insert_substring_row \<lparr>f_chunk = cid, f_tenant = tenant, f_artifact = aid, f_version = vid,
              f_content = content\<rparr>))))"

definition opt_text :: "string option \<Rightarrow> string" where
  "opt_text v = (case v of None \<Rightarrow> ''None'' | Some s \<Rightarrow> s)"

definition insert_version ::
    "env \<Rightarrow> string \<Rightarrow> string \<Rightarrow> bytes \<Rightarrow> string \<Rightarrow> string \<Rightarrow> string \<Rightarrow> string \<Rightarrow> string option
      \<Rightarrow> (world, string) action" where
  "insert_version E tenant aid data media actor reason ctx parent =
     mbind (new_id E ''ver'') (\<lambda>vid.
     mbind (utc_now E) (\<lambda>now.
     mbind (query (\<lambda>db. find_artifact db tenant aid)) (\<lambda>found.
     case found of
       None \<Rightarrow> mraise (FolioError ''artifact not found'')
     | Some a \<Rightarrow>
         mbind (mguard (parent \<noteq> a_current a)
           (FolioError (''parent version mismatch; expected '' @ opt_text (a_current a)))) (\<lambda>_.
         mbind (store_blob E data (Some (sha256_hex E data))) (\<lambda>_.
         mbind (insert_version_row \<lparr>v_id = vid, v_tenant = tenant, v_artifact = aid,
             v_parent = parent, v_blob = sha256_hex E data, v_media = media, v_size = length data,
             v_actor = actor, v_reason = reason, v_context = ctx, v_created = now\<rparr>) (\<lambda>_.
         mbind (case text_for E data media of
                  None \<Rightarrow> mret ()
                | Some text \<Rightarrow>
                    mfor (chunk_list CHUNK_SIZE text) (insert_one_chunk E tenant aid vid)) (\<lambda>_.
         mbind (set_current_version vid media aid tenant) (\<lambda>_.
         mret vid))))))))"

section \<open>Views of rows\<close>

record artifact_view =
  av_id :: string
  av_tenant :: string
  av_name :: string
  av_media :: string
  av_current :: "string option"
  av_created :: string

definition view_artifact :: "artifact_row \<Rightarrow> artifact_view" where
  "view_artifact a = \<lparr>av_id = a_id a, av_tenant = a_tenant a, av_name = a_name a,
     av_media = a_media a, av_current = a_current a, av_created = a_created a\<rparr>"

record version_view =
  vv_id :: string
  vv_artifact :: string
  vv_parent :: "string option"
  vv_blob :: string
  vv_media :: string
  vv_size :: nat
  vv_actor :: string
  vv_reason :: string
  vv_context :: json
  vv_created :: string

definition view_version :: "version_row \<Rightarrow> py_exn + version_view" where
  "view_version v =
     (case loads (v_context v) of
        None \<Rightarrow> Inl (ValueError ''JSONDecodeError'')
      | Some ctx \<Rightarrow> Inr \<lparr>vv_id = v_id v, vv_artifact = v_artifact v, vv_parent = v_parent v,
          vv_blob = v_blob v, vv_media = v_media v, vv_size = v_size v, vv_actor = v_actor v,
          vv_reason = v_reason v, vv_context = ctx, vv_created = v_created v\<rparr>)"

text \<open>A chunk without its content, and with it.\<close>

record chunk_view =
  cv_id :: string
  cv_artifact :: string
  cv_version :: string
  cv_ordinal :: nat
  cv_start :: nat
  cv_end :: nat
  cv_content :: "string option"
  cv_offset_unit :: string

definition view_chunk :: "bool \<Rightarrow> chunk_row \<Rightarrow> chunk_view" where
  "view_chunk full c = \<lparr>cv_id = c_id c, cv_artifact = c_artifact c, cv_version = c_version c,
     cv_ordinal = c_ordinal c, cv_start = c_start c, cv_end = c_end c,
     cv_content = (if full then Some (c_content c) else None),
     cv_offset_unit = ''unicode_code_points''\<rparr>"

section \<open>Reads\<close>

definition mread :: "(world \<Rightarrow> py_exn + 'a) \<Rightarrow> (world, 'a) action" where
  "mread f = (\<lambda>w. (f w, w))"

lemma mread_iff [err_simps]: "mread f w = (r, w') \<longleftrightarrow> f w = r \<and> w' = w"
  by (auto simp: mread_def)

text \<open>How a sequence of database steps that returned got there.\<close>

lemmas run_simps = mbind_Inr_iff mlift_iff transact_Inr query_or_raise_iff query_iff mguard_iff
  mret_iff mraise_iff mread_iff new_id_iff utc_now_iff

definition get_artifact ::
    "world \<Rightarrow> string \<Rightarrow> string \<Rightarrow> string option \<Rightarrow> string \<Rightarrow> py_exn + artifact_view" where
  "get_artifact w tenant aid actor act =
     (case find_artifact (w_db w) tenant aid of
        None \<Rightarrow> Inl (FolioError ''artifact not found'')
      | Some a \<Rightarrow> ebind (authorize (w_db w) tenant aid actor act) (\<lambda>_. Inr (view_artifact a)))"

text \<open>\<open>except FolioError\<close> with the message \<open>artifact not found\<close>: the error becomes the
  caller's own; others pass.\<close>

definition rename_not_found :: "string \<Rightarrow> py_exn + 'a \<Rightarrow> py_exn + 'a" where
  "rename_not_found msg r =
     (case r of Inl e \<Rightarrow> Inl (if e = FolioError ''artifact not found'' then FolioError msg else e)
      | Inr x \<Rightarrow> Inr x)"

definition find_version ::
    "database \<Rightarrow> string \<Rightarrow> string option \<Rightarrow> string option \<Rightarrow> version_row option" where
  "find_version db tenant vid aid =
     List.find (\<lambda>v. Some (v_id v) = vid \<and> v_tenant v = tenant
        \<and> (aid = None \<or> Some (v_artifact v) = aid)) (t_versions db)"

definition version_metadata ::
    "world \<Rightarrow> string \<Rightarrow> string option \<Rightarrow> string option \<Rightarrow> string \<Rightarrow> string option \<Rightarrow>
     py_exn + version_view" where
  "version_metadata w tenant vid actor act aid =
     (case find_version (w_db w) tenant vid aid of
        None \<Rightarrow> Inl (FolioError ''version not found'')
      | Some v \<Rightarrow>
          ebind (rename_not_found ''version not found''
            (authorize (w_db w) tenant (v_artifact v) actor act)) (\<lambda>_. view_version v))"

definition version_bytes ::
    "world \<Rightarrow> string \<Rightarrow> string option \<Rightarrow> string option \<Rightarrow> string option \<Rightarrow> py_exn + bytes" where
  "version_bytes w tenant vid actor aid =
     ebind (version_metadata w tenant vid actor ''read'' aid) (\<lambda>m.
     case w_blobs w (vv_blob m) of
       None \<Rightarrow> Inl (FolioError ''version blob missing'')
     | Some data \<Rightarrow> Inr data)"

definition chunk_descriptors ::
    "world \<Rightarrow> string \<Rightarrow> string \<Rightarrow> string option \<Rightarrow> string option \<Rightarrow> py_exn + chunk_view list" where
  "chunk_descriptors w tenant aid vid actor =
     ebind (authorize (w_db w) tenant aid actor ''read'') (\<lambda>_.
     Inr (map (view_chunk False) (sort_key c_ordinal
       (filter (\<lambda>c. c_tenant c = tenant \<and> c_artifact c = aid \<and> Some (c_version c) = vid)
         (t_chunks (w_db w))))))"

record artifact_read =
  rd_artifact :: artifact_view
  rd_version :: version_view
  rd_chunks :: "chunk_view list"
  rd_content_base64 :: string
  rd_text :: "string option"

definition read_artifact ::
    "env \<Rightarrow> world \<Rightarrow> string \<Rightarrow> string \<Rightarrow> string option \<Rightarrow> string option \<Rightarrow>
     py_exn + artifact_read" where
  "read_artifact E w tenant aid version actor =
     ebind (get_artifact w tenant aid actor ''read'') (\<lambda>a.
     let vid = (case version of None \<Rightarrow> av_current a | Some v \<Rightarrow> Some v) in
     ebind (version_metadata w tenant vid actor ''read'' (Some aid)) (\<lambda>m.
     ebind (version_bytes w tenant vid actor (Some aid)) (\<lambda>data.
     ebind (chunk_descriptors w tenant aid vid actor) (\<lambda>chunks.
     Inr \<lparr>rd_artifact = a, rd_version = m, rd_chunks = chunks,
          rd_content_base64 = b64_encode std_alphabet data,
          rd_text = text_for E data (vv_media m)\<rparr>))))"

definition read_chunk ::
    "world \<Rightarrow> string \<Rightarrow> string \<Rightarrow> string option \<Rightarrow> py_exn + chunk_view" where
  "read_chunk w tenant cid actor =
     (case List.find (\<lambda>c. c_id c = cid \<and> c_tenant c = tenant) (t_chunks (w_db w)) of
        None \<Rightarrow> Inl (FolioError ''chunk not found'')
      | Some c \<Rightarrow>
          ebind (rename_not_found ''chunk not found''
            (authorize (w_db w) tenant (c_artifact c) actor ''read'')) (\<lambda>_.
          Inr (view_chunk True c)))"

definition versions ::
    "world \<Rightarrow> string \<Rightarrow> string \<Rightarrow> int \<Rightarrow> string option \<Rightarrow> py_exn + version_view list" where
  "versions w tenant aid limit actor =
     ebind (get_artifact w tenant aid actor ''read'') (\<lambda>_.
     emap_list view_version
       (take (clamp 1 500 limit) (sort_key (\<lambda>v. (v_created v, v_id v))
         (filter (\<lambda>v. v_tenant v = tenant \<and> v_artifact v = aid) (t_versions (w_db w))))))"

section \<open>The write operations\<close>

definition owner_grant_id :: "string \<Rightarrow> string \<Rightarrow> string" where
  "owner_grant_id aid act = ''owner_'' @ aid @ ''_'' @ act"

definition owner_grant :: "string \<Rightarrow> string \<Rightarrow> string \<Rightarrow> string \<Rightarrow> string \<Rightarrow> grant_row" where
  "owner_grant tenant aid actor act now =
     \<lparr>g_id = owner_grant_id aid act, g_tenant = tenant, g_artifact = aid,
      g_subject_type = ACL_SUBJECT_TYPE, g_subject = actor, g_action = act, g_status = ''active'',
      g_created_by = actor, g_created = now, g_reason = OWNER_GRANT_REASON, g_revoked_by = None,
      g_revoked_at = None, g_revocation = None\<rparr>"

definition insert_owner_grants :: "env \<Rightarrow> string \<Rightarrow> string \<Rightarrow> string \<Rightarrow> (world, unit) action" where
  "insert_owner_grants E tenant aid actor = mfor ACL_ACTIONS (\<lambda>act.
     mbind (utc_now E) (\<lambda>now. insert_grant_row (owner_grant tenant aid actor act now)))"

text \<open>\<open>media_type or mimetypes.guess_type(name)[0] or "application/octet-stream"\<close>\<close>

definition resolve_media :: "env \<Rightarrow> string option \<Rightarrow> string \<Rightarrow> string" where
  "resolve_media E media name =
     (case media of
        Some (c # cs) \<Rightarrow> c # cs
      | _ \<Rightarrow> (case guess_type E name of
               Some (c # cs) \<Rightarrow> c # cs
             | _ \<Rightarrow> ''application/octet-stream''))"

definition or_empty :: "json option \<Rightarrow> json" where
  "or_empty v = (case v of Some j \<Rightarrow> if jtruthy j then j else JObj [] | None \<Rightarrow> JObj [])"

definition create_artifact ::
    "env \<Rightarrow> string \<Rightarrow> string \<Rightarrow> bytes \<Rightarrow> string option \<Rightarrow> string \<Rightarrow> string \<Rightarrow> json option \<Rightarrow>
     (world, artifact_view \<times> version_view) action" where
  "create_artifact E tenant name data media_type actor reason ctx =
     mbind (new_id E ''art'') (\<lambda>aid.
     mbind (mlift (validate_text ''name'' name MAX_NAME_LENGTH)) (\<lambda>_.
     let media = resolve_media E media_type name in
     mbind (mlift (validate_version_input E data media actor reason (or_empty ctx))) (\<lambda>ctx_json.
     mbind (transact (
       mbind (ensure_tenant E tenant) (\<lambda>_.
       mbind (utc_now E) (\<lambda>now.
       mbind (insert_artifact_row \<lparr>a_id = aid, a_tenant = tenant, a_owner = actor, a_name = name,
                a_media = media, a_current = None, a_created = now\<rparr>) (\<lambda>_.
       mbind (insert_owner_grants E tenant aid actor) (\<lambda>_.
       insert_version E tenant aid data media actor reason ctx_json None))))))
     (\<lambda>vid.
     mbind (mread (\<lambda>w. get_artifact w tenant aid (Some actor) ''read'')) (\<lambda>a.
     mbind (mread (\<lambda>w. version_metadata w tenant (Some vid) (Some actor) ''read'' None)) (\<lambda>v.
     mret (a, v)))))))"

text \<open>\<open>authorization_actor\<close>: \<open>None\<close> is the default (use the caller), \<open>Some a\<close> an
  explicit actor or an explicit absence of one.\<close>

definition request_actor :: "string \<Rightarrow> string option option \<Rightarrow> string option" where
  "request_actor actor auth = (case auth of None \<Rightarrow> Some actor | Some a \<Rightarrow> a)"

definition write_version ::
    "env \<Rightarrow> string \<Rightarrow> string \<Rightarrow> bytes \<Rightarrow> string \<Rightarrow> string \<Rightarrow> string \<Rightarrow> json \<Rightarrow> string option \<Rightarrow>
     string option option \<Rightarrow> (world, version_view) action" where
  "write_version E tenant aid data media actor reason ctx parent auth =
     mbind (mlift (validate_version_input E data media actor reason ctx)) (\<lambda>ctx_json.
     mbind (transact (
       mbind (query_or_raise (\<lambda>db. authorize db tenant aid (request_actor actor auth) ''write'')) (\<lambda>_.
       insert_version E tenant aid data media actor reason ctx_json parent)))
     (\<lambda>vid. mread (\<lambda>w.
       version_metadata w tenant (Some vid) (request_actor actor auth) ''write'' None)))"

end
