(* ===== verification/Integrity.thy ===== *)
theory Integrity
  imports Artifacts "HOL-Library.Sublist"
begin

text \<open>
  What every write leaves true of the artifact tables and the blob directory: unique keys,
  references that stay inside a tenant, one linear history per artifact, owner grants, chunks that
  partition the stored text, blobs filed under their own hash, identifiers below the counter. Each
  part is a definition of its own; \<open>graph_ok\<close> is their conjunction.
\<close>

section \<open>The invariant\<close>

definition keys_ok :: "database \<Rightarrow> bool" where
  "keys_ok db \<longleftrightarrow> distinct (map a_id (t_artifacts db)) \<and> distinct (map v_id (t_versions db))
     \<and> distinct (map c_id (t_chunks db)) \<and> distinct (map e_id (t_edges db))
     \<and> distinct (map g_id (t_grants db)) \<and> distinct (map edge_key (t_edges db))
     \<and> distinct (map grant_key (active_grants db))"

definition artifact_in :: "database \<Rightarrow> string \<Rightarrow> string \<Rightarrow> bool" where
  "artifact_in db tenant aid \<longleftrightarrow> (\<exists>a \<in> set (t_artifacts db). a_id a = aid \<and> a_tenant a = tenant)"

definition version_in :: "database \<Rightarrow> string \<Rightarrow> string \<Rightarrow> string \<Rightarrow> bool" where
  "version_in db tenant aid vid \<longleftrightarrow>
     (\<exists>v \<in> set (t_versions db). v_id v = vid \<and> v_artifact v = aid \<and> v_tenant v = tenant)"

definition refs_ok :: "database \<Rightarrow> bool" where
  "refs_ok db \<longleftrightarrow>
     (\<forall>a \<in> set (t_artifacts db). has_tenant db (a_tenant a)) \<and>
     (\<forall>v \<in> set (t_versions db). artifact_in db (v_tenant v) (v_artifact v)) \<and>
     (\<forall>c \<in> set (t_chunks db). version_in db (c_tenant c) (c_artifact c) (c_version c)) \<and>
     (\<forall>e \<in> set (t_edges db). e_source e \<noteq> e_target e \<and> artifact_in db (e_tenant e) (e_source e)
        \<and> artifact_in db (e_tenant e) (e_target e)) \<and>
     (\<forall>g \<in> set (t_grants db). artifact_in db (g_tenant g) (g_artifact g)
        \<and> g_subject_type g = ACL_SUBJECT_TYPE)"

text \<open>The versions of an artifact in the order they were written.\<close>

definition history :: "database \<Rightarrow> string \<Rightarrow> version_row list" where
  "history db aid = filter (\<lambda>v. v_artifact v = aid) (t_versions db)"

text \<open>The history is one chain: the first version has no parent, each later one has its
  predecessor for parent, and the artifact points at the last.\<close>

definition chain :: "database \<Rightarrow> artifact_row \<Rightarrow> bool" where
  "chain db a \<longleftrightarrow> map v_parent (history db (a_id a)) @ [a_current a]
     = None # map (\<lambda>v. Some (v_id v)) (history db (a_id a))"

definition linear :: "database \<Rightarrow> artifact_row \<Rightarrow> bool" where
  "linear db a \<longleftrightarrow> history db (a_id a) \<noteq> [] \<and> chain db a
     \<and> a_media a = v_media (last (history db (a_id a)))"

definition owned :: "database \<Rightarrow> artifact_row \<Rightarrow> bool" where
  "owned db a \<longleftrightarrow> (\<forall>act \<in> set ACL_ACTIONS. \<exists>now.
     owner_grant (a_tenant a) (a_id a) (a_owner a) act now \<in> set (t_grants db))"

definition chunk_data :: "chunk_row \<Rightarrow> nat \<times> nat \<times> nat \<times> string" where
  "chunk_data c = (c_ordinal c, c_start c, c_end c, c_content c)"

definition version_chunks :: "database \<Rightarrow> string \<Rightarrow> chunk_row list" where
  "version_chunks db vid = filter (\<lambda>c. c_version c = vid) (t_chunks db)"

definition expected_chunks :: "env \<Rightarrow> bytes \<Rightarrow> string \<Rightarrow> (nat \<times> nat \<times> nat \<times> string) list" where
  "expected_chunks E data media =
     (case text_for E data media of None \<Rightarrow> [] | Some text \<Rightarrow> chunk_list CHUNK_SIZE text)"

definition stored :: "env \<Rightarrow> world \<Rightarrow> version_row \<Rightarrow> bool" where
  "stored E w v \<longleftrightarrow> w_blobs w (v_blob v) \<noteq> None \<and>
     (\<exists>data. v_blob v = sha256_hex E data \<and> v_size v = length data
        \<and> map chunk_data (version_chunks (w_db w) (v_id v)) = expected_chunks E data (v_media v))"

definition blobs_ok :: "env \<Rightarrow> world \<Rightarrow> bool" where
  "blobs_ok E w \<longleftrightarrow> (\<forall>h data. w_blobs w h = Some data \<longrightarrow> sha256_hex E data = h)"

definition drawn :: "env \<Rightarrow> world \<Rightarrow> string \<Rightarrow> string \<Rightarrow> bool" where
  "drawn E w pre i \<longleftrightarrow> (\<exists>n < w_ids w. i = ident E pre n)"

definition ids_ok :: "env \<Rightarrow> world \<Rightarrow> bool" where
  "ids_ok E w \<longleftrightarrow>
     (\<forall>a \<in> set (t_artifacts (w_db w)). drawn E w ''art'' (a_id a)) \<and>
     (\<forall>v \<in> set (t_versions (w_db w)). drawn E w ''ver'' (v_id v)) \<and>
     (\<forall>c \<in> set (t_chunks (w_db w)). drawn E w ''chk'' (c_id c)) \<and>
     (\<forall>e \<in> set (t_edges (w_db w)). drawn E w ''edg'' (e_id e)) \<and>
     (\<forall>g \<in> set (t_grants (w_db w)).
        drawn E w ''grt'' (g_id g) \<or> (\<exists>act \<in> set ACL_ACTIONS. g_id g = owner_grant_id (g_artifact g) act))"

definition graph_ok :: "env \<Rightarrow> world \<Rightarrow> bool" where
  "graph_ok E w \<longleftrightarrow> keys_ok (w_db w) \<and> refs_ok (w_db w)
     \<and> (\<forall>a \<in> set (t_artifacts (w_db w)). linear (w_db w) a \<and> owned (w_db w) a)
     \<and> (\<forall>v \<in> set (t_versions (w_db w)). stored E w v)
     \<and> blobs_ok E w \<and> ids_ok E w"

lemma graph_ok_empty: "graph_ok E empty_world"
  by (simp add: graph_ok_def keys_ok_def refs_ok_def ids_ok_def blobs_ok_def empty_world_def
      empty_db_def active_grants_def)

section \<open>The part of the world that no rollback restores\<close>

definition outer :: "env \<Rightarrow> world \<Rightarrow> world \<Rightarrow> bool" where
  "outer E w w' \<longleftrightarrow> w_ids w \<le> w_ids w' \<and> w_blobs w \<subseteq>\<^sub>m w_blobs w' \<and> (blobs_ok E w \<longrightarrow> blobs_ok E w')"

lemma blobs_ok_update [simp]:
  "blobs_ok E (w\<lparr>w_db := d\<rparr>) = blobs_ok E w" "blobs_ok E (w\<lparr>w_ids := n\<rparr>) = blobs_ok E w"
  "blobs_ok E (w\<lparr>w_now := k\<rparr>) = blobs_ok E w"
  unfolding blobs_ok_def by simp_all

lemma blobs_ok_add: "blobs_ok E w \<Longrightarrow> blobs_ok E (w\<lparr>w_blobs := (w_blobs w)(sha256_hex E d := Some d)\<rparr>)"
  unfolding blobs_ok_def by auto

lemma outer_trans: "outer E u v \<Longrightarrow> outer E v w \<Longrightarrow> outer E u w"
  using map_le_trans [of "w_blobs u" "w_blobs v" "w_blobs w"] by (auto simp: outer_def)

interpretation outer: world_relation "outer E" for E
proof
  show "outer E s u" if "outer E s t" "outer E t u" for s t u
    using outer_trans that .
qed (simp_all add: outer_def)

lemma outer_execute: "steps_by (outer E) (execute ok f)"
  by (rule outer.steps_execute) (simp add: outer_def)

lemma outer_store_blob: "steps_by (outer E) (store_blob E data (Some (sha256_hex E data)))"
  by (simp add: steps_by_def store_blob_def Let_def outer_def blobs_ok_add map_le_def)
    (metis domIff)

lemmas insert_defs = insert_or_ignore_tenant_def insert_artifact_row_def insert_version_row_def
  insert_chunk_row_def insert_fts_row_def insert_substring_row_def insert_edge_row_def
  insert_grant_row_def set_current_version_def set_grant_revoked_def

lemma outer_insert_version: "steps_by (outer E) (insert_version E t a d m who why c p)"
  unfolding insert_version_def insert_one_chunk_def insert_defs
  by (intro outer.world_intros outer_execute outer_store_blob)
    (auto intro!: outer.world_intros outer_execute split: prod.split)

text \<open>A world that keeps its database and moves only in \<open>outer\<close> keeps the invariant.\<close>

lemma drawn_mono: "drawn E w p i \<Longrightarrow> w_ids w \<le> w_ids w' \<Longrightarrow> drawn E w' p i"
  unfolding drawn_def by (elim exE conjE) (rule exI, rule conjI, erule (1) less_le_trans)

lemma ids_ok_mono: "ids_ok E w \<Longrightarrow> w_db w' = w_db w \<Longrightarrow> w_ids w \<le> w_ids w' \<Longrightarrow> ids_ok E w'"
  using drawn_mono [of E w _ _ w'] by (simp add: ids_ok_def) blast

lemma stored_mono:
  "stored E w v \<Longrightarrow> w_blobs w \<subseteq>\<^sub>m w_blobs w' \<Longrightarrow>
   version_chunks (w_db w') (v_id v) = version_chunks (w_db w) (v_id v) \<Longrightarrow> stored E w' v"
  by (auto simp: stored_def map_le_def dom_def)

lemma graph_ok_outer:
  assumes "graph_ok E w" "outer E w w'" "w_db w' = w_db w"
  shows "graph_ok E w'"
  using assms ids_ok_mono [of E w w'] stored_mono [of E w _ w']
  by (auto simp: graph_ok_def outer_def)


section \<open>What a version write does\<close>

fun chunk_rows :: "env \<Rightarrow> string \<Rightarrow> string \<Rightarrow> string \<Rightarrow> nat \<Rightarrow> (nat \<times> nat \<times> nat \<times> string) list \<Rightarrow> chunk_row list"
where
  "chunk_rows E t a v n [] = []"
| "chunk_rows E t a v n ((ord, start, stop, content) # cs) =
     \<lparr>c_id = ident E ''chk'' n, c_tenant = t, c_artifact = a, c_version = v, c_ordinal = ord,
      c_start = start, c_end = stop, c_content = content\<rparr> # chunk_rows E t a v (Suc n) cs"

definition fts_of :: "chunk_row \<Rightarrow> fts_row" where
  "fts_of c = \<lparr>f_chunk = c_id c, f_tenant = c_tenant c, f_artifact = c_artifact c,
     f_version = c_version c, f_content = c_content c\<rparr>"

definition add_chunks :: "chunk_row list \<Rightarrow> database \<Rightarrow> database" where
  "add_chunks rows db = db\<lparr>t_chunks := t_chunks db @ rows,
     t_chunk_fts := t_chunk_fts db @ map fts_of rows,
     t_substring_fts := t_substring_fts db @ map fts_of rows\<rparr>"

lemma insert_one_chunk_Inr:
  "insert_one_chunk E t a v x w = (Inr (), w') \<Longrightarrow>
   w' = w\<lparr>w_db := add_chunks (chunk_rows E t a v (w_ids w) [x]) (w_db w), w_ids := Suc (w_ids w)\<rparr>"
  by (cases x) (auto simp: insert_one_chunk_def insert_defs err_simps add_chunks_def fts_of_def
      split: if_splits)

lemma chunk_rows_Cons: "chunk_rows E t a v n (x # cs) = chunk_rows E t a v n [x] @ chunk_rows E t a v (Suc n) cs"
  by (cases x) simp

lemma add_chunks_add: "add_chunks ys (add_chunks xs db) = add_chunks (xs @ ys) db"
  by (simp add: add_chunks_def)

lemma insert_chunks_Inr:
  "mfor cs (insert_one_chunk E t a v) w = (Inr (), w') \<Longrightarrow>
   w' = w\<lparr>w_db := add_chunks (chunk_rows E t a v (w_ids w) cs) (w_db w),
          w_ids := w_ids w + length cs\<rparr>"
proof (induction cs arbitrary: w)
  case Nil
  then show ?case by (simp add: err_simps add_chunks_def)
next
  case (Cons x cs)
  then obtain u where u: "insert_one_chunk E t a v x w = (Inr (), u)"
      "mfor cs (insert_one_chunk E t a v) u = (Inr (), w')"
    by (auto simp: err_simps)
  from insert_one_chunk_Inr [OF u(1)] Cons.IH [OF u(2)] show ?case
    by (simp add: add_chunks_add chunk_rows_Cons [of _ _ _ _ _ x cs] del: chunk_rows.simps)
qed

text \<open>The database after a version is written: the row, its chunks and the moved pointer.\<close>

definition commit_version :: "version_row \<Rightarrow> chunk_row list \<Rightarrow> database \<Rightarrow> database" where
  "commit_version v rows db = add_chunks rows (db\<lparr>
     t_versions := t_versions db @ [v],
     t_artifacts := map (\<lambda>a. if a_id a = v_artifact v \<and> a_tenant a = v_tenant v
       then a\<lparr>a_current := Some (v_id v), a_media := v_media v\<rparr> else a) (t_artifacts db)\<rparr>)"

definition put_blob :: "env \<Rightarrow> bytes \<Rightarrow> (string \<rightharpoonup> bytes) \<Rightarrow> (string \<rightharpoonup> bytes)" where
  "put_blob E data bs = (if bs (sha256_hex E data) = None then bs(sha256_hex E data := Some data) else bs)"

definition new_version ::
    "env \<Rightarrow> world \<Rightarrow> string \<Rightarrow> string \<Rightarrow> bytes \<Rightarrow> string \<Rightarrow> string \<Rightarrow> string \<Rightarrow> string \<Rightarrow>
     string option \<Rightarrow> version_row" where
  "new_version E w t a data media actor reason ctx parent =
     \<lparr>v_id = ident E ''ver'' (w_ids w), v_tenant = t, v_artifact = a, v_parent = parent,
      v_blob = sha256_hex E data, v_media = media, v_size = length data, v_actor = actor,
      v_reason = reason, v_context = ctx, v_created = clock_iso E (w_now w)\<rparr>"

definition after_version ::
    "env \<Rightarrow> world \<Rightarrow> string \<Rightarrow> string \<Rightarrow> bytes \<Rightarrow> string \<Rightarrow> string \<Rightarrow> string \<Rightarrow> string \<Rightarrow>
     string option \<Rightarrow> world" where
  "after_version E w t a data media actor reason ctx parent =
     (let v = new_version E w t a data media actor reason ctx parent;
          cs = expected_chunks E data media
      in w\<lparr>w_db := commit_version v (chunk_rows E t a (v_id v) (Suc (w_ids w)) cs) (w_db w),
           w_blobs := put_blob E data (w_blobs w),
           w_ids := Suc (w_ids w) + length cs, w_now := Suc (w_now w)\<rparr>)"

lemma store_blob_eq:
  "store_blob E d (Some (sha256_hex E d)) w =
     (Inr (sha256_hex E d), w\<lparr>w_blobs := put_blob E d (w_blobs w)\<rparr>)"
  by (simp add: store_blob_def put_blob_def Let_def)

lemma optional_chunks_Inr:
  assumes "(case text_for E d m of None \<Rightarrow> mret ()
      | Some text \<Rightarrow> mfor (chunk_list CHUNK_SIZE text) (insert_one_chunk E t a v)) w = (Inr (), w')"
  shows "w' = w\<lparr>w_db := add_chunks (chunk_rows E t a v (w_ids w) (expected_chunks E d m)) (w_db w),
    w_ids := w_ids w + length (expected_chunks E d m)\<rparr>"
  using assms insert_chunks_Inr
  by (fastforce simp: expected_chunks_def err_simps add_chunks_def split: option.splits)

lemma insert_version_Inr:
  assumes "insert_version E t aid data media actor reason ctx parent w = (Inr vid, w')"
  shows "vid = ident E ''ver'' (w_ids w)"
    and "\<exists>a. find_artifact (w_db w) t aid = Some a \<and> parent = a_current a"
    and "w' = after_version E w t aid data media actor reason ctx parent"
    and "vid \<notin> v_id ` set (t_versions (w_db w))"
    and "has_version (w_db w) parent"
proof -
  obtain a where a: "find_artifact (w_db w) t aid = Some a"
    using assms by (cases "find_artifact (w_db w) t aid") (auto simp: insert_version_def err_simps)
  let ?vid = "ident E ''ver'' (w_ids w)"
  let ?v = "\<lparr>v_id = ident E ''ver'' (w_ids w), v_tenant = t, v_artifact = aid, v_parent = parent,
      v_blob = sha256_hex E data, v_media = media, v_size = length data, v_actor = actor,
      v_reason = reason, v_context = ctx, v_created = clock_iso E (w_now w)\<rparr>"
  let ?w1 = "w\<lparr>w_ids := Suc (w_ids w), w_now := Suc (w_now w)\<rparr>"
  let ?w2 = "?w1\<lparr>w_blobs := put_blob E data (w_blobs w),
    w_db := (w_db w)\<lparr>t_versions := t_versions (w_db w) @ [?v]\<rparr>\<rparr>"
  let ?cs = "expected_chunks E data media"
  let ?w3 = "?w2\<lparr>w_db := add_chunks (chunk_rows E t aid ?vid (Suc (w_ids w)) ?cs) (w_db ?w2),
    w_ids := Suc (w_ids w) + length ?cs\<rparr>"
  from assms a obtain u where
    p: "parent = a_current a" and
    c: "\<not> has_version (w_db w) (Some ?vid)" "has_version (w_db w) parent" and
    u: "(case text_for E data media of None \<Rightarrow> mret ()
        | Some text \<Rightarrow> mfor (chunk_list CHUNK_SIZE text) (insert_one_chunk E t aid ?vid)) ?w2
        = (Inr (), u)" and
    f: "set_current_version ?vid media aid t u = (Inr (), w')" and
    vid: "vid = ?vid"
    by (auto simp: insert_version_def err_simps store_blob_eq insert_version_row_def split: if_splits)
  from optional_chunks_Inr [OF u] have u3: "u = ?w3" by simp
  show "vid = ident E ''ver'' (w_ids w)" using vid by simp
  show "\<exists>a. find_artifact (w_db w) t aid = Some a \<and> parent = a_current a" using a p by blast
  show "vid \<notin> v_id ` set (t_versions (w_db w))" "has_version (w_db w) parent" using c vid by (auto simp: has_version_def)
  show "w' = after_version E w t aid data media actor reason ctx parent"
    using f u3
    by (auto simp: set_current_version_def err_simps after_version_def Let_def commit_version_def
        add_chunks_def new_version_def split: if_splits)
qed

section \<open>Unique keys\<close>

text \<open>The constraints of the schema keep the keys unique across every primitive.\<close>

definition keeps_keys :: "world \<Rightarrow> world \<Rightarrow> bool" where
  "keeps_keys w w' \<longleftrightarrow> (keys_ok (w_db w) \<longrightarrow> keys_ok (w_db w'))"

interpretation keys: world_relation keeps_keys
  by unfold_locales (simp_all add: keeps_keys_def)

lemma active_after_revoke:
  "filter (\<lambda>g. g_status g = ''active'') (map (\<lambda>g. if g_id g = gid \<and> g_status g = ''active''
      then g\<lparr>g_status := ''revoked'', g_revoked_by := x, g_revoked_at := y, g_revocation := z\<rparr>
      else g) gs)
   = filter (\<lambda>g. g_id g \<noteq> gid) (filter (\<lambda>g. g_status g = ''active'') gs)"
  by (induction gs) auto

lemma keys_current:
  "map a_id (map (\<lambda>a. if P a then a\<lparr>a_current := x, a_media := y\<rparr> else a) as) = map a_id as"
  by simp

lemma keys_revoke:
  "map g_id (map (\<lambda>g. if P g then g\<lparr>g_status := s, g_revoked_by := x, g_revoked_at := y,
      g_revocation := z\<rparr> else g) gs) = map g_id gs"
  by simp

lemma steps_keys:
  "steps_by keeps_keys (insert_or_ignore_tenant tr)" "steps_by keeps_keys (insert_artifact_row ar)"
  "steps_by keeps_keys (insert_version_row vr)" "steps_by keeps_keys (insert_chunk_row cr)"
  "steps_by keeps_keys (insert_fts_row fr)" "steps_by keeps_keys (insert_substring_row fr)"
  "steps_by keeps_keys (insert_edge_row er)" "steps_by keeps_keys (insert_grant_row gr)"
  "steps_by keeps_keys (set_current_version vid media aid t)"
  "steps_by keeps_keys (set_grant_revoked who now why gid)"
proof -
  have sub: "distinct (map grant_key (filter (\<lambda>g. g_id g \<noteq> gid) gs))"
    if "distinct (map grant_key gs)" for gs
    using that by (simp add: distinct_map inj_on_def)
  show "steps_by keeps_keys (set_grant_revoked who now why gid)"
    unfolding set_grant_revoked_def
    by (rule keys.steps_execute)
      (simp add: keeps_keys_def keys_ok_def active_grants_def active_after_revoke keys_revoke sub
        del: map_map filter_filter)
  show "steps_by keeps_keys (set_current_version vid media aid t)"
    unfolding set_current_version_def
    by (rule keys.steps_execute)
      (simp add: keeps_keys_def keys_ok_def active_grants_def keys_current del: map_map)
qed (auto simp: insert_defs keeps_keys_def keys_ok_def active_grants_def has_artifact_def
      has_version_def intro!: keys.steps_execute)

lemma keys_store_blob: "steps_by keeps_keys (store_blob E d h)"
  by (simp add: steps_by_def store_blob_def Let_def keeps_keys_def)

lemma keys_insert_version: "steps_by keeps_keys (insert_version E t a d m who why c p)"
  unfolding insert_version_def insert_one_chunk_def
  by (intro keys.world_intros steps_keys keys_store_blob)
    (auto intro!: keys.world_intros steps_keys split: prod.split)

section \<open>History is append-only\<close>

definition artifact_frozen :: "artifact_row \<Rightarrow> string \<times> string \<times> string \<times> string \<times> string" where
  "artifact_frozen a = (a_id a, a_tenant a, a_owner a, a_name a, a_created a)"

definition grant_frozen :: "grant_row \<Rightarrow> string \<times> (string \<times> string \<times> string \<times> string \<times> string)
    \<times> string \<times> string \<times> string" where
  "grant_frozen g = (g_id g, grant_key g, g_created_by g, g_created g, g_reason g)"

text \<open>Nothing written is ever altered or removed: versions, chunks and edges are only appended,
  artifacts and grants keep their identity, blobs stay, and a revoked grant stays revoked.\<close>

definition grows :: "world \<Rightarrow> world \<Rightarrow> bool" where
  "grows w w' \<longleftrightarrow>
     prefix (t_versions (w_db w)) (t_versions (w_db w')) \<and>
     prefix (t_chunks (w_db w)) (t_chunks (w_db w')) \<and>
     prefix (t_edges (w_db w)) (t_edges (w_db w')) \<and>
     prefix (map artifact_frozen (t_artifacts (w_db w))) (map artifact_frozen (t_artifacts (w_db w'))) \<and>
     prefix (map grant_frozen (t_grants (w_db w))) (map grant_frozen (t_grants (w_db w'))) \<and>
     {g \<in> set (t_grants (w_db w)). g_status g \<noteq> ''active''} \<subseteq> set (t_grants (w_db w')) \<and>
     w_blobs w \<subseteq>\<^sub>m w_blobs w'"

lemma grows_trans: "grows u v \<Longrightarrow> grows v w \<Longrightarrow> grows u w"
  unfolding grows_def by (auto intro: prefix_order.trans map_le_trans)

interpretation grows: world_relation grows
proof
  show "grows s u" if "grows s t" "grows t u" for s t u
    using grows_trans that .
qed (auto simp: grows_def)

lemma frozen_current:
  "map artifact_frozen (map (\<lambda>a. if P a then a\<lparr>a_current := x, a_media := y\<rparr> else a) as)
   = map artifact_frozen as"
  by (simp add: artifact_frozen_def)

lemma frozen_revoke:
  "map grant_frozen (map (\<lambda>g. if P g then g\<lparr>g_status := s, g_revoked_by := x, g_revoked_at := y,
      g_revocation := z\<rparr> else g) gs) = map grant_frozen gs"
  by (simp add: grant_frozen_def grant_key_def)

lemma steps_grows:
  "steps_by grows (insert_or_ignore_tenant tr)" "steps_by grows (insert_artifact_row ar)"
  "steps_by grows (insert_version_row vr)" "steps_by grows (insert_chunk_row cr)"
  "steps_by grows (insert_fts_row fr)" "steps_by grows (insert_substring_row fr)"
  "steps_by grows (insert_edge_row er)" "steps_by grows (insert_grant_row gr)"
  "steps_by grows (set_current_version vid media aid t)"
  "steps_by grows (set_grant_revoked who now why gid)"
proof -
  show "steps_by grows (set_grant_revoked who now why gid)"
    unfolding set_grant_revoked_def
    by (rule grows.steps_execute) (auto simp: grows_def frozen_revoke simp del: map_map)
  show "steps_by grows (set_current_version vid media aid t)"
    unfolding set_current_version_def
    by (rule grows.steps_execute) (auto simp: grows_def frozen_current simp del: map_map)
qed (auto simp: insert_defs grows_def intro!: grows.steps_execute)

lemma grows_store_blob: "steps_by grows (store_blob E d h)"
  by (auto simp: steps_by_def store_blob_def Let_def grows_def map_le_def dom_def)

lemma grows_insert_version: "steps_by grows (insert_version E t a d m who why c p)"
  unfolding insert_version_def insert_one_chunk_def
  by (intro grows.world_intros steps_grows grows_store_blob)
    (auto intro!: grows.world_intros steps_grows split: prod.split)

section \<open>A version write keeps the invariant\<close>

text \<open>While an artifact is being created its history is still empty; everything else holds.\<close>

definition half_ok :: "env \<Rightarrow> world \<Rightarrow> string \<Rightarrow> bool" where
  "half_ok E w aid \<longleftrightarrow> keys_ok (w_db w) \<and> refs_ok (w_db w)
     \<and> (\<forall>a \<in> set (t_artifacts (w_db w)). owned (w_db w) a \<and> chain (w_db w) a
          \<and> (a_id a \<noteq> aid \<longrightarrow> linear (w_db w) a))
     \<and> (\<forall>v \<in> set (t_versions (w_db w)). stored E w v) \<and> blobs_ok E w \<and> ids_ok E w"

lemma half_ok_graph: "graph_ok E w \<Longrightarrow> half_ok E w aid"
  by (auto simp: graph_ok_def half_ok_def linear_def)

lemma commit_simps [simp]:
  "t_tenants (commit_version v rows db) = t_tenants db"
  "t_versions (commit_version v rows db) = t_versions db @ [v]"
  "t_chunks (commit_version v rows db) = t_chunks db @ rows"
  "t_edges (commit_version v rows db) = t_edges db"
  "t_grants (commit_version v rows db) = t_grants db"
  "t_memberships (commit_version v rows db) = t_memberships db"
  "has_tenant (commit_version v rows db) = has_tenant db"
  by (simp_all add: commit_version_def add_chunks_def has_tenant_def [abs_def])

lemma commit_artifacts:
  "b \<in> set (t_artifacts (commit_version v rows db)) \<longleftrightarrow>
     (\<exists>a \<in> set (t_artifacts db). b = (if a_id a = v_artifact v \<and> a_tenant a = v_tenant v
        then a\<lparr>a_current := Some (v_id v), a_media := v_media v\<rparr> else a))"
  by (auto simp: commit_version_def add_chunks_def)

lemma artifact_in_commit [simp]:
  "artifact_in (commit_version v rows db) t aid \<longleftrightarrow> artifact_in db t aid"
proof -
  have "map (\<lambda>a. (a_id a, a_tenant a)) (t_artifacts (commit_version v rows db))
      = map (\<lambda>a. (a_id a, a_tenant a)) (t_artifacts db)"
    by (simp add: commit_version_def add_chunks_def)
  moreover have "artifact_in d t aid \<longleftrightarrow> (aid, t) \<in> set (map (\<lambda>a. (a_id a, a_tenant a)) (t_artifacts d))" for d
    by (auto simp: artifact_in_def)
  ultimately show ?thesis by metis
qed

lemma history_commit:
  "history (commit_version v rows db) aid = history db aid @ (if v_artifact v = aid then [v] else [])"
  by (simp add: history_def)

lemma chunk_rows_simps:
  "map chunk_data (chunk_rows E t a v n cs) = cs"
  "c \<in> set (chunk_rows E t a v n cs) \<Longrightarrow> c_tenant c = t \<and> c_artifact c = a \<and> c_version c = v
     \<and> (\<exists>k. n \<le> k \<and> k < n + length cs \<and> c_id c = ident E ''chk'' k)"
proof -
  show "map chunk_data (chunk_rows E t a v n cs) = cs"
    by (induction E t a v n cs rule: chunk_rows.induct) (auto simp: chunk_data_def)
  show "c \<in> set (chunk_rows E t a v n cs) \<Longrightarrow> c_tenant c = t \<and> c_artifact c = a \<and> c_version c = v
     \<and> (\<exists>k. n \<le> k \<and> k < n + length cs \<and> c_id c = ident E ''chk'' k)"
    by (induction E t a v n cs rule: chunk_rows.induct)
      (auto intro: less_or_eq_imp_le simp: Suc_le_eq)
qed

lemma refs_commit:
  assumes "refs_ok db" "artifact_in db (v_tenant v) (v_artifact v)"
    "\<And>c. c \<in> set rows \<Longrightarrow> c_tenant c = v_tenant v \<and> c_artifact c = v_artifact v \<and> c_version c = v_id v"
  shows "refs_ok (commit_version v rows db)"
proof -
  have "\<exists>a \<in> set (t_artifacts db). a_tenant b = a_tenant a"
    if "b \<in> set (t_artifacts (commit_version v rows db))" for b
    using that unfolding commit_artifacts by (elim bexE) (rule bexI, simp_all)
  then have "\<forall>a \<in> set (t_artifacts (commit_version v rows db)). has_tenant db (a_tenant a)"
    using assms(1) by (metis refs_ok_def)
  moreover have "\<forall>c \<in> set (t_chunks db) \<union> set rows.
      version_in (commit_version v rows db) (c_tenant c) (c_artifact c) (c_version c)"
    using assms(1,3) by (fastforce simp: refs_ok_def version_in_def)
  ultimately show ?thesis using assms(1,2) by (simp add: refs_ok_def)
qed

lemma owned_commit: "owned db a \<Longrightarrow> owned (commit_version v rows db) (a\<lparr>a_current := x, a_media := y\<rparr>)"
  "owned db a \<Longrightarrow> owned (commit_version v rows db) a"
  by (simp_all add: owned_def)

lemma linear_commit:
  assumes dist: "distinct (map a_id (t_artifacts db))"
    and a: "a \<in> set (t_artifacts db)" "a_id a = v_artifact v" "a_tenant a = v_tenant v"
    and ch: "chain db a" "v_parent v = a_current a"
    and others: "\<And>b. b \<in> set (t_artifacts db) \<Longrightarrow> a_id b \<noteq> a_id a \<Longrightarrow> linear db b"
    and b: "b \<in> set (t_artifacts (commit_version v rows db))"
  shows "linear (commit_version v rows db) b"
proof -
  from b obtain c where c: "c \<in> set (t_artifacts db)"
    "b = (if a_id c = v_artifact v \<and> a_tenant c = v_tenant v
        then c\<lparr>a_current := Some (v_id v), a_media := v_media v\<rparr> else c)"
    by (auto simp: commit_artifacts)
  show ?thesis
  proof (cases "a_id c = a_id a")
    case True
    with dist a(1) c(1) have "c = a" by (auto simp: distinct_map inj_on_def)
    with c(2) a ch show ?thesis by (auto simp: linear_def chain_def history_commit)
  next
    case False
    with c a(2) have "b = c" by simp
    with others [OF c(1) False] False a(2) show ?thesis
      by (auto simp: linear_def chain_def history_commit)
  qed
qed

lemma put_blob_le: "bs \<subseteq>\<^sub>m put_blob E d bs" and put_blob_has: "put_blob E d bs (sha256_hex E d) \<noteq> None"
  by (auto simp: put_blob_def map_le_def dom_def)

lemma chunks_of_fresh:
  assumes "refs_ok db" "vid \<notin> v_id ` set (t_versions db)"
  shows "version_chunks db vid = []"
proof -
  have "c_version c \<in> v_id ` set (t_versions db)" if "c \<in> set (t_chunks db)" for c
    using assms(1) that unfolding refs_ok_def version_in_def by (metis imageI)
  with assms(2) show ?thesis unfolding version_chunks_def filter_empty_conv by metis
qed

lemma version_chunks_commit:
  assumes "\<And>c. c \<in> set rows \<Longrightarrow> c_version c = v_id v"
  shows "version_chunks (commit_version v rows db) vid =
    version_chunks db vid @ (if vid = v_id v then rows else [])"
proof -
  have "filter (\<lambda>c. c_version c = vid) rows = (if vid = v_id v then rows else [])"
    using assms by (induction rows) auto
  then show ?thesis by (simp add: version_chunks_def)
qed

lemma stored_commit:
  assumes refs: "refs_ok (w_db w)" and fresh: "v_id v \<notin> v_id ` set (t_versions (w_db w))"
    and rows: "\<And>c. c \<in> set rows \<Longrightarrow> c_version c = v_id v"
    and v: "v_blob v = sha256_hex E data" "v_size v = length data"
      "map chunk_data rows = expected_chunks E data (v_media v)"
    and w': "w_db w' = commit_version v rows (w_db w)" "w_blobs w' = put_blob E data (w_blobs w)"
    and old: "\<And>u. u \<in> set (t_versions (w_db w)) \<Longrightarrow> stored E w u"
    and u: "u \<in> set (t_versions (w_db w'))"
  shows "stored E w' u"
proof (cases "u = v")
  case True
  have "version_chunks (w_db w') (v_id v) = rows"
    using chunks_of_fresh [OF refs fresh] version_chunks_commit [OF rows] w'(1) by simp
  then show ?thesis using True v w'(2) put_blob_has by (auto simp: stored_def)
next
  case False
  with u w'(1) have un: "u \<in> set (t_versions (w_db w))" by simp
  with fresh have "v_id u \<noteq> v_id v" by (metis imageI)
  with un show ?thesis
    using stored_mono [OF old] version_chunks_commit [OF rows] w' put_blob_le by simp
qed

lemma ids_commit:
  assumes "ids_ok E w" "w_db w' = commit_version v rows (w_db w)" "w_ids w \<le> w_ids w'"
    and "drawn E w' ''ver'' (v_id v)" "\<And>c. c \<in> set rows \<Longrightarrow> drawn E w' ''chk'' (c_id c)"
  shows "ids_ok E w'"
proof -
  have m: "drawn E w p i \<Longrightarrow> drawn E w' p i" for p i using drawn_mono assms(3) by blast
  have "drawn E w' ''art'' (a_id a)" if a: "a \<in> set (t_artifacts (w_db w'))" for a
  proof -
    from a assms(2) obtain b where "b \<in> set (t_artifacts (w_db w))" "a_id a = a_id b"
      by (auto simp: commit_artifacts)
    with assms(1) m show ?thesis by (auto simp: ids_ok_def)
  qed
  with assms m show ?thesis by (auto simp: ids_ok_def)
qed

lemma blobs_put: "blobs_ok E w \<Longrightarrow> w_blobs w' = put_blob E d (w_blobs w) \<Longrightarrow> blobs_ok E w'"
  unfolding blobs_ok_def put_blob_def by (auto split: if_splits)

lemma graph_ok_insert_version:
  assumes half: "half_ok E w aid"
    and run: "insert_version E t aid data media actor reason ctx parent w = (Inr vid, w')"
  shows "graph_ok E w'"
proof -
  note iv = insert_version_Inr [OF run]
  let ?v = "new_version E w t aid data media actor reason ctx parent"
  let ?rows = "chunk_rows E t aid vid (Suc (w_ids w)) (expected_chunks E data media)"
  have v: "v_id ?v = vid" "v_tenant ?v = t" "v_artifact ?v = aid" "v_parent ?v = parent"
    "v_blob ?v = sha256_hex E data" "v_media ?v = media" "v_size ?v = length data"
    using iv(1) by (simp_all add: new_version_def)
  have w': "w_db w' = commit_version ?v ?rows (w_db w)" "w_blobs w' = put_blob E data (w_blobs w)"
    "w_ids w' = Suc (w_ids w) + length (expected_chunks E data media)"
    unfolding iv(3) after_version_def Let_def v(1) by simp_all
  obtain a where a: "a \<in> set (t_artifacts (w_db w))" "a_id a = aid" "a_tenant a = t" "parent = a_current a"
    using iv(2) find_artifact_Some by blast
  have h: "keys_ok (w_db w)" "refs_ok (w_db w)" "blobs_ok E w" "ids_ok E w"
    "\<And>v. v \<in> set (t_versions (w_db w)) \<Longrightarrow> stored E w v"
    "\<And>b. b \<in> set (t_artifacts (w_db w)) \<Longrightarrow> owned (w_db w) b \<and> chain (w_db w) b
       \<and> (a_id b \<noteq> aid \<longrightarrow> linear (w_db w) b)"
    using half by (auto simp: half_ok_def)
  have rows: "c_tenant c = t \<and> c_artifact c = aid \<and> c_version c = vid \<and> drawn E w' ''chk'' (c_id c)"
    if "c \<in> set ?rows" for c
    using chunk_rows_simps(2) [OF that] w'(3) by (auto simp: drawn_def)
  have "keys_ok (w_db w')"
    using steps_byD [OF keys_insert_version run] h(1) by (simp add: keeps_keys_def)
  moreover have "refs_ok (w_db w')"
    unfolding w'(1) by (rule refs_commit [OF h(2)]) (use a rows v in \<open>auto simp: artifact_in_def\<close>)
  moreover have "linear (w_db w') b \<and> owned (w_db w') b" if b: "b \<in> set (t_artifacts (w_db w'))" for b
  proof
    show "linear (w_db w') b"
      unfolding w'(1)
    proof (rule linear_commit [of _ a])
      show "distinct (map a_id (t_artifacts (w_db w)))" using h(1) by (simp add: keys_ok_def)
    qed (use a v h(6) b w'(1) in auto)
    show "owned (w_db w') b"
      using b h(6) owned_commit unfolding w'(1) commit_artifacts by (auto split: if_splits)
  qed
  moreover have "stored E w' u" if "u \<in> set (t_versions (w_db w'))" for u
    by (rule stored_commit [of w ?v ?rows])
      (use h(2) iv(4) rows v chunk_rows_simps(1) w' h(5) that in auto)
  moreover have "blobs_ok E w'" using blobs_put [OF h(3) w'(2)] .
  moreover have "ids_ok E w'"
  proof (rule ids_commit [OF h(4) w'(1)])
    show "drawn E w' ''ver'' (v_id ?v)"
      unfolding drawn_def v(1) iv(1) w'(3) by (rule exI [of _ "w_ids w"]) simp
  qed (use rows w'(3) in auto)
  ultimately show ?thesis by (simp add: graph_ok_def)
qed

end
