(* ===== verification/Versions.thy ===== *)
theory Versions
  imports Integrity
begin

text \<open>
  What creating an artifact and writing a version guarantee, on top of the invariant of
  \<open>Integrity\<close>: both succeed exactly on valid, permitted and current input, a write appends one
  version to a linear history, a second write from the same parent is refused, what is written is
  read back, and the chunks partition the text.
\<close>

section \<open>Chunks partition the text\<close>

definition chunk_text :: "nat \<times> nat \<times> nat \<times> string \<Rightarrow> string" where
  "chunk_text x = snd (snd (snd x))"

lemma concat_slices:
  "concat (map (\<lambda>k. take (min (k * n + n) (length xs) - k * n) (drop (k * n) xs)) [0..<m])
   = take (m * n) xs"
proof (induction m)
  case (Suc m)
  have "take (min (m * n + n) (length xs) - m * n) (drop (m * n) xs) = take n (drop (m * n) xs)"
    by (cases "m * n \<le> length xs") (auto simp: min_def)
  with Suc take_add [of "m * n" n xs] show ?case by (simp add: add.commute)
qed simp

lemma chunk_count:
  fixes n m :: nat
  shows "0 < n \<Longrightarrow> m \<le> (m + n - 1) div n * n"
  using div_mult_mod_eq [of "m + n - 1" n] mod_less_divisor [of n "m + n - 1"] by linarith

lemma chunk_list_concat: "0 < n \<Longrightarrow> concat (map chunk_text (chunk_list n text)) = text"
  using concat_slices [of n "text" "(length text + n - 1) div n"] chunk_count [of n "length text"]
  by (simp add: chunk_list_def chunk_text_def Let_def comp_def)

lemma chunk_list_nth:
  assumes "k < length (chunk_list n text)"
  shows "chunk_list n text ! k = (k, k * n, min (k * n + n) (length text),
    take (min (k * n + n) (length text) - k * n) (drop (k * n) text))"
  using assms by (simp add: chunk_list_def Let_def)

lemma chunk_list_ordinals: "map fst (chunk_list n text) = [0..<length (chunk_list n text)]"
  by (rule nth_equalityI) (simp_all add: chunk_list_nth)

lemma distinct_ordinals: "distinct (map fst (chunk_list n text))"
  by (simp add: chunk_list_ordinals)

section \<open>Fresh identifiers: a valid insert never hits a constraint\<close>

definition env_ok :: "env \<Rightarrow> bool" where
  "env_ok E \<longleftrightarrow> inj (uuid_hex E)"

lemma ident_eq: "env_ok E \<Longrightarrow> ident E p m = ident E p n \<longleftrightarrow> m = n"
  by (auto simp: ident_def env_ok_def inj_def)

lemma not_drawn: "env_ok E \<Longrightarrow> w_ids w \<le> n \<Longrightarrow> \<not> drawn E w p (ident E p n)"
  by (auto simp: drawn_def ident_eq)

lemma insert_one_chunk_ok:
  assumes "ident E ''chk'' (w_ids w) \<notin> c_id ` set (t_chunks (w_db w))"
    and "has_tenant (w_db w) t" "has_artifact (w_db w) a" "has_version (w_db w) (Some v)"
    and "(v, fst x) \<notin> (\<lambda>c. (c_version c, c_ordinal c)) ` set (t_chunks (w_db w))"
  shows "insert_one_chunk E t a v x w =
    (Inr (), w\<lparr>w_db := add_chunks (chunk_rows E t a v (w_ids w) [x]) (w_db w), w_ids := Suc (w_ids w)\<rparr>)"
  using assms
  by (cases x) (simp add: insert_one_chunk_def mbind_def new_id_def insert_defs execute_def
      add_chunks_def fts_of_def)

lemma add_chunks_simps [simp]:
  "t_chunks (add_chunks rows db) = t_chunks db @ rows"
  "has_tenant (add_chunks rows db) = has_tenant db"
  "has_artifact (add_chunks rows db) = has_artifact db"
  "has_version (add_chunks rows db) = has_version db"
  by (simp_all add: add_chunks_def has_tenant_def [abs_def] has_artifact_def [abs_def]
      has_version_def [abs_def])

lemma insert_chunks_ok:
  assumes "env_ok E" "\<And>k. w_ids w \<le> k \<Longrightarrow> ident E ''chk'' k \<notin> c_id ` set (t_chunks (w_db w))"
    and "has_tenant (w_db w) t" "has_artifact (w_db w) a" "has_version (w_db w) (Some v)"
    and "distinct (map fst cs)"
    and "\<And>x. x \<in> set cs \<Longrightarrow> (v, fst x) \<notin> (\<lambda>c. (c_version c, c_ordinal c)) ` set (t_chunks (w_db w))"
  shows "\<exists>w'. mfor cs (insert_one_chunk E t a v) w = (Inr (), w')"
  using assms
proof (induction cs arbitrary: w)
  case Nil
  then show ?case by (simp add: mret_def)
next
  case (Cons x cs)
  let ?u = "w\<lparr>w_db := add_chunks (chunk_rows E t a v (w_ids w) [x]) (w_db w), w_ids := Suc (w_ids w)\<rparr>"
  have u: "insert_one_chunk E t a v x w = (Inr (), ?u)"
    by (rule insert_one_chunk_ok) (use Cons.prems in auto)
  obtain ord b e tx where x: "x = (ord, b, e, tx)" by (cases x)
  have "\<exists>w'. mfor cs (insert_one_chunk E t a v) ?u = (Inr (), w')"
  proof (rule Cons.IH [OF Cons.prems(1)])
    show "ident E ''chk'' k \<notin> c_id ` set (t_chunks (w_db ?u))" if "w_ids ?u \<le> k" for k
      using Cons.prems(1) Cons.prems(2) [of k] that by (auto simp: x ident_eq)
    show "(v, fst y) \<notin> (\<lambda>c. (c_version c, c_ordinal c)) ` set (t_chunks (w_db ?u))" if "y \<in> set cs" for y
      using Cons.prems(6,7) that by (auto simp: x)
  qed (use Cons.prems in auto)
  with u show ?case by (auto simp: mbind_def)
qed

lemma new_version_simps [simp]:
  "v_id (new_version E w t a d m who why c p) = ident E ''ver'' (w_ids w)"
  "v_tenant (new_version E w t a d m who why c p) = t"
  "v_artifact (new_version E w t a d m who why c p) = a"
  "v_parent (new_version E w t a d m who why c p) = p"
  "v_blob (new_version E w t a d m who why c p) = sha256_hex E d"
  "v_media (new_version E w t a d m who why c p) = m"
  "v_size (new_version E w t a d m who why c p) = length d"
  "v_actor (new_version E w t a d m who why c p) = who"
  "v_reason (new_version E w t a d m who why c p) = why"
  "v_context (new_version E w t a d m who why c p) = c"
  "v_created (new_version E w t a d m who why c p) = clock_iso E (w_now w)"
  by (simp_all add: new_version_def)

lemma insert_version_ok:
  assumes env: "env_ok E" and half: "half_ok E w aid"
    and a: "find_artifact (w_db w) t aid = Some a" "parent = a_current a"
    and has: "has_version (w_db w) parent"
  shows "\<exists>vid w'. insert_version E t aid data media actor reason ctx parent w = (Inr vid, w')"
proof -
  note found = find_artifact_Some [OF a(1)]
  have h: "refs_ok (w_db w)" "ids_ok E w" using half by (auto simp: half_ok_def)
  let ?vid = "ident E ''ver'' (w_ids w)"
  let ?v = "new_version E w t aid data media actor reason ctx parent"
  let ?w2 = "w\<lparr>w_ids := Suc (w_ids w), w_now := Suc (w_now w),
    w_blobs := put_blob E data (w_blobs w),
    w_db := (w_db w)\<lparr>t_versions := t_versions (w_db w) @ [?v]\<rparr>\<rparr>"
  have fresh: "?vid \<notin> v_id ` set (t_versions (w_db w))"
  proof
    assume "?vid \<in> v_id ` set (t_versions (w_db w))"
    then have "drawn E w ''ver'' ?vid" using h(2) by (auto simp: ids_ok_def)
    with not_drawn [OF env] show False by simp
  qed
  have t: "has_tenant (w_db w) t" "has_artifact (w_db w) aid"
    using found h(1) unfolding refs_ok_def has_artifact_def by (metis, metis imageI)
  have no_chunk: "c_version c \<noteq> ?vid" if "c \<in> set (t_chunks (w_db w))" for c
    using h(1) that fresh unfolding refs_ok_def version_in_def by (metis imageI)
  have loop: "\<exists>u. mfor cs (insert_one_chunk E t aid ?vid) ?w2 = (Inr (), u)"
    if "distinct (map fst cs)" for cs
  proof (rule insert_chunks_ok [OF env])
    show "ident E ''chk'' k \<notin> c_id ` set (t_chunks (w_db ?w2))" if "w_ids ?w2 \<le> k" for k
    proof
      assume "ident E ''chk'' k \<in> c_id ` set (t_chunks (w_db ?w2))"
      then have "drawn E w ''chk'' (ident E ''chk'' k)" using h(2) by (auto simp: ids_ok_def)
      with not_drawn [OF env, of w k "''chk''"] that show False by simp
    qed
    show "(?vid, fst x) \<notin> (\<lambda>c. (c_version c, c_ordinal c)) ` set (t_chunks (w_db ?w2))" for x :: "nat \<times> nat \<times> nat \<times> string"
      using no_chunk by (auto simp: image_iff dest: no_chunk)
  qed (use t that in \<open>auto simp: has_tenant_def has_artifact_def has_version_def new_version_def\<close>)
  obtain u where u: "(case text_for E data media of None \<Rightarrow> mret ()
      | Some text \<Rightarrow> mfor (chunk_list CHUNK_SIZE text) (insert_one_chunk E t aid ?vid)) ?w2 = (Inr (), u)"
    using loop [OF distinct_ordinals] by (cases "text_for E data media") (auto simp: mret_def)
  then have "w_db u = add_chunks (chunk_rows E t aid ?vid (w_ids ?w2) (expected_chunks E data media)) (w_db ?w2)"
    using optional_chunks_Inr [OF u] by simp
  then have "has_version (w_db u) (Some ?vid)"
    by (simp add: has_version_def add_chunks_def new_version_def)
  with u t a fresh has show ?thesis
    by (simp add: insert_version_def mbind_def new_id_def utc_now_def query_def mget_def mguard_def
        mret_def store_blob_eq insert_version_row_def execute_def has_version_def [of _ "Some _"]
        new_version_def [symmetric] set_current_version_def)
qed

section \<open>Operations keep the invariant\<close>

definition keeps_graph :: "env \<Rightarrow> world \<Rightarrow> world \<Rightarrow> bool" where
  "keeps_graph E w w' \<longleftrightarrow> (graph_ok E w \<longrightarrow> graph_ok E w')"

interpretation sound: action_relation "keeps_graph E" for E
  by unfold_locales (simp_all add: keeps_graph_def)

lemma sound_outer:
  assumes "steps_by (outer E) m" "\<And>w. w_db (snd (m w)) = w_db w"
  shows "steps_by (keeps_graph E) m"
  using assms graph_ok_outer unfolding steps_by_def keeps_graph_def by blast

lemma sound_new_id: "steps_by (keeps_graph E) (new_id E p)"
  by (rule sound_outer [OF outer.steps_new_id]) (simp add: new_id_def)

lemma sound_utc_now: "steps_by (keeps_graph E) (utc_now E)"
  by (rule sound_outer [OF outer.steps_utc_now]) (simp add: utc_now_def)

lemma sound_mread: "steps_by (keeps_graph E) (mread f)"
  by (simp add: steps_by_def mread_def sound.R_refl)

lemma sound_transact:
  assumes "steps_by (outer E) m" "\<And>w x u. graph_ok E w \<Longrightarrow> m w = (Inr x, u) \<Longrightarrow> graph_ok E u"
  shows "steps_by (keeps_graph E) (transact m)"
proof (rule steps_byI)
  fix w r w' assume run: "transact m w = (r, w')"
  show "keeps_graph E w w'"
    unfolding keeps_graph_def
  proof
    assume g: "graph_ok E w"
    show "graph_ok E w'"
    proof (cases r)
      case (Inl e)
      with run have "w_db w' = w_db w" by (auto simp: err_simps)
      with graph_ok_outer [OF g steps_byD [OF outer.steps_transact [OF assms(1)] run]]
      show ?thesis .
    next
      case (Inr x)
      with run have "m w = (Inr x, w')" by (simp add: err_simps)
      with assms(2) [OF g] show ?thesis .
    qed
  qed
qed

text \<open>The same through the success of a sequence, which is how the transactions are read.\<close>

lemma outer_insert_grant: "steps_by (outer E) (insert_owner_grants E t a who)"
  unfolding insert_owner_grants_def insert_grant_row_def
  by (intro outer.world_intros outer_execute)

lemma outer_ensure_tenant: "steps_by (outer E) (ensure_tenant E t)"
  unfolding ensure_tenant_def insert_or_ignore_tenant_def
  by (intro outer.world_intros outer_execute)

lemma sound_write_version:
  "steps_by (keeps_graph E) (write_version E t aid data media actor reason ctx parent auth)"
  unfolding write_version_def
proof (intro sound.steps_intros sound_mread sound_transact)
  show "graph_ok E u" if "graph_ok E w"
    "mbind (query_or_raise (\<lambda>db. authorize db t aid (request_actor actor auth) ''write''))
      (\<lambda>_. insert_version E t aid data media actor reason cj parent) w = (Inr x, u)" for cj w x u
    using that graph_ok_insert_version [OF half_ok_graph [OF that(1)]] by (auto simp: err_simps)
qed (intro outer.world_intros outer_insert_version)

definition born :: "env \<Rightarrow> world \<Rightarrow> string \<Rightarrow> string \<Rightarrow> string \<Rightarrow> string \<Rightarrow> string \<Rightarrow> world" where
  "born E w t aid who name media = (let n = w_now w; db = w_db w in
     w\<lparr>w_db := db\<lparr>
         t_tenants := (if has_tenant db t then t_tenants db
           else t_tenants db @ [\<lparr>tn_id = t, tn_created = clock_iso E n\<rparr>]),
         t_artifacts := t_artifacts db @ [\<lparr>a_id = aid, a_tenant = t, a_owner = who, a_name = name,
           a_media = media, a_current = None, a_created = clock_iso E (Suc n)\<rparr>],
         t_grants := t_grants db @ [owner_grant t aid who ''read'' (clock_iso E (n + 2)),
           owner_grant t aid who ''write'' (clock_iso E (n + 3)),
           owner_grant t aid who ''share'' (clock_iso E (n + 4))]\<rparr>,
       w_now := n + 5\<rparr>)"

definition birth :: "env \<Rightarrow> string \<Rightarrow> string \<Rightarrow> string \<Rightarrow> string \<Rightarrow> string \<Rightarrow> (world, unit) action" where
  "birth E tenant aid actor name media =
     mbind (ensure_tenant E tenant) (\<lambda>_.
     mbind (utc_now E) (\<lambda>now.
     mbind (insert_artifact_row \<lparr>a_id = aid, a_tenant = tenant, a_owner = actor, a_name = name,
              a_media = media, a_current = None, a_created = now\<rparr>) (\<lambda>_.
     insert_owner_grants E tenant aid actor)))"

lemma ensure_tenant_Inr:
  "ensure_tenant E t w = (Inr (), w') \<longleftrightarrow> strip t \<noteq> [] \<and> length t \<le> MAX_NAME_LENGTH \<and>
   w' = w\<lparr>w_db := (w_db w)\<lparr>t_tenants := (if has_tenant (w_db w) t then t_tenants (w_db w)
       else t_tenants (w_db w) @ [\<lparr>tn_id = t, tn_created = clock_iso E (w_now w)\<rparr>])\<rparr>,
     w_now := Suc (w_now w)\<rparr>"
  by (auto simp: ensure_tenant_def err_simps insert_or_ignore_tenant_def)

lemma insert_grant_Inr:
  "insert_grant_row g w = (Inr (), w') \<Longrightarrow> w' = w\<lparr>w_db := (w_db w)\<lparr>t_grants := t_grants (w_db w) @ [g]\<rparr>\<rparr>"
  by (simp add: insert_grant_row_def execute_iff split: if_splits)

lemma insert_owner_grants_Inr:
  assumes "insert_owner_grants E t aid who w = (Inr (), w')"
  shows "w' = w\<lparr>w_db := (w_db w)\<lparr>t_grants := t_grants (w_db w) @
       [owner_grant t aid who ''read'' (clock_iso E (w_now w)),
        owner_grant t aid who ''write'' (clock_iso E (w_now w + 1)),
        owner_grant t aid who ''share'' (clock_iso E (w_now w + 2))]\<rparr>,
     w_now := w_now w + 3\<rparr>"
proof -
  let ?g = "\<lambda>act n. owner_grant t aid who act (clock_iso E n)"
  from assms obtain u1 u2 where
    "insert_grant_row (?g ''read'' (w_now w)) (w\<lparr>w_now := Suc (w_now w)\<rparr>) = (Inr (), u1)"
    "insert_grant_row (?g ''write'' (w_now u1)) (u1\<lparr>w_now := Suc (w_now u1)\<rparr>) = (Inr (), u2)"
    "insert_grant_row (?g ''share'' (w_now u2)) (u2\<lparr>w_now := Suc (w_now u2)\<rparr>) = (Inr (), w')"
    by (auto simp: insert_owner_grants_def ACL_ACTIONS_def err_simps)
  from this [THEN insert_grant_Inr] show ?thesis by simp
qed

lemma birth_Inr:
  assumes "birth E t aid who name media w = (Inr (), w')"
  shows "w' = born E w t aid who name media"
    and "aid \<notin> a_id ` set (t_artifacts (w_db w))" and "has_tenant (w_db w') t"
proof -
  let ?a = "\<lambda>now. \<lparr>a_id = aid, a_tenant = t, a_owner = who, a_name = name,
     a_media = media, a_current = None, a_created = now\<rparr>"
  from assms obtain u1 u2 where
    e: "ensure_tenant E t w = (Inr (), u1)" and
    a: "insert_artifact_row (?a (clock_iso E (w_now u1))) (u1\<lparr>w_now := Suc (w_now u1)\<rparr>) = (Inr (), u2)" and
    g: "insert_owner_grants E t aid who u2 = (Inr (), w')"
    by (auto simp: birth_def err_simps)
  from a have a': "u2 = u1\<lparr>w_now := Suc (w_now u1), w_db := (w_db u1)\<lparr>t_artifacts :=
      t_artifacts (w_db u1) @ [?a (clock_iso E (w_now u1))]\<rparr>\<rparr>"
    "aid \<notin> a_id ` set (t_artifacts (w_db u1))" "has_tenant (w_db u1) t"
    by (auto simp: insert_artifact_row_def execute_iff has_artifact_def split: if_splits)
  from e have e': "u1 = w\<lparr>w_db := (w_db w)\<lparr>t_tenants := (if has_tenant (w_db w) t then t_tenants (w_db w)
       else t_tenants (w_db w) @ [\<lparr>tn_id = t, tn_created = clock_iso E (w_now w)\<rparr>])\<rparr>,
     w_now := Suc (w_now w)\<rparr>"
    by (simp only: ensure_tenant_Inr)
  show "w' = born E w t aid who name media"
    unfolding insert_owner_grants_Inr [OF g] a'(1) e' born_def Let_def
    by (simp add: eval_nat_numeral)
  show "aid \<notin> a_id ` set (t_artifacts (w_db w))" using a'(2) e' by simp
  show "has_tenant (w_db w') t"
    using a'(3) unfolding insert_owner_grants_Inr [OF g] a'(1) by (simp add: has_tenant_def)
qed

lemma refs_born:
  assumes "refs_ok (w_db w)" "has_tenant (w_db (born E w t aid who name media)) t"
  shows "refs_ok (w_db (born E w t aid who name media))"
proof -
  let ?d = "w_db (born E w t aid who name media)"
  have t: "has_tenant (w_db w) x \<Longrightarrow> has_tenant ?d x" for x
    by (auto simp: born_def Let_def has_tenant_def)
  have a: "artifact_in (w_db w) x y \<Longrightarrow> artifact_in ?d x y" for x y
    by (auto simp: born_def Let_def artifact_in_def)
  have v: "version_in (w_db w) x y z \<Longrightarrow> version_in ?d x y z" for x y z
    by (auto simp: born_def Let_def version_in_def)
  have "artifact_in ?d t aid" by (auto simp: born_def Let_def artifact_in_def)
  with assms t a v show ?thesis
    by (auto simp: refs_ok_def born_def Let_def owner_grant_def)
qed

lemma half_ok_born:
  assumes g: "graph_ok E w" and d: "drawn E w ''art'' aid"
    and b: "birth E t aid who name media w = (Inr (), w')"
  shows "half_ok E w' aid"
proof -
  note bi = birth_Inr [OF b]
  have w': "w_blobs w' = w_blobs w" "w_ids w' = w_ids w"
    "t_versions (w_db w') = t_versions (w_db w)" "t_chunks (w_db w') = t_chunks (w_db w)"
    "t_edges (w_db w') = t_edges (w_db w)"
    using bi(1) by (simp_all add: born_def Let_def)
  have h: "refs_ok (w_db w)" "ids_ok E w" using g by (simp_all add: graph_ok_def)
  have hist: "history (w_db w') = history (w_db w)" by (simp add: history_def [abs_def] w')
  have none: "history (w_db w) aid = []"
  proof -
    have "v_artifact v \<in> a_id ` set (t_artifacts (w_db w))" if "v \<in> set (t_versions (w_db w))" for v
      using h(1) that unfolding refs_ok_def artifact_in_def by (metis imageI)
    with bi(2) show ?thesis unfolding history_def filter_empty_conv by metis
  qed
  have own: "owned (w_db w) a \<Longrightarrow> owned (w_db w') a" for a
    using bi(1) by (auto simp: owned_def born_def Let_def)
  have "steps_by keeps_keys (birth E t aid who name media)"
    unfolding birth_def ensure_tenant_def insert_owner_grants_def
    by (intro keys.world_intros steps_keys)
  then have "keys_ok (w_db w')" using steps_byD b g by (fastforce simp: keeps_keys_def graph_ok_def)
  moreover have "refs_ok (w_db w')"
    using refs_born [OF h(1)] bi by simp
  moreover have "owned (w_db w') a \<and> chain (w_db w') a \<and> (a_id a \<noteq> aid \<longrightarrow> linear (w_db w') a)"
    if a: "a \<in> set (t_artifacts (w_db w'))" for a
  proof (cases "a \<in> set (t_artifacts (w_db w))")
    case True
    with g own show ?thesis by (simp add: graph_ok_def linear_def chain_def hist)
  next
    case False
    with a bi(1) have "a = \<lparr>a_id = aid, a_tenant = t, a_owner = who, a_name = name,
        a_media = media, a_current = None, a_created = clock_iso E (Suc (w_now w))\<rparr>"
      by (simp add: born_def Let_def)
    moreover have "\<exists>x y z. {owner_grant t aid who ''read'' x, owner_grant t aid who ''write'' y,
        owner_grant t aid who ''share'' z} \<subseteq> set (t_grants (w_db w'))"
      using bi(1) by (auto simp: born_def Let_def)
    ultimately show ?thesis
      using none by (auto simp: owned_def chain_def hist ACL_ACTIONS_def)
  qed
  moreover have "stored E w' v" if "v \<in> set (t_versions (w_db w'))" for v
    by (rule stored_mono [of E w]) (use g that w' in \<open>auto simp: graph_ok_def version_chunks_def\<close>)
  moreover have "blobs_ok E w'" using g by (simp add: graph_ok_def blobs_ok_def w')
  moreover have "ids_ok E w'"
  proof -
    have "drawn E w' p i = drawn E w p i" for p i by (simp add: drawn_def w')
    with h(2) d bi(1) show ?thesis
      by (auto simp: ids_ok_def w' born_def Let_def owner_grant_def)
  qed
  ultimately show ?thesis by (simp add: half_ok_def)
qed

lemma owner_grant_id_inj:
  assumes "owner_grant_id a x = owner_grant_id b y" "x \<in> set ACL_ACTIONS" "y \<in> set ACL_ACTIONS"
  shows "a = b \<and> x = y"
  using assms arg_cong [OF assms(1), of last]
  by (auto simp: owner_grant_id_def ACL_ACTIONS_def)

lemma owner_not_drawn: "\<not> drawn E w ''grt'' (owner_grant_id a x)"
  by (auto simp: drawn_def ident_def owner_grant_id_def)

lemma insert_grant_ok:
  assumes "g_id g \<notin> g_id ` set (t_grants (w_db w))" "has_tenant (w_db w) (g_tenant g)"
    "has_artifact (w_db w) (g_artifact g)" "g_subject_type g = ''actor''" "g_action g \<in> set ACL_ACTIONS"
    "g_status g = ''active''" "grant_key g \<notin> grant_key ` set (active_grants (w_db w))"
  shows "insert_grant_row g w = (Inr (), w\<lparr>w_db := (w_db w)\<lparr>t_grants := t_grants (w_db w) @ [g]\<rparr>\<rparr>)"
  using assms by (simp add: insert_grant_row_def execute_def ACL_ACTIONS_def)

lemma owner_grants_loop:
  assumes "distinct acts" "set acts \<subseteq> set ACL_ACTIONS"
    and "\<And>act. act \<in> set acts \<Longrightarrow> owner_grant_id aid act \<notin> g_id ` set (t_grants (w_db w))"
    and "\<And>g. g \<in> set (t_grants (w_db w)) \<Longrightarrow> g_artifact g = aid \<Longrightarrow> g_action g \<notin> set acts"
    and "has_tenant (w_db w) t" "has_artifact (w_db w) aid"
  shows "\<exists>w'. mfor acts (\<lambda>act. mbind (utc_now E) (\<lambda>now.
    insert_grant_row (owner_grant t aid who act now))) w = (Inr (), w')"
  using assms
proof (induction acts arbitrary: w)
  case (Cons x acts)
  let ?g = "owner_grant t aid who x (clock_iso E (w_now w))"
  let ?u = "w\<lparr>w_now := Suc (w_now w), w_db := (w_db w)\<lparr>t_grants := t_grants (w_db w) @ [?g]\<rparr>\<rparr>"
  have "insert_grant_row ?g (w\<lparr>w_now := Suc (w_now w)\<rparr>) = (Inr (), ?u)"
    using Cons.prems by (subst insert_grant_ok)
      (auto simp: owner_grant_def ACL_SUBJECT_TYPE_def active_grants_def grant_key_def)
  moreover have "\<exists>w'. mfor acts (\<lambda>act. mbind (utc_now E) (\<lambda>now.
    insert_grant_row (owner_grant t aid who act now))) ?u = (Inr (), w')"
    using Cons.prems by (intro Cons.IH)
      (auto simp: owner_grant_def owner_grant_id_def has_tenant_def has_artifact_def)
  ultimately show ?case by (auto simp: mbind_def utc_now_def)
qed (simp add: mret_def)

lemma insert_owner_grants_ok:
  assumes "\<And>act. act \<in> set ACL_ACTIONS \<Longrightarrow> owner_grant_id aid act \<notin> g_id ` set (t_grants (w_db w))"
    and "\<And>g. g \<in> set (t_grants (w_db w)) \<Longrightarrow> g_artifact g \<noteq> aid"
    and "has_tenant (w_db w) t" "has_artifact (w_db w) aid"
  shows "\<exists>w'. insert_owner_grants E t aid who w = (Inr (), w')"
  unfolding insert_owner_grants_def
  by (rule owner_grants_loop) (use assms in \<open>auto simp: ACL_ACTIONS_def\<close>)

lemma birth_ok:
  assumes env: "env_ok E" and g: "graph_ok E w"
    and aid: "aid \<notin> a_id ` set (t_artifacts (w_db w))" and t: "strip t \<noteq> []" "length t \<le> MAX_NAME_LENGTH"
  shows "\<exists>w'. birth E t aid who name media w = (Inr (), w')"
proof -
  let ?n = "w_now w" and ?db = "w_db w"
  define ts where "ts = (if has_tenant ?db t then t_tenants ?db
       else t_tenants ?db @ [\<lparr>tn_id = t, tn_created = clock_iso E ?n\<rparr>])"
  have ts: "t \<in> tn_id ` set ts" by (auto simp: ts_def has_tenant_def)
  let ?u = "w\<lparr>w_now := Suc (Suc ?n), w_db := ?db\<lparr>t_tenants := ts,
     t_artifacts := t_artifacts ?db @ [\<lparr>a_id = aid, a_tenant = t, a_owner = who, a_name = name,
        a_media = media, a_current = None, a_created = clock_iso E (Suc ?n)\<rparr>]\<rparr>\<rparr>"
  have h: "refs_ok ?db" "ids_ok E w" using g by (simp_all add: graph_ok_def)
  have art: "g_artifact x \<noteq> aid" if "x \<in> set (t_grants ?db)" for x
    using h(1) that aid unfolding refs_ok_def artifact_in_def by (metis imageI)
  have "owner_grant_id aid act \<notin> g_id ` set (t_grants ?db)" if "act \<in> set ACL_ACTIONS" for act
  proof
    assume "owner_grant_id aid act \<in> g_id ` set (t_grants ?db)"
    then obtain x where x: "x \<in> set (t_grants ?db)" "g_id x = owner_grant_id aid act" by auto
    with h(2) owner_not_drawn obtain act' where "act' \<in> set ACL_ACTIONS"
      "owner_grant_id aid act = owner_grant_id (g_artifact x) act'"
      unfolding ids_ok_def by metis
    with owner_grant_id_inj that art [OF x(1)] show False by metis
  qed
  then have "\<exists>w'. insert_owner_grants E t aid who ?u = (Inr (), w')"
    using art ts by (intro insert_owner_grants_ok) (auto simp: has_tenant_def has_artifact_def)
  moreover have "ensure_tenant E t w = (Inr (), w\<lparr>w_db := ?db\<lparr>t_tenants := ts\<rparr>, w_now := Suc ?n\<rparr>)"
    using t by (simp add: ensure_tenant_Inr ts_def)
  ultimately show ?thesis
    using aid ts by (simp add: birth_def mbind_def utc_now_def insert_artifact_row_def execute_def
        has_artifact_def has_version_def has_tenant_def)
qed

lemma create_artifact_alt:
  "create_artifact E tenant name data media_type actor reason ctx =
     mbind (new_id E ''art'') (\<lambda>aid.
     mbind (mlift (validate_text ''name'' name MAX_NAME_LENGTH)) (\<lambda>_.
     mbind (mlift (validate_version_input E data (resolve_media E media_type name) actor reason
       (or_empty ctx))) (\<lambda>ctx_json.
     mbind (transact (mbind (birth E tenant aid actor name (resolve_media E media_type name)) (\<lambda>_.
       insert_version E tenant aid data (resolve_media E media_type name) actor reason ctx_json None)))
     (\<lambda>vid.
     mbind (mread (\<lambda>w. get_artifact w tenant aid (Some actor) ''read'')) (\<lambda>a.
     mbind (mread (\<lambda>w. version_metadata w tenant (Some vid) (Some actor) ''read'' None)) (\<lambda>v.
     mret (a, v)))))))"
  by (simp add: create_artifact_def birth_def Let_def mbind_assoc)

lemma graph_ok_creation:
  assumes g: "graph_ok E w" and d: "drawn E w ''art'' aid"
    and run: "transact (mbind (birth E t aid who name media) (\<lambda>_.
       insert_version E t aid data media who why ctx None)) w = (r, w')"
  shows "graph_ok E w'"
proof (cases r)
  case (Inl e)
  have "steps_by (outer E) (transact (mbind (birth E t aid who name media) (\<lambda>_.
       insert_version E t aid data media who why ctx None)))"
    unfolding birth_def insert_artifact_row_def
    by (intro outer.world_intros outer_insert_version outer_ensure_tenant outer_insert_grant outer_execute)
  from steps_byD [OF this run] have "outer E w w'" .
  moreover have "w_db w' = w_db w" using run Inl by (auto simp: err_simps)
  ultimately show ?thesis using graph_ok_outer [OF g] by blast
next
  case (Inr vid)
  with run obtain u where "birth E t aid who name media w = (Inr (), u)"
    "insert_version E t aid data media who why ctx None u = (Inr vid, w')"
    by (auto simp: err_simps)
  with graph_ok_insert_version [OF half_ok_born [OF g d]] show ?thesis by blast
qed

lemma sound_create_artifact:
  "steps_by (keeps_graph E) (create_artifact E t name data media who why ctx)"
proof (rule steps_byI)
  fix w r w' assume run: "create_artifact E t name data media who why ctx w = (r, w')"
  let ?w1 = "w\<lparr>w_ids := Suc (w_ids w)\<rparr>" and ?aid = "ident E ''art'' (w_ids w)"
  show "keeps_graph E w w'"
    unfolding keeps_graph_def
  proof
    assume g: "graph_ok E w"
    have g1: "graph_ok E ?w1"
      using steps_byD [OF sound_new_id, of E "''art''" w] g by (simp add: new_id_def keeps_graph_def)
    have d: "drawn E ?w1 ''art'' ?aid" by (auto simp: drawn_def)
    have "w' = ?w1 \<or> (\<exists>cj q. transact (mbind (birth E t ?aid who name (resolve_media E media name)) (\<lambda>_.
       insert_version E t ?aid data (resolve_media E media name) who why cj None)) ?w1 = (q, w'))"
      using run unfolding create_artifact_alt
      by (cases r) (fastforce simp: mbind_Inr_iff mbind_Inl_iff new_id_iff mlift_iff mread_iff mret_iff)+
    with g1 graph_ok_creation [OF g1 d] show "graph_ok E w'" by blast
  qed
qed

section \<open>What a write returns\<close>

lemma find_unique:
  assumes "distinct (map f xs)" "x \<in> set xs" "P x" "\<And>y. P y \<Longrightarrow> f y = f x"
  shows "List.find P xs = Some x"
proof (cases "List.find P xs")
  case None
  with assms(2,3) show ?thesis by (simp add: find_None_iff)
next
  case (Some y)
  then have "y \<in> set xs" "P y" by (auto simp: find_Some_iff)
  with assms(1,2) assms(4) [OF \<open>P y\<close>] have "y = x" by (auto simp: distinct_map inj_on_def)
  with Some show ?thesis by simp
qed

lemma json_text_loads:
  "json_text v field = Inr s \<Longrightarrow> wf_json v \<Longrightarrow> loads s = Some (jsort v)"
  using loads_dumps_sorted [of v]
  by (auto simp: json_text_def dumps_sorted_strict_def dumps_sorted_def split: option.splits if_splits)

lemma validated_context:
  "validate_version_input E d m who why ctx = Inr cj \<Longrightarrow> json_text ctx ''source_context'' = Inr cj"
  by (auto simp: validate_version_input_def err_simps split: if_splits)

lemma current_exists:
  assumes "graph_ok E w" "a \<in> set (t_artifacts (w_db w))"
  obtains v where "v \<in> set (t_versions (w_db w))" "v_artifact v = a_id a" "a_current a = Some (v_id v)"
    "a_media a = v_media v"
proof -
  let ?vs = "history (w_db w) (a_id a)"
  have "linear (w_db w) a" using assms by (simp add: graph_ok_def)
  then have ne: "?vs \<noteq> []" and c: "map v_parent ?vs @ [a_current a] = None # map (\<lambda>v. Some (v_id v)) ?vs"
    and m: "a_media a = v_media (last ?vs)"
    by (simp_all add: linear_def chain_def)
  from arg_cong [OF c, of last] ne have "a_current a = Some (v_id (last ?vs))"
    by (simp add: last_map)
  moreover have "last ?vs \<in> set ?vs" using ne by simp
  ultimately show thesis using that m by (auto simp: history_def)
qed

lemma find_artifact_after:
  assumes "distinct (map a_id (t_artifacts db))" "find_artifact db t aid = Some a"
    "v_artifact v = aid" "v_tenant v = t"
  shows "find_artifact (commit_version v rows db) t aid
    = Some (a\<lparr>a_current := Some (v_id v), a_media := v_media v\<rparr>)"
proof -
  have "map a_id (t_artifacts (commit_version v rows db)) = map a_id (t_artifacts db)"
    by (simp add: commit_version_def add_chunks_def)
  with assms find_artifact_Some [OF assms(2)] show ?thesis
    by (subst find_artifact_iff) (auto simp: commit_artifacts intro!: bexI [of _ a])
qed

definition shown_version :: "version_row \<Rightarrow> json \<Rightarrow> version_view" where
  "shown_version v ctx = \<lparr>vv_id = v_id v, vv_artifact = v_artifact v, vv_parent = v_parent v,
     vv_blob = v_blob v, vv_media = v_media v, vv_size = v_size v, vv_actor = v_actor v,
     vv_reason = v_reason v, vv_context = ctx, vv_created = v_created v\<rparr>"

lemma find_version_after:
  assumes "keys_ok (w_db w')" "w' = after_version E w t aid data media who why cj parent"
    and "sel = None \<or> sel = Some aid"
  shows "find_version (w_db w') t (Some (ident E ''ver'' (w_ids w))) sel
    = Some (new_version E w t aid data media who why cj parent)"
  unfolding find_version_def
  by (rule find_unique [where f = v_id])
    (use assms in \<open>auto simp: keys_ok_def after_version_def Let_def\<close>)

lemma metadata_after:
  assumes keys: "keys_ok (w_db w')" and w': "w' = after_version E w t aid data media who why cj parent"
    and found: "find_artifact (w_db w') t aid = Some a" and perm: "permits (w_db w') actor act a"
    and ok: "act \<in> set ACL_ACTIONS" "actor_ok actor" and cj: "loads cj = Some ctx"
    and sel: "sel = None \<or> sel = Some aid"
  shows "version_metadata w' t (Some (ident E ''ver'' (w_ids w))) actor act sel
    = Inr (shown_version (new_version E w t aid data media who why cj parent) ctx)"
proof -
  let ?v = "new_version E w t aid data media who why cj parent"
  have "find_version (w_db w') t (Some (ident E ''ver'' (w_ids w))) sel = Some ?v"
    using find_version_after [OF keys w' sel] .
  moreover have "authorize (w_db w') t aid actor act = Inr ()"
    using found perm ok by (simp add: err_simps)
  ultimately show ?thesis
    using cj by (simp add: version_metadata_def rename_not_found_def view_version_def shown_version_def)
qed

lemma write_version_result:
  assumes env: "env_ok E" and g: "graph_ok E w" and wf: "wf_json ctx"
    and valid: "validate_version_input E data media who why ctx = Inr cj"
    and found: "find_artifact (w_db w) t aid = Some a"
    and perm: "actor_ok (request_actor who auth)" "permits (w_db w) (request_actor who auth) ''write'' a"
    and parent: "parent = a_current a"
  shows "write_version E t aid data media who why ctx parent auth w =
    (Inr (shown_version (new_version E w t aid data media who why cj parent) (jsort ctx)),
     after_version E w t aid data media who why cj parent)"
proof -
  let ?w' = "after_version E w t aid data media who why cj parent"
  have auth: "authorize (w_db w) t aid (request_actor who auth) ''write'' = Inr ()"
    using found perm by (simp add: err_simps)
  have a: "a \<in> set (t_artifacts (w_db w))" using find_artifact_Some [OF found] by simp
  have "has_version (w_db w) parent"
    using current_exists [OF g a] parent by (metis has_version_def imageI option.simps(5))
  from insert_version_ok [OF env half_ok_graph [OF g] found parent this] obtain vid w' where
    iv: "insert_version E t aid data media who why cj parent w = (Inr vid, w')" by blast
  note run = insert_version_Inr [OF iv]
  have g': "graph_ok E ?w'"
    using graph_ok_insert_version [OF half_ok_graph [OF g] iv] run(3) by simp
  have found': "find_artifact (w_db ?w') t aid = Some (a\<lparr>a_current :=
      Some (ident E ''ver'' (w_ids w)), a_media := media\<rparr>)"
    unfolding after_version_def Let_def
    using find_artifact_after [OF _ found] g by (simp add: graph_ok_def keys_ok_def)
  have perm': "permits (w_db ?w') (request_actor who auth) ''write''
      (a\<lparr>a_current := Some (ident E ''ver'' (w_ids w)), a_media := media\<rparr>)"
    using perm(2) by (simp add: permits_def has_grant_def after_version_def Let_def split: option.splits)
  have "version_metadata ?w' t (Some (ident E ''ver'' (w_ids w))) (request_actor who auth) ''write'' None
      = Inr (shown_version (new_version E w t aid data media who why cj parent) (jsort ctx))"
    by (rule metadata_after [OF _ refl found' perm'])
      (use g' perm json_text_loads [OF validated_context [OF valid] wf] in \<open>auto simp: graph_ok_def\<close>)
  with auth valid iv run(1,3) show ?thesis
    by (simp add: write_version_def mbind_def mlift_def transact_def query_or_raise_def mread_def)
qed

lemma validated_actor: "validate_version_input E d m who why ctx = Inr cj \<Longrightarrow> actor_ok (Some who)"
  by (auto simp: validate_version_input_def err_simps actor_ok_def MAX_NAME_LENGTH_def split: if_splits)

lemma create_artifact_result:
  assumes env: "env_ok E" and g: "graph_ok E w" and wf: "wf_json (or_empty ctx)"
    and name: "validate_text ''name'' name MAX_NAME_LENGTH = Inr nm"
    and t: "strip t \<noteq> []" "length t \<le> MAX_NAME_LENGTH"
    and valid: "validate_version_input E data (resolve_media E mt name) who why (or_empty ctx) = Inr cj"
  shows "\<exists>a v w'. create_artifact E t name data mt who why ctx w = (Inr (a, v), w') \<and> graph_ok E w'
    \<and> av_tenant a = t \<and> av_name a = name \<and> av_current a = Some (vv_id v) \<and> vv_artifact v = av_id a
    \<and> vv_parent v = None \<and> vv_blob v = sha256_hex E data \<and> vv_context v = jsort (or_empty ctx)
    \<and> w_ids w' = w_ids w + 2 + length (expected_chunks E data (resolve_media E mt name))
    \<and> (\<exists>row. find_artifact (w_db w') t (av_id a) = Some row \<and> a_owner row = who
         \<and> a_current row = Some (vv_id v))"
proof -
  let ?aid = "ident E ''art'' (w_ids w)" and ?media = "resolve_media E mt name"
  let ?w1 = "w\<lparr>w_ids := Suc (w_ids w)\<rparr>"
  have g1: "graph_ok E ?w1"
    using steps_byD [OF sound_new_id, of E "''art''" w] g by (simp add: new_id_def keeps_graph_def)
  have d: "drawn E ?w1 ''art'' ?aid" by (auto simp: drawn_def)
  have "?aid \<notin> a_id ` set (t_artifacts (w_db w))"
  proof
    assume "?aid \<in> a_id ` set (t_artifacts (w_db w))"
    then have "drawn E w ''art'' ?aid" using g by (auto simp: graph_ok_def ids_ok_def)
    with not_drawn [OF env] show False by simp
  qed
  then obtain u where u: "birth E t ?aid who name ?media ?w1 = (Inr (), u)"
    using birth_ok [OF env g1 _ t] by fastforce
  have half: "half_ok E u ?aid" using half_ok_born [OF g1 d u] .
  then have keys: "distinct (map a_id (t_artifacts (w_db u)))" by (simp add: half_ok_def keys_ok_def)
  obtain row where row: "row \<in> set (t_artifacts (w_db u))" "a_id row = ?aid" "a_tenant row = t"
    "a_owner row = who" "a_name row = name" "a_current row = None"
  proof
    show "\<lparr>a_id = ?aid, a_tenant = t, a_owner = who, a_name = name, a_media = ?media,
        a_current = None, a_created = clock_iso E (Suc (w_now ?w1))\<rparr> \<in> set (t_artifacts (w_db u))"
      unfolding birth_Inr(1) [OF u] born_def Let_def by simp
  qed simp_all
  then have found: "find_artifact (w_db u) t ?aid = Some row" using keys by (simp add: find_artifact_iff)
  obtain vid w' where iv: "insert_version E t ?aid data ?media who why cj None u = (Inr vid, w')"
    using insert_version_ok [OF env half found] row(6) by (metis has_version_def option.simps(4))
  note run = insert_version_Inr [OF iv]
  have g': "graph_ok E w'" using graph_ok_insert_version [OF half iv] .
  let ?row = "row\<lparr>a_current := Some vid, a_media := ?media\<rparr>"
  have found': "find_artifact (w_db w') t ?aid = Some ?row"
    unfolding run(3) after_version_def Let_def
    using find_artifact_after [OF keys found] run(1) by simp
  have ok: "actor_ok (Some who)" using validated_actor [OF valid] .
  have perm: "permits (w_db w') (Some who) ''read'' ?row" by (simp add: permits_def row)
  then have auth: "authorize (w_db w') t ?aid (Some who) ''read'' = Inr ()"
    using found' ok by (simp add: err_simps)
  let ?v = "shown_version (new_version E u t ?aid data ?media who why cj None) (jsort (or_empty ctx))"
  have "version_metadata w' t (Some vid) (Some who) ''read'' None = Inr ?v"
    unfolding run(1)
    by (rule metadata_after [OF _ run(3) found' perm _ ok])
      (use g' json_text_loads [OF validated_context [OF valid] wf] in \<open>auto simp: graph_ok_def\<close>)
  moreover have "get_artifact w' t ?aid (Some who) ''read'' = Inr (view_artifact ?row)"
    using found' auth by (simp add: get_artifact_def)
  ultimately have "create_artifact E t name data mt who why ctx w = (Inr (view_artifact ?row, ?v), w')"
    using name valid u iv
    by (simp add: create_artifact_alt mbind_def new_id_def mlift_def transact_def mread_def mret_def)
  moreover have "w_ids u = w_ids w + 1"
    unfolding birth_Inr(1) [OF u] by (simp add: born_def Let_def)
  then have "w_ids w' = w_ids w + 2 + length (expected_chunks E data ?media)"
    unfolding run(3) after_version_def Let_def by simp
  ultimately show ?thesis
    using g' found' row run(1) by (auto simp: view_artifact_def shown_version_def)
qed

lemma write_version_Inr:
  assumes "write_version E t aid data media who why ctx parent auth w = (Inr m, w')"
  obtains cj a where "validate_version_input E data media who why ctx = Inr cj"
    "authorize (w_db w) t aid (request_actor who auth) ''write'' = Inr ()"
    "find_artifact (w_db w) t aid = Some a" "parent = a_current a"
    "insert_version E t aid data media who why cj parent w = (Inr (ident E ''ver'' (w_ids w)), w')"
    "w' = after_version E w t aid data media who why cj parent"
    "version_metadata w' t (Some (ident E ''ver'' (w_ids w))) (request_actor who auth) ''write'' None = Inr m"
    "ident E ''ver'' (w_ids w) \<notin> v_id ` set (t_versions (w_db w))" "has_version (w_db w) parent"
proof -
  from assms obtain cj vid where
    p: "validate_version_input E data media who why ctx = Inr cj"
      "authorize (w_db w) t aid (request_actor who auth) ''write'' = Inr ()"
      "insert_version E t aid data media who why cj parent w = (Inr vid, w')"
      "version_metadata w' t (Some vid) (request_actor who auth) ''write'' None = Inr m"
    by (auto simp: write_version_def mbind_Inr_iff mlift_iff transact_Inr query_or_raise_iff mread_iff)
  note iv = insert_version_Inr [OF p(3)]
  from iv(2) obtain a where "find_artifact (w_db w) t aid = Some a" "parent = a_current a" by blast
  with that p iv show thesis by blast
qed

lemma rename_Inr: "rename_not_found msg r = Inr x \<longleftrightarrow> r = Inr x"
  by (cases r) (auto simp: rename_not_found_def)

lemma version_metadata_Inr:
  "version_metadata w t vid actor act sel = Inr m \<Longrightarrow>
   \<exists>v. find_version (w_db w) t vid sel = Some v \<and> authorize (w_db w) t (v_artifact v) actor act = Inr ()
     \<and> m = shown_version v (vv_context m) \<and> loads (v_context v) = Some (vv_context m)"
  by (auto simp: version_metadata_def view_version_def shown_version_def err_simps rename_Inr
      split: option.splits)

lemma find_version_Some:
  "find_version db t vid sel = Some v \<Longrightarrow>
   v \<in> set (t_versions db) \<and> Some (v_id v) = vid \<and> v_tenant v = t \<and> (sel = None \<or> Some (v_artifact v) = sel)"
  by (auto simp: find_version_def find_Some_iff)

lemma metadata_id:
  assumes "version_metadata w t vid actor act sel = Inr m" shows "vid = Some (vv_id m)"
proof -
  from version_metadata_Inr [OF assms] obtain v where
    "find_version (w_db w) t vid sel = Some v" "m = shown_version v (vv_context m)" by blast
  with find_version_Some [of "w_db w" t vid sel v] have "Some (v_id v) = vid" "vv_id m = v_id v"
    by (auto simp: shown_version_def dest: arg_cong [of _ _ vv_id])
  then show ?thesis by simp
qed

lemma write_version_db:
  assumes "write_version E t aid data media who why ctx parent auth w = (r, w')"
  shows "w_db w' = w_db w \<or>
    (\<exists>cj vid. insert_version E t aid data media who why cj parent w = (Inr vid, w'))"
  using assms
  by (cases r) (fastforce simp: write_version_def mbind_Inr_iff mbind_Inl_iff mlift_iff transact_Inr
      transact_Inl query_or_raise_iff mread_iff)+

lemma write_effect:
  assumes g: "graph_ok E w"
    and run: "write_version E t aid data media who why ctx parent auth w = (Inr m, w')"
  shows "(\<exists>a. find_artifact (w_db w) t aid = Some a \<and> a_current a = parent) \<and>
    (\<exists>a. find_artifact (w_db w') t aid = Some a \<and> a_current a = Some (vv_id m)) \<and>
    (\<exists>v. history (w_db w') aid = history (w_db w) aid @ [v] \<and> v_id v = vv_id m \<and> v_parent v = parent
       \<and> v_blob v = sha256_hex E data \<and> v_media v = media) \<and>
    (\<forall>other. other = aid \<or> history (w_db w') other = history (w_db w) other)"
proof -
  from write_version_Inr [OF run] obtain cj a where
    found: "find_artifact (w_db w) t aid = Some a" "parent = a_current a" and
    w': "w' = after_version E w t aid data media who why cj parent" and
    md: "version_metadata w' t (Some (ident E ''ver'' (w_ids w))) (request_actor who auth) ''write'' None = Inr m"
    by metis
  let ?v = "new_version E w t aid data media who why cj parent"
  have db: "\<exists>rows. w_db w' = commit_version ?v rows (w_db w)"
    by (auto simp: w' after_version_def Let_def)
  have id: "vv_id m = v_id ?v"
    using metadata_id [OF md] by simp
  have "\<exists>a'. find_artifact (w_db w') t aid = Some a' \<and> a_current a' = Some (vv_id m)"
    using db find_artifact_after [OF _ found(1)] g id by (auto simp: graph_ok_def keys_ok_def)
  moreover have "history (w_db w') other = history (w_db w) other @ (if other = aid then [?v] else [])" for other
    using db by (auto simp: history_commit)
  ultimately show ?thesis using found id by auto
qed

section \<open>A sample store\<close>

text \<open>An environment whose functions compute, with an injective hash and injective identifiers; the
  witnesses of the properties speak of a store built in it.\<close>

definition env0 :: env where
  "env0 = \<lparr>uuid_hex = (\<lambda>n. replicate n CHR ''0''), clock_us = (\<lambda>n. 1000000 * n),
     sha256_hex = map (\<lambda>b. char_of (unat b)), decode_utf8 = map (\<lambda>b. char_of (unat b)),
     guess_type = (\<lambda>n. Some ''text/plain''), iso_parse = (\<lambda>s. Some (int (length s), True)), max_artifact_bytes = 100\<rparr>"

lemma env0_ok: "env_ok env0"
  by (auto simp: env_ok_def env0_def inj_def dest: arg_cong [of _ _ length])

lemma env0_hash: "sha256_hex env0 x = sha256_hex env0 y \<Longrightarrow> x = y"
proof -
  have "inj (\<lambda>b :: 8 word. char_of (unat b) :: char)"
  proof (rule injI)
    fix x y :: "8 word" assume "(char_of (unat x) :: char) = char_of (unat y)"
    then have "unat x mod 256 = unat y mod 256" by (metis of_char_of)
    then have "unat x = unat y" by simp
    then show "x = y" by (rule unsigned_word_eqI)
  qed
  then show "sha256_hex env0 x = sha256_hex env0 y \<Longrightarrow> x = y"
    by (simp add: env0_def inj_map_eq_map)
qed

lemma env0_valid:
  "validate_version_input env0 [104, 105] ''text/plain'' ''ann'' ''why'' (JObj []) = Inr ''{}''"
  by (simp add: validate_version_input_def env0_def validate_text_def json_text_def strip_def lstrip_def
      is_space_def ord_of_def MAX_MEDIA_TYPE_LENGTH_def MAX_NAME_LENGTH_def MAX_REASON_LENGTH_def
      MAX_CONTEXT_BYTES_def dumps_sorted_strict_def utf8_def utf8_char_def)

lemma sample_create:
  "\<exists>a v w. create_artifact env0 ''t'' ''n'' [104, 105] None ''ann'' ''why'' None empty_world = (Inr (a, v), w)
    \<and> graph_ok env0 w \<and> w_ids w = 3
    \<and> (\<exists>row. find_artifact (w_db w) ''t'' (av_id a) = Some row \<and> a_owner row = ''ann'')"
proof -
  have "length (expected_chunks env0 [104, 105] ''text/plain'') = 1"
    by (simp add: expected_chunks_def text_for_def TEXT_MEDIA_TYPES_def env0_def chunk_list_def CHUNK_SIZE_def)
  moreover have "w_ids empty_world = 0" by (simp add: empty_world_def)
  moreover
  have "resolve_media env0 None ''n'' = ''text/plain''" "or_empty None = JObj []"
    "validate_text ''name'' ''n'' MAX_NAME_LENGTH = Inr ''n''" "strip ''t'' \<noteq> []"
    by (simp_all add: resolve_media_def env0_def or_empty_def validate_text_def strip_def lstrip_def
        is_space_def ord_of_def MAX_NAME_LENGTH_def)
  ultimately show ?thesis
    using create_artifact_result [OF env0_ok graph_ok_empty, of None "''n''" "''n''" "''t''"
        "[104, 105]" None "''ann''" "''why''" "''{}''"] env0_valid
    by (fastforce simp: MAX_NAME_LENGTH_def dict_ok_def)
qed

lemma sample_write:
  "\<exists>w aid a m w'. graph_ok env0 w \<and> find_artifact (w_db w) ''t'' aid = Some a \<and> a_owner a = ''ann''
    \<and> write_version env0 ''t'' aid [104, 105] ''text/plain'' ''ann'' ''why'' (JObj []) (a_current a) None w
        = (Inr m, w') \<and> authorize (w_db w') ''t'' aid None ''read'' = Inr ()"
proof -
  from sample_create obtain w aid a where w: "graph_ok env0 w"
    "find_artifact (w_db w) ''t'' aid = Some a" "a_owner a = ''ann''" by blast
  have "actor_ok (request_actor ''ann'' None)" "permits (w_db w) (request_actor ''ann'' None) ''write'' a"
    using w(3) by (simp_all add: request_actor_def validated_actor [OF env0_valid] permits_def)
  from write_version_result [OF env0_ok w(1) _ env0_valid w(2) this refl] obtain m w' where
    run: "write_version env0 ''t'' aid [104, 105] ''text/plain'' ''ann'' ''why'' (JObj []) (a_current a) None w
        = (Inr m, w')" by (auto simp: dict_ok_def)
  with write_effect [OF w(1) run] have "authorize (w_db w') ''t'' aid None ''read'' = Inr ()"
    by (auto simp: err_simps actor_ok_def permits_def)
  with w run show ?thesis by blast
qed

section \<open>Properties\<close>

text \<open>C10: A successful \<open>write_version\<close> extends one linear history: the given parent was the
  artifact's current version, the history of the artifact grows by exactly one version whose parent it
  is and whose hash is that of the bytes, the artifact points at the new version afterwards, and no
  other artifact's history changes.\<close>

theorem write_extends_history:
  assumes g: "graph_ok E w"
    and run: "write_version E t aid data media who why ctx parent auth w = (Inr m, w')"
  shows "(\<exists>a. find_artifact (w_db w) t aid = Some a \<and> a_current a = parent) \<and>
    (\<exists>a. find_artifact (w_db w') t aid = Some a \<and> a_current a = Some (vv_id m)) \<and>
    (\<exists>v. history (w_db w') aid = history (w_db w) aid @ [v] \<and> v_id v = vv_id m \<and> v_parent v = parent
       \<and> v_blob v = sha256_hex E data \<and> v_media v = media) \<and>
    (\<forall>other. other = aid \<or> history (w_db w') other = history (w_db w) other)"
  using write_effect [OF g run] .

lemma write_extends_history_witness:
  "\<exists>w aid (m :: version_view) (w' :: world). graph_ok env0 w \<and> (\<exists>v. history (w_db w') aid = history (w_db w) aid @ [v] \<and> v_id v = vv_id m)"
proof -
  obtain w aid m w' and a :: artifact_row where run: "graph_ok env0 w" "write_version env0 ''t'' aid
      [104, 105] ''text/plain'' ''ann'' ''why'' (JObj []) (a_current a) None w = (Inr m, w')"
    using sample_write by blast
  from write_extends_history [OF run, THEN conjunct2, THEN conjunct2, THEN conjunct1] obtain v where
    "history (w_db w') aid = history (w_db w) aid @ [v] \<and> v_id v = vv_id m" by blast
  with run(1) show ?thesis by blast
qed

text \<open>A parent is spent once some version of the artifact has it. It stays spent while histories grow, and no
  write from it succeeds.\<close>

definition spent_parent :: "database \<Rightarrow> string \<Rightarrow> string option \<Rightarrow> bool" where
  "spent_parent db aid parent \<longleftrightarrow> parent \<in> v_parent ` set (history db aid)"

lemma spent_grows: "spent_parent (w_db w) aid parent \<Longrightarrow> grows w w' \<Longrightarrow> spent_parent (w_db w') aid parent"
  by (auto simp: spent_parent_def grows_def history_def prefix_def)

lemma spent_not_current:
  assumes "graph_ok E w" "find_artifact (w_db w) t aid = Some a" "spent_parent (w_db w) aid parent"
  shows "parent \<noteq> a_current a"
proof -
  have a: "a \<in> set (t_artifacts (w_db w))" "a_id a = aid" using find_artifact_Some [OF assms(2)] by simp_all
  let ?vs = "history (w_db w) aid"
  have c: "map v_parent ?vs @ [a_current a] = None # map (\<lambda>v. Some (v_id v)) ?vs"
    using assms(1) a by (auto simp: graph_ok_def linear_def chain_def)
  have "distinct (map v_id (t_versions (w_db w)))" using assms(1) by (simp add: graph_ok_def keys_ok_def)
  then have "distinct (map v_id ?vs)" by (simp add: history_def distinct_map_filter)
  then have "distinct (map (\<lambda>v. Some (v_id v)) ?vs)" by (simp add: distinct_map inj_on_def)
  then have "distinct (map v_parent ?vs @ [a_current a])" unfolding c by auto
  then have "a_current a \<notin> v_parent ` set ?vs" by simp
  with assms(3) show ?thesis unfolding spent_parent_def by metis
qed

lemma spent_refused:
  assumes "graph_ok E w" "spent_parent (w_db w) aid parent"
    and run: "write_version E t aid data media who why ctx parent auth w = (r, w')"
  shows "(\<exists>e. r = Inl e) \<and> w_db w' = w_db w"
proof -
  have ne: "parent \<noteq> a_current a" if "find_artifact (w_db w) t aid = Some a" for a
    using spent_not_current [OF assms(1) that assms(2)] .
  have "r \<noteq> Inr m" for m using run write_version_Inr ne by metis
  then obtain e where "r = Inl e" by (cases r) auto
  moreover have "w_db w' = w_db w" using write_version_db [OF run] insert_version_Inr(2) ne by metis
  ultimately show ?thesis by simp
qed

lemma write_spends:
  assumes "graph_ok E w" "write_version E t aid data media who why ctx parent auth w = (Inr m, w')"
  shows "spent_parent (w_db w') aid parent"
  using write_effect [OF assms] by (auto simp: spent_parent_def)

text \<open>C37: A valid write always succeeds: with distinct identifiers from \<open>uuid4\<close> and a store in its
  invariant, a write whose input passes validation, whose actor may write the artifact and whose
  parent is the current version returns the metadata of the version it appended; no constraint of the
  schema can fail.\<close>

theorem valid_write_succeeds:
  assumes "env_ok E" and "graph_ok E w" and "wf_json ctx"
    and "validate_version_input E data media who why ctx = Inr cj"
    and "find_artifact (w_db w) t aid = Some a"
    and "actor_ok (request_actor who auth)" and "permits (w_db w) (request_actor who auth) ''write'' a"
  shows "write_version E t aid data media who why ctx (a_current a) auth w =
    (Inr \<lparr>vv_id = ident E ''ver'' (w_ids w), vv_artifact = aid, vv_parent = a_current a,
       vv_blob = sha256_hex E data, vv_media = media, vv_size = length data, vv_actor = who,
       vv_reason = why, vv_context = jsort ctx, vv_created = clock_iso E (w_now w)\<rparr>,
     after_version E w t aid data media who why cj (a_current a))"
  using write_version_result [OF assms(1-7) refl] by (simp add: shown_version_def)

lemma valid_write_succeeds_witness:
  "\<exists>w aid p m w'. write_version env0 ''t'' aid [104, 105] ''text/plain'' ''ann'' ''why'' (JObj []) p None w
    = (Inr m, w') \<and> vv_parent m = p \<and> vv_size m = 2"
proof -
  from sample_create obtain w aid a where w: "graph_ok env0 w"
    "find_artifact (w_db w) ''t'' aid = Some a" "a_owner a = ''ann''" by blast
  have p: "actor_ok (request_actor ''ann'' None)" "permits (w_db w) (request_actor ''ann'' None) ''write'' a"
    using w(3) by (simp_all add: request_actor_def validated_actor [OF env0_valid] permits_def)
  have wf: "wf_json (JObj [])" by (simp add: dict_ok_def)
  show ?thesis
    using valid_write_succeeds [OF env0_ok w(1) wf env0_valid w(2) p] by fastforce
qed

text \<open>A valid creation always succeeds: with distinct identifiers from \<open>uuid4\<close> and a store in
  its invariant, valid input makes an artifact with the caller as owner, one version without a parent
  as its whole history, and the invariant still true.\<close>

theorem valid_create_succeeds:
  assumes "env_ok E" and "graph_ok E w" and "wf_json (or_empty ctx)"
    and "validate_text ''name'' name MAX_NAME_LENGTH = Inr nm"
    and "strip t \<noteq> []" and "length t \<le> MAX_NAME_LENGTH"
    and "validate_version_input E data (resolve_media E mt name) who why (or_empty ctx) = Inr cj"
  shows "\<exists>a v w'. create_artifact E t name data mt who why ctx w = (Inr (a, v), w') \<and> graph_ok E w'
    \<and> av_tenant a = t \<and> av_name a = name \<and> av_current a = Some (vv_id v) \<and> vv_artifact v = av_id a
    \<and> vv_parent v = None \<and> vv_blob v = sha256_hex E data \<and> vv_context v = jsort (or_empty ctx)
    \<and> (\<exists>row. find_artifact (w_db w') t (av_id a) = Some row \<and> a_owner row = who
         \<and> a_current row = Some (vv_id v))"
  using create_artifact_result [OF assms] by blast

lemma valid_create_succeeds_witness:
  "\<exists>a v w. create_artifact env0 ''t'' ''n'' [104, 105] (Some ''text/plain'') ''ann'' ''why'' None empty_world
    = (Inr (a, v), w) \<and> vv_parent v = None"
proof -
  have "resolve_media env0 (Some ''text/plain'') ''n'' = ''text/plain''" "or_empty None = JObj []"
    "validate_text ''name'' ''n'' MAX_NAME_LENGTH = Inr ''n''" "strip ''t'' \<noteq> []"
    by (simp_all add: resolve_media_def env0_def or_empty_def validate_text_def strip_def lstrip_def
        is_space_def ord_of_def MAX_NAME_LENGTH_def)
  then show ?thesis
    using valid_create_succeeds [OF env0_ok graph_ok_empty, of None "''n''" "''n''" "''t''"
        "[104, 105]" "Some ''text/plain''" "''ann''" "''why''" "''{}''"] env0_valid
    by (fastforce simp: MAX_NAME_LENGTH_def dict_ok_def)
qed

text \<open>A write that is not permitted changes nothing: when the check for \<open>write\<close> fails, the
  operation raises and leaves the database and the blob directory as they were.\<close>

theorem denied_write_changes_nothing:
  assumes "authorize (w_db w) t aid (request_actor who auth) ''write'' \<noteq> Inr ()"
  shows "(\<exists>e. fst (write_version E t aid data media who why ctx parent auth w) = Inl e) \<and>
    w_db (snd (write_version E t aid data media who why ctx parent auth w)) = w_db w \<and>
    w_blobs (snd (write_version E t aid data media who why ctx parent auth w)) = w_blobs w"
proof -
  obtain e where "authorize (w_db w) t aid (request_actor who auth) ''write'' = Inl e"
    using assms by (cases "authorize (w_db w) t aid (request_actor who auth) ''write''") auto
  then show ?thesis
    by (cases "validate_version_input E data media who why ctx")
      (simp_all add: write_version_def mbind_def mlift_def transact_def query_or_raise_def)
qed

lemma denied_write_changes_nothing_witness:
  "\<exists>e. fst (write_version env0 ''t'' ''art_9'' [1] ''text/plain'' ''ann'' ''why'' (JObj []) None None
    empty_world) = Inl e"
  using denied_write_changes_nothing [of empty_world "''t''" "''art_9''" "''ann''" None env0 "[1]"
      "''text/plain''" "''why''" "JObj []" None]
  by (auto simp: err_simps find_artifact_def empty_world_def empty_db_def)

text \<open>The chunks of a stored text are a partition of it: in a store that satisfies the invariant,
  the contents of a version's chunks, in order, concatenate to the decoded text of the stored bytes,
  and the ordinals count from zero.\<close>

theorem chunks_partition_text:
  assumes "graph_ok E w" and "v \<in> set (t_versions (w_db w))"
    and "w_blobs w (v_blob v) = Some data" and "text_for E data (v_media v) = Some body"
    and "\<And>d. sha256_hex E d = sha256_hex E data \<Longrightarrow> d = data"
  shows "concat (map c_content (version_chunks (w_db w) (v_id v))) = body \<and>
    map c_ordinal (version_chunks (w_db w) (v_id v)) = [0..<length (version_chunks (w_db w) (v_id v))]"
proof -
  let ?cs = "version_chunks (w_db w) (v_id v)"
  have "sha256_hex E data = v_blob v" using assms(1,3) by (simp add: graph_ok_def blobs_ok_def)
  moreover obtain d where "v_blob v = sha256_hex E d" "map chunk_data ?cs = expected_chunks E d (v_media v)"
    using assms(1,2) by (auto simp: graph_ok_def stored_def)
  ultimately have cs: "map chunk_data ?cs = chunk_list CHUNK_SIZE body"
    using assms(4,5) by (simp add: expected_chunks_def)
  have "map c_content ?cs = map chunk_text (chunk_list CHUNK_SIZE body)"
    "map c_ordinal ?cs = map fst (chunk_list CHUNK_SIZE body)"
    by (simp_all add: cs [symmetric] chunk_text_def chunk_data_def)
  moreover have "length ?cs = length (chunk_list CHUNK_SIZE body)" by (simp add: cs [symmetric])
  ultimately show ?thesis
    using chunk_list_concat [of CHUNK_SIZE body] by (simp add: chunk_list_ordinals CHUNK_SIZE_def)
qed

lemma chunks_partition_text_witness:
  "\<exists>(w :: world) v data. v \<in> set (t_versions (w_db w)) \<and> w_blobs w (v_blob v) = Some data \<and>
    concat (map c_content (version_chunks (w_db w) (v_id v))) = decode_utf8 env0 data"
proof -
  obtain w aid m w' and a :: artifact_row where run: "graph_ok env0 w" "write_version env0 ''t'' aid [104, 105] ''text/plain''
      ''ann'' ''why'' (JObj []) (a_current a) None w = (Inr m, w')" using sample_write by blast
  from write_effect [OF run(1,2)] obtain v where "history (w_db w') aid = history (w_db w) aid @ [v]"
    "v_media v = ''text/plain''" by blast
  then have "v \<in> set (history (w_db w') aid)" "v_media v = ''text/plain''" by simp_all
  then have v: "v \<in> set (t_versions (w_db w'))" "v_media v = ''text/plain''" by (auto simp: history_def)
  have g: "graph_ok env0 w'"
    using steps_byD [OF sound_write_version run(2)] run(1) by (simp add: keeps_graph_def)
  with v obtain data where d: "w_blobs w' (v_blob v) = Some data" by (auto simp: graph_ok_def stored_def)
  have tx: "text_for env0 data (v_media v) = Some (decode_utf8 env0 data)"
    by (simp add: text_for_def v TEXT_MEDIA_TYPES_def)
  have "concat (map c_content (version_chunks (w_db w') (v_id v))) = decode_utf8 env0 data \<and>
      map c_ordinal (version_chunks (w_db w') (v_id v)) = [0..<length (version_chunks (w_db w') (v_id v))]"
    by (rule chunks_partition_text [OF g v(1) d tx]) (rule env0_hash)
  with v d show ?thesis by blast
qed

lemma written_is_read:
  assumes g: "graph_ok E w"
    and run: "write_version E t aid data media who why ctx parent auth w = (Inr m, w')"
    and reader: "authorize (w_db w') t aid reader ''read'' = Inr ()"
    and hash: "\<And>d. sha256_hex E d = sha256_hex E data \<Longrightarrow> d = data"
  shows "\<exists>r. read_artifact E w' t aid None reader = Inr r \<and> rd_version r = m
    \<and> b64_decode std_alphabet (rd_content_base64 r) = Some data \<and> rd_text r = text_for E data media"
proof -
  from write_version_Inr [OF run] obtain cj a where
    w': "w' = after_version E w t aid data media who why cj parent" and
    iv: "insert_version E t aid data media who why cj parent w = (Inr (ident E ''ver'' (w_ids w)), w')" and
    md: "version_metadata w' t (Some (ident E ''ver'' (w_ids w))) (request_actor who auth) ''write'' None = Inr m"
    by metis
  let ?v = "new_version E w t aid data media who why cj parent"
  have g': "graph_ok E w'" using graph_ok_insert_version [OF half_ok_graph [OF g] iv] .
  then have keys: "keys_ok (w_db w')" by (simp add: graph_ok_def)
  from version_metadata_Inr [OF md] find_version_after [OF keys w'] have
    m: "m = shown_version ?v (vv_context m)" and ctx: "loads cj = Some (vv_context m)" by auto
  from write_effect [OF g run] metadata_id [OF md] obtain a where
    a: "find_artifact (w_db w') t aid = Some a" "a_current a = Some (ident E ''ver'' (w_ids w))" by auto
  with reader have perm: "permits (w_db w') reader ''read'' a" "actor_ok reader"
    by (auto simp: err_simps)
  have vm: "version_metadata w' t (Some (ident E ''ver'' (w_ids w))) reader ''read'' (Some aid) = Inr m"
    using metadata_after [OF keys w' a(1) perm(1) _ perm(2) ctx, of "Some aid"] m by simp
  obtain d where d: "w_blobs w' (sha256_hex E data) = Some d" "sha256_hex E d = sha256_hex E data"
  proof -
    have "?v \<in> set (t_versions (w_db w'))" by (simp add: w' after_version_def Let_def)
    with g' obtain d where "w_blobs w' (v_blob ?v) = Some d" by (auto simp: graph_ok_def stored_def)
    with g' that show thesis by (auto simp: graph_ok_def blobs_ok_def)
  qed
  have blob: "vv_blob m = sha256_hex E data" "vv_media m = media"
    using arg_cong [OF m, of vv_blob] arg_cong [OF m, of vv_media] by (simp_all add: shown_version_def)
  have "get_artifact w' t aid reader ''read'' = Inr (view_artifact a)"
    using a reader by (simp add: get_artifact_def)
  with reader vm d hash [OF d(2)] blob a show ?thesis
    by (simp add: read_artifact_def version_bytes_def chunk_descriptors_def view_artifact_def
        b64_decode_encode good_alphabets)
qed

text \<open>What is written is read back: after a successful write, any actor who may read the artifact
  reads the new version's metadata, its bytes in base64 and, for text types, its decoded text; the one
  assumption on SHA-256 is that no other bytes share the hash.\<close>

theorem read_after_write:
  assumes g: "graph_ok E w"
    and run: "write_version E t aid data media who why ctx parent auth w = (Inr m, w')"
    and reader: "authorize (w_db w') t aid reader ''read'' = Inr ()"
    and hash: "\<And>d. sha256_hex E d = sha256_hex E data \<Longrightarrow> d = data"
  shows "\<exists>r. read_artifact E w' t aid None reader = Inr r \<and> rd_version r = m
    \<and> b64_decode std_alphabet (rd_content_base64 r) = Some data \<and> rd_text r = text_for E data media"
  by (rule written_is_read [OF assms])

lemma read_after_write_witness:
  "\<exists>w aid r. read_artifact env0 w ''t'' aid None None = Inr r
    \<and> b64_decode std_alphabet (rd_content_base64 r) = Some [104, 105]"
proof -
  obtain w aid m w' and a :: artifact_row where run: "graph_ok env0 w" "write_version env0 ''t'' aid [104, 105] ''text/plain''
      ''ann'' ''why'' (JObj []) (a_current a) None w = (Inr m, w')"
    "authorize (w_db w') ''t'' aid None ''read'' = Inr ()" using sample_write by blast
  from read_after_write [OF run env0_hash] show ?thesis by blast
qed

end
