(* ===== verification/Frame.thy ===== *)
theory Frame
  imports Versions
begin

text \<open>
  Operations that leave the artifact tables alone (audit, external connections, health): a relation
  with that meaning, proved call by call, from which the invariant of \<open>Integrity\<close> and the growth of
  history follow.
\<close>

definition same_graph :: "database \<Rightarrow> database \<Rightarrow> bool" where
  "same_graph db db' \<longleftrightarrow> t_artifacts db' = t_artifacts db \<and> t_versions db' = t_versions db
     \<and> t_chunks db' = t_chunks db \<and> t_edges db' = t_edges db \<and> t_grants db' = t_grants db
     \<and> set (t_tenants db) \<subseteq> set (t_tenants db')"

definition framed :: "world \<Rightarrow> world \<Rightarrow> bool" where
  "framed w w' \<longleftrightarrow> same_graph (w_db w) (w_db w') \<and> w_blobs w' = w_blobs w \<and> w_ids w \<le> w_ids w'"

interpretation framed: world_relation framed
  by unfold_locales (auto simp: framed_def same_graph_def)

lemma framed_execute:
  "(\<And>db. same_graph db (f db)) \<Longrightarrow> steps_by framed (execute ok f)"
  by (rule framed.steps_execute) (simp add: framed_def)

lemma framed_ensure_tenant: "steps_by framed (ensure_tenant E t)"
  unfolding ensure_tenant_def insert_or_ignore_tenant_def
  by (intro framed.world_intros framed_execute) (auto simp: same_graph_def)

lemma same_graph_facts:
  assumes "same_graph db db'"
  shows "history db' = history db" "version_chunks db' = version_chunks db"
    "artifact_in db' = artifact_in db" "version_in db' = version_in db" "owned db' = owned db"
    "active_grants db' = active_grants db" "has_tenant db t \<Longrightarrow> has_tenant db' t"
    "find_artifact db' = find_artifact db" "has_grant db' = has_grant db" "permits db' = permits db"
    "authorize db' = authorize db"
proof -
  note s = assms [unfolded same_graph_def]
  show fa: "find_artifact db' = find_artifact db" and hg: "has_grant db' = has_grant db"
    using s by (simp_all add: find_artifact_def [abs_def] has_grant_def [abs_def])
  show "permits db' = permits db" unfolding permits_def [abs_def] hg ..
  show "authorize db' = authorize db" unfolding authorize_def [abs_def] fa hg ..
  show "history db' = history db" "version_chunks db' = version_chunks db"
    "artifact_in db' = artifact_in db" "version_in db' = version_in db" "owned db' = owned db"
    "active_grants db' = active_grants db" "has_tenant db t \<Longrightarrow> has_tenant db' t"
    using s by (auto simp: history_def [abs_def] version_chunks_def [abs_def] artifact_in_def [abs_def]
        version_in_def [abs_def] owned_def [abs_def] active_grants_def has_tenant_def)
qed

lemma graph_ok_framed:
  assumes g: "graph_ok E w" and f: "framed w w'"
  shows "graph_ok E w'"
proof -
  from f have s: "same_graph (w_db w) (w_db w')" and b: "w_blobs w' = w_blobs w" and i: "w_ids w \<le> w_ids w'"
    by (simp_all add: framed_def)
  note facts = same_graph_facts [OF s]
  have d: "drawn E w p x \<Longrightarrow> drawn E w' p x" for p x using drawn_mono i by blast
  have "keys_ok (w_db w')" using g s by (simp add: graph_ok_def keys_ok_def same_graph_def facts(6))
  moreover have "refs_ok (w_db w')"
    using g s facts(7) by (simp add: graph_ok_def refs_ok_def same_graph_def facts(3,4))
  moreover have "\<forall>a \<in> set (t_artifacts (w_db w')). linear (w_db w') a \<and> owned (w_db w') a"
    using g s by (simp add: graph_ok_def linear_def chain_def same_graph_def facts(1,5))
  moreover have "\<forall>v \<in> set (t_versions (w_db w')). stored E w' v"
    using g s by (simp add: graph_ok_def stored_def same_graph_def facts(2) b)
  moreover have "blobs_ok E w'" using g by (simp add: graph_ok_def blobs_ok_def b)
  moreover have "ids_ok E w'"
    using g s d unfolding graph_ok_def ids_ok_def same_graph_def by (simp; metis)
  ultimately show ?thesis by (simp add: graph_ok_def)
qed

lemma grows_framed: "framed w w' \<Longrightarrow> grows w w'"
  by (simp add: framed_def same_graph_def grows_def)

lemma sound_framed: "steps_by framed m \<Longrightarrow> steps_by (keeps_graph E) m"
  unfolding steps_by_def keeps_graph_def using graph_ok_framed by blast

lemma steps_grows_framed: "steps_by framed m \<Longrightarrow> steps_by grows m"
  unfolding steps_by_def using grows_framed by blast

end
