(* ===== verification/Sharing.thy ===== *)
theory Sharing
  imports Frame
begin

text \<open>
  Grants (\<open>service.py\<close>: \<open>share_artifact\<close>, \<open>revoke_share\<close>, \<open>artifact_acl\<close>). Sharing is
  idempotent per subject and action, a revoked grant no longer admits its subject, the owner's own
  grants cannot be revoked, and where the tenant has a membership table only its active members can be
  granted anything.
\<close>

section \<open>Operations\<close>

definition is_active_member :: "database \<Rightarrow> string \<Rightarrow> string \<Rightarrow> bool" where
  "is_active_member db tenant actor \<longleftrightarrow>
     (case t_memberships db of
        None \<Rightarrow> True
      | Some rows \<Rightarrow> list_ex (\<lambda>m. mb_tenant m = tenant \<and> mb_actor m = actor
            \<and> mb_status m = ''active'') rows)"

definition find_active_grant ::
    "database \<Rightarrow> string \<Rightarrow> string \<Rightarrow> string \<Rightarrow> string \<Rightarrow> grant_row option" where
  "find_active_grant db tenant aid subject act =
     List.find (\<lambda>g. g_tenant g = tenant \<and> g_artifact g = aid \<and> g_subject_type g = ACL_SUBJECT_TYPE
        \<and> g_subject g = subject \<and> g_action g = act \<and> g_status g = ''active'') (t_grants db)"

definition find_grant :: "database \<Rightarrow> string \<Rightarrow> grant_row option" where
  "find_grant db gid = List.find (\<lambda>g. g_id g = gid) (t_grants db)"

text \<open>Reading a row back and \<open>assert row is not None\<close>.\<close>

definition assert_row :: "(database \<Rightarrow> 'a option) \<Rightarrow> (world, 'a) action" where
  "assert_row f = mbind (query f) (\<lambda>row.
     case row of None \<Rightarrow> mraise (OtherError ''AssertionError'') | Some x \<Rightarrow> mret x)"

lemma assert_row_iff: "assert_row f w = (Inr x, w') \<longleftrightarrow> f (w_db w) = Some x \<and> w' = w"
  by (cases "f (w_db w)") (auto simp: assert_row_def run_simps)

definition share_artifact ::
    "env \<Rightarrow> string \<Rightarrow> string \<Rightarrow> string \<Rightarrow> string \<Rightarrow> string \<Rightarrow> string \<Rightarrow> string option option \<Rightarrow>
     (world, grant_row) action" where
  "share_artifact E tenant aid actor subject act reason auth =
     mbind (mlift (validate_text ''subject_actor_id'' subject MAX_NAME_LENGTH)) (\<lambda>_.
     mbind (mlift (validate_text ''reason'' reason MAX_REASON_LENGTH)) (\<lambda>_.
     mbind (mguard (casefold (strip reason) = casefold OWNER_GRANT_REASON)
       (FolioError ''share reason is reserved'')) (\<lambda>_.
     mbind (mguard (act \<notin> set ACL_ACTIONS) (FolioError ''share action is invalid'')) (\<lambda>_.
     transact (
       mbind (query_or_raise (\<lambda>db. authorize db tenant aid (request_actor actor auth) ''share'')) (\<lambda>_.
       mbind (query (\<lambda>db. is_active_member db tenant subject)) (\<lambda>ok.
       mbind (mguard (\<not> ok) (FolioError ''share target is not an active tenant member'')) (\<lambda>_.
       mbind (query (\<lambda>db. find_active_grant db tenant aid subject act)) (\<lambda>existing.
       case existing of
         Some g \<Rightarrow> mret g
       | None \<Rightarrow>
           mbind (new_id E ''grt'') (\<lambda>gid.
           mbind (utc_now E) (\<lambda>now.
           mbind (insert_grant_row \<lparr>g_id = gid, g_tenant = tenant, g_artifact = aid,
               g_subject_type = ACL_SUBJECT_TYPE, g_subject = subject, g_action = act,
               g_status = ''active'', g_created_by = actor, g_created = now, g_reason = reason,
               g_revoked_by = None, g_revoked_at = None, g_revocation = None\<rparr>) (\<lambda>_.
           assert_row (\<lambda>db. find_grant db gid)))))))))))))"

definition revoke_share ::
    "env \<Rightarrow> string \<Rightarrow> string \<Rightarrow> string \<Rightarrow> string \<Rightarrow> string \<Rightarrow> string option option \<Rightarrow>
     (world, grant_row) action" where
  "revoke_share E tenant aid actor gid reason auth =
     mbind (mlift (validate_text ''grant_id'' gid MAX_NAME_LENGTH)) (\<lambda>_.
     mbind (mlift (validate_text ''reason'' reason MAX_REASON_LENGTH)) (\<lambda>_.
     transact (
       mbind (query_or_raise (\<lambda>db. authorize db tenant aid (request_actor actor auth) ''share'')) (\<lambda>_.
       mbind (query (\<lambda>db. List.find (\<lambda>g. g_id g = gid \<and> g_tenant g = tenant \<and> g_artifact g = aid)
         (t_grants db))) (\<lambda>found.
       case found of
         None \<Rightarrow> mraise (FolioError ''grant not found'')
       | Some g \<Rightarrow>
           mbind (mguard (g_id g = owner_grant_id aid (g_action g))
             (FolioError ''artifact owner grant cannot be revoked'')) (\<lambda>_.
           mbind (if g_status g = ''active''
                  then mbind (utc_now E) (\<lambda>now. set_grant_revoked actor now reason gid)
                  else mret ()) (\<lambda>_.
           assert_row (\<lambda>db. find_grant db gid))))))))"

definition artifact_acl ::
    "world \<Rightarrow> string \<Rightarrow> string \<Rightarrow> string \<Rightarrow> string option option \<Rightarrow> py_exn + grant_row list" where
  "artifact_acl w tenant aid actor auth =
     ebind (authorize (w_db w) tenant aid (request_actor actor auth) ''share'') (\<lambda>_.
     Inr (sort_key (\<lambda>g. (g_created g, g_id g))
       (filter (\<lambda>g. g_tenant g = tenant \<and> g_artifact g = aid) (t_grants (w_db w)))))"

section \<open>What they do to the store\<close>

definition add_grant :: "grant_row \<Rightarrow> database \<Rightarrow> database" where
  "add_grant g db = db\<lparr>t_grants := t_grants db @ [g]\<rparr>"

definition revoked_rows :: "string \<Rightarrow> string \<Rightarrow> string \<Rightarrow> string \<Rightarrow> grant_row list \<Rightarrow> grant_row list" where
  "revoked_rows actor now reason gid gs = map (\<lambda>g. if g_id g = gid \<and> g_status g = ''active''
     then g\<lparr>g_status := ''revoked'', g_revoked_by := Some actor, g_revoked_at := Some now,
            g_revocation := Some reason\<rparr> else g) gs"

lemma find_grant_append:
  "g_id g \<notin> g_id ` set gs \<Longrightarrow> List.find (\<lambda>x. g_id x = g_id g) (gs @ [g]) = Some g"
  by (induction gs) auto

lemma share_cases:
  assumes "share_artifact E t aid who subject act why auth w = (Inr g, w')"
  shows "find_active_grant (w_db w) t aid subject act = Some g \<and> w' = w \<or>
    find_active_grant (w_db w) t aid subject act = None \<and> g_id g = ident E ''grt'' (w_ids w) \<and>
    g_tenant g = t \<and> g_artifact g = aid \<and> g_subject_type g = ACL_SUBJECT_TYPE \<and> g_subject g = subject
    \<and> g_action g = act \<and> g_status g = ''active'' \<and> g_id g \<notin> g_id ` set (t_grants (w_db w))
    \<and> w' = w\<lparr>w_db := add_grant g (w_db w), w_ids := Suc (w_ids w), w_now := Suc (w_now w)\<rparr>"
    and "is_active_member (w_db w) t subject" and "act \<in> set ACL_ACTIONS"
    and "authorize (w_db w) t aid (request_actor who auth) ''share'' = Inr ()"
    and "strip subject \<noteq> []" and "length subject \<le> 255"
proof -
  let ?g = "\<lparr>g_id = ident E ''grt'' (w_ids w), g_tenant = t, g_artifact = aid,
     g_subject_type = ACL_SUBJECT_TYPE, g_subject = subject, g_action = act,
     g_status = ''active'', g_created_by = who, g_created = clock_iso E (w_now w), g_reason = why,
     g_revoked_by = None, g_revoked_at = None, g_revocation = None\<rparr>"
  have "validate_text ''subject_actor_id'' subject MAX_NAME_LENGTH = Inr subject"
    using assms by (auto simp: share_artifact_def run_simps dest: iffD1 [OF validate_text_Inr])
  moreover have p: "act \<in> set ACL_ACTIONS
    \<and> authorize (w_db w) t aid (request_actor who auth) ''share'' = Inr ()
    \<and> is_active_member (w_db w) t subject"
    using assms by (auto simp: share_artifact_def run_simps split: if_splits)
  ultimately show "is_active_member (w_db w) t subject" "act \<in> set ACL_ACTIONS"
    "authorize (w_db w) t aid (request_actor who auth) ''share'' = Inr ()"
    "strip subject \<noteq> []" "length subject \<le> 255"
    by (auto simp: validate_text_Inr MAX_NAME_LENGTH_def)
  show "find_active_grant (w_db w) t aid subject act = Some g \<and> w' = w \<or>
    find_active_grant (w_db w) t aid subject act = None \<and> g_id g = ident E ''grt'' (w_ids w) \<and>
    g_tenant g = t \<and> g_artifact g = aid \<and> g_subject_type g = ACL_SUBJECT_TYPE \<and> g_subject g = subject
    \<and> g_action g = act \<and> g_status g = ''active'' \<and> g_id g \<notin> g_id ` set (t_grants (w_db w))
    \<and> w' = w\<lparr>w_db := add_grant g (w_db w), w_ids := Suc (w_ids w), w_now := Suc (w_now w)\<rparr>"
  proof (cases "find_active_grant (w_db w) t aid subject act")
    case None
    with assms obtain u where u: "insert_grant_row ?g (w\<lparr>w_ids := Suc (w_ids w), w_now := Suc (w_now w)\<rparr>)
        = (Inr (), u)" and f: "find_grant (w_db u) (g_id ?g) = Some g" and w': "w' = u"
      by (auto simp: share_artifact_def run_simps assert_row_iff)
    from u have "g_id ?g \<notin> g_id ` set (t_grants (w_db w))"
      by (simp add: insert_grant_row_def execute_iff split: if_splits)
    moreover from this f insert_grant_Inr [OF u] have "g = ?g"
      using find_grant_append [of ?g "t_grants (w_db w)"] by (simp add: find_grant_def)
    ultimately show ?thesis using None w' insert_grant_Inr [OF u] by (simp add: add_grant_def)
  next
    case (Some x)
    with assms show ?thesis by (auto simp: share_artifact_def run_simps)
  qed
qed

lemma revoke_cases:
  assumes "revoke_share E t aid who gid why auth w = (Inr g, w')"
  obtains now row where "row \<in> set (t_grants (w_db w))" "g_id row = gid" "g_tenant row = t" "g_artifact row = aid"
    "gid \<noteq> owner_grant_id aid (g_action row)"
    "authorize (w_db w) t aid (request_actor who auth) ''share'' = Inr ()"
    "g_status row = ''active'' \<and> w' = w\<lparr>w_db := (w_db w)\<lparr>t_grants :=
         revoked_rows who now why gid (t_grants (w_db w))\<rparr>, w_now := Suc (w_now w)\<rparr>
     \<or> g_status row \<noteq> ''active'' \<and> w' = w"
    "find_grant (w_db w') gid = Some g"
proof -
  from assms obtain row where row: "List.find (\<lambda>g. g_id g = gid \<and> g_tenant g = t \<and> g_artifact g = aid)
      (t_grants (w_db w)) = Some row" and ne: "g_id row \<noteq> owner_grant_id aid (g_action row)" and
    au: "authorize (w_db w) t aid (request_actor who auth) ''share'' = Inr ()" and
    up: "(if g_status row = ''active''
          then mbind (utc_now E) (\<lambda>now. set_grant_revoked who now why gid) else mret ()) w = (Inr (), w')" and
    f: "find_grant (w_db w') gid = Some g"
    by (auto simp: revoke_share_def run_simps assert_row_iff split: option.splits if_splits)
  from row have r: "row \<in> set (t_grants (w_db w))" "g_id row = gid" "g_tenant row = t" "g_artifact row = aid"
    by (auto simp: find_Some_iff)
  have "g_status row = ''active'' \<and> w' = w\<lparr>w_db := (w_db w)\<lparr>t_grants :=
         revoked_rows who (clock_iso E (w_now w)) why gid (t_grants (w_db w))\<rparr>, w_now := Suc (w_now w)\<rparr>
     \<or> g_status row \<noteq> ''active'' \<and> w' = w"
    using up by (auto simp: err_simps set_grant_revoked_def revoked_rows_def split: if_splits)
  with that r ne au f show thesis by metis
qed

section \<open>Both keep the invariant\<close>

lemma steps_share:
  "steps_by (outer E) (share_artifact E t aid who subject act why auth)"
  "steps_by keeps_keys (share_artifact E t aid who subject act why auth)"
  "steps_by grows (share_artifact E t aid who subject act why auth)"
  unfolding share_artifact_def assert_row_def
  by (intro outer.world_intros keys.world_intros grows.world_intros steps_keys steps_grows;
      simp add: insert_grant_row_def outer_execute)+

lemma steps_revoke:
  "steps_by (outer E) (revoke_share E t aid who gid why auth)"
  "steps_by keeps_keys (revoke_share E t aid who gid why auth)"
  "steps_by grows (revoke_share E t aid who gid why auth)"
  unfolding revoke_share_def assert_row_def
  by (intro outer.world_intros keys.world_intros grows.world_intros steps_keys steps_grows;
      simp add: set_grant_revoked_def outer_execute)+

lemma graph_ok_grants:
  assumes g: "graph_ok E w" and db: "w_db w' = (w_db w)\<lparr>t_grants := gs\<rparr>"
    and same: "w_blobs w' = w_blobs w" "w_ids w \<le> w_ids w'" and keys: "keys_ok (w_db w')"
    and refs: "\<And>x. x \<in> set gs \<Longrightarrow> artifact_in (w_db w) (g_tenant x) (g_artifact x)
       \<and> g_subject_type x = ACL_SUBJECT_TYPE"
    and ids: "\<And>x. x \<in> set gs \<Longrightarrow> drawn E w' ''grt'' (g_id x)
       \<or> (\<exists>act \<in> set ACL_ACTIONS. g_id x = owner_grant_id (g_artifact x) act)"
    and owners: "\<And>t aid who act now. act \<in> set ACL_ACTIONS \<Longrightarrow>
       owner_grant t aid who act now \<in> set (t_grants (w_db w)) \<Longrightarrow> owner_grant t aid who act now \<in> set gs"
  shows "graph_ok E w'"
proof -
  have d: "drawn E w p i \<Longrightarrow> drawn E w' p i" for p i using drawn_mono same(2) by blast
  have "history (w_db w') = history (w_db w)" "version_chunks (w_db w') = version_chunks (w_db w)"
    "artifact_in (w_db w') = artifact_in (w_db w)" "version_in (w_db w') = version_in (w_db w)"
    "has_tenant (w_db w') = has_tenant (w_db w)"
    by (simp_all add: db history_def [abs_def] version_chunks_def [abs_def] artifact_in_def [abs_def]
        version_in_def [abs_def] has_tenant_def [abs_def])
  note frame = this
  have "refs_ok (w_db w')"
    using g refs unfolding graph_ok_def refs_ok_def frame by (simp add: db)
  moreover have "linear (w_db w') a \<and> owned (w_db w') a" if "a \<in> set (t_artifacts (w_db w'))" for a
    using g that owners unfolding graph_ok_def linear_def chain_def owned_def frame
    by (simp add: db) metis
  moreover have "stored E w' v" if "v \<in> set (t_versions (w_db w'))" for v
    using g that unfolding graph_ok_def stored_def frame by (simp add: db same)
  moreover have "blobs_ok E w'" using g by (simp add: graph_ok_def blobs_ok_def same)
  moreover have "ids_ok E w'"
    using g d ids unfolding graph_ok_def ids_ok_def by (simp add: db)
  ultimately show ?thesis using keys by (simp add: graph_ok_def)
qed

lemma share_error: "share_artifact E t aid who subject act why auth w = (Inl e, w') \<Longrightarrow> w_db w' = w_db w"
  by (auto simp: share_artifact_def mbind_Inl_iff mlift_iff mguard_iff transact_Inl)

lemma revoke_error: "revoke_share E t aid who gid why auth w = (Inl e, w') \<Longrightarrow> w_db w' = w_db w"
  by (auto simp: revoke_share_def mbind_Inl_iff mlift_iff mguard_iff transact_Inl)

lemma authorize_artifact_in: "authorize db t aid actor act = Inr () \<Longrightarrow> artifact_in db t aid"
  by (auto simp: authorize_Inr artifact_in_def dest: find_artifact_Some)

lemma sound_share: "steps_by (keeps_graph E) (share_artifact E t aid who subject act why auth)"
proof (rule steps_byI)
  fix w r w' assume run: "share_artifact E t aid who subject act why auth w = (r, w')"
  show "keeps_graph E w w'"
    unfolding keeps_graph_def
  proof
    assume g: "graph_ok E w"
    note o = steps_byD [OF steps_share(1) run]
    show "graph_ok E w'"
    proof (cases r)
      case (Inl e)
      with run share_error graph_ok_outer [OF g o] show ?thesis by blast
    next
      case (Inr x)
      note c = share_cases [OF run [unfolded Inr]]
      show ?thesis
      proof (cases "w' = w")
        case False
        with c(1) have x: "g_id x = ident E ''grt'' (w_ids w)" "g_tenant x = t" "g_artifact x = aid"
          "g_status x = ''active''" "g_subject_type x = ACL_SUBJECT_TYPE" "w_ids w' = Suc (w_ids w)" "w_blobs w' = w_blobs w"
          "w_db w' = (w_db w)\<lparr>t_grants := t_grants (w_db w) @ [x]\<rparr>"
          by (auto simp: add_grant_def)
        have "drawn E w' ''grt'' (g_id x)" by (auto simp: drawn_def x)
        moreover have "drawn E w p i \<Longrightarrow> drawn E w' p i" for p i
          using drawn_mono [of E w p i w'] x(6) by simp
        ultimately show ?thesis
          using g steps_byD [OF steps_share(2) run] authorize_artifact_in [OF c(4)]
          by (intro graph_ok_grants [OF g x(8) x(7)])
            (auto simp: x keeps_keys_def graph_ok_def refs_ok_def ids_ok_def)
      qed (use g in simp)
    qed
  qed
qed

lemma revoked_mem:
  "x \<in> set (revoked_rows a n r gid gs) \<Longrightarrow>
   \<exists>y \<in> set gs. g_id x = g_id y \<and> g_tenant x = g_tenant y \<and> g_artifact x = g_artifact y
     \<and> g_subject_type x = g_subject_type y"
  by (auto simp: revoked_rows_def)

lemma sound_revoke: "steps_by (keeps_graph E) (revoke_share E t aid who gid why auth)"
proof (rule steps_byI)
  fix w r w' assume run: "revoke_share E t aid who gid why auth w = (r, w')"
  show "keeps_graph E w w'"
    unfolding keeps_graph_def
  proof
    assume g: "graph_ok E w"
    note o = steps_byD [OF steps_revoke(1) run]
    show "graph_ok E w'"
    proof (cases r)
      case (Inl e)
      with run revoke_error graph_ok_outer [OF g o] show ?thesis by blast
    next
      case (Inr x)
      obtain now row where row: "row \<in> set (t_grants (w_db w))" "g_id row = gid" "g_artifact row = aid"
        and ne: "gid \<noteq> owner_grant_id aid (g_action row)"
        and up: "w' = w\<lparr>w_db := (w_db w)\<lparr>t_grants := revoked_rows who now why gid (t_grants (w_db w))\<rparr>,
          w_now := Suc (w_now w)\<rparr> \<or> w' = w"
        by (rule revoke_cases [OF run [unfolded Inr]]) blast
      have dist: "y = row" if "y \<in> set (t_grants (w_db w))" "g_id y = gid" for y
        using g that row by (auto simp: graph_ok_def keys_ok_def distinct_map inj_on_def)
      show ?thesis
      proof (cases "w' = w")
        case False
        with up have w': "w_db w' = (w_db w)\<lparr>t_grants := revoked_rows who now why gid (t_grants (w_db w))\<rparr>"
          "w_blobs w' = w_blobs w" "w_ids w' = w_ids w" by auto
        show ?thesis
        proof (rule graph_ok_grants [OF g w'(1,2)])
          show "keys_ok (w_db w')"
            using steps_byD [OF steps_revoke(2) run] g by (simp add: keeps_keys_def graph_ok_def)
          show "artifact_in (w_db w) (g_tenant y) (g_artifact y) \<and> g_subject_type y = ACL_SUBJECT_TYPE"
            if "y \<in> set (revoked_rows who now why gid (t_grants (w_db w)))" for y
            using g revoked_mem [OF that] by (auto simp: graph_ok_def refs_ok_def)
          show "drawn E w' ''grt'' (g_id y) \<or> (\<exists>act \<in> set ACL_ACTIONS. g_id y = owner_grant_id (g_artifact y) act)"
            if "y \<in> set (revoked_rows who now why gid (t_grants (w_db w)))" for y
          proof -
            have "drawn E w' p i = drawn E w p i" for p i by (simp add: drawn_def w'(3))
            then show ?thesis
              using g revoked_mem [OF that] by (simp add: graph_ok_def ids_ok_def) metis
          qed
          fix t' aid' who' act now'
          assume o: "owner_grant t' aid' who' act now' \<in> set (t_grants (w_db w))" "act \<in> set ACL_ACTIONS"
          have "g_id (owner_grant t' aid' who' act now') \<noteq> gid"
          proof
            assume "g_id (owner_grant t' aid' who' act now') = gid"
            with dist [OF o(1)] have e: "row = owner_grant t' aid' who' act now'" by simp
            from row(2,3) ne show False unfolding e by (simp add: owner_grant_def)
          qed
          then show "owner_grant t' aid' who' act now' \<in> set (revoked_rows who now why gid (t_grants (w_db w)))"
            using o(1) by (force simp: revoked_rows_def)
        qed (simp add: w')
      qed (use g in simp)
    qed
  qed
qed

section \<open>What sharing and revoking guarantee\<close>

lemma find_artifact_grants [simp]: "find_artifact (db\<lparr>t_grants := gs\<rparr>) t aid = find_artifact db t aid"
  by (simp add: find_artifact_def)

lemma has_grant_iff:
  "has_grant db t aid who act \<longleftrightarrow> (\<exists>g \<in> set (t_grants db). g_tenant g = t \<and> g_artifact g = aid
     \<and> g_subject_type g = ACL_SUBJECT_TYPE \<and> g_subject g = who \<and> g_action g = act \<and> g_status g = ''active'')"
  by (auto simp: has_grant_def list_ex_iff)

lemma share_result:
  assumes env: "env_ok E" and g: "graph_ok E w"
    and sub: "validate_text ''subject_actor_id'' subject MAX_NAME_LENGTH = Inr subject"
    and why: "validate_text ''reason'' why MAX_REASON_LENGTH = Inr why"
      "casefold (strip why) \<noteq> casefold OWNER_GRANT_REASON"
    and act: "act \<in> set ACL_ACTIONS"
    and auth: "authorize (w_db w) t aid (request_actor who auth) ''share'' = Inr ()"
    and mem: "is_active_member (w_db w) t subject"
  shows "\<exists>g w'. share_artifact E t aid who subject act why auth w = (Inr g, w')"
proof (cases "find_active_grant (w_db w) t aid subject act")
  case (Some x)
  then show ?thesis
    using assms by (simp add: share_artifact_def mbind_def mlift_def mguard_def mret_def transact_def
        query_or_raise_def query_def mget_def)
next
  case None
  let ?g = "\<lparr>g_id = ident E ''grt'' (w_ids w), g_tenant = t, g_artifact = aid,
     g_subject_type = ACL_SUBJECT_TYPE, g_subject = subject, g_action = act,
     g_status = ''active'', g_created_by = who, g_created = clock_iso E (w_now w), g_reason = why,
     g_revoked_by = None, g_revoked_at = None, g_revocation = None\<rparr>"
  have fresh: "ident E ''grt'' (w_ids w) \<notin> g_id ` set (t_grants (w_db w))"
  proof
    assume "ident E ''grt'' (w_ids w) \<in> g_id ` set (t_grants (w_db w))"
    then have "drawn E w ''grt'' (ident E ''grt'' (w_ids w)) \<or>
       (\<exists>a act. ident E ''grt'' (w_ids w) = owner_grant_id a act)"
      using g unfolding graph_ok_def ids_ok_def by (metis imageE)
    moreover have "ident E ''grt'' n \<noteq> owner_grant_id a act" for n a act
      by (simp add: ident_def owner_grant_id_def)
    ultimately show False using not_drawn [OF env, of w "w_ids w"] by auto
  qed
  have "grant_key ?g \<notin> grant_key ` set (active_grants (w_db w))"
    using None by (auto simp: find_active_grant_def find_None_iff active_grants_def grant_key_def)
  moreover have "has_artifact (w_db w) aid" "has_tenant (w_db w) t"
    using authorize_artifact_in [OF auth] g
    by (auto simp: graph_ok_def refs_ok_def artifact_in_def has_artifact_def)
  ultimately have "insert_grant_row ?g u = (Inr (), u\<lparr>w_db := (w_db u)\<lparr>t_grants := t_grants (w_db u) @ [?g]\<rparr>\<rparr>)"
    if "w_db u = w_db w" for u
    using fresh act that by (intro insert_grant_ok) (auto simp: ACL_SUBJECT_TYPE_def)
  then show ?thesis
    using assms None fresh find_grant_append [of ?g "t_grants (w_db w)"]
    by (simp add: share_artifact_def mbind_def mlift_def mguard_def mret_def transact_def
        query_or_raise_def query_def mget_def new_id_def utc_now_def assert_row_def find_grant_def)
qed

lemma authorize_cong:
  assumes "find_artifact db' t aid = find_artifact db t aid"
    and "\<And>who. actor = Some who \<Longrightarrow> has_grant db' t aid who act = has_grant db t aid who act"
  shows "authorize db' t aid actor act = authorize db t aid actor act"
  using assms by (simp add: authorize_def split: option.split)

lemma share_authorizes:
  assumes "share_artifact E t aid who subject act why auth w = (Inr g, w')"
  shows "authorize (w_db w') t aid (Some subject) act = Inr ()"
proof -
  note c = share_cases [OF assms]
  have "find_artifact (w_db w') t aid = find_artifact (w_db w) t aid"
    using c(1) by (auto simp: add_grant_def)
  moreover have "has_grant (w_db w') t aid subject act"
    using c(1) by (fastforce simp: has_grant_iff find_active_grant_def find_Some_iff add_grant_def)
  moreover obtain a where "find_artifact (w_db w) t aid = Some a" using c(4) by (auto simp: authorize_Inr)
  ultimately show ?thesis
    using c(3,5,6) find_artifact_Some [of "w_db w" t aid a]
    by (auto simp: authorize_Inr actor_ok_def permits_def)
qed

lemma find_last: "List.find P xs = None \<Longrightarrow> P x \<Longrightarrow> List.find P (xs @ [x]) = Some x"
  by (induction xs) (auto split: if_splits)

lemma revoke_result:
  assumes row: "List.find (\<lambda>g. g_id g = gid \<and> g_tenant g = t \<and> g_artifact g = aid) (t_grants (w_db w)) = Some row"
    and ne: "gid \<noteq> owner_grant_id aid (g_action row)"
    and v: "validate_text ''grant_id'' gid MAX_NAME_LENGTH = Inr v1"
      "validate_text ''reason'' why MAX_REASON_LENGTH = Inr v2"
    and auth: "authorize (w_db w) t aid (request_actor who auth) ''share'' = Inr ()"
  shows "\<exists>g w'. revoke_share E t aid who gid why auth w = (Inr g, w')"
proof -
  have r: "row \<in> set (t_grants (w_db w))" "g_id row = gid" using row by (auto simp: find_Some_iff)
  have f: "find_grant db gid \<noteq> None" if "gid \<in> g_id ` set (t_grants db)" for db
    using that by (auto simp: find_grant_def find_None_iff)
  have ids: "g_id ` set (revoked_rows who now why gid gs) = g_id ` set gs" for now gs
    by (induction gs) (auto simp: revoked_rows_def)
  have "gid \<in> g_id ` set (t_grants (w_db w))" using r by auto
  moreover from this have "gid \<in> g_id ` set (revoked_rows who now why gid (t_grants (w_db w)))" for now
    unfolding ids .
  ultimately show ?thesis
    using assms r f [of "w_db w"] f [of "(w_db w)\<lparr>t_grants := revoked_rows who (clock_iso E (w_now w)) why gid (t_grants (w_db w))\<rparr>"]
    by (auto simp: revoke_share_def mbind_def mlift_def mguard_def mret_def transact_def
        query_or_raise_def query_def mget_def utc_now_def assert_row_def set_grant_revoked_def
        execute_def revoked_rows_def [symmetric] split: option.split)
qed

text \<open>A grant to anyone but the owner carries a drawn identifier.\<close>

lemma foreign_grant_drawn:
  assumes g: "graph_ok E w" and x: "x \<in> set (t_grants (w_db w))"
    and a: "a \<in> set (t_artifacts (w_db w))" "a_id a = g_artifact x" "a_owner a \<noteq> g_subject x"
  shows "drawn E w ''grt'' (g_id x)"
proof (rule ccontr)
  assume "\<not> drawn E w ''grt'' (g_id x)"
  with g x obtain act where act: "act \<in> set ACL_ACTIONS" "g_id x = owner_grant_id (a_id a) act"
    using a(2) unfolding graph_ok_def ids_ok_def by metis
  from g a(1) act(1) obtain now where o: "owner_grant (a_tenant a) (a_id a) (a_owner a) act now \<in> set (t_grants (w_db w))"
    unfolding graph_ok_def owned_def by blast
  have "g_id (owner_grant (a_tenant a) (a_id a) (a_owner a) act now) = g_id x"
    using act(2) by (simp add: owner_grant_def)
  with o x g have "owner_grant (a_tenant a) (a_id a) (a_owner a) act now = x"
    by (simp add: graph_ok_def keys_ok_def distinct_map inj_on_def)
  from arg_cong [OF this, of g_subject] a(3) show False by (simp add: owner_grant_def)
qed

lemma sample_share:
  "\<exists>w aid a g w'. graph_ok env0 w \<and> find_artifact (w_db w) ''t'' aid = Some a \<and> a_owner a = ''ann''
    \<and> w_ids w = 3 \<and> t_memberships (w_db w) = Some [member]
    \<and> share_artifact env0 ''t'' aid ''ann'' ''bob'' ''read'' ''why'' None w = (Inr g, w')"
  if "member = \<lparr>mb_issuer = ''i'', mb_subject = ''s'', mb_tenant = ''t'', mb_actor = ''bob'',
    mb_status = ''active'', mb_scopes = ''[]'', mb_created = ''0'', mb_updated = ''0''\<rparr>"
proof -
  from sample_create obtain w0 aid a where w0: "graph_ok env0 w0" "w_ids w0 = 3"
    "find_artifact (w_db w0) ''t'' aid = Some a" "a_owner a = ''ann''" by blast
  let ?w = "w0\<lparr>w_db := (w_db w0)\<lparr>t_memberships := Some [member]\<rparr>\<rparr>"
  have s: "same_graph (w_db w0) (w_db ?w)" by (simp add: same_graph_def)
  then have g: "graph_ok env0 ?w" using graph_ok_framed [OF w0(1)] by (simp add: framed_def)
  have f: "find_artifact (w_db ?w) ''t'' aid = Some a" using same_graph_facts(8) [OF s] w0(3) by simp
  have "authorize (w_db ?w) ''t'' aid (request_actor ''ann'' None) ''share'' = Inr ()"
    using f w0(4) validated_actor [OF env0_valid] by (auto simp: authorize_Inr request_actor_def permits_def)
  moreover have "is_active_member (w_db ?w) ''t'' ''bob''" by (simp add: is_active_member_def that)
  ultimately have "\<exists>g w'. share_artifact env0 ''t'' aid ''ann'' ''bob'' ''read'' ''why'' None ?w = (Inr g, w')"
    by (intro share_result [OF env0_ok g])
      (simp_all add: validate_text_def strip_def lstrip_def is_space_def ord_of_def MAX_NAME_LENGTH_def
        MAX_REASON_LENGTH_def OWNER_GRANT_REASON_def casefold_def lower_char_def Let_def)
  with g f w0 show ?thesis by fastforce
qed

text \<open>Sharing is granted exactly what was asked: after \<open>share_artifact\<close> returns, the subject passes
  the check for the shared action on that artifact, and every decision of the check for any other actor
  or action is what it was before.\<close>

theorem share_grants_exactly:
  assumes "share_artifact E t aid who subject act why auth w = (Inr g, w')"
  shows "authorize (w_db w') t aid (Some subject) act = Inr () \<and>
    (\<forall>t2 aid2 actor2 act2. (t2, aid2, actor2, act2) = (t, aid, Some subject, act)
       \<or> authorize (w_db w') t2 aid2 actor2 act2 = authorize (w_db w) t2 aid2 actor2 act2)"
proof (intro conjI allI)
  show "authorize (w_db w') t aid (Some subject) act = Inr ()" using share_authorizes [OF assms] .
  fix t2 aid2 actor2 act2
  note c = share_cases(1) [OF assms]
  show "(t2, aid2, actor2, act2) = (t, aid, Some subject, act)
       \<or> authorize (w_db w') t2 aid2 actor2 act2 = authorize (w_db w) t2 aid2 actor2 act2"
  proof (cases "(t2, aid2, actor2, act2) = (t, aid, Some subject, act)")
    case False
    have "authorize (w_db w') t2 aid2 actor2 act2 = authorize (w_db w) t2 aid2 actor2 act2"
      by (rule authorize_cong) (use c False in \<open>auto simp: add_grant_def has_grant_iff\<close>)
    then show ?thesis by blast
  qed simp
qed

lemma share_grants_exactly_witness:
  "\<exists>w aid. authorize w ''t'' aid (Some ''bob'') ''read'' = Inr ()"
proof -
  obtain w aid g w' where "share_artifact env0 ''t'' aid ''ann'' ''bob'' ''read'' ''why'' None w = (Inr g, w')"
    using sample_share [OF refl] by blast
  from share_grants_exactly [OF this] show ?thesis by blast
qed

text \<open>Sharing twice is sharing once: repeating a successful \<open>share_artifact\<close> returns the same
  grant and changes nothing, not even the identifier and clock counters.\<close>

theorem share_idempotent:
  assumes "share_artifact E t aid who subject act why auth w = (Inr g, w')"
  shows "share_artifact E t aid who subject act why auth w' = (Inr g, w')"
proof -
  note c = share_cases [OF assms]
  obtain v where v: "validate_text ''subject_actor_id'' subject MAX_NAME_LENGTH = Inr v"
    "validate_text ''reason'' why MAX_REASON_LENGTH = Inr why"
    "casefold (strip why) \<noteq> casefold OWNER_GRANT_REASON"
    using assms by (auto simp: share_artifact_def run_simps validate_text_Inr split: if_splits)
  have "find_active_grant (w_db w') t aid subject act = Some g"
    using c(1) by (auto simp: find_active_grant_def add_grant_def intro!: find_last)
  moreover have "is_active_member (w_db w') t subject"
    using c(1,2) by (auto simp: is_active_member_def add_grant_def)
  moreover have "authorize (w_db w') t aid (request_actor who auth) ''share'' = Inr ()"
  proof -
    from c(4) obtain a where a: "find_artifact (w_db w) t aid = Some a" "actor_ok (request_actor who auth)"
      "permits (w_db w) (request_actor who auth) ''share'' a" by (auto simp: authorize_Inr)
    then have "find_artifact (w_db w') t aid = Some a" using c(1) by (auto simp: add_grant_def)
    moreover have "permits (w_db w') (request_actor who auth) ''share'' a"
      using a(3) c(1) by (auto simp: permits_def has_grant_iff add_grant_def split: option.splits)
    ultimately show ?thesis using a(2) by (simp add: authorize_Inr)
  qed
  ultimately show ?thesis
    using v c(3) by (simp add: share_artifact_def mbind_def mlift_def mguard_def mret_def transact_def
        query_or_raise_def query_def mget_def)
qed

lemma share_idempotent_witness:
  "\<exists>w aid g. share_artifact env0 ''t'' aid ''ann'' ''bob'' ''read'' ''why'' None w = (Inr g, w)"
proof -
  obtain w aid g w' where "share_artifact env0 ''t'' aid ''ann'' ''bob'' ''read'' ''why'' None w = (Inr g, w')"
    using sample_share [OF refl] by blast
  from share_idempotent [OF this] show ?thesis by blast
qed

text \<open>Revocation takes effect at once: revoking an active grant of a subject who is not the owner
  makes the check fail for that subject and action, with the error of a missing artifact.\<close>

theorem revoke_denies:
  assumes g: "graph_ok E w"
    and run: "revoke_share E t aid who gid why auth w = (Inr row', w')"
    and row: "row \<in> set (t_grants (w_db w))" "g_id row = gid" "g_status row = ''active''"
    and owner: "\<And>a. a \<in> set (t_artifacts (w_db w)) \<Longrightarrow> a_id a = aid \<Longrightarrow> a_owner a \<noteq> g_subject row"
    and ok: "actor_ok (Some (g_subject row))" "g_action row \<in> set ACL_ACTIONS"
  shows "authorize (w_db w') t aid (Some (g_subject row)) (g_action row)
    = Inl (FolioError ''artifact not found'')"
proof (rule authorize_Inl [OF ok(2,1)], rule notI, elim exE conjE)
  fix a assume a: "find_artifact (w_db w') t aid = Some a" "permits (w_db w') (Some (g_subject row)) (g_action row) a"
  obtain now row2 where r2: "row2 \<in> set (t_grants (w_db w))" "g_id row2 = gid" "g_tenant row2 = t" "g_artifact row2 = aid"
    and up: "g_status row2 = ''active'' \<and> w' = w\<lparr>w_db := (w_db w)\<lparr>t_grants :=
         revoked_rows who now why gid (t_grants (w_db w))\<rparr>, w_now := Suc (w_now w)\<rparr>
       \<or> g_status row2 \<noteq> ''active'' \<and> w' = w"
    by (rule revoke_cases [OF run]) blast
  have keys: "keys_ok (w_db w)" "refs_ok (w_db w)" using g by (simp_all add: graph_ok_def)
  then have eq: "row2 = row" using r2 row by (auto simp: keys_ok_def distinct_map inj_on_def)
  with up row(3) have db: "w_db w' = (w_db w)\<lparr>t_grants := revoked_rows who now why gid (t_grants (w_db w))\<rparr>"
    by auto
  with a(1) have "find_artifact (w_db w) t aid = Some a" by simp
  with a(2) owner find_artifact_Some [OF this] have "has_grant (w_db w') t aid (g_subject row) (g_action row)"
    by (auto simp: permits_def)
  then obtain x where x: "x \<in> set (t_grants (w_db w))" "g_id x \<noteq> gid" "g_status x = ''active''"
    "grant_key x = grant_key row"
    using keys(2) row(1) r2 eq by (auto simp: has_grant_iff db revoked_rows_def grant_key_def refs_ok_def split: if_splits)
  with row keys(1) have "x = row"
    by (auto simp: keys_ok_def active_grants_def distinct_map inj_on_def)
  with x row show False by simp
qed

lemma revoke_denies_witness:
  "\<exists>w aid. authorize w ''t'' aid (Some ''bob'') ''read'' = Inl (FolioError ''artifact not found'')"
proof -
  obtain w aid a g w' where w: "graph_ok env0 w" "find_artifact (w_db w) ''t'' aid = Some a" "a_owner a = ''ann''"
    "w_ids w = 3" and run: "share_artifact env0 ''t'' aid ''ann'' ''bob'' ''read'' ''why'' None w = (Inr g, w')"
    using sample_share [OF refl] by blast
  note c = share_cases [OF run]
  have g': "graph_ok env0 w'" using steps_byD [OF sound_share run] w(1) by (simp add: keeps_graph_def)
  have f': "find_artifact (w_db w') ''t'' aid = Some a" using c(1) w(2) by (auto simp: add_grant_def)
  note a = find_artifact_Some [OF f']
  have gr: "g \<in> set (t_grants (w_db w'))" "g_tenant g = ''t''" "g_artifact g = aid" "g_subject g = ''bob''"
    "g_action g = ''read''" "g_status g = ''active''"
    using c(1) by (auto simp: add_grant_def find_active_grant_def find_Some_iff)
  have "drawn env0 w' ''grt'' (g_id g)"
    by (rule foreign_grant_drawn [OF g' gr(1), of a]) (use a gr w(3) in auto)
  moreover have "w_ids w' \<le> 4" using c(1) w(4) by auto
  ultimately obtain n where n: "g_id g = ident env0 ''grt'' n" "n < 4" by (auto simp: drawn_def)
  have "List.find (\<lambda>x. g_id x = g_id g \<and> g_tenant x = ''t'' \<and> g_artifact x = aid) (t_grants (w_db w')) = Some g"
    by (rule find_unique [where f = g_id]) (use g' gr in \<open>auto simp: graph_ok_def keys_ok_def\<close>)
  moreover have "g_id g \<noteq> owner_grant_id aid (g_action g)"
    unfolding n(1) by (simp add: ident_def owner_grant_id_def)
  moreover have "validate_text ''grant_id'' (g_id g) MAX_NAME_LENGTH = Inr (g_id g)"
    "validate_text ''reason'' ''why'' MAX_REASON_LENGTH = Inr ''why''"
    using n(2) unfolding n(1)
    by (simp_all add: ident_def env0_def validate_text_def strip_def lstrip_def is_space_def ord_of_def
        MAX_NAME_LENGTH_def MAX_REASON_LENGTH_def)
  moreover have "authorize (w_db w') ''t'' aid (request_actor ''ann'' None) ''share'' = Inr ()"
    using f' w(3) validated_actor [OF env0_valid] by (auto simp: authorize_Inr request_actor_def permits_def)
  ultimately obtain h w'' where rv: "revoke_share env0 ''t'' aid ''ann'' (g_id g) ''why'' None w' = (Inr h, w'')"
    using revoke_result by blast
  have "a_owner b \<noteq> g_subject g" if "b \<in> set (t_artifacts (w_db w'))" "a_id b = aid" for b
  proof -
    have "b = a" using that a g' by (auto simp: graph_ok_def keys_ok_def distinct_map inj_on_def)
    with w(3) gr(4) show ?thesis by simp
  qed
  moreover have "actor_ok (Some (g_subject g))"
    using gr(4) by (simp add: actor_ok_def strip_def lstrip_def is_space_def ord_of_def)
  ultimately have "authorize (w_db w'') ''t'' aid (Some (g_subject g)) (g_action g)
      = Inl (FolioError ''artifact not found'')"
    using gr by (intro revoke_denies [OF g' rv gr(1) refl gr(6)]) auto
  with gr(4,5) show ?thesis by auto
qed

text \<open>The owner cannot be locked out: in a store that satisfies the invariant, revoking any of the
  three grants that \<open>create_artifact\<close> gave the owner is refused and changes nothing in the database,
  whoever asks.\<close>

theorem owner_grant_irrevocable:
  assumes "graph_ok E w" and "a \<in> set (t_artifacts (w_db w))" and "act \<in> set ACL_ACTIONS"
  shows "(\<exists>e. fst (revoke_share E t aid who (owner_grant_id (a_id a) act) why auth w) = Inl e) \<and>
    w_db (snd (revoke_share E t aid who (owner_grant_id (a_id a) act) why auth w)) = w_db w"
proof -
  let ?id = "owner_grant_id (a_id a) act"
  obtain r w' where run: "revoke_share E t aid who ?id why auth w = (r, w')"
    by (cases "revoke_share E t aid who ?id why auth w")
  have "r \<noteq> Inr x" for x
  proof
    assume "r = Inr x"
    with run obtain row where row: "row \<in> set (t_grants (w_db w))" "g_id row = ?id" "g_artifact row = aid"
      "?id \<noteq> owner_grant_id aid (g_action row)"
      using revoke_cases [of E t aid who ?id why auth w x w'] by metis
    obtain now where "owner_grant (a_tenant a) (a_id a) (a_owner a) act now \<in> set (t_grants (w_db w))"
      using assms unfolding graph_ok_def owned_def by blast
    moreover have "g_id (owner_grant (a_tenant a) (a_id a) (a_owner a) act now) = ?id"
      by (simp add: owner_grant_def)
    ultimately have e: "row = owner_grant (a_tenant a) (a_id a) (a_owner a) act now"
      using row(1,2) assms(1) by (simp add: graph_ok_def keys_ok_def distinct_map inj_on_def)
    from row(3,4) show False unfolding e by (simp add: owner_grant_def)
  qed
  then obtain e where "r = Inl e" by (cases r) auto
  with run revoke_error show ?thesis by fastforce
qed

lemma owner_grant_irrevocable_witness:
  "\<exists>w aid e. fst (revoke_share env0 ''t'' aid ''ann'' (owner_grant_id aid ''read'') ''why'' None w) = Inl e"
proof -
  obtain w aid a where w: "graph_ok env0 w" "find_artifact (w_db w) ''t'' aid = Some a"
    using sample_create by blast
  from find_artifact_Some [OF w(2)] owner_grant_irrevocable [OF w(1), of a "''read''"]
  show ?thesis by (metis actions_simps(1))
qed

text \<open>Grants go to members only: where the tenant database has a membership table,
  \<open>share_artifact\<close> returns only for a subject with an active membership row in that tenant.\<close>

theorem share_members_only:
  assumes "share_artifact E t aid who subject act why auth w = (Inr g, w')"
    and "t_memberships (w_db w) = Some rows"
  shows "\<exists>m \<in> set rows. mb_tenant m = t \<and> mb_actor m = subject \<and> mb_status m = ''active''"
  using share_cases(2) [OF assms(1)] assms(2) by (auto simp: is_active_member_def list_ex_iff)

lemma share_members_only_witness:
  "\<exists>w aid g w'. share_artifact env0 ''t'' aid ''ann'' ''bob'' ''read'' ''why'' None w = (Inr g, w') \<and>
    (\<exists>rows. t_memberships (w_db w) = Some rows \<and> (\<exists>m \<in> set rows. mb_actor m = ''bob''))"
proof -
  obtain w aid g w' m where run: "share_artifact env0 ''t'' aid ''ann'' ''bob'' ''read'' ''why'' None w = (Inr g, w')"
    and rows: "t_memberships (w_db w) = Some [m]"
    using sample_share [OF refl] by blast
  from share_members_only [OF run rows] run rows show ?thesis by blast
qed

end
