(* ===== verification/Graph.thy ===== *)
theory Graph
  imports Sharing
begin

text \<open>
  The artifact graph (\<open>service.py\<close>): \<open>link\<close>, the bounded breadth-first search behind
  \<open>_component_ids\<close>, its variant \<open>_readable_graph_paths\<close> that also records a path to each node,
  \<open>graph_component\<close> and \<open>traverse\<close>. The searches follow only edges of the tenant whose far end
  the actor may read; they stop at their limits, and below the limit they miss nothing.
\<close>

section \<open>Linking\<close>

record edge_view =
  ew_id :: string
  ew_source :: string
  ew_target :: string
  ew_type :: string
  ew_created :: string
  ew_metadata :: json

definition view_edge :: "edge_row \<Rightarrow> py_exn + edge_view" where
  "view_edge e =
     (case loads (e_metadata e) of
        None \<Rightarrow> Inl (ValueError ''JSONDecodeError'')
      | Some m \<Rightarrow> Inr \<lparr>ew_id = e_id e, ew_source = e_source e, ew_target = e_target e,
          ew_type = e_type e, ew_created = e_created e, ew_metadata = m\<rparr>)"

definition find_edge :: "database \<Rightarrow> string \<Rightarrow> string \<Rightarrow> string \<Rightarrow> string \<Rightarrow> edge_row option" where
  "find_edge db tenant src tgt etype =
     List.find (\<lambda>e. e_tenant e = tenant \<and> e_source e = src \<and> e_target e = tgt \<and> e_type e = etype)
       (t_edges db)"

definition check_endpoint ::
    "database \<Rightarrow> string \<Rightarrow> string \<Rightarrow> string option \<Rightarrow> py_exn + unit" where
  "check_endpoint db tenant aid actor =
     (if find_artifact db tenant aid = None then Inl (FolioError ''artifact not found'')
      else authorize db tenant aid actor ''write'')"

definition link ::
    "env \<Rightarrow> string \<Rightarrow> string \<Rightarrow> string \<Rightarrow> string \<Rightarrow> json option \<Rightarrow> string option \<Rightarrow>
     (world, edge_view) action" where
  "link E tenant src tgt etype metadata actor =
     mbind (mguard (src = tgt) (FolioError ''self-links are not allowed'')) (\<lambda>_.
     mbind (mlift (validate_text ''edge_type'' etype MAX_EDGE_TYPE_LENGTH)) (\<lambda>_.
     mbind (mlift (json_text (or_empty metadata) ''metadata'')) (\<lambda>meta.
     mbind (transact (
       mbind (query_or_raise (\<lambda>db. check_endpoint db tenant src actor)) (\<lambda>_.
       mbind (query_or_raise (\<lambda>db. check_endpoint db tenant tgt actor)) (\<lambda>_.
       mbind (query (\<lambda>db. find_edge db tenant src tgt etype)) (\<lambda>existing.
       case existing of
         Some e \<Rightarrow>
           mbind (mguard (e_metadata e \<noteq> meta)
             (FolioError ''edge already exists with different immutable metadata'')) (\<lambda>_. mret e)
       | None \<Rightarrow>
           mbind (new_id E ''edg'') (\<lambda>eid.
           mbind (utc_now E) (\<lambda>now.
           mbind (insert_edge_row \<lparr>e_id = eid, e_tenant = tenant, e_source = src, e_target = tgt,
                    e_type = etype, e_metadata = meta, e_created = now\<rparr>) (\<lambda>_.
           assert_row (\<lambda>db. List.find (\<lambda>e. e_id e = eid \<and> e_tenant e = tenant) (t_edges db))))))))))
     (\<lambda>e. mlift (view_edge e)))))"

section \<open>Bounded breadth-first search\<close>

text \<open>
  The loop of \<open>_component_ids\<close>: \<open>seen\<close> is the list of visited nodes in the order they were found
  (the code keeps it twice, as a set for membership and as the list \<open>ordered\<close>). \<open>absorb\<close> is the
  inner loop over the rows of one node; it stops as soon as the limit is reached.
\<close>

fun absorb :: "nat \<Rightarrow> 'a list \<Rightarrow> 'a list \<Rightarrow> 'a list \<Rightarrow> 'a list \<times> 'a list" where
  "absorb cap [] seen queue = (seen, queue)"
| "absorb cap (r # rs) seen queue =
     (if r \<in> set seen then absorb cap rs seen queue
      else if cap \<le> Suc (length seen) then (seen @ [r], queue @ [r])
      else absorb cap rs (seen @ [r]) (queue @ [r]))"

lemma absorb_extends:
  "\<exists>new. absorb cap rs seen queue = (seen @ new, queue @ new) \<and> set new \<subseteq> set rs
    \<and> (distinct seen \<longrightarrow> distinct (seen @ new))
    \<and> (length seen < cap \<longrightarrow> length (seen @ new) \<le> cap
         \<and> (set rs \<subseteq> set (seen @ new) \<or> length (seen @ new) = cap))"
proof (induction cap rs seen queue rule: absorb.induct)
  case (2 cap r rs seen queue)
  show ?case
  proof (cases "r \<in> set seen")
    case True
    with "2.IH"(1) show ?thesis by fastforce
  next
    case new: False
    show ?thesis
    proof (cases "cap \<le> Suc (length seen)")
      case True
      with new show ?thesis by (intro exI [of _ "[r]"]) auto
    next
      case False
      from "2.IH"(2) [OF new False] obtain xs where
        "absorb cap rs (seen @ [r]) (queue @ [r]) = (seen @ [r] @ xs, queue @ [r] @ xs)"
        "set xs \<subseteq> set rs" "distinct (seen @ [r]) \<longrightarrow> distinct (seen @ [r] @ xs)"
        "length (seen @ [r]) < cap \<longrightarrow> length (seen @ [r] @ xs) \<le> cap
          \<and> (set rs \<subseteq> set (seen @ [r] @ xs) \<or> length (seen @ [r] @ xs) = cap)"
        by auto
      with new False show ?thesis by (intro exI [of _ "r # xs"]) auto
    qed
  qed
qed simp

function search_from :: "('a \<Rightarrow> 'a list) \<Rightarrow> nat \<Rightarrow> 'a list \<Rightarrow> 'a list \<Rightarrow> 'a list" where
  "search_from nbr cap seen [] = seen"
| "search_from nbr cap seen (q # queue) =
     (if length seen < cap
      then (case absorb cap (nbr q) seen queue of (seen', queue') \<Rightarrow> search_from nbr cap seen' queue')
      else seen)"
  by pat_completeness auto

text \<open>A round takes one node off the queue and adds as many as it discovers, which the limit
  bounds.\<close>

termination
proof (relation "measure (\<lambda>(nbr, cap, seen, queue). 2 * (cap - length seen) + length queue)")
  fix nbr :: "'a \<Rightarrow> 'a list" and cap seen q queue seen' queue'
  assume "length seen < cap" and p: "(seen', queue') = absorb cap (nbr q) seen queue"
  with absorb_extends [of cap "nbr q" seen queue] obtain new where
    "seen' = seen @ new" "queue' = queue @ new" "length (seen @ new) \<le> cap"
    by (metis prod.inject)
  then show "((nbr, cap, seen', queue'), (nbr, cap, seen, q # queue))
      \<in> measure (\<lambda>(nbr, cap, seen, queue). 2 * (cap - length seen) + length queue)"
    by auto
qed simp

definition neighbour_rel :: "('a \<Rightarrow> 'a list) \<Rightarrow> ('a \<times> 'a) set" where
  "neighbour_rel nbr = {(x, y). y \<in> set (nbr x)}"

text \<open>Sound: what is found is reachable and found once, and the limit holds.\<close>

lemma search_from_sound:
  assumes "distinct seen" "set queue \<subseteq> set seen" "length seen \<le> cap"
    and "set seen \<subseteq> (neighbour_rel nbr)\<^sup>* `` {start}"
  shows "distinct (search_from nbr cap seen queue) \<and> length (search_from nbr cap seen queue) \<le> cap
    \<and> set seen \<subseteq> set (search_from nbr cap seen queue)
    \<and> set (search_from nbr cap seen queue) \<subseteq> (neighbour_rel nbr)\<^sup>* `` {start}"
  using assms
proof (induction nbr cap seen queue rule: search_from.induct)
  case (2 nbr cap seen q queue)
  show ?case
  proof (cases "length seen < cap")
    case True
    obtain new where new: "absorb cap (nbr q) seen queue = (seen @ new, queue @ new)"
      "set new \<subseteq> set (nbr q)" "distinct (seen @ new)" "length (seen @ new) \<le> cap"
      using absorb_extends [of cap "nbr q" seen queue] 2(2) True by blast
    have "(start, y) \<in> (neighbour_rel nbr)\<^sup>*" if "y \<in> set new" for y
    proof -
      have "(start, q) \<in> (neighbour_rel nbr)\<^sup>*" using 2(3,5) by auto
      moreover have "(q, y) \<in> neighbour_rel nbr" using new(2) that by (auto simp: neighbour_rel_def)
      ultimately show ?thesis by (rule rtrancl_into_rtrancl)
    qed
    then have R: "set (seen @ new) \<subseteq> (neighbour_rel nbr)\<^sup>* `` {start}" using 2(5) by auto
    have Q: "set (queue @ new) \<subseteq> set (seen @ new)" using 2(3) by auto
    from "2.IH" [OF True new(1) [symmetric] new(3) Q new(4) R] new(1) True show ?thesis by auto
  qed (use 2 in simp)
qed simp

text \<open>Complete: below the limit, everything reachable from a visited node is found.\<close>

lemma search_from_closed:
  assumes "\<And>x y. x \<in> set seen \<Longrightarrow> x \<notin> set queue \<Longrightarrow> y \<in> set (nbr x) \<Longrightarrow> y \<in> set seen"
    and "set queue \<subseteq> set seen" "length (search_from nbr cap seen queue) < cap"
    and "x \<in> set (search_from nbr cap seen queue)" "y \<in> set (nbr x)"
  shows "y \<in> set (search_from nbr cap seen queue)"
  using assms
proof (induction nbr cap seen queue rule: search_from.induct)
  case (2 nbr cap seen q queue)
  show ?case
  proof (cases "length seen < cap")
    case True
    obtain new where new: "absorb cap (nbr q) seen queue = (seen @ new, queue @ new)"
      "set new \<subseteq> set (nbr q)" "set (nbr q) \<subseteq> set (seen @ new) \<or> length (seen @ new) = cap"
      using absorb_extends [of cap "nbr q" seen queue] True by blast
    have eq: "search_from nbr cap seen (q # queue) = search_from nbr cap (seen @ new) (queue @ new)"
      using True new(1) by simp
    have "length (seen @ new) \<noteq> cap"
    proof
      assume "length (seen @ new) = cap"
      then have "search_from nbr cap (seen @ new) (queue @ new) = seen @ new"
        by (cases "queue @ new") simp_all
      with eq 2(4) \<open>length (seen @ new) = cap\<close> show False by simp
    qed
    with new(3) have all: "set (nbr q) \<subseteq> set (seen @ new)" by blast
    show ?thesis
      unfolding eq
    proof (rule "2.IH" [OF True new(1) [symmetric]])
      show "y \<in> set (seen @ new)" if "x \<in> set (seen @ new)" "x \<notin> set (queue @ new)" "y \<in> set (nbr x)" for x y
        using 2(2) [of x y] all that by (cases "x = q") auto
    qed (use 2 eq in auto)
  qed (use 2 in simp)
qed simp

lemma search_from_complete:
  assumes "length (search_from nbr cap [start] [start]) < cap"
  shows "set (search_from nbr cap [start] [start]) = (neighbour_rel nbr)\<^sup>* `` {start}"
proof
  have "1 \<le> cap" using assms by (cases cap) auto
  then show "set (search_from nbr cap [start] [start]) \<subseteq> (neighbour_rel nbr)\<^sup>* `` {start}"
    using search_from_sound [of "[start]" "[start]" cap nbr start] by simp
  have start: "start \<in> set (search_from nbr cap [start] [start])"
    using search_from_sound [of "[start]" "[start]" cap nbr start] \<open>1 \<le> cap\<close> by simp
  show "(neighbour_rel nbr)\<^sup>* `` {start} \<subseteq> set (search_from nbr cap [start] [start])"
  proof
    fix y assume "y \<in> (neighbour_rel nbr)\<^sup>* `` {start}"
    then have "(start, y) \<in> (neighbour_rel nbr)\<^sup>*" by simp
    then show "y \<in> set (search_from nbr cap [start] [start])"
    proof (induction rule: rtrancl_induct)
      case (step u v)
      then show ?case
        using search_from_closed [where seen = "[start]" and queue = "[start]" and x = u and y = v] assms
        by (auto simp: neighbour_rel_def)
    qed (rule start)
  qed
qed

section \<open>The searches of the service\<close>

text \<open>The rows of the neighbour query: the tenant's edges at \<open>cur\<close> in the order of their creation,
  each joined with the artifact at its far end if the access clause \<open>ok\<close> admits it.\<close>

definition incident :: "database \<Rightarrow> string \<Rightarrow> string \<Rightarrow> edge_row list" where
  "incident db tenant cur = sort_key (\<lambda>e. (e_created e, e_id e))
     (filter (\<lambda>e. e_tenant e = tenant \<and> (e_source e = cur \<or> e_target e = cur)) (t_edges db))"

definition neighbour_rows ::
    "database \<Rightarrow> string \<Rightarrow> (database \<Rightarrow> artifact_row \<Rightarrow> bool) \<Rightarrow> string \<Rightarrow> artifact_row list" where
  "neighbour_rows db tenant ok cur =
     concat (map (\<lambda>e. filter (\<lambda>a. a_tenant a = e_tenant e \<and> a_id a \<noteq> cur
         \<and> (a_id a = e_source e \<or> a_id a = e_target e) \<and> ok db a) (t_artifacts db))
       (incident db tenant cur))"

definition component_ids ::
    "database \<Rightarrow> string \<Rightarrow> string \<Rightarrow> int \<Rightarrow> string option \<Rightarrow> py_exn + string list" where
  "component_ids db tenant start limit actor =
     ebind (authorize db tenant start actor ''read'') (\<lambda>_.
     ebind (access_clause actor ''read'') (\<lambda>ok.
     Inr (search_from (\<lambda>cur. map a_id (neighbour_rows db tenant ok cur))
       (clamp 1 MAX_GRAPH_COMPONENT_NODES limit) [start] [start])))"

definition current_row :: "database \<Rightarrow> artifact_row \<Rightarrow> version_row option" where
  "current_row db a =
     List.find (\<lambda>v. Some (v_id v) = a_current a \<and> v_tenant v = a_tenant a) (t_versions db)"

text \<open>\<open>context.get("path") or context.get("file_path") or context.get("filename") or name\<close>\<close>

definition first_truthy :: "json option list \<Rightarrow> json \<Rightarrow> json" where
  "first_truthy vs d = (case filter (\<lambda>v. case v of Some j \<Rightarrow> jtruthy j | None \<Rightarrow> False) vs of
     Some j # _ \<Rightarrow> j | _ \<Rightarrow> d)"

definition context_path :: "json \<Rightarrow> string \<Rightarrow> json" where
  "context_path ctx name =
     first_truthy [jget ctx ''path'', jget ctx ''file_path'', jget ctx ''filename''] (JStr name)"

definition search_path :: "string \<Rightarrow> string \<Rightarrow> string" where
  "search_path name source_context =
     (let ctx = (case loads source_context of None \<Rightarrow> JObj [] | Some c \<Rightarrow> c) in
      if jis_obj ctx then py_str (context_path ctx name) else name)"

record path_node =
  pn_artifact :: string
  pn_name :: string
  pn_path :: string

definition node_of :: "artifact_row \<times> version_row \<Rightarrow> path_node" where
  "node_of = (\<lambda>(a, v). \<lparr>pn_artifact = a_id a, pn_name = a_name a,
     pn_path = search_path (a_name a) (v_context v)\<rparr>)"

type_synonym path_map = "(string \<times> path_node list) list"

fun absorb_paths ::
    "nat \<Rightarrow> path_node list \<Rightarrow> (artifact_row \<times> version_row) list \<Rightarrow> path_map \<Rightarrow> string list \<Rightarrow>
     path_map \<times> string list" where
  "absorb_paths cap here [] paths queue = (paths, queue)"
| "absorb_paths cap here (r # rs) paths queue =
     (if a_id (fst r) \<in> fst ` set paths then absorb_paths cap here rs paths queue
      else let paths' = paths @ [(a_id (fst r), here @ [node_of r])]; queue' = queue @ [a_id (fst r)]
           in if cap \<le> length paths' then (paths', queue')
              else absorb_paths cap here rs paths' queue')"

lemma absorb_paths_extends:
  "\<exists>new. absorb_paths cap here rs paths queue = (paths @ new, queue @ map fst new)
    \<and> (length paths < cap \<longrightarrow> length (paths @ new) \<le> cap)
    \<and> absorb cap (map (\<lambda>r. a_id (fst r)) rs) (map fst paths) queue = (map fst (paths @ new), queue @ map fst new)
    \<and> (\<forall>x \<in> set new. \<exists>r \<in> set rs. x = (a_id (fst r), here @ [node_of r]))"
proof (induction cap here rs paths queue rule: absorb_paths.induct)
  case (2 cap here r rs paths queue)
  let ?p = "(a_id (fst r), here @ [node_of r])"
  consider "a_id (fst r) \<in> fst ` set paths"
    | "a_id (fst r) \<notin> fst ` set paths" "cap \<le> length (paths @ [?p])"
    | "a_id (fst r) \<notin> fst ` set paths" "\<not> cap \<le> length (paths @ [?p])" by blast
  then show ?case
  proof cases
    case 1
    from "2.IH"(1) [OF 1] obtain new where
      "absorb_paths cap here rs paths queue = (paths @ new, queue @ map fst new)"
      "length paths < cap \<longrightarrow> length (paths @ new) \<le> cap"
      "absorb cap (map (\<lambda>r. a_id (fst r)) rs) (map fst paths) queue = (map fst (paths @ new), queue @ map fst new)"
      "\<forall>x \<in> set new. \<exists>r \<in> set rs. x = (a_id (fst r), here @ [node_of r])" by metis
    with 1 show ?thesis by (intro exI [of _ new]) simp
  next
    case 2
    then show ?thesis by (intro exI [of _ "[?p]"]) auto
  next
    case 3
    from "2.IH"(2) [OF 3(1) refl refl 3(2)] obtain xs where
      "absorb_paths cap here rs (paths @ [?p]) (queue @ [a_id (fst r)])
         = ((paths @ [?p]) @ xs, (queue @ [a_id (fst r)]) @ map fst xs)"
      "length (paths @ [?p]) < cap \<longrightarrow> length ((paths @ [?p]) @ xs) \<le> cap"
      "absorb cap (map (\<lambda>r. a_id (fst r)) rs) (map fst (paths @ [?p])) (queue @ [a_id (fst r)])
         = (map fst ((paths @ [?p]) @ xs), (queue @ [a_id (fst r)]) @ map fst xs)"
      "\<forall>x \<in> set xs. \<exists>r \<in> set rs. x = (a_id (fst r), here @ [node_of r])"
      by metis
    with 3 show ?thesis by (intro exI [of _ "?p # xs"]) simp
  qed
qed simp

function paths_from ::
    "(string \<Rightarrow> (artifact_row \<times> version_row) list) \<Rightarrow> nat \<Rightarrow> path_map \<Rightarrow> string list \<Rightarrow> path_map" where
  "paths_from rows cap paths [] = paths"
| "paths_from rows cap paths (q # queue) =
     (if length paths < cap
      then (case absorb_paths cap (the (map_of paths q)) (rows q) paths queue of
              (paths', queue') \<Rightarrow> paths_from rows cap paths' queue')
      else paths)"
  by pat_completeness auto

termination
proof (relation "measure (\<lambda>(rows, cap, paths, queue). 2 * (cap - length paths) + length queue)")
  fix rows :: "string \<Rightarrow> (artifact_row \<times> version_row) list" and cap paths q queue paths' queue'
  assume "length paths < cap"
    and "(paths', queue') = absorb_paths cap (the (map_of paths q)) (rows q) paths queue"
  with absorb_paths_extends [of cap "the (map_of paths q)" "rows q" paths queue] obtain new where
    "paths' = paths @ new" "queue' = queue @ map fst new" "length (paths @ new) \<le> cap"
    by (metis prod.inject)
  then show "((rows, cap, paths', queue'), (rows, cap, paths, q # queue))
      \<in> measure (\<lambda>(rows, cap, paths, queue). 2 * (cap - length paths) + length queue)"
    by auto
qed simp

definition path_rows ::
    "database \<Rightarrow> string \<Rightarrow> (database \<Rightarrow> artifact_row \<Rightarrow> bool) \<Rightarrow> string \<Rightarrow>
     (artifact_row \<times> version_row) list" where
  "path_rows db tenant ok cur =
     concat (map (\<lambda>a. case current_row db a of None \<Rightarrow> [] | Some v \<Rightarrow> [(a, v)])
       (neighbour_rows db tenant ok cur))"

definition readable_graph_paths ::
    "database \<Rightarrow> string \<Rightarrow> string \<Rightarrow> string option \<Rightarrow> py_exn + path_map" where
  "readable_graph_paths db tenant start actor =
     ebind (authorize db tenant start actor ''read'') (\<lambda>_.
     ebind (access_clause actor ''read'') (\<lambda>ok.
     case List.find (\<lambda>a. a_tenant a = tenant \<and> a_id a = start \<and> ok db a \<and> current_row db a \<noteq> None)
       (t_artifacts db) of
       None \<Rightarrow> Inl (FolioError ''artifact not found'')
     | Some a \<Rightarrow> Inr (paths_from (path_rows db tenant ok) MAX_GRAPH_COMPONENT_NODES
         [(a_id a, [node_of (a, the (current_row db a))])] [a_id a])))"

record component_view =
  cw_id :: string
  cw_name :: string
  cw_media :: string
  cw_created :: string
  cw_current :: "string option"
  cw_updated :: "string option"

definition view_component :: "database \<Rightarrow> artifact_row \<Rightarrow> component_view" where
  "view_component db a = \<lparr>cw_id = a_id a, cw_name = a_name a, cw_media = a_media a,
     cw_created = a_created a, cw_current = a_current a,
     cw_updated = map_option v_created (current_row db a)\<rparr>"

text \<open>\<open>by_id\<close> is the dictionary of the rows; a later row of the same id would overwrite.\<close>

definition graph_component ::
    "database \<Rightarrow> string \<Rightarrow> string \<Rightarrow> int \<Rightarrow> string option \<Rightarrow> py_exn + component_view list" where
  "graph_component db tenant start limit actor =
     ebind (component_ids db tenant start limit actor) (\<lambda>ids.
     ebind (access_clause actor ''read'') (\<lambda>ok.
     let rows = filter (\<lambda>a. a_tenant a = tenant \<and> a_id a \<in> set ids \<and> ok db a) (t_artifacts db);
         by_id = fold (\<lambda>a d. AList.update (a_id a) (view_component db a) d) rows []
     in Inr (List.map_filter (map_of by_id) ids)))"

record step_view =
  sv_id :: string
  sv_source :: string
  sv_target :: string
  sv_type :: string
  sv_target_name :: string
  sv_metadata :: json
  sv_depth :: nat

definition outgoing ::
    "database \<Rightarrow> string \<Rightarrow> (database \<Rightarrow> artifact_row \<Rightarrow> bool) \<Rightarrow> string \<Rightarrow>
     (edge_row \<times> artifact_row) list" where
  "outgoing db tenant ok cur =
     concat (map (\<lambda>e. map (Pair e) (filter (\<lambda>a. a_id a = e_target e \<and> a_tenant a = e_tenant e \<and> ok db a)
         (t_artifacts db)))
       (sort_key (\<lambda>e. (e_created e, e_id e))
         (filter (\<lambda>e. e_tenant e = tenant \<and> e_source e = cur) (t_edges db))))"

fun absorb_steps ::
    "nat \<Rightarrow> nat \<Rightarrow> (edge_row \<times> artifact_row) list \<Rightarrow> step_view list \<Rightarrow> string list \<Rightarrow>
     (string \<times> nat) list \<Rightarrow> py_exn + step_view list \<times> string list \<times> (string \<times> nat) list" where
  "absorb_steps cap d [] results seen queue = Inr (results, seen, queue)"
| "absorb_steps cap d ((e, a) # rs) results seen queue =
     (case loads (e_metadata e) of
        None \<Rightarrow> Inl (ValueError ''JSONDecodeError'')
      | Some m \<Rightarrow>
          let results' = results @ [\<lparr>sv_id = e_id e, sv_source = e_source e, sv_target = e_target e,
                sv_type = e_type e, sv_target_name = a_name a, sv_metadata = m, sv_depth = Suc d\<rparr>];
              seen' = (if e_target e \<in> set seen then seen else seen @ [e_target e]);
              queue' = (if e_target e \<in> set seen then queue else queue @ [(e_target e, Suc d)])
          in if cap \<le> length results' then Inr (results', seen', queue')
             else absorb_steps cap d rs results' seen' queue')"

lemma absorb_steps_length:
  "absorb_steps cap d rs results seen queue = Inr (results', seen', queue') \<Longrightarrow>
   length results \<le> length results' \<and> length queue' + length results \<le> length queue + length results'
   \<and> (length results < cap \<longrightarrow> length results' \<le> cap)"
  by (induction cap d rs results seen queue rule: absorb_steps.induct)
    (force simp: Let_def split: option.splits if_splits)+

function steps_from ::
    "(string \<Rightarrow> (edge_row \<times> artifact_row) list) \<Rightarrow> nat \<Rightarrow> nat \<Rightarrow> step_view list \<Rightarrow> string list \<Rightarrow>
     (string \<times> nat) list \<Rightarrow> py_exn + step_view list" where
  "steps_from rows depth cap results seen [] = Inr results"
| "steps_from rows depth cap results seen ((cur, d) # queue) =
     (if length results < cap then
        (if depth \<le> d then steps_from rows depth cap results seen queue
         else (case absorb_steps cap d (rows cur) results seen queue of
                 Inl e \<Rightarrow> Inl e
               | Inr (results', seen', queue') \<Rightarrow> steps_from rows depth cap results' seen' queue'))
      else Inr results)"
  by pat_completeness auto

termination
proof (relation "measure (\<lambda>(rows, depth, cap, results, seen, queue). 2 * (cap - length results) + length queue)")
  fix rows :: "string \<Rightarrow> (edge_row \<times> artifact_row) list"
  fix depth cap results seen and cur :: string and d queue p results' q seen' queue'
  assume lt: "length results < cap"
    and p: "absorb_steps cap d (rows cur) results seen queue = Inr p" "(results', q) = p" "(seen', queue') = q"
  from absorb_steps_length [of cap d "rows cur" results seen queue results' seen' queue'] p lt
  have "length results \<le> length results'" "length queue' + length results \<le> length queue + length results'"
    "length results' \<le> cap" by auto
  with lt show "((rows, depth, cap, results', seen', queue'), (rows, depth, cap, results, seen, (cur, d) # queue))
      \<in> measure (\<lambda>(rows, depth, cap, results, seen, queue). 2 * (cap - length results) + length queue)"
    by auto
qed auto

definition traverse ::
    "world \<Rightarrow> string \<Rightarrow> string \<Rightarrow> int \<Rightarrow> int \<Rightarrow> string option \<Rightarrow> py_exn + step_view list" where
  "traverse w tenant start max_depth limit actor =
     (if max_depth < 0 \<or> 10 < max_depth
      then Inl (FolioError ''max_depth must be between 0 and 10'')
      else ebind (get_artifact w tenant start actor ''read'') (\<lambda>_.
           ebind (access_clause actor ''read'') (\<lambda>ok.
           steps_from (outgoing (w_db w) tenant ok) (nat max_depth) (clamp 1 500 limit) [] [start]
             [(start, 0)])))"

section \<open>Linking keeps the invariant\<close>

lemma view_edge_steps: "steps_by (outer E) (mlift (view_edge e))" by (rule outer.steps_mlift)

lemma steps_link:
  "steps_by (outer E) (link E t src tgt etype meta actor)"
  "steps_by keeps_keys (link E t src tgt etype meta actor)"
  "steps_by grows (link E t src tgt etype meta actor)"
  unfolding link_def assert_row_def
  by (intro outer.world_intros keys.world_intros grows.world_intros steps_keys steps_grows;
      simp add: insert_edge_row_def outer_execute)+

lemma find_edge_append: "List.find (\<lambda>x. e_id x = e_id e \<and> e_tenant x = e_tenant e) (es @ [e]) = Some e"
  if "e_id e \<notin> e_id ` set es"
  using that by (induction es) auto

text \<open>A call of \<open>link\<close> either finds the edge, appends it, or leaves the database alone.\<close>

lemma link_cases:
  assumes "link E t src tgt etype meta actor w = (r, w')"
  shows "w_db w' = w_db w \<or>
    (\<exists>e. w' = w\<lparr>w_db := (w_db w)\<lparr>t_edges := t_edges (w_db w) @ [e]\<rparr>, w_ids := Suc (w_ids w), w_now := Suc (w_now w)\<rparr>
      \<and> e_id e = ident E ''edg'' (w_ids w) \<and> e_tenant e = t \<and> e_source e = src \<and> e_target e = tgt
      \<and> e_type e = etype \<and> src \<noteq> tgt
      \<and> authorize (w_db w) t src actor ''write'' = Inr () \<and> authorize (w_db w) t tgt actor ''write'' = Inr ()
      \<and> find_edge (w_db w) t src tgt etype = None)"
proof -
  let ?body = "\<lambda>mj. mbind (query_or_raise (\<lambda>db. check_endpoint db t src actor)) (\<lambda>_.
       mbind (query_or_raise (\<lambda>db. check_endpoint db t tgt actor)) (\<lambda>_.
       mbind (query (\<lambda>db. find_edge db t src tgt etype)) (\<lambda>existing.
       case existing of
         Some e \<Rightarrow>
           mbind (mguard (e_metadata e \<noteq> mj)
             (FolioError ''edge already exists with different immutable metadata'')) (\<lambda>_. mret e)
       | None \<Rightarrow>
           mbind (new_id E ''edg'') (\<lambda>eid.
           mbind (utc_now E) (\<lambda>now.
           mbind (insert_edge_row \<lparr>e_id = eid, e_tenant = t, e_source = src, e_target = tgt,
                    e_type = etype, e_metadata = mj, e_created = now\<rparr>) (\<lambda>_.
           assert_row (\<lambda>db. List.find (\<lambda>e. e_id e = eid \<and> e_tenant e = t) (t_edges db))))))))"
  have "w_db w' = w_db w \<or> (\<exists>mj e. src \<noteq> tgt \<and> ?body mj w = (Inr e, w'))"
    using assms unfolding link_def
    by (cases r) (auto simp: mbind_Inl_iff mbind_Inr_iff [of "mguard _ _"] mbind_Inr_iff [of "mlift _"]
        mbind_Inr_iff [of "transact _"] mlift_iff mguard_iff transact_Inl transact_Inr split: if_splits)
  then show ?thesis
  proof (elim disjE exE conjE)
    fix mj e assume ne: "src \<noteq> tgt" and run: "?body mj w = (Inr e, w')"
    then have au: "authorize (w_db w) t src actor ''write'' = Inr ()" "authorize (w_db w) t tgt actor ''write'' = Inr ()"
      by (auto simp: run_simps check_endpoint_def split: if_splits)
    show ?thesis
    proof (cases "find_edge (w_db w) t src tgt etype")
      case None
      let ?e = "\<lparr>e_id = ident E ''edg'' (w_ids w), e_tenant = t, e_source = src, e_target = tgt,
          e_type = etype, e_metadata = mj, e_created = clock_iso E (w_now w)\<rparr>"
      from run None have "insert_edge_row ?e (w\<lparr>w_ids := Suc (w_ids w), w_now := Suc (w_now w)\<rparr>) = (Inr (), w')"
        by (auto simp: run_simps assert_row_iff)
      then have "w' = w\<lparr>w_db := (w_db w)\<lparr>t_edges := t_edges (w_db w) @ [?e]\<rparr>, w_ids := Suc (w_ids w), w_now := Suc (w_now w)\<rparr>"
        by (auto simp: insert_edge_row_def execute_iff split: if_splits)
      with ne au None show ?thesis by (intro disjI2 exI [of _ ?e]) simp
    next
      case (Some x)
      with run show ?thesis by (auto simp: run_simps split: if_splits)
    qed
  qed simp
qed

lemma sound_link: "steps_by (keeps_graph E) (link E t src tgt etype meta actor)"
proof (rule steps_byI)
  fix w r w' assume run: "link E t src tgt etype meta actor w = (r, w')"
  show "keeps_graph E w w'"
    unfolding keeps_graph_def
  proof
    assume g: "graph_ok E w"
    note o = steps_byD [OF steps_link(1) run]
    from link_cases [OF run] show "graph_ok E w'"
    proof (elim disjE exE conjE)
      assume "w_db w' = w_db w" with graph_ok_outer [OF g o] show ?thesis .
    next
      fix e assume e: "e_id e = ident E ''edg'' (w_ids w)" "e_tenant e = t" "e_source e = src" "e_target e = tgt"
        "src \<noteq> tgt" "authorize (w_db w) t src actor ''write'' = Inr ()" "authorize (w_db w) t tgt actor ''write'' = Inr ()"
        and w': "w' = w\<lparr>w_db := (w_db w)\<lparr>t_edges := t_edges (w_db w) @ [e]\<rparr>, w_ids := Suc (w_ids w), w_now := Suc (w_now w)\<rparr>"
      have f: "history (w_db w') = history (w_db w)" "version_chunks (w_db w') = version_chunks (w_db w)"
        "artifact_in (w_db w') = artifact_in (w_db w)" "version_in (w_db w') = version_in (w_db w)"
        "has_tenant (w_db w') = has_tenant (w_db w)" "owned (w_db w') = owned (w_db w)"
        by (simp_all add: w' history_def [abs_def] version_chunks_def [abs_def] artifact_in_def [abs_def]
            version_in_def [abs_def] has_tenant_def [abs_def] owned_def [abs_def])
      have d: "drawn E w' ''edg'' (e_id e)" by (auto simp: drawn_def w' e)
      have m: "drawn E w p i \<Longrightarrow> drawn E w' p i" for p i using drawn_mono [of E w p i w'] by (simp add: w')
      have "keys_ok (w_db w')"
        using steps_byD [OF steps_link(2) run] g by (simp add: keeps_keys_def graph_ok_def)
      moreover have "refs_ok (w_db w')"
        using g authorize_artifact_in [OF e(6)] authorize_artifact_in [OF e(7)] e(2-5)
        unfolding graph_ok_def refs_ok_def f by (simp add: w')
      moreover have "\<forall>a \<in> set (t_artifacts (w_db w')). linear (w_db w') a \<and> owned (w_db w') a"
        using g unfolding graph_ok_def linear_def chain_def f by (simp add: w')
      moreover have "\<forall>v \<in> set (t_versions (w_db w')). stored E w' v"
        using g unfolding graph_ok_def stored_def f by (simp add: w')
      moreover have "blobs_ok E w'" using g by (simp add: graph_ok_def blobs_ok_def w')
      moreover have "ids_ok E w'"
        using g d m unfolding graph_ok_def ids_ok_def by (simp add: w') metis
      ultimately show ?thesis by (simp add: graph_ok_def)
    qed
  qed
qed

section \<open>What the searches find\<close>

text \<open>The specification: \<open>y\<close> is one readable step from \<open>x\<close> when an edge of the tenant joins them,
  in either direction, and the actor may read \<open>y\<close>.\<close>

definition readable_step :: "database \<Rightarrow> string \<Rightarrow> string option \<Rightarrow> (string \<times> string) set" where
  "readable_step db t actor = {(x, y). x \<noteq> y \<and>
     (\<exists>e \<in> set (t_edges db). e_tenant e = t \<and> {e_source e, e_target e} = {x, y}) \<and>
     (\<exists>a \<in> set (t_artifacts db). a_id a = y \<and> a_tenant a = t \<and> permits db actor ''read'' a)}"

lemma incident_set: "set (incident db t cur) =
    {e \<in> set (t_edges db). e_tenant e = t \<and> (e_source e = cur \<or> e_target e = cur)}"
  by (simp add: incident_def)

lemma neighbour_rows_set:
  "a \<in> set (neighbour_rows db t ok cur) \<longleftrightarrow> a \<in> set (t_artifacts db) \<and> a_tenant a = t \<and> a_id a \<noteq> cur \<and> ok db a
    \<and> (\<exists>e \<in> set (t_edges db). e_tenant e = t \<and> {e_source e, e_target e} = {cur, a_id a})"
  by (auto simp: neighbour_rows_def incident_set doubleton_eq_iff)

lemma neighbour_rel_readable:
  "neighbour_rel (\<lambda>cur. map a_id (neighbour_rows db t (\<lambda>db. permits db actor ''read'') cur))
    = readable_step db t actor"
  by (simp add: neighbour_rel_def readable_step_def image_iff Bex_def neighbour_rows_set) blast

lemma component_ids_Inr:
  "component_ids db t start limit actor = Inr ids \<longleftrightarrow> authorize db t start actor ''read'' = Inr () \<and>
   ids = search_from (\<lambda>cur. map a_id (neighbour_rows db t (\<lambda>db. permits db actor ''read'') cur))
     (clamp 1 MAX_GRAPH_COMPONENT_NODES limit) [start] [start]"
  by (auto simp: component_ids_def ebind_Inr_iff access_clause_Inr authorize_Inr)

text \<open>Every node the path search records carries a chain of readable steps from the start.\<close>

fun linked_path :: "(string \<times> string) set \<Rightarrow> path_node list \<Rightarrow> bool" where
  "linked_path R [] = False"
| "linked_path R [n] = True"
| "linked_path R (n # m # ns) = ((pn_artifact n, pn_artifact m) \<in> R \<and> linked_path R (m # ns))"

lemma linked_path_snoc:
  "linked_path R ns \<Longrightarrow> (pn_artifact (last ns), pn_artifact n) \<in> R \<Longrightarrow> linked_path R (ns @ [n])"
  by (induction R ns rule: linked_path.induct) auto

definition paths_ok :: "(string \<times> string) set \<Rightarrow> string \<Rightarrow> path_map \<Rightarrow> bool" where
  "paths_ok R start paths \<longleftrightarrow> (\<forall>x \<in> set paths. linked_path R (snd x)
     \<and> pn_artifact (hd (snd x)) = start \<and> pn_artifact (last (snd x)) = fst x)"

lemma linked_path_ne: "linked_path R ns \<Longrightarrow> ns \<noteq> []"
  by (cases ns) auto

lemma paths_from_ok:
  assumes "paths_ok R start paths" "set queue \<subseteq> fst ` set paths" "length paths \<le> cap"
    and "\<And>cur r. r \<in> set (rows cur) \<Longrightarrow> (cur, a_id (fst r)) \<in> R"
  shows "paths_ok R start (paths_from rows cap paths queue) \<and>
    map fst (paths_from rows cap paths queue) =
      search_from (\<lambda>cur. map (\<lambda>r. a_id (fst r)) (rows cur)) cap (map fst paths) queue
    \<and> length (paths_from rows cap paths queue) \<le> cap"
  using assms
proof (induction rows cap paths queue rule: paths_from.induct)
  case (2 rows cap paths q queue)
  show ?case
  proof (cases "length paths < cap")
    case True
    let ?here = "the (map_of paths q)"
    obtain new where new: "absorb_paths cap ?here (rows q) paths queue = (paths @ new, queue @ map fst new)"
      "length (paths @ new) \<le> cap"
      "absorb cap (map (\<lambda>r. a_id (fst r)) (rows q)) (map fst paths) queue = (map fst (paths @ new), queue @ map fst new)"
      "\<forall>x \<in> set new. \<exists>r \<in> set (rows q). x = (a_id (fst r), ?here @ [node_of r])"
      using absorb_paths_extends [of cap ?here "rows q" paths queue] True by blast
    have "q \<in> fst ` set paths" using 2(3) by simp
    then obtain p where "map_of paths q = Some p" by (cases "map_of paths q") (auto simp: map_of_eq_None_iff)
    then have "(q, ?here) \<in> set paths" by (simp add: map_of_SomeD)
    with 2(2) have here: "linked_path R ?here" "pn_artifact (hd ?here) = start" "pn_artifact (last ?here) = q"
      by (auto simp: paths_ok_def)
    have node: "pn_artifact (node_of r) = a_id (fst r)" for r by (simp add: node_of_def split: prod.split)
    have ok: "paths_ok R start (paths @ new)"
      unfolding paths_ok_def
    proof
      fix x assume "x \<in> set (paths @ new)"
      then consider "x \<in> set paths" | "x \<in> set new" by auto
      then show "linked_path R (snd x) \<and> pn_artifact (hd (snd x)) = start \<and> pn_artifact (last (snd x)) = fst x"
      proof cases
        case 1 with 2(2) show ?thesis by (simp add: paths_ok_def)
      next
        case 2
        with new(4) obtain r where r: "r \<in> set (rows q)" "x = (a_id (fst r), ?here @ [node_of r])" by blast
        have "(pn_artifact (last ?here), pn_artifact (node_of r)) \<in> R"
          using "2.prems"(4) [OF r(1)] here(3) node by simp
        with linked_path_snoc [OF here(1)] here(2) linked_path_ne [OF here(1)] node r(2) show ?thesis by simp
      qed
    qed
    have sub: "set (queue @ map fst new) \<subseteq> fst ` set (paths @ new)" using 2(3) by auto
    from "2.IH" [OF True new(1) [symmetric] ok sub new(2) "2.prems"(4)] new(1,3) True show ?thesis by simp
  qed (use 2 in simp)
qed simp

lemma path_rows_step:
  "r \<in> set (path_rows db t (\<lambda>db. permits db actor ''read'') cur) \<Longrightarrow> (cur, a_id (fst r)) \<in> readable_step db t actor"
  by (auto simp: path_rows_def neighbour_rows_set readable_step_def split: option.splits)

text \<open>The invariant of \<open>traverse\<close>: each step follows a readable edge of the tenant to a bounded
  depth.\<close>

definition step_ok :: "database \<Rightarrow> string \<Rightarrow> string option \<Rightarrow> nat \<Rightarrow> step_view \<Rightarrow> bool" where
  "step_ok db t actor depth v \<longleftrightarrow> 1 \<le> sv_depth v \<and> sv_depth v \<le> depth \<and>
     (\<exists>e \<in> set (t_edges db). e_id e = sv_id v \<and> e_tenant e = t \<and> e_source e = sv_source v \<and> e_target e = sv_target v) \<and>
     (\<exists>a \<in> set (t_artifacts db). a_id a = sv_target v \<and> a_tenant a = t \<and> permits db actor ''read'' a)"

lemma outgoing_ok:
  "(e, a) \<in> set (outgoing db t ok cur) \<Longrightarrow> e \<in> set (t_edges db) \<and> e_tenant e = t \<and> e_source e = cur
    \<and> a \<in> set (t_artifacts db) \<and> a_id a = e_target e \<and> a_tenant a = t \<and> ok db a"
  by (auto simp: outgoing_def)

lemma absorb_steps_ok:
  assumes "absorb_steps cap d rs results seen queue = Inr (results', seen', queue')"
    and "list_all P results" "\<And>e a m. (e, a) \<in> set rs \<Longrightarrow> P \<lparr>sv_id = e_id e, sv_source = e_source e,
       sv_target = e_target e, sv_type = e_type e, sv_target_name = a_name a, sv_metadata = m, sv_depth = Suc d\<rparr>"
  shows "list_all P results'"
  using assms
proof (induction cap d rs results seen queue rule: absorb_steps.induct)
  case (2 cap d e a rs results seen queue)
  then show ?case by (auto simp: Let_def split: option.splits if_splits)
qed simp

lemma steps_from_ok:
  assumes "steps_from rows depth cap results seen queue = Inr out" "list_all P results" "length results \<le> cap"
    and "\<And>cur e a d m. (e, a) \<in> set (rows cur) \<Longrightarrow> d < depth \<Longrightarrow> P \<lparr>sv_id = e_id e, sv_source = e_source e,
       sv_target = e_target e, sv_type = e_type e, sv_target_name = a_name a, sv_metadata = m, sv_depth = Suc d\<rparr>"
  shows "list_all P out \<and> length out \<le> cap"
  using assms
proof (induction rows depth cap results seen queue rule: steps_from.induct)
  case (2 rows depth cap results seen cur d queue)
  show ?case
  proof (cases "length results < cap \<and> d < depth")
    case False
    with 2 show ?thesis by (auto split: if_splits)
  next
    case True
    with 2(3) obtain r' s' q' where a: "absorb_steps cap d (rows cur) results seen queue = Inr (r', s', q')"
      "steps_from rows depth cap r' s' q' = Inr out"
      by (auto split: sum.splits)
    have "list_all P r'" by (rule absorb_steps_ok [OF a(1) 2(4)]) (use 2(6) True in auto)
    moreover have "length r' \<le> cap" using absorb_steps_length [OF a(1)] True by simp
    ultimately show ?thesis using "2.IH"(2) [OF _ _ a(1) refl refl a(2)] True 2(6) by auto
  qed
qed simp

section \<open>Properties\<close>

text \<open>C22: The bounded breadth-first search is sound and complete: \<open>_component_ids\<close> returns distinct
  artifacts, the start among them and at most the clamped limit (never more than 500) of them, each
  reachable from the start by edges of the tenant through artifacts the actor may read; and when it
  returns fewer than the limit, it has returned all of them.\<close>

theorem component_search_exact:
  assumes "component_ids db t start limit actor = Inr ids"
  shows "distinct ids \<and> start \<in> set ids \<and> length ids \<le> clamp 1 500 limit
    \<and> set ids \<subseteq> (readable_step db t actor)\<^sup>* `` {start}
    \<and> (length ids = clamp 1 500 limit \<or> set ids = (readable_step db t actor)\<^sup>* `` {start})"
proof -
  let ?nbr = "\<lambda>cur. map a_id (neighbour_rows db t (\<lambda>db. permits db actor ''read'') cur)"
  let ?cap = "clamp 1 500 limit"
  have ids: "ids = search_from ?nbr ?cap [start] [start]"
    using assms by (simp add: component_ids_Inr MAX_GRAPH_COMPONENT_NODES_def)
  have "1 \<le> ?cap" using clamp_bounds [of 1 500] by simp
  with search_from_sound [of "[start]" "[start]" ?cap ?nbr start] ids
  have "distinct ids \<and> start \<in> set ids \<and> length ids \<le> ?cap \<and> set ids \<subseteq> (readable_step db t actor)\<^sup>* `` {start}"
    by (simp add: neighbour_rel_readable)
  moreover have "set ids = (readable_step db t actor)\<^sup>* `` {start}" if "length ids < ?cap"
    using search_from_complete [of ?nbr ?cap start] that ids by (simp add: neighbour_rel_readable)
  ultimately show ?thesis by (metis le_neq_implies_less)
qed

definition lone_db :: database where
  "lone_db = empty_db\<lparr>t_artifacts := [sample_artifact]\<rparr>"

lemma component_search_exact_witness:
  "component_ids lone_db ''t'' ''art_1'' 20 None = Inr [''art_1''] \<and>
    {''art_1''} = (readable_step lone_db ''t'' None)\<^sup>* `` {''art_1''}"
proof -
  have c: "component_ids lone_db ''t'' ''art_1'' 20 None = Inr [''art_1'']"
    by (simp add: component_ids_Inr authorize_Inr actor_ok_def permits_def find_artifact_def lone_db_def
        sample_artifact_def clamp_def MAX_GRAPH_COMPONENT_NODES_def neighbour_rows_def incident_def empty_db_def)
  from component_search_exact [OF this] c show ?thesis by (simp add: clamp_def)
qed

text \<open>C23: The path of a search hit exposes only readable topology: every entry of
  \<open>_readable_graph_paths\<close> is a path from the root to the artifact it is filed under, each hop an edge of
  the tenant to an artifact the actor may read; there are at most 500 entries, one per artifact.\<close>

theorem graph_paths_readable:
  assumes "readable_graph_paths db t start actor = Inr paths" and "(i, p) \<in> set paths"
  shows "linked_path (readable_step db t actor) p \<and> pn_artifact (hd p) = start \<and> pn_artifact (last p) = i
    \<and> length paths \<le> 500 \<and> distinct (map fst paths)"
proof -
  let ?R = "readable_step db t actor" and ?rows = "path_rows db t (\<lambda>db. permits db actor ''read'')"
  from assms(1) obtain a where a: "a_id a = start" and
    paths: "paths = paths_from ?rows 500 [(start, [node_of (a, the (current_row db a))])] [start]"
    by (auto simp: readable_graph_paths_def ebind_Inr_iff access_clause_Inr find_Some_iff
        MAX_GRAPH_COMPONENT_NODES_def split: option.splits)
  have 0: "paths_ok ?R start [(start, [node_of (a, the (current_row db a))])]"
    by (simp add: paths_ok_def node_of_def a)
  have "paths_ok ?R start paths \<and> map fst paths =
      search_from (\<lambda>cur. map (\<lambda>r. a_id (fst r)) (?rows cur)) 500 [start] [start] \<and> length paths \<le> 500"
    unfolding paths using paths_from_ok [OF 0, of "[start]" 500 ?rows] path_rows_step by simp
  moreover have "distinct (search_from (\<lambda>cur. map (\<lambda>r. a_id (fst r)) (?rows cur)) 500 [start] [start])"
    using search_from_sound [of "[start]" "[start]" 500 "\<lambda>cur. map (\<lambda>r. a_id (fst r)) (?rows cur)" start] by simp
  ultimately show ?thesis using assms(2) by (auto simp: paths_ok_def)
qed

definition lone_version :: version_row where
  "lone_version = \<lparr>v_id = ''ver_1'', v_tenant = ''t'', v_artifact = ''art_1'', v_parent = None, v_blob = ''h'',
     v_media = ''text/plain'', v_size = 1, v_actor = ''ann'', v_reason = ''r'', v_context = ''{}'', v_created = ''2026''\<rparr>"

lemma graph_paths_readable_witness:
  "\<exists>p. readable_graph_paths (lone_db\<lparr>t_versions := [lone_version]\<rparr>) ''t'' ''art_1'' None = Inr [(''art_1'', p)]
    \<and> linked_path (readable_step (lone_db\<lparr>t_versions := [lone_version]\<rparr>) ''t'' None) p"
proof -
  let ?db = "lone_db\<lparr>t_versions := [lone_version]\<rparr>"
  have r: "readable_graph_paths ?db ''t'' ''art_1'' None = Inr [(''art_1'', [node_of (sample_artifact, lone_version)])]"
    by (simp add: readable_graph_paths_def authorize_def access_clause_def find_artifact_def lone_db_def
        sample_artifact_def lone_version_def current_row_def path_rows_def neighbour_rows_def incident_def
        empty_db_def MAX_GRAPH_COMPONENT_NODES_def)
  then show ?thesis using graph_paths_readable [OF r] by fastforce
qed

text \<open>\<open>traverse\<close> stays within its bounds and its rights: it returns at most the clamped limit of
  steps, each an outgoing edge of the tenant to an artifact the actor may read, at a depth between one
  and the requested maximum, which is at most ten.\<close>

theorem traverse_bounded:
  assumes "traverse w t start max_depth limit actor = Inr steps"
  shows "0 \<le> max_depth \<and> max_depth \<le> 10 \<and> length steps \<le> clamp 1 500 limit
    \<and> list_all (step_ok (w_db w) t actor (nat max_depth)) steps"
proof -
  let ?rows = "outgoing (w_db w) t (\<lambda>db. permits db actor ''read'')"
  from assms have b: "0 \<le> max_depth" "max_depth \<le> 10" and
    s: "steps_from ?rows (nat max_depth) (clamp 1 500 limit) [] [start] [(start, 0)] = Inr steps"
    by (auto simp: traverse_def ebind_Inr_iff access_clause_Inr split: if_splits)
  have "list_all (step_ok (w_db w) t actor (nat max_depth)) steps \<and> length steps \<le> clamp 1 500 limit"
    by (rule steps_from_ok [OF s]) (auto simp: step_ok_def dest!: outgoing_ok)
  with b show ?thesis by blast
qed

lemma traverse_bounded_witness:
  "traverse (empty_world\<lparr>w_db := lone_db\<rparr>) ''t'' ''art_1'' 2 100 None = Inr [] \<and> (2 :: int) \<le> 10"
proof -
  have r: "traverse (empty_world\<lparr>w_db := lone_db\<rparr>) ''t'' ''art_1'' 2 100 None = Inr []"
    by (simp add: traverse_def get_artifact_def authorize_def access_clause_def find_artifact_def lone_db_def
        sample_artifact_def outgoing_def empty_db_def clamp_def)
  from traverse_bounded [OF this] r show ?thesis by blast
qed

text \<open>An edge joins two artifacts its maker may write, and never an artifact to itself: whatever
  \<open>link\<close> adds to the edge table has distinct ends in the tenant, both writable by the actor, and is the
  only edge of its tenant, ends and type.\<close>

theorem link_needs_both_ends:
  assumes "link E t src tgt etype meta actor w = (r, w')"
    and "e \<in> set (t_edges (w_db w'))" and "e \<notin> set (t_edges (w_db w))"
  shows "e_source e = src \<and> e_target e = tgt \<and> e_type e = etype \<and> e_tenant e = t \<and> src \<noteq> tgt
    \<and> authorize (w_db w) t src actor ''write'' = Inr () \<and> authorize (w_db w) t tgt actor ''write'' = Inr ()
    \<and> find_edge (w_db w) t src tgt etype = None"
  using link_cases [OF assms(1)] assms(2,3) by auto

definition pair_world :: world where
  "pair_world = empty_world\<lparr>w_db := empty_db\<lparr>t_tenants := [\<lparr>tn_id = ''t'', tn_created = ''2026''\<rparr>],
     t_artifacts := [sample_artifact, sample_artifact\<lparr>a_id := ''art_2''\<rparr>]\<rparr>\<rparr>"

lemma pair_link:
  "map e_target (t_edges (w_db (snd (link env0 ''t'' ''art_1'' ''art_2'' ''cites'' None None pair_world)))) = [''art_2'']"
  by (simp add: link_def pair_world_def empty_world_def empty_db_def sample_artifact_def mbind_def mguard_def
      mret_def mlift_def query_or_raise_def query_def mget_def check_endpoint_def find_artifact_def
      authorize_def ACL_ACTIONS_def validate_text_def MAX_EDGE_TYPE_LENGTH_def strip_def lstrip_def is_space_def
      ord_of_def json_text_def or_empty_def dumps_sorted_strict_def MAX_CONTEXT_BYTES_def utf8_def utf8_char_def
      find_edge_def new_id_def utc_now_def insert_edge_row_def execute_def has_tenant_def has_artifact_def
      assert_row_def transact_def view_edge_def)

lemma link_needs_both_ends_witness:
  "authorize (w_db pair_world) ''t'' ''art_1'' None ''write'' = Inr ()"
proof -
  obtain r w' where run: "link env0 ''t'' ''art_1'' ''art_2'' ''cites'' None None pair_world = (r, w')"
    by (cases "link env0 ''t'' ''art_1'' ''art_2'' ''cites'' None None pair_world")
  with pair_link obtain e where e: "e \<in> set (t_edges (w_db w'))" by (cases "t_edges (w_db w')") auto
  have "e \<notin> set (t_edges (w_db pair_world))" by (simp add: pair_world_def empty_world_def empty_db_def)
  from link_needs_both_ends [OF run e this] show ?thesis by blast
qed

end
