(* ===== verification/Listing.thy ===== *)
theory Listing
  imports Graph
begin

text \<open>
  Keyset pagination (\<open>_parse_artifact_list_cursor\<close>), the artifact listing
  \<open>list_artifacts\<close> and the literal search \<open>grep\<close> of \<open>service.py\<close>. A listing is sorted
  by a key with no ties, a cursor names the key of the last row seen, and the next page is what comes
  after it: the locale \<open>keyset\<close> states this once for every listing.
\<close>

section \<open>Cursors\<close>

definition cursor_error :: "py_exn" where
  "cursor_error = FolioError ''invalid artifact_list cursor''"

definition parse_cursor :: "env \<Rightarrow> string \<Rightarrow> py_exn + string \<times> string" where
  "parse_cursor E cursor =
     ebind (guard_raise (length cursor > MAX_CURSOR_LENGTH) cursor_error) (\<lambda>_.
     let (timestamp, separator, artifact_id) = partition_at (CHR 0x7C) cursor in
     ebind (guard_raise (\<not> separator \<or> timestamp = [] \<or> artifact_id = []
       \<or> CHR 0x7C \<in> set artifact_id) cursor_error) (\<lambda>_.
     case iso_parse E timestamp of
       None \<Rightarrow> Inl cursor_error
     | Some (_, aware) \<Rightarrow>
         ebind (guard_raise (\<not> aware) cursor_error) (\<lambda>_.
         ebind (guard_raise (strip artifact_id = [] \<or> length artifact_id > MAX_NAME_LENGTH) cursor_error) (\<lambda>_.
         Inr (timestamp, artifact_id)))))"

definition cursor_text :: "string \<times> string \<Rightarrow> string" where
  "cursor_text k = fst k @ ''|'' @ snd k"

lemma partition_at_append: "c \<notin> set s \<Longrightarrow> partition_at c (s @ c # t) = (s, True, t)"
  by (induction s) auto

lemma parse_cursor_text:
  assumes "ts \<noteq> []" "CHR 0x7C \<notin> set ts" "CHR 0x7C \<notin> set i" "strip i \<noteq> []" "length i \<le> 255"
    "length ts \<le> 256" "iso_parse E ts = Some (n, True)"
  shows "parse_cursor E (cursor_text (ts, i)) = Inr (ts, i)"
proof -
  have "i \<noteq> []" using assms(4) by (auto simp: strip_def lstrip_def)
  then show ?thesis
    using assms by (simp add: parse_cursor_def cursor_text_def partition_at_append guard_raise_def
        MAX_CURSOR_LENGTH_def MAX_NAME_LENGTH_def)
qed

text \<open>The key of a row as the code writes it: a clock reading and a drawn identifier.\<close>

lemma pad_chars: "c \<in> set (pad k n) \<Longrightarrow> c \<noteq> CHR 0x7C"
proof (induction k n rule: pad.induct)
  case (2 k n)
  have "digit_char (n mod 10) \<noteq> CHR 0x7C"
  proof
    assume "digit_char (n mod 10) = CHR 0x7C"
    then have "of_char (digit_char (n mod 10)) = (124 :: nat)" by simp
    then show False by (simp add: digit_char_def)
  qed
  with 2 show ?case by auto
qed simp

lemma iso_of_chars: "CHR 0x7C \<notin> set (iso_of n)" "length (iso_of n) = 29"
  by (auto simp: iso_of_def date_text_def Let_def dest: pad_chars split: prod.split)

lemma parse_drawn_cursor:
  assumes "length (uuid_hex E i) = 32" "set (uuid_hex E i) \<subseteq> set ''0123456789abcdef''"
    and "iso_parse E (clock_iso E k) = Some (n, True)"
  shows "parse_cursor E (cursor_text (clock_iso E k, ident E ''art'' i)) = Inr (clock_iso E k, ident E ''art'' i)"
proof (rule parse_cursor_text [OF _ _ _ _ _ _ assms(3)])
  show "CHR 0x7C \<notin> set (clock_iso E k)" "length (clock_iso E k) \<le> 256"
    by (simp_all add: clock_iso_def iso_of_chars)
  show "clock_iso E k \<noteq> []" using iso_of_chars(2) [of "clock_us E k"] by (auto simp: clock_iso_def)
  show "CHR 0x7C \<notin> set (ident E ''art'' i)" using assms(2) by (auto simp: ident_def)
  show "length (ident E ''art'' i) \<le> 255" using assms(1) by (simp add: ident_def)
  show "strip (ident E ''art'' i) \<noteq> []" by (simp add: ident_def strip_def lstrip_def is_space_def ord_of_def)
qed

section \<open>Pages of a sorted listing\<close>

locale keyset =
  fixes before :: "'k \<Rightarrow> 'k \<Rightarrow> bool"
  assumes before_irrefl: "\<not> before x x"
    and before_trans: "before x y \<Longrightarrow> before y z \<Longrightarrow> before x z"
begin

lemma before_asym: "before x y \<Longrightarrow> \<not> before y x"
  using before_irrefl before_trans by blast

text \<open>In a listing sorted without ties, what comes after the row at \<open>n\<close> is the rest of the list,
  whether the rows are filtered before they are sorted or after.\<close>

lemma after_row:
  "sorted_wrt before (map key xs) \<Longrightarrow> n < length xs \<Longrightarrow>
    filter (\<lambda>x. before (key (xs ! n)) (key x)) xs = drop (Suc n) xs"
proof (induction xs arbitrary: n)
  case (Cons x xs)
  show ?case
  proof (cases n)
    case 0
    with Cons.prems show ?thesis by (simp add: before_irrefl filter_id_conv)
  next
    case (Suc m)
    with Cons.prems have "before (key x) (key (xs ! m))" by simp
    with Cons Suc show ?thesis using before_asym by simp
  qed
qed simp

end

text \<open>Descending and ascending order of (time stamp, identifier) pairs, and the two cursor predicates
  of the SQL.\<close>

definition older :: "string \<times> string \<Rightarrow> string \<times> string \<Rightarrow> bool" where
  "older k x \<longleftrightarrow> fst x < fst k \<or> fst x = fst k \<and> snd x < snd k"

definition newer :: "string \<times> string \<Rightarrow> string \<times> string \<Rightarrow> bool" where
  "newer k x \<longleftrightarrow> fst k < fst x \<or> fst x = fst k \<and> snd k < snd x"

interpretation newest_first: keyset older
  by unfold_locales (auto simp: older_def)

interpretation oldest_first: keyset newer
  by unfold_locales (auto simp: newer_def)

lemma sorted_newer:
  "distinct (map key xs) \<Longrightarrow> sorted_wrt newer (map key (sort_key key (xs :: 'a list)))"
proof -
  assume d: "distinct (map key xs)"
  have "sorted (map key (sort_key key xs))" "distinct (map key (sort_key key xs))"
    using d by (simp_all add: distinct_map)
  then have "sorted_wrt (<) (map key (sort_key key xs))" by (simp add: strict_sorted_iff)
  then show ?thesis by (rule sorted_wrt_mono_rel [rotated]) (auto simp: newer_def less_prod_def')
qed

lemma sorted_older:
  "distinct (map key xs) \<Longrightarrow> sorted_wrt older (map key (rev (sort_key key (xs :: 'a list))))"
proof -
  assume "distinct (map key xs)"
  then have "sorted_wrt newer (map key (sort_key key xs))" by (rule sorted_newer)
  moreover have "(\<lambda>x y. older y x) = newer" by (intro ext) (auto simp: newer_def older_def)
  ultimately show ?thesis by (simp add: rev_map [symmetric] sorted_wrt_rev)
qed

section \<open>\<open>list_artifacts\<close>\<close>

record listed =
  li_id :: string
  li_name :: string
  li_media :: string
  li_created :: string
  li_current :: "string option"
  li_updated :: "string option"
  li_neighbors :: bool

text \<open>\<open>COALESCE(v.created_at, a.created_at), a.id\<close>\<close>

definition list_key :: "database \<Rightarrow> artifact_row \<Rightarrow> string \<times> string" where
  "list_key db a = (case current_row db a of Some v \<Rightarrow> v_created v | None \<Rightarrow> a_created a, a_id a)"

definition has_readable_neighbors ::
    "database \<Rightarrow> (database \<Rightarrow> artifact_row \<Rightarrow> bool) \<Rightarrow> artifact_row \<Rightarrow> bool" where
  "has_readable_neighbors db ok a =
     list_ex (\<lambda>e. e_tenant e = a_tenant a \<and> (e_source e = a_id a \<or> e_target e = a_id a) \<and>
       list_ex (\<lambda>n. a_tenant n = e_tenant e
           \<and> a_id n = (if e_source e = a_id a then e_target e else e_source e) \<and> ok db n)
         (t_artifacts db)) (t_edges db)"

definition view_listed ::
    "database \<Rightarrow> (database \<Rightarrow> artifact_row \<Rightarrow> bool) \<Rightarrow> artifact_row \<Rightarrow> listed" where
  "view_listed db ok a = \<lparr>li_id = a_id a, li_name = a_name a, li_media = a_media a,
     li_created = a_created a, li_current = a_current a,
     li_updated = map_option v_created (current_row db a),
     li_neighbors = has_readable_neighbors db ok a\<rparr>"

definition matches_opt :: "string option \<Rightarrow> string \<Rightarrow> bool" where
  "matches_opt f v = (case f of None \<Rightarrow> True | Some x \<Rightarrow> v = x)"

definition list_rows ::
    "database \<Rightarrow> string \<Rightarrow> (database \<Rightarrow> artifact_row \<Rightarrow> bool) \<Rightarrow> (string \<times> string) option \<Rightarrow>
     string option \<Rightarrow> string option \<Rightarrow> artifact_row list" where
  "list_rows db tenant ok cursor nm media =
     rev (sort_key (list_key db) (filter (\<lambda>a. a_tenant a = tenant \<and> ok db a
       \<and> (case cursor of None \<Rightarrow> True | Some k \<Rightarrow> older k (list_key db a))
       \<and> matches_opt nm (a_name a) \<and> matches_opt media (a_media a)) (t_artifacts db)))"

definition opt_check :: "(string \<Rightarrow> py_exn + 'a) \<Rightarrow> string option \<Rightarrow> py_exn + 'a option" where
  "opt_check f v = (case v of None \<Rightarrow> Inr None | Some x \<Rightarrow> ebind (f x) (\<lambda>y. Inr (Some y)))"

definition list_artifacts ::
    "env \<Rightarrow> database \<Rightarrow> string \<Rightarrow> int \<Rightarrow> string option \<Rightarrow> string option \<Rightarrow> string option \<Rightarrow>
     string option \<Rightarrow> py_exn + listed list" where
  "list_artifacts E db tenant limit actor nm media cursor =
     ebind (opt_check (\<lambda>x. validate_text ''name'' x MAX_NAME_LENGTH) nm) (\<lambda>_.
     ebind (opt_check (\<lambda>x. validate_text ''media_type'' x MAX_MEDIA_TYPE_LENGTH) media) (\<lambda>_.
     ebind (opt_check (parse_cursor E) cursor) (\<lambda>key.
     ebind (access_clause actor ''read'') (\<lambda>ok.
     Inr (map (view_listed db ok) (take (clamp 1 100 limit) (list_rows db tenant ok key nm media)))))))"

section \<open>\<open>grep\<close>\<close>

record grep_match =
  gm_id :: string
  gm_artifact :: string
  gm_version :: string
  gm_ordinal :: nat
  gm_start :: nat
  gm_end :: nat
  gm_content :: string
  gm_artifact_name :: string
  gm_match :: string
  gm_offset :: nat

definition grep_rows ::
    "database \<Rightarrow> string \<Rightarrow> (database \<Rightarrow> artifact_row \<Rightarrow> bool) \<Rightarrow> (chunk_row \<times> artifact_row) list" where
  "grep_rows db tenant ok =
     sort_key (\<lambda>(c, a). (c_artifact c, c_version c, c_ordinal c))
       (concat (map (\<lambda>c. map (Pair c) (filter (\<lambda>a. a_id a = c_artifact c \<and> a_tenant a = c_tenant c
          \<and> a_current a = Some (c_version c) \<and> ok db a) (t_artifacts db)))
         (filter (\<lambda>c. c_tenant c = tenant) (t_chunks db))))"

text \<open>The loop over the rows: it stops as soon as \<open>cap\<close> matches are collected.\<close>

fun grep_scan :: "string \<Rightarrow> nat \<Rightarrow> grep_match list \<Rightarrow> (chunk_row \<times> artifact_row) list \<Rightarrow> grep_match list" where
  "grep_scan pat cap found [] = found"
| "grep_scan pat cap found ((c, a) # rows) =
     (case find_sub pat (c_content c) of
        None \<Rightarrow> grep_scan pat cap found rows
      | Some offset \<Rightarrow>
          let found = found @ [\<lparr>gm_id = c_id c, gm_artifact = c_artifact c, gm_version = c_version c,
                gm_ordinal = c_ordinal c, gm_start = c_start c, gm_end = c_end c,
                gm_content = c_content c, gm_artifact_name = a_name a, gm_match = pat, gm_offset = offset\<rparr>]
          in if length found \<ge> cap then found else grep_scan pat cap found rows)"

definition grep ::
    "database \<Rightarrow> string \<Rightarrow> string \<Rightarrow> int \<Rightarrow> string option \<Rightarrow> py_exn + grep_match list" where
  "grep db tenant pat limit actor =
     (if pat = [] then Inr []
      else ebind (guard_raise (length pat > MAX_QUERY_LENGTH)
          (FolioError (''pattern exceeds '' @ nat_text MAX_QUERY_LENGTH @ '' characters''))) (\<lambda>_.
        ebind (access_clause actor ''read'') (\<lambda>ok.
        Inr (grep_scan pat (clamp 1 500 limit) [] (grep_rows db tenant ok)))))"

lemma grep_scan_ok:
  assumes "\<forall>m \<in> set found. P m" "length found < cap"
    and "\<And>c a n. (c, a) \<in> set rows \<Longrightarrow> find_sub pat (c_content c) = Some n \<Longrightarrow>
      P \<lparr>gm_id = c_id c, gm_artifact = c_artifact c, gm_version = c_version c,
         gm_ordinal = c_ordinal c, gm_start = c_start c, gm_end = c_end c,
         gm_content = c_content c, gm_artifact_name = a_name a, gm_match = pat, gm_offset = n\<rparr>"
  shows "(\<forall>m \<in> set (grep_scan pat cap found rows). P m) \<and> length (grep_scan pat cap found rows) \<le> cap"
  using assms
proof (induction pat cap found rows rule: grep_scan.induct)
  case (2 pat cap found c a rows)
  show ?case
  proof (cases "find_sub pat (c_content c)")
    case None
    with 2 show ?thesis by simp
  next
    case (Some n)
    let ?m = "\<lparr>gm_id = c_id c, gm_artifact = c_artifact c, gm_version = c_version c,
         gm_ordinal = c_ordinal c, gm_start = c_start c, gm_end = c_end c,
         gm_content = c_content c, gm_artifact_name = a_name a, gm_match = pat, gm_offset = n\<rparr>"
    have m: "P ?m" using "2.prems"(3) Some by simp
    show ?thesis
    proof (cases "length (found @ [?m]) \<ge> cap")
      case True
      with Some m "2.prems" show ?thesis by auto
    next
      case False
      with "2.IH"(2) [OF Some refl this] m "2.prems" Some show ?thesis by simp
    qed
  qed
qed simp

lemma list_rows_cursor:
  assumes d: "distinct (map a_id (t_artifacts db))" and n: "n < length (list_rows db t ok None nm media)"
  shows "list_rows db t ok (Some (list_key db (list_rows db t ok None nm media ! n))) nm media
    = drop (Suc n) (list_rows db t ok None nm media)"
proof -
  let ?P = "\<lambda>a. a_tenant a = t \<and> ok db a \<and> matches_opt nm (a_name a) \<and> matches_opt media (a_media a)"
  let ?xs = "filter ?P (t_artifacts db)" and ?key = "list_key db"
  let ?k = "?key (list_rows db t ok None nm media ! n)"
  have all: "list_rows db t ok None nm media = rev (sort_key ?key ?xs)"
    by (simp add: list_rows_def)
  have "distinct (map ?key ?xs)"
    using d by (auto simp: distinct_map inj_on_def list_key_def intro!: distinct_filter)
  then have s: "sorted_wrt older (map ?key (rev (sort_key ?key ?xs)))" by (rule sorted_older)
  have "list_rows db t ok (Some ?k) nm media = rev (sort_key ?key (filter (\<lambda>x. older ?k (?key x)) ?xs))"
    by (simp add: list_rows_def conj_ac)
  also have "\<dots> = filter (\<lambda>x. older ?k (?key x)) (rev (sort_key ?key ?xs))"
    by (simp only: rev_filter [symmetric] filter_sort)
  also have "\<dots> = drop (Suc n) (rev (sort_key ?key ?xs))"
    using newest_first.after_row [OF s, of n] n unfolding all by simp
  finally show ?thesis unfolding all .
qed

section \<open>Properties\<close>

text \<open>C24: Pages of the artifact listing partition it: after a page that ended with the row at position
  \<open>n\<close> of the full listing, calling \<open>list_artifacts\<close> with that row's
  \<open><updated_at>|<id>\<close> cursor is accepted whenever the first page was, and returns exactly the rows from
  position \<open>n + 1\<close> on, cut at the clamped limit: nothing is skipped and nothing repeated. The identifiers are
  unique; the row's identifier is one \<open>new_id\<close> makes (\<open>uuid4().hex\<close>: 32 hexadecimal digits) and its time one
  \<open>utc_now\<close> prints, which \<open>datetime.fromisoformat\<close> reads as a time with a zone.\<close>

theorem listing_pages_partition:
  assumes "distinct (map a_id (t_artifacts db))"
    and "access_clause actor ''read'' = Inr ok"
    and "list_artifacts E db t first actor nm media None = Inr page"
    and "n < length (list_rows db t ok None nm media)"
    and "list_key db (list_rows db t ok None nm media ! n) = (clock_iso E k, ident E ''art'' i)"
    and "length (uuid_hex E i) = 32" and "set (uuid_hex E i) \<subseteq> set ''0123456789abcdef''"
    and "iso_parse E (clock_iso E k) = Some (instant, True)"
  shows "list_artifacts E db t limit actor nm media (Some (cursor_text (clock_iso E k, ident E ''art'' i)))
    = Inr (map (view_listed db ok) (take (clamp 1 100 limit) (drop (Suc n) (list_rows db t ok None nm media))))"
proof -
  have "list_artifacts E db t limit actor nm media (Some (cursor_text (clock_iso E k, ident E ''art'' i)))
      = Inr (map (view_listed db ok) (take (clamp 1 100 limit)
          (list_rows db t ok (Some (clock_iso E k, ident E ''art'' i)) nm media)))"
    using assms(2,3) parse_drawn_cursor [OF assms(6-8)]
    by (auto simp: list_artifacts_def opt_check_def ebind_Inr_iff split: option.splits)
  with list_rows_cursor [OF assms(1,4)] assms(5) show ?thesis by simp
qed

definition page_env :: env where
  "page_env = env0\<lparr>uuid_hex := (\<lambda>_. ''0123456789abcdef0123456789abcdef'')\<rparr>"

definition two_db :: database where
  "two_db = empty_db\<lparr>t_artifacts := [sample_artifact\<lparr>a_created := []\<rparr>,
     sample_artifact\<lparr>a_id := ident page_env ''art'' 1, a_created := clock_iso page_env 0\<rparr>]\<rparr>"

lemma listing_pages_partition_witness:
  "list_artifacts page_env two_db ''t'' 5 None None None (Some (cursor_text (clock_iso page_env 0, ident page_env ''art'' 1)))
     = Inr [view_listed two_db (\<lambda>db a. True) (sample_artifact\<lparr>a_created := []\<rparr>)]"
proof -
  let ?ok = "\<lambda>(db :: database) (a :: artifact_row). True"
  obtain c cs where iso: "clock_iso page_env 0 = c # cs"
    using iso_of_chars(2) [of "clock_us page_env 0"] by (cases "clock_iso page_env 0") (auto simp: clock_iso_def)
  have art: "ident page_env ''art'' 1 = ''art_0123456789abcdef0123456789abcdef''" by (simp add: ident_def page_env_def)
  have rows: "list_rows two_db ''t'' ?ok None None None
      = [sample_artifact\<lparr>a_id := ident page_env ''art'' 1, a_created := clock_iso page_env 0\<rparr>, sample_artifact\<lparr>a_created := []\<rparr>]"
    by (simp add: list_rows_def two_db_def sample_artifact_def empty_db_def list_key_def current_row_def matches_opt_def iso)
  have key: "list_key two_db (list_rows two_db ''t'' ?ok None None None ! 0) = (clock_iso page_env 0, ident page_env ''art'' 1)"
    unfolding rows by (simp add: list_key_def current_row_def two_db_def empty_db_def sample_artifact_def)
  have d: "distinct (map a_id (t_artifacts two_db))" by (simp add: two_db_def sample_artifact_def art [simplified])
  have ok: "access_clause None ''read'' = Inr ?ok" by (simp add: access_clause_def)
  obtain page where p: "list_artifacts page_env two_db ''t'' 5 None None None None = Inr page"
    by (simp add: list_artifacts_def opt_check_def access_clause_def)
  have i: "length (uuid_hex page_env 1) = 32" "set (uuid_hex page_env 1) \<subseteq> set ''0123456789abcdef''"
      "iso_parse page_env (clock_iso page_env 0) = Some (int (length (clock_iso page_env 0)), True)"
    by (simp_all add: page_env_def env0_def)
  from listing_pages_partition [OF d ok p _ key i, of 5] rows show ?thesis by (simp add: clamp_def)
qed

text \<open>\<open>grep\<close> finds only what is there and only in what the actor may read: every match lies in a
  chunk of the current version of an artifact of the tenant that the actor may read, the pattern
  occurs in the chunk's text at the reported offset, and no more matches are returned than the
  clamped limit.\<close>

theorem grep_sound:
  assumes "grep db t pat limit actor = Inr found" and "m \<in> set found"
  shows "length found \<le> clamp 1 500 limit
    \<and> take (length pat) (drop (gm_offset m) (gm_content m)) = pat
    \<and> (\<exists>a \<in> set (t_artifacts db). a_id a = gm_artifact m \<and> a_tenant a = t
         \<and> a_current a = Some (gm_version m) \<and> permits db actor ''read'' a)"
proof -
  let ?P = "\<lambda>m. take (length pat) (drop (gm_offset m) (gm_content m)) = pat
    \<and> (\<exists>a \<in> set (t_artifacts db). a_id a = gm_artifact m \<and> a_tenant a = t
         \<and> a_current a = Some (gm_version m) \<and> permits db actor ''read'' a)"
  from assms have f: "found = grep_scan pat (clamp 1 500 limit) []
      (grep_rows db t (\<lambda>db. permits db actor ''read''))"
    by (auto simp: grep_def ebind_Inr_iff access_clause_Inr split: if_splits)
  have "(\<forall>m \<in> set found. ?P m) \<and> length found \<le> clamp 1 500 limit"
    unfolding f
  proof (rule grep_scan_ok)
    fix c a n
    assume r: "(c, a) \<in> set (grep_rows db t (\<lambda>db. permits db actor ''read''))"
      and s: "find_sub pat (c_content c) = Some n"
    show "?P \<lparr>gm_id = c_id c, gm_artifact = c_artifact c, gm_version = c_version c,
         gm_ordinal = c_ordinal c, gm_start = c_start c, gm_end = c_end c,
         gm_content = c_content c, gm_artifact_name = a_name a, gm_match = pat, gm_offset = n\<rparr>"
      using find_sub_occurs [OF s] r by (auto simp: grep_rows_def)
  qed (auto simp: clamp_def)
  with assms(2) show ?thesis by blast
qed

definition grep_db :: database where
  "grep_db = empty_db\<lparr>t_artifacts := [sample_artifact\<lparr>a_current := Some ''ver_1''\<rparr>],
     t_chunks := [\<lparr>c_id = ''chk_1'', c_tenant = ''t'', c_artifact = ''art_1'', c_version = ''ver_1'',
       c_ordinal = 0, c_start = 0, c_end = 5, c_content = ''hello''\<rparr>]\<rparr>"

lemma grep_sound_witness:
  "\<exists>m. grep grep_db ''t'' ''ll'' 10 None = Inr [m] \<and> take 2 (drop (gm_offset m) (gm_content m)) = ''ll''"
proof -
  have "\<exists>m. grep grep_db ''t'' ''ll'' 10 None = Inr [m]"
    by (simp add: grep_def access_clause_def guard_raise_def MAX_QUERY_LENGTH_def grep_rows_def grep_db_def
        empty_db_def sample_artifact_def starts_with_def clamp_def)
  then obtain m where g: "grep grep_db ''t'' ''ll'' 10 None = Inr [m]" ..
  from grep_sound [OF g] show ?thesis by (intro exI [of _ m]) (simp add: g numeral_2_eq_2)
qed

end
