(* ===== verification/Search.thy ===== *)
theory Search
  imports Listing
begin

text \<open>
  \<open>search\<close> of \<open>service.py\<close> with its snippets. The two full-text indexes are tables of the
  database; what SQLite's FTS5 answers is a parameter: for the rows of an index and a \<open>MATCH\<close>
  expression it raises (\<open>None\<close>) or says which rows match and with which score. Rows that the
  SQL leaves in no particular order are taken in table order. The ellipsis around a snippet is a flag,
  its code point being above 255.
\<close>

section \<open>Matching and snippets\<close>

text \<open>\<open>re.sub(r"[\W_]+", " ", s).strip()\<close>: runs of anything but letters and digits become one blank.\<close>

definition word_char :: "char \<Rightarrow> bool" where
  "word_char c \<longleftrightarrow> is_alnum_ascii c \<or> ord_of c \<in> set [170, 178, 179, 181, 185, 186, 188, 189, 190]
     \<or> 192 \<le> ord_of c \<and> ord_of c \<noteq> 215 \<and> ord_of c \<noteq> 247"

function collapse :: "string \<Rightarrow> string" where
  "collapse [] = []"
| "collapse (c # s) = (if word_char c then c # collapse s
     else CHR '' '' # collapse (dropWhile (\<lambda>c. \<not> word_char c) s))"
  by pat_completeness auto
termination by (relation "measure length") (auto simp: le_imp_less_Suc length_dropWhile_le)

definition normalized :: "string \<Rightarrow> string" where
  "normalized s = strip (collapse s)"

definition first_word :: "string \<Rightarrow> string" where
  "first_word s = fst (partition_at (CHR '' '') s)"

definition match_offset :: "string \<Rightarrow> string \<Rightarrow> nat option" where
  "match_offset v q =
     (case find_sub (casefold q) (casefold v) of
        Some i \<Rightarrow> Some i
      | None \<Rightarrow>
          let nq = normalized (casefold q) in
          if nq = [] \<or> \<not> contains nq (normalized (casefold v)) then None
          else find_sub (first_word nq) (casefold v))"

text \<open>\<open>Marked cut left matched right cut\<close>; a \<open>cut\<close> prints an ellipsis.\<close>

datatype snippet = Clip string | Marked bool string string string bool

definition search_snippet :: "string \<Rightarrow> string \<Rightarrow> snippet" where
  "search_snippet v q =
     (let mark = (\<lambda>offset width.
            let finish = min (length v) (offset + width + 72); start = offset - 72 in
            Marked (start \<noteq> 0) (take (offset - start) (drop start v)) (take width (drop offset v))
              (take (finish - (offset + width)) (drop (offset + width) v)) (finish < length v))
      in case find_sub (casefold q) (casefold v) of
        Some offset \<Rightarrow> mark offset (length q)
      | None \<Rightarrow>
          let nq = normalized (casefold q) in
          if nq \<noteq> [] \<and> contains nq (normalized (casefold v)) then
            (case find_sub (first_word nq) (casefold v) of
               Some offset \<Rightarrow> mark offset (length (take (length (first_word nq)) (drop offset v)))
             | None \<Rightarrow> Clip (take 144 v))
          else Clip (take 144 v))"

section \<open>The query\<close>

type_synonym fts_index = "fts_row list \<Rightarrow> string \<Rightarrow> (fts_row \<Rightarrow> rat option) option"

record fts_engine =
  token_index :: fts_index
  trigram_index :: fts_index

definition MAX_SEARCH_CANDIDATES :: nat where "MAX_SEARCH_CANDIDATES = 10000"

record hit =
  h_artifact :: artifact_row
  h_version :: version_row
  h_chunk :: "string option"
  h_content :: "string option"
  h_score :: "rat option"

text \<open>\<open>lower\<close> of SQLite folds ASCII letters only; \<open>instr(a, b) > 0\<close>.\<close>

definition sql_lower :: "string \<Rightarrow> string" where
  "sql_lower s = map (\<lambda>c. if is_upper_ascii c then lower_char c else c) s"

definition instr_ci :: "string \<Rightarrow> string \<Rightarrow> bool" where
  "instr_ci s q \<longleftrightarrow> contains (sql_lower q) (sql_lower s)"

definition phrase :: "string \<Rightarrow> string" where
  "phrase q = CHR 0x22 # concat (map (\<lambda>c. if c = CHR 0x22 then [c, c] else [c]) q) @ [CHR 0x22]"

text \<open>The common table expression \<open>readable\<close>.\<close>

definition readable_rows ::
    "database \<Rightarrow> string \<Rightarrow> (database \<Rightarrow> artifact_row \<Rightarrow> bool) \<Rightarrow> string list option \<Rightarrow>
     (string \<times> string) option \<Rightarrow> (artifact_row \<times> version_row) list" where
  "readable_rows db tenant ok component cursor =
     concat (map (\<lambda>a. case current_row db a of
         None \<Rightarrow> []
       | Some v \<Rightarrow> if (case cursor of None \<Rightarrow> True | Some k \<Rightarrow> older k (v_created v, a_id a)) then [(a, v)] else [])
       (filter (\<lambda>a. a_tenant a = tenant
          \<and> (case component of None \<Rightarrow> True | Some ids \<Rightarrow> a_id a \<in> set ids) \<and> ok db a) (t_artifacts db)))"

definition metadata_matches :: "string \<Rightarrow> (artifact_row \<times> version_row) list \<Rightarrow> hit list" where
  "metadata_matches q rs =
     map (\<lambda>(a, v). \<lparr>h_artifact = a, h_version = v, h_chunk = None, h_content = None, h_score = None\<rparr>)
       (filter (\<lambda>(a, v). instr_ci (a_name a) q \<or> instr_ci (a_media a) q) rs)"

definition row_of :: "fts_row \<Rightarrow> artifact_row \<times> version_row \<Rightarrow> bool" where
  "row_of f = (\<lambda>(a, v). f_tenant f = a_tenant a \<and> f_artifact f = a_id a \<and> f_version f = v_id v)"

definition index_matches ::
    "fts_index \<Rightarrow> fts_row list \<Rightarrow> string \<Rightarrow> (artifact_row \<times> version_row) list \<Rightarrow> py_exn + hit list" where
  "index_matches idx fs q rs =
     (case idx fs (phrase q) of
        None \<Rightarrow> Inl (FolioError ''invalid search query'')
      | Some score \<Rightarrow>
          Inr (map (\<lambda>(s, h). h) (take MAX_SEARCH_CANDIDATES (sort_key fst
            (concat (map (\<lambda>f. case score f of
                None \<Rightarrow> []
              | Some s \<Rightarrow> map (\<lambda>(a, v). (s, \<lparr>h_artifact = a, h_version = v, h_chunk = Some (f_chunk f),
                  h_content = Some (f_content f), h_score = Some s\<rparr>)) (filter (row_of f) rs)) fs))))))"

text \<open>Queries of one or two characters also scan the newest chunks of the tenant.\<close>

definition bounded_matches ::
    "database \<Rightarrow> string \<Rightarrow> string \<Rightarrow> (artifact_row \<times> version_row) list \<Rightarrow> hit list" where
  "bounded_matches db tenant q rs =
     concat (map (\<lambda>f. concat (map (\<lambda>(a, v).
         map (\<lambda>c. \<lparr>h_artifact = a, h_version = v, h_chunk = Some (c_id c), h_content = Some (c_content c),
             h_score = None\<rparr>)
           (filter (\<lambda>c. c_id c = f_chunk f \<and> c_tenant c = f_tenant f \<and> instr_ci (c_content c) q) (t_chunks db)))
         (filter (row_of f) rs)))
       (take MAX_SEARCH_CANDIDATES (rev (filter (\<lambda>f. f_tenant f = tenant) (t_chunk_fts db)))))"

definition hit_key :: "hit \<Rightarrow> string \<times> string" where
  "hit_key h = (v_created (h_version h), a_id (h_artifact h))"

definition search_hits ::
    "fts_engine \<Rightarrow> database \<Rightarrow> string \<Rightarrow> string \<Rightarrow> (artifact_row \<times> version_row) list \<Rightarrow> py_exn + hit list" where
  "search_hits F db tenant q rs =
     ebind (index_matches (token_index F) (t_chunk_fts db) q rs) (\<lambda>token.
     ebind (index_matches (trigram_index F) (t_substring_fts db) q rs) (\<lambda>trigram.
     Inr (take MAX_SEARCH_CANDIDATES (rev (sort_key hit_key (rev
       (metadata_matches q rs @ token @ trigram
         @ (if length q < 3 then bounded_matches db tenant q rs else []))))))))"

section \<open>Grouping the rows by artifact\<close>

record search_item =
  si_artifact :: string
  si_version :: string
  si_name :: string
  si_media :: string
  si_kinds :: "string list"
  si_kind :: string
  si_snippet :: snippet
  si_chunk :: "string option"
  si_score :: "rat option"
  si_path :: json
  si_root :: "string option"
  si_graph_path :: "path_node list"
  si_updated :: string

definition match_kinds :: "string \<Rightarrow> hit \<Rightarrow> string list" where
  "match_kinds q h =
     (if match_offset (a_name (h_artifact h)) q \<noteq> None then [''name''] else [])
     @ (if match_offset (a_media (h_artifact h)) q \<noteq> None then [''media_type''] else [])
     @ (case h_content h of None \<Rightarrow> [] | Some body \<Rightarrow>
          if body \<noteq> [] \<and> match_offset body q \<noteq> None then [''body''] else [])"

definition json_path :: "string \<Rightarrow> string \<Rightarrow> json" where
  "json_path name source_context =
     (let ctx = (case loads source_context of None \<Rightarrow> JObj [] | Some c \<Rightarrow> c) in
      if jis_obj ctx then context_path ctx name else JStr name)"

definition new_item :: "string option \<Rightarrow> path_map \<Rightarrow> hit \<Rightarrow> search_item" where
  "new_item graph_root paths h =
     (let a = h_artifact h; v = h_version h in
      \<lparr>si_artifact = a_id a, si_version = v_id v, si_name = a_name a, si_media = a_media a, si_kinds = [],
       si_kind = [], si_snippet = Clip [], si_chunk = None, si_score = None,
       si_path = json_path (a_name a) (v_context v), si_root = graph_root,
       si_graph_path = (case map_of paths (a_id a) of Some p \<Rightarrow> p | None \<Rightarrow> []),
       si_updated = (if v_created v = [] then a_created a else v_created v)\<rparr>)"

text \<open>The loop body after the item is found or made.\<close>

definition absorb_hit :: "string \<Rightarrow> hit \<Rightarrow> search_item \<Rightarrow> search_item" where
  "absorb_hit q h item =
     (let kinds = match_kinds q h;
          body = (''body'' \<in> set kinds);
          all = si_kinds item @ filter (\<lambda>k. k \<notin> set (si_kinds item)) kinds;
          content = (case h_content h of Some s \<Rightarrow> s | None \<Rightarrow> []);
          item' = item\<lparr>si_kinds := all,
            si_kind := (if length all = 1 then hd all else ''multiple'')\<rparr>
      in if body \<and> (''body'' \<notin> set (si_kinds item) \<or> si_score item = None) then
           item'\<lparr>si_snippet := search_snippet content q, si_chunk := h_chunk h, si_score := h_score h\<rparr>
         else if si_snippet item = Clip [] then
           item'\<lparr>si_snippet := search_snippet
             (if ''name'' \<in> set kinds then a_name (h_artifact h) else a_media (h_artifact h)) q\<rparr>
         else item')"

fun collect :: "string \<Rightarrow> string option \<Rightarrow> path_map \<Rightarrow> (string \<times> search_item) list \<Rightarrow> hit list \<Rightarrow>
    (string \<times> search_item) list" where
  "collect q graph_root paths found [] = found"
| "collect q graph_root paths found (h # hs) =
     (if match_kinds q h = [] then collect q graph_root paths found hs
      else let i = a_id (h_artifact h);
               item = (case map_of found i of Some x \<Rightarrow> x | None \<Rightarrow> new_item graph_root paths h)
           in collect q graph_root paths (AList.update i (absorb_hit q h item) found) hs)"

definition item_key :: "search_item \<Rightarrow> string \<times> string" where
  "item_key x = (si_updated x, si_artifact x)"

definition search_cursor :: "env \<Rightarrow> string option \<Rightarrow> py_exn + (string \<times> string) option" where
  "search_cursor E cursor =
     (case opt_check (parse_cursor E) cursor of
        Inl (FolioError _) \<Rightarrow> Inl (FolioError ''invalid artifact_search cursor'')
      | r \<Rightarrow> r)"

definition search ::
    "env \<Rightarrow> fts_engine \<Rightarrow> database \<Rightarrow> string \<Rightarrow> string \<Rightarrow> int \<Rightarrow> string option \<Rightarrow> string option \<Rightarrow>
     string option \<Rightarrow> py_exn + search_item list" where
  "search E F db tenant qtext limit actor graph_root cursor =
     (let q = strip qtext in
      if q = [] then
        (case graph_root of
           None \<Rightarrow> Inr []
         | Some r \<Rightarrow> ebind (authorize db tenant r actor ''read'') (\<lambda>_. Inr []))
      else if length q > MAX_QUERY_LENGTH then Inl (FolioError ''query exceeds 500 characters'')
      else
        ebind (search_cursor E cursor) (\<lambda>key.
        ebind (case graph_root of
            None \<Rightarrow> Inr None
          | Some r \<Rightarrow> ebind (readable_graph_paths db tenant r actor) (\<lambda>p. Inr (Some p))) (\<lambda>paths.
        ebind (access_clause actor ''read'') (\<lambda>ok.
        ebind (search_hits F db tenant q
          (readable_rows db tenant ok (map_option (map fst) paths) key)) (\<lambda>hits.
        let found = map snd (collect q graph_root (case paths of Some p \<Rightarrow> p | None \<Rightarrow> []) [] hits);
            ordered = rev (sort_key item_key found) in
        Inr (take (clamp 1 100 limit) (case key of
            None \<Rightarrow> ordered
          | Some k \<Rightarrow> filter (\<lambda>x. older k (item_key x)) ordered)))))))"

section \<open>Where the hits come from\<close>

definition hit_ok ::
    "database \<Rightarrow> string \<Rightarrow> (database \<Rightarrow> artifact_row \<Rightarrow> bool) \<Rightarrow> string list option \<Rightarrow>
     (string \<times> string) option \<Rightarrow> hit \<Rightarrow> bool" where
  "hit_ok db tenant ok component cursor h \<longleftrightarrow>
     (h_artifact h, h_version h) \<in> set (readable_rows db tenant ok component cursor)"

lemma readable_rows_set:
  "(a, v) \<in> set (readable_rows db tenant ok component cursor) \<longleftrightarrow>
     a \<in> set (t_artifacts db) \<and> a_tenant a = tenant \<and> ok db a \<and> current_row db a = Some v
     \<and> (case component of None \<Rightarrow> True | Some ids \<Rightarrow> a_id a \<in> set ids)
     \<and> (case cursor of None \<Rightarrow> True | Some k \<Rightarrow> older k (v_created v, a_id a))"
  by (auto simp: readable_rows_def split: option.splits if_splits)

lemma metadata_ok: "h \<in> set (metadata_matches q rs) \<Longrightarrow> (h_artifact h, h_version h) \<in> set rs"
  by (auto simp: metadata_matches_def)

lemma index_ok: "index_matches idx fs q rs = Inr hs \<Longrightarrow> h \<in> set hs \<Longrightarrow> (h_artifact h, h_version h) \<in> set rs"
  by (auto simp: index_matches_def split: option.splits dest!: in_set_takeD)

lemma bounded_ok: "h \<in> set (bounded_matches db tenant q rs) \<Longrightarrow> (h_artifact h, h_version h) \<in> set rs"
  by (auto simp: bounded_matches_def dest!: in_set_takeD)

lemma search_hits_ok:
  "search_hits F db tenant q rs = Inr hs \<Longrightarrow> h \<in> set hs \<Longrightarrow> (h_artifact h, h_version h) \<in> set rs"
  by (auto simp: search_hits_def ebind_Inr_iff dest!: in_set_takeD split: if_splits
      intro: metadata_ok index_ok bounded_ok)

section \<open>What the loop keeps\<close>

text \<open>An item stands for a hit of its artifact, and each kind it lists is a match of that artifact or, for
  the body, of a text of one of its hits.\<close>

definition item_ok :: "string \<Rightarrow> hit list \<Rightarrow> search_item \<Rightarrow> bool" where
  "item_ok q hs x \<longleftrightarrow> si_kinds x \<noteq> [] \<and> distinct (si_kinds x)
     \<and> (\<exists>h \<in> set hs. si_artifact x = a_id (h_artifact h) \<and> si_version x = v_id (h_version h)
        \<and> si_updated x = (if v_created (h_version h) = [] then a_created (h_artifact h) else v_created (h_version h)))
     \<and> (\<forall>k \<in> set (si_kinds x). \<exists>h \<in> set hs. a_id (h_artifact h) = si_artifact x \<and> k \<in> set (match_kinds q h))"

lemma distinct_match_kinds: "distinct (match_kinds q h)"
  by (auto simp: match_kinds_def split: option.splits)

lemma absorb_fields:
  "si_artifact (absorb_hit q h x) = si_artifact x" "si_version (absorb_hit q h x) = si_version x"
  "si_updated (absorb_hit q h x) = si_updated x"
  "si_kinds (absorb_hit q h x) = si_kinds x @ filter (\<lambda>k. k \<notin> set (si_kinds x)) (match_kinds q h)"
  by (simp_all add: absorb_hit_def Let_def)

lemma item_ok_mono: "item_ok q hs x \<Longrightarrow> set hs \<subseteq> set hs' \<Longrightarrow> item_ok q hs' x"
  unfolding item_ok_def by blast

lemma item_ok_absorb:
  assumes "item_ok q hs x" "h \<in> set hs" "a_id (h_artifact h) = si_artifact x"
  shows "item_ok q hs (absorb_hit q h x)"
  using assms unfolding item_ok_def absorb_fields by (auto simp: distinct_match_kinds)

lemma item_ok_new:
  assumes "h \<in> set hs" "match_kinds q h \<noteq> []"
  shows "item_ok q hs (absorb_hit q h (new_item rt paths h))"
  using assms unfolding item_ok_def absorb_fields
  by (auto simp: new_item_def Let_def distinct_match_kinds)

lemma new_item_id: "si_artifact (new_item rt paths h) = a_id (h_artifact h)"
  by (simp add: new_item_def Let_def)

lemma collect_ok:
  assumes "dict_ok found" "\<forall>(i, x) \<in> set found. si_artifact x = i \<and> item_ok q (earlier @ hs) x"
  shows "dict_ok (collect q rt paths found hs)
    \<and> (\<forall>(i, x) \<in> set (collect q rt paths found hs). si_artifact x = i \<and> item_ok q (earlier @ hs) x)"
  using assms
proof (induction hs arbitrary: found earlier)
  case (Cons h hs)
  have step: "dict_ok (collect q rt paths f hs)
      \<and> (\<forall>(i, x) \<in> set (collect q rt paths f hs). si_artifact x = i \<and> item_ok q (earlier @ h # hs) x)"
    if "dict_ok f" "\<forall>(i, x) \<in> set f. si_artifact x = i \<and> item_ok q (earlier @ h # hs) x" for f
    using Cons.IH [of f "earlier @ [h]"] that by simp
  show ?case
  proof (cases "match_kinds q h = []")
    case True
    with step [OF Cons.prems] show ?thesis by simp
  next
    case False
    let ?i = "a_id (h_artifact h)"
    let ?x = "case map_of found ?i of Some x \<Rightarrow> x | None \<Rightarrow> new_item rt paths h"
    have "si_artifact (absorb_hit q h ?x) = ?i \<and> item_ok q (earlier @ h # hs) (absorb_hit q h ?x)"
    proof (cases "map_of found ?i")
      case None
      then show ?thesis using False by (simp add: absorb_fields new_item_id item_ok_new)
    next
      case (Some x)
      with Cons.prems(2) have "si_artifact x = ?i" "item_ok q (earlier @ h # hs) x" by (auto dest!: map_of_SomeD)
      with Some show ?thesis by (simp add: absorb_fields item_ok_absorb)
    qed
    with Cons.prems have "\<forall>(i, x) \<in> set (AList.update ?i (absorb_hit q h ?x) found).
        si_artifact x = i \<and> item_ok q (earlier @ h # hs) x"
      by (simp add: set_update)
    with step [OF dict_ok_update [OF Cons.prems(1)], of ?i "absorb_hit q h ?x"] False show ?thesis
      by (simp add: Let_def)
  qed
qed simp

section \<open>Properties\<close>

definition search_scope :: "database \<Rightarrow> string \<Rightarrow> string option \<Rightarrow> string option \<Rightarrow> string \<Rightarrow> bool" where
  "search_scope db tenant actor graph_root i \<longleftrightarrow>
     (case graph_root of None \<Rightarrow> True | Some r \<Rightarrow>
        \<exists>p. linked_path (readable_step db tenant actor) p \<and> pn_artifact (hd p) = r \<and> pn_artifact (last p) = i)"

lemma paths_linked:
  assumes "readable_graph_paths db t start actor = Inr paths" "i \<in> fst ` set paths"
  shows "\<exists>p. linked_path (readable_step db t actor) p \<and> pn_artifact (hd p) = start \<and> pn_artifact (last p) = i"
proof -
  let ?R = "readable_step db t actor" and ?rows = "path_rows db t (\<lambda>db. permits db actor ''read'')"
  from assms(1) obtain a where a: "a_id a = start" and
    paths: "paths = paths_from ?rows 500 [(start, [node_of (a, the (current_row db a))])] [start]"
    by (auto simp: readable_graph_paths_def ebind_Inr_iff access_clause_Inr find_Some_iff
        MAX_GRAPH_COMPONENT_NODES_def split: option.splits)
  have 0: "paths_ok ?R start [(start, [node_of (a, the (current_row db a))])]"
    by (simp add: paths_ok_def node_of_def a)
  have "paths_ok ?R start paths"
    unfolding paths using paths_from_ok [OF 0, of "[start]" 500 ?rows] path_rows_step by simp
  with assms(2) show ?thesis by (fastforce simp: paths_ok_def)
qed

lemma search_Inr:
  assumes "search E F db t qtext limit actor rt cursor = Inr items" "items \<noteq> []"
  shows "\<exists>key paths hits. let q = strip qtext; comp = map_option (map fst) paths;
      found = map snd (collect q rt (case paths of Some p \<Rightarrow> p | None \<Rightarrow> []) [] hits);
      ordered = rev (sort_key item_key found) in
    q \<noteq> [] \<and> length q \<le> MAX_QUERY_LENGTH \<and> actor_ok actor \<and> search_cursor E cursor = Inr key
    \<and> (case rt of None \<Rightarrow> paths = None
        | Some r \<Rightarrow> \<exists>p. paths = Some p \<and> readable_graph_paths db t r actor = Inr p)
    \<and> search_hits F db t q (readable_rows db t (\<lambda>db. permits db actor ''read'') comp key) = Inr hits
    \<and> items = take (clamp 1 100 limit)
        (case key of None \<Rightarrow> ordered | Some k \<Rightarrow> filter (\<lambda>x. older k (item_key x)) ordered)"
  using assms unfolding search_def Let_def
  by (cases rt) (auto simp: ebind_Inr_iff access_clause_Inr split: if_splits)

text \<open>The texts a hit of an artifact may carry: what an index holds for its current version, and the
  chunks those rows name.\<close>

definition indexed_text :: "database \<Rightarrow> string \<Rightarrow> string \<Rightarrow> string \<Rightarrow> bool" where
  "indexed_text db i v body \<longleftrightarrow>
     (\<exists>f \<in> set (t_chunk_fts db) \<union> set (t_substring_fts db). f_artifact f = i \<and> f_version f = v
        \<and> (f_content f = body \<or> (\<exists>c \<in> set (t_chunks db). c_id c = f_chunk f \<and> c_content c = body)))"

lemma hit_text:
  assumes "search_hits F db t q rs = Inr hs" "h \<in> set hs" "h_content h = Some body"
  shows "indexed_text db (a_id (h_artifact h)) (v_id (h_version h)) body"
proof -
  have index: "h' \<in> set hs' \<Longrightarrow> index_matches idx fs q rs = Inr hs' \<Longrightarrow> h_content h' = Some b \<Longrightarrow>
      \<exists>f \<in> set fs. f_artifact f = a_id (h_artifact h') \<and> f_version f = v_id (h_version h') \<and> f_content f = b"
    for idx fs hs' h' b
    by (fastforce simp: index_matches_def row_of_def split: option.splits dest!: in_set_takeD)
  have bounded: "h \<in> set (bounded_matches db t q rs) \<Longrightarrow> \<exists>f \<in> set (t_chunk_fts db). \<exists>c \<in> set (t_chunks db).
      f_artifact f = a_id (h_artifact h) \<and> f_version f = v_id (h_version h) \<and> c_id c = f_chunk f \<and> c_content c = body"
    using assms(3) by (fastforce simp: bounded_matches_def row_of_def dest!: in_set_takeD)
  have meta: "h \<notin> set (metadata_matches q rs)" using assms(3) by (auto simp: metadata_matches_def)
  from assms(1,2) obtain token trigram where
      "index_matches (token_index F) (t_chunk_fts db) q rs = Inr token"
      "index_matches (trigram_index F) (t_substring_fts db) q rs = Inr trigram"
      "h \<in> set token \<or> h \<in> set trigram \<or> h \<in> set (bounded_matches db t q rs)"
    using meta by (auto simp: search_hits_def ebind_Inr_iff dest!: in_set_takeD split: if_splits)
  then show ?thesis unfolding indexed_text_def using index [of h token] index [of h trigram] bounded assms(3)
    by (metis UnI1 UnI2)
qed

text \<open>What an item says about why it was found.\<close>

definition kind_ok :: "database \<Rightarrow> artifact_row \<Rightarrow> version_row \<Rightarrow> string \<Rightarrow> string \<Rightarrow> bool" where
  "kind_ok db a v q k \<longleftrightarrow> k = ''name'' \<and> match_offset (a_name a) q \<noteq> None
     \<or> k = ''media_type'' \<and> match_offset (a_media a) q \<noteq> None
     \<or> k = ''body'' \<and> (\<exists>body. indexed_text db (a_id a) (v_id v) body \<and> match_offset body q \<noteq> None)"

lemma collected_items:
  defines "found \<equiv> \<lambda>q rt ps hits. map snd (collect q rt ps [] hits)"
  shows "x \<in> set (found q rt ps hits) \<Longrightarrow> item_ok q hits x"
    and "sorted_wrt older (map item_key (rev (sort_key item_key (found q rt ps hits))))"
proof -
  have f: "dict_ok (collect q rt ps [] hits)"
      "\<forall>(i, x) \<in> set (collect q rt ps [] hits). si_artifact x = i \<and> item_ok q hits x"
    using collect_ok [of "[]" q "[]" hits rt ps] by simp_all
  then show "x \<in> set (found q rt ps hits) \<Longrightarrow> item_ok q hits x" by (auto simp: found_def)
  have "map si_artifact (found q rt ps hits) = map fst (collect q rt ps [] hits)"
    using f(2) by (auto simp: found_def)
  then have "distinct (map si_artifact (found q rt ps hits))" using f(1) by (simp add: dict_ok_def)
  then have "distinct (map item_key (found q rt ps hits))"
    by (auto simp: distinct_map inj_on_def item_key_def)
  then show "sorted_wrt older (map item_key (rev (sort_key item_key (found q rt ps hits))))" by (rule sorted_older)
qed

lemma match_kinds_iff:
  "k \<in> set (match_kinds q h) \<longleftrightarrow> k = ''name'' \<and> match_offset (a_name (h_artifact h)) q \<noteq> None
     \<or> k = ''media_type'' \<and> match_offset (a_media (h_artifact h)) q \<noteq> None
     \<or> k = ''body'' \<and> (\<exists>body. h_content h = Some body \<and> body \<noteq> [] \<and> match_offset body q \<noteq> None)"
  by (cases "h_content h") (simp_all add: match_kinds_def)

lemma item_stands:
  assumes h: "search_hits F db t q (readable_rows db t (\<lambda>db. permits db actor ''read'')
      (map_option (map fst) paths) key) = Inr hits"
    and p: "case rt of None \<Rightarrow> paths = None | Some r \<Rightarrow> \<exists>p. paths = Some p \<and> readable_graph_paths db t r actor = Inr p"
    and d: "distinct (map a_id (t_artifacts db))" and x: "item_ok q hits x"
  shows "\<exists>a v. a \<in> set (t_artifacts db) \<and> a_tenant a = t \<and> a_id a = si_artifact x
    \<and> permits db actor ''read'' a \<and> current_row db a = Some v \<and> v_id v = si_version x
    \<and> search_scope db t actor rt (a_id a) \<and> si_kinds x \<noteq> []
    \<and> (\<forall>k \<in> set (si_kinds x). kind_ok db a v q k)"
proof -
  have row: "h_artifact g \<in> set (t_artifacts db)" "a_tenant (h_artifact g) = t"
      "permits db actor ''read'' (h_artifact g)" "current_row db (h_artifact g) = Some (h_version g)"
      "case map_option (map fst) paths of None \<Rightarrow> True | Some ids \<Rightarrow> a_id (h_artifact g) \<in> set ids"
    if "g \<in> set hits" for g
    using search_hits_ok [OF h that] by (simp_all add: readable_rows_set)
  from x obtain g where g: "g \<in> set hits" "si_artifact x = a_id (h_artifact g)" "si_version x = v_id (h_version g)"
    unfolding item_ok_def by blast
  have same: "h_artifact g' = h_artifact g" "h_version g' = h_version g"
    if "g' \<in> set hits" "a_id (h_artifact g') = a_id (h_artifact g)" for g'
  proof -
    show eq: "h_artifact g' = h_artifact g"
      using d that(2) row(1) [OF that(1)] row(1) [OF g(1)] by (simp add: distinct_map inj_on_def)
    show "h_version g' = h_version g"
      using row(4) [OF that(1)] row(4) [OF g(1)] eq by simp
  qed
  have "search_scope db t actor rt (a_id (h_artifact g))"
  proof (cases rt)
    case (Some r)
    with p obtain ps where "paths = Some ps" "readable_graph_paths db t r actor = Inr ps" by auto
    with row(5) [OF g(1)] paths_linked [of db t r actor ps] Some show ?thesis by (simp add: search_scope_def)
  qed (simp add: search_scope_def)
  moreover have "\<forall>k \<in> set (si_kinds x). kind_ok db (h_artifact g) (h_version g) q k"
  proof
    fix k assume "k \<in> set (si_kinds x)"
    with x g(2) obtain g' where g': "g' \<in> set hits" "a_id (h_artifact g') = a_id (h_artifact g)" "k \<in> set (match_kinds q g')"
      unfolding item_ok_def by metis
    with hit_text [OF h g'(1)] same [OF g'(1,2)] show "kind_ok db (h_artifact g) (h_version g) q k"
      unfolding match_kinds_iff kind_ok_def by auto
  qed
  moreover have "si_kinds x \<noteq> []" using x by (simp add: item_ok_def)
  ultimately show ?thesis
    using row(1-4) [OF g(1)] g(2,3) by (intro exI [of _ "h_artifact g"] exI [of _ "h_version g"] conjI) simp_all
qed

text \<open>C21: Search shows only what its caller may read: every item of \<open>search\<close> is an artifact of the
  tenant that the actor may read, in its current version, reachable from the graph root over readable
  edges when a root is given and strictly after the cursor; each kind of match it names is a match of
  the query in its name, its media type or an indexed text of that version; the items are in descending
  order without ties and no more than the clamped limit.\<close>

theorem search_results_sound:
  assumes "search E F db t qtext limit actor rt cursor = Inr items"
    and "distinct (map a_id (t_artifacts db))"
  shows "(\<forall>x \<in> set items. \<exists>a v. a \<in> set (t_artifacts db) \<and> a_tenant a = t \<and> a_id a = si_artifact x
        \<and> permits db actor ''read'' a \<and> current_row db a = Some v \<and> v_id v = si_version x
        \<and> search_scope db t actor rt (a_id a) \<and> si_kinds x \<noteq> []
        \<and> (\<forall>key. search_cursor E cursor = Inr (Some key) \<longrightarrow> older key (item_key x))
        \<and> (\<forall>k \<in> set (si_kinds x). kind_ok db a v (strip qtext) k))
    \<and> sorted_wrt older (map item_key items) \<and> length items \<le> clamp 1 100 limit"
proof (cases "items = []")
  case False
  from search_Inr [OF assms(1) False] obtain key paths hits where
      k: "search_cursor E cursor = Inr key"
    and p: "case rt of None \<Rightarrow> paths = None | Some r \<Rightarrow> \<exists>p. paths = Some p \<and> readable_graph_paths db t r actor = Inr p"
    and h: "search_hits F db t (strip qtext) (readable_rows db t (\<lambda>db. permits db actor ''read'')
      (map_option (map fst) paths) key) = Inr hits"
    and items: "items = take (clamp 1 100 limit) (case key of
        None \<Rightarrow> rev (sort_key item_key (map snd (collect (strip qtext) rt (case paths of Some p \<Rightarrow> p | None \<Rightarrow> []) [] hits)))
      | Some k \<Rightarrow> filter (\<lambda>x. older k (item_key x)) (rev (sort_key item_key
          (map snd (collect (strip qtext) rt (case paths of Some p \<Rightarrow> p | None \<Rightarrow> []) [] hits)))))"
    unfolding Let_def by blast
  note found = collected_items [where q = "strip qtext" and rt = rt and hits = hits
      and ps = "case paths of Some p \<Rightarrow> p | None \<Rightarrow> []"]
  have "item_ok (strip qtext) hits x \<and> (\<forall>c. key = Some c \<longrightarrow> older c (item_key x))" if "x \<in> set items" for x
    using that found(1) unfolding items by (auto dest!: in_set_takeD split: option.splits)
  then have "\<forall>x \<in> set items. \<exists>a v. a \<in> set (t_artifacts db) \<and> a_tenant a = t \<and> a_id a = si_artifact x
        \<and> permits db actor ''read'' a \<and> current_row db a = Some v \<and> v_id v = si_version x
        \<and> search_scope db t actor rt (a_id a) \<and> si_kinds x \<noteq> []
        \<and> (\<forall>key. search_cursor E cursor = Inr (Some key) \<longrightarrow> older key (item_key x))
        \<and> (\<forall>k \<in> set (si_kinds x). kind_ok db a v (strip qtext) k)"
    using k item_stands [OF h p assms(2)] by (metis Inr_inject)
  moreover have "sorted_wrt older (map item_key items) \<and> length items \<le> clamp 1 100 limit"
    using found(2) unfolding items
    by (auto simp: take_map [symmetric] sorted_wrt_map sorted_wrt_filter sorted_wrt_take split: option.splits)
  ultimately show ?thesis by blast
qed simp

definition no_fts :: fts_engine where
  "no_fts = \<lparr>token_index = (\<lambda>_ _. Some (\<lambda>_. None)), trigram_index = (\<lambda>_ _. Some (\<lambda>_. None))\<rparr>"

lemma search_results_sound_witness:
  "\<exists>x. search env0 no_fts (lone_db\<lparr>t_versions := [lone_version]\<rparr>) ''t'' '' n '' 10 None None None = Inr [x]
    \<and> kind_ok (lone_db\<lparr>t_versions := [lone_version]\<rparr>) sample_artifact lone_version ''n'' ''name''"
proof -
  let ?db = "lone_db\<lparr>t_versions := [lone_version]\<rparr>"
  have q: "strip '' n '' = ''n''" by (simp add: strip_def lstrip_def is_space_def ord_of_def)
  have m: "match_offset ''n'' ''n'' = Some 0" "match_offset ''text/plain'' ''n'' = Some 9" "instr_ci ''n'' ''n''"
    by code_simp+
  have "\<exists>x. search env0 no_fts ?db ''t'' '' n '' 10 None None None = Inr [x] \<and> si_kinds x = [''name'', ''media_type'']"
    by (simp add: search_def Let_def q MAX_QUERY_LENGTH_def search_cursor_def opt_check_def access_clause_def no_fts_def
        search_hits_def index_matches_def readable_rows_def metadata_matches_def bounded_matches_def lone_db_def
        sample_artifact_def lone_version_def current_row_def empty_db_def MAX_SEARCH_CANDIDATES_def m
        match_kinds_def absorb_fields new_item_def clamp_def)
  then obtain x where x: "search env0 no_fts ?db ''t'' '' n '' 10 None None None = Inr [x]" "''name'' \<in> set (si_kinds x)"
    by auto
  have d: "distinct (map a_id (t_artifacts ?db))" by (simp add: lone_db_def)
  from search_results_sound [OF x(1) d] x(2) q obtain a v where
    "a \<in> set (t_artifacts ?db)" "current_row ?db a = Some v" "kind_ok ?db a v ''n'' ''name''" by auto
  with x(1) show ?thesis by (auto simp: lone_db_def current_row_def lone_version_def sample_artifact_def)
qed

lemma casefold_plain: "CHR 0xDF \<notin> set s \<Longrightarrow> casefold s = map lower_char s"
proof (induction s)
  case (Cons c s)
  then have "c \<noteq> CHR 0xDF" "casefold s = map lower_char s" by auto
  moreover have "c = CHR 0xDF" if "ord_of c = 223"
  proof -
    have "of_char (CHR 0xDF) = (223 :: nat)" by simp
    with that have "of_char c = (of_char (CHR 0xDF) :: nat)" unfolding ord_of_def by metis
    then show ?thesis by (simp only: of_char_eq_iff)
  qed
  ultimately show ?case by (auto simp: casefold_def)
qed (simp add: casefold_def)

lemma cut_out:
  assumes "i + n \<le> length v"
  shows "v = take (i - 72) v @ take (i - (i - 72)) (drop (i - 72) v) @ take n (drop i v)
    @ take (min (length v) (i + n + 72) - (i + n)) (drop (i + n) v) @ drop (min (length v) (i + n + 72)) v"
proof -
  have "take (i - 72) v @ take (i - (i - 72)) (drop (i - 72) v) = take i v"
    by (metis append_take_drop_id diff_le_self drop_take le_add_diff_inverse take_add take_drop)
  moreover have "take n (drop i v) @ drop (i + n) v = drop i v"
    by (metis add.commute append_take_drop_id drop_drop)
  moreover have "take (min (length v) (i + n + 72) - (i + n)) (drop (i + n) v) @ drop (min (length v) (i + n + 72)) v
      = drop (i + n) v"
  proof -
    have "drop (min (length v) (i + n + 72)) v = drop (min (length v) (i + n + 72) - (i + n)) (drop (i + n) v)"
      using assms by simp
    then show ?thesis by (metis append_take_drop_id)
  qed
  ultimately show ?thesis by (metis append.assoc append_take_drop_id)
qed

text \<open>A snippet shows the match: when the query occurs in a text, up to letter case, and neither has
  a sharp s, the snippet of the text is a stretch of it with the match marked: the marked part equals
  the query up to case, at most 72 characters stand on each side, and there is an ellipsis exactly
  where something is cut off.\<close>

theorem snippet_marks_match:
  assumes "find_sub (casefold q) (casefold v) = Some i" and "CHR 0xDF \<notin> set v" and "CHR 0xDF \<notin> set q"
  shows "\<exists>cut l m r cut' pre post. search_snippet v q = Marked cut l m r cut' \<and> casefold m = casefold q
    \<and> v = pre @ l @ m @ r @ post \<and> length l \<le> 72 \<and> length r \<le> 72
    \<and> cut = (pre \<noteq> []) \<and> cut' = (post \<noteq> [])"
proof -
  have fold: "casefold v = map lower_char v" "casefold q = map lower_char q"
    using assms(2,3) by (simp_all add: casefold_plain)
  from find_sub_bound [OF assms(1)] have le: "i + length q \<le> length v" by (simp add: fold)
  let ?m = "take (length q) (drop i v)" and ?fin = "min (length v) (i + length q + 72)"
  have "CHR 0xDF \<notin> set ?m" using assms(2) by (meson in_set_dropD in_set_takeD)
  then have "casefold ?m = map lower_char ?m" by (rule casefold_plain)
  also have "\<dots> = casefold q"
    using find_sub_occurs [OF assms(1)] by (simp add: fold take_map drop_map)
  finally have m: "casefold ?m = casefold q" .
  have "search_snippet v q = Marked (i - 72 \<noteq> 0) (take (i - (i - 72)) (drop (i - 72) v)) ?m
      (take (?fin - (i + length q)) (drop (i + length q) v)) (?fin < length v)"
    by (auto simp: search_snippet_def assms(1) Let_def)
  moreover have "(i - 72 \<noteq> 0) = (take (i - 72) v \<noteq> [])" using le by (cases "i \<le> 72") auto
  moreover have "(?fin < length v) = (drop ?fin v \<noteq> [])" by auto
  moreover note cut_out [OF le] m
  ultimately show ?thesis by (intro exI conjI) (assumption | simp)+
qed

lemma snippet_marks_match_witness:
  "search_snippet ''the Graph store'' ''graph'' = Marked False ''the '' ''Graph'' '' store'' False
    \<and> casefold ''Graph'' = casefold ''graph''"
proof -
  have f: "find_sub (casefold ''graph'') (casefold ''the Graph store'') = Some 4" by code_simp
  have "search_snippet ''the Graph store'' ''graph'' = Marked False ''the '' ''Graph'' '' store'' False" by code_simp
  moreover have "\<exists>cut l m r cut' pre post. search_snippet ''the Graph store'' ''graph'' = Marked cut l m r cut'
      \<and> casefold m = casefold ''graph''"
    using snippet_marks_match [OF f] by fastforce
  ultimately show ?thesis by auto
qed

text \<open>With a sharp s in the text the marked part slips: offsets into the case-folded text, where the
  sharp s counts twice, are used on the text itself.\<close>

lemma sharp_s_shifts_snippet:
  "search_snippet [CHR 0xDF, CHR ''a'', CHR ''b''] ''a'' = Marked False [CHR 0xDF, CHR ''a''] ''b'' [] False"
  by code_simp

end
