(* ===== verification/Audit_Event.thy ===== *)
theory Audit_Event
  imports Store
begin

text \<open>
  \<open>audit.py\<close>: what an audit event may hold (\<open>validate_token\<close>, \<open>safe_details\<close>), how long it
  is kept (\<open>expiry_for\<close>), its canonical text and the hash over it. The request trace context, a
  context variable of the request, is an argument (\<open>None\<close> outside a request).
\<close>

section \<open>Constants\<close>

definition AUDIT_SCHEMA_VERSION :: string where "AUDIT_SCHEMA_VERSION = ''audit-v2''"
definition AUDIT_MAX_EVENTS_PER_EXPORT :: nat where "AUDIT_MAX_EVENTS_PER_EXPORT = 10000"
definition AUDIT_MAX_EXPORT_BYTES :: nat where "AUDIT_MAX_EXPORT_BYTES = 1 * 1024 * 1024"
definition AUDIT_EXPORT_TTL_SECONDS :: nat where "AUDIT_EXPORT_TTL_SECONDS = 24 * 60 * 60"

definition AUDIT_RETENTION_DAYS :: "(string \<times> nat) list" where
  "AUDIT_RETENTION_DAYS = [(''security'', 365), (''request'', 90), (''debug'', 30)]"

definition AUDIT_DETAIL_KEYS :: "string list" where
  "AUDIT_DETAIL_KEYS = [''status_code'', ''reason_code'', ''policy_version'', ''source'',
     ''connection_id'', ''tool_name'', ''resource_type'', ''resource_id'', ''limit_name'',
     ''retry_after'', ''transport'']"

section \<open>Tokens\<close>

text \<open>\<open>^[A-Za-z0-9_.:/-]{1,255}$\<close>, matched against the whole text.\<close>

definition safe_char :: "char \<Rightarrow> bool" where
  "safe_char c \<longleftrightarrow> is_alnum_ascii c \<or> c \<in> set ''_.:/-''"

definition safe_token :: "string \<Rightarrow> bool" where
  "safe_token s \<longleftrightarrow> 1 \<le> length s \<and> length s \<le> 255 \<and> list_all safe_char s"

definition validate_token :: "string \<Rightarrow> string \<Rightarrow> bool \<Rightarrow> py_exn + string" where
  "validate_token field v allow_empty =
     (if (\<not> allow_empty \<and> v = []) \<or> length v > 255
      then Inl (AuditValidationError (field @ '' is invalid''))
      else if v \<noteq> [] \<and> (\<not> safe_token v \<or> v \<noteq> strip v \<or> contains ''://'' v)
        then Inl (AuditValidationError (field @ '' is invalid''))
      else Inr v)"

lemma validate_token_Inr [err_simps]:
  "validate_token f v False = Inr r \<longleftrightarrow> r = v \<and> safe_token v \<and> v = strip v \<and> \<not> contains ''://'' v"
  by (auto simp: validate_token_def safe_token_def)

section \<open>Details\<close>

text \<open>The value of a finite float from its \<open>repr\<close>: digits, fraction and decimal exponent.\<close>

definition float_abs :: "string \<Rightarrow> rat" where
  "float_abs r =
     (let (mantissa, has_exp, ex) = partition_at (CHR ''e'') (strip_sign ''-'' r);
          (whole, dot, frac) = partition_at (CHR ''.'') mantissa;
          n = of_nat (digits_value (whole @ frac));
          k = (if has_exp then int_value (strip_sign ''+'' ex) else 0) - int (length frac)
      in if 0 \<le> k then n * 10 ^ nat k else n / 10 ^ nat (- k))"

definition SECRET_MARKERS :: "string list" where
  "SECRET_MARKERS = [''bearer'', ''token'', ''secret'', ''credential'', ''password'']"

definition safe_text :: "string \<Rightarrow> bool" where
  "safe_text v \<longleftrightarrow> length v \<le> 255 \<and> \<not> list_ex ctrl_char v \<and> \<not> contains ''://'' v
     \<and> \<not> list_ex (\<lambda>marker. contains marker (casefold v)) SECRET_MARKERS"

fun safe_value :: "json \<Rightarrow> py_exn + json" where
  "safe_value (JBool b) = Inr (JBool b)"
| "safe_value (JInt i) =
     (if \<bar>i\<bar> > 1000000000 then Inl (AuditValidationError ''audit detail is out of bounds'')
      else Inr (JInt i))"
| "safe_value (JFloat r) =
     (if r \<in> {''nan'', ''inf'', ''-inf''} \<or> float_abs r > 10 ^ 12
      then Inl (AuditValidationError ''audit detail is out of bounds'') else Inr (JFloat r))"
| "safe_value (JStr s) =
     (if safe_text s then Inr (JStr s)
      else Inl (AuditValidationError ''audit detail is out of bounds''))"
| "safe_value v = Inl (AuditValidationError ''audit details must contain scalar values'')"

definition safe_entry :: "string \<times> json \<Rightarrow> py_exn + string \<times> json" where
  "safe_entry kv =
     (if fst kv \<notin> set AUDIT_DETAIL_KEYS
      then Inl (AuditValidationError ''audit details contain a restricted field'')
      else ebind (safe_value (snd kv)) (\<lambda>v. Inr (fst kv, v)))"

fun safe_details :: "json option \<Rightarrow> py_exn + (string \<times> json) list" where
  "safe_details None = Inr []"
| "safe_details (Some (JObj kvs)) =
     (if length kvs > length AUDIT_DETAIL_KEYS
      then Inl (AuditValidationError ''audit details are invalid'')
      else emap_list safe_entry kvs)"
| "safe_details (Some _) = Inl (AuditValidationError ''audit details are invalid'')"

section \<open>Retention\<close>

definition US_PER_DAY :: nat where "US_PER_DAY = 86400000000"

text \<open>\<open>datetime + timedelta(days=...)\<close> raises past the year 9999.\<close>

definition expiry_text :: "string \<Rightarrow> nat \<Rightarrow> py_exn + string" where
  "expiry_text retention now =
     (case map_of AUDIT_RETENTION_DAYS retention of
        None \<Rightarrow> Inl (AuditValidationError ''audit retention class is invalid'')
      | Some days \<Rightarrow>
          if now + days * US_PER_DAY \<ge> MAX_INSTANT
          then Inl (OtherError ''date value out of range'')
          else Inr (iso_of (now + days * US_PER_DAY)))"

text \<open>The clock is read only for a known class.\<close>

definition expiry_for :: "env \<Rightarrow> string \<Rightarrow> (world, string) action" where
  "expiry_for E retention =
     (if map_of AUDIT_RETENTION_DAYS retention = None
      then mraise (AuditValidationError ''audit retention class is invalid'')
      else (\<lambda>w. (expiry_text retention (clock_us E (w_now w)), w\<lparr>w_now := Suc (w_now w)\<rparr>)))"

section \<open>Events, their canonical text and hash\<close>

record audit_event =
  ae_id :: string
  ae_occurred :: string
  ae_tenant :: string
  ae_actor :: string
  ae_actor_type :: string
  ae_request :: string
  ae_correlation :: string
  ae_trace :: string
  ae_span :: string
  ae_action :: string
  ae_resource_type :: string
  ae_resource :: "string option"
  ae_outcome :: string
  ae_reason :: string
  ae_policy :: string
  ae_source :: string
  ae_details :: json
  ae_retention :: string
  ae_expires :: string
  ae_hold :: bool
  ae_hash :: string

definition opt_str :: "string option \<Rightarrow> json" where
  "opt_str v = (case v of None \<Rightarrow> JNull | Some s \<Rightarrow> JStr s)"

text \<open>The dictionary without its \<open>integrity_hash\<close>.\<close>

definition event_payload :: "audit_event \<Rightarrow> (string \<times> json) list" where
  "event_payload e =
     [(''id'', JStr (ae_id e)), (''occurred_at'', JStr (ae_occurred e)),
      (''tenant_id'', JStr (ae_tenant e)), (''actor_id'', JStr (ae_actor e)),
      (''actor_type'', JStr (ae_actor_type e)), (''request_id'', JStr (ae_request e)),
      (''correlation_id'', JStr (ae_correlation e)), (''trace_id'', JStr (ae_trace e)),
      (''span_id'', JStr (ae_span e)), (''action'', JStr (ae_action e)),
      (''resource_type'', JStr (ae_resource_type e)), (''resource_id'', opt_str (ae_resource e)),
      (''outcome'', JStr (ae_outcome e)), (''reason'', JStr (ae_reason e)),
      (''policy_version'', JStr (ae_policy e)), (''source'', JStr (ae_source e)),
      (''details'', ae_details e), (''retention_class'', JStr (ae_retention e)),
      (''expires_at'', JStr (ae_expires e)), (''legal_hold'', JBool (ae_hold e))]"

definition canonical_event :: "json \<Rightarrow> bytes" where
  "canonical_event event = utf8 (dumps_sorted event)"

definition integrity_hash :: "env \<Rightarrow> json \<Rightarrow> string" where
  "integrity_hash E event = sha256_hex E (canonical_event event)"

definition event_hash :: "env \<Rightarrow> audit_event \<Rightarrow> string" where
  "event_hash E e = integrity_hash E (JObj (event_payload e))"

definition export_line :: "audit_event \<Rightarrow> bytes" where
  "export_line e =
     canonical_event (JObj (event_payload e @ [(''integrity_hash'', JStr (ae_hash e))])) @ [10]"

definition legacy_trace_id :: "env \<Rightarrow> string \<Rightarrow> string" where
  "legacy_trace_id E eid = take 32 (sha256_hex E (utf8 (''folio-legacy-trace:'' @ eid)))"

definition legacy_span_id :: "env \<Rightarrow> string \<Rightarrow> string" where
  "legacy_span_id E eid = take 16 (sha256_hex E (utf8 (''folio-legacy-span:'' @ eid)))"

section \<open>What the canonical text determines\<close>

lemma byte_eq: "m < 256 \<Longrightarrow> n < 256 \<Longrightarrow> (of_nat m :: 8 word) = of_nat n \<longleftrightarrow> m = n"
  by (simp add: word_of_nat_eq_iff take_bit_eq_mod)

lemma utf8_char_cases:
  obtains "ord_of c < 128" "utf8_char c = [of_nat (ord_of c)]"
  | "128 \<le> ord_of c" "utf8_char c = [of_nat (192 + ord_of c div 64), of_nat (128 + ord_of c mod 64)]"
  by (cases "ord_of c < 128") (auto simp: utf8_char_def Let_def)

lemma ord_of_eq: "ord_of c = ord_of d \<Longrightarrow> c = d"
  by (metis char_of_ord)

lemma utf8_char_append:
  "utf8_char c @ s = utf8_char d @ t \<Longrightarrow> c = d \<and> s = t"
proof -
  assume eq: "utf8_char c @ s = utf8_char d @ t"
  have b: "192 + ord_of x div 64 < 256" "128 + ord_of x mod 64 < 256" for x
    using ord_of_less [of x] by (simp_all add: div_less_iff_less_mult)
  show ?thesis
  proof (cases c rule: utf8_char_cases)
    case c: 1
    show ?thesis
    proof (cases d rule: utf8_char_cases)
      case 1
      with c eq show ?thesis by (auto simp: byte_eq intro: ord_of_eq)
    next
      case 2
      with c eq have "(of_nat (ord_of c) :: 8 word) = of_nat (192 + ord_of d div 64)" by simp
      with c(1) byte_eq [of "ord_of c" "192 + ord_of d div 64"] b(1) [of d] show ?thesis by simp
    qed
  next
    case c: 2
    show ?thesis
    proof (cases d rule: utf8_char_cases)
      case 1
      with c eq have "(of_nat (192 + ord_of c div 64) :: 8 word) = of_nat (ord_of d)" by simp
      with 1(1) byte_eq [of "192 + ord_of c div 64" "ord_of d"] b(1) [of c] show ?thesis by simp
    next
      case 2
      with c eq have "(of_nat (192 + ord_of c div 64) :: 8 word) = of_nat (192 + ord_of d div 64)"
        "(of_nat (128 + ord_of c mod 64) :: 8 word) = of_nat (128 + ord_of d mod 64)" and st: "s = t" by simp_all
      then have "ord_of c div 64 = ord_of d div 64" "ord_of c mod 64 = ord_of d mod 64"
        using byte_eq b by (metis add_left_cancel)+
      then have "ord_of c = ord_of d" by (metis div_mult_mod_eq)
      with st show ?thesis by (simp add: ord_of_eq)
    qed
  qed
qed

lemma utf8_inj: "utf8 s = utf8 t \<Longrightarrow> s = t"
proof (induction s arbitrary: t)
  case Nil
  have "utf8_char c \<noteq> []" for c by (cases c rule: utf8_char_cases) auto
  with Nil show ?case by (cases t) (auto simp: utf8_def)
next
  case (Cons c s)
  have ne: "utf8_char d \<noteq> []" for d by (cases d rule: utf8_char_cases) auto
  with Cons.prems obtain d u where t: "t = d # u" by (cases t) (auto simp: utf8_def)
  with Cons.prems have "utf8_char c @ utf8 s = utf8_char d @ utf8 u" by (simp add: utf8_def)
  from utf8_char_append [OF this] Cons.IH t show ?case by simp
qed

lemma map_of_sort_key: "dict_ok kvs \<Longrightarrow> map_of (sort_key fst kvs) = map_of kvs"
  unfolding dict_ok_def by (rule map_of_inject_set [THEN iffD2]) (simp_all add: distinct_map)

lemma map_of_jsort: "map_of (map (\<lambda>(k, v). (k, jsort v)) kvs) k = map_option jsort (map_of kvs k)"
  by (induction kvs) auto

lemma jsort_obj_eq:
  assumes "dict_ok a" "dict_ok b" "jsort (JObj a) = jsort (JObj b)"
  shows "map_option jsort (map_of a k) = map_option jsort (map_of b k)"
proof -
  let ?f = "map (\<lambda>(k, v). (k, jsort v))"
  have d: "dict_ok (?f kvs) = dict_ok kvs" for kvs by (simp add: dict_ok_def comp_def case_prod_unfold)
  from assms(3) have "map_of (sort_key fst (?f a)) k = map_of (sort_key fst (?f b)) k" by simp
  then show ?thesis using assms(1,2) by (simp add: map_of_sort_key d map_of_jsort)
qed

lemma wf_event: "wf_json (ae_details e) \<Longrightarrow> wf_json (JObj (event_payload e))"
  by (simp add: event_payload_def dict_ok_def opt_str_def split: option.splits)

lemma canonical_event_eq:
  assumes "wf_json u" "wf_json v" "canonical_event u = canonical_event v"
  shows "jsort u = jsort v"
  using assms utf8_inj loads_dumps_sorted unfolding canonical_event_def by (metis option.inject)

lemma jsort_opt_str [simp]: "jsort (opt_str v) = opt_str v"
  by (simp add: opt_str_def split: option.splits)

lemma opt_str_eq [simp]: "opt_str u = opt_str v \<longleftrightarrow> u = v"
  by (simp add: opt_str_def split: option.splits)

text \<open>What the hash of an event is computed of.\<close>

definition hashed_bytes :: "audit_event \<Rightarrow> bytes" where
  "hashed_bytes e = canonical_event (JObj (event_payload e))"

text \<open>Equal hashes mean equal events unless they collide: every field, and the details as a dictionary.\<close>

lemma event_hash_eq:
  assumes wf: "wf_json (ae_details e)" "wf_json (ae_details f)"
    and apart: "sha256_hex E (hashed_bytes e) = sha256_hex E (hashed_bytes f) \<Longrightarrow> hashed_bytes e = hashed_bytes f"
    and h: "event_hash E e = event_hash E f"
  shows "e\<lparr>ae_details := jsort (ae_details e), ae_hash := h\<rparr> = f\<lparr>ae_details := jsort (ae_details f), ae_hash := h\<rparr>"
proof -
  have "jsort (JObj (event_payload e)) = jsort (JObj (event_payload f))"
    using canonical_event_eq [OF wf_event wf_event, OF wf] apart h
    by (simp only: event_hash_def integrity_hash_def hashed_bytes_def)
  moreover have "dict_ok (event_payload x)" for x :: audit_event
    by (simp add: event_payload_def dict_ok_def)
  ultimately have k: "map_option jsort (map_of (event_payload e) k) = map_option jsort (map_of (event_payload f) k)" for k
    using jsort_obj_eq by blast
  have "ae_id e = ae_id f" "ae_occurred e = ae_occurred f" "ae_tenant e = ae_tenant f" "ae_actor e = ae_actor f"
    "ae_actor_type e = ae_actor_type f" "ae_request e = ae_request f" "ae_correlation e = ae_correlation f"
    using k [of "''id''"] k [of "''occurred_at''"] k [of "''tenant_id''"] k [of "''actor_id''"]
      k [of "''actor_type''"] k [of "''request_id''"] k [of "''correlation_id''"]
    by (simp_all add: event_payload_def)
  moreover have "ae_trace e = ae_trace f" "ae_span e = ae_span f" "ae_action e = ae_action f"
    "ae_resource_type e = ae_resource_type f" "ae_resource e = ae_resource f" "ae_outcome e = ae_outcome f"
    "ae_reason e = ae_reason f"
    using k [of "''trace_id''"] k [of "''span_id''"] k [of "''action''"] k [of "''resource_type''"]
      k [of "''resource_id''"] k [of "''outcome''"] k [of "''reason''"]
    by (simp_all add: event_payload_def)
  moreover have "ae_policy e = ae_policy f" "ae_source e = ae_source f" "ae_retention e = ae_retention f"
    "ae_expires e = ae_expires f" "ae_hold e = ae_hold f" "jsort (ae_details e) = jsort (ae_details f)"
    using k [of "''policy_version''"] k [of "''source''"] k [of "''retention_class''"]
      k [of "''expires_at''"] k [of "''legal_hold''"] k [of "''details''"]
    by (simp_all add: event_payload_def)
  ultimately show ?thesis by simp
qed

text \<open>Sorting the details first does not change the text.\<close>

lemma jsort_idem: "jsort (jsort v) = jsort v"
proof (induction v)
  case (JObj kvs)
  let ?g = "\<lambda>(k, v). (k, jsort v)" and ?xs = "sort_key fst (map (\<lambda>(k, v). (k, jsort v)) kvs)"
  have "map ?g ?xs = ?xs" using JObj by (intro map_idI) (fastforce simp: image_iff)
  moreover have "sort_key fst ?xs = ?xs" by (rule sort_key_id_if_sorted) simp
  ultimately show ?case by simp
qed auto

lemma safe_value_id: "safe_value v = Inr u \<Longrightarrow> u = v"
  by (cases v) (auto split: if_splits)

lemma safe_details_id: "safe_details (Some j) = Inr kvs \<Longrightarrow> j = JObj kvs"
proof -
  assume s: "safe_details (Some j) = Inr kvs"
  then obtain xs where j: "j = JObj xs" and e: "emap_list safe_entry xs = Inr kvs"
    by (cases j) (auto split: if_splits)
  from e have "list_all2 (\<lambda>x y. safe_entry x = Inr y) xs kvs" by (simp add: emap_list_Inr)
  then have "list_all2 (=) xs kvs"
    by (rule list_all2_mono) (auto simp: safe_entry_def ebind_Inr_iff prod_eq_iff dest: safe_value_id split: if_splits)
  with j show ?thesis by (simp add: list_all2_eq)
qed

lemma safe_details_wf:
  "safe_details d = Inr kvs \<Longrightarrow> (\<forall>v. d = Some v \<longrightarrow> wf_json v) \<Longrightarrow> wf_json (JObj kvs)"
  by (cases d) (auto dest: safe_details_id simp: dict_ok_def)

text \<open>Whether an event verifies does not depend on the order of its details.\<close>

lemma event_hash_jsort: "event_hash E (e\<lparr>ae_details := jsort (ae_details e)\<rparr>) = event_hash E e"
proof -
  have "jsort (JObj (event_payload (e\<lparr>ae_details := jsort (ae_details e)\<rparr>))) = jsort (JObj (event_payload e))"
    by (simp only: jsort.simps) (simp add: event_payload_def jsort_idem)
  then show ?thesis by (simp only: event_hash_def integrity_hash_def canonical_event_def dumps_sorted_def)
qed

end
