(* ===== verification/Audit_Log.thy ===== *)
theory Audit_Log
  imports Listing Frame Audit_Event
begin

text \<open>
  The audit log of \<open>service.py\<close>: events are built from validated fields, hashed and appended, read
  back only if their hash still matches, exported in bounded pages, put on legal hold and purged when
  their retention has passed. Every recorded event verifies when it is read back, and stays verifiable
  through holds and purges; a row whose covered columns were changed does not verify.
\<close>

section \<open>Rows and events\<close>

definition view_event :: "event_row \<Rightarrow> audit_event" where
  "view_event r = \<lparr>ae_id = ev_id r, ae_occurred = ev_occurred r, ae_tenant = ev_tenant r,
     ae_actor = ev_actor r, ae_actor_type = ev_actor_type r, ae_request = ev_request r,
     ae_correlation = ev_correlation r, ae_trace = ev_trace r, ae_span = ev_span r,
     ae_action = ev_action r, ae_resource_type = ev_resource_type r, ae_resource = ev_resource r,
     ae_outcome = ev_outcome r, ae_reason = ev_reason r, ae_policy = ev_policy r,
     ae_source = ev_source r,
     ae_details = (case loads (ev_details_json r) of Some d \<Rightarrow> d | None \<Rightarrow> JObj []),
     ae_retention = ev_retention r, ae_expires = ev_expires r, ae_hold = (ev_hold r \<noteq> 0),
     ae_hash = ev_hash r\<rparr>"

definition event_row_of :: "audit_event \<Rightarrow> event_row" where
  "event_row_of e = \<lparr>ev_id = ae_id e, ev_occurred = ae_occurred e, ev_tenant = ae_tenant e,
     ev_actor = ae_actor e, ev_actor_type = ae_actor_type e, ev_request = ae_request e,
     ev_correlation = ae_correlation e, ev_trace = ae_trace e, ev_span = ae_span e,
     ev_action = ae_action e, ev_resource_type = ae_resource_type e, ev_resource = ae_resource e,
     ev_outcome = ae_outcome e, ev_reason = ae_reason e, ev_policy = ae_policy e,
     ev_source = ae_source e, ev_details_json = dumps_sorted (ae_details e),
     ev_retention = ae_retention e, ev_expires = ae_expires e,
     ev_hold = (if ae_hold e then 1 else 0), ev_hash = ae_hash e\<rparr>"

definition integrity_ok :: "env \<Rightarrow> audit_event \<Rightarrow> bool" where
  "integrity_ok E e \<longleftrightarrow> ae_hash e = event_hash E e"

definition verified_row :: "env \<Rightarrow> event_row \<Rightarrow> py_exn + audit_event" where
  "verified_row E r =
     (let e = view_event r in
      if integrity_ok E e then Inr e else Inl (FolioError ''audit integrity verification failed''))"

text \<open>\<open>INSERT INTO audit_events\<close>: primary key and tenant reference.\<close>

definition insert_event_row :: "event_row \<Rightarrow> (world, unit) action" where
  "insert_event_row r = execute
     (\<lambda>db. ev_id r \<notin> ev_id ` set (t_events db) \<and> has_tenant db (ev_tenant r))
     (\<lambda>db. db\<lparr>t_events := t_events db @ [r]\<rparr>)"

definition insert_audit_event :: "audit_event \<Rightarrow> (world, unit) action" where
  "insert_audit_event e = insert_event_row (event_row_of e)"

section \<open>Building an event\<close>

text \<open>\<open>except AuditValidationError as exc: raise FolioError(str(exc))\<close>\<close>

fun as_folio :: "py_exn \<Rightarrow> py_exn" where
  "as_folio (AuditValidationError m) = FolioError m"
| "as_folio e = e"

definition folio_errors :: "py_exn + 'a \<Rightarrow> py_exn + 'a" where
  "folio_errors r = (case r of Inl e \<Rightarrow> Inl (as_folio e) | Inr x \<Rightarrow> Inr x)"

definition tokens :: "(string \<times> string) list \<Rightarrow> py_exn + string list" where
  "tokens fs = emap_list (\<lambda>(field, v). validate_token field v False) fs"

text \<open>\<open>a or b\<close> of an optional text.\<close>

definition or_else :: "string option \<Rightarrow> string \<Rightarrow> string" where
  "or_else v d = (case v of Some s \<Rightarrow> if s = [] then d else s | None \<Rightarrow> d)"

record audit_request =
  aq_tenant :: string
  aq_actor :: string
  aq_action :: string
  aq_outcome :: string
  aq_request :: "string option"
  aq_correlation :: "string option"
  aq_resource_type :: string
  aq_resource :: "string option"
  aq_reason :: string
  aq_policy :: string
  aq_source :: string
  aq_details :: "json option"
  aq_retention :: string

definition request_id_for :: "env \<Rightarrow> string option \<Rightarrow> (world, string) action" where
  "request_id_for E given =
     (if or_else given [] = [] then new_id E ''req'' else mret (or_else given []))"

definition finish_event ::
    "env \<Rightarrow> (string \<times> string) option \<Rightarrow> audit_request \<Rightarrow> string \<Rightarrow> string \<Rightarrow> string \<Rightarrow>
     (string \<times> json) list \<Rightarrow> string \<Rightarrow> string \<Rightarrow> audit_event" where
  "finish_event E ctx q eid rid cid safe expires now =
     (let (trace, span) = (case ctx of Some ts \<Rightarrow> ts | None \<Rightarrow> (legacy_trace_id E eid, legacy_span_id E eid));
          e = \<lparr>ae_id = eid, ae_occurred = now, ae_tenant = aq_tenant q, ae_actor = aq_actor q,
            ae_actor_type = ''actor'', ae_request = rid, ae_correlation = cid, ae_trace = trace,
            ae_span = span, ae_action = aq_action q, ae_resource_type = aq_resource_type q,
            ae_resource = aq_resource q, ae_outcome = aq_outcome q, ae_reason = aq_reason q,
            ae_policy = aq_policy q, ae_source = aq_source q, ae_details = JObj safe,
            ae_retention = aq_retention q, ae_expires = expires, ae_hold = False, ae_hash = []\<rparr>
      in e\<lparr>ae_hash := event_hash E e\<rparr>)"

definition build_audit_event ::
    "env \<Rightarrow> (string \<times> string) option \<Rightarrow> audit_request \<Rightarrow> (world, audit_event) action" where
  "build_audit_event E ctx q =
     mbind (new_id E ''audit'') (\<lambda>eid.
     mbind (mtry (
       mbind (mlift (tokens [(''tenant_id'', aq_tenant q), (''actor_id'', aq_actor q),
         (''action'', aq_action q), (''outcome'', aq_outcome q), (''resource_type'', aq_resource_type q),
         (''policy_version'', aq_policy q), (''source'', aq_source q), (''reason'', aq_reason q)])) (\<lambda>_.
       mbind (mlift (opt_check (\<lambda>v. validate_token ''resource_id'' v False) (aq_resource q))) (\<lambda>_.
       mbind (request_id_for E (aq_request q)) (\<lambda>rid.
       mbind (mlift (validate_token ''request_id'' rid False)) (\<lambda>_.
       mbind (mlift (validate_token ''correlation_id'' (or_else (aq_correlation q) rid) False)) (\<lambda>cid.
       mbind (mlift (safe_details (aq_details q))) (\<lambda>safe.
       mbind (expiry_for E (aq_retention q)) (\<lambda>expires.
       mret (rid, cid, safe, expires)))))))))
       (\<lambda>e. mraise (as_folio e))) (\<lambda>(rid, cid, safe, expires).
     mbind (utc_now E) (\<lambda>now.
     mret (finish_event E ctx q eid rid cid safe expires now))))"

definition record_audit_event ::
    "env \<Rightarrow> (string \<times> string) option \<Rightarrow> audit_request \<Rightarrow> (world, audit_event) action" where
  "record_audit_event E ctx q =
     mbind (build_audit_event E ctx q) (\<lambda>e.
     mbind (transact (
       mbind (ensure_tenant E (ae_tenant e)) (\<lambda>_.
       insert_audit_event e))) (\<lambda>_.
     mret e))"

section \<open>Reading the log\<close>

definition replace_z :: "string \<Rightarrow> string" where
  "replace_z s = concat (map (\<lambda>c. if c = CHR ''Z'' then ''+00:00'' else [c]) s)"

definition audit_bound :: "env \<Rightarrow> string \<Rightarrow> string option \<Rightarrow> py_exn + nat option" where
  "audit_bound E field v =
     (case v of
        None \<Rightarrow> Inr None
      | Some s \<Rightarrow>
          if length s > 64 \<or> list_ex (\<lambda>c. ord_of c < 32) s then Inl (FolioError (field @ '' is invalid''))
          else case iso_parse E (replace_z s) of
            None \<Rightarrow> Inl (FolioError ''audit time window is invalid'')
          | Some (t, aware) \<Rightarrow>
              if \<not> aware then Inl (FolioError (field @ '' must include a timezone''))
              else if t < 0 \<or> int MAX_INSTANT \<le> t then Inl (OtherError ''date value out of range'')
              else Inr (Some (nat t)))"

definition audit_window ::
    "env \<Rightarrow> string option \<Rightarrow> string option \<Rightarrow> py_exn + string option \<times> string option" where
  "audit_window E from_time to_time =
     ebind (audit_bound E ''from_time'' from_time) (\<lambda>f.
     ebind (audit_bound E ''to_time'' to_time) (\<lambda>t.
     if (case (f, t) of (Some a, Some b) \<Rightarrow> a > b | _ \<Rightarrow> False)
     then Inl (FolioError ''audit time window is inverted'')
     else Inr (map_option iso_of f, map_option iso_of t)))"

definition event_key :: "event_row \<Rightarrow> string \<times> string" where
  "event_key r = (ev_occurred r, ev_id r)"

definition window_rows ::
    "database \<Rightarrow> string \<Rightarrow> string option \<Rightarrow> string option \<Rightarrow> (string \<times> string) option \<Rightarrow> event_row list" where
  "window_rows db tenant from_time to_time cursor =
     sort_key event_key (filter (\<lambda>r. ev_tenant r = tenant
       \<and> (case from_time of None \<Rightarrow> True | Some t \<Rightarrow> t \<le> ev_occurred r)
       \<and> (case to_time of None \<Rightarrow> True | Some t \<Rightarrow> ev_occurred r \<le> t)
       \<and> (case cursor of None \<Rightarrow> True | Some k \<Rightarrow> newer k (event_key r))) (t_events db))"

definition audit_cursor :: "env \<Rightarrow> string option \<Rightarrow> py_exn + (string \<times> string) option" where
  "audit_cursor E cursor =
     (case opt_check (parse_cursor E) cursor of
        Inl (FolioError _) \<Rightarrow> Inl (FolioError ''invalid audit cursor'')
      | r \<Rightarrow> r)"

definition list_audit_events ::
    "env \<Rightarrow> database \<Rightarrow> string \<Rightarrow> string \<Rightarrow> string option \<Rightarrow> string option \<Rightarrow> int \<Rightarrow> string option \<Rightarrow>
     py_exn + audit_event list" where
  "list_audit_events E db tenant actor from_time to_time limit cursor =
     ebind (folio_errors (tokens [(''tenant_id'', tenant), (''actor_id'', actor)])) (\<lambda>_.
     ebind (audit_window E from_time to_time) (\<lambda>(from_time, to_time).
     ebind (audit_cursor E cursor) (\<lambda>key.
     emap_list (verified_row E) (take (clamp 1 AUDIT_MAX_EVENTS_PER_EXPORT limit)
       (window_rows db tenant from_time to_time key)))))"

section \<open>Export\<close>

text \<open>The loop over the rows of the query (at most one more than the requested limit); \<open>fetchmany\<close>
  only buffers them. The result is the events, their lines and whether rows are left.\<close>

fun export_scan ::
    "env \<Rightarrow> nat \<Rightarrow> audit_event list \<Rightarrow> bytes list \<Rightarrow> nat \<Rightarrow> event_row list \<Rightarrow>
     py_exn + audit_event list \<times> bytes list \<times> bool" where
  "export_scan E cap events lines used [] = Inr (events, lines, False)"
| "export_scan E cap events lines used (r # rows) =
     ebind (verified_row E r) (\<lambda>e.
     let line = export_line e in
     if used + length line > AUDIT_MAX_EXPORT_BYTES then
       (if events = [] then Inl (FolioError ''audit export exceeds the allowed size'')
        else Inr (events, lines, True))
     else if length events + 1 \<ge> cap then Inr (events @ [e], lines @ [line], rows \<noteq> [])
     else export_scan E cap (events @ [e]) (lines @ [line]) (used + length line) rows)"

definition hex_bytes :: "bytes \<Rightarrow> string" where
  "hex_bytes bs = concat (map (\<lambda>b. [hex_digit (unat b div 16), hex_digit (unat b mod 16)]) bs)"

record audit_export =
  ax_id :: string
  ax_schema :: string
  ax_tenant :: string
  ax_requested_by :: string
  ax_created :: string
  ax_expires :: string
  ax_count :: nat
  ax_checksum :: string
  ax_next :: "string option"
  ax_events :: "audit_event list"

definition insert_export_row :: "export_row \<Rightarrow> (world, unit) action" where
  "insert_export_row r = execute
     (\<lambda>db. xp_id r \<notin> xp_id ` set (t_exports db) \<and> has_tenant db (xp_tenant r))
     (\<lambda>db. db\<lparr>t_exports := t_exports db @ [r]\<rparr>)"

definition export_expiry :: "env \<Rightarrow> (world, string) action" where
  "export_expiry E = (\<lambda>w. (let t = clock_us E (w_now w) + AUDIT_EXPORT_TTL_SECONDS * 1000000 in
     if t \<ge> MAX_INSTANT then Inl (ValueError ''year 10000 is out of range'') else Inr (iso_of t),
     w\<lparr>w_now := Suc (w_now w)\<rparr>))"

definition export_request :: "string \<Rightarrow> string \<Rightarrow> string \<Rightarrow> audit_request" where
  "export_request tenant actor xid = \<lparr>aq_tenant = tenant, aq_actor = actor, aq_action = ''audit_export'',
     aq_outcome = ''allowed'', aq_request = Some xid, aq_correlation = Some xid,
     aq_resource_type = ''audit_export'', aq_resource = Some xid, aq_reason = ''export_created'',
     aq_policy = AUDIT_SCHEMA_VERSION, aq_source = ''audit'',
     aq_details = Some (JObj [(''status_code'', JInt 200), (''transport'', JStr ''mcp'')]),
     aq_retention = ''security''\<rparr>"

definition export_audit_events ::
    "env \<Rightarrow> (string \<times> string) option \<Rightarrow> string \<Rightarrow> string \<Rightarrow> string option \<Rightarrow> string option \<Rightarrow> int \<Rightarrow>
     string option \<Rightarrow> (world, audit_export) action" where
  "export_audit_events E ctx tenant actor from_time to_time limit cursor =
     mbind (mlift (folio_errors (tokens [(''tenant_id'', tenant), (''actor_id'', actor)]))) (\<lambda>_.
     mbind (mlift (audit_window E from_time to_time)) (\<lambda>(from_time, to_time).
     mbind (mlift (audit_cursor E cursor)) (\<lambda>key.
     let cap = clamp 1 AUDIT_MAX_EVENTS_PER_EXPORT limit in
     mbind (query_or_raise (\<lambda>db. export_scan E cap [] [] 0
       (take (cap + 1) (window_rows db tenant from_time to_time key)))) (\<lambda>(events, lines, has_more).
     mbind (utc_now E) (\<lambda>created.
     mbind (new_id E ''audit-export'') (\<lambda>xid.
     mbind (export_expiry E) (\<lambda>expires.
     let checksum = integrity_hash E (JObj [(''schema_version'', JStr AUDIT_SCHEMA_VERSION),
           (''ndjson'', JStr (hex_bytes (concat lines)))]);
         next_cursor = (if events \<noteq> [] \<and> has_more
           then Some (cursor_text (ae_occurred (last events), ae_id (last events))) else None)
     in
     mbind (build_audit_event E ctx (export_request tenant actor xid)) (\<lambda>e.
     mbind (transact (
       mbind (ensure_tenant E tenant) (\<lambda>_.
       mbind (insert_export_row \<lparr>xp_id = xid, xp_tenant = tenant, xp_requested_by = actor,
           xp_created = created, xp_from = from_time, xp_to = to_time, xp_count = length events,
           xp_checksum = checksum, xp_schema = AUDIT_SCHEMA_VERSION, xp_expires = expires,
           xp_status = ''ready''\<rparr>) (\<lambda>_.
       insert_audit_event e)))) (\<lambda>_.
     mret \<lparr>ax_id = xid, ax_schema = AUDIT_SCHEMA_VERSION, ax_tenant = tenant, ax_requested_by = actor,
       ax_created = created, ax_expires = expires, ax_count = length events, ax_checksum = checksum,
       ax_next = next_cursor, ax_events = events\<rparr>)))))))))"

section \<open>Legal hold and retention\<close>

text \<open>\<open>UPDATE audit_events SET legal_hold = 1, integrity_hash = ? WHERE tenant_id = ? AND id = ?\<close>\<close>

definition set_hold :: "string \<Rightarrow> string \<Rightarrow> string \<Rightarrow> (world, unit) action" where
  "set_hold tenant eid h = execute (\<lambda>db. True)
     (\<lambda>db. db\<lparr>t_events := map (\<lambda>r. if ev_tenant r = tenant \<and> ev_id r = eid
        then r\<lparr>ev_hold := 1, ev_hash := h\<rparr> else r) (t_events db)\<rparr>)"

definition hold_request :: "string \<Rightarrow> string \<Rightarrow> string \<Rightarrow> audit_request" where
  "hold_request tenant actor reason = \<lparr>aq_tenant = tenant, aq_actor = actor,
     aq_action = ''audit_legal_hold'', aq_outcome = ''allowed'', aq_request = None,
     aq_correlation = None, aq_resource_type = ''audit_event'', aq_resource = None, aq_reason = reason,
     aq_policy = AUDIT_SCHEMA_VERSION, aq_source = ''audit'',
     aq_details = Some (JObj [(''status_code'', JInt 200)]), aq_retention = ''security''\<rparr>"

definition hold_row :: "env \<Rightarrow> string \<Rightarrow> event_row \<Rightarrow> (world, unit) action" where
  "hold_row E tenant r =
     mbind (mlift (verified_row E r)) (\<lambda>e.
     set_hold tenant (ae_id e) (event_hash E (e\<lparr>ae_hold := True\<rparr>)))"

definition set_audit_legal_hold ::
    "env \<Rightarrow> (string \<times> string) option \<Rightarrow> string \<Rightarrow> string \<Rightarrow> string list \<Rightarrow> string \<Rightarrow> (world, nat) action" where
  "set_audit_legal_hold E ctx tenant actor event_ids reason =
     mbind (mlift (folio_errors (tokens ([(''tenant_id'', tenant), (''actor_id'', actor), (''reason'', reason)]
       @ map (Pair ''event_id'') event_ids)))) (\<lambda>_.
     mbind (mguard (event_ids = [] \<or> length event_ids > AUDIT_MAX_EVENTS_PER_EXPORT)
       (FolioError ''audit legal hold event list is out of bounds'')) (\<lambda>_.
     mbind (build_audit_event E ctx (hold_request tenant actor reason)) (\<lambda>hold_event.
     transact (
       mbind (ensure_tenant E tenant) (\<lambda>_.
       mbind (query (\<lambda>db. filter (\<lambda>r. ev_tenant r = tenant \<and> ev_id r \<in> set event_ids) (t_events db))) (\<lambda>rows.
       mbind (mfor rows (hold_row E tenant)) (\<lambda>_.
       mbind (insert_audit_event hold_event) (\<lambda>_.
       mret (length rows)))))))))"

definition expired :: "string \<Rightarrow> event_row \<Rightarrow> bool" where
  "expired cutoff r \<longleftrightarrow> ev_expires r \<le> cutoff \<and> ev_hold r = 0"

definition purge_request :: "string \<Rightarrow> nat \<Rightarrow> audit_request" where
  "purge_request tenant n = \<lparr>aq_tenant = tenant, aq_actor = ''system'',
     aq_action = ''audit_retention_purge'', aq_outcome = ''allowed'', aq_request = None,
     aq_correlation = None, aq_resource_type = ''audit_event'', aq_resource = None,
     aq_reason = ''retention_expired'', aq_policy = AUDIT_SCHEMA_VERSION, aq_source = ''retention'',
     aq_details = Some (JObj [(''status_code'', JInt 200), (''limit_name'', JStr (nat_text n))]),
     aq_retention = ''security''\<rparr>"

text \<open>\<open>SELECT tenant_id, COUNT(*) ... GROUP BY tenant_id\<close>\<close>

definition expired_counts :: "string \<Rightarrow> database \<Rightarrow> (string \<times> nat) list" where
  "expired_counts cutoff db =
     (let ts = map ev_tenant (filter (expired cutoff) (t_events db)) in
      map (\<lambda>t. (t, length (filter (\<lambda>x. x = t) ts))) (sort (remdups ts)))"

definition delete_expired :: "string \<Rightarrow> (world, unit) action" where
  "delete_expired cutoff = execute (\<lambda>db. True)
     (\<lambda>db. db\<lparr>t_events := filter (\<lambda>r. \<not> expired cutoff r) (t_events db)\<rparr>)"

definition record_purge ::
    "env \<Rightarrow> (string \<times> string) option \<Rightarrow> string \<times> nat \<Rightarrow> (world, unit) action" where
  "record_purge E ctx tn =
     mbind (build_audit_event E ctx (purge_request (fst tn) (snd tn))) insert_audit_event"

definition purge_audit_events ::
    "env \<Rightarrow> (string \<times> string) option \<Rightarrow> string option \<Rightarrow> (world, (string \<times> nat) list) action" where
  "purge_audit_events E ctx now =
     mbind (if or_else now [] = [] then utc_now E else mret (or_else now [])) (\<lambda>cutoff.
     mbind (mguard (length cutoff > 64 \<or> list_ex (\<lambda>c. ord_of c < 32) cutoff)
       (FolioError ''audit purge time is invalid'')) (\<lambda>_.
     transact (
       mbind (query (expired_counts cutoff)) (\<lambda>rows.
       mbind (delete_expired cutoff) (\<lambda>_.
       mbind (mfor rows (record_purge E ctx)) (\<lambda>_.
       mret rows))))))"

definition audit_metrics :: "database \<Rightarrow> nat \<times> nat \<times> nat \<times> nat" where
  "audit_metrics db =
     (length (t_events db),
      length (filter (\<lambda>r. ev_outcome r = ''denied'') (t_events db)),
      length (filter (\<lambda>r. ev_action r = ''audit_export'') (t_events db)),
      length (filter (\<lambda>r. ev_action r = ''audit_retention_purge'') (t_events db)))"

section \<open>The log leaves the artifact graph alone\<close>

lemma framed_insert_event: "steps_by framed (insert_audit_event e)"
  unfolding insert_audit_event_def insert_event_row_def
  by (rule framed_execute) (simp add: same_graph_def)

lemma framed_expiry_for: "steps_by framed (expiry_for E c)"
  by (rule steps_byI) (auto simp: expiry_for_def mraise_def framed_def same_graph_def split: if_splits)

lemma framed_build: "steps_by framed (build_audit_event E ctx q)"
  unfolding build_audit_event_def request_id_for_def
  by (intro framed.world_intros framed_expiry_for) (auto intro!: framed.world_intros split: prod.split)

lemma framed_record: "steps_by framed (record_audit_event E ctx q)"
  unfolding record_audit_event_def
  by (intro framed.world_intros framed_build framed_ensure_tenant framed_insert_event)

lemma framed_export_expiry: "steps_by framed (export_expiry E)"
  by (rule steps_byI) (auto simp: export_expiry_def framed_def same_graph_def Let_def)

lemma framed_insert_export: "steps_by framed (insert_export_row r)"
  unfolding insert_export_row_def by (rule framed_execute) (simp add: same_graph_def)

lemma framed_export: "steps_by framed (export_audit_events E ctx t actor f u limit cursor)"
  unfolding export_audit_events_def Let_def
  by (intro framed.world_intros framed_build framed_ensure_tenant framed_insert_event
      framed_export_expiry framed_insert_export)
    (auto intro!: framed.world_intros framed_build framed_ensure_tenant framed_insert_event
      framed_export_expiry framed_insert_export split: prod.split)

lemma framed_hold_row: "steps_by framed (hold_row E t r)"
  unfolding hold_row_def set_hold_def
  by (intro framed.world_intros framed_execute) (simp add: same_graph_def)

lemma framed_hold: "steps_by framed (set_audit_legal_hold E ctx t actor ids reason)"
  unfolding set_audit_legal_hold_def
  by (intro framed.world_intros framed_build framed_ensure_tenant framed_insert_event framed_hold_row)

lemma framed_delete_expired: "steps_by framed (delete_expired cutoff)"
  unfolding delete_expired_def by (rule framed_execute) (simp add: same_graph_def)

lemma framed_purge: "steps_by framed (purge_audit_events E ctx now)"
  unfolding purge_audit_events_def record_purge_def
  by (intro framed.world_intros framed_build framed_insert_event framed_delete_expired)

section \<open>Every event verifies\<close>

definition audit_ok :: "env \<Rightarrow> database \<Rightarrow> bool" where
  "audit_ok E db \<longleftrightarrow> distinct (map ev_id (t_events db))
     \<and> (\<forall>r \<in> set (t_events db). integrity_ok E (view_event r))"

definition keeps_audit :: "env \<Rightarrow> world \<Rightarrow> world \<Rightarrow> bool" where
  "keeps_audit E w w' \<longleftrightarrow> (audit_ok E (w_db w) \<longrightarrow> audit_ok E (w_db w'))"

interpretation audited: world_relation "keeps_audit E" for E
  by unfold_locales (auto simp: keeps_audit_def)

text \<open>An operation that does not touch the event table keeps the log.\<close>

lemma audited_execute:
  "(\<And>db. t_events (f db) = t_events db) \<Longrightarrow> steps_by (keeps_audit E) (execute ok f)"
  by (rule audited.steps_execute) (simp add: keeps_audit_def audit_ok_def)

lemma audited_ensure_tenant: "steps_by (keeps_audit E) (ensure_tenant E' t)"
  unfolding ensure_tenant_def insert_or_ignore_tenant_def
  by (intro audited.world_intros audited_execute) simp

lemma audited_expiry_for: "steps_by (keeps_audit E) (expiry_for E' c)"
  by (rule steps_byI) (auto simp: expiry_for_def mraise_def keeps_audit_def split: if_splits)

lemma audited_build: "steps_by (keeps_audit E) (build_audit_event E' ctx q)"
  unfolding build_audit_event_def request_id_for_def
  by (intro audited.world_intros audited_expiry_for) (auto intro!: audited.world_intros split: prod.split)

text \<open>The details a caller may pass: a dictionary (distinct keys, floats by their \<open>repr\<close>).\<close>

definition details_ok :: "json option \<Rightarrow> bool" where
  "details_ok d \<longleftrightarrow> (\<forall>v. d = Some v \<longrightarrow> wf_json v)"

lemma view_event_row: "wf_json (ae_details e) \<Longrightarrow>
    view_event (event_row_of e) = e\<lparr>ae_details := jsort (ae_details e)\<rparr>"
  by (simp add: view_event_def event_row_of_def loads_dumps_sorted)

lemma integrity_event_row:
  "wf_json (ae_details e) \<Longrightarrow> integrity_ok E e \<Longrightarrow> integrity_ok E (view_event (event_row_of e))"
  by (simp add: view_event_row integrity_ok_def event_hash_jsort)

lemma event_hash_hash [simp]: "event_hash E (e\<lparr>ae_hash := h\<rparr>) = event_hash E e"
  by (simp add: event_hash_def event_payload_def)

lemma finish_event_ok: "integrity_ok E (finish_event E ctx q eid rid cid safe expires now)"
  by (simp add: finish_event_def integrity_ok_def Let_def event_hash_def event_payload_def split: prod.split)

lemma finish_event_fields:
  "ae_details (finish_event E ctx q eid rid cid safe expires now) = JObj safe"
  "ae_tenant (finish_event E ctx q eid rid cid safe expires now) = aq_tenant q"
  "ae_actor (finish_event E ctx q eid rid cid safe expires now) = aq_actor q"
  "ae_action (finish_event E ctx q eid rid cid safe expires now) = aq_action q"
  "ae_id (finish_event E ctx q eid rid cid safe expires now) = eid"
  "ae_hold (finish_event E ctx q eid rid cid safe expires now) = False"
  "ae_expires (finish_event E ctx q eid rid cid safe expires now) = expires"
  by (simp_all add: finish_event_def Let_def split: prod.split)

lemma mtry_raise_Inr: "mtry m (\<lambda>e. mraise (f e)) s = (Inr x, t) \<longleftrightarrow> m s = (Inr x, t)"
  by (auto simp: mtry_def mraise_def split: prod.splits sum.splits)

lemma build_Inr:
  assumes "build_audit_event E ctx q w = (Inr e, w')"
  obtains eid rid cid safe expires now where
    "e = finish_event E ctx q eid rid cid safe expires now" "safe_details (aq_details q) = Inr safe"
  using assms unfolding build_audit_event_def
  by (auto simp: mbind_Inr_iff mtry_raise_Inr mlift_iff mret_iff utc_now_iff)

lemma build_yields:
  "details_ok (aq_details q) \<Longrightarrow> yields (build_audit_event E ctx q)
     (\<lambda>e. integrity_ok E e \<and> wf_json (ae_details e) \<and> ae_tenant e = aq_tenant q \<and> ae_action e = aq_action q
        \<and> \<not> ae_hold e)"
  by (rule yieldsI, erule build_Inr) (auto simp: finish_event_ok finish_event_fields details_ok_def
      dest: safe_details_wf)

definition quiet :: "world \<Rightarrow> world \<Rightarrow> bool" where
  "quiet w w' \<longleftrightarrow> w_db w' = w_db w \<and> w_blobs w' = w_blobs w"

interpretation quiet: world_relation quiet
  by unfold_locales (auto simp: quiet_def)

lemma quiet_expiry_for: "steps_by quiet (expiry_for E c)"
  by (rule steps_byI) (auto simp: expiry_for_def mraise_def quiet_def split: if_splits)

lemma quiet_build: "steps_by quiet (build_audit_event E ctx q)"
  unfolding build_audit_event_def request_id_for_def
  by (intro quiet.world_intros quiet_expiry_for) (auto intro!: quiet.world_intros split: prod.split)

lemma audited_insert_event:
  "integrity_ok E e \<Longrightarrow> wf_json (ae_details e) \<Longrightarrow> steps_by (keeps_audit E) (insert_audit_event e)"
  unfolding insert_audit_event_def insert_event_row_def
  by (rule audited.steps_execute)
    (auto simp: keeps_audit_def audit_ok_def event_row_of_def dest: integrity_event_row)

lemma audited_record:
  assumes "details_ok (aq_details q)"
  shows "steps_by (keeps_audit E) (record_audit_event E ctx q)"
  unfolding record_audit_event_def
  by (rule audited.steps_mbind_yields [OF audited_build build_yields [OF assms]])
    (intro audited.world_intros audited_ensure_tenant audited_insert_event; simp)

lemma audited_export: "steps_by (keeps_audit E) (export_audit_events E ctx t actor f u limit cursor)"
proof -
  have x: "steps_by (keeps_audit E) (export_expiry E)"
    by (rule steps_byI) (auto simp: export_expiry_def keeps_audit_def Let_def)
  have r: "steps_by (keeps_audit E) (insert_export_row r)" for r
    unfolding insert_export_row_def by (rule audited_execute) simp
  have d: "details_ok (aq_details (export_request t actor xid))" for xid
    by (simp add: details_ok_def export_request_def dict_ok_def)
  have e: "steps_by (keeps_audit E) (mbind (build_audit_event E ctx (export_request t actor xid)) (\<lambda>e.
     mbind (transact (mbind (ensure_tenant E t) (\<lambda>_. mbind (insert_export_row r) (\<lambda>_. insert_audit_event e))))
       (\<lambda>_. mret z)))" for xid r z
    by (rule audited.steps_mbind_yields [OF audited_build build_yields [OF d]])
      (intro audited.world_intros audited_ensure_tenant audited_insert_event r; simp)
  show ?thesis
    unfolding export_audit_events_def Let_def
    by (intro audited.world_intros x e) (auto intro!: audited.world_intros x e split: prod.split)
qed

section \<open>Holds and purges\<close>




lemma framed_db: "framed w w' \<Longrightarrow> same_graph (w_db w) (w_db w')"
  by (simp add: framed_def)

lemma ensure_tenant_events: "ensure_tenant E t w = (r, w') \<Longrightarrow> t_events (w_db w') = t_events (w_db w)"
  by (auto simp: ensure_tenant_def insert_or_ignore_tenant_def mbind_def mlift_def utc_now_def execute_def
      split: sum.splits)

lemma insert_event_Inr:
  "insert_audit_event e w = (Inr u, w') \<Longrightarrow>
    t_events (w_db w') = t_events (w_db w) @ [event_row_of e]"
  by (auto simp: insert_audit_event_def insert_event_row_def execute_iff split: if_splits)



lemma audited_purge: "steps_by (keeps_audit E) (purge_audit_events E ctx now)"
proof -
  have d: "details_ok (aq_details (purge_request t n))" for t n
    by (simp add: details_ok_def purge_request_def dict_ok_def)
  have p: "steps_by (keeps_audit E) (record_purge E ctx tn)" for tn
    unfolding record_purge_def
    by (rule audited.steps_mbind_yields [OF audited_build build_yields [OF d]]) (simp add: audited_insert_event)
  have "steps_by (keeps_audit E) (delete_expired cutoff)" for cutoff
    unfolding delete_expired_def
    by (rule audited.steps_execute) (auto simp: keeps_audit_def audit_ok_def distinct_map intro: inj_on_subset)
  then show ?thesis
    unfolding purge_audit_events_def by (intro audited.world_intros p)
qed

text \<open>The events a purge adds: one per entry of the count, each a purge event of its tenant.\<close>

lemma record_purges:
  "mfor rows (record_purge E ctx) w = (Inr (), w') \<Longrightarrow>
    \<exists>new. t_events (w_db w') = t_events (w_db w) @ new \<and> map ev_tenant new = map fst rows
      \<and> (\<forall>r \<in> set new. ev_action r = ''audit_retention_purge'')"
proof (induction rows arbitrary: w)
  case Nil
  then show ?case by (simp add: mret_def)
next
  case (Cons tn rows)
  from Cons.prems obtain w2 where r: "record_purge E ctx tn w = (Inr (), w2)"
    and l: "mfor rows (record_purge E ctx) w2 = (Inr (), w')" by (auto simp: mbind_Inr_iff)
  from r obtain e w1 where b: "build_audit_event E ctx (purge_request (fst tn) (snd tn)) w = (Inr e, w1)"
    and i: "insert_audit_event e w1 = (Inr (), w2)" by (auto simp: mbind_Inr_iff record_purge_def)
  have "w_db w1 = w_db w" using steps_byD [OF quiet_build b] by (simp add: quiet_def)
  moreover have "ae_tenant e = fst tn" "ae_action e = ''audit_retention_purge''"
    using b by (auto elim!: build_Inr simp: finish_event_fields purge_request_def)
  moreover obtain new where "t_events (w_db w') = t_events (w_db w2) @ new" "map ev_tenant new = map fst rows"
    "\<forall>r \<in> set new. ev_action r = ''audit_retention_purge''" using Cons.IH [OF l] by blast
  ultimately show ?case
    using insert_event_Inr [OF i] by (intro exI [of _ "event_row_of e # new"]) (simp add: event_row_of_def)
qed

lemma purge_Inr:
  assumes "purge_audit_events E ctx (Some cutoff) w = (Inr counts, w')" and "cutoff \<noteq> []"
  shows "counts = expired_counts cutoff (w_db w) \<and> (\<exists>new. t_events (w_db w') =
      filter (\<lambda>r. \<not> expired cutoff r) (t_events (w_db w)) @ new
    \<and> map ev_tenant new = map fst counts \<and> (\<forall>r \<in> set new. ev_action r = ''audit_retention_purge''))"
proof -
  from assms obtain w1 where d: "delete_expired cutoff w = (Inr (), w1)"
    and l: "mfor (expired_counts cutoff (w_db w)) (record_purge E ctx) w1 = (Inr (), w')"
    and c: "counts = expired_counts cutoff (w_db w)"
    unfolding purge_audit_events_def
    by (clarsimp simp: or_else_def mbind_Inr_iff mguard_iff transact_Inr query_iff mret_iff split: if_splits)
  have "t_events (w_db w1) = filter (\<lambda>r. \<not> expired cutoff r) (t_events (w_db w))"
    using d by (auto simp: delete_expired_def execute_iff)
  with record_purges [OF l] c show ?thesis by simp
qed

section \<open>Properties\<close>

text \<open>A log with one event, on which the witnesses run the operations.\<close>

definition sample_request :: audit_request where
  "sample_request = \<lparr>aq_tenant = ''t'', aq_actor = ''ann'', aq_action = ''artifact_read'',
     aq_outcome = ''allowed'', aq_request = None, aq_correlation = None, aq_resource_type = ''artifact'',
     aq_resource = Some ''art_1'', aq_reason = ''unspecified'', aq_policy = AUDIT_SCHEMA_VERSION,
     aq_source = ''service'', aq_details = Some (JObj [(''status_code'', JInt 200)]),
     aq_retention = ''security''\<rparr>"

definition sample_row :: event_row where
  "sample_row = event_row_of (finish_event env0 None sample_request ''audit_1'' ''req_1'' ''req_1''
     [(''status_code'', JInt 200)] ''2027'' ''2026'')"

definition audit_world :: world where
  "audit_world = empty_world\<lparr>w_db := empty_db\<lparr>t_tenants := [\<lparr>tn_id = ''t'', tn_created = ''2026''\<rparr>],
     t_events := [sample_row]\<rparr>\<rparr>"

lemma sample_row_ok: "integrity_ok env0 (view_event sample_row)"
  unfolding sample_row_def
  by (rule integrity_event_row) (simp_all add: finish_event_ok finish_event_fields dict_ok_def)

lemma sample_row_fields [simp]:
  "ev_id sample_row = ''audit_1''" "ev_tenant sample_row = ''t''" "ev_hold sample_row = 0"
  "ev_expires sample_row = ''2027''"
  by (simp_all add: sample_row_def event_row_of_def finish_event_def sample_request_def Let_def)

lemma sample_verified: "verified_row env0 sample_row = Inr (view_event sample_row)"
  by (simp add: verified_row_def sample_row_ok)

lemma audit_world_events [simp]:
  "t_events (w_db audit_world) = [sample_row]" "has_tenant (w_db audit_world) ''t''"
  "t_tenants (w_db audit_world) = [\<lparr>tn_id = ''t'', tn_created = ''2026''\<rparr>]"
  "w_ids audit_world = 0" "w_now audit_world = 0" "t_exports (w_db audit_world) = []"
  by (simp_all add: audit_world_def has_tenant_def empty_world_def empty_db_def)




lemma env0_fields: "uuid_hex env0 n = replicate n CHR ''0''" "clock_us env0 n = 1000000 * n"
  by (simp_all add: env0_def)

lemma view_event_id [simp]: "ae_id (view_event r) = ev_id r"
  by (simp add: view_event_def)

lemma event_row_fields:
  "ev_id (event_row_of e) = ae_id e" "ev_tenant (event_row_of e) = ae_tenant e"
  "ev_expires (event_row_of e) = ae_expires e" "ev_hold (event_row_of e) = (if ae_hold e then 1 else 0)"
  by (simp_all add: event_row_of_def)

lemmas audit_eval = mbind_def mtry_def mret_def mlift_def mguard_def mraise_def transact_def query_def mget_def
  build_audit_event_def new_id_def utc_now_def tokens_def validate_token_Inr safe_token_def safe_char_def
  is_alnum_ascii_def is_alpha_ascii_def is_upper_ascii_def is_digit_ascii_def strip_def lstrip_def
  is_space_def ord_of_def contains_def starts_with_def opt_check_def request_id_for_def or_else_def
  safe_entry_def AUDIT_DETAIL_KEYS_def expiry_for_def expiry_text_def AUDIT_RETENTION_DAYS_def
  US_PER_DAY_def MAX_INSTANT_def AUDIT_SCHEMA_VERSION_def env0_fields ident_def ensure_tenant_def
  validate_text_def MAX_NAME_LENGTH_def insert_or_ignore_tenant_def execute_def has_tenant_def
  insert_audit_event_def insert_event_row_def event_row_fields finish_event_fields validate_token_def

lemma sample_record: "\<exists>e w'. record_audit_event env0 None sample_request audit_world = (Inr e, w')"
  by (simp add: record_audit_event_def sample_request_def audit_eval)

text \<open>C25: What is recorded can be read back: a successful \<open>record_audit_event\<close> appends one row, and
  reading that row verifies its integrity hash and returns the recorded event, its details in sorted
  key order, although the details went through JSON text.\<close>

theorem recorded_event_verifies:
  assumes "record_audit_event E ctx q w = (Inr e, w')" and "details_ok (aq_details q)"
  shows "\<exists>row. t_events (w_db w') = t_events (w_db w) @ [row]
    \<and> verified_row E row = Inr (e\<lparr>ae_details := jsort (ae_details e)\<rparr>)"
proof -
  from assms(1) obtain w1 w2 where b: "build_audit_event E ctx q w = (Inr e, w1)"
    and t: "ensure_tenant E (ae_tenant e) w1 = (Inr (), w2)" and i: "insert_audit_event e w2 = (Inr (), w')"
    unfolding record_audit_event_def by (auto simp: mbind_Inr_iff transact_Inr mret_iff)
  have e: "integrity_ok E e" "wf_json (ae_details e)"
    using b build_yields [OF assms(2), of E ctx] unfolding yields_def by blast+
  have "t_events (w_db w') = t_events (w_db w) @ [event_row_of e]"
    using insert_event_Inr [OF i] ensure_tenant_events [OF t] steps_byD [OF quiet_build b]
    by (simp add: quiet_def)
  with e show ?thesis
    using integrity_event_row by (simp add: verified_row_def Let_def view_event_row)
qed

lemma recorded_event_verifies_witness:
  "\<exists>e w' row. record_audit_event env0 None sample_request audit_world = (Inr e, w')
    \<and> t_events (w_db w') = [sample_row, row] \<and> verified_row env0 row = Inr (e\<lparr>ae_details := jsort (ae_details e)\<rparr>)"
proof -
  obtain e w' where r: "record_audit_event env0 None sample_request audit_world = (Inr e, w')"
    using sample_record by blast
  have "details_ok (aq_details sample_request)" by (simp add: details_ok_def sample_request_def dict_ok_def)
  from recorded_event_verifies [OF r this] r show ?thesis by auto
qed

text \<open>C26: The log is tamper evident: take a row that verifies and any other row with the same integrity hash
  that holds a different event (another value in a covered column, or other details up to the order of their
  keys). It does not verify, whatever SHA-256 is, as long as it does not collide on the canonical bytes of
  these two events. The details columns of both hold JSON without repeated keys, as the code writes them.\<close>

theorem tampered_row_fails:
  assumes "verified_row E row = Inr e" and "ev_hash row' = ev_hash row"
    and "wf_json (ae_details (view_event row))" and "wf_json (ae_details (view_event row'))"
    and "sha256_hex E (hashed_bytes (view_event row')) = sha256_hex E (hashed_bytes (view_event row)) \<Longrightarrow>
      hashed_bytes (view_event row') = hashed_bytes (view_event row)"
    and "(view_event row')\<lparr>ae_details := jsort (ae_details (view_event row'))\<rparr>
      \<noteq> (view_event row)\<lparr>ae_details := jsort (ae_details (view_event row))\<rparr>"
  shows "verified_row E row' = Inl (FolioError ''audit integrity verification failed'')"
proof (rule ccontr)
  assume "\<not> ?thesis"
  then have "integrity_ok E (view_event row')" by (auto simp: verified_row_def Let_def split: if_splits)
  moreover have "integrity_ok E (view_event row)" using assms(1) by (auto simp: verified_row_def Let_def split: if_splits)
  moreover have h: "ae_hash (view_event row') = ae_hash (view_event row)" using assms(2) by (simp add: view_event_def)
  ultimately have "event_hash E (view_event row') = event_hash E (view_event row)" by (simp add: integrity_ok_def)
  from event_hash_eq [OF assms(4,3,5) this, of "ae_hash (view_event row)"] h assms(6) show False
    by (cases "view_event row'"; cases "view_event row"; simp)
qed

lemma tampered_row_fails_witness:
  "verified_row env0 (sample_row\<lparr>ev_actor := ''eve''\<rparr>) = Inl (FolioError ''audit integrity verification failed'')"
proof (rule tampered_row_fails [OF sample_verified])
  have d: "view_event sample_row = (finish_event env0 None sample_request ''audit_1'' ''req_1'' ''req_1''
     [(''status_code'', JInt 200)] ''2027'' ''2026'')\<lparr>ae_details := JObj [(''status_code'', JInt 200)]\<rparr>"
    unfolding sample_row_def by (subst view_event_row) (simp_all add: finish_event_fields dict_ok_def)
  show "wf_json (ae_details (view_event sample_row))" by (simp add: d dict_ok_def)
  have v: "view_event (sample_row\<lparr>ev_actor := ''eve''\<rparr>) = (view_event sample_row)\<lparr>ae_actor := ''eve''\<rparr>"
    by (simp add: view_event_def)
  show "wf_json (ae_details (view_event (sample_row\<lparr>ev_actor := ''eve''\<rparr>)))" by (simp add: v d dict_ok_def)
  have "ae_actor (view_event sample_row) = ''ann''"
    by (simp add: d finish_event_def sample_request_def Let_def)
  then show "view_event (sample_row\<lparr>ev_actor := ''eve''\<rparr>)
      \<lparr>ae_details := jsort (ae_details (view_event (sample_row\<lparr>ev_actor := ''eve''\<rparr>)))\<rparr>
    \<noteq> view_event sample_row\<lparr>ae_details := jsort (ae_details (view_event sample_row))\<rparr>"
    unfolding v by (auto dest: arg_cong [of _ _ ae_actor])
  show "ev_hash (sample_row\<lparr>ev_actor := ''eve''\<rparr>) = ev_hash sample_row" by simp
qed (rule env0_hash)

text \<open>C33: A purge removes exactly the expired events that are not on legal hold: after
  \<open>purge_audit_events\<close> the log is what it was without the rows whose expiry is at or before the
  cutoff and that are not held, in the same order, followed by exactly one purge event for each
  tenant that lost events, in the order of the returned counts, which name each of those tenants once with
  the number of events it lost.\<close>

theorem purge_removes_exactly_expired:
  assumes "purge_audit_events E ctx (Some cutoff) w = (Inr counts, w')" and "cutoff \<noteq> []"
  shows "\<exists>new. t_events (w_db w') = filter (\<lambda>r. ev_hold r \<noteq> 0 \<or> \<not> ev_expires r \<le> cutoff) (t_events (w_db w)) @ new
    \<and> map ev_tenant new = map fst counts \<and> distinct (map ev_tenant new)
    \<and> (\<forall>r \<in> set new. ev_action r = ''audit_retention_purge'')
    \<and> (\<forall>t n. (t, n) \<in> set counts \<longleftrightarrow> 0 < n \<and>
        n = length (filter (\<lambda>r. ev_tenant r = t \<and> ev_expires r \<le> cutoff \<and> ev_hold r = 0) (t_events (w_db w))))"
proof -
  let ?ex = "filter (expired cutoff) (t_events (w_db w))"
  from purge_Inr [OF assms] obtain new where c: "counts = expired_counts cutoff (w_db w)"
    and n: "t_events (w_db w') = filter (\<lambda>r. \<not> expired cutoff r) (t_events (w_db w)) @ new"
      "map ev_tenant new = map fst counts" "\<forall>r \<in> set new. ev_action r = ''audit_retention_purge''" by blast
  have len: "length (filter (\<lambda>x. x = t) (map ev_tenant ?ex)) =
      length (filter (\<lambda>r. ev_tenant r = t \<and> ev_expires r \<le> cutoff \<and> ev_hold r = 0) (t_events (w_db w)))" for t
    by (simp add: filter_map comp_def expired_def conj_ac)
  have "(t, n) \<in> set counts \<longleftrightarrow> 0 < n \<and> n = length (filter (\<lambda>x. x = t) (map ev_tenant ?ex))" for t n
    by (auto simp: c expired_counts_def Let_def filter_empty_conv image_iff length_greater_0_conv)
  moreover have "distinct (map fst counts)" by (simp add: c expired_counts_def Let_def comp_def)
  ultimately show ?thesis using n
    unfolding len by (intro exI [of _ new]) (simp add: expired_def disj_commute)
qed

lemma sample_purge: "\<exists>counts w'. purge_audit_events env0 None (Some ''2028'') audit_world = (Inr counts, w')
    \<and> counts = [(''t'', 1)]"
  by (simp add: purge_audit_events_def expired_counts_def Let_def delete_expired_def expired_def record_purge_def
      purge_request_def nat_text.simps digit_char_def safe_text_def ctrl_char_def SECRET_MARKERS_def
      casefold_def lower_char_def audit_eval)

lemma purge_removes_exactly_expired_witness:
  "\<exists>counts w' row. purge_audit_events env0 None (Some ''2028'') audit_world = (Inr counts, w')
    \<and> t_events (w_db w') = [row] \<and> ev_action row = ''audit_retention_purge''"
proof -
  obtain w' where r: "purge_audit_events env0 None (Some ''2028'') audit_world = (Inr [(''t'', 1)], w')"
    using sample_purge by blast
  from purge_removes_exactly_expired [OF r] r show ?thesis by auto
qed




section \<open>Export pages\<close>

lemma export_scan_spec:
  assumes "export_scan E cap evs ls used rows = Inr (evs', ls', has_more)" "length evs < cap"
    "used \<le> AUDIT_MAX_EXPORT_BYTES"
  shows "\<exists>k. k \<le> length rows \<and> evs' = evs @ map view_event (take k rows)
    \<and> ls' = ls @ map (\<lambda>r. export_line (view_event r)) (take k rows) \<and> length evs' \<le> cap
    \<and> (has_more \<longleftrightarrow> k < length rows) \<and> (\<forall>r \<in> set (take k rows). integrity_ok E (view_event r))
    \<and> used + sum_list (map (\<lambda>r. length (export_line (view_event r))) (take k rows)) \<le> AUDIT_MAX_EXPORT_BYTES
    \<and> (evs = [] \<longrightarrow> rows \<noteq> [] \<longrightarrow> 0 < k)"
  using assms
proof (induction E cap evs ls used rows rule: export_scan.induct)
  case (1 E cap evs ls used)
  then show ?case by simp
next
  case (2 E cap evs ls used r rows)
  from "2.prems"(1) have v: "verified_row E r = Inr (view_event r)" and i: "integrity_ok E (view_event r)"
    by (auto simp: ebind_Inr_iff verified_row_def Let_def split: if_splits)
  let ?line = "export_line (view_event r)"
  consider (full) "used + length ?line > AUDIT_MAX_EXPORT_BYTES"
    | (cap) "used + length ?line \<le> AUDIT_MAX_EXPORT_BYTES" "length evs + 1 \<ge> cap"
    | (has_more) "used + length ?line \<le> AUDIT_MAX_EXPORT_BYTES" "length evs + 1 < cap" by linarith
  then show ?case
  proof cases
    case full
    with "2.prems" v show ?thesis by (intro exI [of _ 0]) (auto simp: Let_def split: if_splits)
  next
    case cap
    with "2.prems" v i show ?thesis by (intro exI [of _ 1]) (auto simp: Let_def)
  next
    case has_more
    with "2.prems"(1) v have run: "export_scan E cap (evs @ [view_event r]) (ls @ [?line]) (used + length ?line) rows
        = Inr (evs', ls', has_more)" by (simp add: Let_def)
    have "\<exists>k. k \<le> length rows \<and> evs' = (evs @ [view_event r]) @ map view_event (take k rows)
      \<and> ls' = (ls @ [?line]) @ map (\<lambda>r. export_line (view_event r)) (take k rows) \<and> length evs' \<le> cap
      \<and> (has_more \<longleftrightarrow> k < length rows) \<and> (\<forall>r \<in> set (take k rows). integrity_ok E (view_event r))
      \<and> used + length ?line + sum_list (map (\<lambda>r. length (export_line (view_event r))) (take k rows)) \<le> AUDIT_MAX_EXPORT_BYTES
      \<and> (evs @ [view_event r] = [] \<longrightarrow> rows \<noteq> [] \<longrightarrow> 0 < k)"
      by (rule "2.IH" [OF v refl _ _ run]) (use has_more in simp_all)
    then obtain k where "k \<le> length rows" "evs' = evs @ map view_event (take (Suc k) (r # rows))"
      "ls' = ls @ map (\<lambda>r. export_line (view_event r)) (take (Suc k) (r # rows))" "length evs' \<le> cap"
      "has_more \<longleftrightarrow> Suc k < length (r # rows)" "\<forall>r \<in> set (take k rows). integrity_ok E (view_event r)"
      "used + sum_list (map (\<lambda>r. length (export_line (view_event r))) (take (Suc k) (r # rows))) \<le> AUDIT_MAX_EXPORT_BYTES"
      by (auto simp: add.assoc)
    with i show ?thesis by (intro exI [of _ "Suc k"]) auto
  qed
qed

lemma export_Inr:
  assumes "export_audit_events E ctx t actor f u limit cursor w = (Inr x, w')"
  obtains from_time to_time key lines has_more where
    "audit_window E f u = Inr (from_time, to_time)" "audit_cursor E cursor = Inr key"
    "export_scan E (clamp 1 AUDIT_MAX_EVENTS_PER_EXPORT limit) [] [] 0
      (take (clamp 1 AUDIT_MAX_EVENTS_PER_EXPORT limit + 1) (window_rows (w_db w) t from_time to_time key))
      = Inr (ax_events x, lines, has_more)"
    "ax_count x = length (ax_events x)"
    "ax_next x = (if ax_events x \<noteq> [] \<and> has_more
      then Some (cursor_text (ae_occurred (last (ax_events x)), ae_id (last (ax_events x)))) else None)"
  using assms unfolding export_audit_events_def Let_def
  by (clarsimp simp: mbind_Inr_iff mlift_iff query_or_raise_iff mret_iff)

text \<open>An export page is an exact, bounded prefix of what was asked for: it holds the first
  events of the time window in order, every one verified, at most the clamped limit and at most one
  mebibyte of lines, at least one if there is any; and it names a next cursor, the key of its last
  event, exactly when events of the window are left.\<close>

theorem export_page_is_prefix:
  assumes "export_audit_events E ctx t actor f u limit cursor w = (Inr x, w')"
    and "audit_window E f u = Inr (from_time, to_time)" and "audit_cursor E cursor = Inr key"
    and "window_rows (w_db w) t from_time to_time key = rows"
  shows "\<exists>k. ax_events x = map view_event (take k rows) \<and> k \<le> length rows
    \<and> k \<le> clamp 1 AUDIT_MAX_EVENTS_PER_EXPORT limit \<and> (rows \<noteq> [] \<longrightarrow> 0 < k) \<and> ax_count x = k
    \<and> (\<forall>e \<in> set (ax_events x). integrity_ok E e)
    \<and> sum_list (map (\<lambda>e. length (export_line e)) (ax_events x)) \<le> AUDIT_MAX_EXPORT_BYTES
    \<and> ax_next x = (if k < length rows then Some (cursor_text (event_key (rows ! (k - 1)))) else None)"
proof -
  let ?cap = "clamp 1 AUDIT_MAX_EVENTS_PER_EXPORT limit"
  have cap: "0 < ?cap" by (simp add: clamp_def AUDIT_MAX_EVENTS_PER_EXPORT_def)
  obtain f' u' key' lines has_more where w: "audit_window E f u = Inr (f', u')" "audit_cursor E cursor = Inr key'"
    and s': "export_scan E ?cap [] [] 0 (take (?cap + 1) (window_rows (w_db w) t f' u' key')) = Inr (ax_events x, lines, has_more)"
    and c: "ax_count x = length (ax_events x)" and n: "ax_next x = (if ax_events x \<noteq> [] \<and> has_more
      then Some (cursor_text (ae_occurred (last (ax_events x)), ae_id (last (ax_events x)))) else None)"
    by (rule export_Inr [OF assms(1)])
  have "window_rows (w_db w) t f' u' key' = rows" using w assms(2-4) by simp
  with s' have s: "export_scan E ?cap [] [] 0 (take (?cap + 1) rows) = Inr (ax_events x, lines, has_more)" by simp
  obtain k where k: "k \<le> length (take (?cap + 1) rows)"
    "ax_events x = [] @ map view_event (take k (take (?cap + 1) rows))" "length (ax_events x) \<le> ?cap"
    "has_more \<longleftrightarrow> k < length (take (?cap + 1) rows)"
    "\<forall>r \<in> set (take k (take (?cap + 1) rows)). integrity_ok E (view_event r)"
    "0 + sum_list (map (\<lambda>r. length (export_line (view_event r))) (take k (take (?cap + 1) rows))) \<le> AUDIT_MAX_EXPORT_BYTES"
    "[] = ([] :: audit_event list) \<longrightarrow> take (?cap + 1) rows \<noteq> [] \<longrightarrow> 0 < k"
    using export_scan_spec [OF s _ le0] cap by (metis list.size(3))
  have kc: "k \<le> ?cap" and kl: "k \<le> length rows" using k(1,2,3) by simp_all
  then have t: "take k (take (?cap + 1) rows) = take k rows" by (simp add: min_def)
  have has_more: "has_more \<longleftrightarrow> k < length rows" using k(4) kc by auto
  have pos: "0 < k" if "rows \<noteq> []" using that k(7) by simp
  have ev: "ax_events x = map view_event (take k rows)" using k(2) t by simp
  have last: "ae_occurred (last (ax_events x)) = ev_occurred (rows ! (k - 1)) \<and> ae_id (last (ax_events x)) = ev_id (rows ! (k - 1))"
    if "0 < k"
  proof -
    have "take k rows \<noteq> []" using that kl by auto
    then have "last (ax_events x) = view_event (rows ! (k - 1))"
      using kl that by (simp add: ev last_map last_conv_nth min_def)
    then show ?thesis by (simp add: view_event_def)
  qed
  have "ax_next x = (if k < length rows then Some (cursor_text (event_key (rows ! (k - 1)))) else None)"
  proof (cases "k < length rows")
    case True
    then have "rows \<noteq> []" by auto
    with pos have k0: "0 < k" by blast
    then have "ax_events x \<noteq> []" using ev True by auto
    with True k0 n has_more last show ?thesis by (simp add: event_key_def)
  qed (simp add: n has_more)
  with ev kc kl pos c k(5,6) t show ?thesis
    by (intro exI [of _ k]) (simp add: comp_def)
qed

text \<open>An environment with a short hash and a log with one event that verifies in it.\<close>

definition short_env :: env where
  "short_env = env0\<lparr>sha256_hex := (\<lambda>_. ''h'')\<rparr>"

definition short_event :: audit_event where
  "short_event = \<lparr>ae_id = ''audit_1'', ae_occurred = ''2026'', ae_tenant = ''t'', ae_actor = ''ann'',
     ae_actor_type = ''actor'', ae_request = ''req_1'', ae_correlation = ''req_1'', ae_trace = ''0'',
     ae_span = ''1'', ae_action = ''artifact_read'', ae_resource_type = ''artifact'',
     ae_resource = Some ''art_1'', ae_outcome = ''allowed'', ae_reason = ''unspecified'',
     ae_policy = ''audit-v2'', ae_source = ''service'', ae_details = JObj [],
     ae_retention = ''security'', ae_expires = ''2027'', ae_hold = False, ae_hash = ''h''\<rparr>"

definition short_world :: world where
  "short_world = audit_world\<lparr>w_db := (w_db audit_world)\<lparr>t_events := [event_row_of short_event]\<rparr>\<rparr>"

lemma short_line: "length (export_line short_event) \<le> 3000"
  by (simp add: short_event_def export_line_def canonical_event_def dumps_sorted_def event_payload_def
      opt_str_def render_str_def escape_char_def utf8_def utf8_char_def ord_of_def)

lemma short_verified: "verified_row short_env (event_row_of short_event) = Inr short_event"
  by (simp add: verified_row_def Let_def view_event_row integrity_ok_def event_hash_def integrity_hash_def
      short_env_def short_event_def dict_ok_def)

lemma short_env_fields: "uuid_hex short_env = uuid_hex env0" "clock_us short_env = clock_us env0"
  by (simp_all add: short_env_def)

lemma short_world_fields: "t_events (w_db short_world) = [event_row_of short_event]" "w_ids short_world = 0"
  "w_now short_world = 0" "t_tenants (w_db short_world) = [\<lparr>tn_id = ''t'', tn_created = ''2026''\<rparr>]"
  "t_exports (w_db short_world) = []"
  by (simp_all add: short_world_def)

lemma short_row_fields: "ae_id short_event = ''audit_1''" "ae_tenant short_event = ''t''"
  by (simp_all add: short_event_def)

lemma sample_export:
  "\<exists>x w'. export_audit_events short_env None ''t'' ''ann'' None None 5 None short_world = (Inr x, w')"
  using short_line
  by (simp add: export_audit_events_def folio_errors_def AUDIT_MAX_EVENTS_PER_EXPORT_def export_request_def
      audit_window_def audit_bound_def audit_cursor_def Let_def clamp_def query_or_raise_def window_rows_def
      short_verified short_env_fields short_world_fields short_row_fields AUDIT_MAX_EXPORT_BYTES_def
      export_expiry_def AUDIT_EXPORT_TTL_SECONDS_def insert_export_row_def safe_text_def
      ctrl_char_def SECRET_MARKERS_def casefold_def lower_char_def audit_eval)

lemma export_page_is_prefix_witness:
  "\<exists>x w'. export_audit_events short_env None ''t'' ''ann'' None None 5 None short_world = (Inr x, w')
    \<and> ax_count x = 1 \<and> ax_next x = None"
proof -
  obtain x w' where r: "export_audit_events short_env None ''t'' ''ann'' None None 5 None short_world = (Inr x, w')"
    using sample_export by blast
  have w: "window_rows (w_db short_world) ''t'' None None None = [event_row_of short_event]"
    by (simp add: window_rows_def short_world_fields short_row_fields event_row_fields)
  have "audit_window short_env None None = Inr (None, None)" "audit_cursor short_env None = Inr None"
    by (simp_all add: audit_window_def audit_bound_def audit_cursor_def opt_check_def)
  from export_page_is_prefix [OF r this w] r show ?thesis by (auto simp: le_Suc_eq)
qed

end
