(* ===== verification/Schema.thy ===== *)
theory Schema
  imports Audit_Log
begin

text \<open>
  Opening a database in \<open>service.py\<close>: what \<open>initialize\<close> does to the rows of a database that
  has the current columns (the full-text backfill, the audit trace backfill, the owner grants and the
  migration ledger), and the readiness probe. The \<open>ALTER TABLE\<close> statements for columns of older
  schemas have no counterpart, since every row record has all its columns.
\<close>

section \<open>The migration ledger\<close>

definition SCHEMA_MIGRATIONS :: "(int \<times> string \<times> string) list" where
  "SCHEMA_MIGRATIONS = [
     (1, ''base_schema'', ''artifact graph, ACL, and external MCP tables''),
     (2, ''acl_revocation_reason'', ''revocation reason on ACL grants''),
     (3, ''external_policy'', ''policy JSON on external MCP connections''),
     (4, ''external_audit_reason'', ''reason on external MCP audit rows''),
     (5, ''artifact_owner_and_current_version'', ''artifact owner and current version columns''),
     (6, ''audit_lifecycle'', ''audit events, exports, retention, and legal holds''),
     (7, ''audit_trace_context'', ''explicit trace/span IDs and legacy audit hash backfill'')]"

definition migration_checksum :: "env \<Rightarrow> int \<Rightarrow> string \<Rightarrow> string \<Rightarrow> string" where
  "migration_checksum E version name contract =
     sha256_hex E (utf8 (int_text version @ '':'' @ name @ '':'' @ contract))"

definition expected_migration_rows :: "env \<Rightarrow> (int \<times> string \<times> string) list" where
  "expected_migration_rows E =
     map (\<lambda>(version, name, contract). (version, name, migration_checksum E version name contract)) SCHEMA_MIGRATIONS"

definition insert_migration_row :: "migration_row \<Rightarrow> (world, unit) action" where
  "insert_migration_row r = execute
     (\<lambda>db. mg_version r \<notin> mg_version ` set (t_migrations db) \<and> mg_name r \<notin> mg_name ` set (t_migrations db))
     (\<lambda>db. db\<lparr>t_migrations := t_migrations db @ [r]\<rparr>)"

definition find_migration :: "database \<Rightarrow> int \<Rightarrow> migration_row option" where
  "find_migration db version = List.find (\<lambda>r. mg_version r = version) (t_migrations db)"

definition ensure_migration :: "env \<Rightarrow> int \<times> string \<times> string \<Rightarrow> (world, unit) action" where
  "ensure_migration E = (\<lambda>(version, name, checksum).
     mbind (query (\<lambda>db. find_migration db version)) (\<lambda>row.
     case row of
       None \<Rightarrow> mbind (utc_now E) (\<lambda>now.
         insert_migration_row \<lparr>mg_version = version, mg_name = name, mg_checksum = checksum, mg_applied = now\<rparr>)
     | Some r \<Rightarrow> mguard (mg_name r \<noteq> name \<or> mg_checksum r \<noteq> checksum)
         (FolioError ''schema migration ledger checksum mismatch'')))"

definition ensure_migration_ledger :: "env \<Rightarrow> (world, unit) action" where
  "ensure_migration_ledger E =
     mbind (query (\<lambda>db. map mg_version (t_migrations db))) (\<lambda>existing.
     mbind (mguard (\<not> set existing \<subseteq> fst ` set (expected_migration_rows E))
       (FolioError ''schema migration ledger contains an unknown version'')) (\<lambda>_.
     mfor (expected_migration_rows E) (ensure_migration E)))"

text \<open>\<open>ORDER BY version\<close>, compared as a list.\<close>

definition migration_ledger_ready :: "env \<Rightarrow> database \<Rightarrow> bool" where
  "migration_ledger_ready E db \<longleftrightarrow>
     map (\<lambda>r. (mg_version r, mg_name r, mg_checksum r)) (sort_key mg_version (t_migrations db))
       = expected_migration_rows E"

section \<open>Backfills\<close>

definition backfill_substring :: "(world, unit) action" where
  "backfill_substring = execute (\<lambda>db. True) (\<lambda>db.
     db\<lparr>t_substring_fts := t_substring_fts db @ map (\<lambda>c. \<lparr>f_chunk = c_id c, f_tenant = c_tenant c,
          f_artifact = c_artifact c, f_version = c_version c, f_content = c_content c\<rparr>)
        (filter (\<lambda>c. c_id c \<notin> f_chunk ` set (t_substring_fts db)) (t_chunks db))\<rparr>)"

text \<open>\<open>re.fullmatch("[0-9a-f]{n}", v)\<close>\<close>

definition valid_identifier :: "nat \<Rightarrow> json option \<Rightarrow> string option" where
  "valid_identifier n v = (case v of
     Some (JStr s) \<Rightarrow> if length s = n \<and> list_all (\<lambda>c. is_digit_ascii c \<or> c \<in> set ''abcdef'') s then Some s else None
   | _ \<Rightarrow> None)"

text \<open>\<open>valid(event) or valid(details.pop(key, None)) or legacy\<close>: the key leaves the details only
  when the event's own identifier is not valid.\<close>

definition pick_identifier ::
    "nat \<Rightarrow> string \<Rightarrow> string \<Rightarrow> string \<Rightarrow> (string \<times> json) list \<Rightarrow> string \<times> (string \<times> json) list" where
  "pick_identifier n key own legacy details =
     (case valid_identifier n (Some (JStr own)) of
        Some s \<Rightarrow> (s, details)
      | None \<Rightarrow> ((case valid_identifier n (map_of details key) of Some s \<Rightarrow> s | None \<Rightarrow> legacy),
                 AList.delete key details))"

definition trace_row :: "env \<Rightarrow> event_row \<Rightarrow> (string \<times> json) list \<Rightarrow> event_row" where
  "trace_row E r details0 =
     (let e = view_event r;
          (trace, details1) = pick_identifier 32 ''trace_id'' (ae_trace e) (legacy_trace_id E (ae_id e)) details0;
          (span, details2) = pick_identifier 16 ''span_id'' (ae_span e) (legacy_span_id E (ae_id e)) details1;
          e' = e\<lparr>ae_details := JObj details2, ae_trace := trace, ae_span := span\<rparr>
      in r\<lparr>ev_details_json := dumps_sorted (JObj details2), ev_trace := trace, ev_span := span,
           ev_hash := event_hash E e'\<rparr>)"

text \<open>\<open>dict(event["details"])\<close> of what is no object raises (lists of pairs, which \<open>dict\<close> would
  take, are never stored).\<close>

definition migrate_event :: "env \<Rightarrow> event_row \<Rightarrow> (world, unit) action" where
  "migrate_event E r =
     (case ae_details (view_event r) of
        JObj details \<Rightarrow> execute (\<lambda>db. True) (\<lambda>db. db\<lparr>t_events :=
          map (\<lambda>x. if ev_id x = ev_id r then (let y = trace_row E r details in
             x\<lparr>ev_details_json := ev_details_json y, ev_trace := ev_trace y, ev_span := ev_span y,
               ev_hash := ev_hash y\<rparr>) else x) (t_events db)\<rparr>)
      | _ \<Rightarrow> mraise (OtherError ''details are no object''))"

definition migrate_audit_trace_context :: "env \<Rightarrow> (world, unit) action" where
  "migrate_audit_trace_context E =
     mbind (query (\<lambda>db. sort_key event_key (t_events db))) (\<lambda>rows. mfor rows (migrate_event E))"

text \<open>\<open>INSERT OR IGNORE\<close>: a grant whose identifier exists, or that would be a second active grant of
  the same subject and action, is skipped; a missing tenant or artifact still raises.\<close>

definition insert_or_ignore_grant :: "grant_row \<Rightarrow> (world, unit) action" where
  "insert_or_ignore_grant r = execute
     (\<lambda>db. (g_id r \<in> g_id ` set (t_grants db) \<or> grant_key r \<in> grant_key ` set (active_grants db))
        \<or> has_tenant db (g_tenant r) \<and> has_artifact db (g_artifact r))
     (\<lambda>db. if g_id r \<in> g_id ` set (t_grants db) \<or> grant_key r \<in> grant_key ` set (active_grants db) then db
        else db\<lparr>t_grants := t_grants db @ [r]\<rparr>)"

definition backfill_owner_grants :: "env \<Rightarrow> (world, unit) action" where
  "backfill_owner_grants E =
     mbind (query t_artifacts) (\<lambda>rows.
     mfor rows (\<lambda>a. mfor ACL_ACTIONS (\<lambda>act.
       mbind (utc_now E) (\<lambda>now. insert_or_ignore_grant (owner_grant (a_tenant a) (a_id a) (a_owner a) act now)))))"

definition initialize :: "env \<Rightarrow> (world, unit) action" where
  "initialize E = transact (
     mbind backfill_substring (\<lambda>_.
     mbind (query (\<lambda>db. find_migration db 7 = None)) (\<lambda>pending.
     mbind (if pending then migrate_audit_trace_context E else mret ()) (\<lambda>_.
     mbind (backfill_owner_grants E) (\<lambda>_.
     ensure_migration_ledger E)))))"

section \<open>Readiness\<close>

definition REQUIRED_SCHEMA_OBJECTS :: "string list" where
  "REQUIRED_SCHEMA_OBJECTS = [''tenants'', ''artifacts'', ''versions'', ''chunks'', ''chunk_fts'',
     ''chunk_substring_fts'', ''edges'', ''acl_grants'', ''external_mcp_connections'', ''external_mcp_audit'',
     ''audit_events'', ''audit_exports'', ''schema_migrations'']"

definition REQUIRED_SCHEMA_INDEXES :: "string list" where
  "REQUIRED_SCHEMA_INDEXES = [''versions_artifact_idx'', ''edges_source_idx'', ''edges_target_idx'',
     ''acl_grants_lookup_idx'', ''acl_grants_active_idx'', ''external_mcp_connections_name_idx'',
     ''external_mcp_connections_tenant_idx'', ''external_mcp_audit_lookup_idx'', ''audit_events_lookup_idx'',
     ''audit_exports_lookup_idx'', ''schema_migrations_name_idx'']"

definition REQUIRED_SCHEMA_COLUMNS :: "(string \<times> string list) list" where
  "REQUIRED_SCHEMA_COLUMNS = [
     (''acl_grants'', [''tenant_id'', ''artifact_id'', ''subject_type'', ''subject_id'', ''action'', ''status'']),
     (''external_mcp_connections'', [''tenant_id'', ''endpoint'', ''origin'', ''status'', ''health_status'',
        ''policy_json'', ''policy_version'']),
     (''external_mcp_audit'', [''tenant_id'', ''connection_id'', ''actor_id'', ''action'', ''outcome'', ''reason'']),
     (''audit_events'', [''id'', ''tenant_id'', ''actor_id'', ''request_id'', ''correlation_id'', ''trace_id'',
        ''span_id'', ''action'', ''outcome'', ''integrity_hash'', ''expires_at'', ''legal_hold'']),
     (''audit_exports'', [''id'', ''tenant_id'', ''requested_by'', ''checksum'', ''schema_version'', ''expires_at'']),
     (''schema_migrations'', [''version'', ''name'', ''checksum'', ''applied_at''])]"

text \<open>What the file system and the catalog of the database answer. \<open>None\<close> stands for a query that
  raises.\<close>

record path_access =
  pa_exists :: bool
  pa_read :: bool
  pa_write :: bool
  pa_exec :: bool

record catalog =
  ct_objects :: "string list"
  ct_indexes :: "string list"
  ct_columns :: "string \<Rightarrow> string list"
  ct_ledger :: "database option"
  ct_quick :: "string option option"
  ct_grant_columns :: "string list option"

record probe =
  pb_read_only :: bool
  pb_file :: path_access
  pb_parent :: path_access
  pb_blobs :: path_access
  pb_catalog :: "catalog option"

record readiness =
  rd_database :: bool
  rd_blob :: bool
  rd_migration :: bool
  rd_acl :: bool
  rd_external :: bool
  rd_audit :: bool
  rd_ready :: bool

definition database_access :: "probe \<Rightarrow> bool" where
  "database_access p \<longleftrightarrow> pa_exists (pb_file p) \<and> pa_read (pb_file p) \<and> pa_read (pb_parent p)
     \<and> pa_exec (pb_parent p) \<and> (pb_read_only p \<or> pa_write (pb_file p) \<and> pa_write (pb_parent p))"

definition blob_access :: "probe \<Rightarrow> bool" where
  "blob_access p \<longleftrightarrow> pa_exists (pb_blobs p) \<and> pa_read (pb_blobs p) \<and> pa_exec (pb_blobs p)
     \<and> (pb_read_only p \<or> pa_write (pb_blobs p))"

text \<open>The flags the \<open>try\<close> block leaves: database, migration, ACL, external MCP, audit. What a
  raising query does not reach stays \<open>False\<close>.\<close>

definition catalog_flags :: "env \<Rightarrow> catalog \<Rightarrow> bool \<times> bool \<times> bool \<times> bool \<times> bool" where
  "catalog_flags E c =
     (let columns_ready = list_all (\<lambda>(table, required). set required \<subseteq> set (ct_columns c table)) REQUIRED_SCHEMA_COLUMNS;
          ledger_ready = (case ct_ledger c of None \<Rightarrow> False | Some db \<Rightarrow> migration_ledger_ready E db);
          objects = set (ct_objects c); indexes = set (ct_indexes c)
      in case ct_quick c of
        None \<Rightarrow> (False, False, False, False, False)
      | Some quick \<Rightarrow>
          let database_ready = (quick = Some ''ok'');
              migration_ready = (set REQUIRED_SCHEMA_OBJECTS \<subseteq> objects \<and> set REQUIRED_SCHEMA_INDEXES \<subseteq> indexes
                \<and> columns_ready \<and> ledger_ready);
              grant_objects = (''acl_grants'' \<in> objects \<and> ''acl_grants_lookup_idx'' \<in> indexes
                \<and> ''acl_grants_active_idx'' \<in> indexes);
              external = ({''external_mcp_connections'', ''external_mcp_audit''} \<subseteq> objects
                \<and> {''external_mcp_connections_name_idx'', ''external_mcp_connections_tenant_idx'',
                    ''external_mcp_audit_lookup_idx''} \<subseteq> indexes);
              audit = ({''audit_events'', ''audit_exports''} \<subseteq> objects
                \<and> {''audit_events_lookup_idx'', ''audit_exports_lookup_idx''} \<subseteq> indexes)
          in if \<not> grant_objects then (database_ready, migration_ready, False, external, audit)
             else case ct_grant_columns c of
               None \<Rightarrow> (database_ready, migration_ready, False, False, False)
             | Some cols \<Rightarrow> (database_ready, migration_ready,
                 set (snd (REQUIRED_SCHEMA_COLUMNS ! 0)) \<subseteq> set cols, external, audit))"

definition readiness :: "env \<Rightarrow> probe \<Rightarrow> readiness" where
  "readiness E p =
     (let (db, migration, acl, external, audit) =
            (if database_access p then
               (case pb_catalog p of Some c \<Rightarrow> catalog_flags E c | None \<Rightarrow> (False, False, False, False, False))
             else (False, False, False, False, False));
          blob = blob_access p
      in \<lparr>rd_database = db \<and> database_access p, rd_blob = blob, rd_migration = migration, rd_acl = acl,
          rd_external = external, rd_audit = audit,
          rd_ready = (db \<and> database_access p \<and> blob \<and> migration \<and> acl \<and> external \<and> audit)\<rparr>)"

definition health :: "env \<Rightarrow> probe \<Rightarrow> readiness" where
  "health E p = readiness E p"

section \<open>What opening a database changes\<close>

text \<open>Opening never touches tenants, artifacts and chunks, and only appends grants and ledger rows.\<close>

definition opened :: "world \<Rightarrow> world \<Rightarrow> bool" where
  "opened w w' \<longleftrightarrow> t_tenants (w_db w') = t_tenants (w_db w) \<and> t_artifacts (w_db w') = t_artifacts (w_db w)
     \<and> t_chunks (w_db w') = t_chunks (w_db w) \<and> (\<exists>gs. t_grants (w_db w') = t_grants (w_db w) @ gs)
     \<and> (\<exists>ms. t_migrations (w_db w') = t_migrations (w_db w) @ ms)
     \<and> (\<exists>fs. t_substring_fts (w_db w') = t_substring_fts (w_db w) @ fs)"

interpretation startup: world_relation opened
  by unfold_locales (auto simp: opened_def)

lemma opened_execute:
  "(\<And>w. ok (w_db w) \<Longrightarrow> opened w (w\<lparr>w_db := f (w_db w)\<rparr>)) \<Longrightarrow> steps_by opened (execute ok f)"
  by (rule startup.steps_execute)

lemma opened_steps:
  "steps_by opened backfill_substring" "steps_by opened (migrate_audit_trace_context E)"
  "steps_by opened (backfill_owner_grants E)" "steps_by opened (ensure_migration E m)"
  "steps_by opened (insert_or_ignore_grant g)"
proof -
  show g: "steps_by opened (insert_or_ignore_grant g)" for g
    unfolding insert_or_ignore_grant_def by (rule opened_execute) (simp add: opened_def)
  show "steps_by opened backfill_substring"
    unfolding backfill_substring_def by (rule opened_execute) (simp add: opened_def)
  have "steps_by opened (migrate_event E r)" for r
    unfolding migrate_event_def
    by (cases "ae_details (view_event r)") (auto intro!: opened_execute startup.steps_mraise simp: opened_def)
  then show "steps_by opened (migrate_audit_trace_context E)"
    unfolding migrate_audit_trace_context_def by (intro startup.world_intros)
  show "steps_by opened (backfill_owner_grants E)"
    unfolding backfill_owner_grants_def by (intro startup.world_intros g)
  show "steps_by opened (ensure_migration E m)"
    unfolding ensure_migration_def insert_migration_row_def split_def
    by (intro startup.world_intros opened_execute) (simp add: opened_def)
qed

lemma mfor_Inr_all:
  assumes "mfor xs f w = (Inr (), w')" "\<And>x. x \<in> set xs \<Longrightarrow> steps_by opened (f x)"
    "\<And>x u v. x \<in> set xs \<Longrightarrow> f x u = (Inr (), v) \<Longrightarrow> P x v" "\<And>x u v. P x u \<Longrightarrow> opened u v \<Longrightarrow> P x v"
  shows "\<forall>x \<in> set xs. P x w'"
  using assms
proof (induction xs arbitrary: w)
  case (Cons x xs)
  from Cons.prems(1) obtain v where v: "f x w = (Inr (), v)" "mfor xs f v = (Inr (), w')"
    by (auto simp: mbind_Inr_iff)
  have "P x w'"
  proof (rule Cons.prems(4))
    show "P x v" using Cons.prems(3) [of x w v] v(1) by simp
    have "steps_by opened (mfor xs f)" using Cons.prems(2) by (intro startup.steps_mfor) simp
    from steps_byD [OF this v(2)] show "opened v w'" .
  qed
  moreover have "\<forall>y \<in> set xs. P y w'"
    using Cons.IH [OF v(2)] Cons.prems(2-4) by (meson list.set_intros(2))
  ultimately show ?case by simp
qed simp

text \<open>\<open>idle d m\<close>: on the database \<open>d\<close>, \<open>m\<close> returns and leaves it as it is.\<close>

definition idle :: "database \<Rightarrow> (world, 'a) action \<Rightarrow> ('a \<Rightarrow> bool) \<Rightarrow> bool" where
  "idle d m P \<longleftrightarrow> (\<forall>w. w_db w = d \<longrightarrow> (\<exists>x w'. m w = (Inr x, w') \<and> w_db w' = d \<and> P x))"

lemma idle_mbind: "idle d m P \<Longrightarrow> (\<And>x. P x \<Longrightarrow> idle d (f x) Q) \<Longrightarrow> idle d (mbind m f) Q"
  unfolding idle_def mbind_def by (metis (no_types, lifting) case_prod_conv sum.case(2))

lemma idle_mret: "P x \<Longrightarrow> idle d (mret x) P"
  by (auto simp: idle_def mret_def)

lemma idle_query: "P (f d) \<Longrightarrow> idle d (query f) P"
  by (auto simp: idle_def query_def mget_def)

lemma idle_utc_now: "idle d (utc_now E) (\<lambda>_. True)"
  by (auto simp: idle_def utc_now_def)

lemma idle_guard: "\<not> b \<Longrightarrow> idle d (mguard b e) (\<lambda>_. True)"
  by (auto simp: idle_def mguard_def mret_def)

lemma idle_execute: "ok d \<Longrightarrow> f d = d \<Longrightarrow> idle d (execute ok f) (\<lambda>_. True)"
  by (auto simp: idle_def execute_def)

lemma idle_mfor: "(\<And>x. x \<in> set xs \<Longrightarrow> idle d (f x) (\<lambda>_. True)) \<Longrightarrow> idle d (mfor xs f) (\<lambda>_. True)"
  by (induction xs) (auto intro: idle_mret idle_mbind)

lemma idle_transact: "idle d m P \<Longrightarrow> idle d (transact m) P"
  unfolding idle_def transact_def by fastforce

subsection \<open>The ledger\<close>

definition recorded :: "int \<times> string \<times> string \<Rightarrow> world \<Rightarrow> bool" where
  "recorded m w \<longleftrightarrow> (\<exists>r. find_migration (w_db w) (fst m) = Some r \<and> (mg_name r, mg_checksum r) = snd m)"

lemma find_append: "List.find P (xs @ ys) = (case List.find P xs of None \<Rightarrow> List.find P ys | Some x \<Rightarrow> Some x)"
  by (induction xs) auto

lemma recorded_opened: "recorded m u \<Longrightarrow> opened u v \<Longrightarrow> recorded m v"
  by (auto simp: recorded_def opened_def find_migration_def find_append)

lemma ensure_migration_recorded: "ensure_migration E m w = (Inr (), w') \<Longrightarrow> recorded m w'"
  by (cases m) (auto simp: ensure_migration_def recorded_def find_migration_def insert_migration_row_def
      find_append mbind_Inr_iff query_iff utc_now_iff execute_iff mguard_iff split: option.splits if_splits)

lemma recorded_idle: "recorded m w \<Longrightarrow> idle (w_db w) (ensure_migration E m) (\<lambda>_. True)"
  by (cases m) (force simp: idle_def ensure_migration_def recorded_def mbind_def query_def mget_def mguard_def mret_def)

lemma expected_versions: "map fst (expected_migration_rows E) = [1, 2, 3, 4, 5, 6, 7]"
  by (simp add: expected_migration_rows_def SCHEMA_MIGRATIONS_def)

definition ledger_versions :: "env \<Rightarrow> database \<Rightarrow> bool" where
  "ledger_versions E db \<longleftrightarrow> mg_version ` set (t_migrations db) \<subseteq> fst ` set (expected_migration_rows E)"

lemma ensure_migration_cases:
  assumes "ensure_migration E m w = (r, w')"
  shows "w_db w' = w_db w \<or> fst m \<notin> mg_version ` set (t_migrations (w_db w)) \<and>
    (\<exists>row. mg_version row = fst m \<and> t_migrations (w_db w') = t_migrations (w_db w) @ [row])"
proof (cases "find_migration (w_db w) (fst m)")
  case None
  with assms show ?thesis
    by (cases m) (simp add: ensure_migration_def insert_migration_row_def mbind_def query_def mget_def utc_now_def
        execute_def split: if_splits, auto)
next
  case (Some row)
  with assms show ?thesis
    by (cases m) (auto simp: ensure_migration_def mbind_def query_def mget_def mguard_def mret_def mraise_def
        split: if_splits)
qed

lemma ensure_migration_versions:
  assumes "ensure_migration E m w = (r, w')"
  shows "m \<in> set (expected_migration_rows E) \<Longrightarrow> ledger_versions E (w_db w) \<Longrightarrow> ledger_versions E (w_db w')"
    and "distinct (map mg_version (t_migrations (w_db w))) \<Longrightarrow> distinct (map mg_version (t_migrations (w_db w')))"
  using ensure_migration_cases [OF assms] unfolding ledger_versions_def by (elim disjE conjE exE; simp)+

lemma ledger_loop:
  assumes "mfor ms (ensure_migration E) w = (Inr (), w')"
  shows "set ms \<subseteq> set (expected_migration_rows E) \<Longrightarrow> ledger_versions E (w_db w) \<Longrightarrow> ledger_versions E (w_db w')"
    and "distinct (map mg_version (t_migrations (w_db w))) \<Longrightarrow> distinct (map mg_version (t_migrations (w_db w')))"
  using assms
proof (induction ms arbitrary: w)
  case (Cons m ms)
  {
    case 1
    then show ?case using Cons.IH(1) by (auto simp: mbind_Inr_iff dest: ensure_migration_versions(1))
  next
    case 2
    then show ?case using Cons.IH(2) by (auto simp: mbind_Inr_iff dest: ensure_migration_versions(2))
  }
qed (simp_all add: mret_def)

lemma ensure_ledger_Inr:
  assumes "ensure_migration_ledger E w = (Inr (), w')"
  shows "ledger_versions E (w_db w') \<and> (\<forall>m \<in> set (expected_migration_rows E). recorded m w')"
    and "distinct (map mg_version (t_migrations (w_db w))) \<Longrightarrow> distinct (map mg_version (t_migrations (w_db w')))"
proof -
  from assms(1) have v: "ledger_versions E (w_db w)"
    and run: "mfor (expected_migration_rows E) (ensure_migration E) w = (Inr (), w')"
    by (auto simp: ensure_migration_ledger_def ledger_versions_def mbind_Inr_iff query_iff mguard_iff split: if_splits)
  have "\<forall>m \<in> set (expected_migration_rows E). recorded m w'"
    by (rule mfor_Inr_all [OF run]) (auto intro: opened_steps ensure_migration_recorded recorded_opened)
  then show "ledger_versions E (w_db w') \<and> (\<forall>m \<in> set (expected_migration_rows E). recorded m w')"
    using ledger_loop(1) [OF run subset_refl v] by blast
  show "distinct (map mg_version (t_migrations (w_db w))) \<Longrightarrow> distinct (map mg_version (t_migrations (w_db w')))"
    by (rule ledger_loop(2) [OF run])
qed

subsection \<open>Owner grants and the index\<close>

definition covered :: "artifact_row \<times> string \<Rightarrow> world \<Rightarrow> bool" where
  "covered p w \<longleftrightarrow> (case p of (a, act) \<Rightarrow>
     owner_grant_id (a_id a) act \<in> g_id ` set (t_grants (w_db w))
     \<or> (a_tenant a, a_id a, ACL_SUBJECT_TYPE, a_owner a, act) \<in> grant_key ` set (active_grants (w_db w)))"

lemma owner_grant_fields:
  "g_id (owner_grant t i ob act now) = owner_grant_id i act"
  "grant_key (owner_grant t i ob act now) = (t, i, ACL_SUBJECT_TYPE, ob, act)"
  "g_status (owner_grant t i ob act now) = ''active''"
  by (simp_all add: owner_grant_def grant_key_def)

lemma covered_opened: "covered p u \<Longrightarrow> opened u v \<Longrightarrow> covered p v"
  by (cases p) (auto simp: covered_def opened_def active_grants_def)

definition grant_owner :: "env \<Rightarrow> artifact_row \<Rightarrow> string \<Rightarrow> (world, unit) action" where
  "grant_owner E a act = mbind (utc_now E) (\<lambda>now.
     insert_or_ignore_grant (owner_grant (a_tenant a) (a_id a) (a_owner a) act now))"

lemma opened_grant_owner: "steps_by opened (grant_owner E a act)"
  unfolding grant_owner_def by (intro startup.world_intros opened_steps)

lemma grant_owner_covered: "grant_owner E a act w = (Inr (), w') \<Longrightarrow> covered (a, act) w'"
  by (auto simp: grant_owner_def covered_def insert_or_ignore_grant_def mbind_Inr_iff utc_now_iff
      execute_iff owner_grant_fields active_grants_def split: if_splits)

lemma covered_idle: "covered (a, act) w \<Longrightarrow> idle (w_db w) (grant_owner E a act) (\<lambda>_. True)"
  unfolding grant_owner_def insert_or_ignore_grant_def
  by (intro idle_mbind [OF idle_utc_now] idle_execute) (auto simp: covered_def owner_grant_fields)

lemma backfill_owner_grants_alt:
  "backfill_owner_grants E = mbind (query t_artifacts) (\<lambda>rows. mfor rows (\<lambda>a. mfor ACL_ACTIONS (grant_owner E a)))"
  by (simp add: backfill_owner_grants_def grant_owner_def [abs_def])

lemma backfill_owner_grants_covered:
  assumes "backfill_owner_grants E w = (Inr (), w')"
  shows "\<forall>a \<in> set (t_artifacts (w_db w)). \<forall>act \<in> set ACL_ACTIONS. covered (a, act) w'"
proof -
  from assms have "mfor (t_artifacts (w_db w)) (\<lambda>a. mfor ACL_ACTIONS (grant_owner E a)) w = (Inr (), w')"
    by (auto simp: backfill_owner_grants_alt mbind_Inr_iff query_iff)
  then show ?thesis
  proof (rule mfor_Inr_all)
    show "steps_by opened (mfor ACL_ACTIONS (grant_owner E a))" for a
      by (intro startup.steps_mfor opened_grant_owner)
    show "\<forall>act \<in> set ACL_ACTIONS. covered (a, act) v" if "mfor ACL_ACTIONS (grant_owner E a) u = (Inr (), v)" for a u v
      by (rule mfor_Inr_all [OF that]) (auto intro: opened_grant_owner grant_owner_covered covered_opened)
  qed (auto intro: covered_opened)
qed

definition all_indexed :: "database \<Rightarrow> bool" where
  "all_indexed db \<longleftrightarrow> c_id ` set (t_chunks db) \<subseteq> f_chunk ` set (t_substring_fts db)"

lemma backfill_substring_indexed: "backfill_substring w = (Inr (), w') \<Longrightarrow> all_indexed (w_db w')"
proof -
  assume run: "backfill_substring w = (Inr (), w')"
  have "c_id c \<in> f_chunk ` set (t_substring_fts (w_db w'))" if "c \<in> set (t_chunks (w_db w))" for c
    using run that by (cases "c_id c \<in> f_chunk ` set (t_substring_fts (w_db w))")
      (auto simp: backfill_substring_def execute_def image_Un image_image)
  moreover have "t_chunks (w_db w') = t_chunks (w_db w)" using run by (auto simp: backfill_substring_def execute_def)
  ultimately show ?thesis by (auto simp: all_indexed_def)
qed

lemma indexed_idle: "all_indexed d \<Longrightarrow> idle d backfill_substring (\<lambda>_. True)"
  unfolding backfill_substring_def
proof (intro idle_execute)
  assume "all_indexed d"
  then have "filter (\<lambda>c. c_id c \<notin> f_chunk ` set (t_substring_fts d)) (t_chunks d) = []"
    by (auto simp: all_indexed_def filter_empty_conv)
  then show "d\<lparr>t_substring_fts := t_substring_fts d @ map (\<lambda>c. \<lparr>f_chunk = c_id c, f_tenant = c_tenant c,
      f_artifact = c_artifact c, f_version = c_version c, f_content = c_content c\<rparr>)
    (filter (\<lambda>c. c_id c \<notin> f_chunk ` set (t_substring_fts d)) (t_chunks d))\<rparr> = d" by simp
qed simp

lemma indexed_opened: "all_indexed (w_db u) \<Longrightarrow> opened u v \<Longrightarrow> all_indexed (w_db v)"
  by (auto simp: all_indexed_def opened_def)

section \<open>Properties\<close>

text \<open>A database that \<open>initialize\<close> has nothing left to do on.\<close>

definition settled :: "env \<Rightarrow> world \<Rightarrow> bool" where
  "settled E w \<longleftrightarrow> all_indexed (w_db w) \<and> ledger_versions E (w_db w)
     \<and> (\<forall>m \<in> set (expected_migration_rows E). recorded m w)
     \<and> (\<forall>a \<in> set (t_artifacts (w_db w)). \<forall>act \<in> set ACL_ACTIONS. covered (a, act) w)"

lemma settled_idle:
  assumes "settled E w" shows "idle (w_db w) (initialize E) (\<lambda>_. True)"
proof -
  have "\<exists>n c. (7, n, c) \<in> set (expected_migration_rows E)"
    by (simp add: expected_migration_rows_def SCHEMA_MIGRATIONS_def)
  with assms have p: "\<not> find_migration (w_db w) 7 = None"
    by (force simp: settled_def recorded_def)
  have l: "idle (w_db w) (ensure_migration_ledger E) (\<lambda>_. True)"
    unfolding ensure_migration_ledger_def
  proof (rule idle_mbind [OF idle_query [of "\<lambda>e. set e \<subseteq> fst ` set (expected_migration_rows E)"]])
    show "idle (w_db w) (mbind (mguard (\<not> set e \<subseteq> fst ` set (expected_migration_rows E)) err)
        (\<lambda>_. mfor (expected_migration_rows E) (ensure_migration E))) (\<lambda>_. True)"
      if "set e \<subseteq> fst ` set (expected_migration_rows E)" for e err
      using that assms by (intro idle_mbind [OF idle_guard] idle_mfor recorded_idle) (auto simp: settled_def)
  qed (use assms in \<open>simp add: settled_def ledger_versions_def\<close>)
  have g: "idle (w_db w) (backfill_owner_grants E) (\<lambda>_. True)"
    unfolding backfill_owner_grants_alt
    by (rule idle_mbind [OF idle_query [of "\<lambda>as. as = t_artifacts (w_db w)"]])
      (use assms in \<open>auto simp: settled_def intro!: idle_mfor covered_idle\<close>)
  show ?thesis
    unfolding initialize_def
  proof (intro idle_transact idle_mbind [OF indexed_idle] idle_mbind [OF idle_query [of "\<lambda>p. \<not> p"]])
    show "idle (w_db w) (mbind (if pending then migrate_audit_trace_context E else mret ())
        (\<lambda>_. mbind (backfill_owner_grants E) (\<lambda>_. ensure_migration_ledger E))) (\<lambda>_. True)" if "\<not> pending" for pending
      using that by (simp add: idle_mbind [OF idle_mret] idle_mbind [OF g] l)
  qed (use assms p in \<open>simp_all add: settled_def\<close>)
qed

text \<open>The ledger is written last.\<close>

definition ledger_kept :: "world \<Rightarrow> world \<Rightarrow> bool" where
  "ledger_kept w w' \<longleftrightarrow> t_migrations (w_db w') = t_migrations (w_db w)"

interpretation kept: world_relation ledger_kept
  by unfold_locales (auto simp: ledger_kept_def)

lemma kept_steps:
  "steps_by ledger_kept backfill_substring" "steps_by ledger_kept (migrate_audit_trace_context E)"
  "steps_by ledger_kept (backfill_owner_grants E)"
proof -
  show "steps_by ledger_kept backfill_substring"
    unfolding backfill_substring_def by (rule kept.steps_execute) (simp add: ledger_kept_def)
  have "steps_by ledger_kept (migrate_event E r)" for r
    unfolding migrate_event_def
    by (cases "ae_details (view_event r)") (auto intro!: kept.steps_execute kept.steps_mraise simp: ledger_kept_def)
  then show "steps_by ledger_kept (migrate_audit_trace_context E)"
    unfolding migrate_audit_trace_context_def by (intro kept.world_intros)
  show "steps_by ledger_kept (backfill_owner_grants E)"
    unfolding backfill_owner_grants_def insert_or_ignore_grant_def
    by (intro kept.world_intros kept.steps_execute) (simp add: ledger_kept_def)
qed

lemma initialize_settles:
  assumes "initialize E w = (Inr (), w')"
  shows "settled E w'"
    and "distinct (map mg_version (t_migrations (w_db w))) \<Longrightarrow> distinct (map mg_version (t_migrations (w_db w')))"
proof -
  from assms obtain w1 w2 w3 where
      s: "backfill_substring w = (Inr (), w1)"
    and m: "(if find_migration (w_db w1) 7 = None then migrate_audit_trace_context E else mret ()) w1 = (Inr (), w2)"
    and g: "backfill_owner_grants E w2 = (Inr (), w3)" and l: "ensure_migration_ledger E w3 = (Inr (), w')"
    by (auto simp: initialize_def transact_Inr mbind_Inr_iff query_iff)
  have "steps_by opened (if find_migration (w_db w1) 7 = None then migrate_audit_trace_context E else mret ())"
    by (simp add: opened_steps startup.steps_mret)
  from steps_byD [OF this m] have o1: "opened w1 w2" .
  have o2: "opened w2 w3" using steps_byD [OF opened_steps(3) g] .
  have "steps_by opened (ensure_migration_ledger E)"
    unfolding ensure_migration_ledger_def by (intro startup.world_intros opened_steps)
  from steps_byD [OF this l] have o3: "opened w3 w'" .
  have "all_indexed (w_db w')"
    using backfill_substring_indexed [OF s] indexed_opened o1 o2 o3 by blast
  moreover have "covered (a, act) w'" if "a \<in> set (t_artifacts (w_db w'))" "act \<in> set ACL_ACTIONS" for a act
  proof -
    have "a \<in> set (t_artifacts (w_db w2))" using that(1) o2 o3 by (simp add: opened_def)
    with backfill_owner_grants_covered [OF g] that(2) have "covered (a, act) w3" by blast
    from covered_opened [OF this o3] show ?thesis .
  qed
  ultimately show "settled E w'"
    using ensure_ledger_Inr(1) [OF l] by (simp add: settled_def)
  have "steps_by ledger_kept (if find_migration (w_db w1) 7 = None then migrate_audit_trace_context E else mret ())"
    by (simp add: kept_steps kept.steps_mret)
  from steps_byD [OF this m] steps_byD [OF kept_steps(1) s] steps_byD [OF kept_steps(3) g]
  have "t_migrations (w_db w3) = t_migrations (w_db w)" by (simp add: ledger_kept_def)
  with ensure_ledger_Inr(2) [OF l] show "distinct (map mg_version (t_migrations (w_db w)))
      \<Longrightarrow> distinct (map mg_version (t_migrations (w_db w')))" by simp
qed

lemma settled_ready:
  assumes "settled E w" "distinct (map mg_version (t_migrations (w_db w)))"
  shows "migration_ledger_ready E (w_db w)"
proof -
  let ?db = "w_db w"
  let ?f = "\<lambda>r. (mg_version r, mg_name r, mg_checksum r)" and ?e = "expected_migration_rows E"
  let ?h = "\<lambda>v. (v, the (map_of ?e v))"
  have de: "distinct (map fst ?e)" by (simp add: expected_versions)
  have row: "?f r = ?h (mg_version r)" if r: "r \<in> set (t_migrations ?db)" for r
  proof -
    from assms(1) r have "mg_version r \<in> fst ` set ?e" by (auto simp: settled_def ledger_versions_def)
    then obtain k where k: "k \<in> set ?e" "fst k = mg_version r" by auto
    with assms(1) obtain r' where r': "find_migration ?db (mg_version r) = Some r'" "(mg_name r', mg_checksum r') = snd k"
      by (auto simp: settled_def recorded_def dest!: bspec [of _ _ k])
    then have "r' \<in> set (t_migrations ?db)" "mg_version r' = mg_version r"
      by (auto simp: find_migration_def find_Some_iff)
    with r assms(2) have "r' = r" by (auto simp: distinct_map inj_on_def)
    moreover have "map_of ?e (mg_version r) = Some (snd k)" using k de by (metis map_of_eq_Some_iff prod.collapse)
    ultimately show ?thesis using r'(2) by simp
  qed
  have "mg_version ` set (t_migrations ?db) = fst ` set ?e"
  proof
    show "fst ` set ?e \<subseteq> mg_version ` set (t_migrations ?db)"
    proof
      fix v assume "v \<in> fst ` set ?e"
      with assms(1) obtain r where "find_migration ?db v = Some r"
        by (auto simp: settled_def recorded_def dest!: bspec)
      then show "v \<in> mg_version ` set (t_migrations ?db)" by (auto simp: find_migration_def find_Some_iff)
    qed
  qed (use assms(1) in \<open>simp add: settled_def ledger_versions_def\<close>)
  then have "set (map mg_version (sort_key mg_version (t_migrations ?db))) = set [1, 2, 3, 4, 5, 6, 7 :: int]"
    using expected_versions [of E] by (metis list.set_map set_sort)
  moreover have "sorted (map mg_version (sort_key mg_version (t_migrations ?db)))"
    "distinct (map mg_version (sort_key mg_version (t_migrations ?db)))"
    using assms(2) by (simp_all add: distinct_map)
  ultimately have "map mg_version (sort_key mg_version (t_migrations ?db)) = [1, 2, 3, 4, 5, 6, 7]"
    by (intro sorted_distinct_set_unique) simp_all
  moreover have "map ?f (sort_key mg_version (t_migrations ?db)) = map ?h (map mg_version (sort_key mg_version (t_migrations ?db)))"
    using row by simp
  moreover have "map ?h (map fst ?e) = ?e"
  proof -
    have "?h (fst k) = k" if "k \<in> set ?e" for k using that de by (metis map_of_eq_Some_iff option.sel prod.collapse)
    then show ?thesis by (simp add: map_idI)
  qed
  ultimately show ?thesis by (simp add: migration_ledger_ready_def expected_versions)
qed

text \<open>Opening a database is idempotent: when \<open>initialize\<close> has returned, the migration ledger is
  what \<open>readiness\<close> expects, and a further \<open>initialize\<close>, also after the process was restarted,
  returns and leaves every table as it is.\<close>

theorem initialize_idempotent:
  assumes "initialize E w = (Inr (), w1)" and "distinct (map mg_version (t_migrations (w_db w)))"
    and "w_db w2 = w_db w1"
  shows "migration_ledger_ready E (w_db w2) \<and> (\<exists>w3. initialize E w2 = (Inr (), w3) \<and> w_db w3 = w_db w2)"
  using settled_idle [OF initialize_settles(1) [OF assms(1)]] assms(3)
    settled_ready [OF initialize_settles(1) [OF assms(1)] initialize_settles(2) [OF assms(1,2)]]
  by (auto simp: idle_def)

lemma initialize_idempotent_witness:
  "\<exists>w1. snd (initialize env0 empty_world) = w1 \<and> length (t_migrations (w_db w1)) = 7 \<and> migration_ledger_ready env0 (w_db w1)"
proof -
  have r: "\<exists>w1. initialize env0 empty_world = (Inr (), w1) \<and> length (t_migrations (w_db w1)) = 7"
    by (simp add: initialize_def backfill_substring_def migrate_audit_trace_context_def backfill_owner_grants_def
        ensure_migration_ledger_def expected_migration_rows_def SCHEMA_MIGRATIONS_def ensure_migration_def
        insert_migration_row_def find_migration_def mbind_def query_def mget_def mret_def mguard_def execute_def
        utc_now_def transact_def empty_world_def empty_db_def)
  then obtain w1 where "initialize env0 empty_world = (Inr (), w1)" "length (t_migrations (w_db w1)) = 7" by blast
  with initialize_idempotent [OF this(1) _ refl] show ?thesis by (simp add: empty_world_def empty_db_def)
qed

end
