(* ===== verification/Auth.thy ===== *)
theory Auth
  imports Search Schema
begin

text \<open>
  \<open>auth.py\<close>: the membership store (identity mapping, status and scopes owned by the server), the
  JWKS cache, the OIDC verifier and the bearer header. The JWT library is a parameter: reading a header
  without verification, verifying and decoding a token with a key, and making a key of a JWK; so is the
  network that answers the JWKS requests. A \<open>frozenset\<close> of scopes is its sorted list. The
  membership table lives in the service's database file; \<open>str(time.time())\<close> is a parameter.
\<close>

section \<open>Principals and memberships\<close>

definition OIDC_ALGORITHM :: string where "OIDC_ALGORITHM = ''RS256''"
definition MAX_JWKS_BYTES :: nat where "MAX_JWKS_BYTES = 1024 * 1024"
definition MAX_TOKEN_LENGTH :: nat where "MAX_TOKEN_LENGTH = 128 * 1024"
definition MEMBERSHIP_STATUSES :: "string list" where
  "MEMBERSHIP_STATUSES = [''active'', ''disabled'', ''revoked'']"

record principal =
  p_tenant :: string
  p_actor :: string
  p_issuer :: string
  p_subject :: string
  p_scopes :: "string list"

record capability_binding =
  cb_tool :: string
  cb_digest :: string

record membership =
  m_issuer :: string
  m_subject :: string
  m_tenant :: string
  m_actor :: string
  m_status :: string
  m_scopes :: "string list"

text \<open>The digest of the \<open>artifact_read\<close> arguments a capability covers.\<close>

definition nonempty_text :: "json option \<Rightarrow> bool" where
  "nonempty_text v \<longleftrightarrow> (case v of Some (JStr s) \<Rightarrow> s \<noteq> [] | _ \<Rightarrow> False)"

definition capability_arguments_digest :: "env \<Rightarrow> (string \<times> json) list \<Rightarrow> py_exn + string" where
  "capability_arguments_digest E args =
     (if \<not> set (map fst args) \<subseteq> {''artifact_id'', ''version_id''}
      then Inl (ValueError ''renderer capability arguments contain unsupported fields'')
      else if \<not> nonempty_text (map_of args ''artifact_id'')
      then Inl (ValueError ''renderer capability requires artifact_id'')
      else if map_of args ''version_id'' \<noteq> None \<and> \<not> nonempty_text (map_of args ''version_id'')
      then Inl (ValueError ''renderer capability version_id must be a non-empty string'')
      else Inr (sha256_hex E (utf8 (dumps_sorted (JObj args)))))"

definition required_text :: "string \<Rightarrow> json \<Rightarrow> py_exn + string" where
  "required_text field v =
     (case v of
        JStr s \<Rightarrow> if s = [] \<or> strip s = [] \<or> s \<noteq> strip s
          then Inl (MembershipError (field @ '' must be a non-empty string'')) else Inr s
      | _ \<Rightarrow> Inl (MembershipError (field @ '' must be a non-empty string'')))"

text \<open>\<open>frozenset(value)\<close>: the elements of a list, the keys of an object; lists and objects are not
  hashable.\<close>

fun set_elements :: "json \<Rightarrow> json list option" where
  "set_elements (JArr vs) = (if list_ex (\<lambda>v. case v of JArr _ \<Rightarrow> True | JObj _ \<Rightarrow> True | _ \<Rightarrow> False) vs
     then None else Some vs)"
| "set_elements (JObj kvs) = Some (map (JStr \<circ> fst) kvs)"
| "set_elements _ = None"

definition scope_char :: "char \<Rightarrow> bool" where
  "scope_char c \<longleftrightarrow> 33 \<le> ord_of c \<and> ord_of c \<le> 126 \<and> c \<noteq> CHR 0x22 \<and> c \<noteq> CHR 0x5C"

definition scope_ok :: "json \<Rightarrow> bool" where
  "scope_ok v \<longleftrightarrow> (case v of JStr s \<Rightarrow> s \<noteq> [] \<and> list_all scope_char s | _ \<Rightarrow> False)"

fun scope_text :: "json \<Rightarrow> string" where
  "scope_text (JStr s) = s"
| "scope_text _ = []"

definition server_scopes :: "json \<Rightarrow> py_exn + string list" where
  "server_scopes v =
     (case set_elements v of
        None \<Rightarrow> Inl (MembershipError ''membership scopes must be a list of strings'')
      | Some vs \<Rightarrow>
          let scopes = remdups (map scope_text vs) in
          if list_ex (\<lambda>v. \<not> scope_ok v) vs \<or> length scopes > 128
          then Inl (MembershipError ''membership scopes are invalid'') else Inr (sort scopes))"

definition scopes_json :: "string list \<Rightarrow> string" where
  "scopes_json scopes = dumps (JArr (map JStr scopes))"

section \<open>The membership store\<close>

definition membership_rows :: "database \<Rightarrow> py_exn + membership_row list" where
  "membership_rows db = (case t_memberships db of
     None \<Rightarrow> Inl (OtherError ''no such table: oidc_memberships'') | Some ms \<Rightarrow> Inr ms)"

definition init_memberships :: "(world, unit) action" where
  "init_memberships = execute (\<lambda>db. True) (\<lambda>db.
     case t_memberships db of None \<Rightarrow> db\<lparr>t_memberships := Some []\<rparr> | Some _ \<Rightarrow> db)"

definition membership_key :: "membership_row \<Rightarrow> string \<times> string" where
  "membership_key r = (mb_issuer r, mb_subject r)"

definition view_membership :: "membership_row \<Rightarrow> py_exn + membership" where
  "view_membership r =
     (case loads (mb_scopes r) of
        None \<Rightarrow> Inl (MembershipError ''membership scopes are invalid'')
      | Some v \<Rightarrow>
          (case server_scopes v of
             Inl _ \<Rightarrow> Inl (MembershipError ''membership scopes are invalid'')
           | Inr scopes \<Rightarrow> Inr \<lparr>m_issuer = mb_issuer r, m_subject = mb_subject r, m_tenant = mb_tenant r,
               m_actor = mb_actor r, m_status = mb_status r, m_scopes = scopes\<rparr>))"

definition lookup_membership :: "database \<Rightarrow> string \<Rightarrow> string \<Rightarrow> py_exn + membership option" where
  "lookup_membership db issuer subject =
     ebind (membership_rows db) (\<lambda>rows.
     case List.find (\<lambda>r. membership_key r = (issuer, subject)) rows of
       None \<Rightarrow> Inr None
     | Some r \<Rightarrow> ebind (view_membership r) (\<lambda>m. Inr (Some m)))"

definition insert_membership_row :: "membership_row \<Rightarrow> (world, unit) action" where
  "insert_membership_row r = execute
     (\<lambda>db. list_all (\<lambda>x. membership_key x \<noteq> membership_key r) (case t_memberships db of Some ms \<Rightarrow> ms | None \<Rightarrow> [])
        \<and> mb_status r \<in> set [''active'', ''disabled'', ''revoked''])
     (\<lambda>db. db\<lparr>t_memberships := map_option (\<lambda>ms. ms @ [r]) (t_memberships db)\<rparr>)"

definition member_status :: "json \<Rightarrow> py_exn + string" where
  "member_status v =
     (case v of
        JStr s \<Rightarrow> if s \<in> set MEMBERSHIP_STATUSES then Inr s else Inl (MembershipError ''membership status is invalid'')
      | _ \<Rightarrow> Inl (MembershipError ''membership status is invalid''))"

definition clock_text :: "(nat \<Rightarrow> string) \<Rightarrow> (world, string) action" where
  "clock_text tt = (\<lambda>w. (Inr (tt (w_now w)), w\<lparr>w_now := Suc (w_now w)\<rparr>))"

definition add_membership ::
    "(nat \<Rightarrow> string) \<Rightarrow> json \<Rightarrow> json \<Rightarrow> json \<Rightarrow> json \<Rightarrow> json \<Rightarrow> json \<Rightarrow> (world, membership) action" where
  "add_membership tt issuer subject tenant actor status scopes =
     mbind (mlift (required_text ''issuer'' issuer)) (\<lambda>iss.
     mbind (mlift (required_text ''subject'' subject)) (\<lambda>sub.
     mbind (mlift (required_text ''tenant_id'' tenant)) (\<lambda>ten.
     mbind (mlift (required_text ''actor_id'' actor)) (\<lambda>act.
     mbind (mlift (member_status status)) (\<lambda>st.
     mbind (mlift (server_scopes scopes)) (\<lambda>sc.
     mbind (clock_text tt) (\<lambda>now.
     mbind (mtry (transact (
         mbind (query_or_raise membership_rows) (\<lambda>_.
         insert_membership_row \<lparr>mb_issuer = iss, mb_subject = sub, mb_tenant = ten, mb_actor = act,
           mb_status = st, mb_scopes = scopes_json sc, mb_created = now, mb_updated = now\<rparr>)))
       (\<lambda>e. if e \<noteq> IntegrityError then mraise e else
         mbind (query_or_raise (\<lambda>db. lookup_membership db iss sub)) (\<lambda>existing.
         mraise (MembershipError (case existing of
             Some m \<Rightarrow> if m_tenant m \<noteq> ten \<or> m_actor m \<noteq> act then ''OIDC membership mapping is immutable''
               else ''OIDC membership already exists''
           | None \<Rightarrow> ''OIDC membership already exists''))))) (\<lambda>_.
     mret \<lparr>m_issuer = iss, m_subject = sub, m_tenant = ten, m_actor = act, m_status = st, m_scopes = sc\<rparr>))))))))"

text \<open>\<open>UPDATE ... WHERE issuer = ? AND subject = ?\<close>, which must hit one row; the row read back.\<close>

definition update_membership ::
    "string \<Rightarrow> string \<Rightarrow> (membership_row \<Rightarrow> membership_row) \<Rightarrow> (world, membership) action" where
  "update_membership iss sub f =
     mbind (transact (
       mbind (query_or_raise membership_rows) (\<lambda>rows.
       mbind (execute (\<lambda>db. True) (\<lambda>db. db\<lparr>t_memberships := map_option (map (\<lambda>r.
           if membership_key r = (iss, sub) then f r else r)) (t_memberships db)\<rparr>)) (\<lambda>_.
       mguard (length (filter (\<lambda>r. membership_key r = (iss, sub)) rows) \<noteq> 1)
         (MembershipError ''OIDC membership not found''))))) (\<lambda>_.
     mbind (query_or_raise (\<lambda>db. lookup_membership db iss sub)) (\<lambda>m.
     case m of Some m \<Rightarrow> mret m | None \<Rightarrow> mraise (OtherError ''AssertionError'')))"

definition set_membership_status ::
    "(nat \<Rightarrow> string) \<Rightarrow> json \<Rightarrow> json \<Rightarrow> json \<Rightarrow> (world, membership) action" where
  "set_membership_status tt issuer subject status =
     mbind (mlift (required_text ''issuer'' issuer)) (\<lambda>iss.
     mbind (mlift (required_text ''subject'' subject)) (\<lambda>sub.
     mbind (mlift (member_status status)) (\<lambda>st.
     mbind (clock_text tt) (\<lambda>now.
     update_membership iss sub (\<lambda>r. r\<lparr>mb_status := st, mb_updated := now\<rparr>)))))"

definition set_membership_scopes ::
    "(nat \<Rightarrow> string) \<Rightarrow> json \<Rightarrow> json \<Rightarrow> json \<Rightarrow> (world, membership) action" where
  "set_membership_scopes tt issuer subject scopes =
     mbind (mlift (required_text ''issuer'' issuer)) (\<lambda>iss.
     mbind (mlift (required_text ''subject'' subject)) (\<lambda>sub.
     mbind (mlift (server_scopes scopes)) (\<lambda>sc.
     mbind (clock_text tt) (\<lambda>now.
     update_membership iss sub (\<lambda>r. r\<lparr>mb_scopes := scopes_json sc, mb_updated := now\<rparr>)))))"

text \<open>One record of the seed file.\<close>

definition seed_record :: "(nat \<Rightarrow> string) \<Rightarrow> json \<Rightarrow> (world, unit) action" where
  "seed_record tt entry =
     (if \<not> jis_obj entry then mraise (MembershipError ''OIDC membership record is invalid'') else
      let get = (\<lambda>k d. case jget entry k of Some v \<Rightarrow> v | None \<Rightarrow> d);
          issuer = get ''issuer'' JNull; subject = get ''subject'' JNull; tenant = get ''tenant_id'' JNull;
          actor = get ''actor_id'' JNull; status = get ''status'' (JStr ''active''); scopes = get ''scopes'' (JArr [])
      in mbind (mlift (required_text ''issuer'' issuer)) (\<lambda>iss.
         mbind (mlift (required_text ''subject'' subject)) (\<lambda>sub.
         mbind (query_or_raise (\<lambda>db. lookup_membership db iss sub)) (\<lambda>existing.
         case existing of
           None \<Rightarrow> mbind (add_membership tt issuer subject tenant actor status scopes) (\<lambda>_. mret ())
         | Some m \<Rightarrow>
             if (JStr (m_tenant m), JStr (m_actor m)) \<noteq> (tenant, actor)
             then mraise (MembershipError ''OIDC membership mapping is immutable'')
             else
               mbind (if JStr (m_status m) \<noteq> status
                 then mbind (set_membership_status tt issuer subject status) (\<lambda>_. mret ()) else mret ()) (\<lambda>_.
               mbind (mlift (server_scopes scopes)) (\<lambda>sc.
               if m_scopes m \<noteq> sc
               then mbind (set_membership_scopes tt issuer subject scopes) (\<lambda>_. mret ()) else mret ()))))))"

definition seed_file :: "(nat \<Rightarrow> string) \<Rightarrow> json option \<Rightarrow> (world, unit) action" where
  "seed_file tt payload =
     (case payload of
        None \<Rightarrow> mraise (MembershipError ''OIDC membership file is invalid'')
      | Some p \<Rightarrow>
          (case (if jis_obj p then jget_none p ''memberships'' else p) of
             JArr records \<Rightarrow> mfor records (seed_record tt)
           | _ \<Rightarrow> mraise (MembershipError ''OIDC membership file must contain a list'')))"

section \<open>The JWKS cache\<close>

record 'k jwt_lib =
  unverified_header :: "string \<Rightarrow> json option"
  jwt_decode :: "string \<Rightarrow> 'k \<Rightarrow> json option"
  from_jwk :: "json \<Rightarrow> 'k option"
  body_json :: "bytes \<Rightarrow> json option"

record jwks_conf =
  jc_cache_seconds :: rat
  jc_fetch :: "nat \<Rightarrow> bytes option"
  jc_monotonic :: "nat \<Rightarrow> rat"

text \<open>The cached keys and when they expire, and how often the network and the clock were asked.\<close>

record 'k jwks =
  jk_keys :: "(string \<times> 'k) list"
  jk_expires :: rat
  jk_fetches :: nat
  jk_readings :: nat

definition jwks_init :: "rat \<Rightarrow> rat \<Rightarrow> py_exn + 'k jwks" where
  "jwks_init timeout cache_seconds =
     (if timeout \<le> 0 \<or> cache_seconds \<le> 0 then Inl (ValueError ''JWKS client limits must be positive'')
      else Inr \<lparr>jk_keys = [], jk_expires = 0, jk_fetches = 0, jk_readings = 0\<rparr>)"

definition usable_jwk :: "json \<Rightarrow> bool" where
  "usable_jwk jwk \<longleftrightarrow> jis_obj jwk \<and> jget jwk ''kty'' = Some (JStr ''RSA'')
     \<and> jget_none jwk ''alg'' \<in> {JNull, JStr OIDC_ALGORITHM} \<and> jget_none jwk ''use'' \<in> {JNull, JStr ''sig''}
     \<and> (case jget_none jwk ''key_ops'' of JNull \<Rightarrow> True | JArr ops \<Rightarrow> JStr ''verify'' \<in> set ops | _ \<Rightarrow> False)
     \<and> nonempty_text (jget jwk ''kid'')"

fun parse_jwks :: "'k jwt_lib \<Rightarrow> (string \<times> 'k) list \<Rightarrow> json list \<Rightarrow> py_exn + (string \<times> 'k) list" where
  "parse_jwks J parsed [] = Inr parsed"
| "parse_jwks J parsed (jwk # jwks) =
     (if \<not> usable_jwk jwk then parse_jwks J parsed jwks
      else let kid = scope_text (jget_none jwk ''kid'') in
        if map_of parsed kid \<noteq> None then Inl (JwksError ''OIDC JWKS contains duplicate key ids'')
        else case from_jwk J jwk of
          None \<Rightarrow> Inl (JwksError ''OIDC JWKS contains an invalid signing key'')
        | Some k \<Rightarrow> parse_jwks J (parsed @ [(kid, k)]) jwks)"

definition jwks_payload :: "'k jwt_lib \<Rightarrow> bytes option \<Rightarrow> py_exn + (string \<times> 'k) list" where
  "jwks_payload J body =
     (case body of
        None \<Rightarrow> Inl (JwksError ''OIDC JWKS unavailable'')
      | Some b \<Rightarrow>
          if length (take (MAX_JWKS_BYTES + 1) b) > MAX_JWKS_BYTES then Inl (JwksError ''OIDC JWKS is too large'')
          else case body_json J (take (MAX_JWKS_BYTES + 1) b) of
            None \<Rightarrow> Inl (JwksError ''OIDC JWKS is invalid'')
          | Some payload \<Rightarrow>
              (case jget payload ''keys'' of
                 Some (JArr keys) \<Rightarrow>
                   ebind (parse_jwks J [] keys) (\<lambda>parsed.
                   if parsed = [] then Inl (JwksError ''OIDC JWKS has no usable RSA signing keys'') else Inr parsed)
               | _ \<Rightarrow> Inl (JwksError ''OIDC JWKS is invalid'')))"

definition jwks_refresh :: "'k jwt_lib \<Rightarrow> jwks_conf \<Rightarrow> ('k jwks, unit) action" where
  "jwks_refresh J C = (\<lambda>s.
     let s1 = s\<lparr>jk_fetches := Suc (jk_fetches s)\<rparr> in
     case jwks_payload J (jc_fetch C (jk_fetches s)) of
       Inl e \<Rightarrow> (Inl e, s1)
     | Inr parsed \<Rightarrow> (Inr (), s1\<lparr>jk_keys := parsed, jk_readings := Suc (jk_readings s),
         jk_expires := jc_monotonic C (jk_readings s) + jc_cache_seconds C\<rparr>))"

definition cached_key :: "jwks_conf \<Rightarrow> string \<Rightarrow> ('k jwks, 'k option) action" where
  "cached_key C kid = (\<lambda>s.
     case map_of (jk_keys s) kid of
       None \<Rightarrow> (Inr None, s)
     | Some k \<Rightarrow> (Inr (if jc_monotonic C (jk_readings s) < jk_expires s then Some k else None),
         s\<lparr>jk_readings := Suc (jk_readings s)\<rparr>))"

definition jwks_key :: "'k jwt_lib \<Rightarrow> jwks_conf \<Rightarrow> string \<Rightarrow> ('k jwks, 'k) action" where
  "jwks_key J C kid =
     mbind (cached_key C kid) (\<lambda>cached.
     case cached of
       Some k \<Rightarrow> mret k
     | None \<Rightarrow>
         mbind (jwks_refresh J C) (\<lambda>_.
         mbind (mget (\<lambda>s. map_of (jk_keys s) kid)) (\<lambda>k.
         case k of Some k \<Rightarrow> mret k | None \<Rightarrow> mraise (JwksError ''OIDC signing key is unknown''))))"

section \<open>The verifier\<close>

record verifier =
  vr_issuer :: string
  vr_audience :: string
  vr_skew :: rat

definition verifier_init :: "string \<Rightarrow> string \<Rightarrow> rat \<Rightarrow> py_exn + verifier" where
  "verifier_init issuer audience skew =
     (if issuer = [] \<or> audience = [] \<or> skew < 0 then Inl (ValueError ''OIDC verifier configuration is invalid'')
      else Inr \<lparr>vr_issuer = issuer, vr_audience = audience, vr_skew = skew\<rparr>)"

definition audience_matches :: "string \<Rightarrow> json option \<Rightarrow> bool" where
  "audience_matches audience v \<longleftrightarrow>
     (case v of
        Some (JStr s) \<Rightarrow> s = audience
      | Some (JArr vs) \<Rightarrow> list_all (\<lambda>v. case v of JStr _ \<Rightarrow> True | _ \<Rightarrow> False) vs \<and> JStr audience \<in> set vs
      | _ \<Rightarrow> False)"

text \<open>\<open>math.isfinite\<close> of an \<open>int\<close> no float can hold raises \<open>OverflowError\<close>.\<close>

definition float_overflow :: "int \<Rightarrow> bool" where
  "float_overflow i \<longleftrightarrow> \<bar>i\<bar> \<ge> 2 ^ 1024 - 2 ^ 970"

definition float_value :: "string \<Rightarrow> rat" where
  "float_value r = (if starts_with ''-'' r then - float_abs r else float_abs r)"

definition numeric_claim :: "py_exn \<Rightarrow> json \<Rightarrow> string \<Rightarrow> bool \<Rightarrow> py_exn + rat option" where
  "numeric_claim invalid claims name required =
     (case jget_none claims name of
        JNull \<Rightarrow> if required then Inl invalid else Inr None
      | JInt i \<Rightarrow> if float_overflow i then Inl (OtherError ''int too large to convert to float'') else Inr (Some (of_int i))
      | JFloat r \<Rightarrow> if r \<in> {''nan'', ''inf'', ''-inf''} then Inl invalid else Inr (Some (float_value r))
      | _ \<Rightarrow> Inl invalid)"

definition invalid_token :: py_exn where
  "invalid_token = AuthenticationError ''invalid bearer token''"

text \<open>What is checked of the claims before the membership: issuer, audience, subject, times.\<close>

definition check_times :: "py_exn \<Rightarrow> rat \<Rightarrow> rat \<Rightarrow> json \<Rightarrow> py_exn + unit" where
  "check_times invalid skew now claims =
     ebind (numeric_claim invalid claims ''exp'' True) (\<lambda>ex.
     ebind (guard_raise (case ex of Some t \<Rightarrow> t \<le> now - skew | None \<Rightarrow> True) invalid) (\<lambda>_.
     ebind (numeric_claim invalid claims ''nbf'' False) (\<lambda>nbf.
     ebind (guard_raise (case nbf of Some t \<Rightarrow> t > now + skew | None \<Rightarrow> False) invalid) (\<lambda>_.
     ebind (numeric_claim invalid claims ''iat'' False) (\<lambda>iat.
     guard_raise (case iat of Some t \<Rightarrow> t > now + skew | None \<Rightarrow> False) invalid)))))"

definition check_claims :: "verifier \<Rightarrow> rat \<Rightarrow> json \<Rightarrow> py_exn + string" where
  "check_claims V now claims =
     (if \<not> jis_obj claims \<or> jget claims ''iss'' \<noteq> Some (JStr (vr_issuer V))
        \<or> \<not> audience_matches (vr_audience V) (jget claims ''aud'') \<or> \<not> nonempty_text (jget claims ''sub'')
      then Inl invalid_token
      else ebind (check_times invalid_token (vr_skew V) now claims) (\<lambda>_. Inr (scope_text (jget_none claims ''sub''))))"

text \<open>The header, the key and the verified claims; \<open>JwksError\<close> and \<open>PyJWTError\<close> become one error.\<close>

definition decode_token ::
    "'k jwt_lib \<Rightarrow> jwks_conf \<Rightarrow> py_exn \<Rightarrow> string \<Rightarrow> ('k jwks, json) action" where
  "decode_token J C invalid token =
     (case unverified_header J token of
        None \<Rightarrow> mraise invalid
      | Some header \<Rightarrow>
          if jget header ''alg'' \<noteq> Some (JStr OIDC_ALGORITHM) \<or> \<not> nonempty_text (jget header ''kid'') then mraise invalid
          else mbind (mtry (jwks_key J C (scope_text (jget_none header ''kid'')))
              (\<lambda>e. case e of JwksError _ \<Rightarrow> mraise invalid | _ \<Rightarrow> mraise e)) (\<lambda>key.
            case jwt_decode J token key of None \<Rightarrow> mraise invalid | Some claims \<Rightarrow> mret claims))"

definition active_principal :: "database \<Rightarrow> string \<Rightarrow> string \<Rightarrow> py_exn + principal" where
  "active_principal db issuer subject =
     (case lookup_membership db issuer subject of
        Inl (MembershipError _) \<Rightarrow> Inl (AuthenticationError ''principal is not active'')
      | Inl e \<Rightarrow> Inl e
      | Inr None \<Rightarrow> Inl (AuthenticationError ''principal is not active'')
      | Inr (Some m) \<Rightarrow>
          if m_status m \<noteq> ''active'' then Inl (AuthenticationError ''principal is not active'')
          else Inr \<lparr>p_tenant = m_tenant m, p_actor = m_actor m, p_issuer = issuer, p_subject = subject,
            p_scopes = m_scopes m\<rparr>)"

definition verify_token ::
    "'k jwt_lib \<Rightarrow> jwks_conf \<Rightarrow> verifier \<Rightarrow> database \<Rightarrow> rat \<Rightarrow> string \<Rightarrow> ('k jwks, principal) action" where
  "verify_token J C V db now token =
     (if token = [] \<or> length token > MAX_TOKEN_LENGTH then mraise invalid_token
      else mbind (decode_token J C invalid_token token) (\<lambda>claims.
        mbind (mlift (check_claims V now claims)) (\<lambda>subject.
        mlift (active_principal db (vr_issuer V) subject))))"

text \<open>\<open>Authorization: Bearer <token>\<close>, exactly one such header. Header bytes are decoded as Latin-1.\<close>

definition latin1 :: "bytes \<Rightarrow> string" where
  "latin1 bs = map (\<lambda>b. char_of (unat b)) bs"

definition lower_byte :: "8 word \<Rightarrow> 8 word" where
  "lower_byte b = (if 65 \<le> unat b \<and> unat b \<le> 90 then b + 32 else b)"

definition bearer_token :: "(bytes \<times> bytes) list \<Rightarrow> py_exn + string" where
  "bearer_token headers =
     (case filter (\<lambda>(name, v). map lower_byte name = utf8 ''authorization'') headers of
        [(_, v)] \<Rightarrow>
          (let (scheme, separator, token) = partition_at (CHR '' '') (latin1 v) in
           if \<not> separator \<or> lower scheme \<noteq> ''bearer'' \<or> token = [] \<or> list_ex is_space token
           then Inl (AuthenticationError ''authorization is invalid'') else Inr token)
      | _ \<Rightarrow> Inl (AuthenticationError ''authorization is required''))"

definition authenticate ::
    "'k jwt_lib \<Rightarrow> jwks_conf \<Rightarrow> verifier \<Rightarrow> database \<Rightarrow> rat \<Rightarrow> (bytes \<times> bytes) list \<Rightarrow> ('k jwks, principal) action" where
  "authenticate J C V db now headers =
     mbind (mlift (bearer_token headers)) (\<lambda>token. verify_token J C V db now token)"

section \<open>What the key set and the checks guarantee\<close>

lemma jwks_refresh_Inr:
  "jwks_refresh J C s = (Inr u, s') \<Longrightarrow> jwks_payload J (jc_fetch C (jk_fetches s)) = Inr (jk_keys s')"
  by (auto simp: jwks_refresh_def Let_def split: sum.splits)

lemma jwks_refresh_Inl:
  "jwks_refresh J C s = (Inl e, s') \<Longrightarrow> jk_keys s' = jk_keys s \<and> jk_expires s' = jk_expires s"
  by (auto simp: jwks_refresh_def Let_def split: sum.splits)

lemma jwks_key_in_set:
  assumes "jwks_key J C kid s = (Inr k, s')"
  shows "map_of (jk_keys s') kid = Some k"
proof -
  obtain c u where c: "cached_key C kid s = (Inr c, u)"
    and rest: "(case c of Some k \<Rightarrow> mret k
       | None \<Rightarrow> mbind (jwks_refresh J C) (\<lambda>_. mbind (mget (\<lambda>s. map_of (jk_keys s) kid))
           (\<lambda>k. case k of Some k \<Rightarrow> mret k | None \<Rightarrow> mraise (JwksError ''OIDC signing key is unknown'')))) u
      = (Inr k, s')"
    using assms unfolding jwks_key_def mbind_Inr_iff by auto
  show ?thesis
  proof (cases c)
    case None
    then show ?thesis using rest by (auto simp: err_simps split: option.splits)
  next
    case (Some k')
    then have "k' = k" "s' = u" using rest by (auto simp: err_simps)
    then show ?thesis using c Some by (auto simp: cached_key_def split: option.splits if_splits)
  qed
qed

text \<open>Only RSA signing keys that the fetched document names once are kept.\<close>

lemma parse_jwks_sound:
  assumes "parse_jwks J parsed jwks = Inr ks" and "(kid, k) \<in> set ks"
  shows "(kid, k) \<in> set parsed
     \<or> (\<exists>jwk \<in> set jwks. usable_jwk jwk \<and> jget jwk ''kid'' = Some (JStr kid) \<and> from_jwk J jwk = Some k)"
  using assms
proof (induction jwks arbitrary: parsed)
  case (Cons jwk jwks)
  show ?case
  proof (cases "usable_jwk jwk")
    case True
    then obtain i where i: "jget jwk ''kid'' = Some (JStr i)"
      by (auto simp: usable_jwk_def nonempty_text_def split: option.splits json.splits)
    then obtain k' where k': "from_jwk J jwk = Some k'" "parse_jwks J (parsed @ [(i, k')]) jwks = Inr ks"
      using Cons.prems(1) True by (auto simp: Let_def jget_none_def split: if_splits option.splits)
    show ?thesis using Cons.IH[OF k'(2) Cons.prems(2)] i k'(1) True by auto
  next
    case False
    then show ?thesis using Cons by auto
  qed
qed simp

lemma parse_jwks_distinct:
  "parse_jwks J parsed jwks = Inr ks \<Longrightarrow> distinct (map fst parsed) \<Longrightarrow> distinct (map fst ks)"
  by (induction J parsed jwks rule: parse_jwks.induct)
    (auto simp: Let_def map_of_eq_None_iff split: if_splits option.splits)

definition jwks_ok :: "'k jwt_lib \<Rightarrow> jwks_conf \<Rightarrow> 'k jwks \<Rightarrow> bool" where
  "jwks_ok J C s \<longleftrightarrow> distinct (map fst (jk_keys s))
     \<and> (jk_keys s = [] \<or> (\<exists>n < jk_fetches s. jwks_payload J (jc_fetch C n) = Inr (jk_keys s)))"

lemma payload_distinct: "jwks_payload J body = Inr ks \<Longrightarrow> distinct (map fst ks)"
  by (auto simp: jwks_payload_def err_simps split: option.splits json.splits if_splits
      intro: parse_jwks_distinct)

text \<open>A verified token.\<close>

lemma decode_token_Inr:
  assumes "decode_token J C invalid token s = (Inr claims, s')"
  shows "\<exists>header kid key. unverified_header J token = Some header
     \<and> jget header ''alg'' = Some (JStr OIDC_ALGORITHM) \<and> jget header ''kid'' = Some (JStr kid)
     \<and> map_of (jk_keys s') kid = Some key \<and> jwt_decode J token key = Some claims"
proof -
  obtain header where h: "unverified_header J token = Some header"
      "jget header ''alg'' = Some (JStr OIDC_ALGORITHM)" "nonempty_text (jget header ''kid'')"
    and run: "mbind (mtry (jwks_key J C (scope_text (jget_none header ''kid'')))
        (\<lambda>e. case e of JwksError _ \<Rightarrow> mraise invalid | _ \<Rightarrow> mraise e)) (\<lambda>key.
          case jwt_decode J token key of None \<Rightarrow> mraise invalid | Some claims \<Rightarrow> mret claims) s = (Inr claims, s')"
    using assms by (auto simp: decode_token_def err_simps split: option.splits if_splits)
  obtain kid where kid: "jget header ''kid'' = Some (JStr kid)"
    using h(3) by (auto simp: nonempty_text_def split: option.splits json.splits)
  obtain key u where k: "mtry (jwks_key J C kid)
        (\<lambda>e. case e of JwksError _ \<Rightarrow> mraise invalid | _ \<Rightarrow> mraise e) s = (Inr key, u)"
    and d: "(case jwt_decode J token key of None \<Rightarrow> mraise invalid | Some claims \<Rightarrow> mret claims) u = (Inr claims, s')"
    using run kid by (auto simp: mbind_Inr_iff jget_none_def)
  have "jwks_key J C kid s = (Inr key, u)"
  proof -
    have "(case e of JwksError _ \<Rightarrow> mraise invalid | _ \<Rightarrow> mraise e) v \<noteq> (Inr key, u)" for e v
      by (cases e) (auto simp: mraise_iff)
    then show ?thesis using k by (auto simp: mtry_Inr)
  qed
  moreover have "jwt_decode J token key = Some claims" "s' = u"
    using d by (auto simp: err_simps split: option.splits)
  ultimately show ?thesis using h kid jwks_key_in_set by metis
qed

definition times_ok :: "rat \<Rightarrow> rat \<Rightarrow> json \<Rightarrow> bool" where
  "times_ok skew now claims \<longleftrightarrow>
     (\<exists>t. numeric_claim invalid_token claims ''exp'' True = Inr (Some t) \<and> now < t + skew)
     \<and> (\<forall>name \<in> {''nbf'', ''iat''}. \<forall>t. numeric_claim invalid_token claims name False = Inr (Some t)
          \<longrightarrow> t \<le> now + skew)"

lemma numeric_required: "numeric_claim e claims name True \<noteq> Inr None"
  by (auto simp: numeric_claim_def split: json.splits)

lemma check_times_ok:
  assumes "check_times invalid_token skew now claims = Inr u"
  shows "times_ok skew now claims"
proof -
  obtain ex nbf iat where c: "numeric_claim invalid_token claims ''exp'' True = Inr ex"
    "numeric_claim invalid_token claims ''nbf'' False = Inr nbf"
    "numeric_claim invalid_token claims ''iat'' False = Inr iat"
    "\<not> (case ex of Some t \<Rightarrow> t \<le> now - skew | None \<Rightarrow> True)"
    "\<not> (case nbf of Some t \<Rightarrow> t > now + skew | None \<Rightarrow> False)"
    "\<not> (case iat of Some t \<Rightarrow> t > now + skew | None \<Rightarrow> False)"
    using assms by (auto simp: check_times_def err_simps)
  then show ?thesis by (auto simp: times_ok_def split: option.splits)
qed

lemma check_claims_Inr:
  assumes "check_claims V now claims = Inr subject"
  shows "jget claims ''iss'' = Some (JStr (vr_issuer V))" "audience_matches (vr_audience V) (jget claims ''aud'')"
    "jget claims ''sub'' = Some (JStr subject)" "subject \<noteq> []" "times_ok (vr_skew V) now claims"
  using assms check_times_ok
  by (auto simp: check_claims_def err_simps nonempty_text_def jget_none_def
      split: if_splits option.splits json.splits)

definition member_row :: "database \<Rightarrow> string \<times> string \<Rightarrow> membership_row option" where
  "member_row db k = (case t_memberships db of None \<Rightarrow> None
     | Some ms \<Rightarrow> List.find (\<lambda>r. membership_key r = k) ms)"

lemma lookup_membership_Some:
  "lookup_membership db issuer subject = Inr (Some m) \<Longrightarrow>
     \<exists>r. member_row db (issuer, subject) = Some r \<and> view_membership r = Inr m"
  by (auto simp: lookup_membership_def membership_rows_def member_row_def err_simps split: option.splits)

lemma view_membership_Inr:
  "view_membership r = Inr m \<Longrightarrow> m_issuer m = mb_issuer r \<and> m_subject m = mb_subject r
     \<and> m_tenant m = mb_tenant r \<and> m_actor m = mb_actor r \<and> m_status m = mb_status r"
  by (auto simp: view_membership_def split: option.splits sum.splits)

lemma active_principal_Inr:
  assumes "active_principal db issuer subject = Inr p"
  shows "\<exists>r m. member_row db (issuer, subject) = Some r \<and> view_membership r = Inr m
     \<and> mb_status r = ''active'' \<and> p_tenant p = mb_tenant r \<and> p_actor p = mb_actor r \<and> p_issuer p = issuer
     \<and> p_subject p = subject \<and> p_scopes p = m_scopes m"
proof -
  obtain m where "lookup_membership db issuer subject = Inr (Some m)" and m: "m_status m = ''active''"
    and p: "p = \<lparr>p_tenant = m_tenant m, p_actor = m_actor m, p_issuer = issuer,
            p_subject = subject, p_scopes = m_scopes m\<rparr>"
    using assms by (auto simp: active_principal_def split: sum.splits option.splits if_splits py_exn.splits)
  then obtain r where "member_row db (issuer, subject) = Some r" "view_membership r = Inr m"
    using lookup_membership_Some by blast
  then show ?thesis using m p view_membership_Inr[of r m] by auto
qed

lemma verify_token_Inr:
  assumes "verify_token J C V db now token s = (Inr p, s')"
  shows "\<exists>claims. decode_token J C invalid_token token s = (Inr claims, s')
     \<and> check_claims V now claims = Inr (p_subject p)
     \<and> active_principal db (vr_issuer V) (p_subject p) = Inr p
     \<and> length token \<le> MAX_TOKEN_LENGTH"
proof -
  obtain claims sub where f: "decode_token J C invalid_token token s = (Inr claims, s')"
      "check_claims V now claims = Inr sub" "active_principal db (vr_issuer V) sub = Inr p"
      "length token \<le> MAX_TOKEN_LENGTH"
    using assms by (auto simp: verify_token_def err_simps split: if_splits)
  have "p_subject p = sub" using active_principal_Inr[OF f(3)] by auto
  then show ?thesis using f by auto
qed

section \<open>The mapping of an identity never changes\<close>

text \<open>\<open>mapping_kept\<close>: every identity that has a membership keeps its tenant and actor.\<close>

definition mapping_kept :: "world \<Rightarrow> world \<Rightarrow> bool" where
  "mapping_kept w w' \<longleftrightarrow> (\<forall>k r. member_row (w_db w) k = Some r \<longrightarrow>
     (\<exists>r'. member_row (w_db w') k = Some r' \<and> mb_tenant r' = mb_tenant r \<and> mb_actor r' = mb_actor r))"

interpretation mapping: action_relation mapping_kept
  by unfold_locales (auto simp: mapping_kept_def, metis)

lemma find_map: "List.find P (map f xs) = map_option f (List.find (P \<circ> f) xs)"
  by (induction xs) auto

lemma insert_membership_kept: "steps_by mapping_kept (insert_membership_row r)"
  by (rule steps_byI)
    (auto simp: insert_membership_row_def execute_iff mapping_kept_def member_row_def find_append
      split: if_splits option.splits)

lemma init_memberships_kept: "steps_by mapping_kept init_memberships"
  by (rule steps_byI)
    (auto simp: init_memberships_def execute_iff mapping_kept_def member_row_def split: option.splits)

text \<open>What the two updates write: columns outside the mapping.\<close>

definition keeps_mapping :: "(membership_row \<Rightarrow> membership_row) \<Rightarrow> bool" where
  "keeps_mapping f \<longleftrightarrow> (\<forall>r. membership_key (f r) = membership_key r
     \<and> mb_tenant (f r) = mb_tenant r \<and> mb_actor (f r) = mb_actor r)"

lemma find_update:
  assumes "keeps_mapping f"
  shows "List.find (\<lambda>r. membership_key r = k) (map (\<lambda>r. if membership_key r = k' then f r else r) rows)
    = map_option (\<lambda>r. if k = k' then f r else r) (List.find (\<lambda>r. membership_key r = k) rows)"
  using assms by (induction rows) (auto simp: keeps_mapping_def)

lemma member_row_update:
  "keeps_mapping f \<Longrightarrow> member_row (db\<lparr>t_memberships := map_option (map (\<lambda>r.
      if membership_key r = k' then f r else r)) (t_memberships db)\<rparr>) k
    = map_option (\<lambda>r. if k = k' then f r else r) (member_row db k)"
  by (auto simp: member_row_def find_update split: option.splits)

lemma transact_kept: "steps_by mapping_kept m \<Longrightarrow> steps_by mapping_kept (transact m)"
proof (rule steps_byI)
  fix w r w' assume m: "steps_by mapping_kept m" and t: "transact m w = (r, w')"
  obtain r0 w0 where r0: "m w = (r0, w0)" by (cases "m w")
  have "mapping_kept w w0" using steps_byD[OF m r0] .
  then show "mapping_kept w w'"
    using t r0 by (cases r0) (auto simp: transact_def mapping_kept_def)
qed

lemma query_kept: "steps_by mapping_kept (query_or_raise f)"
  by (rule steps_byI) (simp add: query_or_raise_iff mapping.R_refl)

lemma clock_text_kept: "steps_by mapping_kept (clock_text tt)"
  by (rule steps_byI) (auto simp: clock_text_def mapping_kept_def)

lemma update_membership_kept: "keeps_mapping f \<Longrightarrow> steps_by mapping_kept (update_membership iss sub f)"
  unfolding update_membership_def
  by (intro mapping.steps_intros transact_kept query_kept)
    (auto intro!: steps_byI mapping.steps_intros
      simp: execute_iff mapping_kept_def member_row_update keeps_mapping_def)

lemmas membership_intros = mapping.steps_intros transact_kept query_kept clock_text_kept insert_membership_kept
  update_membership_kept

lemma add_membership_kept: "steps_by mapping_kept (add_membership tt i s t a st sc)"
  unfolding add_membership_def by (intro membership_intros)

lemma set_membership_status_kept: "steps_by mapping_kept (set_membership_status tt i s st)"
  unfolding set_membership_status_def
  by (intro membership_intros) (simp add: keeps_mapping_def membership_key_def)

lemma set_membership_scopes_kept: "steps_by mapping_kept (set_membership_scopes tt i s sc)"
  unfolding set_membership_scopes_def
  by (intro membership_intros) (simp add: keeps_mapping_def membership_key_def)

lemma seed_record_kept: "steps_by mapping_kept (seed_record tt r)"
  unfolding seed_record_def Let_def
  by (intro membership_intros add_membership_kept set_membership_status_kept set_membership_scopes_kept)

lemma seed_file_kept: "steps_by mapping_kept (seed_file tt payload)"
  unfolding seed_file_def
  by (auto intro!: membership_intros seed_record_kept split: option.splits json.splits)

text \<open>An administrator's commands, in any order.\<close>

datatype membership_command =
    AddMember json json json json json json
  | SetStatus json json json
  | SetScopes json json json
  | SeedFile "json option"
  | OpenStore

fun membership_step :: "(nat \<Rightarrow> string) \<Rightarrow> membership_command \<Rightarrow> world \<Rightarrow> world" where
  "membership_step tt (AddMember i s t a st sc) w = snd (add_membership tt i s t a st sc w)"
| "membership_step tt (SetStatus i s st) w = snd (set_membership_status tt i s st w)"
| "membership_step tt (SetScopes i s sc) w = snd (set_membership_scopes tt i s sc w)"
| "membership_step tt (SeedFile f) w = snd (seed_file tt f w)"
| "membership_step tt OpenStore w = snd (init_memberships w)"

interpretation mapping_run: stepwise "membership_step tt" "mapping_kept w" for tt w
proof
  fix c :: membership_command and s :: world
  assume "mapping_kept w s"
  moreover have "mapping_kept s (membership_step tt c s)"
    using add_membership_kept set_membership_status_kept set_membership_scopes_kept seed_file_kept
      init_memberships_kept by (cases c) (simp_all add: steps_by_def)
  ultimately show "mapping_kept w (membership_step tt c s)" by (rule mapping.R_trans)
qed

lemma update_membership_Inr:
  assumes "update_membership iss sub f w = (Inr m, w')"
  shows "w_db w' = (w_db w)\<lparr>t_memberships := map_option (map (\<lambda>r.
      if membership_key r = (iss, sub) then f r else r)) (t_memberships (w_db w))\<rparr>"
    and "\<exists>r. member_row (w_db w') (iss, sub) = Some r \<and> view_membership r = Inr m"
proof -
  let ?g = "\<lambda>db. db\<lparr>t_memberships := map_option (map (\<lambda>r.
      if membership_key r = (iss, sub) then f r else r)) (t_memberships db)\<rparr>"
  obtain v where v: "transact (mbind (query_or_raise membership_rows) (\<lambda>rows.
       mbind (execute (\<lambda>db. True) ?g) (\<lambda>_.
       mguard (length (filter (\<lambda>r. membership_key r = (iss, sub)) rows) \<noteq> 1)
         (MembershipError ''OIDC membership not found'')))) w = (Inr (), v)"
    and l: "mbind (query_or_raise (\<lambda>db. lookup_membership db iss sub)) (\<lambda>m.
       case m of Some m \<Rightarrow> mret m | None \<Rightarrow> mraise (OtherError ''AssertionError'')) v = (Inr m, w')"
    using assms unfolding update_membership_def mbind_Inr_iff by auto
  have "v = w\<lparr>w_db := ?g (w_db w)\<rparr>"
    using v by (simp only: transact_Inr mbind_Inr_iff query_or_raise_iff execute_iff mguard_iff) (clarsimp split: if_splits)
  moreover obtain o' where o': "lookup_membership (w_db v) iss sub = Inr o'"
    "(case o' of Some m \<Rightarrow> mret m | None \<Rightarrow> mraise (OtherError ''AssertionError'')) v = (Inr m, w')"
    using l by (auto simp only: mbind_Inr_iff query_or_raise_iff)
  moreover have "o' = Some m" "w' = v" using o'(2) by (cases o'; simp add: mret_def mraise_def)+
  ultimately show "w_db w' = ?g (w_db w)"
    and "\<exists>r. member_row (w_db w') (iss, sub) = Some r \<and> view_membership r = Inr m"
    using lookup_membership_Some[of "w_db v" iss sub m] by simp_all
qed

lemma set_status_row:
  assumes "set_membership_status tt (JStr iss) (JStr sub) (JStr st) w = (Inr m, w')"
  shows "\<exists>r. member_row (w_db w') (iss, sub) = Some r \<and> mb_status r = st"
proof -
  obtain now where u: "update_membership iss sub (\<lambda>r. r\<lparr>mb_status := st, mb_updated := now\<rparr>)
      (w\<lparr>w_now := Suc (w_now w)\<rparr>) = (Inr m, w')"
    using assms by (auto simp: set_membership_status_def err_simps required_text_def member_status_def
        clock_text_def split: if_splits)
  have k: "keeps_mapping (\<lambda>r. r\<lparr>mb_status := st, mb_updated := now\<rparr>)"
    by (simp add: keeps_mapping_def membership_key_def)
  show ?thesis
    using update_membership_Inr[OF u] member_row_update[OF k, of "(iss, sub)" "w_db w" "(iss, sub)"]
    by (cases "member_row (w_db w) (iss, sub)") auto
qed

section \<open>Properties\<close>

lemma cached_key_ok: "jwks_ok J C s \<Longrightarrow> cached_key C kid s = (r, s') \<Longrightarrow> jwks_ok J C s'"
  by (auto simp: cached_key_def jwks_ok_def split: option.splits)

lemma jwks_refresh_ok: "jwks_ok J C s \<Longrightarrow> jwks_refresh J C s = (r, s') \<Longrightarrow> jwks_ok J C s'"
  by (auto simp: jwks_refresh_def jwks_ok_def Let_def payload_distinct less_Suc_eq split: sum.splits)

lemma jwks_key_ok:
  assumes "jwks_ok J C s" and "jwks_key J C kid s = (r, s')"
  shows "jwks_ok J C s'"
proof -
  obtain c u where c: "cached_key C kid s = (c, u)" by (cases "cached_key C kid s")
  obtain r' v where v: "jwks_refresh J C u = (r', v)" by (cases "jwks_refresh J C u")
  have "s' = u \<or> s' = v"
    using assms(2) c v by (auto simp: jwks_key_def mbind_def mget_def mret_def mraise_def split: sum.splits option.splits)
  then show ?thesis using cached_key_ok[OF assms(1) c] jwks_refresh_ok v by blast
qed

lemma decode_token_ok:
  assumes "jwks_ok J C s" and "decode_token J C invalid token s = (r, s')"
  shows "jwks_ok J C s'"
proof -
  have "s' = s \<or> (\<exists>kid r'. jwks_key J C kid s = (r', s'))"
    using assms(2) by (auto simp: decode_token_def mbind_def mtry_def mret_def mraise_def
        split: option.splits if_splits prod.splits sum.splits py_exn.splits)
  then show ?thesis using assms(1) jwks_key_ok by blast
qed

text \<open>C18: a token is accepted only when its header names RS256 and a key id, that id is in the key set of
  a JWKS document the configured endpoint served, the JWT library verified the token with that key, the
  claims are for this issuer and audience and within their times (up to the configured skew), and the
  server's own table has an active membership for the issuer and subject; the tenant, the actor and the
  scopes of the principal are the ones of that row, never of the token.\<close>

theorem verified_principal:
  assumes "jwks_ok J C s" and "verify_token J C V db now token s = (Inr p, s')"
  shows "\<exists>header kid key claims r m n. unverified_header J token = Some header
     \<and> jget header ''alg'' = Some (JStr OIDC_ALGORITHM) \<and> jget header ''kid'' = Some (JStr kid)
     \<and> n < jk_fetches s' \<and> jwks_payload J (jc_fetch C n) = Inr (jk_keys s')
     \<and> map_of (jk_keys s') kid = Some key \<and> jwt_decode J token key = Some claims
     \<and> jget claims ''iss'' = Some (JStr (vr_issuer V)) \<and> audience_matches (vr_audience V) (jget claims ''aud'')
     \<and> jget claims ''sub'' = Some (JStr (p_subject p)) \<and> times_ok (vr_skew V) now claims
     \<and> member_row db (vr_issuer V, p_subject p) = Some r \<and> mb_status r = ''active''
     \<and> view_membership r = Inr m
     \<and> p_tenant p = mb_tenant r \<and> p_actor p = mb_actor r \<and> p_issuer p = vr_issuer V
     \<and> p_scopes p = m_scopes m"
proof -
  obtain claims where v: "decode_token J C invalid_token token s = (Inr claims, s')"
    "check_claims V now claims = Inr (p_subject p)" "active_principal db (vr_issuer V) (p_subject p) = Inr p"
    using verify_token_Inr[OF assms(2)] by (elim exE conjE) (rule that)
  obtain header kid key where h: "unverified_header J token = Some header"
      "jget header ''alg'' = Some (JStr OIDC_ALGORITHM)" "jget header ''kid'' = Some (JStr kid)"
      "map_of (jk_keys s') kid = Some key" "jwt_decode J token key = Some claims"
    using decode_token_Inr[OF v(1)] by blast
  obtain n where n: "n < jk_fetches s'" "jwks_payload J (jc_fetch C n) = Inr (jk_keys s')"
    using decode_token_ok[OF assms(1) v(1)] h(4) unfolding jwks_ok_def by (cases "jk_keys s' = []") auto
  obtain r m where r: "member_row db (vr_issuer V, p_subject p) = Some r" "mb_status r = ''active''"
    "view_membership r = Inr m" "p_tenant p = mb_tenant r" "p_actor p = mb_actor r"
    "p_issuer p = vr_issuer V" "p_scopes p = m_scopes m"
    using active_principal_Inr[OF v(3)] by blast
  show ?thesis
    by (rule exI[of _ header], rule exI[of _ kid], rule exI[of _ key], rule exI[of _ claims],
      rule exI[of _ r], rule exI[of _ m], rule exI[of _ n]) (intro conjI h n check_claims_Inr[OF v(2)] r)
qed

text \<open>C20: whatever memberships are added, disabled, rescoped or seeded in between, two tokens for the same
  subject are resolved to the same tenant and actor: no administrative command moves an identity.\<close>

theorem identity_never_moves:
  assumes "verify_token J C V (w_db w) now token s = (Inr p, s')"
    and "verify_token J C V (w_db (fold (membership_step tt) cmds w)) now2 token2 t = (Inr q, t')"
    and "p_subject q = p_subject p"
  shows "p_tenant q = p_tenant p \<and> p_actor q = p_actor p"
proof -
  obtain r where r: "member_row (w_db w) (vr_issuer V, p_subject p) = Some r"
      "p_tenant p = mb_tenant r" "p_actor p = mb_actor r"
    using verify_token_Inr[OF assms(1)] active_principal_Inr[of "w_db w" "vr_issuer V" "p_subject p" p]
    by metis
  obtain r' where r': "member_row (w_db (fold (membership_step tt) cmds w)) (vr_issuer V, p_subject p) = Some r'"
      "p_tenant q = mb_tenant r'" "p_actor q = mb_actor r'"
    using verify_token_Inr[OF assms(2)] active_principal_Inr[of _ "vr_issuer V" "p_subject q" q] assms(3)
    by metis
  have "mapping_kept w (fold (membership_step tt) cmds w)"
    by (rule mapping_run.run_inv) (rule mapping.R_refl)
  then show ?thesis using r r' unfolding mapping_kept_def by (metis option.inject)
qed

text \<open>once an identity is set to any status but \<open>active\<close>, no token authenticates it: the very next
  verification is refused, whatever key set is cached.\<close>

theorem disabled_member_denied:
  assumes "set_membership_status tt (JStr (vr_issuer V)) (JStr sub) (JStr st) w = (Inr m, w')"
    and "st \<noteq> ''active''" and "verify_token J C V (w_db w') now token s = (Inr p, s')"
  shows "p_subject p \<noteq> sub"
  using set_status_row[OF assms(1)] assms(2) verify_token_Inr[OF assms(3)]
    active_principal_Inr[of "w_db w'" "vr_issuer V" "p_subject p" p] by auto

section \<open>Witnesses\<close>

definition sample_jwt :: "nat jwt_lib" where
  "sample_jwt = \<lparr>unverified_header = (\<lambda>token. Some (JObj [(''alg'', JStr ''RS256''), (''kid'', JStr ''k'')])),
     jwt_decode = (\<lambda>token k. if k = 7 then Some (JObj [(''iss'', JStr ''i''), (''aud'', JStr ''a''),
        (''sub'', JStr token), (''exp'', JInt 10)]) else None),
     from_jwk = (\<lambda>jwk. Some 7),
     body_json = (\<lambda>b. Some (JObj [(''keys'', JArr [JObj [(''kty'', JStr ''RSA''), (''kid'', JStr ''k'')]])]))\<rparr>"

definition sample_jc :: jwks_conf where
  "sample_jc = \<lparr>jc_cache_seconds = 300, jc_fetch = (\<lambda>n. Some []), jc_monotonic = (\<lambda>n. 0)\<rparr>"

definition sample_verifier :: verifier where
  "sample_verifier = \<lparr>vr_issuer = ''i'', vr_audience = ''a'', vr_skew = 0\<rparr>"

definition sample_member_row :: "string \<Rightarrow> membership_row" where
  "sample_member_row sub = \<lparr>mb_issuer = ''i'', mb_subject = sub, mb_tenant = ''t'', mb_actor = ''u'',
     mb_status = ''active'', mb_scopes = ''[\"read\"]'', mb_created = ''0'', mb_updated = ''0''\<rparr>"

definition sample_members :: world where
  "sample_members = empty_world\<lparr>w_db := empty_db\<lparr>t_memberships := Some [sample_member_row ''s'', sample_member_row ''v'']\<rparr>\<rparr>"

definition no_keys :: "nat jwks" where
  "no_keys = \<lparr>jk_keys = [], jk_expires = 0, jk_fetches = 0, jk_readings = 0\<rparr>"

lemma sample_loads: "loads ''[\"read\"]'' = Some (JArr [JStr ''read''])"
  by code_simp

lemmas auth_eval = sample_jwt_def sample_jc_def sample_verifier_def sample_member_row_def sample_members_def
  no_keys_def verify_token_def decode_token_def jwks_key_def cached_key_def jwks_refresh_def jwks_payload_def
  usable_jwk_def check_claims_def check_times_def numeric_claim_def float_overflow_def active_principal_def
  lookup_membership_def membership_rows_def view_membership_def audience_matches_def nonempty_text_def
  invalid_token_def MAX_TOKEN_LENGTH_def MAX_JWKS_BYTES_def OIDC_ALGORITHM_def membership_key_def
  jget_none_def action_defs guard_raise_def empty_world_def empty_db_def

definition sample_principal :: "string \<Rightarrow> principal" where
  "sample_principal sub = \<lparr>p_tenant = ''t'', p_actor = ''u'', p_issuer = ''i'', p_subject = sub, p_scopes = [''read'']\<rparr>"

lemma sample_scopes: "server_scopes (JArr [JStr ''read'']) = Inr [''read'']"
  by code_simp

lemma sample_token_verified:
  "sub \<in> {''s'', ''v''} \<Longrightarrow> verify_token sample_jwt sample_jc sample_verifier (w_db sample_members) 5 sub no_keys
     = (Inr (sample_principal sub), no_keys\<lparr>jk_keys := [(''k'', 7)], jk_expires := 300, jk_fetches := 1, jk_readings := 1\<rparr>)"
  by (auto simp: auth_eval sample_principal_def sample_loads sample_scopes Let_def)

theorem verified_principal_witness:
  "\<exists>header kid key claims r m n. unverified_header sample_jwt ''s'' = Some header
     \<and> jget header ''alg'' = Some (JStr OIDC_ALGORITHM) \<and> jget header ''kid'' = Some (JStr kid)
     \<and> n < (1 :: nat) \<and> jwks_payload sample_jwt (jc_fetch sample_jc n) = Inr [(''k'', 7)]
     \<and> map_of [(''k'', 7)] kid = Some key \<and> jwt_decode sample_jwt ''s'' key = Some claims
     \<and> jget claims ''iss'' = Some (JStr (vr_issuer sample_verifier))
     \<and> audience_matches (vr_audience sample_verifier) (jget claims ''aud'')
     \<and> jget claims ''sub'' = Some (JStr ''s'') \<and> times_ok (vr_skew sample_verifier) 5 claims
     \<and> member_row (w_db sample_members) (''i'', ''s'') = Some r \<and> mb_status r = ''active''
     \<and> view_membership r = Inr m
     \<and> p_tenant (sample_principal ''s'') = mb_tenant r \<and> p_actor (sample_principal ''s'') = mb_actor r
     \<and> p_issuer (sample_principal ''s'') = ''i'' \<and> p_scopes (sample_principal ''s'') = m_scopes m"
proof -
  have k: "jwks_ok sample_jwt sample_jc no_keys" by (simp add: jwks_ok_def no_keys_def)
  have i: "vr_issuer sample_verifier = ''i''" by (simp add: sample_verifier_def)
  have p: "p_subject (sample_principal ''s'') = ''s''" by (simp add: sample_principal_def)
  show ?thesis using verified_principal[OF k sample_token_verified[of "''s''"]] unfolding i p by (simp add: no_keys_def)
qed

definition sample_commands :: "membership_command list" where
  "sample_commands = [OpenStore, SetStatus (JStr ''i'') (JStr ''s'') (JStr ''disabled''),
     AddMember (JStr ''i'') (JStr ''n'') (JStr ''t2'') (JStr ''u2'') (JStr ''active'') (JArr [])]"

lemmas membership_eval = set_membership_status_def add_membership_def update_membership_def
  insert_membership_row_def init_memberships_def clock_text_def required_text_def member_status_def
  MEMBERSHIP_STATUSES_def transact_def query_or_raise_def execute_def

lemma sample_strips: "strip ''i'' = ''i''" "strip ''s'' = ''s''" "strip ''n'' = ''n''" "strip ''t2'' = ''t2''" "strip ''u2'' = ''u2''"
  by code_simp+

lemma sample_no_scopes: "server_scopes (JArr []) = Inr []" "scopes_json [] = ''[]''"
  by code_simp+

definition sample_disabled :: world where
  "sample_disabled = sample_members\<lparr>w_now := 1, w_db := empty_db\<lparr>t_memberships := Some
     [(sample_member_row ''s'')\<lparr>mb_status := ''disabled''\<rparr>, sample_member_row ''v'']\<rparr>\<rparr>"

lemma sample_disable:
  "set_membership_status (\<lambda>n. ''0'') (JStr (vr_issuer sample_verifier)) (JStr ''s'') (JStr ''disabled'') sample_members
     = (Inr \<lparr>m_issuer = ''i'', m_subject = ''s'', m_tenant = ''t'', m_actor = ''u'', m_status = ''disabled'',
          m_scopes = [''read'']\<rparr>, sample_disabled)"
  by (simp add: membership_eval sample_disabled_def auth_eval sample_loads sample_scopes sample_strips)

lemma still_verified:
  "verify_token sample_jwt sample_jc sample_verifier (w_db sample_disabled) 5 ''v'' no_keys
     = (Inr (sample_principal ''v''), no_keys\<lparr>jk_keys := [(''k'', 7)], jk_expires := 300, jk_fetches := 1, jk_readings := 1\<rparr>)"
  by (simp add: auth_eval sample_disabled_def sample_principal_def sample_loads sample_scopes Let_def)

theorem disabled_member_denied_witness: "p_subject (sample_principal ''v'') \<noteq> ''s''"
  by (rule disabled_member_denied[OF sample_disable _ still_verified]) simp

lemma sample_run:
  "w_db (fold (membership_step (\<lambda>n. ''0'')) sample_commands sample_members) = empty_db\<lparr>t_memberships := Some
     [(sample_member_row ''s'')\<lparr>mb_status := ''disabled''\<rparr>, sample_member_row ''v'', \<lparr>mb_issuer = ''i'', mb_subject = ''n'',
       mb_tenant = ''t2'', mb_actor = ''u2'', mb_status = ''active'', mb_scopes = ''[]'', mb_created = ''0'',
       mb_updated = ''0''\<rparr>]\<rparr>"
  by (simp add: sample_commands_def membership_eval auth_eval sample_loads sample_scopes sample_strips sample_no_scopes image_iff)

lemma verified_after_run:
  "verify_token sample_jwt sample_jc sample_verifier
      (w_db (fold (membership_step (\<lambda>n. ''0'')) sample_commands sample_members)) 5 ''v'' no_keys
     = (Inr (sample_principal ''v''), no_keys\<lparr>jk_keys := [(''k'', 7)], jk_expires := 300, jk_fetches := 1, jk_readings := 1\<rparr>)"
  unfolding sample_run
  by (simp add: auth_eval sample_principal_def sample_loads sample_scopes Let_def)

theorem identity_never_moves_witness:
  "p_tenant (sample_principal ''v'') = p_tenant (sample_principal ''v'')
     \<and> p_actor (sample_principal ''v'') = p_actor (sample_principal ''v'')"
  by (rule identity_never_moves[OF sample_token_verified verified_after_run]) simp_all

end
