(* ===== verification/Sessions.thy ===== *)
theory Sessions
  imports Auth Base64
begin

text \<open>
  \<open>sessions.py\<close>: opaque browser sessions and the one-time transactions of the browser sign-in, kept
  in two SQLite tables. Only the SHA-256 of a session id or state is stored. The membership table is
  read through \<open>MembershipStore.lookup\<close>; it is an argument of the operations here. The n-th random
  token and the n-th clock reading are parameters. The second half shows that the session table, whose
  rows are only ever marked revoked, implements a finite map of the live sessions.
\<close>

section \<open>State\<close>

definition SESSION_ID_BYTES :: nat where "SESSION_ID_BYTES = 32"
definition AUTH_TRANSACTION_TTL_SECONDS :: rat where "AUTH_TRANSACTION_TTL_SECONDS = 10 * 60"

record session_row =
  sr_hash :: string
  sr_issuer :: string
  sr_subject :: string
  sr_tenant :: string
  sr_actor :: string
  sr_scopes :: string
  sr_created :: rat
  sr_seen :: rat
  sr_expires :: rat
  sr_revoked :: "rat option"

record auth_row =
  ar_hash :: string
  ar_nonce :: string
  ar_verifier :: string
  ar_challenge :: string
  ar_return_to :: string
  ar_redirect :: string
  ar_created :: rat
  ar_expires :: rat

record session_store =
  ss_rows :: "session_row list"
  ss_auth :: "auth_row list"
  ss_draws :: nat
  ss_reads :: nat

record session_conf =
  sc_absolute :: rat
  sc_idle :: rat
  sc_token :: "nat \<Rightarrow> string"
  sc_clock :: "nat \<Rightarrow> rat"

record session_record =
  sn_id :: string
  sn_principal :: principal
  sn_created :: rat
  sn_seen :: rat
  sn_expires :: rat

record auth_transaction =
  at_state :: string
  at_nonce :: string
  at_verifier :: string
  at_challenge :: string
  at_return_to :: string
  at_redirect :: string

definition session_store_init :: "rat \<Rightarrow> rat \<Rightarrow> py_exn + session_store" where
  "session_store_init absolute idle_ttl =
     (if absolute \<le> 0 \<or> idle_ttl \<le> 0 then Inl (ValueError ''session TTLs must be positive'')
      else Inr \<lparr>ss_rows = [], ss_auth = [], ss_draws = 0, ss_reads = 0\<rparr>)"

section \<open>Digests\<close>

definition session_hash :: "env \<Rightarrow> string \<Rightarrow> string" where
  "session_hash E session_id = sha256_hex E (utf8 session_id)"

definition hex_nibble :: "char \<Rightarrow> nat" where
  "hex_nibble c = (if is_digit_ascii c then ord_of c - 48 else ord_of c - 87)"

text \<open>\<open>digest()\<close>, the bytes \<open>hexdigest()\<close> spells.\<close>

fun unhex :: "string \<Rightarrow> bytes" where
  "unhex (a # b # s) = of_nat (16 * hex_nibble a + hex_nibble b) # unhex s"
| "unhex _ = []"

definition pkce_challenge :: "env \<Rightarrow> string \<Rightarrow> string" where
  "pkce_challenge E code_verifier = b64url (unhex (sha256_hex E (utf8 code_verifier)))"

section \<open>Sessions\<close>

definition session_token :: "session_conf \<Rightarrow> (session_store, string) action" where
  "session_token S = (\<lambda>s. (Inr (sc_token S (ss_draws s)), s\<lparr>ss_draws := Suc (ss_draws s)\<rparr>))"

definition session_clock :: "session_conf \<Rightarrow> (session_store, rat) action" where
  "session_clock S = (\<lambda>s. (Inr (sc_clock S (ss_reads s)), s\<lparr>ss_reads := Suc (ss_reads s)\<rparr>))"

definition active_membership :: "database \<Rightarrow> string \<Rightarrow> string \<Rightarrow> py_exn + membership" where
  "active_membership db issuer subject =
     ebind (lookup_membership db issuer subject) (\<lambda>m.
     case m of
       None \<Rightarrow> Inl (AuthenticationError ''principal is not active'')
     | Some m \<Rightarrow> if m_status m \<noteq> ''active'' then Inl (AuthenticationError ''principal is not active'') else Inr m)"

definition insert_session_row :: "session_row \<Rightarrow> (session_store, unit) action" where
  "insert_session_row r = (\<lambda>s.
     if list_ex (\<lambda>x. sr_hash x = sr_hash r) (ss_rows s) then (Inl IntegrityError, s)
     else (Inr (), s\<lparr>ss_rows := ss_rows s @ [r]\<rparr>))"

definition create_session :: "env \<Rightarrow> session_conf \<Rightarrow> database \<Rightarrow> principal \<Rightarrow> (session_store, string) action" where
  "create_session E S db p =
     mbind (mlift (active_membership db (p_issuer p) (p_subject p))) (\<lambda>m.
     mbind (session_token S) (\<lambda>session_id.
     mbind (session_clock S) (\<lambda>now.
     mbind (insert_session_row \<lparr>sr_hash = session_hash E session_id, sr_issuer = p_issuer p,
         sr_subject = p_subject p, sr_tenant = m_tenant m, sr_actor = m_actor m,
         sr_scopes = scopes_json (m_scopes m), sr_created = now, sr_seen = now,
         sr_expires = now + sc_absolute S, sr_revoked = None\<rparr>) (\<lambda>_.
     mret session_id))))"

definition create_for_identity ::
    "env \<Rightarrow> session_conf \<Rightarrow> database \<Rightarrow> string \<Rightarrow> string \<Rightarrow> (session_store, string) action" where
  "create_for_identity E S db issuer subject =
     mbind (mlift (active_membership db issuer subject)) (\<lambda>m.
     create_session E S db \<lparr>p_tenant = m_tenant m, p_actor = m_actor m, p_issuer = issuer,
       p_subject = subject, p_scopes = m_scopes m\<rparr>)"

definition usable_token :: "string \<Rightarrow> bool" where
  "usable_token t \<longleftrightarrow> t \<noteq> [] \<and> length t \<le> 256"

definition session_dead :: "session_conf \<Rightarrow> rat \<Rightarrow> session_row \<Rightarrow> bool" where
  "session_dead S now r \<longleftrightarrow> sr_revoked r \<noteq> None \<or> sr_expires r \<le> now \<or> sr_seen r + sc_idle S \<le> now"

text \<open>The membership the stored row must still agree with.\<close>

definition session_member :: "database \<Rightarrow> session_row \<Rightarrow> py_exn + membership option" where
  "session_member db r =
     (case lookup_membership db (sr_issuer r) (sr_subject r) of
        Inl (MembershipError _) \<Rightarrow> Inr None
      | Inl e \<Rightarrow> Inl e
      | Inr None \<Rightarrow> Inr None
      | Inr (Some m) \<Rightarrow>
          Inr (if m_status m = ''active'' \<and> m_tenant m = sr_tenant r \<and> m_actor m = sr_actor r
                 \<and> scopes_json (m_scopes m) = sr_scopes r then Some m else None))"

definition update_session :: "string \<Rightarrow> (session_row \<Rightarrow> session_row) \<Rightarrow> (session_store, unit) action" where
  "update_session h f = (\<lambda>s. (Inr (), s\<lparr>ss_rows := map (\<lambda>r. if sr_hash r = h then f r else r) (ss_rows s)\<rparr>))"

definition find_session :: "string \<Rightarrow> session_store \<Rightarrow> session_row option" where
  "find_session h s = List.find (\<lambda>r. sr_hash r = h) (ss_rows s)"

definition row_principal :: "session_row \<Rightarrow> membership \<Rightarrow> principal" where
  "row_principal r m = \<lparr>p_tenant = sr_tenant r, p_actor = sr_actor r, p_issuer = sr_issuer r,
     p_subject = sr_subject r, p_scopes = m_scopes m\<rparr>"

definition resolve_session ::
    "env \<Rightarrow> session_conf \<Rightarrow> database \<Rightarrow> string \<Rightarrow> (session_store, session_record option) action" where
  "resolve_session E S db session_id =
     (if \<not> usable_token session_id then mret None else
      mbind (session_clock S) (\<lambda>now.
      mbind (mget (find_session (session_hash E session_id))) (\<lambda>row.
      case row of
        None \<Rightarrow> mret None
      | Some r \<Rightarrow>
          if session_dead S now r then mret None
          else mbind (mlift (session_member db r)) (\<lambda>m.
            case m of
              None \<Rightarrow> mbind (update_session (sr_hash r) (\<lambda>x. x\<lparr>sr_revoked := Some now\<rparr>)) (\<lambda>_. mret None)
            | Some m \<Rightarrow> mbind (update_session (sr_hash r) (\<lambda>x. x\<lparr>sr_seen := now\<rparr>)) (\<lambda>_.
                mret (Some \<lparr>sn_id = session_id, sn_principal = row_principal r m,
                  sn_created = sr_created r, sn_seen = now, sn_expires = sr_expires r\<rparr>))))))"

definition revoke_session :: "env \<Rightarrow> session_conf \<Rightarrow> string \<Rightarrow> (session_store, bool) action" where
  "revoke_session E S session_id =
     (if \<not> usable_token session_id then mret False else
      mbind (session_clock S) (\<lambda>now.
      mbind (mget (\<lambda>s. filter (\<lambda>r. sr_hash r = session_hash E session_id \<and> sr_revoked r = None) (ss_rows s))) (\<lambda>hits.
      mbind (update_session (session_hash E session_id)
        (\<lambda>r. if sr_revoked r = None then r\<lparr>sr_revoked := Some now\<rparr> else r)) (\<lambda>_.
      mret (length hits = 1)))))"

definition lookup_session :: "env \<Rightarrow> session_conf \<Rightarrow> database \<Rightarrow> string \<Rightarrow> (session_store, principal option) action" where
  "lookup_session E S db session_id =
     mbind (resolve_session E S db session_id) (\<lambda>rec. mret (map_option sn_principal rec))"

section \<open>Sign-in transactions\<close>

definition insert_auth_row :: "auth_row \<Rightarrow> (session_store, unit) action" where
  "insert_auth_row r = (\<lambda>s.
     if list_ex (\<lambda>x. ar_hash x = ar_hash r) (ss_auth s) then (Inl IntegrityError, s)
     else (Inr (), s\<lparr>ss_auth := ss_auth s @ [r]\<rparr>))"

definition delete_auth :: "(auth_row \<Rightarrow> bool) \<Rightarrow> (session_store, unit) action" where
  "delete_auth P = (\<lambda>s. (Inr (), s\<lparr>ss_auth := filter (\<lambda>r. \<not> P r) (ss_auth s)\<rparr>))"

text \<open>The block around the DELETE and the INSERT: an exception undoes both.\<close>

definition auth_block :: "(session_store, 'a) action \<Rightarrow> (session_store, 'a) action" where
  "auth_block m = (\<lambda>s. case m s of
     (Inl e, s') \<Rightarrow> (Inl e, s'\<lparr>ss_rows := ss_rows s, ss_auth := ss_auth s\<rparr>)
   | (Inr x, s') \<Rightarrow> (Inr x, s'))"

definition begin_auth ::
    "env \<Rightarrow> session_conf \<Rightarrow> string \<Rightarrow> string \<Rightarrow> rat \<Rightarrow> (session_store, auth_transaction) action" where
  "begin_auth E S return_to redirect_uri ttl =
     mbind (mguard (ttl \<le> 0) (ValueError ''auth transaction TTL must be positive'')) (\<lambda>_.
     mbind (session_token S) (\<lambda>state.
     mbind (session_token S) (\<lambda>nonce.
     mbind (session_token S) (\<lambda>code_verifier.
     mbind (session_clock S) (\<lambda>now.
     mbind (auth_block (
       mbind (delete_auth (\<lambda>r. ar_expires r \<le> now)) (\<lambda>_.
       insert_auth_row \<lparr>ar_hash = session_hash E state, ar_nonce = nonce, ar_verifier = code_verifier,
         ar_challenge = pkce_challenge E code_verifier, ar_return_to = return_to, ar_redirect = redirect_uri,
         ar_created = now, ar_expires = now + ttl\<rparr>))) (\<lambda>_.
     mret \<lparr>at_state = state, at_nonce = nonce, at_verifier = code_verifier,
       at_challenge = pkce_challenge E code_verifier, at_return_to = return_to, at_redirect = redirect_uri\<rparr>))))))"

definition consume_auth :: "env \<Rightarrow> session_conf \<Rightarrow> string \<Rightarrow> (session_store, auth_transaction option) action" where
  "consume_auth E S state =
     (if \<not> usable_token state then mret None else
      mbind (session_clock S) (\<lambda>now.
      mbind (mget (\<lambda>s. List.find (\<lambda>r. ar_hash r = session_hash E state \<and> ar_expires r > now) (ss_auth s))) (\<lambda>row.
      case row of
        None \<Rightarrow> mret None
      | Some r \<Rightarrow>
          mbind (mget (\<lambda>s. length (filter (\<lambda>x. ar_hash x = ar_hash r) (ss_auth s)))) (\<lambda>hits.
          mbind (delete_auth (\<lambda>x. ar_hash x = ar_hash r)) (\<lambda>_.
          if hits \<noteq> 1 then mret None
          else mret (Some \<lparr>at_state = state, at_nonce = ar_nonce r, at_verifier = ar_verifier r,
            at_challenge = ar_challenge r, at_return_to = ar_return_to r, at_redirect = ar_redirect r\<rparr>))))))"

definition discard_auth :: "env \<Rightarrow> string \<Rightarrow> (session_store, unit) action" where
  "discard_auth E state =
     (if state = [] then mret () else delete_auth (\<lambda>r. ar_hash r = session_hash E state))"

section \<open>The commands a server issues\<close>

datatype session_command =
    CreateSession database principal
  | CreateForIdentity database string string
  | ResolveSession database string
  | RevokeSession string
  | BeginAuth string string rat
  | ConsumeAuth string
  | DiscardAuth string

datatype session_reply =
    NewSession string
  | SessionFound "principal option"
  | SessionRevoked bool
  | AuthReply "auth_transaction option"

fun session_run :: "env \<Rightarrow> session_conf \<Rightarrow> session_command \<Rightarrow> (session_store, session_reply) action" where
  "session_run E S (CreateSession db p) = mbind (create_session E S db p) (\<lambda>t. mret (NewSession t))"
| "session_run E S (CreateForIdentity db i u) = mbind (create_for_identity E S db i u) (\<lambda>t. mret (NewSession t))"
| "session_run E S (ResolveSession db t) = mbind (lookup_session E S db t) (\<lambda>p. mret (SessionFound p))"
| "session_run E S (RevokeSession t) = mbind (revoke_session E S t) (\<lambda>b. mret (SessionRevoked b))"
| "session_run E S (BeginAuth r u ttl) = mbind (begin_auth E S r u ttl) (\<lambda>t. mret (AuthReply (Some t)))"
| "session_run E S (ConsumeAuth t) = mbind (consume_auth E S t) (\<lambda>a. mret (AuthReply a))"
| "session_run E S (DiscardAuth t) = mbind (discard_auth E t) (\<lambda>_. mret (AuthReply None))"

definition session_step :: "env \<Rightarrow> session_conf \<Rightarrow> session_command \<Rightarrow> session_store \<Rightarrow> session_store" where
  "session_step E S c s = snd (session_run E S c s)"

text \<open>What one command can do to the two tables.\<close>

inductive session_effect :: "env \<Rightarrow> session_conf \<Rightarrow> session_store \<Rightarrow> session_store \<Rightarrow> bool" for E S where
  effect_none: "session_effect E S s s"
| effect_clock: "session_effect E S s (s\<lparr>ss_reads := n\<rparr>)"
| effect_draw: "ss_draws s \<le> n \<Longrightarrow> session_effect E S s (s\<lparr>ss_draws := n\<rparr>)"
| effect_open: "\<not> list_ex (\<lambda>x. sr_hash x = sr_hash r) (ss_rows s) \<Longrightarrow> sr_revoked r = None \<Longrightarrow>
    session_effect E S s (s\<lparr>ss_rows := ss_rows s @ [r]\<rparr>)"
| effect_seen: "session_effect E S s (s\<lparr>ss_rows := map (\<lambda>r. if sr_hash r = h then r\<lparr>sr_seen := t\<rparr> else r) (ss_rows s)\<rparr>)"
| effect_revoked: "session_effect E S s (s\<lparr>ss_rows :=
    map (\<lambda>r. if sr_hash r = h then r\<lparr>sr_revoked := Some t\<rparr> else r) (ss_rows s)\<rparr>)"
| effect_logout: "session_effect E S s (s\<lparr>ss_rows := map (\<lambda>r. if sr_hash r = h then
    (if sr_revoked r = None then r\<lparr>sr_revoked := Some t\<rparr> else r) else r) (ss_rows s)\<rparr>)"
| effect_forget: "session_effect E S s (s\<lparr>ss_auth := filter P (ss_auth s)\<rparr>)"
| effect_begin: "\<not> list_ex (\<lambda>x. ar_hash x = ar_hash r) (filter P (ss_auth s)) \<Longrightarrow>
    ar_hash r = session_hash E (sc_token S (ss_draws s)) \<Longrightarrow> ss_draws s < n \<Longrightarrow>
    session_effect E S s (s\<lparr>ss_draws := n, ss_reads := k, ss_auth := filter P (ss_auth s) @ [r]\<rparr>)"

abbreviation session_effects :: "env \<Rightarrow> session_conf \<Rightarrow> session_store \<Rightarrow> session_store \<Rightarrow> bool" where
  "session_effects E S \<equiv> (session_effect E S)\<^sup>*\<^sup>*"

interpretation effects: action_relation "session_effects E S" for E S
  by unfold_locales auto

lemma effects_one: "(\<And>s r s'. m s = (r, s') \<Longrightarrow> session_effect E S s s') \<Longrightarrow> steps_by (session_effects E S) m"
  by (rule steps_byI) (auto intro: r_into_rtranclp)

lemma effects_token: "steps_by (session_effects E S) (session_token S)"
  by (rule effects_one) (auto simp: session_token_def intro: session_effect.intros)

lemma effects_clock: "steps_by (session_effects E S) (session_clock S)"
  by (rule effects_one) (auto simp: session_clock_def intro: session_effect.intros)

lemma effects_insert: "sr_revoked r = None \<Longrightarrow> steps_by (session_effects E S) (insert_session_row r)"
  by (rule effects_one) (auto simp: insert_session_row_def intro: session_effect.intros split: if_splits)

lemma effects_seen: "steps_by (session_effects E S) (update_session h (\<lambda>r. r\<lparr>sr_seen := t\<rparr>))"
  by (rule effects_one) (auto simp: update_session_def intro: session_effect.intros)

lemma effects_revoked: "steps_by (session_effects E S) (update_session h (\<lambda>r. r\<lparr>sr_revoked := Some t\<rparr>))"
  by (rule effects_one) (auto simp: update_session_def intro: session_effect.intros)

lemma effects_logout:
  "steps_by (session_effects E S) (update_session h (\<lambda>r. if sr_revoked r = None then r\<lparr>sr_revoked := Some t\<rparr> else r))"
  by (rule effects_one) (auto simp: update_session_def intro: session_effect.intros)

lemma effects_delete: "steps_by (session_effects E S) (delete_auth P)"
  by (rule effects_one) (auto simp: delete_auth_def intro: session_effect.intros)

lemmas effects_intros = effects.steps_intros effects_token effects_clock effects_insert effects_seen
  effects_revoked effects_logout effects_delete

lemma create_effects: "steps_by (session_effects E S) (create_session E S db p)"
  unfolding create_session_def by (intro effects_intros) simp

lemma create_for_identity_effects: "steps_by (session_effects E S) (create_for_identity E S db i u)"
  unfolding create_for_identity_def by (intro effects_intros create_effects)

lemma resolve_effects: "steps_by (session_effects E S) (resolve_session E S db t)"
  unfolding resolve_session_def by (intro effects_intros)

lemma revoke_effects: "steps_by (session_effects E S) (revoke_session E S t)"
  unfolding revoke_session_def by (intro effects_intros)

lemma consume_effects: "steps_by (session_effects E S) (consume_auth E S t)"
  unfolding consume_auth_def by (intro effects_intros)

lemma discard_effects: "steps_by (session_effects E S) (discard_auth E t)"
  unfolding discard_auth_def by (intro effects_intros)

lemma begin_effects: "steps_by (session_effects E S) (begin_auth E S r u ttl)"
proof (rule steps_byI)
  fix s x s'
  assume run: "begin_auth E S r u ttl s = (x, s')"
  show "session_effects E S s s'"
  proof (cases "ttl \<le> 0")
    case True
    then show ?thesis using run by (simp add: begin_auth_def mguard_def mbind_def mraise_def)
  next
    case False
    let ?now = "sc_clock S (ss_reads s)"
    let ?P = "\<lambda>r. \<not> ar_expires r \<le> ?now"
    let ?r = "\<lparr>ar_hash = session_hash E (sc_token S (ss_draws s)), ar_nonce = sc_token S (Suc (ss_draws s)),
      ar_verifier = sc_token S (Suc (Suc (ss_draws s))),
      ar_challenge = pkce_challenge E (sc_token S (Suc (Suc (ss_draws s)))), ar_return_to = r, ar_redirect = u,
      ar_created = ?now, ar_expires = ?now + ttl\<rparr>"
    let ?v = "s\<lparr>ss_draws := Suc (Suc (Suc (ss_draws s)))\<rparr>"
    let ?u = "?v\<lparr>ss_reads := Suc (ss_reads s)\<rparr>"
    have "session_effects E S s ?v" by (rule r_into_rtranclp) (rule effect_draw, simp)
    also have "session_effects E S ?v ?u" by (rule r_into_rtranclp) (rule effect_clock)
    finally have u: "session_effects E S s ?u" .
    have "s' = (if list_ex (\<lambda>x. ar_hash x = ar_hash ?r) (filter ?P (ss_auth s)) then ?u
      else ?u\<lparr>ss_auth := filter ?P (ss_auth s) @ [?r]\<rparr>)"
      using run False
      by (auto simp: begin_auth_def auth_block_def delete_auth_def insert_auth_row_def session_token_def
          session_clock_def action_defs split: if_splits)
    moreover have "session_effects E S s (?u\<lparr>ss_auth := filter ?P (ss_auth s) @ [?r]\<rparr>)"
      if "\<not> list_ex (\<lambda>x. ar_hash x = ar_hash ?r) (filter ?P (ss_auth s))"
      using effect_begin[OF that, of E S "Suc (Suc (Suc (ss_draws s)))" "Suc (ss_reads s)"]
      by (auto intro!: r_into_rtranclp)
    ultimately show ?thesis using u by auto
  qed
qed

lemma session_step_effects: "session_effects E S s (session_step E S c s)"
proof -
  have "steps_by (session_effects E S) (session_run E S c)"
    by (cases c) (auto simp: lookup_session_def intro!: effects.steps_intros create_effects
        create_for_identity_effects resolve_effects revoke_effects consume_effects discard_effects begin_effects)
  then show ?thesis unfolding session_step_def steps_by_def by blast
qed

text \<open>What every effect keeps, every run of commands keeps.\<close>

locale session_invariant =
  fixes E :: env and S :: session_conf and inv :: "session_store \<Rightarrow> bool"
  assumes effect_inv: "session_effect E S s s' \<Longrightarrow> inv s \<Longrightarrow> inv s'"
begin

lemma effects_inv: "session_effects E S s s' \<Longrightarrow> inv s \<Longrightarrow> inv s'"
  by (induction rule: rtranclp_induct) (auto intro: effect_inv)

lemma step_inv: "inv s \<Longrightarrow> inv (session_step E S c s)"
  using effects_inv session_step_effects by blast

lemma run_inv: "inv s \<Longrightarrow> inv (fold (session_step E S) cs s)"
  by (induction cs arbitrary: s) (auto intro: step_inv)

end

definition sessions_ok :: "session_store \<Rightarrow> bool" where
  "sessions_ok s \<longleftrightarrow> distinct (map sr_hash (ss_rows s)) \<and> distinct (map ar_hash (ss_auth s))"

lemma map_hash_update:
  "(\<And>r. sr_hash (f r) = sr_hash r) \<Longrightarrow> map sr_hash (map (\<lambda>r. if sr_hash r = h then f r else r) rows) = map sr_hash rows"
  by (induction rows) auto

interpretation sessions_ok: session_invariant E S sessions_ok for E S
proof
  fix s s'
  assume "session_effect E S s s'" and "sessions_ok s"
  then show "sessions_ok s'"
    by (cases rule: session_effect.cases)
      (auto simp: sessions_ok_def list_ex_iff distinct_map_filter map_hash_update simp del: map_map)
qed

text \<open>\<open>row_ended h\<close>: the row of this hash exists and is revoked.\<close>

definition row_ended :: "string \<Rightarrow> session_store \<Rightarrow> bool" where
  "row_ended h s \<longleftrightarrow> (case find_session h s of None \<Rightarrow> False | Some r \<Rightarrow> sr_revoked r \<noteq> None)"

lemma find_session_update:
  "(\<And>r. sr_hash (f r) = sr_hash r) \<Longrightarrow>
    List.find (\<lambda>r. sr_hash r = k) (map (\<lambda>r. if sr_hash r = h then f r else r) rows)
    = map_option (\<lambda>r. if k = h then f r else r) (List.find (\<lambda>r. sr_hash r = k) rows)"
  by (induction rows) auto

lemma find_session_snoc:
  "List.find P (rows @ [r]) = (case List.find P rows of None \<Rightarrow> if P r then Some r else None | Some x \<Rightarrow> Some x)"
  by (auto simp: find_append split: option.splits)

interpretation row_ended: session_invariant E S "row_ended h" for E S h
proof
  fix s s'
  assume "session_effect E S s s'" and "row_ended h s"
  then show "row_ended h s'"
    by (cases rule: session_effect.cases)
      (auto simp: row_ended_def find_session_def find_session_update find_session_snoc split: option.splits)
qed

text \<open>\<open>auth_spent h\<close>: no transaction has this state hash, and no token yet to be drawn has it.\<close>

definition auth_spent :: "env \<Rightarrow> session_conf \<Rightarrow> string \<Rightarrow> session_store \<Rightarrow> bool" where
  "auth_spent E S h s \<longleftrightarrow> \<not> list_ex (\<lambda>r. ar_hash r = h) (ss_auth s)
     \<and> (\<forall>n \<ge> ss_draws s. session_hash E (sc_token S n) \<noteq> h)"

interpretation auth_spent: session_invariant E S "auth_spent E S h" for E S h
proof
  fix s s'
  assume "session_effect E S s s'" and "auth_spent E S h s"
  then show "auth_spent E S h s'"
    by (cases rule: session_effect.cases) (auto simp: auth_spent_def list_ex_iff)
qed

section \<open>The session table implements a map of live sessions\<close>

text \<open>
  What the component promises: a map of the live sessions by hash, and the hashes ever handed out. A
  session that ends leaves the map; its hash is never handed out again.
\<close>

record live_session =
  lv_issuer :: string
  lv_subject :: string
  lv_tenant :: string
  lv_actor :: string
  lv_scopes :: string
  lv_created :: rat
  lv_seen :: rat
  lv_expires :: rat

record session_spec =
  sp_live :: "string \<Rightarrow> live_session option"
  sp_used :: "string set"

definition live_of :: "session_row \<Rightarrow> live_session" where
  "live_of r = \<lparr>lv_issuer = sr_issuer r, lv_subject = sr_subject r, lv_tenant = sr_tenant r, lv_actor = sr_actor r,
     lv_scopes = sr_scopes r, lv_created = sr_created r, lv_seen = sr_seen r, lv_expires = sr_expires r\<rparr>"

definition abs_sessions :: "session_store \<Rightarrow> session_spec" where
  "abs_sessions s = \<lparr>sp_live = (\<lambda>h. case find_session h s of
       Some r \<Rightarrow> if sr_revoked r = None then Some (live_of r) else None | None \<Rightarrow> None),
     sp_used = set (map sr_hash (ss_rows s))\<rparr>"

definition spec_create ::
    "env \<Rightarrow> session_conf \<Rightarrow> database \<Rightarrow> string \<Rightarrow> string \<Rightarrow> string \<Rightarrow> rat \<Rightarrow> session_spec
      \<Rightarrow> (py_exn + string) \<times> session_spec" where
  "spec_create E S db issuer subject token now a =
     (case active_membership db issuer subject of
        Inl e \<Rightarrow> (Inl e, a)
      | Inr m \<Rightarrow>
          if session_hash E token \<in> sp_used a then (Inl IntegrityError, a)
          else (Inr token, \<lparr>sp_live = (sp_live a)(session_hash E token \<mapsto> \<lparr>lv_issuer = issuer, lv_subject = subject,
              lv_tenant = m_tenant m, lv_actor = m_actor m, lv_scopes = scopes_json (m_scopes m), lv_created = now,
              lv_seen = now, lv_expires = now + sc_absolute S\<rparr>),
            sp_used = insert (session_hash E token) (sp_used a)\<rparr>))"

text \<open>The principal of a live session whose membership is as it was when the session was opened.\<close>

definition current_member :: "database \<Rightarrow> live_session \<Rightarrow> py_exn + membership option" where
  "current_member db l =
     (case lookup_membership db (lv_issuer l) (lv_subject l) of
        Inl (MembershipError _) \<Rightarrow> Inr None
      | Inl e \<Rightarrow> Inl e
      | Inr None \<Rightarrow> Inr None
      | Inr (Some m) \<Rightarrow>
          Inr (if m_status m = ''active'' \<and> m_tenant m = lv_tenant l \<and> m_actor m = lv_actor l
                 \<and> scopes_json (m_scopes m) = lv_scopes l then Some m else None))"

definition spec_resolve ::
    "session_conf \<Rightarrow> database \<Rightarrow> string \<Rightarrow> rat \<Rightarrow> session_spec \<Rightarrow> (py_exn + principal option) \<times> session_spec" where
  "spec_resolve S db h now a =
     (case sp_live a h of
        None \<Rightarrow> (Inr None, a)
      | Some l \<Rightarrow>
          if lv_expires l \<le> now \<or> lv_seen l + sc_idle S \<le> now then (Inr None, a)
          else case current_member db l of
            Inl e \<Rightarrow> (Inl e, a)
          | Inr None \<Rightarrow> (Inr None, a\<lparr>sp_live := (sp_live a)(h := None)\<rparr>)
          | Inr (Some m) \<Rightarrow>
              (Inr (Some \<lparr>p_tenant = lv_tenant l, p_actor = lv_actor l, p_issuer = lv_issuer l,
                 p_subject = lv_subject l, p_scopes = m_scopes m\<rparr>),
               a\<lparr>sp_live := (sp_live a)(h \<mapsto> l\<lparr>lv_seen := now\<rparr>)\<rparr>))"

definition spec_revoke :: "string \<Rightarrow> session_spec \<Rightarrow> bool \<times> session_spec" where
  "spec_revoke h a = (sp_live a h \<noteq> None, a\<lparr>sp_live := (sp_live a)(h := None)\<rparr>)"

text \<open>The specification's step for a command, given the token and the clock reading it uses; the
  transactions of the sign-in do not touch the map.\<close>

fun spec_step ::
    "env \<Rightarrow> session_conf \<Rightarrow> session_command \<Rightarrow> string \<Rightarrow> rat \<Rightarrow> session_spec
      \<Rightarrow> (py_exn + session_reply) option \<times> session_spec" where
  "spec_step E S (CreateSession db p) token now a =
     (let (r, a') = spec_create E S db (p_issuer p) (p_subject p) token now a
      in (Some (ebind r (\<lambda>t. Inr (NewSession t))), a'))"
| "spec_step E S (CreateForIdentity db i u) token now a =
     (let (r, a') = spec_create E S db i u token now a in (Some (ebind r (\<lambda>t. Inr (NewSession t))), a'))"
| "spec_step E S (ResolveSession db t) token now a =
     (if \<not> usable_token t then (Some (Inr (SessionFound None)), a)
      else let (r, a') = spec_resolve S db (session_hash E t) now a
        in (Some (ebind r (\<lambda>p. Inr (SessionFound p))), a'))"
| "spec_step E S (RevokeSession t) token now a =
     (if \<not> usable_token t then (Some (Inr (SessionRevoked False)), a)
      else let (r, a') = spec_revoke (session_hash E t) a in (Some (Inr (SessionRevoked r)), a'))"
| "spec_step E S c token now a = (None, a)"

lemma abs_reads [simp]: "abs_sessions (s\<lparr>ss_reads := n\<rparr>) = abs_sessions s"
  "abs_sessions (s\<lparr>ss_draws := n\<rparr>) = abs_sessions s" "abs_sessions (s\<lparr>ss_auth := rs\<rparr>) = abs_sessions s"
  by (simp_all add: abs_sessions_def find_session_def)

lemma find_hash_None: "List.find (\<lambda>r. sr_hash r = h) rows = None \<longleftrightarrow> h \<notin> sr_hash ` set rows"
  by (induction rows) auto

lemma find_hash_Some: "List.find (\<lambda>r. sr_hash r = h) rows = Some r \<Longrightarrow> sr_hash r = h \<and> r \<in> set rows"
  by (induction rows) (auto split: if_splits)

lemma abs_open:
  assumes "sr_hash r \<notin> sr_hash ` set (ss_rows s)" and "sr_revoked r = None"
  shows "abs_sessions (s\<lparr>ss_rows := ss_rows s @ [r]\<rparr>) =
    \<lparr>sp_live = (sp_live (abs_sessions s))(sr_hash r \<mapsto> live_of r), sp_used = insert (sr_hash r) (sp_used (abs_sessions s))\<rparr>"
proof -
  have "(case List.find (\<lambda>x. sr_hash x = k) (ss_rows s @ [r]) of
        Some r \<Rightarrow> if sr_revoked r = None then Some (live_of r) else None | None \<Rightarrow> None)
      = (if k = sr_hash r then Some (live_of r) else case List.find (\<lambda>x. sr_hash x = k) (ss_rows s) of
          Some r \<Rightarrow> if sr_revoked r = None then Some (live_of r) else None | None \<Rightarrow> None)" for k
  proof (cases "k = sr_hash r")
    case True
    then have "List.find (\<lambda>x. sr_hash x = k) (ss_rows s) = None" using assms(1) by (simp add: find_hash_None)
    then show ?thesis using True assms(2) by (simp add: find_session_snoc)
  next
    case False
    then show ?thesis by (cases "List.find (\<lambda>x. sr_hash x = k) (ss_rows s)") (simp_all add: find_session_snoc)
  qed
  then show ?thesis by (auto simp: abs_sessions_def find_session_def fun_eq_iff)
qed

lemma abs_update:
  assumes f: "\<And>r. sr_hash (f r) = sr_hash r"
    and live: "\<And>r. find_session h s = Some r \<Longrightarrow>
      (if sr_revoked (f r) = None then Some (live_of (f r)) else None) = v"
    and none: "find_session h s = None \<Longrightarrow> v = None"
  shows "abs_sessions (s\<lparr>ss_rows := map (\<lambda>r. if sr_hash r = h then f r else r) (ss_rows s)\<rparr>) =
    (abs_sessions s)\<lparr>sp_live := (sp_live (abs_sessions s))(h := v)\<rparr>"
proof -
  have "(\<lambda>r. sr_hash (if sr_hash r = h then f r else r)) = sr_hash" using f by auto
  moreover have "(case List.find (\<lambda>r. sr_hash r = k) (map (\<lambda>r. if sr_hash r = h then f r else r) (ss_rows s)) of
        Some r \<Rightarrow> if sr_revoked r = None then Some (live_of r) else None | None \<Rightarrow> None)
      = (if k = h then v else case List.find (\<lambda>r. sr_hash r = k) (ss_rows s) of
          Some r \<Rightarrow> if sr_revoked r = None then Some (live_of r) else None | None \<Rightarrow> None)" for k
    using live none unfolding find_session_update[OF f] find_session_def
    by (cases "List.find (\<lambda>r. sr_hash r = k) (ss_rows s)") auto
  ultimately show ?thesis by (auto simp: abs_sessions_def find_session_def fun_eq_iff image_image)
qed

lemma insert_session_row_iff:
  "insert_session_row r s = (if sr_hash r \<in> sr_hash ` set (ss_rows s) then (Inl IntegrityError, s)
     else (Inr (), s\<lparr>ss_rows := ss_rows s @ [r]\<rparr>))"
  unfolding insert_session_row_def list_ex_iff image_iff by (simp add: eq_commute)

lemma create_refines:
  assumes "create_session E S db p s = (r, s')"
  shows "spec_create E S db (p_issuer p) (p_subject p) (sc_token S (ss_draws s)) (sc_clock S (ss_reads s))
    (abs_sessions s) = (r, abs_sessions s')"
proof (cases "active_membership db (p_issuer p) (p_subject p)")
  case (Inl e)
  then show ?thesis using assms by (simp add: create_session_def action_defs spec_create_def)
next
  case (Inr m)
  let ?t = "sc_token S (ss_draws s)" and ?now = "sc_clock S (ss_reads s)"
  let ?s = "s\<lparr>ss_draws := Suc (ss_draws s), ss_reads := Suc (ss_reads s)\<rparr>"
  let ?r = "\<lparr>sr_hash = session_hash E ?t, sr_issuer = p_issuer p,
         sr_subject = p_subject p, sr_tenant = m_tenant m, sr_actor = m_actor m,
         sr_scopes = scopes_json (m_scopes m), sr_created = ?now, sr_seen = ?now,
         sr_expires = ?now + sc_absolute S, sr_revoked = None\<rparr>"
  have run: "(r, s') = (if session_hash E ?t \<in> sr_hash ` set (ss_rows s) then (Inl IntegrityError, ?s)
      else (Inr ?t, ?s\<lparr>ss_rows := ss_rows ?s @ [?r]\<rparr>))"
    using assms Inr
    by (simp add: create_session_def action_defs session_token_def session_clock_def insert_session_row_iff
        split: if_splits)
  have abs: "abs_sessions ?s = abs_sessions s" by simp
  show ?thesis
  proof (cases "session_hash E ?t \<in> sr_hash ` set (ss_rows s)")
    case True
    then have "r = Inl IntegrityError" "s' = ?s" using run by auto
    moreover have "session_hash E ?t \<in> sp_used (abs_sessions s)" using True by (simp add: abs_sessions_def)
    ultimately show ?thesis using abs Inr by (simp add: spec_create_def)
  next
    case False
    then have eq: "r = Inr ?t" "s' = ?s\<lparr>ss_rows := ss_rows ?s @ [?r]\<rparr>" using run by auto
    have "session_hash E ?t \<notin> sp_used (abs_sessions s)" using False by (simp add: abs_sessions_def)
    moreover have "abs_sessions s' = \<lparr>sp_live = (sp_live (abs_sessions s))(session_hash E ?t \<mapsto> live_of ?r),
        sp_used = insert (session_hash E ?t) (sp_used (abs_sessions s))\<rparr>"
      unfolding eq(2) using abs_open[of ?r ?s] False abs by simp
    ultimately show ?thesis using Inr eq(1) by (simp add: spec_create_def live_of_def)
  qed
qed

lemma create_for_identity_refines:
  assumes "create_for_identity E S db i u s = (r, s')"
  shows "spec_create E S db i u (sc_token S (ss_draws s)) (sc_clock S (ss_reads s)) (abs_sessions s)
    = (r, abs_sessions s')"
proof (cases "active_membership db i u")
  case (Inl e)
  then show ?thesis using assms by (simp add: create_for_identity_def action_defs spec_create_def)
next
  case (Inr m)
  then have "create_session E S db \<lparr>p_tenant = m_tenant m, p_actor = m_actor m, p_issuer = i,
       p_subject = u, p_scopes = m_scopes m\<rparr> s = (r, s')"
    using assms by (simp add: create_for_identity_def mbind_def mlift_def)
  from create_refines[OF this] show ?thesis by simp
qed

lemma current_member_live: "current_member db (live_of r) = session_member db r"
  unfolding current_member_def session_member_def live_of_def live_session.select_convs ..

lemma resolve_refines:
  assumes "lookup_session E S db t s = (r, s')" and t: "usable_token t"
  shows "spec_resolve S db (session_hash E t) (sc_clock S (ss_reads s)) (abs_sessions s) = (r, abs_sessions s')"
proof -
  let ?h = "session_hash E t" and ?now = "sc_clock S (ss_reads s)" and ?s = "s\<lparr>ss_reads := Suc (ss_reads s)\<rparr>"
  have f: "find_session ?h ?s = find_session ?h s" by (simp add: find_session_def)
  show ?thesis
  proof (cases "find_session ?h s")
    case None
    then have "r = Inr None" "s' = ?s"
      using assms f by (auto simp: lookup_session_def resolve_session_def action_defs session_clock_def)
    then show ?thesis using None by (simp add: spec_resolve_def abs_sessions_def find_session_def)
  next
    case (Some x)
    then have h: "sr_hash x = ?h" using find_hash_Some unfolding find_session_def by blast
    consider (dead) "session_dead S ?now x" | (failed) e where "\<not> session_dead S ?now x" "session_member db x = Inl e"
      | (gone) "\<not> session_dead S ?now x" "session_member db x = Inr None"
      | (live) m where "\<not> session_dead S ?now x" "session_member db x = Inr (Some m)"
    proof (cases "session_member db x")
      case (Inl e)
      then show ?thesis using that(1,2) by blast
    next
      case (Inr v)
      then show ?thesis using that(1,3,4) by (cases v) blast+
    qed
    then show ?thesis
    proof cases
      case dead
      then have "r = Inr None" "s' = ?s"
        using assms Some f by (auto simp: lookup_session_def resolve_session_def action_defs session_clock_def)
      then show ?thesis using Some dead
        by (auto simp: spec_resolve_def abs_sessions_def find_session_def session_dead_def live_of_def)
    next
      case failed
      then have "r = Inl e" "s' = ?s"
        using assms Some f by (auto simp: lookup_session_def resolve_session_def action_defs session_clock_def)
      then show ?thesis using Some failed current_member_live[of db x]
        by (auto simp: spec_resolve_def abs_sessions_def find_session_def session_dead_def live_of_def)
    next
      case gone
      then have r: "r = Inr None" "s' = ?s\<lparr>ss_rows := map (\<lambda>r. if sr_hash r = ?h then r\<lparr>sr_revoked := Some ?now\<rparr> else r) (ss_rows ?s)\<rparr>"
        using assms Some f h
        by (auto simp: lookup_session_def resolve_session_def action_defs session_clock_def update_session_def)
      have "abs_sessions s' = (abs_sessions s)\<lparr>sp_live := (sp_live (abs_sessions s))(?h := None)\<rparr>"
        unfolding r(2) by (subst abs_update[where v = None]) (auto simp: find_session_def)
      then show ?thesis using Some gone r(1) current_member_live[of db x]
        by (auto simp: spec_resolve_def abs_sessions_def find_session_def session_dead_def live_of_def)
    next
      case live
      then have r: "r = Inr (Some (row_principal x m))"
          "s' = ?s\<lparr>ss_rows := map (\<lambda>r. if sr_hash r = ?h then r\<lparr>sr_seen := ?now\<rparr> else r) (ss_rows ?s)\<rparr>"
        using assms Some f h
        by (auto simp: lookup_session_def resolve_session_def action_defs session_clock_def update_session_def)
      have "abs_sessions s' = (abs_sessions s)\<lparr>sp_live := (sp_live (abs_sessions s))(?h \<mapsto> (live_of x)\<lparr>lv_seen := ?now\<rparr>)\<rparr>"
        unfolding r(2) using live(1) Some f
        by (subst abs_update[where v = "Some ((live_of x)\<lparr>lv_seen := ?now\<rparr>)"])
          (auto simp: session_dead_def live_of_def)
      moreover have "sp_live (abs_sessions s) ?h = Some (live_of x)"
        using Some live(1) by (simp add: abs_sessions_def session_dead_def)
      moreover have "\<not> (lv_expires (live_of x) \<le> ?now \<or> lv_seen (live_of x) + sc_idle S \<le> ?now)"
        using live(1) by (simp add: session_dead_def live_of_def)
      ultimately show ?thesis using r(1) live(2) current_member_live[of db x]
        by (simp add: spec_resolve_def row_principal_def live_of_def)
    qed
  qed
qed

lemma hits_iff_live:
  assumes "distinct (map sr_hash rows)"
  shows "length (filter (\<lambda>r. sr_hash r = h \<and> sr_revoked r = None) rows) = 1 \<longleftrightarrow>
    (case List.find (\<lambda>r. sr_hash r = h) rows of Some r \<Rightarrow> sr_revoked r = None | None \<Rightarrow> False)"
  using assms
proof (induction rows)
  case (Cons x rows)
  have "filter (\<lambda>r. sr_hash r = h \<and> sr_revoked r = None) rows = []" if "sr_hash x = h"
  proof -
    have "\<forall>r \<in> set rows. sr_hash r \<noteq> h" using Cons.prems that by (metis distinct.simps(2) list.simps(9) image_eqI list.set_map)
    then show ?thesis by (simp add: filter_empty_conv)
  qed
  then show ?case using Cons by auto
qed simp

lemma revoke_refines:
  assumes "revoke_session E S t s = (r, s')" and "usable_token t" and ok: "sessions_ok s"
  shows "\<exists>b. r = Inr b \<and> spec_revoke (session_hash E t) (abs_sessions s) = (b, abs_sessions s')"
proof -
  let ?h = "session_hash E t" and ?now = "sc_clock S (ss_reads s)" and ?s = "s\<lparr>ss_reads := Suc (ss_reads s)\<rparr>"
  have r: "r = Inr (length (filter (\<lambda>r. sr_hash r = ?h \<and> sr_revoked r = None) (ss_rows s)) = 1)"
      "s' = ?s\<lparr>ss_rows := map (\<lambda>r. if sr_hash r = ?h then
         (if sr_revoked r = None then r\<lparr>sr_revoked := Some ?now\<rparr> else r) else r) (ss_rows ?s)\<rparr>"
    using assms by (auto simp: revoke_session_def action_defs session_clock_def update_session_def)
  have "abs_sessions s' = (abs_sessions s)\<lparr>sp_live := (sp_live (abs_sessions s))(?h := None)\<rparr>"
    unfolding r(2) by (subst abs_update[where v = None]) (auto simp: find_session_def)
  moreover have "(sp_live (abs_sessions s) ?h \<noteq> None) =
      (length (filter (\<lambda>r. sr_hash r = ?h \<and> sr_revoked r = None) (ss_rows s)) = 1)"
    using ok unfolding hits_iff_live[of "ss_rows s" ?h]
    by (subst hits_iff_live) (auto simp: sessions_ok_def abs_sessions_def find_session_def split: option.splits)
  ultimately show ?thesis using r(1) by (simp add: spec_revoke_def)
qed

lemma init_ok: "session_store_init absolute idle_ttl = Inr s \<Longrightarrow> sessions_ok s"
  by (auto simp: session_store_init_def sessions_ok_def split: if_splits)

text \<open>The transactions leave the session rows alone.\<close>

definition same_sessions :: "session_store \<Rightarrow> session_store \<Rightarrow> bool" where
  "same_sessions s s' \<longleftrightarrow> ss_rows s' = ss_rows s"

interpretation same: action_relation same_sessions
  by unfold_locales (simp_all add: same_sessions_def)

lemma same_leaves: "steps_by same_sessions (session_token S)" "steps_by same_sessions (session_clock S)"
  "steps_by same_sessions (delete_auth P)" "steps_by same_sessions (insert_auth_row r)"
  by (auto simp: steps_by_def same_sessions_def session_token_def session_clock_def delete_auth_def
      insert_auth_row_def)

lemma same_block: "steps_by same_sessions m \<Longrightarrow> steps_by same_sessions (auth_block m)"
  unfolding steps_by_def same_sessions_def auth_block_def
  by (auto split: prod.splits sum.splits) (metis snd_conv)

lemma same_auth: "steps_by same_sessions (begin_auth E S r u ttl)" "steps_by same_sessions (consume_auth E S t)"
  "steps_by same_sessions (discard_auth E t)"
  unfolding begin_auth_def consume_auth_def discard_auth_def
  by (intro same.steps_intros same_leaves same_block)+

lemma same_abs: "same_sessions s s' \<Longrightarrow> abs_sessions s' = abs_sessions s"
  by (simp add: same_sessions_def abs_sessions_def find_session_def)

lemma auth_commands_keep_abs:
  "c \<in> {BeginAuth r u ttl, ConsumeAuth t, DiscardAuth t} \<Longrightarrow> abs_sessions (session_step E S c s) = abs_sessions s"
proof -
  assume "c \<in> {BeginAuth r u ttl, ConsumeAuth t, DiscardAuth t}"
  then have "steps_by same_sessions (session_run E S c)"
    by (auto intro!: same.steps_intros same_auth)
  then show ?thesis unfolding session_step_def by (intro same_abs) (simp add: steps_by_def)
qed

lemma ended_never_resolves:
  assumes "row_ended (session_hash E t) s"
  shows "fst (resolve_session E S db t s) = Inr None"
proof -
  obtain r where "find_session (session_hash E t) s = Some r" "sr_revoked r \<noteq> None"
    using assms by (auto simp: row_ended_def split: option.splits)
  then show ?thesis
    by (simp add: resolve_session_def action_defs session_clock_def find_session_def session_dead_def)
qed

section \<open>Properties\<close>

text \<open>C17: the session table with its revocation marks implements a map of the live sessions. In every state
  that any commands reach from an empty store, a command's reply and its effect on the live sessions are
  those of the specification: opening adds the session unless its hash was ever used, resolving touches
  or, when the membership changed, ends it, revoking ends it and tells whether it was live, and the
  sign-in transactions change no session.\<close>

theorem sessions_refine_map:
  assumes "session_store_init absolute idle_ttl = Inr s0" and "s = fold (session_step E S) cs s0"
    and "spec_step E S c (sc_token S (ss_draws s)) (sc_clock S (ss_reads s)) (abs_sessions s) = (reply, a)"
  shows "abs_sessions (session_step E S c s) = a \<and> (\<forall>r. reply = Some r \<longrightarrow> fst (session_run E S c s) = r)"
proof -
  have ok: "sessions_ok s" unfolding assms(2) by (rule sessions_ok.run_inv) (rule init_ok[OF assms(1)])
  obtain r s' where run: "session_run E S c s = (r, s')" by (cases "session_run E S c s")
  show ?thesis
  proof (cases c)
    case (CreateSession db p)
    obtain x where "create_session E S db p s = (x, s')" "r = ebind x (\<lambda>t. Inr (NewSession t))"
      using run CreateSession by (auto simp: mbind_def mret_def split: prod.splits sum.splits)
    then show ?thesis using assms(3) run CreateSession create_refines by (auto simp: session_step_def)
  next
    case (CreateForIdentity db i u)
    obtain x where "create_for_identity E S db i u s = (x, s')" "r = ebind x (\<lambda>t. Inr (NewSession t))"
      using run CreateForIdentity by (auto simp: mbind_def mret_def split: prod.splits sum.splits)
    then show ?thesis using assms(3) run CreateForIdentity create_for_identity_refines by (auto simp: session_step_def)
  next
    case (ResolveSession db t)
    obtain x where x: "lookup_session E S db t s = (x, s')" "r = ebind x (\<lambda>t. Inr (SessionFound t))"
      using run ResolveSession by (auto simp: mbind_def mret_def split: prod.splits sum.splits)
    show ?thesis
    proof (cases "usable_token t")
      case True
      then show ?thesis using x assms(3) run ResolveSession resolve_refines[OF x(1) True] by (auto simp: session_step_def)
    next
      case False
      then have "x = Inr None" "s' = s"
        using x(1) by (auto simp: lookup_session_def resolve_session_def mbind_def mret_def)
      then show ?thesis using False x(2) assms(3) run ResolveSession by (auto simp: session_step_def)
    qed
  next
    case (RevokeSession t)
    obtain x where x: "revoke_session E S t s = (x, s')" "r = ebind x (\<lambda>t. Inr (SessionRevoked t))"
      using run RevokeSession by (auto simp: mbind_def mret_def split: prod.splits sum.splits)
    show ?thesis
    proof (cases "usable_token t")
      case True
      then show ?thesis using x assms(3) run RevokeSession revoke_refines[OF x(1) True ok] by (auto simp: session_step_def)
    next
      case False
      then have "x = Inr False" "s' = s" using x(1) by (auto simp: revoke_session_def mret_def)
      then show ?thesis using False x(2) assms(3) run RevokeSession by (auto simp: session_step_def)
    qed
  qed (use assms(3) auth_commands_keep_abs in auto)
qed

text \<open>a session that a logout ended is dead for good: whatever sessions are opened, resolved or ended
  afterwards, its id resolves to nothing.\<close>

theorem revoked_session_is_dead:
  assumes "revoke_session E S t s = (Inr True, s1)"
  shows "fst (resolve_session E S db t (fold (session_step E S) cs s1)) = Inr None"
proof -
  let ?h = "session_hash E t" and ?now = "sc_clock S (ss_reads s)"
  let ?f = "\<lambda>r. if sr_revoked r = None then r\<lparr>sr_revoked := Some ?now\<rparr> else r"
  have s1: "s1 = s\<lparr>ss_reads := Suc (ss_reads s), ss_rows := map (\<lambda>r. if sr_hash r = ?h then ?f r else r) (ss_rows s)\<rparr>"
    and n: "length (filter (\<lambda>r. sr_hash r = ?h \<and> sr_revoked r = None) (ss_rows s)) = 1"
    using assms by (auto simp: revoke_session_def action_defs session_clock_def update_session_def split: if_splits)
  obtain r where "r \<in> set (filter (\<lambda>r. sr_hash r = ?h \<and> sr_revoked r = None) (ss_rows s))"
    using n by (cases "filter (\<lambda>r. sr_hash r = ?h \<and> sr_revoked r = None) (ss_rows s)") auto
  then obtain x where "List.find (\<lambda>r. sr_hash r = ?h) (ss_rows s) = Some x"
    using find_hash_None[of ?h "ss_rows s"]
    by (cases "List.find (\<lambda>r. sr_hash r = ?h) (ss_rows s)") (auto simp: image_iff)
  then have "row_ended ?h s1" unfolding s1 row_ended_def find_session_def
    by (simp add: find_session_update)
  then show ?thesis by (intro ended_never_resolves row_ended.run_inv)
qed

text \<open>the state of a sign-in works once. After it was consumed no run of commands makes it usable again,
  as long as no state drawn later has its hash.\<close>

theorem auth_state_single_use:
  assumes "consume_auth E S t s = (Inr (Some tx), s1)"
    and "\<forall>n \<ge> ss_draws s1. session_hash E (sc_token S n) \<noteq> session_hash E t"
  shows "fst (consume_auth E S t (fold (session_step E S) cs s1)) = Inr None"
proof -
  have "\<not> list_ex (\<lambda>r. ar_hash r = session_hash E t) (ss_auth s1)"
    using assms(1)
    by (auto simp: consume_auth_def action_defs session_clock_def delete_auth_def list_ex_iff find_Some_iff
        split: if_splits option.splits)
  then have "auth_spent E S (session_hash E t) s1" using assms(2) by (simp add: auth_spent_def)
  then have "auth_spent E S (session_hash E t) (fold (session_step E S) cs s1)" (is "auth_spent _ _ _ ?s")
    by (rule auth_spent.run_inv)
  then have "List.find (\<lambda>r. ar_hash r = session_hash E t \<and> P r) (ss_auth ?s) = None" for P
    by (auto simp: auth_spent_def find_None_iff list_ex_iff)
  then show ?thesis by (simp add: consume_auth_def action_defs session_clock_def)
qed

section \<open>Witnesses\<close>

definition sample_session_conf :: session_conf where
  "sample_session_conf = \<lparr>sc_absolute = 100, sc_idle = 50, sc_token = (\<lambda>n. replicate (Suc n) CHR ''a''),
     sc_clock = (\<lambda>n. of_nat n)\<rparr>"

definition no_sessions :: session_store where
  "no_sessions = \<lparr>ss_rows = [], ss_auth = [], ss_draws = 0, ss_reads = 0\<rparr>"

lemma utf8_replicate: "utf8 (replicate n CHR ''a'') = replicate n 97"
  by (induction n) (simp_all add: utf8_def utf8_char_def ord_of_def)

lemma char_97: "(char_of (97 :: nat) :: char) = CHR ''a''"
  by code_simp

lemma sample_hash: "session_hash env0 (replicate n CHR ''a'') = replicate n CHR ''a''"
  by (simp add: session_hash_def utf8_replicate env0_def char_97)

lemma sample_lookup:
  "lookup_membership (w_db sample_members) ''i'' ''s'' = Inr (Some \<lparr>m_issuer = ''i'', m_subject = ''s'',
     m_tenant = ''t'', m_actor = ''u'', m_status = ''active'', m_scopes = [''read'']\<rparr>)"
  by (simp add: auth_eval sample_loads sample_scopes)

definition sample_session_row :: session_row where
  "sample_session_row = \<lparr>sr_hash = ''a'', sr_issuer = ''i'', sr_subject = ''s'', sr_tenant = ''t'', sr_actor = ''u'',
     sr_scopes = scopes_json [''read''], sr_created = 0, sr_seen = 0, sr_expires = 100, sr_revoked = None\<rparr>"

definition sample_open :: session_store where
  "sample_open = \<lparr>ss_rows = [sample_session_row], ss_auth = [], ss_draws = 1, ss_reads = 1\<rparr>"

lemma sample_conf_fields: "sc_absolute sample_session_conf = 100" "sc_idle sample_session_conf = 50"
  "sc_token sample_session_conf n = replicate (Suc n) CHR ''a''" "sc_clock sample_session_conf n = of_nat n"
  by (simp_all add: sample_session_conf_def)

lemma sample_hash1: "session_hash env0 ''a'' = ''a''"
  using sample_hash[of 1] by simp

lemma sample_opened:
  "session_step env0 sample_session_conf (CreateSession (w_db sample_members) (sample_principal ''s'')) no_sessions = sample_open"
  by (simp add: session_step_def create_session_def active_membership_def sample_principal_def sample_lookup
      action_defs session_token_def session_clock_def insert_session_row_def no_sessions_def sample_open_def
      sample_session_row_def sample_conf_fields sample_hash1)

lemma sample_live: "abs_sessions sample_open = \<lparr>sp_live = [''a'' \<mapsto> live_of sample_session_row], sp_used = {''a''}\<rparr>"
  by (auto simp: abs_sessions_def sample_open_def find_session_def sample_session_row_def fun_eq_iff)

lemma sample_revoke_spec:
  "spec_step env0 sample_session_conf (RevokeSession ''a'') token now (abs_sessions sample_open)
     = (Some (Inr (SessionRevoked True)), \<lparr>sp_live = Map.empty, sp_used = {''a''}\<rparr>)"
  by (simp add: usable_token_def spec_revoke_def sample_live sample_hash1)

theorem sessions_refine_map_witness:
  "abs_sessions (session_step env0 sample_session_conf (RevokeSession ''a'') sample_open)
       = \<lparr>sp_live = Map.empty, sp_used = {''a''}\<rparr>
     \<and> fst (session_run env0 sample_session_conf (RevokeSession ''a'') sample_open) = Inr (SessionRevoked True)"
proof -
  have init: "session_store_init 100 50 = Inr no_sessions"
    by (simp add: session_store_init_def no_sessions_def)
  have run: "sample_open = fold (session_step env0 sample_session_conf)
      [CreateSession (w_db sample_members) (sample_principal ''s'')] no_sessions"
    by (simp add: sample_opened)
  show ?thesis using sessions_refine_map[OF init run sample_revoke_spec] by simp
qed

lemma sample_revoked:
  "revoke_session env0 sample_session_conf ''a'' sample_open = (Inr True,
     \<lparr>ss_rows = [sample_session_row\<lparr>sr_revoked := Some 1\<rparr>], ss_auth = [], ss_draws = 1, ss_reads = 2\<rparr>)"
  by (simp add: revoke_session_def usable_token_def action_defs session_clock_def update_session_def
      sample_open_def sample_session_row_def sample_hash1 sample_conf_fields)

theorem revoked_session_is_dead_witness:
  "fst (resolve_session env0 sample_session_conf (w_db sample_members) ''a''
     (fold (session_step env0 sample_session_conf) [CreateForIdentity (w_db sample_members) ''i'' ''s'']
       \<lparr>ss_rows = [sample_session_row\<lparr>sr_revoked := Some 1\<rparr>], ss_auth = [], ss_draws = 1, ss_reads = 2\<rparr>)) = Inr None"
  by (rule revoked_session_is_dead[OF sample_revoked])

definition sample_auth_row :: auth_row where
  "sample_auth_row = \<lparr>ar_hash = ''a'', ar_nonce = ''n'', ar_verifier = ''v'', ar_challenge = ''c'', ar_return_to = ''/'',
     ar_redirect = ''r'', ar_created = 0, ar_expires = 600\<rparr>"

definition sample_pending :: session_store where
  "sample_pending = \<lparr>ss_rows = [], ss_auth = [sample_auth_row], ss_draws = 3, ss_reads = 1\<rparr>"

lemma sample_consumed:
  "consume_auth env0 sample_session_conf ''a'' sample_pending = (Inr (Some \<lparr>at_state = ''a'', at_nonce = ''n'',
      at_verifier = ''v'', at_challenge = ''c'', at_return_to = ''/'', at_redirect = ''r''\<rparr>),
     \<lparr>ss_rows = [], ss_auth = [], ss_draws = 3, ss_reads = 2\<rparr>)"
  by (simp add: consume_auth_def usable_token_def action_defs session_clock_def delete_auth_def sample_pending_def
      sample_auth_row_def sample_hash1 sample_conf_fields)

theorem auth_state_single_use_witness:
  "fst (consume_auth env0 sample_session_conf ''a'' (fold (session_step env0 sample_session_conf) [BeginAuth ''/'' ''r'' 600]
     \<lparr>ss_rows = [], ss_auth = [], ss_draws = 3, ss_reads = 2\<rparr>)) = Inr None"
proof (rule auth_state_single_use[OF sample_consumed])
  have "replicate (Suc n) CHR ''a'' \<noteq> ''a''" if "n \<ge> 3" for n
    using that by (auto dest: arg_cong[of _ _ length])
  then show "\<forall>n \<ge> ss_draws \<lparr>ss_rows = [], ss_auth = [], ss_draws = 3, ss_reads = 2\<rparr>.
      session_hash env0 (sc_token sample_session_conf n) \<noteq> session_hash env0 ''a''"
    by (simp add: sample_conf_fields sample_hash1 sample_hash del: replicate_Suc)
qed

end
