(* ===== verification/Url.thy ===== *)
theory Url
  imports Store
begin

text \<open>
  The part of \<open>urllib.parse\<close> the code validates addresses with: \<open>urlsplit\<close> with the user
  information, host and port of its result, and \<open>unquote\<close>. The table of the \<open>ipaddress\<close>
  module is a parameter: \<open>ip\<close> gives, for a text that is an IP address, its version and whether
  it is global. (\<open>_checknetloc\<close>, which looks at non-ASCII hosts only, refuses no text below
  code point 256.)
\<close>

type_synonym ip_table = "string \<Rightarrow> (nat \<times> bool) option"

record split_url =
  su_scheme :: string
  su_netloc :: string
  su_path :: string
  su_query :: string
  su_fragment :: string

definition scheme_char :: "char \<Rightarrow> bool" where
  "scheme_char c \<longleftrightarrow> is_alnum_ascii c \<or> c \<in> set ''+-.''"

definition split_scheme :: "string \<Rightarrow> string \<times> string" where
  "split_scheme url =
     (case partition_at (CHR '':'') url of
        (lead, found, after) \<Rightarrow>
          if found \<and> lead \<noteq> [] \<and> is_alpha_ascii (hd lead) \<and> list_all scheme_char lead
          then (lower lead, after) else ([], url))"

definition rpartition_at :: "char \<Rightarrow> string \<Rightarrow> string \<times> bool \<times> string" where
  "rpartition_at c s =
     (case partition_at c (rev s) of (after, found, lead) \<Rightarrow>
        if found then (rev lead, True, rev after) else ([], False, s))"

text \<open>\<open>v[0-9a-fA-F]+\.\<close> and at least one more character.\<close>

definition is_hex_char :: "char \<Rightarrow> bool" where
  "is_hex_char c \<longleftrightarrow> is_digit_ascii c \<or> (97 \<le> ord_of c \<and> ord_of c \<le> 102) \<or> (65 \<le> ord_of c \<and> ord_of c \<le> 70)"

definition ip_future :: "string \<Rightarrow> bool" where
  "ip_future s = (case s of
     [] \<Rightarrow> False
   | v # r \<Rightarrow> v = CHR ''v'' \<and> takeWhile is_hex_char r \<noteq> []
       \<and> (case dropWhile is_hex_char r of d # x # _ \<Rightarrow> d = CHR ''.'' | _ \<Rightarrow> False))"

definition bracketed_ok :: "ip_table \<Rightarrow> string \<Rightarrow> bool" where
  "bracketed_ok ip netloc =
     (let hostport = snd (snd (rpartition_at (CHR ''@'') netloc));
          (lead, open, rest) = partition_at (CHR ''['') hostport;
          (bracket_host, closed, port) = partition_at (CHR '']'') rest;
          host = (if open then bracket_host else fst (partition_at (CHR '':'') hostport))
      in (open \<longrightarrow> lead = [] \<and> (port = [] \<or> hd port = CHR '':''))
        \<and> (if host \<noteq> [] \<and> hd host = CHR ''v'' then ip_future host
           else (case ip host of Some (version, _) \<Rightarrow> version \<noteq> 4 | None \<Rightarrow> False)))"

text \<open>\<open>None\<close> is the \<open>ValueError\<close>.\<close>

definition urlsplit :: "ip_table \<Rightarrow> string \<Rightarrow> split_url option" where
  "urlsplit ip text =
     (let url = filter (\<lambda>c. ord_of c \<noteq> 9 \<and> ord_of c \<noteq> 13 \<and> ord_of c \<noteq> 10) (dropWhile (\<lambda>c. ord_of c \<le> 32) text);
          (scheme, url) = split_scheme url;
          has_netloc = starts_with ''//'' url;
          netloc = (if has_netloc then takeWhile (\<lambda>c. c \<notin> set ''/?#'') (drop 2 url) else []);
          url = (if has_netloc then dropWhile (\<lambda>c. c \<notin> set ''/?#'') (drop 2 url) else url);
          open = CHR ''['' \<in> set netloc; close = CHR '']'' \<in> set netloc
      in if open \<noteq> close \<or> (open \<and> \<not> bracketed_ok ip netloc) then None
      else let (url, _, fragment) = partition_at (CHR ''#'') url;
               (path, _, query) = partition_at (CHR ''?'') url
           in Some \<lparr>su_scheme = scheme, su_netloc = netloc, su_path = path, su_query = query,
                    su_fragment = fragment\<rparr>)"

text \<open>User name and password, host and port text of a network location.\<close>

definition userinfo :: "split_url \<Rightarrow> string option \<times> string option" where
  "userinfo u =
     (case rpartition_at (CHR ''@'') (su_netloc u) of
        (info, False, _) \<Rightarrow> (None, None)
      | (info, True, _) \<Rightarrow>
          (case partition_at (CHR '':'') info of
             (name, has_password, password) \<Rightarrow> (Some name, if has_password then Some password else None)))"

definition host_port :: "split_url \<Rightarrow> string \<times> string" where
  "host_port u =
     (let hostinfo = snd (snd (rpartition_at (CHR ''@'') (su_netloc u)));
          (_, open, bracketed) = partition_at (CHR ''['') hostinfo
      in if open then
           (let (host, _, rest) = partition_at (CHR '']'') bracketed;
                (_, _, port) = partition_at (CHR '':'') rest in (host, port))
         else (let (host, _, port) = partition_at (CHR '':'') hostinfo in (host, port)))"

definition hostname :: "split_url \<Rightarrow> string option" where
  "hostname u =
     (let host = fst (host_port u) in
      if host = [] then None
      else case partition_at (CHR ''%'') host of
        (lead, found, zone) \<Rightarrow> Some (lower lead @ (if found then CHR ''%'' # zone else [])))"

text \<open>\<open>Some None\<close>: no port; \<open>None\<close>: the \<open>ValueError\<close> of a port that is no number up to 65535.\<close>

definition port_of :: "split_url \<Rightarrow> nat option option" where
  "port_of u =
     (let p = snd (host_port u) in
      if p = [] then Some None
      else if list_all is_digit_ascii p \<and> digits_value p \<le> 65535 then Some (Some (digits_value p))
      else None)"

section \<open>Percent decoding\<close>

fun pct_decode :: "string \<Rightarrow> bytes" where
  "pct_decode [] = []"
| "pct_decode (c # a # b # s) =
     (if c = CHR ''%'' then
        (case (hex_value a, hex_value b) of
           (Some x, Some y) \<Rightarrow> of_nat (16 * x + y) # pct_decode s
         | _ \<Rightarrow> of_nat (ord_of c) # pct_decode (a # b # s))
      else of_nat (ord_of c) # pct_decode (a # b # s))"
| "pct_decode (c # s) = of_nat (ord_of c) # pct_decode s"

text \<open>Each maximal run of ASCII characters is decoded as UTF-8; the rest stays.\<close>

function unquote_runs :: "env \<Rightarrow> string \<Rightarrow> string" where
  "unquote_runs E s =
     (if s = [] then []
      else let run = takeWhile (\<lambda>c. ord_of c < 128) s; rest = dropWhile (\<lambda>c. ord_of c < 128) s
        in (if run = [] then [] else decode_utf8 E (pct_decode run))
          @ (case rest of [] \<Rightarrow> [] | c # r \<Rightarrow> c # unquote_runs E r))"
  by pat_completeness auto
termination
proof (relation "measure (\<lambda>(E, s). length s)")
  fix E :: env and s run rest :: string and c r
  assume "rest = dropWhile (\<lambda>c. ord_of c < 128) s" "rest = c # r"
  then have "length (c # r) \<le> length s" by (metis length_dropWhile_le)
  then show "((E, r), E, s) \<in> measure (\<lambda>(E, s). length s)" by simp
qed simp

declare unquote_runs.simps [simp del]

definition unquote :: "env \<Rightarrow> string \<Rightarrow> string" where
  "unquote E s = (if CHR ''%'' \<in> set s then unquote_runs E s else s)"

text \<open>What a URL without user information, query and fragment looks like.\<close>

definition bare_url :: "split_url \<Rightarrow> bool" where
  "bare_url u \<longleftrightarrow> userinfo u = (None, None) \<and> su_query u = [] \<and> su_fragment u = []"

end
