(* ===== verification/Relay.thy ===== *)
theory Relay
  imports Auth Audit_Event Base64 Url
begin

text \<open>
  \<open>public_mcp.py\<close>: the opaque and the signed capabilities a renderer hands to the MCP endpoint, and the
  client that issues one for a call and revokes it afterwards. HMAC-SHA256, the random tokens, the two
  clocks, the decoding \<open>json.loads\<close> applies to bytes and the MCP transport are parameters. A
  dictionary keyed by token digests is an association list.
\<close>

section \<open>Constants\<close>

definition PUBLIC_TOOLS :: "string list" where
  "PUBLIC_TOOLS = [''artifact_create'', ''artifact_write'', ''artifact_list'', ''artifact_read'',
     ''artifact_read_chunk'', ''artifact_search'', ''artifact_grep'', ''graph_link'', ''graph_traverse'',
     ''graph_component'', ''artifact_versions'', ''artifact_share'', ''artifact_revoke'', ''artifact_acl'']"

definition ADMIN_TOOLS :: "string list" where
  "ADMIN_TOOLS = [''external_mcp_connection_register'', ''external_mcp_connection_list'',
     ''external_mcp_connection_status'', ''external_mcp_connection_revoke'', ''external_mcp_audit'', ''audit_export'']"

definition CAPABILITY_PROTOCOL :: string where
  "CAPABILITY_PROTOCOL = ''folio-renderer-capability/v1''"

definition IDENTITY_RELAY_TOOL :: string where "IDENTITY_RELAY_TOOL = ''__identity__''"

definition identity_relay_digest :: "env \<Rightarrow> string" where
  "identity_relay_digest E = sha256_hex E (utf8 IDENTITY_RELAY_TOOL)"

record capability =
  cp_principal :: principal
  cp_binding :: capability_binding

record relay_env =
  rl_hmac :: "bytes \<Rightarrow> bytes \<Rightarrow> bytes"
  rl_token :: "nat \<Rightarrow> string"
  rl_time :: "nat \<Rightarrow> rat"
  rl_text :: "bytes \<Rightarrow> string option"

text \<open>\<open>token.encode("ascii", "ignore")\<close> and its digest.\<close>

definition ascii_only :: "string \<Rightarrow> string" where
  "ascii_only s = filter (\<lambda>c. ord_of c < 128) s"

definition token_digest :: "env \<Rightarrow> string \<Rightarrow> string" where
  "token_digest E token = sha256_hex E (utf8 (ascii_only token))"

text \<open>The tool and argument digest a capability is bound to.\<close>

definition relay_binding :: "env \<Rightarrow> string \<Rightarrow> (string \<times> json) list \<Rightarrow> py_exn + capability_binding" where
  "relay_binding E tool args =
     (if tool = IDENTITY_RELAY_TOOL then
        (if args \<noteq> [] then Inl (ValueError ''identity relay cannot carry arguments'')
         else Inr \<lparr>cb_tool = tool, cb_digest = identity_relay_digest E\<rparr>)
      else if tool = ''artifact_read'' then
        ebind (capability_arguments_digest E args) (\<lambda>d. Inr \<lparr>cb_tool = tool, cb_digest = d\<rparr>)
      else Inl (ValueError ''renderer capability only supports artifact_read''))"

section \<open>Opaque capabilities within one process\<close>

record trusted_relay =
  tr_endpoint :: string
  tr_ttl :: rat
  tr_tokens :: "(string \<times> rat \<times> capability) list"
  tr_draws :: nat
  tr_reads :: nat

definition mcp_endpoint :: "split_url \<Rightarrow> bool" where
  "mcp_endpoint u \<longleftrightarrow> su_scheme u \<in> {''http'', ''https''} \<and> su_netloc u \<noteq> [] \<and> su_path u = ''/mcp''
     \<and> su_query u = [] \<and> su_fragment u = [] \<and> userinfo u = (None, None)"

definition trusted_relay_init :: "ip_table \<Rightarrow> string \<Rightarrow> rat \<Rightarrow> py_exn + trusted_relay" where
  "trusted_relay_init ip endpoint ttl =
     (case urlsplit ip endpoint of
        None \<Rightarrow> Inl (ValueError ''invalid URL'')
      | Some u \<Rightarrow>
          if \<not> mcp_endpoint u then Inl (ValueError ''trusted principal relay endpoint must be an HTTP /mcp URL'')
          else if ttl \<le> 0 \<or> ttl > 60 then Inl (ValueError ''trusted principal relay TTL is outside the allowed bound'')
          else Inr \<lparr>tr_endpoint = endpoint, tr_ttl = ttl, tr_tokens = [], tr_draws = 0, tr_reads = 0\<rparr>)"

definition trusted_time :: "relay_env \<Rightarrow> (trusted_relay, rat) action" where
  "trusted_time R = (\<lambda>s. (Inr (rl_time R (tr_reads s)), s\<lparr>tr_reads := Suc (tr_reads s)\<rparr>))"

definition trusted_purge :: "relay_env \<Rightarrow> (trusted_relay, unit) action" where
  "trusted_purge R = mbind (trusted_time R) (\<lambda>now.
     (\<lambda>s. (Inr (), s\<lparr>tr_tokens := filter (\<lambda>(_, expires_at, _). \<not> expires_at \<le> now) (tr_tokens s)\<rparr>)))"

definition trusted_issue ::
    "env \<Rightarrow> relay_env \<Rightarrow> principal \<Rightarrow> string \<Rightarrow> (string \<times> json) list \<Rightarrow> (trusted_relay, string) action" where
  "trusted_issue E R p tool args =
     mbind (mlift (relay_binding E tool args)) (\<lambda>binding.
     mbind (\<lambda>s. (Inr (rl_token R (tr_draws s)), s\<lparr>tr_draws := Suc (tr_draws s)\<rparr>)) (\<lambda>token.
     mbind (trusted_purge R) (\<lambda>_.
     mbind (trusted_time R) (\<lambda>now.
     mbind (\<lambda>s. (Inr (), s\<lparr>tr_tokens := AList.update (token_digest E token)
         (now + tr_ttl s, \<lparr>cp_principal = p, cp_binding = binding\<rparr>) (tr_tokens s)\<rparr>)) (\<lambda>_.
     mret token)))))"

definition trusted_resolve_capability :: "env \<Rightarrow> relay_env \<Rightarrow> string \<Rightarrow> (trusted_relay, capability option) action" where
  "trusted_resolve_capability E R token =
     (if token = [] \<or> length token > 256 then mret None else
      mbind (trusted_purge R) (\<lambda>_.
      mget (\<lambda>s. map_option snd (map_of (tr_tokens s) (token_digest E token)))))"

definition trusted_resolve :: "env \<Rightarrow> relay_env \<Rightarrow> string \<Rightarrow> (trusted_relay, principal option) action" where
  "trusted_resolve E R token = mbind (trusted_resolve_capability E R token) (\<lambda>c. mret (map_option cp_principal c))"

definition trusted_revoke :: "env \<Rightarrow> string \<Rightarrow> (trusted_relay, unit) action" where
  "trusted_revoke E token = (\<lambda>s. (Inr (), s\<lparr>tr_tokens := AList.delete (token_digest E token) (tr_tokens s)\<rparr>))"

section \<open>Signed capabilities\<close>

record signed_relay =
  sg_endpoint :: string
  sg_audience :: string
  sg_key :: bytes
  sg_ttl :: rat
  sg_revoked :: "(string \<times> rat) list"
  sg_draws :: nat
  sg_reads :: nat

definition audience_ok :: "ip_table \<Rightarrow> string \<Rightarrow> bool" where
  "audience_ok ip audience \<longleftrightarrow>
     (case urlsplit ip audience of
        None \<Rightarrow> False
      | Some u \<Rightarrow> port_of u \<noteq> None \<and> su_scheme u = ''https'' \<and> su_netloc u \<noteq> [] \<and> hostname u \<noteq> None
          \<and> su_path u = ''/mcp'' \<and> su_query u = [] \<and> su_fragment u = [] \<and> userinfo u = (None, None))"

definition signed_relay_init ::
    "relay_env \<Rightarrow> ip_table \<Rightarrow> string \<Rightarrow> string \<Rightarrow> string option \<Rightarrow> rat \<Rightarrow> py_exn + signed_relay" where
  "signed_relay_init R ip endpoint secret audience ttl =
     (case urlsplit ip endpoint of
        None \<Rightarrow> Inl (ValueError ''invalid URL'')
      | Some u \<Rightarrow>
          if \<not> mcp_endpoint u then Inl (ValueError ''signed principal relay endpoint must be an HTTP /mcp URL'')
          else if (case audience of Some a \<Rightarrow> \<not> audience_ok ip a | None \<Rightarrow> False)
          then Inl (ValueError ''signed principal relay audience must be an exact HTTPS /mcp URL'')
          else if length secret < 32 then Inl (ValueError ''signed principal relay secret must be at least 32 characters'')
          else if ttl \<le> 0 \<or> ttl > 60 then Inl (ValueError ''signed principal relay TTL is outside the allowed bound'')
          else Inr \<lparr>sg_endpoint = endpoint, sg_audience = (case audience of Some a \<Rightarrow> a | None \<Rightarrow> endpoint),
            sg_key = rl_hmac R (utf8 secret) (utf8 CAPABILITY_PROTOCOL), sg_ttl = ttl, sg_revoked = [],
            sg_draws = 0, sg_reads = 0\<rparr>)"

definition signed_time :: "relay_env \<Rightarrow> (signed_relay, rat) action" where
  "signed_time R = (\<lambda>s. (Inr (rl_time R (sg_reads s)), s\<lparr>sg_reads := Suc (sg_reads s)\<rparr>))"

text \<open>\<open>int()\<close> of a clock reading or of a time to live, neither of which is negative.\<close>

definition whole :: "rat \<Rightarrow> int" where
  "whole t = \<lfloor>t\<rfloor>"

definition capability_payload :: "string \<Rightarrow> int \<Rightarrow> int \<Rightarrow> string \<Rightarrow> principal \<Rightarrow> capability_binding \<Rightarrow> json" where
  "capability_payload audience now ttl jti p b = JObj
     [(''protocol'', JStr CAPABILITY_PROTOCOL), (''v'', JInt 1), (''aud'', JStr audience), (''iat'', JInt now),
      (''exp'', JInt (now + ttl)), (''jti'', JStr jti), (''tenant_id'', JStr (p_tenant p)),
      (''actor_id'', JStr (p_actor p)), (''issuer'', JStr (p_issuer p)), (''subject'', JStr (p_subject p)),
      (''scopes'', JArr (map JStr (p_scopes p))), (''tool'', JStr (cb_tool b)),
      (''arguments_digest'', JStr (cb_digest b))]"

definition encode_segment :: "json \<Rightarrow> string" where
  "encode_segment payload = b64url (utf8 (dumps_sorted payload))"

definition signed_issue ::
    "env \<Rightarrow> relay_env \<Rightarrow> principal \<Rightarrow> string \<Rightarrow> (string \<times> json) list \<Rightarrow> (signed_relay, string) action" where
  "signed_issue E R p tool args =
     mbind (mlift (relay_binding E tool args)) (\<lambda>binding.
     mbind (signed_time R) (\<lambda>now.
     mbind (\<lambda>s. (Inr (rl_token R (sg_draws s)), s\<lparr>sg_draws := Suc (sg_draws s)\<rparr>)) (\<lambda>jti.
     mget (\<lambda>s.
       let encoded = encode_segment (capability_payload (sg_audience s) (whole now) (whole (sg_ttl s)) jti p binding)
       in encoded @ ''.'' @ b64url (rl_hmac R (sg_key s) (utf8 encoded))))))"

definition segment_char :: "char \<Rightarrow> bool" where
  "segment_char c \<longleftrightarrow> is_alnum_ascii c \<or> c = CHR ''-'' \<or> c = CHR ''_''"

text \<open>\<open>None\<close> is the \<open>ValueError\<close>.\<close>

definition decode_segment :: "string \<Rightarrow> bytes option" where
  "decode_segment v =
     (if v = [] \<or> length v > 4096 \<or> \<not> list_all segment_char v \<or> length v mod 4 = 1 then None
      else case b64_decode url_alphabet (repad v) of
        None \<Rightarrow> None
      | Some decoded \<Rightarrow> if b64url decoded \<noteq> v then None else Some decoded)"

definition signed_purge :: "relay_env \<Rightarrow> (signed_relay, unit) action" where
  "signed_purge R = mbind (signed_time R) (\<lambda>now.
     (\<lambda>s. (Inr (), s\<lparr>sg_revoked := filter (\<lambda>(_, expires_at). \<not> expires_at \<le> now) (sg_revoked s)\<rparr>)))"

definition equals_one :: "json \<Rightarrow> bool" where
  "equals_one v \<longleftrightarrow> v = JInt 1 \<or> v = JBool True \<or> v = JFloat ''1.0''"

text \<open>An instance of \<open>int\<close>, booleans included.\<close>

fun int_like :: "json \<Rightarrow> int option" where
  "int_like (JInt i) = Some i"
| "int_like (JBool b) = Some (if b then 1 else 0)"
| "int_like _ = None"

definition payload_times_ok :: "int \<Rightarrow> json \<Rightarrow> bool" where
  "payload_times_ok now payload \<longleftrightarrow>
     (case (int_like (jget_none payload ''iat''), int_like (jget_none payload ''exp'')) of
        (Some iat, Some ex) \<Rightarrow> \<not> iat > now + 2 \<and> \<not> ex < now \<and> \<not> ex - iat > 60
      | _ \<Rightarrow> False)"

definition payload_valid :: "env \<Rightarrow> string \<Rightarrow> int \<Rightarrow> json \<Rightarrow> bool" where
  "payload_valid E audience now payload \<longleftrightarrow>
     jis_obj payload \<and> jget payload ''protocol'' = Some (JStr CAPABILITY_PROTOCOL)
     \<and> equals_one (jget_none payload ''v'') \<and> jget payload ''aud'' = Some (JStr audience)
     \<and> payload_times_ok now payload
     \<and> list_all (\<lambda>k. nonempty_text (jget payload k)) [''tenant_id'', ''actor_id'', ''issuer'', ''subject'',
          ''tool'', ''arguments_digest'', ''jti'']
     \<and> scope_text (jget_none payload ''tool'') \<in> {''artifact_read'', IDENTITY_RELAY_TOOL}
     \<and> (scope_text (jget_none payload ''tool'') = IDENTITY_RELAY_TOOL
         \<longrightarrow> scope_text (jget_none payload ''arguments_digest'') = identity_relay_digest E)"

definition payload_capability :: "env \<Rightarrow> string \<Rightarrow> int \<Rightarrow> json \<Rightarrow> capability option" where
  "payload_capability E audience now payload =
     (if \<not> payload_valid E audience now payload then None
      else let text_of = (\<lambda>k. scope_text (jget_none payload k)) in
      case jget payload ''scopes'' of
        Some (JArr scopes) \<Rightarrow>
          if list_all (\<lambda>v. case v of JStr _ \<Rightarrow> True | _ \<Rightarrow> False) scopes
          then Some \<lparr>cp_principal = \<lparr>p_tenant = text_of ''tenant_id'', p_actor = text_of ''actor_id'',
                p_issuer = text_of ''issuer'', p_subject = text_of ''subject'',
                p_scopes = sort (remdups (map scope_text scopes))\<rparr>,
              cp_binding = \<lparr>cb_tool = text_of ''tool'', cb_digest = text_of ''arguments_digest''\<rparr>\<rparr>
          else None
      | _ \<Rightarrow> None)"

definition signed_payload :: "relay_env \<Rightarrow> bytes \<Rightarrow> string \<Rightarrow> json option" where
  "signed_payload R key token =
     (let (encoded, _, signature) = partition_at (CHR ''.'') token in
      if encoded = [] \<or> signature = [] then None
      else case decode_segment signature of
        None \<Rightarrow> None
      | Some given \<Rightarrow>
          if \<not> list_all (\<lambda>c. ord_of c < 128) encoded \<or> given \<noteq> rl_hmac R key (utf8 encoded) then None
          else case decode_segment encoded of
            None \<Rightarrow> None
          | Some raw \<Rightarrow> (case rl_text R raw of None \<Rightarrow> None | Some s \<Rightarrow> loads s))"

definition signed_resolve_capability :: "env \<Rightarrow> relay_env \<Rightarrow> string \<Rightarrow> (signed_relay, capability option) action" where
  "signed_resolve_capability E R token =
     (if length token > 4096 \<or> length (filter (\<lambda>c. c = CHR ''.'') token) \<noteq> 1 then mret None else
      mbind (signed_purge R) (\<lambda>_.
      mbind (mget (\<lambda>s. map_of (sg_revoked s) (token_digest E token))) (\<lambda>hit.
      if hit \<noteq> None then mret None else
      mbind (mget (\<lambda>s. signed_payload R (sg_key s) token)) (\<lambda>payload.
      case payload of
        None \<Rightarrow> mret None
      | Some j \<Rightarrow>
          if \<not> jis_obj j then mret None
          else mbind (signed_time R) (\<lambda>now.
            mget (\<lambda>s. payload_capability E (sg_audience s) (whole now) j))))))"

definition signed_resolve :: "env \<Rightarrow> relay_env \<Rightarrow> string \<Rightarrow> (signed_relay, principal option) action" where
  "signed_resolve E R token = mbind (signed_resolve_capability E R token) (\<lambda>c. mret (map_option cp_principal c))"

definition signed_revoke :: "env \<Rightarrow> relay_env \<Rightarrow> string \<Rightarrow> (signed_relay, unit) action" where
  "signed_revoke E R token =
     (if token = [] \<or> length token > 4096 then mret () else
      mbind (signed_purge R) (\<lambda>_.
      mbind (signed_time R) (\<lambda>now.
      (\<lambda>s. (Inr (), s\<lparr>sg_revoked := AList.update (token_digest E token) (now + 60) (sg_revoked s)\<rparr>)))))"

section \<open>The client of the endpoint\<close>

record call_result =
  cr_error :: bool
  cr_content :: "(string \<times> string) list"
  cr_structured :: "json option"

datatype outcome = TimedOut | Unavailable | Replied call_result

record mcp_client =
  hc_endpoint :: string
  hc_max_result :: nat
  hc_principal :: "principal option"

definition mcp_client_init ::
    "string \<Rightarrow> rat \<Rightarrow> int \<Rightarrow> string option \<Rightarrow> principal option \<Rightarrow> py_exn + mcp_client" where
  "mcp_client_init endpoint timeout max_result relay_endpoint p =
     (if timeout \<le> 0 \<or> max_result < 1 then Inl (ValueError ''MCP client limits must be positive'')
      else if relay_endpoint \<notin> {None, Some endpoint}
      then Inl (ValueError ''trusted principal relay is bound to another MCP endpoint'')
      else if p \<noteq> None \<and> relay_endpoint = None then Inl (ValueError ''a fixed principal requires a trusted relay'')
      else Inr \<lparr>hc_endpoint = endpoint, hc_max_result = nat max_result, hc_principal = p\<rparr>)"

definition text_messages :: "(string \<times> string) list \<Rightarrow> string" where
  "text_messages content = strip (join_with '' '' (map snd (filter (\<lambda>(type, _). type = ''text'') content)))"

definition unwrap_result :: "json \<Rightarrow> json" where
  "unwrap_result v = (case v of
     JObj kvs \<Rightarrow> if set (map fst kvs) = {''result''} then jget_none v ''result'' else v
   | _ \<Rightarrow> v)"

definition decode_result :: "nat \<Rightarrow> call_result \<Rightarrow> py_exn + json" where
  "decode_result max_result r =
     (if cr_error r then
        Inl (PublicMcpError (take 500 (if text_messages (cr_content r) = [] then ''MCP tool failed''
          else text_messages (cr_content r))))
      else case cr_structured r of
        None \<Rightarrow> Inl (PublicMcpError ''MCP tool returned no structured result'')
      | Some v \<Rightarrow>
          (case dumps_strict v of
             None \<Rightarrow> Inl (PublicMcpError ''MCP tool returned an invalid structured result'')
           | Some encoded \<Rightarrow>
               if length (utf8 encoded) > max_result then Inl (PublicMcpError ''MCP result exceeds the allowed size'')
               else Inr (unwrap_result v)))"

definition outcome_result :: "nat \<Rightarrow> outcome \<Rightarrow> py_exn + json" where
  "outcome_result max_result o' =
     (case o' of
        TimedOut \<Rightarrow> Inl (PublicMcpError ''MCP call timed out'')
      | Unavailable \<Rightarrow> Inl (PublicMcpError ''MCP service unavailable'')
      | Replied r \<Rightarrow> decode_result max_result r)"

text \<open>\<open>_call_with_relay\<close>: the capability is revoked whatever the transport does. The two relays differ in
  how they issue and revoke.\<close>

definition relayed_call ::
    "(principal \<Rightarrow> string \<Rightarrow> (string \<times> json) list \<Rightarrow> ('r, string) action) \<Rightarrow> (string \<Rightarrow> ('r, unit) action) \<Rightarrow>
     (string option \<Rightarrow> string \<Rightarrow> (string \<times> json) list \<Rightarrow> outcome) \<Rightarrow> nat \<Rightarrow>
     string \<Rightarrow> (string \<times> json) list \<Rightarrow> principal \<Rightarrow> ('r, json) action" where
  "relayed_call issue revoke transport max_result tool args p =
     mbind (if tool = ''artifact_read'' then issue p tool args else issue p IDENTITY_RELAY_TOOL []) (\<lambda>token.
     mbind (revoke token) (\<lambda>_.
     mlift (outcome_result max_result (transport (Some token) tool args))))"

definition mcp_call ::
    "(principal \<Rightarrow> string \<Rightarrow> (string \<times> json) list \<Rightarrow> ('r, string) action) \<Rightarrow> (string \<Rightarrow> ('r, unit) action) \<Rightarrow>
     bool \<Rightarrow> (string option \<Rightarrow> string \<Rightarrow> (string \<times> json) list \<Rightarrow> outcome) \<Rightarrow> mcp_client \<Rightarrow> principal option \<Rightarrow>
     string \<Rightarrow> (string \<times> json) list \<Rightarrow> ('r, json) action" where
  "mcp_call issue revoke has_relay transport c request_principal tool args =
     (if tool \<notin> set PUBLIC_TOOLS then mraise (PublicMcpError ''tool is not part of the Folio MCP contract'')
      else case (has_relay, (case request_principal of None \<Rightarrow> hc_principal c | Some p \<Rightarrow> Some p)) of
        (True, Some p) \<Rightarrow> relayed_call issue revoke transport (hc_max_result c) tool args p
      | _ \<Rightarrow> mlift (outcome_result (hc_max_result c) (transport None tool args)))"

text \<open>\<open>ready\<close>: the tool list the server answers with, \<open>None\<close> for any failure.\<close>

definition mcp_ready ::
    "(principal \<Rightarrow> string \<Rightarrow> (string \<times> json) list \<Rightarrow> ('r, string) action) \<Rightarrow> (string \<Rightarrow> ('r, unit) action) \<Rightarrow>
     bool \<Rightarrow> (string option \<Rightarrow> string list option) \<Rightarrow> mcp_client \<Rightarrow> principal option \<Rightarrow> ('r, bool) action" where
  "mcp_ready issue revoke has_relay list_tools c request_principal =
     (let listed = (\<lambda>token. case list_tools token of Some tools \<Rightarrow> ''artifact_read'' \<in> set tools | None \<Rightarrow> False) in
      case (has_relay, (case request_principal of None \<Rightarrow> hc_principal c | Some p \<Rightarrow> Some p)) of
        (True, Some p) \<Rightarrow>
          mtry (mbind (issue p IDENTITY_RELAY_TOOL []) (\<lambda>token. mbind (revoke token) (\<lambda>_. mret (listed (Some token)))))
            (\<lambda>_. mret False)
      | _ \<Rightarrow> mret (listed None))"

definition admin_result :: "outcome \<Rightarrow> py_exn + json" where
  "admin_result o' =
     (case o' of
        TimedOut \<Rightarrow> Inl (PublicMcpError ''admin MCP call timed out'')
      | Unavailable \<Rightarrow> Inl (PublicMcpError ''admin MCP service unavailable'')
      | Replied r \<Rightarrow>
          if cr_error r then
            Inl (PublicMcpError (if take 500 (text_messages (cr_content r)) = [] then ''Admin MCP tool failed''
              else take 500 (text_messages (cr_content r))))
          else case cr_structured r of
            None \<Rightarrow> Inl (PublicMcpError ''admin MCP tool returned no structured result'')
          | Some v \<Rightarrow> Inr (unwrap_result v))"

definition admin_call :: "(string \<Rightarrow> (string \<times> json) list \<Rightarrow> outcome) \<Rightarrow> string \<Rightarrow> (string \<times> json) list \<Rightarrow> py_exn + json" where
  "admin_call transport tool args =
     (if tool \<notin> set ADMIN_TOOLS then Inl (PublicMcpError ''tool is not part of the admin MCP contract'')
      else admin_result (transport tool args))"

section \<open>Segments and payloads\<close>

definition printable :: "string \<Rightarrow> bool" where
  "printable s \<longleftrightarrow> list_all (\<lambda>c. 32 \<le> ord_of c \<and> ord_of c \<le> 126) s"

lemma printable_simps [simp]: "printable []" "printable (c # s) \<longleftrightarrow> 32 \<le> ord_of c \<and> ord_of c \<le> 126 \<and> printable s"
  "printable (s @ t) \<longleftrightarrow> printable s \<and> printable t"
  by (auto simp: printable_def)

lemma ord_literals [simp]: "ord_of CHR 0x22 = 34" "ord_of CHR '':'' = 58" "ord_of CHR '','' = 44" "ord_of CHR ''['' = 91"
  "ord_of CHR '']'' = 93" "ord_of CHR 0x7B = 123" "ord_of CHR 0x7D = 125" "ord_of CHR 0x5C = 92" "ord_of CHR ''u'' = 117"
  "ord_of CHR ''-'' = 45"
  by (simp_all add: ord_of_def)

lemma printable_hex: "n < 16 \<Longrightarrow> 32 \<le> ord_of (hex_digit n) \<and> ord_of (hex_digit n) \<le> 126"
  by (simp add: hex_digit_def ord_char_of)

lemma printable_escape: "printable (escape_char c)"
proof -
  have "printable (hex4 n)" for n by (simp add: hex4_def printable_hex)
  moreover have "printable [CHR 0x5C, CHR 0x22]" "printable [CHR 0x5C, CHR 0x5C]" "printable [CHR 0x5C, CHR ''n'']"
    "printable [CHR 0x5C, CHR ''r'']" "printable [CHR 0x5C, CHR ''t'']" "printable [CHR 0x5C, CHR ''f'']"
    "printable [CHR 0x5C, CHR ''b'']"
    by (simp_all add: ord_of_def)
  ultimately show ?thesis by (simp add: escape_char_def)
qed

lemma printable_str: "printable (render_str s)"
proof -
  have "printable (concat (map escape_char s))" by (induction s) (simp_all add: printable_escape)
  then show ?thesis by (simp add: render_str_def)
qed

lemma printable_join: "printable sep \<Longrightarrow> list_all printable xs \<Longrightarrow> printable (join_with sep xs)"
  by (induction sep xs rule: join_with.induct) auto

lemma printable_int: "printable (int_text i)"
proof -
  have "printable (nat_text n)" for n
    using nat_text_digits[of n] unfolding printable_def
    by (rule list.pred_mono_strong) (simp add: is_digit_ascii_def)
  then show ?thesis by (simp add: int_text_def)
qed

lemma segment_alphabet: "list_all segment_char url_alphabet" "list_all (\<lambda>c. ord_of c < 128) url_alphabet"
  by code_simp+

lemma segment_chars: "c \<in> set url_alphabet \<Longrightarrow> segment_char c \<and> ord_of c < 128 \<and> c \<noteq> CHR ''.''"
proof -
  assume c: "c \<in> set url_alphabet"
  have "CHR ''.'' \<notin> set url_alphabet" by (simp add: url_alphabet_def)
  then show ?thesis using c segment_alphabet by (auto simp: list_all_iff)
qed

lemma decode_segment_b64url: "bs \<noteq> [] \<Longrightarrow> length (b64url bs) \<le> 4096 \<Longrightarrow> decode_segment (b64url bs) = Some bs"
  using b64url_shape[of bs] b64url_decode[of bs] segment_chars
  by (auto simp: decode_segment_def list_all_iff)

text \<open>Code points the JSON of a payload uses: the keys, strings, integers and brackets are printable.\<close>

fun plain_json :: "json \<Rightarrow> bool" where
  "plain_json (JStr s) = True"
| "plain_json (JInt i) = True"
| "plain_json (JArr vs) = list_all plain_json vs"
| "plain_json (JObj kvs) = (dict_ok kvs \<and> list_all (\<lambda>(k, v). plain_json v) kvs)"
| "plain_json v = False"

lemma plain_wf: "plain_json v \<Longrightarrow> wf_json v"
  by (induction v rule: plain_json.induct) (auto simp: list_all_iff)

lemma printable_render: "plain_json v \<Longrightarrow> printable (render v)"
proof (induction v rule: plain_json.induct)
  case (3 vs)
  then show ?case by (auto simp: list_all_iff intro!: printable_join)
next
  case (4 kvs)
  have "printable (render_str k @ '':'' @ render v)" if "(k, v) \<in> set kvs" for k v
    using 4 that by (auto simp: list_all_iff printable_str)
  then show ?case by (auto simp: list_all_iff intro!: printable_join)
qed (simp_all add: printable_str printable_int)

lemma plain_jsort: "plain_json v \<Longrightarrow> plain_json (jsort v)"
proof (induction v rule: plain_json.induct)
  case (4 kvs)
  have "dict_ok (map (\<lambda>(k, v). (k, jsort v)) kvs) = dict_ok kvs"
    by (simp add: dict_ok_def comp_def case_prod_unfold)
  moreover have "dict_ok (sort_key fst xs) = dict_ok xs" for xs :: "(string \<times> json) list"
    unfolding dict_ok_def distinct_map by (auto simp: inj_on_def distinct_sort)
  ultimately show ?case using 4 by (auto simp: list_all_iff)
qed (auto simp: list_all_iff)

lemma jget_jsort: "dict_ok kvs \<Longrightarrow> jget (jsort (JObj kvs)) k = map_option jsort (map_of kvs k)"
proof -
  assume "dict_ok kvs"
  then have "dict_ok (map (\<lambda>(k, v). (k, jsort v)) kvs)" by (simp add: dict_ok_def comp_def case_prod_unfold)
  then show ?thesis by (simp only: jsort.simps jget.simps map_of_sort_key map_of_jsort)
qed

lemma utf8_nonempty: "s \<noteq> [] \<Longrightarrow> utf8 s \<noteq> []"
  by (cases s) (auto simp: utf8_def utf8_char_def Let_def)

text \<open>What the relay relies on: \<open>json.loads\<close> reads printable ASCII bytes as themselves, and a MAC is not
  empty.\<close>

definition relay_env_ok :: "relay_env \<Rightarrow> bool" where
  "relay_env_ok R \<longleftrightarrow> (\<forall>s. printable s \<longrightarrow> rl_text R (utf8 s) = Some s) \<and> (\<forall>k m. rl_hmac R k m \<noteq> [])"

lemma b64url_no_dot: "CHR ''.'' \<notin> set (b64url bs)" "list_all (\<lambda>c. ord_of c < 128) (b64url bs)"
  using b64url_shape(2)[of bs] segment_chars by (auto simp: list_all_iff)

lemma signed_payload_encoded:
  assumes R: "relay_env_ok R" and j: "plain_json payload" "payload = JObj kvs"
    and len: "length (encode_segment payload @ ''.'' @ b64url (rl_hmac R key (utf8 (encode_segment payload)))) \<le> 4096"
  shows "signed_payload R key (encode_segment payload @ ''.'' @ b64url (rl_hmac R key (utf8 (encode_segment payload))))
    = Some (jsort payload)"
proof -
  let ?e = "encode_segment payload" and ?m = "rl_hmac R key (utf8 (encode_segment payload))"
  have sorted: "dumps_sorted payload = render (jsort payload)" by (simp add: dumps_sorted_def)
  have ne: "utf8 (dumps_sorted payload) \<noteq> []"
    by (intro utf8_nonempty) (simp add: dumps_sorted_def j(2))
  have e: "decode_segment ?e = Some (utf8 (dumps_sorted payload))"
    unfolding encode_segment_def using ne len by (intro decode_segment_b64url) (simp_all add: encode_segment_def)
  have m: "decode_segment (b64url ?m) = Some ?m"
    using R len by (intro decode_segment_b64url) (simp_all add: relay_env_ok_def)
  have "partition_at (CHR ''.'') (?e @ ''.'' @ b64url ?m) = (?e, True, b64url ?m)"
    using partition_at_append[of "CHR ''.''" ?e] b64url_no_dot by (simp add: encode_segment_def)
  moreover have "?e \<noteq> []" "b64url ?m \<noteq> []"
    using ne R b64url_shape(3) by (simp_all add: encode_segment_def relay_env_ok_def)
  moreover have "list_all (\<lambda>c. ord_of c < 128) ?e" using b64url_no_dot by (simp add: encode_segment_def)
  moreover have "rl_text R (utf8 (dumps_sorted payload)) = Some (dumps_sorted payload)"
    using R printable_render[OF plain_jsort[OF j(1)]] by (simp add: relay_env_ok_def sorted)
  moreover have "loads (dumps_sorted payload) = Some (jsort payload)"
    by (rule loads_dumps_sorted) (rule plain_wf[OF j(1)])
  ultimately show ?thesis using e m by (simp add: signed_payload_def)
qed

lemma payload_plain: "plain_json (capability_payload a n t j p b)"
  by (simp add: capability_payload_def dict_ok_def list_all_iff)

definition principal_ok :: "principal \<Rightarrow> bool" where
  "principal_ok p \<longleftrightarrow> p_tenant p \<noteq> [] \<and> p_actor p \<noteq> [] \<and> p_issuer p \<noteq> [] \<and> p_subject p \<noteq> []
     \<and> sorted (p_scopes p) \<and> distinct (p_scopes p)"

lemma payload_read_back:
  assumes p: "principal_ok p" and b: "relay_binding E tool args = Inr b" "cb_digest b \<noteq> []" "j \<noteq> []"
    and t: "iat \<le> now + 2" "now \<le> iat + ttl" "ttl \<le> 60"
  shows "payload_capability E audience now (jsort (capability_payload audience iat ttl j p b))
    = Some \<lparr>cp_principal = p, cp_binding = b\<rparr>"
proof -
  have d: "dict_ok [(''protocol'', JStr CAPABILITY_PROTOCOL), (''v'', JInt 1), (''aud'', JStr audience), (''iat'', JInt iat),
      (''exp'', JInt (iat + ttl)), (''jti'', JStr j), (''tenant_id'', JStr (p_tenant p)),
      (''actor_id'', JStr (p_actor p)), (''issuer'', JStr (p_issuer p)), (''subject'', JStr (p_subject p)),
      (''scopes'', JArr (map JStr (p_scopes p))), (''tool'', JStr (cb_tool b)),
      (''arguments_digest'', JStr (cb_digest b))]"
    by (simp add: dict_ok_def)
  have scopes: "map (jsort \<circ> JStr) xs = map JStr xs" "sort (remdups (map (scope_text \<circ> JStr) (p_scopes p))) = p_scopes p" for xs
    using p by (simp_all add: principal_ok_def comp_def sorted_sort_id)
  have tool: "cb_tool b \<in> {''artifact_read'', IDENTITY_RELAY_TOOL}" "cb_tool b \<noteq> []"
    "cb_tool b = IDENTITY_RELAY_TOOL \<Longrightarrow> cb_digest b = identity_relay_digest E"
    using b(1) by (auto simp: relay_binding_def err_simps IDENTITY_RELAY_TOOL_def split: if_splits)
  show ?thesis
    unfolding payload_capability_def payload_valid_def capability_payload_def jget_jsort[OF d] jget_none_def Let_def
    using p b(2,3) t tool
    by (simp add: scopes nonempty_text_def equals_one_def payload_times_ok_def jget_jsort[OF d] jget_none_def
        principal_ok_def list_all_iff)
qed

section \<open>Properties\<close>

lemma signed_issue_Inr:
  assumes "signed_issue E R p tool args s = (Inr token, s1)"
  shows "\<exists>b jti. relay_binding E tool args = Inr b \<and> jti = rl_token R (sg_draws s)
    \<and> sg_key s1 = sg_key s \<and> sg_audience s1 = sg_audience s
    \<and> (let e = encode_segment (capability_payload (sg_audience s) (whole (rl_time R (sg_reads s))) (whole (sg_ttl s)) jti p b)
       in token = e @ ''.'' @ b64url (rl_hmac R (sg_key s) (utf8 e)))"
  using assms by (auto simp: signed_issue_def err_simps signed_time_def Let_def)

lemma issued_resolves:
  assumes env: "relay_env_ok R" and issued: "signed_issue E R p tool args s = (Inr token, s1)"
    and p: "principal_ok p" "rl_token R (sg_draws s) \<noteq> []" "\<And>m. sha256_hex E m \<noteq> []"
    and len: "length token \<le> 4096" and ttl: "sg_ttl s \<le> 60"
    and same: "sg_key t = sg_key s" "sg_audience t = sg_audience s"
    and free: "map_of (filter (\<lambda>(_, expires_at). \<not> expires_at \<le> rl_time R (sg_reads t)) (sg_revoked t)) (token_digest E token) = None"
    and time: "whole (rl_time R (sg_reads s)) \<le> whole (rl_time R (Suc (sg_reads t))) + 2"
      "whole (rl_time R (Suc (sg_reads t))) \<le> whole (rl_time R (sg_reads s)) + whole (sg_ttl s)"
  shows "\<exists>b. relay_binding E tool args = Inr b
    \<and> fst (signed_resolve_capability E R token t) = Inr (Some \<lparr>cp_principal = p, cp_binding = b\<rparr>)"
proof -
  let ?j = "rl_token R (sg_draws s)" and ?iat = "whole (rl_time R (sg_reads s))" and ?l = "whole (sg_ttl s)"
  obtain b where b: "relay_binding E tool args = Inr b" and
    token: "token = encode_segment (capability_payload (sg_audience s) ?iat ?l ?j p b)
      @ ''.'' @ b64url (rl_hmac R (sg_key s) (utf8 (encode_segment (capability_payload (sg_audience s) ?iat ?l ?j p b))))"
    using signed_issue_Inr[OF issued] by (auto simp: Let_def)
  have dots: "length (filter (\<lambda>c. c = CHR ''.'') token) = 1"
  proof -
    have "filter (\<lambda>c. c = CHR ''.'') (b64url bs) = []" for bs using b64url_no_dot by (auto simp: filter_empty_conv)
    then show ?thesis unfolding token encode_segment_def by simp
  qed
  have digest: "cb_digest b \<noteq> []"
    using b p(3) by (auto simp: relay_binding_def err_simps identity_relay_digest_def capability_arguments_digest_def
        split: if_splits)
  have payload: "signed_payload R (sg_key s) token = Some (jsort (capability_payload (sg_audience s) ?iat ?l ?j p b))"
    using signed_payload_encoded[OF env payload_plain capability_payload_def] len unfolding token by simp
  have l: "?l \<le> 60" using ttl by (simp add: whole_def floor_le_iff)
  have read: "payload_capability E (sg_audience s) (whole (rl_time R (Suc (sg_reads t))))
      (jsort (capability_payload (sg_audience s) ?iat ?l ?j p b)) = Some \<lparr>cp_principal = p, cp_binding = b\<rparr>"
    by (rule payload_read_back[OF p(1) b digest p(2) time l])
  have obj: "jis_obj (jsort (capability_payload (sg_audience s) ?iat ?l ?j p b))" by (simp add: capability_payload_def)
  show ?thesis using b len dots free payload read obj same
    by (simp add: signed_resolve_capability_def mbind_def mget_def mret_def signed_purge_def signed_time_def)
qed

text \<open>a signed capability comes back as it was issued: for any later state of the relay with the same key
  and audience in which the token is not on the denylist, resolving it within its life returns the
  principal it was issued for and the tool and argument digest it was bound to.\<close>

theorem signed_capability_roundtrip:
  assumes env: "relay_env_ok R" and issued: "signed_issue E R p tool args s = (Inr token, s1)"
    and p: "principal_ok p" "rl_token R (sg_draws s) \<noteq> []" "\<And>m. sha256_hex E m \<noteq> []"
    and len: "length token \<le> 4096" and ttl: "sg_ttl s \<le> 60"
    and same: "sg_key t = sg_key s" "sg_audience t = sg_audience s"
    and free: "map_of (filter (\<lambda>(_, expires_at). \<not> expires_at \<le> rl_time R (sg_reads t)) (sg_revoked t)) (token_digest E token) = None"
    and time: "whole (rl_time R (sg_reads s)) \<le> whole (rl_time R (Suc (sg_reads t))) + 2"
      "whole (rl_time R (Suc (sg_reads t))) \<le> whole (rl_time R (sg_reads s)) + whole (sg_ttl s)"
  shows "\<exists>b. relay_binding E tool args = Inr b
    \<and> fst (signed_resolve_capability E R token t) = Inr (Some \<lparr>cp_principal = p, cp_binding = b\<rparr>)"
  using issued_resolves[OF assms] .

text \<open>The denylist keeps an entry for 60 seconds, which a token of the longest life can outlast: issued within
  a second and revoked at once, it resolves again at the end of its last second.\<close>

lemma revocation_lapses:
  assumes env: "relay_env_ok R" and issued: "signed_issue E R p tool args s = (Inr token, s1)"
    and p: "principal_ok p" "rl_token R (sg_draws s) \<noteq> []" "\<And>m. sha256_hex E m \<noteq> []"
    and len: "length token \<le> 4096" "token \<noteq> []" and ttl: "sg_ttl s = 60" and none: "sg_revoked s = []"
    and revoked: "signed_revoke E R token s1 = (Inr (), t)"
    and time: "rl_time R (Suc (Suc (sg_reads s))) + 60 \<le> rl_time R (sg_reads t)"
      "whole (rl_time R (Suc (sg_reads t))) \<le> whole (rl_time R (sg_reads s)) + 60"
      "whole (rl_time R (sg_reads s)) \<le> whole (rl_time R (Suc (sg_reads t)))"
  shows "\<exists>c. fst (signed_resolve_capability E R token t) = Inr (Some c)"
proof -
  have s1: "s1 = s\<lparr>sg_reads := Suc (sg_reads s), sg_draws := Suc (sg_draws s)\<rparr>"
    using issued by (auto simp: signed_issue_def err_simps signed_time_def)
  have "t = s1\<lparr>sg_reads := Suc (Suc (sg_reads s1)),
      sg_revoked := [(token_digest E token, rl_time R (Suc (sg_reads s1)) + 60)]\<rparr>"
    using revoked len none s1
    by (auto simp: signed_revoke_def mbind_def mret_def signed_purge_def signed_time_def split: if_splits)
  then have t: "sg_key t = sg_key s" "sg_audience t = sg_audience s"
    "sg_revoked t = [(token_digest E token, rl_time R (Suc (Suc (sg_reads s))) + 60)]" using s1 by simp_all
  have "\<exists>b. relay_binding E tool args = Inr b
      \<and> fst (signed_resolve_capability E R token t) = Inr (Some \<lparr>cp_principal = p, cp_binding = b\<rparr>)"
    using time by (intro issued_resolves[OF env issued p len(1) _ t(1,2)]) (simp_all add: ttl t(3) whole_def)
  then show ?thesis by blast
qed

lemma payload_capability_Some:
  assumes "payload_capability E audience now j = Some c"
  shows "payload_valid E audience now j" "p_tenant (cp_principal c) = scope_text (jget_none j ''tenant_id'')"
    "p_actor (cp_principal c) = scope_text (jget_none j ''actor_id'')"
    "cb_tool (cp_binding c) = scope_text (jget_none j ''tool'')"
  using assms unfolding payload_capability_def Let_def
  by (simp_all split: if_splits option.splits json.splits) (metis capability.select_convs capability_binding.select_convs principal.select_convs)+

lemma nonempty_text_value: "nonempty_text (jget j k) \<Longrightarrow> jget j k = Some (JStr (scope_text (jget_none j k)))"
  by (auto simp: nonempty_text_def jget_none_def split: option.splits json.splits)

lemma signed_resolve_Some:
  assumes "signed_resolve_capability E R token s = (Inr (Some c), s')"
  shows "length (filter (\<lambda>c. c = CHR ''.'') token) = 1" "map_of (sg_revoked s') (token_digest E token) = None"
    "\<exists>j. signed_payload R (sg_key s) token = Some j
      \<and> payload_capability E (sg_audience s) (whole (rl_time R (Suc (sg_reads s)))) j = Some c"
proof -
  have c: "\<not> (length token > 4096 \<or> length (filter (\<lambda>c. c = CHR ''.'') token) \<noteq> 1)"
  proof
    assume "length token > 4096 \<or> length (filter (\<lambda>c. c = CHR ''.'') token) \<noteq> 1"
    then show False using assms unfolding signed_resolve_capability_def by (simp only: if_True mret_def) simp
  qed
  then show "length (filter (\<lambda>c. c = CHR ''.'') token) = 1" by simp
  let ?f = "filter (\<lambda>(_, expires_at). \<not> expires_at \<le> rl_time R (sg_reads s)) (sg_revoked s)"
  have run: "(if map_of ?f (token_digest E token) \<noteq> None then mret None else
      mbind (mget (\<lambda>s. signed_payload R (sg_key s) token)) (\<lambda>payload.
      case payload of None \<Rightarrow> mret None
      | Some j \<Rightarrow> if \<not> jis_obj j then mret None
          else mbind (signed_time R) (\<lambda>now. mget (\<lambda>s. payload_capability E (sg_audience s) (whole now) j))))
      (s\<lparr>sg_reads := Suc (sg_reads s), sg_revoked := ?f\<rparr>) = (Inr (Some c), s')"
    using assms c unfolding signed_resolve_capability_def
    by (simp only: if_False) (simp add: mbind_def mget_def signed_purge_def signed_time_def)
  have free: "map_of ?f (token_digest E token) = None"
    using run by (cases "map_of ?f (token_digest E token)") (simp_all add: mret_def)
  then have "map_of (sg_revoked s') (token_digest E token) = None
      \<and> (\<exists>j. signed_payload R (sg_key s) token = Some j
        \<and> payload_capability E (sg_audience s) (whole (rl_time R (Suc (sg_reads s)))) j = Some c)"
    using run
    by (cases "signed_payload R (sg_key s) token") (auto simp: mbind_def mget_def mret_def signed_time_def split: if_splits)
  then show "map_of (sg_revoked s') (token_digest E token) = None"
    "\<exists>j. signed_payload R (sg_key s) token = Some j
        \<and> payload_capability E (sg_audience s) (whole (rl_time R (Suc (sg_reads s)))) j = Some c" by simp_all
qed

text \<open>C11: nothing resolves without the key. A capability is returned only for a token whose signature is the MAC
  of its first part under the relay's key, whose payload names this protocol in its version 1 and this audience,
  was issued at most a minute before its end and has not ended, and which is not on the denylist; it is bound to
  \<open>artifact_read\<close> or to the identity hand-off.\<close>

theorem capability_needs_signature:
  assumes "signed_resolve_capability E R token s = (Inr (Some c), s')"
  shows "\<exists>encoded signature payload iat ex. partition_at (CHR ''.'') token = (encoded, True, signature)
    \<and> decode_segment signature = Some (rl_hmac R (sg_key s) (utf8 encoded))
    \<and> (\<exists>raw text. decode_segment encoded = Some raw \<and> rl_text R raw = Some text \<and> loads text = Some payload)
    \<and> jget payload ''protocol'' = Some (JStr CAPABILITY_PROTOCOL) \<and> equals_one (jget_none payload ''v'')
    \<and> jget payload ''aud'' = Some (JStr (sg_audience s))
    \<and> int_like (jget_none payload ''iat'') = Some iat \<and> int_like (jget_none payload ''exp'') = Some ex
    \<and> ex - iat \<le> 60 \<and> whole (rl_time R (Suc (sg_reads s))) \<le> ex \<and> iat \<le> whole (rl_time R (Suc (sg_reads s))) + 2
    \<and> map_of (sg_revoked s') (token_digest E token) = None
    \<and> jget payload ''tenant_id'' = Some (JStr (p_tenant (cp_principal c)))
    \<and> jget payload ''actor_id'' = Some (JStr (p_actor (cp_principal c)))
    \<and> cb_tool (cp_binding c) \<in> {''artifact_read'', IDENTITY_RELAY_TOOL}"
proof -
  obtain j where j: "signed_payload R (sg_key s) token = Some j"
      "payload_capability E (sg_audience s) (whole (rl_time R (Suc (sg_reads s)))) j = Some c"
    using signed_resolve_Some(3)[OF assms] by blast
  have "CHR ''.'' \<in> set token"
  proof (rule ccontr)
    assume "CHR ''.'' \<notin> set token"
    then have "filter (\<lambda>c. c = CHR ''.'') token = []" by (auto simp: filter_empty_conv)
    then show False using signed_resolve_Some(1)[OF assms] by simp
  qed
  then obtain encoded signature where part: "partition_at (CHR ''.'') token = (encoded, True, signature)"
    by (metis split_list_first partition_at_append)
  have sig: "decode_segment signature = Some (rl_hmac R (sg_key s) (utf8 encoded))"
    and raw: "\<exists>raw text. decode_segment encoded = Some raw \<and> rl_text R raw = Some text \<and> loads text = Some j"
    using j(1) part by (auto simp: signed_payload_def split: if_splits option.splits)
  note v = payload_capability_Some[OF j(2)]
  have times: "payload_times_ok (whole (rl_time R (Suc (sg_reads s)))) j"
    and protocol: "jget j ''protocol'' = Some (JStr CAPABILITY_PROTOCOL)" "equals_one (jget_none j ''v'')"
    and aud: "jget j ''aud'' = Some (JStr (sg_audience s))"
    and tool: "cb_tool (cp_binding c) \<in> {''artifact_read'', IDENTITY_RELAY_TOOL}"
    and who: "nonempty_text (jget j ''tenant_id'')" "nonempty_text (jget j ''actor_id'')"
    using v(1) unfolding payload_valid_def v(4) by simp_all
  have names: "jget j ''tenant_id'' = Some (JStr (p_tenant (cp_principal c)))"
      "jget j ''actor_id'' = Some (JStr (p_actor (cp_principal c)))"
    unfolding v(2,3) by (rule nonempty_text_value[OF who(1)], rule nonempty_text_value[OF who(2)])
  have free: "map_of (sg_revoked s') (token_digest E token) = None" by (rule signed_resolve_Some(2)[OF assms])
  obtain iat ex where "int_like (jget_none j ''iat'') = Some iat" "int_like (jget_none j ''exp'') = Some ex"
    "ex - iat \<le> 60" "whole (rl_time R (Suc (sg_reads s))) \<le> ex" "iat \<le> whole (rl_time R (Suc (sg_reads s))) + 2"
    using times by (auto simp: payload_times_ok_def split: option.splits)
  then show ?thesis using part sig raw protocol aud free names tool by blast
qed

section \<open>What a client may rely on\<close>

text \<open>Either relay: once revoked, a token resolves to nothing, as long as the clock allows (\<open>prompt\<close>).\<close>

locale capability_relay =
  fixes issue :: "principal \<Rightarrow> string \<Rightarrow> (string \<times> json) list \<Rightarrow> ('r, string) action"
    and revoke :: "string \<Rightarrow> ('r, unit) action"
    and resolve :: "string \<Rightarrow> ('r, capability option) action"
    and prompt :: "'r \<Rightarrow> bool"
  assumes revoke_returns: "\<exists>s'. revoke t s = (Inr (), s')"
    and revoked_dead: "prompt s \<Longrightarrow> revoke t s = (Inr (), s') \<Longrightarrow> fst (resolve t s') = Inr None"
begin

lemma call_closes:
  assumes "relayed_call issue revoke transport n tool args p s = (r, s')"
    and "(if tool = ''artifact_read'' then issue p tool args else issue p IDENTITY_RELAY_TOOL []) s = (Inr token, u)"
    and "prompt u"
  shows "fst (resolve token s') = Inr None"
proof -
  obtain v where v: "revoke token u = (Inr (), v)" using revoke_returns by blast
  then have "s' = v" using assms(1,2) by (simp add: relayed_call_def mbind_def mlift_def)
  then show ?thesis using revoked_dead[OF assms(3) v] by simp
qed

end

interpretation trusted: capability_relay "trusted_issue E R" "trusted_revoke E" "trusted_resolve_capability E R" "\<lambda>_. True"
  for E R
proof
  fix t s s'
  show "\<exists>s'. trusted_revoke E t s = (Inr (), s')" by (simp add: trusted_revoke_def)
  assume "trusted_revoke E t s = (Inr (), s')"
  then have d: "map_of (tr_tokens s') (token_digest E t) = None"
    by (auto simp: trusted_revoke_def map_of_eq_None_iff set_delete)
  have "map_of (filter P (tr_tokens s')) (token_digest E t) = None" for P
    using d by (auto simp: map_of_eq_None_iff)
  then show "fst (trusted_resolve_capability E R t s') = Inr None"
    by (simp add: trusted_resolve_capability_def trusted_purge_def trusted_time_def mbind_def mget_def mret_def)
qed

definition prompt_clock :: "relay_env \<Rightarrow> signed_relay \<Rightarrow> bool" where
  "prompt_clock R s \<longleftrightarrow> rl_time R (Suc (Suc (sg_reads s))) < rl_time R (Suc (sg_reads s)) + 60"

interpretation signed_caps: capability_relay "signed_issue E R" "signed_revoke E R" "signed_resolve_capability E R"
  "prompt_clock R" for E R
proof
  fix t s s'
  show "\<exists>s'. signed_revoke E R t s = (Inr (), s')"
    by (simp add: signed_revoke_def signed_purge_def signed_time_def mbind_def mret_def)
  assume p: "prompt_clock R s" and r: "signed_revoke E R t s = (Inr (), s')"
  show "fst (signed_resolve_capability E R t s') = Inr None"
  proof (cases "t = [] \<or> length t > 4096")
    case True
    then show ?thesis by (auto simp: signed_resolve_capability_def mret_def)
  next
    case False
    let ?x = "rl_time R (Suc (sg_reads s)) + 60"
    have s': "sg_reads s' = Suc (Suc (sg_reads s))" "map_of (sg_revoked s') (token_digest E t) = Some ?x"
      "(token_digest E t, ?x) \<in> set (sg_revoked s')"
      using r False
      by (auto simp: signed_revoke_def mbind_def signed_purge_def signed_time_def update_conv' intro!: map_of_SomeD)
    then have "map_of (filter (\<lambda>(_, expires_at). \<not> expires_at \<le> rl_time R (Suc (Suc (sg_reads s)))) (sg_revoked s'))
        (token_digest E t) \<noteq> None"
    proof -
      let ?kept = "filter (\<lambda>(_, expires_at). \<not> expires_at \<le> rl_time R (Suc (Suc (sg_reads s)))) (sg_revoked s')"
      have "(token_digest E t, ?x) \<in> set ?kept" using s'(3) p by (simp add: prompt_clock_def)
      then have "token_digest E t \<in> fst ` set ?kept" by (metis fst_conv image_eqI)
      then show ?thesis by (simp only: map_of_eq_None_iff not_not)
    qed
    then show ?thesis using s'(1)
      by (auto simp: signed_resolve_capability_def mbind_def mget_def mret_def signed_purge_def signed_time_def)
  qed
qed

text \<open>a call through the signed relay leaves no capability behind: whatever the endpoint answers, and also
  when the call times out or fails, the token it carried resolves to nothing afterwards, for the minute
  the denylist remembers it.\<close>

theorem relayed_call_closes:
  assumes "relayed_call (signed_issue E R) (signed_revoke E R) transport n tool args p s = (r, s')"
    and "(if tool = ''artifact_read'' then signed_issue E R p tool args
      else signed_issue E R p IDENTITY_RELAY_TOOL []) s = (Inr token, u)"
    and "prompt_clock R u"
  shows "fst (signed_resolve_capability E R token s') = Inr None"
  using signed_caps.call_closes[OF assms] .

section \<open>Witnesses\<close>

definition sample_env :: env where
  "sample_env = env0\<lparr>sha256_hex := (\<lambda>b. ''h'')\<rparr>"

definition sample_relay_env :: relay_env where
  "sample_relay_env = \<lparr>rl_hmac = (\<lambda>k m. [7]), rl_token = (\<lambda>n. ''j''), rl_time = of_nat,
     rl_text = (\<lambda>b. Some (map (\<lambda>x. char_of (unat x)) b))\<rparr>"

lemma utf8_printable: "printable s \<Longrightarrow> map (\<lambda>x. char_of (unat x)) (utf8 s) = s"
proof (induction s)
  case (Cons c s)
  have "unat (word_of_nat (ord_of c) :: 8 word) = ord_of c" using ord_of_less[of c] by (simp add: unat_of_nat)
  then show ?case using Cons by (simp add: utf8_def utf8_char_def Let_def)
qed (simp add: utf8_def)

lemma sample_relay_ok: "relay_env_ok sample_relay_env"
  by (simp add: relay_env_ok_def sample_relay_env_def utf8_printable)

definition sample_signed :: signed_relay where
  "sample_signed = \<lparr>sg_endpoint = ''e'', sg_audience = ''a'', sg_key = [], sg_ttl = 15, sg_revoked = [], sg_draws = 0, sg_reads = 0\<rparr>"

definition sample_binding :: capability_binding where
  "sample_binding = \<lparr>cb_tool = IDENTITY_RELAY_TOOL, cb_digest = ''h''\<rparr>"

definition sample_payload :: json where
  "sample_payload = capability_payload ''a'' 0 15 ''j'' (sample_principal ''s'') sample_binding"

definition sample_capability :: string where
  "sample_capability = encode_segment sample_payload @ ''.'' @ b64url [7]"

lemma length_b64: "length (b64_encode al bs) \<le> 2 * length bs + 4"
  by (induction al bs rule: b64_encode.induct) simp_all

lemma length_b64url: "length (b64url bs) \<le> 2 * length bs + 4"
proof -
  have "length (unpad s) \<le> length s" for s
    unfolding unpad_def by (metis length_dropWhile_le length_rev)
  then show ?thesis unfolding b64url_def using length_b64 order_trans by blast
qed

lemma length_utf8: "length (utf8 s) \<le> 2 * length s"
  by (induction s) (auto simp: utf8_def utf8_char_def Let_def)

lemma sample_dumps: "length (dumps_sorted sample_payload) \<le> 400"
  by code_simp

lemma sample_short: "length sample_capability \<le> 4096"
  using length_b64url[of "utf8 (dumps_sorted sample_payload)"] length_utf8[of "dumps_sorted sample_payload"]
    length_b64url[of "[7]"] sample_dumps
  unfolding sample_capability_def encode_segment_def by simp

lemma sample_bound: "relay_binding sample_env IDENTITY_RELAY_TOOL [] = Inr sample_binding"
  by (simp add: relay_binding_def identity_relay_digest_def sample_env_def sample_binding_def)

definition sample_signed_after :: signed_relay where
  "sample_signed_after = sample_signed\<lparr>sg_draws := 1, sg_reads := 1\<rparr>"

lemma sample_issued:
  "signed_issue sample_env sample_relay_env (sample_principal ''s'') IDENTITY_RELAY_TOOL [] sample_signed
     = (Inr sample_capability, sample_signed_after)"
  by (simp add: signed_issue_def sample_bound action_defs signed_time_def sample_relay_env_def sample_signed_def
      whole_def sample_capability_def sample_payload_def sample_signed_after_def Let_def)

lemma sample_principal_ok: "principal_ok (sample_principal ''s'')"
  by (simp add: principal_ok_def sample_principal_def)

theorem signed_capability_roundtrip_witness:
  "\<exists>b. relay_binding sample_env IDENTITY_RELAY_TOOL [] = Inr b
     \<and> fst (signed_resolve_capability sample_env sample_relay_env sample_capability sample_signed_after)
       = Inr (Some \<lparr>cp_principal = sample_principal ''s'', cp_binding = b\<rparr>)"
  by (rule signed_capability_roundtrip[OF sample_relay_ok sample_issued sample_principal_ok _ _ sample_short])
    (simp_all add: sample_relay_env_def sample_env_def sample_signed_def sample_signed_after_def whole_def)

lemma sample_resolves:
  "\<exists>s'. signed_resolve_capability sample_env sample_relay_env sample_capability sample_signed_after
     = (Inr (Some \<lparr>cp_principal = sample_principal ''s'', cp_binding = sample_binding\<rparr>), s')"
proof -
  have "\<exists>b. relay_binding sample_env IDENTITY_RELAY_TOOL [] = Inr b
     \<and> fst (signed_resolve_capability sample_env sample_relay_env sample_capability sample_signed_after)
       = Inr (Some \<lparr>cp_principal = sample_principal ''s'', cp_binding = b\<rparr>)"
    by (rule issued_resolves[OF sample_relay_ok sample_issued sample_principal_ok _ _ sample_short])
      (simp_all add: sample_relay_env_def sample_env_def sample_signed_def sample_signed_after_def whole_def)
  then show ?thesis by (metis sample_bound sum.inject(2) prod.collapse)
qed

theorem capability_needs_signature_witness:
  "\<exists>encoded signature. partition_at (CHR ''.'') sample_capability = (encoded, True, signature)
     \<and> decode_segment signature = Some (rl_hmac sample_relay_env (sg_key sample_signed_after) (utf8 encoded))"
proof -
  obtain s' where "signed_resolve_capability sample_env sample_relay_env sample_capability sample_signed_after
     = (Inr (Some \<lparr>cp_principal = sample_principal ''s'', cp_binding = sample_binding\<rparr>), s')"
    using sample_resolves by blast
  from capability_needs_signature[OF this] show ?thesis by blast
qed

theorem relayed_call_closes_witness:
  "fst (signed_resolve_capability sample_env sample_relay_env sample_capability
     (snd (relayed_call (signed_issue sample_env sample_relay_env) (signed_revoke sample_env sample_relay_env)
       (\<lambda>t tool args. TimedOut) 10 ''artifact_list'' [] (sample_principal ''s'') sample_signed))) = Inr None"
  (is "fst (signed_resolve_capability _ _ _ (snd ?run)) = _")
proof (rule relayed_call_closes)
  show "?run = (fst ?run, snd ?run)" by simp
  show "(if ''artifact_list'' = ''artifact_read'' then signed_issue sample_env sample_relay_env (sample_principal ''s'') ''artifact_list'' []
      else signed_issue sample_env sample_relay_env (sample_principal ''s'') IDENTITY_RELAY_TOOL []) sample_signed
    = (Inr sample_capability, sample_signed_after)"
    by (simp add: sample_issued)
  show "prompt_clock sample_relay_env sample_signed_after"
    by (simp add: prompt_clock_def sample_relay_env_def)
qed

end
