(* ===== verification/Bridge.thy ===== *)
theory Bridge
  imports Relay
begin

text \<open>
  \<open>sandbox.py\<close> and \<open>bridge.py\<close>: the headers of a sandboxed artifact, the operations attached to a
  sandbox, the validation of what the sandboxed page asks for, and the authorised, audited call of one
  read-only tool. The MCP caller behind the bridge and the monotonic clock are parameters; the log is the
  list of the records written so far.
\<close>

section \<open>The sandbox\<close>

definition sandbox_headers :: "string \<Rightarrow> (string \<times> string) list" where
  "sandbox_headers frame_ancestor =
     [(''Content-Security-Policy'', join_with ''; ''
        [''default-src '' @ [CHR 0x27] @ ''none'' @ [CHR 0x27], ''base-uri '' @ [CHR 0x27] @ ''none'' @ [CHR 0x27],
         ''connect-src '' @ [CHR 0x27] @ ''none'' @ [CHR 0x27], ''child-src '' @ [CHR 0x27] @ ''none'' @ [CHR 0x27],
         ''font-src '' @ [CHR 0x27] @ ''none'' @ [CHR 0x27], ''form-action '' @ [CHR 0x27] @ ''none'' @ [CHR 0x27],
         ''frame-ancestors '' @ frame_ancestor, ''frame-src '' @ [CHR 0x27] @ ''none'' @ [CHR 0x27],
         ''img-src data: blob:'', ''manifest-src '' @ [CHR 0x27] @ ''none'' @ [CHR 0x27],
         ''media-src '' @ [CHR 0x27] @ ''none'' @ [CHR 0x27], ''navigate-to '' @ [CHR 0x27] @ ''none'' @ [CHR 0x27],
         ''object-src '' @ [CHR 0x27] @ ''none'' @ [CHR 0x27], ''sandbox allow-scripts'',
         ''script-src '' @ [CHR 0x27] @ ''self'' @ [CHR 0x27] @ '' '' @ [CHR 0x27] @ ''unsafe-inline'' @ [CHR 0x27],
         ''style-src '' @ [CHR 0x27] @ ''self'' @ [CHR 0x27] @ '' '' @ [CHR 0x27] @ ''unsafe-inline'' @ [CHR 0x27],
         ''worker-src '' @ [CHR 0x27] @ ''none'' @ [CHR 0x27]]),
      (''Cross-Origin-Opener-Policy'', ''same-origin''),
      (''Cross-Origin-Resource-Policy'', ''cross-origin''),
      (''Referrer-Policy'', ''no-referrer''),
      (''X-Content-Type-Options'', ''nosniff''),
      (''Permissions-Policy'', ''camera=(), clipboard-read=(), clipboard-write=(), geolocation=(), ''
        @ ''microphone=(), payment=(), usb=()''),
      (''Cache-Control'', ''no-store'')]"

record attachment =
  mc_name :: string
  mc_operations :: "string list"

text \<open>The dictionary of a boundary: the default attachment first, later ones of the same name win.\<close>

definition default_attachment :: attachment where
  "default_attachment = \<lparr>mc_name = ''folio-lattice'',
     mc_operations = [''artifact_read'', ''artifact_search'', ''graph_traverse'']\<rparr>"

definition capability_boundary :: "attachment list \<Rightarrow> (string \<times> attachment) list" where
  "capability_boundary attachments =
     fold (\<lambda>a d. AList.update (mc_name a) a d) (default_attachment # attachments) []"

definition boundary_authorize :: "(string \<times> attachment) list \<Rightarrow> string \<Rightarrow> string \<Rightarrow> bool" where
  "boundary_authorize b mcp_name operation =
     (case map_of b mcp_name of None \<Rightarrow> False | Some a \<Rightarrow> operation \<in> set (mc_operations a))"

definition boundary_require :: "(string \<times> attachment) list \<Rightarrow> string \<Rightarrow> string \<Rightarrow> py_exn + unit" where
  "boundary_require b mcp_name operation =
     guard_raise (\<not> boundary_authorize b mcp_name operation)
       (PermissionError (''MCP capability not attached: '' @ mcp_name @ ''/'' @ operation))"

section \<open>Requests of a sandboxed page\<close>

definition BRIDGE_TOOLS :: "string list" where
  "BRIDGE_TOOLS = [''artifact_read'', ''artifact_search'', ''graph_traverse'']"

definition MAX_BRIDGE_ARGUMENT_BYTES :: nat where "MAX_BRIDGE_ARGUMENT_BYTES = 32 * 1024"
definition MAX_BRIDGE_RESULT_BYTES :: nat where "MAX_BRIDGE_RESULT_BYTES = 1024 * 1024"
definition MAX_BRIDGE_REQUEST_ID :: nat where "MAX_BRIDGE_REQUEST_ID = 100"
definition MAX_ID_LENGTH :: nat where "MAX_ID_LENGTH = 255"

type_synonym json_args = "(string \<times> json) list"

record bridge_request =
  bq_id :: string
  bq_artifact :: string
  bq_attachment :: string
  bq_tool :: string
  bq_args :: json_args

definition invalid_request :: "string \<Rightarrow> py_exn" where
  "invalid_request message = BridgeRequestError message ''invalid_request''"

definition bounded_string :: "json \<Rightarrow> string \<Rightarrow> nat \<Rightarrow> py_exn + string" where
  "bounded_string v field maximum =
     (case v of
        JStr s \<Rightarrow> if s = [] \<or> length s > maximum
          then Inl (invalid_request (field @ '' must be a non-empty bounded string'')) else Inr s
      | _ \<Rightarrow> Inl (invalid_request (field @ '' must be a non-empty bounded string'')))"

definition bounded_integer :: "json \<Rightarrow> string \<Rightarrow> int \<Rightarrow> int \<Rightarrow> py_exn + int" where
  "bounded_integer v field minimum maximum =
     (let e = invalid_request (field @ '' must be between '' @ int_text minimum @ '' and '' @ int_text maximum) in
      case v of
        JInt i \<Rightarrow> if minimum \<le> i \<and> i \<le> maximum then Inr i else Inl e
      | _ \<Rightarrow> Inl e)"

text \<open>\<open>if key in arguments: result[key] = f(arguments[key])\<close>.\<close>

definition optional_arg :: "json_args \<Rightarrow> string \<Rightarrow> (json \<Rightarrow> py_exn + json_args) \<Rightarrow> py_exn + json_args" where
  "optional_arg args k f = (case map_of args k of None \<Rightarrow> Inr [] | Some v \<Rightarrow> f v)"

definition validate_tool_arguments :: "string \<Rightarrow> json_args \<Rightarrow> py_exn + json_args" where
  "validate_tool_arguments tool args =
     (if tool = ''artifact_read'' then
        (if \<not> set (map fst args) \<subseteq> {''artifact_id'', ''version_id''} \<or> map_of args ''artifact_id'' = None
         then Inl (invalid_request ''artifact_read arguments have invalid fields'')
         else ebind (bounded_string (the (map_of args ''artifact_id'')) ''artifact_id'' MAX_ID_LENGTH) (\<lambda>a.
           ebind (optional_arg args ''version_id'' (\<lambda>v. if v = JNull then Inr []
               else ebind (bounded_string v ''version_id'' MAX_ID_LENGTH) (\<lambda>s. Inr [(''version_id'', JStr s)]))) (\<lambda>rest.
           Inr ((''artifact_id'', JStr a) # rest))))
      else if tool = ''artifact_search'' then
        (if \<not> set (map fst args) \<subseteq> {''query'', ''limit''} \<or> map_of args ''query'' = None
         then Inl (invalid_request ''artifact_search arguments have invalid fields'')
         else ebind (bounded_string (the (map_of args ''query'')) ''query'' 500) (\<lambda>q.
           ebind (optional_arg args ''limit'' (\<lambda>v. ebind (bounded_integer v ''limit'' 1 100)
               (\<lambda>i. Inr [(''limit'', JInt i)]))) (\<lambda>rest.
           Inr ((''query'', JStr q) # rest))))
      else if tool = ''graph_traverse'' then
        (if \<not> set (map fst args) \<subseteq> {''start_artifact_id'', ''max_depth'', ''limit''}
           \<or> map_of args ''start_artifact_id'' = None
         then Inl (invalid_request ''graph_traverse arguments have invalid fields'')
         else ebind (bounded_string (the (map_of args ''start_artifact_id'')) ''start_artifact_id'' MAX_ID_LENGTH) (\<lambda>a.
           ebind (optional_arg args ''max_depth'' (\<lambda>v. ebind (bounded_integer v ''max_depth'' 0 10)
               (\<lambda>i. Inr [(''max_depth'', JInt i)]))) (\<lambda>depth.
           ebind (optional_arg args ''limit'' (\<lambda>v. ebind (bounded_integer v ''limit'' 1 500)
               (\<lambda>i. Inr [(''limit'', JInt i)]))) (\<lambda>limit.
           Inr ((''start_artifact_id'', JStr a) # depth @ limit)))))
      else Inr args)"

definition require_artifact_binding :: "string \<Rightarrow> string \<Rightarrow> json_args \<Rightarrow> py_exn + unit" where
  "require_artifact_binding tool artifact_id args =
     (let target = (if tool = ''artifact_read'' then Some (jget_none (JObj args) ''artifact_id'')
        else if tool = ''graph_traverse'' then Some (jget_none (JObj args) ''start_artifact_id'') else None)
      in guard_raise (target \<noteq> None \<and> target \<noteq> Some (JStr artifact_id))
        (BridgeRequestError ''bridge request does not target its attached artifact'' ''artifact_mismatch''))"

definition validate_bridge_request :: "json \<Rightarrow> py_exn + bridge_request" where
  "validate_bridge_request v =
     (case v of
        JObj kvs \<Rightarrow>
          if set (map fst kvs) \<noteq> {''request_id'', ''artifact_id'', ''attachment'', ''tool'', ''arguments''}
          then Inl (invalid_request ''bridge request has invalid fields'')
          else
            ebind (bounded_string (jget_none v ''request_id'') ''request_id'' MAX_BRIDGE_REQUEST_ID) (\<lambda>request_id.
            ebind (bounded_string (jget_none v ''artifact_id'') ''artifact_id'' MAX_ID_LENGTH) (\<lambda>artifact_id.
            ebind (bounded_string (jget_none v ''attachment'') ''attachment'' 100) (\<lambda>att.
            ebind (bounded_string (jget_none v ''tool'') ''tool'' 128) (\<lambda>tool.
            case jget_none v ''arguments'' of
              JObj args \<Rightarrow>
                (case dumps_strict (JObj args) of
                   None \<Rightarrow> Inl (invalid_request ''arguments must be valid JSON'')
                 | Some encoded \<Rightarrow>
                     if length (utf8 encoded) > MAX_BRIDGE_ARGUMENT_BYTES
                     then Inl (BridgeRequestError ''bridge arguments are too large'' ''oversized_arguments'')
                     else
                       ebind (validate_tool_arguments tool args) (\<lambda>args'.
                       ebind (require_artifact_binding tool artifact_id args') (\<lambda>_.
                       Inr \<lparr>bq_id = request_id, bq_artifact = artifact_id, bq_attachment = att, bq_tool = tool,
                         bq_args = args'\<rparr>)))
            | _ \<Rightarrow> Inl (invalid_request ''arguments must be a JSON object'')))))
      | _ \<Rightarrow> Inl (invalid_request ''bridge request must be a JSON object''))"

section \<open>The call\<close>

datatype caller_outcome = CallTimeout | CallFailed | CallValue json

record bridge =
  br_boundary :: "(string \<times> attachment) list"
  br_max_result :: nat
  br_log :: "json list"
  br_reads :: nat

definition bridge_init :: "attachment list option \<Rightarrow> rat \<Rightarrow> int \<Rightarrow> py_exn + bridge" where
  "bridge_init boundary timeout max_result =
     (if timeout \<le> 0 \<or> max_result < 1 then Inl (ValueError ''bridge limits must be positive'')
      else Inr \<lparr>br_boundary = capability_boundary (case boundary of None \<Rightarrow> [] | Some as \<Rightarrow> as),
        br_max_result = nat max_result, br_log = [], br_reads = 0\<rparr>)"

text \<open>\<open>round\<close>, which sends a half to the even neighbour.\<close>

definition py_round :: "rat \<Rightarrow> int" where
  "py_round x = (let f = \<lfloor>x\<rfloor>; d = x - of_int f in
     if d < 1 / 2 then f else if d > 1 / 2 then f + 1 else if even f then f else f + 1)"

definition bridge_clock :: "(nat \<Rightarrow> rat) \<Rightarrow> (bridge, rat) action" where
  "bridge_clock clock = (\<lambda>s. (Inr (clock (br_reads s)), s\<lparr>br_reads := Suc (br_reads s)\<rparr>))"

definition bridge_audit ::
    "(nat \<Rightarrow> rat) \<Rightarrow> json_args \<Rightarrow> string \<Rightarrow> string \<Rightarrow> rat \<Rightarrow> (bridge, unit) action" where
  "bridge_audit clock event decision reason started =
     mbind (bridge_clock clock) (\<lambda>now.
     (\<lambda>s. (Inr (), s\<lparr>br_log := br_log s @ [JObj (event @ [(''decision'', JStr decision), (''reason'', JStr reason),
         (''duration_ms'', JInt (py_round ((now - started) * 1000)))])]\<rparr>)))"

definition restrict_search_result :: "json \<Rightarrow> string \<Rightarrow> py_exn + json" where
  "restrict_search_result result artifact_id =
     (case result of
        JArr items \<Rightarrow> Inr (JArr (filter (\<lambda>item. jis_obj item \<and> jget_none item ''artifact_id'' = JStr artifact_id) items))
      | _ \<Rightarrow> Inl (PublicMcpError ''MCP search result is invalid''))"

definition bridge_event :: "bridge_request \<Rightarrow> json_args" where
  "bridge_event q = [(''event'', JStr ''attached_mcp_decision''), (''request_id'', JStr (bq_id q)),
     (''artifact_id'', JStr (bq_artifact q)), (''attachment'', JStr (bq_attachment q)), (''tool'', JStr (bq_tool q))]"

definition restricted_result :: "bridge_request \<Rightarrow> json \<Rightarrow> py_exn + json" where
  "restricted_result q v =
     (if bq_tool q = ''artifact_search'' then restrict_search_result v (bq_artifact q) else Inr v)"

text \<open>What becomes of the value the caller answered with.\<close>

definition bridge_answer :: "(nat \<Rightarrow> rat) \<Rightarrow> bridge_request \<Rightarrow> rat \<Rightarrow> json \<Rightarrow> (bridge, json) action" where
  "bridge_answer clock q started v =
     (let audit = (\<lambda>decision reason. bridge_audit clock (bridge_event q) decision reason started) in
      case ebind (restricted_result q v) (\<lambda>r. case dumps_strict r of
          None \<Rightarrow> Inl (ValueError ''Out of range float values are not JSON compliant'')
        | Some encoded \<Rightarrow> Inr (r, encoded)) of
        Inl _ \<Rightarrow> mbind (audit ''error'' ''invalid_result'') (\<lambda>_.
          mraise (PublicMcpError ''MCP result failed validation''))
      | Inr (r, encoded) \<Rightarrow>
          mbind (mget br_max_result) (\<lambda>max_result.
          if length (utf8 encoded) > max_result
          then mbind (audit ''error'' ''oversized_result'') (\<lambda>_.
            mraise (PublicMcpError ''MCP result exceeds the bridge size limit''))
          else mbind (audit ''allow'' ''completed'') (\<lambda>_. mret r)))"

definition bridge_call ::
    "(nat \<Rightarrow> rat) \<Rightarrow> (string \<Rightarrow> json_args \<Rightarrow> caller_outcome) \<Rightarrow> bridge_request \<Rightarrow> (bridge, json) action" where
  "bridge_call clock caller q =
     mbind (bridge_clock clock) (\<lambda>started.
     let audit = (\<lambda>decision reason. bridge_audit clock (bridge_event q) decision reason started) in
     mbind (mget br_boundary) (\<lambda>boundary.
     if \<not> boundary_authorize boundary (bq_attachment q) (bq_tool q)
     then mbind (audit ''deny'' ''capability_not_attached'') (\<lambda>_.
       mraise (BridgeRequestError ''attached MCP tool is not permitted'' ''capability_not_attached''))
     else case require_artifact_binding (bq_tool q) (bq_artifact q) (bq_args q) of
       Inl e \<Rightarrow> mbind (audit ''deny'' (case e of BridgeRequestError _ reason \<Rightarrow> reason | _ \<Rightarrow> [])) (\<lambda>_. mraise e)
     | Inr _ \<Rightarrow>
         (case caller (bq_tool q) (bq_args q) of
            CallTimeout \<Rightarrow> mbind (audit ''error'' ''timeout'') (\<lambda>_. mraise (PublicMcpError ''MCP call timed out''))
          | CallFailed \<Rightarrow> mbind (audit ''error'' ''tool_error'') (\<lambda>_. mraise (PublicMcpError ''MCP call failed safely''))
          | CallValue v \<Rightarrow> bridge_answer clock q started v)))"

definition audit_rejection :: "(nat \<Rightarrow> rat) \<Rightarrow> string \<Rightarrow> (bridge, unit) action" where
  "audit_rejection clock reason =
     mbind (bridge_clock clock) (\<lambda>started.
     bridge_audit clock [(''event'', JStr ''attached_mcp_decision''), (''request_id'', JStr ''unvalidated''),
       (''artifact_id'', JStr ''unvalidated''), (''attachment'', JStr ''unvalidated''), (''tool'', JStr ''unvalidated'')]
       ''deny'' reason started)"

section \<open>What a validated request looks like\<close>

definition bounded_text :: "nat \<Rightarrow> string \<Rightarrow> bool" where
  "bounded_text n s \<longleftrightarrow> s \<noteq> [] \<and> length s \<le> n"

lemma bounded_string_Inr: "bounded_string v f n = Inr s \<longleftrightarrow> v = JStr s \<and> bounded_text n s"
  by (auto simp: bounded_string_def bounded_text_def split: json.splits if_splits)

lemma bounded_integer_Inr: "bounded_integer v f lo hi = Inr i \<longleftrightarrow> v = JInt i \<and> lo \<le> i \<and> i \<le> hi"
  by (auto simp: bounded_integer_def Let_def split: json.splits if_splits)

text \<open>The type of a tool's arguments: the attached artifact is their target.\<close>

inductive args_typed :: "string \<Rightarrow> string \<Rightarrow> json_args \<Rightarrow> bool" for a where
  typed_read: "bounded_text MAX_ID_LENGTH a \<Longrightarrow> args_typed a ''artifact_read'' [(''artifact_id'', JStr a)]"
| typed_read_version: "bounded_text MAX_ID_LENGTH a \<Longrightarrow> bounded_text MAX_ID_LENGTH v \<Longrightarrow>
    args_typed a ''artifact_read'' [(''artifact_id'', JStr a), (''version_id'', JStr v)]"
| typed_search: "bounded_text 500 q \<Longrightarrow> l = [] \<or> (\<exists>i. l = [(''limit'', JInt i)] \<and> 1 \<le> i \<and> i \<le> 100) \<Longrightarrow>
    args_typed a ''artifact_search'' ((''query'', JStr q) # l)"
| typed_traverse: "bounded_text MAX_ID_LENGTH a \<Longrightarrow>
    d = [] \<or> (\<exists>i. d = [(''max_depth'', JInt i)] \<and> 0 \<le> i \<and> i \<le> 10) \<Longrightarrow>
    l = [] \<or> (\<exists>i. l = [(''limit'', JInt i)] \<and> 1 \<le> i \<and> i \<le> 500) \<Longrightarrow>
    args_typed a ''graph_traverse'' ((''start_artifact_id'', JStr a) # d @ l)"
| typed_other: "tool \<notin> set BRIDGE_TOOLS \<Longrightarrow> args_typed a tool args"

inductive_cases typed_read_cases: "args_typed a ''artifact_read'' args"
inductive_cases typed_traverse_cases: "args_typed a ''graph_traverse'' args"

lemma validate_args_typed:
  assumes v: "validate_tool_arguments tool args = Inr args'"
    and b: "require_artifact_binding tool a args' = Inr u"
  shows "args_typed a tool args'"
proof -
  consider "tool = ''artifact_read''" | "tool = ''artifact_search''" | "tool = ''graph_traverse''"
    | "tool \<notin> set BRIDGE_TOOLS" by (auto simp: BRIDGE_TOOLS_def)
  then show ?thesis
  proof cases
    case 1
    obtain s rest where s: "bounded_text MAX_ID_LENGTH s" "args' = (''artifact_id'', JStr s) # rest"
      and rest: "optional_arg args ''version_id'' (\<lambda>v. if v = JNull then Inr []
        else ebind (bounded_string v ''version_id'' MAX_ID_LENGTH) (\<lambda>s. Inr [(''version_id'', JStr s)])) = Inr rest"
      using v 1 by (auto simp: validate_tool_arguments_def err_simps bounded_string_Inr split: if_splits)
    have "s = a" using b 1 s(2) by (auto simp: require_artifact_binding_def err_simps jget_none_def)
    moreover have "rest = [] \<or> (\<exists>v. rest = [(''version_id'', JStr v)] \<and> bounded_text MAX_ID_LENGTH v)"
      using rest by (auto simp: optional_arg_def err_simps bounded_string_Inr split: option.splits if_splits)
    ultimately show ?thesis using s 1 by (auto intro: typed_read typed_read_version)
  next
    case 2
    obtain q rest where q: "bounded_text 500 q" "args' = (''query'', JStr q) # rest"
      and rest: "optional_arg args ''limit'' (\<lambda>v. ebind (bounded_integer v ''limit'' 1 100) (\<lambda>i. Inr [(''limit'', JInt i)])) = Inr rest"
      using v 2 by (auto simp: validate_tool_arguments_def err_simps bounded_string_Inr split: if_splits)
    have "rest = [] \<or> (\<exists>i. rest = [(''limit'', JInt i)] \<and> 1 \<le> i \<and> i \<le> 100)"
      using rest by (auto simp: optional_arg_def err_simps bounded_integer_Inr split: option.splits)
    then show ?thesis using q 2 by (auto intro: typed_search)
  next
    case 3
    obtain s depth limit where s: "bounded_text MAX_ID_LENGTH s" "args' = (''start_artifact_id'', JStr s) # depth @ limit"
      and rest: "optional_arg args ''max_depth'' (\<lambda>v. ebind (bounded_integer v ''max_depth'' 0 10) (\<lambda>i. Inr [(''max_depth'', JInt i)])) = Inr depth"
        "optional_arg args ''limit'' (\<lambda>v. ebind (bounded_integer v ''limit'' 1 500) (\<lambda>i. Inr [(''limit'', JInt i)])) = Inr limit"
      using v 3 by (auto simp: validate_tool_arguments_def err_simps bounded_string_Inr split: if_splits)
    have "s = a" using b 3 s(2) by (auto simp: require_artifact_binding_def err_simps jget_none_def)
    moreover have "depth = [] \<or> (\<exists>i. depth = [(''max_depth'', JInt i)] \<and> 0 \<le> i \<and> i \<le> 10)"
      "limit = [] \<or> (\<exists>i. limit = [(''limit'', JInt i)] \<and> 1 \<le> i \<and> i \<le> 500)"
      using rest by (auto simp: optional_arg_def err_simps bounded_integer_Inr split: option.splits)
    ultimately show ?thesis using s 3 by (auto intro!: typed_traverse)
  next
    case 4
    then show ?thesis by (rule typed_other)
  qed
qed

lemma validated_request_typed:
  assumes "validate_bridge_request v = Inr q"
  shows "bounded_text MAX_BRIDGE_REQUEST_ID (bq_id q) \<and> bounded_text MAX_ID_LENGTH (bq_artifact q)
    \<and> bounded_text 100 (bq_attachment q) \<and> bounded_text 128 (bq_tool q)
    \<and> args_typed (bq_artifact q) (bq_tool q) (bq_args q)"
proof -
  obtain kvs where kvs: "v = JObj kvs" using assms by (cases v) (auto simp: validate_bridge_request_def)
  obtain i a t tool args args' where s: "bounded_text MAX_BRIDGE_REQUEST_ID i" "bounded_text MAX_ID_LENGTH a"
      "bounded_text 100 t" "bounded_text 128 tool"
    and args: "validate_tool_arguments tool args = Inr args'" "require_artifact_binding tool a args' = Inr ()"
    and q: "q = \<lparr>bq_id = i, bq_artifact = a, bq_attachment = t, bq_tool = tool, bq_args = args'\<rparr>"
  proof -
    have fields: "\<not> set (map fst kvs) \<noteq> {''request_id'', ''artifact_id'', ''attachment'', ''tool'', ''arguments''}"
    proof
      assume "set (map fst kvs) \<noteq> {''request_id'', ''artifact_id'', ''attachment'', ''tool'', ''arguments''}"
      then show False using assms unfolding kvs validate_bridge_request_def json.case by (simp only: if_True) simp
    qed
    note run = assms[unfolded kvs validate_bridge_request_def json.case if_not_P[OF fields]]
    obtain i a t tool where s: "bounded_text MAX_BRIDGE_REQUEST_ID i" "bounded_text MAX_ID_LENGTH a"
        "bounded_text 100 t" "bounded_text 128 tool"
      and rest: "(case jget_none (JObj kvs) ''arguments'' of
              JObj args \<Rightarrow>
                (case dumps_strict (JObj args) of
                   None \<Rightarrow> Inl (invalid_request ''arguments must be valid JSON'')
                 | Some encoded \<Rightarrow>
                     if length (utf8 encoded) > MAX_BRIDGE_ARGUMENT_BYTES
                     then Inl (BridgeRequestError ''bridge arguments are too large'' ''oversized_arguments'')
                     else
                       ebind (validate_tool_arguments tool args) (\<lambda>args'.
                       ebind (require_artifact_binding tool a args') (\<lambda>_.
                       Inr \<lparr>bq_id = i, bq_artifact = a, bq_attachment = t, bq_tool = tool, bq_args = args'\<rparr>)))
            | _ \<Rightarrow> Inl (invalid_request ''arguments must be a JSON object'')) = Inr q"
      using run by (auto simp only: ebind_Inr_iff bounded_string_Inr)
    then obtain args where "jget_none (JObj kvs) ''arguments'' = JObj args"
      by (cases "jget_none (JObj kvs) ''arguments''") auto
    then show thesis
      using that[OF s] rest by (auto simp: err_simps split: option.splits if_splits)
  qed
  show ?thesis using s validate_args_typed[OF args] by (simp add: q)
qed

text \<open>C38: what passes the validation of a bridge request is well typed: non-empty identifiers within their
  bounds, and for each of the three tools exactly the arguments that tool takes, every string and integer
  within its bounds, with the attached artifact as the only target.\<close>

theorem bridge_request_typed:
  assumes "validate_bridge_request v = Inr q"
  shows "bounded_text MAX_BRIDGE_REQUEST_ID (bq_id q) \<and> bounded_text MAX_ID_LENGTH (bq_artifact q)
    \<and> bounded_text 100 (bq_attachment q) \<and> bounded_text 128 (bq_tool q)
    \<and> args_typed (bq_artifact q) (bq_tool q) (bq_args q)"
  using assms by (rule validated_request_typed)

section \<open>The call stays within the attachment\<close>

lemma bridge_audit_run:
  "\<exists>ms. bridge_audit clock ev decision reason started s = (Inr (), s\<lparr>br_reads := Suc (br_reads s),
     br_log := br_log s @ [JObj (ev @ [(''decision'', JStr decision), (''reason'', JStr reason), (''duration_ms'', JInt ms)])]\<rparr>)"
  unfolding bridge_audit_def bridge_clock_def mbind_def by (rule exI) simp

text \<open>The record a call writes and the answer it gives.\<close>

definition logged :: "bridge_request \<Rightarrow> bridge \<Rightarrow> bridge \<Rightarrow> string \<Rightarrow> bool" where
  "logged q s s' decision \<longleftrightarrow> (\<exists>reason ms. br_log s' = br_log s @ [JObj (bridge_event q @
     [(''decision'', JStr decision), (''reason'', JStr reason), (''duration_ms'', JInt ms)])])"

lemma bridge_audit_logged:
  assumes "bridge_audit clock (bridge_event q) decision reason started u = (r, s')" and "br_log u = br_log s"
  shows "logged q s s' decision \<and> r = Inr ()"
  using bridge_audit_run[of clock "bridge_event q" decision reason started u] assms by (auto simp: logged_def)

lemma audit_then_raise:
  assumes "mbind (bridge_audit clock (bridge_event q) decision reason started) (\<lambda>_. mraise e) u = (r, s')"
    and "br_log u = br_log s"
  shows "r = Inl e \<and> logged q s s' decision"
  using bridge_audit_run[of clock "bridge_event q" decision reason started u] assms
  by (auto simp: logged_def mbind_def mraise_def)

lemma audit_then_return:
  assumes "mbind (bridge_audit clock (bridge_event q) decision reason started) (\<lambda>_. mret v) u = (r, s')"
    and "br_log u = br_log s"
  shows "r = Inr v \<and> logged q s s' decision"
  using bridge_audit_run[of clock "bridge_event q" decision reason started u] assms
  by (auto simp: logged_def mbind_def mret_def)

definition confined :: "bridge_request \<Rightarrow> bridge \<Rightarrow> json \<Rightarrow> bool" where
  "confined q s v \<longleftrightarrow> (bq_tool q = ''artifact_search'' \<longrightarrow> (\<exists>items. v = JArr items
      \<and> (\<forall>item \<in> set items. jget_none item ''artifact_id'' = JStr (bq_artifact q))))
    \<and> (\<exists>encoded. dumps_strict v = Some encoded \<and> length (utf8 encoded) \<le> br_max_result s)"

lemma bridge_steps: "mbind (mget f) g u = g (f u) u"
  "mbind (bridge_clock clock) h u = h (clock (br_reads u)) (u\<lparr>br_reads := Suc (br_reads u)\<rparr>)"
  by (simp_all add: mbind_def mget_def bridge_clock_def)

lemma put_step: "mbind (\<lambda>s. (Inr x, f s)) g u = g x (f u)"
  by (simp add: mbind_def)

text \<open>How a call ends: refused with a record, or answered within the attachment with a record.\<close>

inductive call_ended :: "bridge_request \<Rightarrow> bridge \<Rightarrow> (py_exn + json) \<Rightarrow> bridge \<Rightarrow> bool" for q s where
  ended_refused: "logged q s s' d \<Longrightarrow> d \<in> {''deny'', ''error''} \<Longrightarrow> call_ended q s (Inl e) s'"
| ended_answered: "logged q s s' ''allow'' \<Longrightarrow> confined q s v \<Longrightarrow>
    boundary_authorize (br_boundary s) (bq_attachment q) (bq_tool q) \<Longrightarrow>
    require_artifact_binding (bq_tool q) (bq_artifact q) (bq_args q) = Inr () \<Longrightarrow> call_ended q s (Inr v) s'"

lemma refusal_ended:
  assumes "mbind (bridge_audit clock (bridge_event q) d reason started) (\<lambda>_. mraise e) u = (r, s')"
    and "br_log u = br_log s" and "d \<in> {''deny'', ''error''}"
  shows "call_ended q s r s'"
  using audit_then_raise[OF assms(1,2)] assms(3) by (auto intro: ended_refused)

lemma bridge_answer_ended:
  assumes run: "bridge_answer clock q started v u = (r, s')"
    and u: "br_log u = br_log s" "br_max_result u = br_max_result s"
    and allowed: "boundary_authorize (br_boundary s) (bq_attachment q) (bq_tool q)"
      "require_artifact_binding (bq_tool q) (bq_artifact q) (bq_args q) = Inr ()"
  shows "call_ended q s r s'"
proof -
  let ?audit = "\<lambda>decision reason. bridge_audit clock (bridge_event q) decision reason started"
  let ?checked = "ebind (restricted_result q v) (\<lambda>r. case dumps_strict r of
      None \<Rightarrow> Inl (ValueError ''Out of range float values are not JSON compliant'')
    | Some encoded \<Rightarrow> Inr (r, encoded))"
  show ?thesis
  proof (cases ?checked)
    case (Inl e)
    then show ?thesis
      using run by (intro refusal_ended[where d = "''error''" and reason = "''invalid_result''" and clock = clock
          and started = started and e = "PublicMcpError ''MCP result failed validation''", OF _ u(1)]) (simp_all add: bridge_answer_def)
  next
    case (Inr p)
    obtain result encoded where p: "p = (result, encoded)" by (cases p)
    have result: "restricted_result q v = Inr result" "dumps_strict result = Some encoded"
      using Inr p by (auto simp: err_simps split: option.splits)
    show ?thesis
    proof (cases "length (utf8 encoded) > br_max_result s")
      case True
      then show ?thesis using run Inr p u(2)
        by (intro refusal_ended[where d = "''error''" and reason = "''oversized_result''" and clock = clock
            and started = started and e = "PublicMcpError ''MCP result exceeds the bridge size limit''", OF _ u(1)])
          (simp_all add: bridge_answer_def bridge_steps)
    next
      case False
      then have "mbind (?audit ''allow'' ''completed'') (\<lambda>_. mret result) u = (r, s')"
        using run Inr p u(2) by (simp add: bridge_answer_def bridge_steps)
      from audit_then_return[OF this u(1)] have r: "r = Inr result" "logged q s s' ''allow''" by simp_all
      have "confined q s result"
        using result False
        by (auto simp: confined_def restricted_result_def restrict_search_result_def split: json.splits)
      then show ?thesis using r allowed by (auto intro: ended_answered)
    qed
  qed
qed

lemma bridge_call_ended:
  assumes "bridge_call clock caller q s = (r, s')"
  shows "call_ended q s r s'"
proof -
  let ?u = "s\<lparr>br_reads := Suc (br_reads s)\<rparr>"
  have u: "br_log ?u = br_log s" "br_max_result ?u = br_max_result s" by simp_all
  show ?thesis
  proof (cases "boundary_authorize (br_boundary s) (bq_attachment q) (bq_tool q)")
    case False
    then show ?thesis using assms by (intro refusal_ended[where d = "''deny''" and reason = "''capability_not_attached''" and clock = clock
        and started = "clock (br_reads s)" and e = "BridgeRequestError ''attached MCP tool is not permitted'' ''capability_not_attached''",
        OF _ u(1)])
      (simp_all add: bridge_call_def bridge_steps)
  next
    case allowed: True
    show ?thesis
    proof (cases "require_artifact_binding (bq_tool q) (bq_artifact q) (bq_args q)")
      case (Inl e)
      then show ?thesis using assms allowed by (intro refusal_ended[where d = "''deny''" and clock = clock
          and reason = "case e of BridgeRequestError _ reason \<Rightarrow> reason | _ \<Rightarrow> []"
          and started = "clock (br_reads s)" and e = e, OF _ u(1)])
        (simp_all add: bridge_call_def bridge_steps)
    next
      case (Inr x)
      have run: "(case caller (bq_tool q) (bq_args q) of
            CallTimeout \<Rightarrow> mbind (bridge_audit clock (bridge_event q) ''error'' ''timeout'' (clock (br_reads s)))
              (\<lambda>_. mraise (PublicMcpError ''MCP call timed out''))
          | CallFailed \<Rightarrow> mbind (bridge_audit clock (bridge_event q) ''error'' ''tool_error'' (clock (br_reads s)))
              (\<lambda>_. mraise (PublicMcpError ''MCP call failed safely''))
          | CallValue v \<Rightarrow> bridge_answer clock q (clock (br_reads s)) v) ?u = (r, s')"
        using assms allowed Inr
        by (simp add: bridge_call_def bridge_steps)
      show ?thesis
      proof (cases "caller (bq_tool q) (bq_args q)")
        case CallTimeout
        then have "mbind (bridge_audit clock (bridge_event q) ''error'' ''timeout'' (clock (br_reads s)))
            (\<lambda>_. mraise (PublicMcpError ''MCP call timed out'')) ?u = (r, s')"
          using run by simp
        from refusal_ended[OF this u(1)] show ?thesis by simp
      next
        case CallFailed
        then have "mbind (bridge_audit clock (bridge_event q) ''error'' ''tool_error'' (clock (br_reads s)))
            (\<lambda>_. mraise (PublicMcpError ''MCP call failed safely'')) ?u = (r, s')"
          using run by simp
        from refusal_ended[OF this u(1)] show ?thesis by simp
      next
        case (CallValue v)
        then show ?thesis using run allowed Inr by (intro bridge_answer_ended[OF _ u]) simp_all
      qed
    qed
  qed
qed

inductive_cases call_ended_cases: "call_ended q s r s'"

text \<open>C31: a sandboxed page gets a result only for an attached operation on the attached artifact: a search result
  lists nothing but that artifact, and the answer fits the size limit. Every call, answered or refused,
  writes exactly one record, whose decision is \<open>allow\<close> when and only when an answer was given.\<close>

theorem bridge_confines:
  assumes "bridge_call clock caller q s = (r, s')"
  shows "(\<exists>decision. logged q s s' decision \<and> (decision = ''allow'' \<longleftrightarrow> (\<exists>v. r = Inr v)))
    \<and> (\<forall>v. r = Inr v \<longrightarrow> boundary_authorize (br_boundary s) (bq_attachment q) (bq_tool q)
      \<and> require_artifact_binding (bq_tool q) (bq_artifact q) (bq_args q) = Inr () \<and> confined q s v)"
  using bridge_call_ended[OF assms] by (auto elim!: call_ended_cases)

section \<open>Witnesses\<close>

definition sample_page_request :: json where
  "sample_page_request = JObj [(''request_id'', JStr ''r''), (''artifact_id'', JStr ''art''), (''attachment'', JStr ''folio-lattice''),
     (''tool'', JStr ''artifact_search''), (''arguments'', JObj [(''query'', JStr ''x''), (''limit'', JInt 5)])]"

definition sample_bridge_request :: bridge_request where
  "sample_bridge_request = \<lparr>bq_id = ''r'', bq_artifact = ''art'', bq_attachment = ''folio-lattice'', bq_tool = ''artifact_search'',
     bq_args = [(''query'', JStr ''x''), (''limit'', JInt 5)]\<rparr>"

lemma sample_arguments: "dumps_strict (JObj [(''query'', JStr ''x''), (''limit'', JInt 5)]) = Some ''{\"query\":\"x\",\"limit\":5}''"
  by code_simp

lemma sample_validated: "validate_bridge_request sample_page_request = Inr sample_bridge_request"
proof -
  have f: "set (map fst [(''request_id'', JStr ''r''), (''artifact_id'', JStr ''art''), (''attachment'', JStr ''folio-lattice''),
     (''tool'', JStr ''artifact_search''), (''arguments'', JObj [(''query'', JStr ''x''), (''limit'', JInt 5)])])
    = {''request_id'', ''artifact_id'', ''attachment'', ''tool'', ''arguments''}" by simp
  have u: "length (utf8 ''{\"query\":\"x\",\"limit\":5}'') \<le> 2 * 23"
    using length_utf8[of "''{\"query\":\"x\",\"limit\":5}''"] by simp
  show ?thesis using u f
    by (simp add: sample_page_request_def sample_bridge_request_def validate_bridge_request_def jget_none_def
        bounded_string_def bounded_integer_def optional_arg_def validate_tool_arguments_def sample_arguments
        require_artifact_binding_def guard_raise_def MAX_BRIDGE_REQUEST_ID_def MAX_ID_LENGTH_def
        MAX_BRIDGE_ARGUMENT_BYTES_def Let_def)
qed

theorem bridge_request_typed_witness:
  "bounded_text MAX_BRIDGE_REQUEST_ID ''r'' \<and> args_typed ''art'' ''artifact_search'' [(''query'', JStr ''x''), (''limit'', JInt 5)]"
  using bridge_request_typed[OF sample_validated] by (simp add: sample_bridge_request_def)

definition sample_bridge :: bridge where
  "sample_bridge = \<lparr>br_boundary = capability_boundary [], br_max_result = 1000, br_log = [], br_reads = 0\<rparr>"

text \<open>The caller answers with two items; the foreign one is dropped.\<close>

definition sample_caller :: "string \<Rightarrow> json_args \<Rightarrow> caller_outcome" where
  "sample_caller tool args = CallValue (JArr [JObj [(''artifact_id'', JStr ''art'')], JObj [(''artifact_id'', JStr ''b'')]])"

lemma sample_answer: "dumps_strict (JArr [JObj [(''artifact_id'', JStr ''art'')]]) = Some ''[{\"artifact_id\":\"art\"}]''"
  by code_simp

lemma sample_bridge_call:
  "fst (bridge_call (\<lambda>n. 0) sample_caller sample_bridge_request sample_bridge)
     = Inr (JArr [JObj [(''artifact_id'', JStr ''art'')]])"
proof -
  have u: "length (utf8 ''[{\"artifact_id\":\"art\"}]'') \<le> 2 * 23"
    using length_utf8[of "''[{\"artifact_id\":\"art\"}]''"] by simp
  have b: "boundary_authorize (br_boundary sample_bridge) ''folio-lattice'' ''artifact_search''"
    by (simp add: sample_bridge_def capability_boundary_def default_attachment_def boundary_authorize_def)
  have "br_max_result sample_bridge = 1000" by (simp add: sample_bridge_def)
  then show ?thesis using u b
    by (simp add: bridge_call_def bridge_steps bridge_answer_def sample_bridge_request_def sample_caller_def
        require_artifact_binding_def guard_raise_def restricted_result_def restrict_search_result_def jget_none_def
        sample_answer bridge_audit_def Let_def mbind_assoc put_step mret_def)
qed

theorem bridge_confines_witness:
  "boundary_authorize (br_boundary sample_bridge) ''folio-lattice'' ''artifact_search''
     \<and> confined sample_bridge_request sample_bridge (JArr [JObj [(''artifact_id'', JStr ''art'')]])"
proof -
  obtain s' where run: "bridge_call (\<lambda>n. 0) sample_caller sample_bridge_request sample_bridge
      = (Inr (JArr [JObj [(''artifact_id'', JStr ''art'')]]), s')"
    using sample_bridge_call by (metis prod.collapse)
  show ?thesis using bridge_confines[OF run] by (simp add: sample_bridge_request_def)
qed

end
