(* ===== verification/External_Registry.thy ===== *)
theory External_Registry
  imports Frame Url Sharing
begin

text \<open>
  The registry of external MCP connections in \<open>service.py\<close>: validation of what is registered, the
  connections and their public views, the checks before a call, health, revocation and the registry's
  own audit table. A connection's approvals never change once registered and a revoked connection stays
  revoked.
\<close>

section \<open>Constants\<close>

definition MAX_EXTERNAL_ENDPOINT_LENGTH :: nat where "MAX_EXTERNAL_ENDPOINT_LENGTH = 4096"
definition MAX_EXTERNAL_CONNECTION_NAME_LENGTH :: nat where "MAX_EXTERNAL_CONNECTION_NAME_LENGTH = 255"
definition MAX_EXTERNAL_LIST_ITEMS :: nat where "MAX_EXTERNAL_LIST_ITEMS = 128"
definition MAX_EXTERNAL_ITEM_LENGTH :: nat where "MAX_EXTERNAL_ITEM_LENGTH = 2048"
definition MAX_EXTERNAL_ARGUMENT_BYTES :: nat where "MAX_EXTERNAL_ARGUMENT_BYTES = 64 * 1024"
definition MAX_EXTERNAL_URI_DECODE_PASSES :: nat where "MAX_EXTERNAL_URI_DECODE_PASSES = 2"

definition EXTERNAL_POLICY_KEYS :: "string list" where "EXTERNAL_POLICY_KEYS = [''slack'']"
definition EXTERNAL_POLICY_PUBLIC_KEYS :: "string list" where
  "EXTERNAL_POLICY_PUBLIC_KEYS = [''channels'', ''max_time_range_seconds'']"
definition EXTERNAL_MCP_POLICY_VERSION :: string where
  "EXTERNAL_MCP_POLICY_VERSION = ''external-mcp-v1''"

section \<open>Validation of what is registered\<close>

definition exact_text :: "nat \<Rightarrow> string \<Rightarrow> bool" where
  "exact_text cap v \<longleftrightarrow> v \<noteq> [] \<and> length v \<le> cap \<and> v = strip v \<and> \<not> list_ex ctrl_or_blank v"

fun decode_passes :: "env \<Rightarrow> nat \<Rightarrow> string \<Rightarrow> string list" where
  "decode_passes E 0 cur = []"
| "decode_passes E (Suc n) cur =
     (let decoded = unquote E cur in
      if decoded = cur then [] else decoded # decode_passes E n decoded)"

definition uri_forms :: "env \<Rightarrow> string \<Rightarrow> string list" where
  "uri_forms E v = v # decode_passes E MAX_EXTERNAL_URI_DECODE_PASSES v"

text \<open>Every form splits (\<open>None\<close>: a \<open>ValueError\<close>) and satisfies \<open>P\<close>.\<close>

definition forms_ok :: "env \<Rightarrow> ip_table \<Rightarrow> (split_url \<Rightarrow> bool) \<Rightarrow> string \<Rightarrow> bool" where
  "forms_ok E ip P v \<longleftrightarrow> list_all (\<lambda>form. case urlsplit ip form of None \<Rightarrow> False | Some u \<Rightarrow> P u) (uri_forms E v)"

definition origin_error :: py_exn where
  "origin_error = FolioError ''external MCP origin is invalid''"

definition external_origin :: "env \<Rightarrow> ip_table \<Rightarrow> string \<Rightarrow> bool \<Rightarrow> py_exn + string" where
  "external_origin E ip v endpoint =
     (if \<not> exact_text MAX_EXTERNAL_ENDPOINT_LENGTH v \<or> CHR ''*'' \<in> set v then Inl origin_error
      else case urlsplit ip v of
        None \<Rightarrow> Inl origin_error
      | Some u \<Rightarrow>
          (case port_of u of
             None \<Rightarrow> Inl origin_error
           | Some port \<Rightarrow>
               if su_scheme u \<noteq> ''https'' \<or> su_netloc u = [] \<or> \<not> bare_url u
                  \<or> (endpoint \<and> su_path u = []) \<or> (\<not> endpoint \<and> su_path u \<noteq> [])
                  \<or> \<not> forms_ok E ip bare_url v
               then Inl origin_error
               else case hostname u of
                 None \<Rightarrow> Inl origin_error
               | Some host \<Rightarrow>
                   if endpoint \<and> (case ip host of Some (_, global) \<Rightarrow> \<not> global | None \<Rightarrow> False)
                   then Inl (FolioError ''external MCP endpoint host is not public'')
                   else Inr (''https://''
                     @ (if CHR '':'' \<in> set host then ''['' @ lower host @ '']'' else lower host)
                     @ (case port of Some p \<Rightarrow> '':'' @ nat_text p | None \<Rightarrow> []))))"

definition external_items :: "string \<Rightarrow> string list \<Rightarrow> py_exn + string list" where
  "external_items field items =
     (if length items > MAX_EXTERNAL_LIST_ITEMS then Inl (FolioError (field @ '' has too many entries''))
      else if list_ex (\<lambda>v. \<not> exact_text MAX_EXTERNAL_ITEM_LENGTH v \<or> CHR ''*'' \<in> set v) items
        then Inl (FolioError (field @ '' must contain exact, non-wildcard strings''))
      else if \<not> distinct items then Inl (FolioError (field @ '' must not contain duplicates''))
      else Inr (sort items))"

definition resource_uri_is_unsafe :: "env \<Rightarrow> ip_table \<Rightarrow> string \<Rightarrow> bool" where
  "resource_uri_is_unsafe E ip v \<longleftrightarrow> \<not> forms_ok E ip bare_url v"

definition resource_uri :: "env \<Rightarrow> ip_table \<Rightarrow> string \<Rightarrow> py_exn + string" where
  "resource_uri E ip v =
     (if resource_uri_is_unsafe E ip v
      then Inl (FolioError ''approved_resources must contain safe resource URIs'') else Inr v)"

definition external_credential_ref :: "env \<Rightarrow> ip_table \<Rightarrow> string option \<Rightarrow> py_exn + string option" where
  "external_credential_ref E ip v =
     (case v of
        None \<Rightarrow> Inr None
      | Some s \<Rightarrow>
          if \<not> exact_text MAX_EXTERNAL_ITEM_LENGTH s
             \<or> \<not> forms_ok E ip (\<lambda>u. su_scheme u = ''secret'' \<and> su_netloc u \<noteq> [] \<and> bare_url u) s
          then Inl (FolioError ''credential_ref must be an opaque secret:// reference'')
          else Inr (Some s))"

definition policy_error :: py_exn where
  "policy_error = FolioError ''external MCP policy is invalid''"

definition is_jstr :: "json \<Rightarrow> bool" where
  "is_jstr v = (case v of JStr _ \<Rightarrow> True | _ \<Rightarrow> False)"

fun jstr :: "json \<Rightarrow> string" where
  "jstr (JStr s) = s"
| "jstr _ = []"

definition external_json_list :: "string \<Rightarrow> py_exn + string list" where
  "external_json_list v =
     (case loads v of
        Some (JArr vs) \<Rightarrow> if list_all is_jstr vs then Inr (map jstr vs) else Inl policy_error
      | _ \<Rightarrow> Inl policy_error)"

definition external_policy :: "json option \<Rightarrow> py_exn + string" where
  "external_policy v =
     ebind (case v of None \<Rightarrow> Inr [] | Some (JObj kvs) \<Rightarrow> Inr kvs | Some _ \<Rightarrow> Inl policy_error) (\<lambda>kvs.
     if \<not> set (map fst kvs) \<subseteq> set EXTERNAL_POLICY_KEYS then Inl policy_error
     else if list_ex (\<lambda>(k, p). \<not> jis_obj p) kvs then Inl policy_error
     else case dumps_sorted_strict (JObj kvs) of
       None \<Rightarrow> Inl policy_error
     | Some encoded \<Rightarrow>
         if length (utf8 encoded) > MAX_EXTERNAL_ARGUMENT_BYTES
         then Inl (FolioError ''external MCP policy exceeds the allowed size'') else Inr encoded)"

definition external_policy_dict :: "string \<Rightarrow> py_exn + json" where
  "external_policy_dict v =
     (case loads v of
        Some (JObj kvs) \<Rightarrow>
          if set (map fst kvs) \<subseteq> set EXTERNAL_POLICY_KEYS then Inr (JObj kvs) else Inl policy_error
      | _ \<Rightarrow> Inl policy_error)"

section \<open>Connections and their views\<close>

text \<open>A connection as the operations use it: the row, its lists and its policy parsed.\<close>

record connection =
  cn_row :: connection_row
  cn_tools :: "string list"
  cn_resources :: "string list"
  cn_origins :: "string list"
  cn_policy :: json

text \<open>What leaves the service: no credential reference, no address that fails its own validation.\<close>

record public_connection =
  pc_id :: string
  pc_tenant :: string
  pc_name :: string
  pc_endpoint :: "string option"
  pc_origin :: "string option"
  pc_transport :: string
  pc_tools :: "string list"
  pc_resources :: "string list"
  pc_origins :: "string list"
  pc_status :: string
  pc_health :: string
  pc_health_at :: "string option"
  pc_created_by :: string
  pc_created :: string
  pc_revoked_by :: "string option"
  pc_revoked_at :: "string option"
  pc_policy_version :: string
  pc_policy :: "json option"
  pc_credential_configured :: bool

definition origin_is_unsafe :: "env \<Rightarrow> ip_table \<Rightarrow> string \<Rightarrow> bool \<Rightarrow> bool" where
  "origin_is_unsafe E ip v endpoint \<longleftrightarrow>
     (case external_origin E ip v endpoint of Inl _ \<Rightarrow> True | Inr _ \<Rightarrow> False)"

definition public_policy :: "string \<Rightarrow> json option" where
  "public_policy v =
     (case loads v of
        Some (JObj kvs) \<Rightarrow>
          (case map_of kvs ''slack'' of
             Some (JObj slack) \<Rightarrow>
               Some (JObj [(''slack'', JObj (concat (map (\<lambda>k. case map_of slack k of
                  Some x \<Rightarrow> [(k, x)] | None \<Rightarrow> []) EXTERNAL_POLICY_PUBLIC_KEYS)))])
           | _ \<Rightarrow> None)
      | _ \<Rightarrow> None)"

definition external_public ::
    "env \<Rightarrow> ip_table \<Rightarrow> connection_row \<Rightarrow> string list \<Rightarrow> string list \<Rightarrow> string list \<Rightarrow> public_connection" where
  "external_public E ip r tools resources origins =
     \<lparr>pc_id = x_id r, pc_tenant = x_tenant r, pc_name = x_name r,
      pc_endpoint = (if origin_is_unsafe E ip (x_endpoint r) True then None else Some (x_endpoint r)),
      pc_origin = (if origin_is_unsafe E ip (x_origin r) False then None else Some (x_origin r)),
      pc_transport = x_transport r, pc_tools = tools,
      pc_resources = filter (\<lambda>v. \<not> resource_uri_is_unsafe E ip v) resources,
      pc_origins = filter (\<lambda>v. \<not> resource_uri_is_unsafe E ip v) origins,
      pc_status = x_status r, pc_health = x_health r, pc_health_at = x_health_at r,
      pc_created_by = x_created_by r, pc_created = x_created r, pc_revoked_by = x_revoked_by r,
      pc_revoked_at = x_revoked_at r, pc_policy_version = x_policy_version r,
      pc_policy = public_policy (x_policy_json r),
      pc_credential_configured = (x_credential r \<noteq> None)\<rparr>"

definition find_connection :: "database \<Rightarrow> string \<Rightarrow> string \<Rightarrow> connection_row option" where
  "find_connection db tenant cid =
     List.find (\<lambda>r. x_id r = cid \<and> x_tenant r = tenant) (t_connections db)"

definition external_row :: "database \<Rightarrow> string \<Rightarrow> string \<Rightarrow> py_exn + connection" where
  "external_row db tenant cid =
     (case find_connection db tenant cid of
        None \<Rightarrow> Inl (FolioError ''external MCP connection not found'')
      | Some r \<Rightarrow>
          ebind (external_json_list (x_tools r)) (\<lambda>tools.
          ebind (external_json_list (x_resources r)) (\<lambda>resources.
          ebind (external_json_list (x_origins r)) (\<lambda>origins.
          ebind (external_policy_dict (x_policy_json r)) (\<lambda>policy.
          Inr \<lparr>cn_row = r, cn_tools = tools, cn_resources = resources, cn_origins = origins,
               cn_policy = policy\<rparr>)))))"

definition connection_public :: "env \<Rightarrow> ip_table \<Rightarrow> connection \<Rightarrow> public_connection" where
  "connection_public E ip c = external_public E ip (cn_row c) (cn_tools c) (cn_resources c) (cn_origins c)"

definition connection_for_broker ::
    "database \<Rightarrow> string \<Rightarrow> string \<Rightarrow> string \<Rightarrow> py_exn + connection" where
  "connection_for_broker db tenant cid actor =
     ebind (validate_text ''tenant_id'' tenant MAX_NAME_LENGTH) (\<lambda>_.
     ebind (validate_text ''actor'' actor MAX_NAME_LENGTH) (\<lambda>_.
     external_row db tenant cid))"

definition external_connection_status ::
    "env \<Rightarrow> ip_table \<Rightarrow> database \<Rightarrow> string \<Rightarrow> string \<Rightarrow> string \<Rightarrow> py_exn + public_connection" where
  "external_connection_status E ip db tenant cid actor =
     ebind (connection_for_broker db tenant cid actor) (\<lambda>c. Inr (connection_public E ip c))"

definition list_external_connections ::
    "env \<Rightarrow> ip_table \<Rightarrow> database \<Rightarrow> string \<Rightarrow> string \<Rightarrow> int \<Rightarrow> py_exn + public_connection list" where
  "list_external_connections E ip db tenant actor limit =
     ebind (validate_text ''tenant_id'' tenant MAX_NAME_LENGTH) (\<lambda>_.
     ebind (validate_text ''actor'' actor MAX_NAME_LENGTH) (\<lambda>_.
     emap_list (\<lambda>r.
         ebind (external_json_list (x_tools r)) (\<lambda>tools.
         ebind (external_json_list (x_resources r)) (\<lambda>resources.
         ebind (external_json_list (x_origins r)) (\<lambda>origins.
         Inr (external_public E ip r tools resources origins)))))
       (take (clamp 1 MAX_EXTERNAL_LIST_ITEMS limit)
         (sort_key (\<lambda>r. (x_created r, x_id r)) (filter (\<lambda>r. x_tenant r = tenant) (t_connections db))))))"

section \<open>The registry's audit table\<close>

definition insert_call_audit_row :: "call_audit_row \<Rightarrow> (world, unit) action" where
  "insert_call_audit_row r = execute
     (\<lambda>db. y_id r \<notin> y_id ` set (t_call_audit db) \<and> has_tenant db (y_tenant r))
     (\<lambda>db. db\<lparr>t_call_audit := t_call_audit db @ [r]\<rparr>)"

text \<open>The caller's resource URI is dropped, whatever it is.\<close>

definition write_external_audit ::
    "env \<Rightarrow> string \<Rightarrow> string \<Rightarrow> string \<Rightarrow> string \<Rightarrow> string \<Rightarrow> string \<Rightarrow> string option \<Rightarrow> string option \<Rightarrow>
     (world, unit) action" where
  "write_external_audit E tenant cid actor act outcome reason tool uri =
     mbind (new_id E ''extaudit'') (\<lambda>yid.
     mbind (utc_now E) (\<lambda>now.
     insert_call_audit_row \<lparr>y_id = yid, y_tenant = tenant, y_connection = cid, y_actor = actor,
       y_action = act, y_outcome = outcome,
       y_reason = (if reason = [] \<or> length reason > 128 then ''unspecified'' else reason),
       y_tool = tool, y_resource = None, y_created = now\<rparr>))"

definition record_external_call ::
    "env \<Rightarrow> string \<Rightarrow> string \<Rightarrow> string \<Rightarrow> string \<Rightarrow> string \<Rightarrow> string \<Rightarrow> string option \<Rightarrow> string option \<Rightarrow>
     (world, unit) action" where
  "record_external_call E tenant cid actor act outcome reason tool uri =
     transact (write_external_audit E tenant cid actor act outcome reason tool uri)"

text \<open>A denial is recorded when the tenant exists; whatever goes wrong is swallowed.\<close>

definition record_external_denial ::
    "env \<Rightarrow> string \<Rightarrow> string \<Rightarrow> string \<Rightarrow> string \<Rightarrow> string \<Rightarrow> string option \<Rightarrow> string option \<Rightarrow>
     (world, unit) action" where
  "record_external_denial E tenant cid actor act reason tool uri =
     mtry (transact (
       mbind (query (\<lambda>db. has_tenant db tenant)) (\<lambda>known.
       if known then write_external_audit E tenant cid actor act ''denied'' reason tool uri else mret ())))
       (\<lambda>_. mret ())"

definition external_mcp_audit ::
    "database \<Rightarrow> string \<Rightarrow> string \<Rightarrow> string option \<Rightarrow> int \<Rightarrow> py_exn + call_audit_row list" where
  "external_mcp_audit db tenant actor cid limit =
     ebind (validate_text ''tenant_id'' tenant MAX_NAME_LENGTH) (\<lambda>_.
     ebind (validate_text ''actor'' actor MAX_NAME_LENGTH) (\<lambda>_.
     Inr (take (clamp 1 MAX_EXTERNAL_LIST_ITEMS limit)
       (rev (sort_key (\<lambda>r. (y_created r, y_id r)) (filter (\<lambda>r. y_tenant r = tenant
          \<and> (case cid of None \<Rightarrow> True | Some c \<Rightarrow> y_connection r = c)) (t_call_audit db)))))))"

section \<open>Registration\<close>

definition insert_connection_row :: "connection_row \<Rightarrow> (world, unit) action" where
  "insert_connection_row r = execute
     (\<lambda>db. x_id r \<notin> x_id ` set (t_connections db) \<and> has_tenant db (x_tenant r)
        \<and> (x_tenant r, x_name r) \<notin> (\<lambda>c. (x_tenant c, x_name c)) ` set (t_connections db)
        \<and> x_transport r = ''streamable_http'' \<and> x_status r \<in> set [''active'', ''revoked'']
        \<and> x_health r \<in> set [''unknown'', ''healthy'', ''unhealthy''])
     (\<lambda>db. db\<lparr>t_connections := t_connections db @ [r]\<rparr>)"

definition json_list_text :: "string list \<Rightarrow> string" where
  "json_list_text xs = dumps (JArr (map JStr xs))"

record registration =
  rg_name :: string
  rg_endpoint :: string
  rg_tools :: "string list"
  rg_resources :: "string list"
  rg_origins :: "string list"
  rg_policy :: "json option"
  rg_credential :: "string option"
  rg_reason :: string

text \<open>The checks before anything is written: the endpoint's origin, the sorted lists, the policy text
  and the credential reference.\<close>

definition check_registration ::
    "env \<Rightarrow> ip_table \<Rightarrow> string \<Rightarrow> string \<Rightarrow> registration \<Rightarrow>
     py_exn + string \<times> string list \<times> string list \<times> string list \<times> string \<times> string option" where
  "check_registration E ip tenant actor g =
     ebind (validate_text ''tenant_id'' tenant MAX_NAME_LENGTH) (\<lambda>_.
     ebind (validate_text ''actor'' actor MAX_NAME_LENGTH) (\<lambda>_.
     ebind (validate_text ''name'' (rg_name g) MAX_EXTERNAL_CONNECTION_NAME_LENGTH) (\<lambda>_.
     ebind (validate_text ''reason'' (rg_reason g) MAX_REASON_LENGTH) (\<lambda>_.
     ebind (external_origin E ip (rg_endpoint g) True) (\<lambda>origin.
     ebind (external_items ''approved_tools'' (rg_tools g)) (\<lambda>tools.
     ebind (external_items ''approved_resources'' (rg_resources g)) (\<lambda>items.
     ebind (emap_list (resource_uri E ip) items) (\<lambda>resources.
     ebind (emap_list (\<lambda>v. external_origin E ip v False) (rg_origins g)) (\<lambda>origins.
     ebind (guard_raise (tools = [] \<and> resources = [])
       (FolioError ''external MCP connection needs an explicit tool or resource allowlist'')) (\<lambda>_.
     ebind (guard_raise (origin \<notin> set origins)
       (FolioError ''external MCP endpoint origin must be explicitly allowed'')) (\<lambda>_.
     ebind (external_policy (rg_policy g)) (\<lambda>policy.
     ebind (external_credential_ref E ip (rg_credential g)) (\<lambda>credential.
     Inr (origin, tools, resources, sort origins, policy, credential))))))))))))))"

definition register_external_connection ::
    "env \<Rightarrow> ip_table \<Rightarrow> string \<Rightarrow> string \<Rightarrow> registration \<Rightarrow> (world, public_connection) action" where
  "register_external_connection E ip tenant actor g =
     mbind (mlift (check_registration E ip tenant actor g)) (\<lambda>(origin, tools, resources, origins, policy, credential).
     mbind (new_id E ''extconn'') (\<lambda>cid.
     mbind (utc_now E) (\<lambda>now.
     mbind (mtry (transact (
       mbind (ensure_tenant E tenant) (\<lambda>_.
       mbind (insert_connection_row \<lparr>x_id = cid, x_tenant = tenant, x_name = rg_name g,
          x_endpoint = rg_endpoint g, x_origin = origin, x_transport = ''streamable_http'',
          x_tools = json_list_text tools, x_resources = json_list_text resources,
          x_origins = json_list_text origins, x_policy_json = policy, x_credential = credential,
          x_status = ''active'', x_health = ''unknown'', x_health_at = None, x_created_by = actor,
          x_created = now, x_revoked_by = None, x_revoked_at = None,
          x_policy_version = EXTERNAL_MCP_POLICY_VERSION\<rparr>) (\<lambda>_.
       mtry (write_external_audit E tenant cid actor ''register'' ''allowed'' ''unspecified'' None None)
         (\<lambda>_. mraise (FolioError ''external MCP registration failed''))))))
       (\<lambda>e. mraise (if e = IntegrityError
          then FolioError ''external MCP connection name already exists'' else e))) (\<lambda>_.
     query_or_raise (\<lambda>db. external_connection_status E ip db tenant cid actor)))))"

section \<open>Health, revocation and the call fence\<close>

definition update_connection ::
    "string \<Rightarrow> string \<Rightarrow> (connection_row \<Rightarrow> connection_row) \<Rightarrow> (world, unit) action" where
  "update_connection tenant cid f = execute (\<lambda>db. True)
     (\<lambda>db. db\<lparr>t_connections := map (\<lambda>r. if x_id r = cid \<and> x_tenant r = tenant then f r else r)
        (t_connections db)\<rparr>)"

definition set_health :: "string \<Rightarrow> string \<Rightarrow> connection_row \<Rightarrow> connection_row" where
  "set_health status now r = r\<lparr>x_health := status, x_health_at := Some now\<rparr>"

definition set_revoked :: "string \<Rightarrow> string \<Rightarrow> connection_row \<Rightarrow> connection_row" where
  "set_revoked actor now r = r\<lparr>x_status := ''revoked'', x_revoked_by := Some actor, x_revoked_at := Some now\<rparr>"

definition record_external_health ::
    "env \<Rightarrow> string \<Rightarrow> string \<Rightarrow> string \<Rightarrow> string \<Rightarrow> (world, unit) action" where
  "record_external_health E tenant cid actor status =
     mbind (mguard (status \<notin> set [''healthy'', ''unhealthy''])
       (FolioError ''external MCP health status is invalid'')) (\<lambda>_.
     transact (
       mbind (query_or_raise (\<lambda>db. external_row db tenant cid)) (\<lambda>c.
       mbind (mguard (x_status (cn_row c) = ''revoked'')
         (FolioError ''external MCP connection is revoked'')) (\<lambda>_.
       mbind (utc_now E) (\<lambda>now.
       mbind (update_connection tenant cid (set_health status now)) (\<lambda>_.
       write_external_audit E tenant cid actor ''health_check'' status ''unspecified'' None None))))))"

definition revoke_external_connection ::
    "env \<Rightarrow> ip_table \<Rightarrow> string \<Rightarrow> string \<Rightarrow> string \<Rightarrow> string \<Rightarrow> (world, public_connection) action" where
  "revoke_external_connection E ip tenant cid actor reason =
     mbind (mlift (validate_text ''actor'' actor MAX_NAME_LENGTH)) (\<lambda>_.
     mbind (mlift (validate_text ''reason'' reason MAX_REASON_LENGTH)) (\<lambda>_.
     mbind (transact (
       mbind (query_or_raise (\<lambda>db. external_row db tenant cid)) (\<lambda>c.
       mbind (if x_status (cn_row c) = ''revoked'' then mret ''already_revoked''
              else mbind (utc_now E) (\<lambda>now.
                mbind (update_connection tenant cid (set_revoked actor now)) (\<lambda>_. mret ''revoked''))) (\<lambda>outcome.
       mbind (write_external_audit E tenant cid actor ''revoke'' outcome ''unspecified'' None None) (\<lambda>_.
       query_or_raise (\<lambda>db. external_row db tenant cid)))))) (\<lambda>c.
     mret (connection_public E ip c))))"

text \<open>\<open>with external_call_fence(...) as connection\<close>: the body runs inside the registry's write
  transaction, so no revocation can come between the check and the body.\<close>

definition external_call_fence ::
    "string \<Rightarrow> string \<Rightarrow> (connection \<Rightarrow> (world, 'a) action) \<Rightarrow> (world, 'a) action" where
  "external_call_fence tenant cid body = transact (
     mbind (query_or_raise (\<lambda>db. external_row db tenant cid)) (\<lambda>c.
     mbind (mguard (x_status (cn_row c) \<noteq> ''active'')
       (FolioError ''external MCP connection is revoked'')) (\<lambda>_.
     body c)))"

section \<open>The checks before a call\<close>

definition deny ::
    "env \<Rightarrow> string \<Rightarrow> string \<Rightarrow> string \<Rightarrow> string \<Rightarrow> string \<Rightarrow> string option \<Rightarrow> py_exn \<Rightarrow> (world, 'a) action" where
  "deny E tenant cid actor act reason tool e =
     mbind (record_external_denial E tenant cid actor act reason tool None) (\<lambda>_. mraise e)"

text \<open>\<open>except FolioError\<close> around the lookup: the denial is recorded and the error raised again.\<close>

definition lookup_or_deny ::
    "env \<Rightarrow> string \<Rightarrow> string \<Rightarrow> string \<Rightarrow> string \<Rightarrow> string option \<Rightarrow> (world, connection) action" where
  "lookup_or_deny E tenant cid actor act tool =
     mtry (query_or_raise (\<lambda>db. connection_for_broker db tenant cid actor)) (\<lambda>e.
       case e of FolioError _ \<Rightarrow> deny E tenant cid actor act ''not_authorized'' tool e | _ \<Rightarrow> mraise e)"

definition authorize_external_tool ::
    "env \<Rightarrow> string \<Rightarrow> string \<Rightarrow> string \<Rightarrow> string \<Rightarrow> json \<Rightarrow> (world, connection) action" where
  "authorize_external_tool E tenant cid tool actor args =
     mbind (lookup_or_deny E tenant cid actor ''tool_call'' (Some tool)) (\<lambda>c.
     if x_status (cn_row c) \<noteq> ''active''
     then deny E tenant cid actor ''tool_call'' ''not_authorized'' (Some tool)
       (FolioError ''external MCP connection is revoked'')
     else if tool \<notin> set (cn_tools c)
     then deny E tenant cid actor ''tool_call'' ''not_authorized'' (Some tool)
       (FolioError ''external MCP tool is not approved'')
     else case dumps_strict args of
       None \<Rightarrow> mraise (FolioError ''external MCP tool arguments are invalid'')
     | Some encoded \<Rightarrow>
         if length (utf8 encoded) > MAX_EXTERNAL_ARGUMENT_BYTES
         then mraise (FolioError ''external MCP tool arguments exceed the allowed size'')
         else mret c)"

definition authorize_external_resource ::
    "env \<Rightarrow> ip_table \<Rightarrow> string \<Rightarrow> string \<Rightarrow> string \<Rightarrow> string \<Rightarrow> (world, connection) action" where
  "authorize_external_resource E ip tenant cid uri actor =
     (if resource_uri_is_unsafe E ip uri
      then deny E tenant cid actor ''resource_read'' ''resource_uri_invalid'' None
        (FolioError ''external MCP resource is not approved'')
      else mbind (lookup_or_deny E tenant cid actor ''resource_read'' None) (\<lambda>c.
        if x_status (cn_row c) \<noteq> ''active''
        then deny E tenant cid actor ''resource_read'' ''not_authorized'' None
          (FolioError ''external MCP connection is revoked'')
        else if uri \<notin> set (cn_resources c)
        then deny E tenant cid actor ''resource_read'' ''not_authorized'' None
          (FolioError ''external MCP resource is not approved'')
        else mret c))"

section \<open>How the registry may change\<close>

text \<open>Who a connection is and what it approves never changes, and revocation is final.\<close>

definition connection_le :: "connection_row \<Rightarrow> connection_row \<Rightarrow> bool" where
  "connection_le r r' \<longleftrightarrow> x_id r' = x_id r \<and> x_tenant r' = x_tenant r \<and> x_name r' = x_name r
     \<and> x_endpoint r' = x_endpoint r \<and> x_origin r' = x_origin r \<and> x_tools r' = x_tools r
     \<and> x_resources r' = x_resources r \<and> x_origins r' = x_origins r
     \<and> x_policy_json r' = x_policy_json r \<and> x_credential r' = x_credential r
     \<and> (x_status r = ''revoked'' \<longrightarrow> x_status r' = ''revoked'')"

definition registry_grows :: "world \<Rightarrow> world \<Rightarrow> bool" where
  "registry_grows w w' \<longleftrightarrow>
     list_all2 connection_le (t_connections (w_db w))
       (take (length (t_connections (w_db w))) (t_connections (w_db w')))
     \<and> (\<exists>new. t_call_audit (w_db w') = t_call_audit (w_db w) @ new \<and> (\<forall>y \<in> set new. y_resource y = None))"

lemma connection_le_refl: "connection_le r r"
  by (simp add: connection_le_def)

lemma connection_le_trans: "connection_le a b \<Longrightarrow> connection_le b c \<Longrightarrow> connection_le a c"
  by (auto simp: connection_le_def)

lemma prefix_le_trans:
  assumes "list_all2 connection_le a (take (length a) b)" "list_all2 connection_le b (take (length b) c)"
  shows "list_all2 connection_le a (take (length a) c)"
proof -
  from assms(1) have l: "length a \<le> length b" by (auto dest: list_all2_lengthD)
  from assms(2) have "list_all2 connection_le (take (length a) b) (take (length a) (take (length b) c))"
    by (rule list_all2_takeI)
  with l have "list_all2 connection_le (take (length a) b) (take (length a) c)" by (simp add: min_def)
  with assms(1) show ?thesis
    unfolding list_all2_conv_all_nth by (metis connection_le_trans)
qed

interpretation registry: world_relation registry_grows
proof
  show "registry_grows w w" for w by (simp add: registry_grows_def list_all2_refl connection_le_refl)
  show "registry_grows w v" if "registry_grows w u" "registry_grows u v" for w u v
    using that prefix_le_trans by (fastforce simp: registry_grows_def)
qed (auto simp: registry_grows_def list_all2_refl connection_le_refl)

text \<open>An operation that leaves both tables of the registry alone.\<close>

lemma registry_execute:
  "(\<And>db. t_connections (f db) = t_connections db \<and> t_call_audit (f db) = t_call_audit db) \<Longrightarrow>
    steps_by registry_grows (execute ok f)"
  by (rule registry.steps_execute) (simp add: registry_grows_def list_all2_refl connection_le_refl)

lemma registry_ensure_tenant: "steps_by registry_grows (ensure_tenant E t)"
  unfolding ensure_tenant_def insert_or_ignore_tenant_def
  by (intro registry.world_intros registry_execute) auto

lemma registry_audit: "steps_by registry_grows (write_external_audit E t c a act out why tool uri)"
  unfolding write_external_audit_def insert_call_audit_row_def
  by (intro registry.world_intros registry.steps_execute)
    (simp add: registry_grows_def list_all2_refl connection_le_refl)

lemma registry_insert: "steps_by registry_grows (insert_connection_row r)"
  unfolding insert_connection_row_def
  by (rule registry.steps_execute) (simp add: registry_grows_def list_all2_refl connection_le_refl)

lemma registry_update:
  "(\<And>r. connection_le r (f r)) \<Longrightarrow> steps_by registry_grows (update_connection t c f)"
  unfolding update_connection_def
  by (rule registry.steps_execute)
    (auto simp: registry_grows_def list_all2_conv_all_nth connection_le_refl)

lemmas registry_intros = registry.world_intros registry_ensure_tenant registry_audit registry_insert registry_update

lemma registry_denial: "steps_by registry_grows (record_external_denial E t c a act why tool uri)"
  unfolding record_external_denial_def by (intro registry_intros)

lemma registry_deny: "steps_by registry_grows (deny E t c a act why tool e)"
  unfolding deny_def by (intro registry_intros registry_denial)

lemma registry_lookup: "steps_by registry_grows (lookup_or_deny E t c a act tool)"
  unfolding lookup_or_deny_def
  by (intro registry_intros) (auto intro!: registry_intros registry_deny split: py_exn.split)

lemma registry_tool: "steps_by registry_grows (authorize_external_tool E t c tool a args)"
  unfolding authorize_external_tool_def by (intro registry_intros registry_lookup registry_deny)

lemma registry_resource: "steps_by registry_grows (authorize_external_resource E ip t c uri a)"
  unfolding authorize_external_resource_def by (intro registry_intros registry_lookup registry_deny)

lemma registry_call: "steps_by registry_grows (record_external_call E t c a act out why tool uri)"
  unfolding record_external_call_def by (intro registry_intros)

lemma registry_health: "steps_by registry_grows (record_external_health E t c a st)"
  unfolding record_external_health_def
  by (intro registry_intros) (simp add: connection_le_def set_health_def)

lemma registry_revoke: "steps_by registry_grows (revoke_external_connection E ip t c a why)"
  unfolding revoke_external_connection_def
  by (intro registry_intros) (simp add: connection_le_def set_revoked_def)

lemma registry_register: "steps_by registry_grows (register_external_connection E ip t a g)"
  unfolding register_external_connection_def
  by (intro registry_intros) (auto intro!: registry_intros split: prod.split)

lemma registry_fence:
  "(\<And>c. steps_by registry_grows (body c)) \<Longrightarrow> steps_by registry_grows (external_call_fence t cid body)"
  unfolding external_call_fence_def by (intro registry_intros)

section \<open>The registry leaves the artifact graph alone\<close>

lemma framed_external_audit: "steps_by framed (write_external_audit E t c a act out why tool uri)"
  unfolding write_external_audit_def insert_call_audit_row_def
  by (intro framed.world_intros framed_execute) (simp add: same_graph_def)

lemma framed_insert_connection: "steps_by framed (insert_connection_row r)"
  unfolding insert_connection_row_def by (rule framed_execute) (simp add: same_graph_def)

lemma framed_update_connection: "steps_by framed (update_connection t c f)"
  unfolding update_connection_def by (rule framed_execute) (simp add: same_graph_def)

lemmas external_framed = framed.world_intros framed_ensure_tenant framed_external_audit
  framed_insert_connection framed_update_connection

lemma framed_deny: "steps_by framed (deny E t c a act why tool e)"
  unfolding deny_def record_external_denial_def by (intro external_framed)

lemma framed_lookup: "steps_by framed (lookup_or_deny E t c a act tool)"
  unfolding lookup_or_deny_def
  by (intro external_framed) (auto intro!: external_framed framed_deny split: py_exn.split)

lemma framed_external:
  "steps_by framed (register_external_connection E ip t a g)"
  "steps_by framed (authorize_external_tool E t c tool a args)"
  "steps_by framed (authorize_external_resource E ip t c uri a)"
  "steps_by framed (record_external_call E t c a act out why used addr)"
  "steps_by framed (record_external_health E t c a st)"
  "steps_by framed (revoke_external_connection E ip t c a why)"
  unfolding register_external_connection_def authorize_external_tool_def authorize_external_resource_def
    record_external_call_def record_external_health_def revoke_external_connection_def
  by (intro external_framed framed_lookup framed_deny; auto intro!: external_framed split: prod.split)+

section \<open>Finding a connection later\<close>

lemma find_prefix:
  assumes "list_all2 connection_le old (take (length old) new)" "\<And>r r'. connection_le r r' \<Longrightarrow> P r' = P r"
    "List.find P old = Some r"
  shows "\<exists>r'. List.find P new = Some r' \<and> connection_le r r'"
  using assms(1,3)
proof (induction old arbitrary: new)
  case (Cons p ps)
  then obtain n ns where new: "new = n # ns" "connection_le p n" "list_all2 connection_le ps (take (length ps) ns)"
    by (cases new) auto
  from assms(2) [OF new(2)] Cons.prems(2) Cons.IH [OF new(3)] new(1,2) show ?case
    by (auto split: if_splits)
qed simp

lemma find_connection_later:
  assumes "registry_grows w w'" "find_connection (w_db w) t c = Some r"
  shows "\<exists>r'. find_connection (w_db w') t c = Some r' \<and> connection_le r r'"
  using assms unfolding find_connection_def registry_grows_def
  by (intro find_prefix) (auto simp: connection_le_def)

lemma external_row_Inr:
  "external_row db t cid = Inr c \<longleftrightarrow> find_connection db t cid = Some (cn_row c)
    \<and> external_json_list (x_tools (cn_row c)) = Inr (cn_tools c)
    \<and> external_json_list (x_resources (cn_row c)) = Inr (cn_resources c)
    \<and> external_json_list (x_origins (cn_row c)) = Inr (cn_origins c)
    \<and> external_policy_dict (x_policy_json (cn_row c)) = Inr (cn_policy c)"
  by (cases c) (auto simp: external_row_def ebind_Inr_iff split: option.splits)

inductive registry_step :: "env \<Rightarrow> ip_table \<Rightarrow> world \<Rightarrow> world \<Rightarrow> bool" for E ip where
  register: "register_external_connection E ip t a g w = (r, w') \<Longrightarrow> registry_step E ip w w'"
| health: "record_external_health E t c a st w = (u, w') \<Longrightarrow> registry_step E ip w w'"
| revoke: "revoke_external_connection E ip t c a why w = (r, w') \<Longrightarrow> registry_step E ip w w'"
| tool: "authorize_external_tool E t c nm a args w = (x, w') \<Longrightarrow> registry_step E ip w w'"
| resource: "authorize_external_resource E ip t c uri a w = (x, w') \<Longrightarrow> registry_step E ip w w'"
| call: "record_external_call E t c a act out why used uri w = (u, w') \<Longrightarrow> registry_step E ip w w'"

lemma registry_step_grows: "registry_step E ip w w' \<Longrightarrow> registry_grows w w'"
  by (induction rule: registry_step.induct)
    (auto dest: steps_byD [OF registry_register] steps_byD [OF registry_health] steps_byD [OF registry_revoke]
      steps_byD [OF registry_tool] steps_byD [OF registry_resource] steps_byD [OF registry_call])

lemma registry_run_grows: "(registry_step E ip)\<^sup>*\<^sup>* w w' \<Longrightarrow> registry_grows w w'"
  by (induction rule: rtranclp_induct) (auto intro: registry.R_refl registry.R_trans registry_step_grows)

text \<open>What a successful check says.\<close>

lemma lookup_Inr:
  "lookup_or_deny E t c a act tool w = (Inr x, w') \<longleftrightarrow> w' = w \<and> connection_for_broker (w_db w) t c a = Inr x"
  by (auto simp: lookup_or_deny_def mtry_def query_or_raise_def deny_def mbind_def mraise_def
      split: sum.splits prod.splits py_exn.splits)

lemma deny_Inr [simp]: "deny E t c a act why tool e w \<noteq> (Inr x, w')"
  by (auto simp: deny_def mbind_def mraise_def split: prod.splits sum.splits)

lemma broker_Inr: "connection_for_broker db t c a = Inr x \<Longrightarrow> external_row db t c = Inr x"
  by (auto simp: connection_for_broker_def ebind_Inr_iff)

lemma tool_Inr:
  assumes "authorize_external_tool E t c tool a args w = (Inr x, w')"
  shows "w' = w \<and> external_row (w_db w) t c = Inr x \<and> x_status (cn_row x) = ''active'' \<and> tool \<in> set (cn_tools x)
    \<and> (\<exists>encoded. dumps_strict args = Some encoded \<and> length (utf8 encoded) \<le> MAX_EXTERNAL_ARGUMENT_BYTES)"
  using assms unfolding authorize_external_tool_def
  by (auto simp: mbind_Inr_iff lookup_Inr mret_iff mraise_iff dest: broker_Inr split: if_splits option.splits)

lemma resource_Inr:
  assumes "authorize_external_resource E ip t c uri a w = (Inr x, w')"
  shows "w' = w \<and> external_row (w_db w) t c = Inr x \<and> x_status (cn_row x) = ''active''
    \<and> uri \<in> set (cn_resources x) \<and> \<not> resource_uri_is_unsafe E ip uri"
  using assms unfolding authorize_external_resource_def
  by (auto simp: mbind_Inr_iff lookup_Inr mret_iff dest: broker_Inr split: if_splits)

lemma find_updated:
  "(\<And>r. x_id (f r) = x_id r \<and> x_tenant (f r) = x_tenant r) \<Longrightarrow>
    List.find (\<lambda>r. x_id r = c \<and> x_tenant r = t) (map (\<lambda>r. if x_id r = c \<and> x_tenant r = t then f r else r) rs)
    = map_option f (List.find (\<lambda>r. x_id r = c \<and> x_tenant r = t) rs)"
  by (induction rs) auto

text \<open>When \<open>revoke_external_connection\<close> returns, the connection is revoked.\<close>

lemma revoke_Inr:
  assumes "revoke_external_connection E ip t c a why w = (Inr p, w')"
  shows "\<exists>r. find_connection (w_db w') t c = Some r \<and> x_status r = ''revoked''"
proof -
  from assms obtain x outcome w1 w2 x' where row: "external_row (w_db w) t c = Inr x"
    and b: "(if x_status (cn_row x) = ''revoked'' then mret ''already_revoked''
        else mbind (utc_now E) (\<lambda>now. mbind (update_connection t c (set_revoked a now)) (\<lambda>_. mret ''revoked''))) w
      = (Inr outcome, w1)"
    and au: "write_external_audit E t c a ''revoke'' outcome ''unspecified'' None None w1 = (Inr (), w2)"
    and w': "external_row (w_db w2) t c = Inr x'" "w' = w2"
    unfolding revoke_external_connection_def
    by (clarsimp simp: mbind_Inr_iff mlift_iff transact_Inr query_or_raise_iff mret_iff simp del: if_split)
  have f: "find_connection (w_db w) t c = Some (cn_row x)" using row by (simp add: external_row_Inr)
  have "\<exists>r. find_connection (w_db w1) t c = Some r \<and> x_status r = ''revoked''"
  proof (cases "x_status (cn_row x) = ''revoked''")
    case True
    with b f show ?thesis by (simp add: mret_def)
  next
    case False
    with b f show ?thesis
      by (auto simp: mbind_def utc_now_def update_connection_def execute_def mret_def find_connection_def
          find_updated set_revoked_def)
  qed
  then obtain r where r: "find_connection (w_db w1) t c = Some r" "x_status r = ''revoked''" by blast
  from find_connection_later [OF steps_byD [OF registry_audit au] r(1)] r(2) w' show ?thesis
    by (auto simp: connection_le_def)
qed

lemma external_row_raises: "external_row db t c = Inl e \<Longrightarrow> \<exists>m. e = FolioError m"
  by (auto simp: external_row_def external_json_list_def external_policy_dict_def policy_error_def ebind_Inl_iff
      split: option.splits json.splits if_splits)

lemma lookup_run:
  assumes "strip t \<noteq> [] \<and> length t \<le> 255" "strip a \<noteq> [] \<and> length a \<le> 255"
  shows "lookup_or_deny E t c a act tool w = (case external_row (w_db w) t c of
      Inr x \<Rightarrow> (Inr x, w) | Inl e \<Rightarrow> deny E t c a act ''not_authorized'' tool e w)"
proof -
  from assms have "validate_text ''tenant_id'' t MAX_NAME_LENGTH = Inr t" "validate_text ''actor'' a MAX_NAME_LENGTH = Inr a"
    by (simp_all add: validate_text_Inr MAX_NAME_LENGTH_def)
  with external_row_raises [of "w_db w" t c] show ?thesis
    by (auto simp: lookup_or_deny_def mtry_def query_or_raise_def connection_for_broker_def split: sum.split)
qed

text \<open>A denial for a known tenant adds one audit row and no more.\<close>

lemma deny_run:
  assumes "has_tenant (w_db w) t" "ident E ''extaudit'' (w_ids w) \<notin> y_id ` set (t_call_audit (w_db w))"
    "deny E t c a act why tool err w = (r, w')"
  shows "\<exists>row. w_db w' = (w_db w)\<lparr>t_call_audit := t_call_audit (w_db w) @ [row]\<rparr> \<and> y_outcome row = ''denied''
      \<and> y_connection row = c \<and> y_actor row = a \<and> y_tool row = tool \<and> y_resource row = None"
proof -
  from assms have "w_db w' = (w_db w)\<lparr>t_call_audit := t_call_audit (w_db w) @
      [\<lparr>y_id = ident E ''extaudit'' (w_ids w), y_tenant = t, y_connection = c, y_actor = a, y_action = act,
        y_outcome = ''denied'', y_reason = (if why = [] \<or> length why > 128 then ''unspecified'' else why),
        y_tool = tool, y_resource = None, y_created = clock_iso E (w_now w)\<rparr>]\<rparr>"
    by (auto simp: deny_def record_external_denial_def write_external_audit_def insert_call_audit_row_def
      mbind_def mtry_def mret_def mraise_def transact_def query_def mget_def new_id_def utc_now_def execute_def)
  then show ?thesis by auto
qed

lemma deny_raises: "deny E t c a act why tool err w = (r, u) \<Longrightarrow> r = Inl err"
  by (auto simp: deny_def record_external_denial_def mbind_def mtry_def mret_def mraise_def
      split: prod.splits sum.splits)

section \<open>What registration stores\<close>

lemma list_text_round: "external_json_list (json_list_text xs) = Inr xs"
proof -
  have "wf_json (JArr (map JStr xs))" by (simp add: list_all_iff)
  then have "loads (json_list_text xs) = Some (JArr (map JStr xs))" unfolding json_list_text_def by (rule loads_dumps)
  then show ?thesis by (simp add: external_json_list_def list_all_iff is_jstr_def comp_def)
qed

lemma external_origin_Inr:
  assumes "external_origin E ip v True = Inr origin"
  shows "\<exists>u host. urlsplit ip v = Some u \<and> su_scheme u = ''https'' \<and> bare_url u \<and> su_path u \<noteq> []
    \<and> hostname u = Some host \<and> (\<forall>info. ip host \<noteq> Some (info, False))"
  using assms unfolding external_origin_def
  by (auto split: if_splits option.splits)

lemma external_items_Inr:
  "external_items f xs = Inr ys \<longleftrightarrow> length xs \<le> MAX_EXTERNAL_LIST_ITEMS \<and> distinct xs \<and> ys = sort xs
    \<and> (\<forall>x \<in> set xs. exact_text MAX_EXTERNAL_ITEM_LENGTH x \<and> CHR ''*'' \<notin> set x)"
  by (auto simp: external_items_def list_ex_iff)

lemma resources_Inr:
  "emap_list (resource_uri E ip) xs = Inr ys \<longleftrightarrow> ys = xs \<and> (\<forall>x \<in> set xs. \<not> resource_uri_is_unsafe E ip x)"
  by (induction xs arbitrary: ys) (auto simp: ebind_Inr_iff resource_uri_def)

lemma check_registration_Inr:
  assumes "check_registration E ip t a g = Inr (origin, tools, resources, origins, policy, credential)"
  shows "external_origin E ip (rg_endpoint g) True = Inr origin
    \<and> tools = sort (rg_tools g) \<and> distinct tools \<and> resources = sort (rg_resources g)
    \<and> (\<forall>x \<in> set tools. CHR ''*'' \<notin> set x) \<and> (\<forall>x \<in> set resources. \<not> resource_uri_is_unsafe E ip x)
    \<and> (tools \<noteq> [] \<or> resources \<noteq> []) \<and> origin \<in> set origins"
  using assms unfolding check_registration_def
  by (clarsimp simp: ebind_Inr_iff guard_raise_Inr external_items_Inr resources_Inr)

lemma ensure_tenant_connections:
  "ensure_tenant E t w = (r, w') \<Longrightarrow> t_connections (w_db w') = t_connections (w_db w)"
  by (auto simp: ensure_tenant_def insert_or_ignore_tenant_def run_simps execute_iff utc_now_iff mbind_def
      mlift_def utc_now_def execute_def split: sum.splits)

lemma external_audit_connections:
  "write_external_audit E t c a act out why tool uri w = (r, w') \<Longrightarrow> t_connections (w_db w') = t_connections (w_db w)"
  by (auto simp: write_external_audit_def insert_call_audit_row_def mbind_def new_id_def utc_now_def execute_def
      split: if_splits)

lemma register_Inr:
  assumes "register_external_connection E ip t a g w = (Inr p, w')"
  shows "\<exists>row origin tools resources origins policy credential.
    check_registration E ip t a g = Inr (origin, tools, resources, origins, policy, credential)
    \<and> t_connections (w_db w') = t_connections (w_db w) @ [row]
    \<and> x_tenant row = t \<and> x_name row = rg_name g \<and> x_endpoint row = rg_endpoint g \<and> x_origin row = origin
    \<and> x_status row = ''active'' \<and> x_tools row = json_list_text tools
    \<and> x_resources row = json_list_text resources \<and> x_origins row = json_list_text origins
    \<and> (t, rg_name g) \<notin> (\<lambda>c. (x_tenant c, x_name c)) ` set (t_connections (w_db w))"
proof -
  from assms obtain origin tools resources origins policy credential w1 w2 where
      chk: "check_registration E ip t a g = Inr (origin, tools, resources, origins, policy, credential)"
    and te: "ensure_tenant E t (w\<lparr>w_ids := Suc (w_ids w), w_now := Suc (w_now w)\<rparr>) = (Inr (), w1)"
    and ins: "insert_connection_row \<lparr>x_id = ident E ''extconn'' (w_ids w), x_tenant = t, x_name = rg_name g,
          x_endpoint = rg_endpoint g, x_origin = origin, x_transport = ''streamable_http'',
          x_tools = json_list_text tools, x_resources = json_list_text resources,
          x_origins = json_list_text origins, x_policy_json = policy, x_credential = credential,
          x_status = ''active'', x_health = ''unknown'', x_health_at = None, x_created_by = a,
          x_created = clock_iso E (w_now w), x_revoked_by = None, x_revoked_at = None,
          x_policy_version = EXTERNAL_MCP_POLICY_VERSION\<rparr> w1 = (Inr (), w2)"
    and au: "write_external_audit E t (ident E ''extconn'' (w_ids w)) a ''register'' ''allowed'' ''unspecified'' None None w2
      = (Inr (), w')"
    unfolding register_external_connection_def
    by (clarsimp simp: mbind_Inr_iff mlift_iff transact_Inr query_or_raise_iff mtry_Inr mraise_iff new_id_iff utc_now_iff)
  have "t_connections (w_db w1) = t_connections (w_db w)" using ensure_tenant_connections [OF te] by simp
  with ins chk external_audit_connections [OF au] show ?thesis
    by (auto simp: insert_connection_row_def execute_iff split: if_splits)
qed

section \<open>Properties\<close>

text \<open>C35: Revocation is final: once \<open>revoke_external_connection\<close> has returned for a connection, then
  after any further sequence of registry operations (registrations, health results, revocations,
  checks, call records) no tool call and no resource read of that connection is authorized, and the
  call fence never runs its body.\<close>

theorem revocation_is_final:
  assumes "revoke_external_connection E ip t c actor why w = (Inr p, w1)"
    and "(registry_step E ip)\<^sup>*\<^sup>* w1 w2"
  shows "(\<forall>x. fst (authorize_external_tool E t c tool who args w2) \<noteq> Inr x)
    \<and> (\<forall>x. fst (authorize_external_resource E ip t c uri who w2) \<noteq> Inr x)
    \<and> (\<exists>e. external_call_fence t c body w2 = (Inl e, w2))"
proof -
  from revoke_Inr [OF assms(1)] obtain r1 where r1: "find_connection (w_db w1) t c = Some r1" "x_status r1 = ''revoked''"
    by blast
  from find_connection_later [OF registry_run_grows [OF assms(2)] r1(1)] r1(2)
  obtain r where r: "find_connection (w_db w2) t c = Some r" "x_status r = ''revoked''"
    by (auto simp: connection_le_def)
  then have row: "x_status (cn_row y) = ''revoked''" if "external_row (w_db w2) t c = Inr y" for y
    using that by (simp add: external_row_Inr)
  have "fst (authorize_external_tool E t c tool who args w2) \<noteq> Inr x" for x
  proof
    assume "fst (authorize_external_tool E t c tool who args w2) = Inr x"
    then obtain w' where "authorize_external_tool E t c tool who args w2 = (Inr x, w')" by (metis prod.collapse)
    from tool_Inr [OF this] row [of x] show False by simp
  qed
  moreover have "fst (authorize_external_resource E ip t c uri who w2) \<noteq> Inr x" for x
  proof
    assume "fst (authorize_external_resource E ip t c uri who w2) = Inr x"
    then obtain w' where "authorize_external_resource E ip t c uri who w2 = (Inr x, w')" by (metis prod.collapse)
    from resource_Inr [OF this] row [of x] show False by simp
  qed
  moreover have "\<exists>e. external_call_fence t c body w2 = (Inl e, w2)"
    using row by (cases "external_row (w_db w2) t c")
      (auto simp: external_call_fence_def transact_def mbind_def query_or_raise_def mguard_def mraise_def)
  ultimately show ?thesis by blast
qed

text \<open>Only approved calls pass, and what is refused leaves a trace: \<open>authorize_external_tool\<close>
  returns only a connection of the tenant that is active, whose registered list names the tool, and
  for arguments that are JSON of at most 64 KiB, and then changes nothing. When it refuses because the
  connection is unknown, revoked or does not approve the tool, and the tenant exists, exactly one
  audit row with the outcome \<open>denied\<close> and no resource address is added, and nothing else changes.\<close>

theorem tool_calls_are_approved:
  assumes "authorize_external_tool E t c tool actor args w = (r, w')"
    and "has_tenant (w_db w) t"
    and "ident E ''extaudit'' (w_ids w) \<notin> y_id ` set (t_call_audit (w_db w))"
    and "strip t \<noteq> [] \<and> length t \<le> 255" and "strip actor \<noteq> [] \<and> length actor \<le> 255"
  shows "case r of
      Inr x \<Rightarrow> w' = w \<and> find_connection (w_db w) t c = Some (cn_row x) \<and> x_status (cn_row x) = ''active''
        \<and> external_json_list (x_tools (cn_row x)) = Inr (cn_tools x) \<and> tool \<in> set (cn_tools x)
        \<and> (\<exists>encoded. dumps_strict args = Some encoded \<and> length (utf8 encoded) \<le> 65536)
    | Inl e \<Rightarrow>
        (if \<exists>x. external_row (w_db w) t c = Inr x \<and> x_status (cn_row x) = ''active'' \<and> tool \<in> set (cn_tools x)
         then w' = w
         else \<exists>row. w_db w' = (w_db w)\<lparr>t_call_audit := t_call_audit (w_db w) @ [row]\<rparr>
           \<and> y_outcome row = ''denied'' \<and> y_connection row = c \<and> y_actor row = actor
           \<and> y_tool row = Some tool \<and> y_resource row = None)"
proof (cases r)
  case (Inr x)
  with tool_Inr [of E t c tool actor args w x w'] assms(1) show ?thesis
    by (auto simp: external_row_Inr MAX_EXTERNAL_ARGUMENT_BYTES_def)
next
  case (Inl e)
  show ?thesis
  proof (cases "\<exists>x. external_row (w_db w) t c = Inr x \<and> x_status (cn_row x) = ''active'' \<and> tool \<in> set (cn_tools x)")
    case True
    then obtain x where x: "external_row (w_db w) t c = Inr x" "x_status (cn_row x) = ''active''" "tool \<in> set (cn_tools x)"
      by blast
    with assms(1) Inl have "w' = w"
      by (simp add: authorize_external_tool_def lookup_run [OF assms(4,5)] mbind_def mret_def mraise_def
        split: option.splits if_splits)
    with Inl True show ?thesis by simp
  next
    case False
    have raised: "(deny E t c actor ''tool_call'' ''not_authorized'' (Some tool) err w :: (py_exn + connection) \<times> world)
        = (Inl err, snd (deny E t c actor ''tool_call'' ''not_authorized'' (Some tool) err w :: (py_exn + connection) \<times> world))"
      for err by (metis deny_raises prod.collapse)
    obtain u where u: "(deny E t c actor ''tool_call'' ''not_authorized'' (Some tool) err w :: (py_exn + connection) \<times> world)
        = (Inl err, u err)" for err
      by (rule that) (rule raised)
    have "\<exists>err. deny E t c actor ''tool_call'' ''not_authorized'' (Some tool) err w = (r, w')"
    proof (cases "external_row (w_db w) t c")
      case (Inl err)
      with assms(1) have "deny E t c actor ''tool_call'' ''not_authorized'' (Some tool) err w = (r, w')"
        by (simp add: authorize_external_tool_def lookup_run [OF assms(4,5)] mbind_def u)
      then show ?thesis ..
    next
      case (Inr x)
      with False have "x_status (cn_row x) \<noteq> ''active'' \<or> tool \<notin> set (cn_tools x)" by simp
      with assms(1) Inr show ?thesis
        by (simp add: authorize_external_tool_def lookup_run [OF assms(4,5)] mbind_def split: if_splits) blast+
    qed
    then obtain err where "deny E t c actor ''tool_call'' ''not_authorized'' (Some tool) err w = (r, w')" ..
    note row = deny_run [OF assms(2,3) this]
    show ?thesis unfolding \<open>r = Inl e\<close> sum.case if_not_P [OF False] by (rule row)
  qed
qed

text \<open>What is registered is safe and explicit: a successful \<open>register_external_connection\<close> appends
  one active connection of the tenant under a name new to it; its endpoint is an \<open>https\<close> URL with a
  path and without user information, query and fragment, whose host is no address outside the public
  ranges and whose origin is on the stored list; the stored lists read back as the sorted lists of the
  request, at least one of them is not empty, no tool is a wildcard, and every resource address is safe.\<close>

theorem registered_connection_safe:
  assumes "register_external_connection E ip t actor g w = (Inr p, w')"
  shows "\<exists>row u host origins. t_connections (w_db w') = t_connections (w_db w) @ [row]
    \<and> x_tenant row = t \<and> x_status row = ''active''
    \<and> (\<forall>c \<in> set (t_connections (w_db w)). x_tenant c = t \<longrightarrow> x_name c \<noteq> x_name row)
    \<and> urlsplit ip (x_endpoint row) = Some u \<and> su_scheme u = ''https'' \<and> bare_url u \<and> su_path u \<noteq> []
    \<and> hostname u = Some host \<and> (\<forall>info. ip host \<noteq> Some (info, False))
    \<and> external_json_list (x_origins row) = Inr origins \<and> x_origin row \<in> set origins
    \<and> external_json_list (x_tools row) = Inr (sort (rg_tools g))
    \<and> external_json_list (x_resources row) = Inr (sort (rg_resources g))
    \<and> (rg_tools g \<noteq> [] \<or> rg_resources g \<noteq> []) \<and> (\<forall>x \<in> set (rg_tools g). CHR ''*'' \<notin> set x)
    \<and> (\<forall>x \<in> set (rg_resources g). \<not> resource_uri_is_unsafe E ip x)"
proof -
  from register_Inr [OF assms] obtain row origin tools resources origins policy credential where
      chk: "check_registration E ip t actor g = Inr (origin, tools, resources, origins, policy, credential)"
    and row: "t_connections (w_db w') = t_connections (w_db w) @ [row]"
      "x_tenant row = t" "x_name row = rg_name g" "x_endpoint row = rg_endpoint g" "x_origin row = origin"
      "x_status row = ''active''" "x_tools row = json_list_text tools"
      "x_resources row = json_list_text resources" "x_origins row = json_list_text origins"
      "(t, rg_name g) \<notin> (\<lambda>c. (x_tenant c, x_name c)) ` set (t_connections (w_db w))" by blast
  note ok = check_registration_Inr [OF chk]
  from ok external_origin_Inr [of E ip "rg_endpoint g" origin] obtain u host where
    u: "urlsplit ip (rg_endpoint g) = Some u" "su_scheme u = ''https''" "bare_url u" "su_path u \<noteq> []"
      "hostname u = Some host" "\<forall>info. ip host \<noteq> Some (info, False)" by blast
  have "\<forall>c \<in> set (t_connections (w_db w)). x_tenant c = t \<longrightarrow> x_name c \<noteq> x_name row"
    using row(3,10) by force
  with row u ok show ?thesis
    by (intro exI [of _ row] exI [of _ u] exI [of _ host] exI [of _ origins]) (auto simp: list_text_round)
qed

section \<open>Sample runs\<close>

definition sample_registration :: registration where
  "sample_registration = \<lparr>rg_name = ''s'', rg_endpoint = ''https://a.b/m'', rg_tools = [''f''],
     rg_resources = [], rg_origins = [''https://a.b''], rg_policy = None, rg_credential = None, rg_reason = ''r''\<rparr>"

definition no_ip :: ip_table where
  "no_ip = (\<lambda>_. None)"

lemmas url_eval = exact_text_def MAX_EXTERNAL_ENDPOINT_LENGTH_def MAX_EXTERNAL_LIST_ITEMS_def
  MAX_EXTERNAL_ITEM_LENGTH_def MAX_EXTERNAL_URI_DECODE_PASSES_def strip_def lstrip_def is_space_def ord_of_def
  ctrl_or_blank_def urlsplit_def split_scheme_def scheme_char_def is_alnum_ascii_def is_alpha_ascii_def
  is_upper_ascii_def is_digit_ascii_def starts_with_def lower_def lower_char_def bracketed_ok_def rpartition_at_def
  port_of_def host_port_def hostname_def bare_url_def userinfo_def forms_ok_def uri_forms_def unquote_def
  numeral_2_eq_2

lemma sample_origin:
  "external_origin env0 no_ip ''https://a.b'' False = Inr ''https://a.b''"
  "external_origin env0 no_ip ''https://a.b/m'' True = Inr ''https://a.b''"
  by (simp_all add: external_origin_def url_eval no_ip_def)

lemma sample_check:
  "check_registration env0 no_ip ''t'' ''a'' sample_registration = Inr (''https://a.b'', [''f''], [], [''https://a.b''], CHR 0x7B # [CHR 0x7D], None)"
  by (simp add: check_registration_def sample_registration_def sample_origin validate_text_def MAX_NAME_LENGTH_def
      MAX_REASON_LENGTH_def MAX_EXTERNAL_CONNECTION_NAME_LENGTH_def external_items_def url_eval guard_raise_def
      external_policy_def dumps_sorted_strict_def external_credential_ref_def MAX_EXTERNAL_ARGUMENT_BYTES_def
      utf8_def utf8_char_def)

definition sample_connection :: connection_row where
  "sample_connection = \<lparr>x_id = ''c'', x_tenant = ''t'', x_name = ''s'', x_endpoint = ''https://a.b/m'',
     x_origin = ''https://a.b'', x_transport = ''streamable_http'', x_tools = json_list_text [''f''],
     x_resources = json_list_text [], x_origins = json_list_text [''https://a.b''], x_policy_json = dumps (JObj []),
     x_credential = None, x_status = ''active'', x_health = ''unknown'', x_health_at = None, x_created_by = ''a'',
     x_created = ''2026'', x_revoked_by = None, x_revoked_at = None, x_policy_version = EXTERNAL_MCP_POLICY_VERSION\<rparr>"

definition registry_world :: world where
  "registry_world = empty_world\<lparr>w_db := empty_db\<lparr>t_tenants := [\<lparr>tn_id = ''t'', tn_created = ''2026''\<rparr>],
     t_connections := [sample_connection]\<rparr>\<rparr>"

lemma empty_policy: "external_policy_dict (dumps (JObj [])) = Inr (JObj [])"
proof -
  have "loads (dumps (JObj [])) = Some (JObj [])" by (rule loads_dumps) simp
  then show ?thesis by (simp add: external_policy_dict_def)
qed

lemma sample_row:
  "external_row (w_db registry_world) ''t'' ''c'' = Inr \<lparr>cn_row = sample_connection, cn_tools = [''f''],
     cn_resources = [], cn_origins = [''https://a.b''], cn_policy = JObj []\<rparr>"
  by (simp add: external_row_Inr list_text_round empty_policy find_connection_def registry_world_def sample_connection_def)

lemmas registry_eval = mbind_def mtry_def mret_def mlift_def mguard_def mraise_def transact_def query_def mget_def
  query_or_raise_def new_id_def utc_now_def execute_def write_external_audit_def insert_call_audit_row_def
  has_tenant_def validate_text_def strip_def lstrip_def is_space_def ord_of_def MAX_NAME_LENGTH_def MAX_REASON_LENGTH_def

lemma sample_register:
  "\<exists>p w'. register_external_connection env0 no_ip ''t'' ''a'' sample_registration empty_world = (Inr p, w')"
proof -
  have status: "\<exists>row. find_connection db ''t'' cid = Some row \<and> x_tools row = json_list_text [''f''] \<and> x_resources row = json_list_text []
      \<and> x_origins row = json_list_text [''https://a.b''] \<and> x_policy_json row = dumps (JObj [])
    \<Longrightarrow> \<exists>p. external_connection_status env0 no_ip db ''t'' cid ''a'' = Inr p" for db cid
    by (auto simp: external_connection_status_def connection_for_broker_def external_row_def registry_eval
        list_text_round empty_policy)
  have fields: "rg_name sample_registration = ''s''" "rg_endpoint sample_registration = ''https://a.b/m''"
    by (simp_all add: sample_registration_def)
  show ?thesis
    by (simp add: register_external_connection_def sample_check ensure_tenant_def insert_or_ignore_tenant_def
        insert_connection_row_def registry_eval empty_world_def empty_db_def find_connection_def dumps_def
        fields ident_def) (rule status, simp add: find_connection_def dumps_def)
qed

lemma registered_connection_safe_witness:
  "\<exists>w' row. snd (register_external_connection env0 no_ip ''t'' ''a'' sample_registration empty_world) = w'
    \<and> t_connections (w_db w') = [row] \<and> x_status row = ''active'' \<and> external_json_list (x_tools row) = Inr [''f'']"
proof -
  from sample_register obtain p w' where
    r: "register_external_connection env0 no_ip ''t'' ''a'' sample_registration empty_world = (Inr p, w')" by blast
  from registered_connection_safe [OF r] r show ?thesis
    by (auto simp: empty_world_def empty_db_def sample_registration_def)
qed

lemma sample_revoke:
  "\<exists>p w'. revoke_external_connection env0 no_ip ''t'' ''c'' ''a'' ''r'' registry_world = (Inr p, w')"
proof -
  have "external_row (w_db (registry_world\<lparr>w_now := n, w_ids := i, w_db := w_db registry_world
      \<lparr>t_connections := [set_revoked ''a'' now sample_connection], t_call_audit := au\<rparr>\<rparr>)) ''t'' ''c''
    = Inr \<lparr>cn_row = set_revoked ''a'' now sample_connection, cn_tools = [''f''],
     cn_resources = [], cn_origins = [''https://a.b''], cn_policy = JObj []\<rparr>" for n i now au
    by (simp add: external_row_Inr list_text_round empty_policy find_connection_def registry_world_def
        sample_connection_def set_revoked_def)
  then show ?thesis
    using sample_row by (simp add: revoke_external_connection_def registry_eval update_connection_def registry_world_def
      sample_connection_def empty_world_def empty_db_def)
qed

lemma revocation_is_final_witness:
  "\<exists>w1. snd (revoke_external_connection env0 no_ip ''t'' ''c'' ''a'' ''r'' registry_world) = w1
    \<and> (\<exists>e. external_call_fence ''t'' ''c'' (\<lambda>_. mret ()) w1 = (Inl e, w1))"
proof -
  from sample_revoke obtain p w1 where
    r: "revoke_external_connection env0 no_ip ''t'' ''c'' ''a'' ''r'' registry_world = (Inr p, w1)" by blast
  from revocation_is_final [OF r rtranclp.rtrancl_refl, where body = "\<lambda>_. mret ()"] r show ?thesis by auto
qed

lemma tool_calls_are_approved_witness:
  "\<exists>row. t_call_audit (w_db (snd (authorize_external_tool env0 ''t'' ''c'' ''g'' ''a'' JNull registry_world))) = [row]
    \<and> y_outcome row = ''denied''"
proof -
  obtain r w' where run: "authorize_external_tool env0 ''t'' ''c'' ''g'' ''a'' JNull registry_world = (r, w')"
    by (cases "authorize_external_tool env0 ''t'' ''c'' ''g'' ''a'' JNull registry_world")
  have k: "has_tenant (w_db registry_world) ''t''"
    "ident env0 ''extaudit'' (w_ids registry_world) \<notin> y_id ` set (t_call_audit (w_db registry_world))"
    "strip ''t'' \<noteq> [] \<and> length ''t'' \<le> 255" "strip ''a'' \<noteq> [] \<and> length ''a'' \<le> 255"
    by (simp_all add: registry_world_def empty_world_def empty_db_def registry_eval)
  show ?thesis
  proof (cases r)
    case (Inl e)
    with tool_calls_are_approved [OF run k] sample_row run show ?thesis
      by (auto simp: registry_world_def empty_world_def empty_db_def)
  next
    case (Inr x)
    with tool_Inr [of env0 "''t''" "''c''" "''g''" "''a''" JNull registry_world x w'] run sample_row show ?thesis by auto
  qed
qed

end
