(* ===== verification/Broker.thy ===== *)
theory Broker
  imports External_Registry Resource_Limits
begin

text \<open>
  The broker of \<open>external_mcp.py\<close>: admission by the two limiters, registration after a probe, the
  registry's checks and call fence before a credential is issued and the upstream is reached, the scan of
  a result for the credential, and the record every ending leaves. Credential broker, transport, DNS and
  the limiter's clock are parameters; the upstream calls made are a list in the state. A request's
  arguments and an upstream's result are JSON. The fence holds the registry's write lock over the call:
  nothing comes between them, so the call is the fence's body as seen from the registry.
\<close>

section \<open>Constants and messages\<close>

definition MAX_EXTERNAL_RESULT_BYTES :: nat where "MAX_EXTERNAL_RESULT_BYTES = 1024 * 1024"
definition MAX_EXTERNAL_REQUEST_BYTES :: nat where "MAX_EXTERNAL_REQUEST_BYTES = 64 * 1024"
definition MAX_CREDENTIAL_SCAN_DEPTH :: nat where "MAX_CREDENTIAL_SCAN_DEPTH = 32"
definition MAX_CREDENTIAL_SCAN_NODES :: nat where "MAX_CREDENTIAL_SCAN_NODES = 4096"
definition MAX_CREDENTIAL_SCAN_STRING_BYTES :: nat where "MAX_CREDENTIAL_SCAN_STRING_BYTES = 64 * 1024"
definition MAX_CREDENTIAL_DECODE_PASSES :: nat where "MAX_CREDENTIAL_DECODE_PASSES = 2"

definition SAFE_EXTERNAL_ERRORS :: "string list" where
  "SAFE_EXTERNAL_ERRORS =
     [''credential broker unavailable'', ''credential broker returned an invalid credential'',
      ''external MCP response exceeds the allowed size'', ''external MCP transport timed out'',
      ''external MCP transport unavailable'', ''external MCP upstream call failed'',
      ''external MCP endpoint resolution timed out'', ''external MCP endpoint is invalid'',
      ''external MCP endpoint resolves to a blocked address'', ''external MCP endpoint cannot be resolved'',
      ''external MCP transport cannot validate registration'', ''external MCP result is invalid'',
      ''external MCP result contains credential material'', ''external MCP result exceeds the allowed size'',
      ''external MCP health result is invalid'', ''external MCP tool call failed'',
      ''external MCP resource read failed'', ''external MCP health check failed'',
      ''external MCP connection is revoked'']"

text \<open>\<open>str(error)\<close>.\<close>

fun error_text :: "py_exn \<Rightarrow> string" where
  "error_text (FolioError m) = m"
| "error_text (ExternalMcpError m) = m"
| "error_text (ExternalMcpValidationError m _ _) = m"
| "error_text (AuditValidationError m) = m"
| "error_text (AuthenticationError m) = m"
| "error_text (MembershipError m) = m"
| "error_text (JwksError m) = m"
| "error_text (BridgeRequestError m _) = m"
| "error_text (PublicMcpError m) = m"
| "error_text (ToolError m) = m"
| "error_text (DeploymentError m) = m"
| "error_text (ValueError m) = m"
| "error_text (PermissionError m) = m"
| "error_text IntegrityError = []"
| "error_text (OtherError m) = m"

text \<open>The exception classes: \<open>ExternalMcpValidationError\<close> is an \<open>ExternalMcpError\<close>, which is a
  \<open>FolioError\<close>.\<close>

fun is_validation_error :: "py_exn \<Rightarrow> bool" where
  "is_validation_error (ExternalMcpValidationError _ _ _) = True"
| "is_validation_error _ = False"

fun is_external_error :: "py_exn \<Rightarrow> bool" where
  "is_external_error (ExternalMcpError _) = True"
| "is_external_error (ExternalMcpValidationError _ _ _) = True"
| "is_external_error _ = False"

fun is_folio_error :: "py_exn \<Rightarrow> bool" where
  "is_folio_error (FolioError _) = True"
| "is_folio_error e = is_external_error e"

definition reason_char :: "char \<Rightarrow> bool" where
  "reason_char c \<longleftrightarrow> is_alnum_ascii c \<or> c \<in> set ''_.-''"

text \<open>The constructor of \<open>ExternalMcpValidationError\<close>.\<close>

definition validation_error :: "string \<Rightarrow> string \<Rightarrow> string \<Rightarrow> bool \<Rightarrow> py_exn" where
  "validation_error message reason outcome safe_message = ExternalMcpValidationError
     (if safe_message then message else ''external MCP adapter validation failed'')
     (if 1 \<le> length reason \<and> length reason \<le> 64 \<and> list_all reason_char reason then reason
      else ''adapter_validation_failed'')
     (if outcome \<in> {''denied'', ''failed''} then outcome else ''failed'')"

definition sanitize_external_error :: "py_exn \<Rightarrow> string \<Rightarrow> py_exn" where
  "sanitize_external_error e fallback =
     ExternalMcpError (if error_text e \<in> set SAFE_EXTERNAL_ERRORS then error_text e else fallback)"

definition FAILURE_REASONS :: "(string \<times> string) list" where
  "FAILURE_REASONS =
     [(''credential broker unavailable'', ''credential_unavailable''),
      (''credential broker returned an invalid credential'', ''credential_invalid''),
      (''external MCP response exceeds the allowed size'', ''response_too_large''),
      (''external MCP transport timed out'', ''transport_timeout''),
      (''external MCP transport unavailable'', ''transport_unavailable''),
      (''external MCP upstream call failed'', ''upstream_failed''),
      (''external MCP result is invalid'', ''result_invalid''),
      (''external MCP result contains credential material'', ''result_secret_detected''),
      (''external MCP result exceeds the allowed size'', ''result_too_large''),
      (''external MCP connection is revoked'', ''connection_revoked'')]"

definition failure_reason :: "py_exn \<Rightarrow> string" where
  "failure_reason e = (case map_of FAILURE_REASONS (error_text e) of Some r \<Rightarrow> r | None \<Rightarrow> ''external_mcp_failed'')"

section \<open>The credential scan\<close>

text \<open>The repeated percent decoding of one string: \<open>True\<close> when the credential turns up, or when the
  decoding has not settled within its passes.\<close>

fun decode_scan :: "env \<Rightarrow> string \<Rightarrow> nat \<Rightarrow> string \<Rightarrow> bool" where
  "decode_scan E credential passes candidate =
     (if find_sub credential candidate \<noteq> None then True
      else let decoded = unquote E candidate in
        if decoded = candidate then False
        else case passes of 0 \<Rightarrow> True | Suc k \<Rightarrow> decode_scan E credential k decoded)"

text \<open>The loop over the stack, whose head is its top. \<open>deep s\<close> holds for a text \<open>json.loads\<close> gives up on
  with \<open>RecursionError\<close>.\<close>

partial_function (option) credential_scan ::
    "env \<Rightarrow> (string \<Rightarrow> bool) \<Rightarrow> string \<Rightarrow> nat \<Rightarrow> (json \<times> nat) list \<Rightarrow> bool option" where
  "credential_scan E deep credential nodes stack =
     (case stack of
        [] \<Rightarrow> Some False
      | (current, depth) # rest \<Rightarrow>
          if Suc nodes > MAX_CREDENTIAL_SCAN_NODES \<or> depth > MAX_CREDENTIAL_SCAN_DEPTH then Some True
          else case current of
            JStr s \<Rightarrow>
              if length (utf8 s) > MAX_CREDENTIAL_SCAN_STRING_BYTES
                \<or> decode_scan E credential MAX_CREDENTIAL_DECODE_PASSES s \<or> deep s then Some True
              else (case loads s of
                  None \<Rightarrow> credential_scan E deep credential (Suc nodes) rest
                | Some v \<Rightarrow> credential_scan E deep credential (Suc nodes)
                    (if v \<noteq> JStr s then (v, Suc depth) # rest else rest))
          | JObj kvs \<Rightarrow>
              if length kvs > MAX_CREDENTIAL_SCAN_NODES then Some True
              else credential_scan E deep credential (Suc nodes)
                (rev (concat (map (\<lambda>(k, v). [(JStr k, Suc depth), (v, Suc depth)]) kvs)) @ rest)
          | JArr vs \<Rightarrow>
              if length vs > MAX_CREDENTIAL_SCAN_NODES then Some True
              else credential_scan E deep credential (Suc nodes) (rev (map (\<lambda>v. (v, Suc depth)) vs) @ rest)
          | _ \<Rightarrow> credential_scan E deep credential (Suc nodes) rest)"

declare credential_scan.simps [code] decode_scan.simps [simp del]

definition contains_credential :: "env \<Rightarrow> (string \<Rightarrow> bool) \<Rightarrow> json \<Rightarrow> string \<Rightarrow> bool option" where
  "contains_credential E deep v credential =
     (if length (utf8 credential) > MAX_CREDENTIAL_SCAN_STRING_BYTES then Some True
      else credential_scan E deep credential 0 [(v, 0)])"

text \<open>A result that is no JSON, too large, or not shown free of the credential is refused.\<close>

definition bounded_result :: "env \<Rightarrow> (string \<Rightarrow> bool) \<Rightarrow> json \<Rightarrow> string option \<Rightarrow> py_exn + unit" where
  "bounded_result E deep v credential =
     (case dumps_strict v of
        None \<Rightarrow> Inl (ExternalMcpError ''external MCP result is invalid'')
      | Some encoded \<Rightarrow>
          if length (utf8 encoded) > MAX_EXTERNAL_RESULT_BYTES
          then Inl (ExternalMcpError ''external MCP result exceeds the allowed size'')
          else guard_raise (case credential of None \<Rightarrow> False
              | Some c \<Rightarrow> contains_credential E deep v c \<noteq> Some False)
            (ExternalMcpError ''external MCP result contains credential material''))"

section \<open>State and parameters\<close>

datatype upstream_request = UpHealth | UpTool string json | UpResource string

record upstream_call =
  up_endpoint :: string
  up_request :: upstream_request
  up_credential :: "string option"

record broker =
  bk_world :: world
  bk_rate :: dimension_limiter
  bk_active :: concurrency_limiter
  bk_reads :: nat
  bk_calls :: "upstream_call list"

text \<open>What \<open>issue\<close> returns (\<open>None\<close>: it raised) for tenant, connection, reference and audience; whether
  the transport validates registrations, and what its probe raises; what the n-th upstream call returns
  or raises; the clock of the rate limiter; the texts JSON gives up on.\<close>

record broker_env =
  be_issue :: "string \<Rightarrow> string \<Rightarrow> string \<Rightarrow> string \<Rightarrow> json option"
  be_validates :: bool
  be_validate :: "string \<Rightarrow> py_exn option"
  be_upstream :: "nat \<Rightarrow> upstream_call \<Rightarrow> py_exn + json"
  be_clock :: "nat \<Rightarrow> rat"
  be_deep :: "string \<Rightarrow> bool"

definition broker_init ::
    "world \<Rightarrow> (string \<times> int) list option \<Rightarrow> rat \<Rightarrow> int \<Rightarrow> int \<Rightarrow> py_exn + broker" where
  "broker_init w rate_limits window limit per_key =
     ebind (dimension_limiter_init (case rate_limits of
         Some (x # xs) \<Rightarrow> x # xs
       | _ \<Rightarrow> [(''tenant'', 600), (''actor'', 600), (''connection'', 600)]) window 4096) (\<lambda>rate.
     ebind (concurrency_limiter_init limit per_key 4096) (\<lambda>active.
     Inr \<lparr>bk_world = w, bk_rate = rate, bk_active = active, bk_reads = 0, bk_calls = []\<rparr>))"

definition on_world :: "(world, 'a) action \<Rightarrow> (broker, 'a) action" where
  "on_world m = (\<lambda>b. case m (bk_world b) of (r, w) \<Rightarrow> (r, b\<lparr>bk_world := w\<rparr>))"

definition on_db :: "(database \<Rightarrow> py_exn + 'a) \<Rightarrow> (broker, 'a) action" where
  "on_db f = on_world (query_or_raise f)"

definition admission_key :: "string \<Rightarrow> string \<Rightarrow> string \<Rightarrow> string \<Rightarrow> string" where
  "admission_key tenant actor cid operation = join_with [CHR 0x1F] [tenant, actor, cid, operation]"

definition admit :: "broker_env \<Rightarrow> string \<Rightarrow> string \<Rightarrow> string \<Rightarrow> string \<Rightarrow> (broker, string) action" where
  "admit B tenant actor cid operation = (\<lambda>b.
     let ((allowed, retry), rate) = dim_allow (be_clock B (bk_reads b))
           [(''tenant'', tenant), (''actor'', actor), (''connection'', cid)] (bk_rate b);
         b = b\<lparr>bk_rate := rate, bk_reads := Suc (bk_reads b)\<rparr>;
         key = admission_key tenant actor cid operation
     in if \<not> allowed
        then (Inl (ExternalMcpError (''external MCP rate limited; retry after '' @ int_text retry @ '' seconds'')), b)
        else case try_acquire key (bk_active b) of
          (False, active) \<Rightarrow> (Inl (ExternalMcpError ''external MCP concurrency limit exceeded''), b\<lparr>bk_active := active\<rparr>)
        | (True, active) \<Rightarrow> (Inr key, b\<lparr>bk_active := active\<rparr>))"

text \<open>\<open>try: ... finally: self._release(key)\<close>.\<close>

definition while_admitted ::
    "broker_env \<Rightarrow> string \<Rightarrow> string \<Rightarrow> string \<Rightarrow> string \<Rightarrow> (broker, 'a) action \<Rightarrow> (broker, 'a) action" where
  "while_admitted B tenant actor cid operation m =
     mbind (admit B tenant actor cid operation) (\<lambda>key.
     (\<lambda>b. case m b of (r, b') \<Rightarrow> (r, b'\<lparr>bk_active := release key (bk_active b')\<rparr>)))"

definition upstream :: "broker_env \<Rightarrow> upstream_call \<Rightarrow> (broker, json) action" where
  "upstream B c = (\<lambda>b. (be_upstream B (length (bk_calls b)) c, b\<lparr>bk_calls := bk_calls b @ [c]\<rparr>))"

definition broker_credential :: "broker_env \<Rightarrow> connection \<Rightarrow> py_exn + string option" where
  "broker_credential B c =
     (case x_credential (cn_row c) of
        None \<Rightarrow> Inr None
      | Some ref \<Rightarrow>
          (case be_issue B (x_tenant (cn_row c)) (x_id (cn_row c)) ref (x_origin (cn_row c)) of
             None \<Rightarrow> Inl (ExternalMcpError ''credential broker unavailable'')
           | Some (JStr s) \<Rightarrow> if s = [] then Inl (ExternalMcpError ''credential broker returned an invalid credential'')
               else Inr (Some s)
           | Some _ \<Rightarrow> Inl (ExternalMcpError ''credential broker returned an invalid credential'')))"

text \<open>\<open>_record_external_call\<close> and \<open>_record_external_health\<close> swallow what the registry raises.\<close>

definition try_record_call ::
    "env \<Rightarrow> string \<Rightarrow> string \<Rightarrow> string \<Rightarrow> string \<Rightarrow> string \<Rightarrow> string \<Rightarrow> string option \<Rightarrow> string option \<Rightarrow> (broker, bool) action" where
  "try_record_call E tenant cid actor act outcome reason tool uri =
     mtry (mbind (on_world (record_external_call E tenant cid actor act outcome reason tool uri)) (\<lambda>_. mret True))
       (\<lambda>_. mret False)"

definition try_record_health :: "env \<Rightarrow> string \<Rightarrow> string \<Rightarrow> string \<Rightarrow> string \<Rightarrow> (broker, bool) action" where
  "try_record_health E tenant cid actor status =
     mtry (mbind (on_world (record_external_health E tenant cid actor status)) (\<lambda>_. mret True)) (\<lambda>_. mret False)"

text \<open>The upstream call inside the fence: the endpoint is the one of the row the fence read.\<close>

definition fenced_call ::
    "broker_env \<Rightarrow> string \<Rightarrow> string \<Rightarrow> upstream_request \<Rightarrow> string option \<Rightarrow> (broker, json) action" where
  "fenced_call B tenant cid request credential =
     mbind (on_world (external_call_fence tenant cid mret)) (\<lambda>fenced.
     upstream B \<lparr>up_endpoint = x_endpoint (cn_row fenced), up_request = request, up_credential = credential\<rparr>)"

section \<open>Registration, lists, status, revocation\<close>

text \<open>The types of the lists and the policy are those of the arguments; a \<open>None\<close> policy is \<open>{}\<close>.\<close>

definition check_registration_bounds :: "registration \<Rightarrow> py_exn + unit" where
  "check_registration_bounds g =
     (let lists = [rg_tools g, rg_resources g, rg_origins g];
          policy = (case rg_policy g of None \<Rightarrow> JObj [] | Some p \<Rightarrow> p) in
      ebind (guard_raise (\<not> jis_obj policy) (ExternalMcpError ''external MCP registration is invalid'')) (\<lambda>_.
      ebind (guard_raise (length (rg_name g) > 255 \<or> length (rg_endpoint g) > 4096)
        (ExternalMcpError ''external MCP registration value is too large'')) (\<lambda>_.
      ebind (guard_raise (list_ex (\<lambda>xs. length xs > 128) lists)
        (ExternalMcpError ''external MCP registration list is too large'')) (\<lambda>_.
      ebind (guard_raise (list_ex (list_ex (\<lambda>x. length x > 2048)) lists)
        (ExternalMcpError ''external MCP registration item is too large'')) (\<lambda>_.
      case dumps_strict (JObj [(''name'', JStr (rg_name g)), (''endpoint'', JStr (rg_endpoint g)),
          (''approved_tools'', JArr (map JStr (rg_tools g))), (''approved_resources'', JArr (map JStr (rg_resources g))),
          (''allowed_origins'', JArr (map JStr (rg_origins g))), (''policy'', policy)]) of
        None \<Rightarrow> Inl (ExternalMcpError ''external MCP registration is invalid'')
      | Some encoded \<Rightarrow> guard_raise (length (utf8 encoded) > MAX_EXTERNAL_REQUEST_BYTES)
          (ExternalMcpError ''external MCP registration exceeds the allowed size''))))))"

definition register_admitted ::
    "env \<Rightarrow> broker_env \<Rightarrow> ip_table \<Rightarrow> string \<Rightarrow> string \<Rightarrow> registration \<Rightarrow> (broker, public_connection) action" where
  "register_admitted E B ip tenant actor g =
     (if \<not> be_validates B then mraise (ExternalMcpError ''external MCP transport cannot validate registration'')
      else case be_validate B (rg_endpoint g) of
        Some e \<Rightarrow> mraise (if is_external_error e
            then sanitize_external_error e ''external MCP endpoint validation failed''
            else ExternalMcpError ''external MCP endpoint validation failed'')
      | None \<Rightarrow> on_world (register_external_connection E ip tenant actor g))"

definition broker_register ::
    "env \<Rightarrow> broker_env \<Rightarrow> ip_table \<Rightarrow> string \<Rightarrow> string \<Rightarrow> registration \<Rightarrow> (broker, public_connection) action" where
  "broker_register E B ip tenant actor g =
     mbind (mlift (check_registration_bounds g)) (\<lambda>_.
     while_admitted B tenant actor (rg_name g) ''register'' (register_admitted E B ip tenant actor g))"

definition broker_list ::
    "env \<Rightarrow> broker_env \<Rightarrow> ip_table \<Rightarrow> string \<Rightarrow> string \<Rightarrow> int \<Rightarrow> (broker, public_connection list) action" where
  "broker_list E B ip tenant actor limit =
     while_admitted B tenant actor ''list'' ''list'' (on_db (\<lambda>db. list_external_connections E ip db tenant actor limit))"

definition broker_status ::
    "env \<Rightarrow> broker_env \<Rightarrow> ip_table \<Rightarrow> string \<Rightarrow> string \<Rightarrow> string \<Rightarrow> (broker, public_connection) action" where
  "broker_status E B ip tenant actor cid =
     while_admitted B tenant actor cid ''status'' (on_db (\<lambda>db. external_connection_status E ip db tenant cid actor))"

definition broker_revoke ::
    "env \<Rightarrow> broker_env \<Rightarrow> ip_table \<Rightarrow> string \<Rightarrow> string \<Rightarrow> string \<Rightarrow> string \<Rightarrow> (broker, public_connection) action" where
  "broker_revoke E B ip tenant actor cid reason =
     while_admitted B tenant actor cid ''revoke'' (on_world (revoke_external_connection E ip tenant cid actor reason))"

definition broker_audit ::
    "broker_env \<Rightarrow> string \<Rightarrow> string \<Rightarrow> string option \<Rightarrow> int \<Rightarrow> (broker, call_audit_row list) action" where
  "broker_audit B tenant actor cid limit =
     while_admitted B tenant actor (case cid of Some (c # cs) \<Rightarrow> c # cs | _ \<Rightarrow> ''audit'') ''audit''
       (on_db (\<lambda>db. external_mcp_audit db tenant actor cid limit))"

section \<open>Health\<close>

definition probe_health ::
    "broker_env \<Rightarrow> string \<Rightarrow> string \<Rightarrow> connection \<Rightarrow> (broker, string) action" where
  "probe_health B tenant cid c =
     mbind (mlift (broker_credential B c)) (\<lambda>credential.
     mbind (fenced_call B tenant cid UpHealth credential) (\<lambda>v.
     if v = JStr ''healthy'' \<or> v = JStr ''unhealthy'' then mret (jstr v)
     else mraise (ExternalMcpError ''external MCP health result is invalid'')))"

text \<open>What the health check raises for a failed probe, after recording it.\<close>

definition health_failure :: "env \<Rightarrow> string \<Rightarrow> string \<Rightarrow> string \<Rightarrow> py_exn \<Rightarrow> (broker, 'a) action" where
  "health_failure E tenant cid actor e =
     mbind (try_record_health E tenant cid actor ''unhealthy'') (\<lambda>recorded.
     mraise (if is_external_error e then
         (if recorded then sanitize_external_error e ''external MCP health check failed''
          else ExternalMcpError ''external MCP health check failed'')
       else if is_folio_error e \<and> error_text e = ''external MCP connection is revoked''
       then ExternalMcpError (error_text e)
       else ExternalMcpError ''external MCP health check failed''))"

definition health_admitted ::
    "env \<Rightarrow> broker_env \<Rightarrow> ip_table \<Rightarrow> string \<Rightarrow> string \<Rightarrow> string \<Rightarrow> bool \<Rightarrow> (broker, public_connection) action" where
  "health_admitted E B ip tenant actor cid probe =
     mbind (on_db (\<lambda>db. connection_for_broker db tenant cid actor)) (\<lambda>c.
     if \<not> probe then on_db (\<lambda>db. external_connection_status E ip db tenant cid actor)
     else if x_status (cn_row c) \<noteq> ''active'' then mraise (ExternalMcpError ''external MCP connection is revoked'')
     else mbind (mtry (probe_health B tenant cid c) (health_failure E tenant cid actor)) (\<lambda>status.
       mbind (try_record_health E tenant cid actor status) (\<lambda>recorded.
       if \<not> recorded then mraise (ExternalMcpError ''external MCP health check failed'')
       else on_db (\<lambda>db. external_connection_status E ip db tenant cid actor))))"

definition broker_health ::
    "env \<Rightarrow> broker_env \<Rightarrow> ip_table \<Rightarrow> string \<Rightarrow> string \<Rightarrow> string \<Rightarrow> bool \<Rightarrow> (broker, public_connection) action" where
  "broker_health E B ip tenant actor cid probe =
     while_admitted B tenant actor cid ''health'' (health_admitted E B ip tenant actor cid probe)"

section \<open>Calls\<close>

definition check_request_size :: "json \<Rightarrow> py_exn + unit" where
  "check_request_size v =
     (case dumps_strict v of
        None \<Rightarrow> Inl (ExternalMcpError ''external MCP request arguments are invalid'')
      | Some encoded \<Rightarrow> guard_raise (length (utf8 encoded) > MAX_EXTERNAL_REQUEST_BYTES)
          (ExternalMcpError ''external MCP request arguments exceed the allowed size''))"

text \<open>What a validator of an adapter raises, as the broker passes it on; \<open>None\<close>: no validator, or it
  returned.\<close>

definition adapter_verdict :: "string \<Rightarrow> string \<Rightarrow> string \<Rightarrow> py_exn option \<Rightarrow> py_exn + unit" where
  "adapter_verdict fallback reason outcome raised =
     (case raised of
        None \<Rightarrow> Inr ()
      | Some e \<Rightarrow> Inl (if is_validation_error e then e
          else if is_folio_error e then validation_error (error_text e) reason outcome False
          else validation_error fallback reason outcome False))"

text \<open>The body of a call: adapter check, credential, fence, upstream, bounded result, adapter check.\<close>

definition guarded_call ::
    "env \<Rightarrow> broker_env \<Rightarrow> string \<Rightarrow> string \<Rightarrow> connection \<Rightarrow> upstream_request \<Rightarrow>
     (connection \<Rightarrow> py_exn option) \<Rightarrow> (json \<Rightarrow> py_exn option) \<Rightarrow> (broker, json) action" where
  "guarded_call E B tenant cid c request pre post =
     mbind (mlift (adapter_verdict ''external MCP adapter validation failed'' ''adapter_policy_denied'' ''denied'' (pre c))) (\<lambda>_.
     mbind (mlift (broker_credential B c)) (\<lambda>credential.
     mbind (fenced_call B tenant cid request credential) (\<lambda>v.
     mbind (mlift (bounded_result E (be_deep B) v credential)) (\<lambda>_.
     mbind (mlift (adapter_verdict ''external MCP result failed adapter validation'' ''adapter_result_invalid'' ''failed'' (post v))) (\<lambda>_.
     mret v)))))"

text \<open>How a failed call is recorded, and what is raised instead of its exception. Only tool calls have
  adapters: \<open>adapters\<close> is their \<open>except ExternalMcpValidationError\<close>.\<close>

definition call_outcome :: "bool \<Rightarrow> py_exn \<Rightarrow> string \<times> string" where
  "call_outcome adapters e = (case e of
       ExternalMcpValidationError _ reason outcome \<Rightarrow>
         if adapters then (outcome, reason) else (''failed'', failure_reason e)
     | _ \<Rightarrow> (''failed'', if is_external_error e then failure_reason e
         else if is_folio_error e then ''authorization_failed'' else ''unexpected_failure''))"

definition call_error :: "bool \<Rightarrow> string \<Rightarrow> py_exn \<Rightarrow> py_exn" where
  "call_error adapters fallback e =
     (if adapters \<and> is_validation_error e then ExternalMcpError (error_text e)
      else if is_external_error e then sanitize_external_error e fallback
      else if is_folio_error e \<and> error_text e = ''external MCP connection is revoked'' then ExternalMcpError (error_text e)
      else ExternalMcpError fallback)"

definition recorded_call ::
    "env \<Rightarrow> bool \<Rightarrow> string \<Rightarrow> string \<Rightarrow> string \<Rightarrow> string \<Rightarrow> string option \<Rightarrow> string option \<Rightarrow> string \<Rightarrow>
     (broker, json) action \<Rightarrow> (broker, json) action" where
  "recorded_call E adapters tenant cid actor act tool uri fallback call =
     mbind (mtry call
       (\<lambda>e. mbind (try_record_call E tenant cid actor act (fst (call_outcome adapters e)) (snd (call_outcome adapters e)) tool uri) (\<lambda>_.
         mraise (call_error adapters fallback e)))) (\<lambda>v.
     mbind (try_record_call E tenant cid actor act ''allowed'' ''completed'' tool uri) (\<lambda>recorded.
     if recorded then mret v else mraise (ExternalMcpError fallback)))"

definition call_tool_admitted ::
    "env \<Rightarrow> broker_env \<Rightarrow> string \<Rightarrow> string \<Rightarrow> string \<Rightarrow> string \<Rightarrow> json \<Rightarrow>
     (connection \<Rightarrow> py_exn option) \<Rightarrow> (json \<Rightarrow> py_exn option) \<Rightarrow> (broker, json) action" where
  "call_tool_admitted E B tenant actor cid tool args pre post =
     mbind (on_world (authorize_external_tool E tenant cid tool actor args)) (\<lambda>c.
     recorded_call E True tenant cid actor ''tool_call'' (Some tool) None ''external MCP tool call failed''
       (guarded_call E B tenant cid c (UpTool tool args) pre post))"

definition broker_call_tool ::
    "env \<Rightarrow> broker_env \<Rightarrow> string \<Rightarrow> string \<Rightarrow> string \<Rightarrow> string \<Rightarrow> json \<Rightarrow>
     (connection \<Rightarrow> py_exn option) \<Rightarrow> (json \<Rightarrow> py_exn option) \<Rightarrow> (broker, json) action" where
  "broker_call_tool E B tenant actor cid tool args pre post =
     mbind (mlift (check_request_size args)) (\<lambda>_.
     while_admitted B tenant actor cid ''tool'' (call_tool_admitted E B tenant actor cid tool args pre post))"

definition broker_authorize_tool ::
    "env \<Rightarrow> string \<Rightarrow> string \<Rightarrow> string \<Rightarrow> string \<Rightarrow> json \<Rightarrow> (broker, connection) action" where
  "broker_authorize_tool E tenant actor cid tool args =
     mbind (mlift (check_request_size args)) (\<lambda>_.
     on_world (authorize_external_tool E tenant cid tool actor args))"

definition read_resource_admitted ::
    "env \<Rightarrow> broker_env \<Rightarrow> ip_table \<Rightarrow> string \<Rightarrow> string \<Rightarrow> string \<Rightarrow> string \<Rightarrow> (broker, json) action" where
  "read_resource_admitted E B ip tenant actor cid uri =
     mbind (on_world (authorize_external_resource E ip tenant cid uri actor)) (\<lambda>c.
     recorded_call E False tenant cid actor ''resource_read'' None (Some uri) ''external MCP resource read failed''
       (guarded_call E B tenant cid c (UpResource uri) (\<lambda>_. None) (\<lambda>_. None)))"

definition broker_read_resource ::
    "env \<Rightarrow> broker_env \<Rightarrow> ip_table \<Rightarrow> string \<Rightarrow> string \<Rightarrow> string \<Rightarrow> string \<Rightarrow> (broker, json) action" where
  "broker_read_resource E B ip tenant actor cid uri =
     mbind (mguard (length (utf8 uri) > 2048) (ExternalMcpError ''external MCP resource URI exceeds the allowed size'')) (\<lambda>_.
     while_admitted B tenant actor cid ''resource'' (read_resource_admitted E B ip tenant actor cid uri))"

section \<open>Where a registration may point: address resolution\<close>

text \<open>\<open>idna\<close> (\<open>None\<close>: \<open>UnicodeError\<close>), the resolver (\<open>None\<close>: it raised; otherwise the texts of the addresses) and
  the canonical text of an address (\<open>None\<close>: \<open>ValueError\<close>) are parameters.\<close>

record resolver =
  rs_idna :: "string \<Rightarrow> string option"
  rs_lookup :: "string \<Rightarrow> nat \<Rightarrow> string list option"
  rs_address :: "string \<Rightarrow> string option"

definition endpoint_invalid :: py_exn where "endpoint_invalid = ExternalMcpError ''external MCP endpoint is invalid''"
definition endpoint_blocked :: py_exn where
  "endpoint_blocked = ExternalMcpError ''external MCP endpoint resolves to a blocked address''"
definition endpoint_unresolved :: py_exn where
  "endpoint_unresolved = ExternalMcpError ''external MCP endpoint cannot be resolved''"

definition drop_trailing_dots :: "string \<Rightarrow> string" where
  "drop_trailing_dots s = rev (dropWhile (\<lambda>c. c = CHR ''.'') (rev s))"

definition endpoint_host :: "ip_table \<Rightarrow> resolver \<Rightarrow> string \<Rightarrow> py_exn + string \<times> nat" where
  "endpoint_host ip D endpoint =
     (case urlsplit ip endpoint of
        None \<Rightarrow> Inl (ValueError ''invalid URL'')
      | Some u \<Rightarrow>
          if su_scheme u \<noteq> ''https'' \<or> su_netloc u = [] \<or> userinfo u \<noteq> (None, None) \<or> su_query u \<noteq> []
            \<or> su_fragment u \<noteq> [] \<or> su_path u = [] then Inl endpoint_invalid
          else case port_of u of
            None \<Rightarrow> Inl endpoint_invalid
          | Some p \<Rightarrow>
              (case hostname u of
                 None \<Rightarrow> Inl endpoint_invalid
               | Some host \<Rightarrow>
                   (case rs_idna D host of
                      None \<Rightarrow> Inl endpoint_invalid
                    | Some ascii \<Rightarrow>
                        let h = drop_trailing_dots (lower ascii) in
                        if h = [] then Inl endpoint_invalid
                        else if h = ''localhost'' \<or> ends_with ''.localhost'' h then Inl endpoint_blocked
                        else Inr (h, case p of Some n \<Rightarrow> n | None \<Rightarrow> 443))))"

definition endpoint_addresses :: "resolver \<Rightarrow> string \<Rightarrow> nat \<Rightarrow> py_exn + string list" where
  "endpoint_addresses D host port =
     (case rs_address D host of
        Some literal \<Rightarrow> Inr [literal]
      | None \<Rightarrow>
          (case rs_lookup D host port of
             None \<Rightarrow> Inl endpoint_unresolved
           | Some infos \<Rightarrow>
               (case emap_list (\<lambda>t. case rs_address D (fst (partition_at (CHR ''%'') t)) of
                     None \<Rightarrow> Inl endpoint_unresolved | Some a \<Rightarrow> Inr a) infos of
                  Inl e \<Rightarrow> Inl e
                | Inr addresses \<Rightarrow> Inr (sort (remdups addresses)))))"

definition resolve_endpoint :: "ip_table \<Rightarrow> resolver \<Rightarrow> string \<Rightarrow> py_exn + string \<times> string list" where
  "resolve_endpoint ip D endpoint =
     ebind (endpoint_host ip D endpoint) (\<lambda>(host, port).
     ebind (endpoint_addresses D host port) (\<lambda>addresses.
     if addresses = [] \<or> list_ex (\<lambda>a. \<not> (case ip a of Some (_, global) \<Rightarrow> global | None \<Rightarrow> False)) addresses
     then Inl endpoint_blocked else Inr (host, addresses)))"

section \<open>The scan answers\<close>

lemma scan_returns: "\<exists>found. credential_scan E deep credential nodes stack = Some found"
proof (induction "4096 - nodes" arbitrary: nodes stack rule: less_induct)
  case less
  show ?case
  proof (cases "Suc nodes > 4096 \<or> stack = []")
    case True
    then show ?thesis
      by (subst credential_scan.simps) (auto simp: MAX_CREDENTIAL_SCAN_NODES_def split: list.split)
  next
    case False
    then have "\<exists>found. credential_scan E deep credential (Suc nodes) rest = Some found" for rest
      by (intro less) auto
    then show ?thesis
      by (subst credential_scan.simps) (auto split: list.split json.split option.split)
  qed
qed

section \<open>What the scan has seen\<close>

text \<open>\<open>carries v t\<close>: \<open>t\<close> is one of the texts of \<open>v\<close>, where a text that is itself JSON carries the texts
  of the value it stands for.\<close>

inductive carries :: "json \<Rightarrow> string \<Rightarrow> bool" where
  itself: "carries (JStr s) s"
| nested: "loads s = Some v \<Longrightarrow> carries v t \<Longrightarrow> carries (JStr s) t"
| element: "v \<in> set vs \<Longrightarrow> carries v t \<Longrightarrow> carries (JArr vs) t"
| key: "(k, v) \<in> set kvs \<Longrightarrow> carries (JStr k) t \<Longrightarrow> carries (JObj kvs) t"
| member: "(k, v) \<in> set kvs \<Longrightarrow> carries v t \<Longrightarrow> carries (JObj kvs) t"

inductive_simps carries_JArr: "carries (JArr vs) t"
inductive_simps carries_JObj: "carries (JObj kvs) t"
inductive_simps carries_atom: "carries JNull t" "carries (JBool b) t" "carries (JInt i) t" "carries (JFloat f) t"

text \<open>No text of \<open>v\<close>, percent-decoded any number of times, contains \<open>c\<close>.\<close>

definition free_of :: "env \<Rightarrow> string \<Rightarrow> json \<Rightarrow> bool" where
  "free_of E c v \<longleftrightarrow> (\<forall>t n. carries v t \<longrightarrow> find_sub c ((unquote E ^^ n) t) = None)"

lemma free_of_JArr: "free_of E c (JArr vs) \<longleftrightarrow> (\<forall>v \<in> set vs. free_of E c v)"
  unfolding free_of_def carries_JArr by blast

lemma free_of_JObj: "free_of E c (JObj kvs) \<longleftrightarrow> (\<forall>(k, v) \<in> set kvs. free_of E c (JStr k) \<and> free_of E c v)"
  unfolding free_of_def carries_JObj by blast

lemma carries_self: "carries v t \<Longrightarrow> v = JStr s \<Longrightarrow> loads s = Some (JStr s) \<Longrightarrow> t = s"
  by (induction rule: carries.induct) auto

lemma free_of_JStr:
  assumes "\<And>n. find_sub c ((unquote E ^^ n) s) = None" "\<And>v. loads s = Some v \<Longrightarrow> v \<noteq> JStr s \<Longrightarrow> free_of E c v"
  shows "free_of E c (JStr s)"
  unfolding free_of_def
proof (intro allI impI)
  fix t n assume "carries (JStr s) t"
  then show "find_sub c ((unquote E ^^ n) t) = None"
  proof cases
    case itself
    with assms(1) show ?thesis by simp
  next
    case (nested v)
    with assms(1) [of n] assms(2) [OF nested(1)] carries_self [OF nested(2)] show ?thesis
      unfolding free_of_def by (cases "v = JStr s") auto
  qed
qed

lemma decode_scan_clean: "\<not> decode_scan E c k s \<Longrightarrow> find_sub c ((unquote E ^^ n) s) = None"
proof (induction k arbitrary: s n)
  case 0
  then have f: "find_sub c s = None" "unquote E s = s" by (auto simp: decode_scan.simps Let_def split: if_splits)
  then have "(unquote E ^^ n) s = s" by (induction n) auto
  with f show ?case by simp
next
  case (Suc k)
  then have f: "find_sub c s = None" "unquote E s = s \<or> \<not> decode_scan E c k (unquote E s)"
    by (auto simp: decode_scan.simps [of _ _ "Suc k"] Let_def split: if_splits)
  show ?case
  proof (cases "unquote E s = s")
    case True
    then have "(unquote E ^^ n) s = s" by (induction n) auto
    with f show ?thesis by simp
  next
    case False
    with f Suc.IH [of "unquote E s"] show ?thesis by (cases n) (auto simp: funpow_swap1)
  qed
qed

lemma scan_clean:
  "credential_scan E deep c nodes stack = Some False \<Longrightarrow> (v, d) \<in> set stack \<Longrightarrow> free_of E c v"
proof (induction "4096 - nodes" arbitrary: nodes stack v d rule: less_induct)
  case less
  then obtain cur depth rest where st: "stack = (cur, depth) # rest" by (cases stack) auto
  note run = less.prems(1) [unfolded st, simplified credential_scan.simps [of _ _ _ nodes] list.case prod.case]
  from run have n: "\<not> (Suc nodes > MAX_CREDENTIAL_SCAN_NODES \<or> depth > MAX_CREDENTIAL_SCAN_DEPTH)" by (metis option.inject)
  then have "4096 - Suc nodes < 4096 - nodes" unfolding MAX_CREDENTIAL_SCAN_NODES_def by linarith
  note IH = less.hyps [OF this]
  have all: "\<forall>(v, d) \<in> set st. free_of E c v" if "credential_scan E deep c (Suc nodes) st = Some False" for st
    using IH [OF that] by blast
  note run = run [unfolded if_not_P [OF n]]
  have "free_of E c cur \<and> (\<forall>(v, d) \<in> set rest. free_of E c v)"
  proof (cases cur)
    case (JStr s)
    with run have k: "\<not> decode_scan E c MAX_CREDENTIAL_DECODE_PASSES s" by (auto split: if_splits)
    from run JStr have "credential_scan E deep c (Suc nodes) (case loads s of None \<Rightarrow> rest
        | Some v \<Rightarrow> if v \<noteq> JStr s then (v, Suc depth) # rest else rest) = Some False"
      by (auto split: if_splits option.splits)
    note IH = IH [OF this]
    have "free_of E c x" if "(x, e) \<in> set rest" for x e
      using IH [of x e] that by (simp split: option.splits)
    moreover have "free_of E c x" if "loads s = Some x" "x \<noteq> JStr s" for x
      using IH [of x "Suc depth"] that by simp
    ultimately show ?thesis unfolding JStr using decode_scan_clean [OF k] by (auto intro: free_of_JStr)
  next
    case (JArr vs)
    with run have "credential_scan E deep c (Suc nodes) (rev (map (\<lambda>v. (v, Suc depth)) vs) @ rest) = Some False"
      by (auto split: if_splits)
    from all [OF this] JArr show ?thesis by (auto simp: free_of_JArr)
  next
    case (JObj kvs)
    with run have "credential_scan E deep c (Suc nodes)
        (rev (concat (map (\<lambda>(k, v). [(JStr k, Suc depth), (v, Suc depth)]) kvs)) @ rest) = Some False"
      by (auto split: if_splits)
    from all [OF this] JObj show ?thesis by (fastforce simp: free_of_JObj)
  qed (use run all in \<open>auto simp: free_of_def carries_atom\<close>)
  with less.prems(2) st show ?case by auto
qed

lemma bounded_clean: "bounded_result E deep v (Some c) = Inr u \<Longrightarrow> free_of E c v"
  using scan_clean [of E deep c 0 "[(v, 0)]" v 0]
  by (auto simp: bounded_result_def contains_credential_def guard_raise_Inr split: option.splits if_splits)

section \<open>Runs of the broker\<close>

lemma on_world_iff [err_simps]:
  "on_world m b = (r, b') \<longleftrightarrow> (\<exists>w'. m (bk_world b) = (r, w') \<and> b' = b\<lparr>bk_world := w'\<rparr>)"
  by (auto simp: on_world_def split: prod.splits)

lemma upstream_iff [err_simps]:
  "upstream B c b = (r, b') \<longleftrightarrow> r = be_upstream B (length (bk_calls b)) c \<and> b' = b\<lparr>bk_calls := bk_calls b @ [c]\<rparr>"
  by (auto simp: upstream_def)

lemma try_record_run:
  "try_record_call E t c a act out why tool uri b = (r, b') \<Longrightarrow>
    \<exists>w'. b' = b\<lparr>bk_world := w'\<rparr> \<and> (r = Inr True \<and> record_external_call E t c a act out why tool uri (bk_world b) = (Inr (), w')
      \<or> r = Inr False)"
  unfolding try_record_call_def on_world_def mtry_def mbind_def mret_def by (auto split: prod.splits sum.splits)

lemma fence_run:
  "external_call_fence t c mret w = (r, w') \<Longrightarrow>
    w' = w \<and> (\<forall>x. r = Inr x \<longrightarrow> external_row (w_db w) t c = Inr x \<and> x_status (cn_row x) = ''active'')"
  unfolding external_call_fence_def transact_def mbind_def query_or_raise_def mguard_def mraise_def mret_def
  by (auto split: sum.splits if_splits)

lemma fenced_run:
  assumes "fenced_call B t c req cred b = (r, b')"
  shows "(\<exists>e. r = Inl e \<and> b' = b) \<or>
    (\<exists>x call. external_row (w_db (bk_world b)) t c = Inr x \<and> x_status (cn_row x) = ''active''
      \<and> call = \<lparr>up_endpoint = x_endpoint (cn_row x), up_request = req, up_credential = cred\<rparr>
      \<and> b' = b\<lparr>bk_calls := bk_calls b @ [call]\<rparr> \<and> r = be_upstream B (length (bk_calls b)) call)"
proof -
  obtain r1 w1 where f: "external_call_fence t c mret (bk_world b) = (r1, w1)" by (cases "external_call_fence t c mret (bk_world b)")
  note fence_run [OF f]
  with f assms show ?thesis
    by (cases r1) (auto simp: fenced_call_def mbind_def on_world_def upstream_def)
qed

lemma guarded_run:
  assumes "guarded_call E B t c conn req pre post b = (r, b')"
  shows "(\<exists>e. r = Inl e \<and> b' = b) \<or>
    (\<exists>x call. external_row (w_db (bk_world b)) t c = Inr x \<and> x_status (cn_row x) = ''active''
      \<and> up_endpoint call = x_endpoint (cn_row x) \<and> up_request call = req
      \<and> b' = b\<lparr>bk_calls := bk_calls b @ [call]\<rparr>
      \<and> (\<forall>v. r = Inr v \<longrightarrow> be_upstream B (length (bk_calls b)) call = Inr v
          \<and> bounded_result E (be_deep B) v (up_credential call) = Inr () \<and> pre conn = None \<and> post v = None))"
proof (cases "ebind (adapter_verdict ''external MCP adapter validation failed'' ''adapter_policy_denied'' ''denied'' (pre conn))
    (\<lambda>_. broker_credential B conn)")
  case (Inl e)
  with assms have "r = Inl e \<and> b' = b"
    by (auto simp: guarded_call_def mbind_def mlift_def ebind_Inl_iff split: sum.splits)
  then show ?thesis by blast
next
  case (Inr cred)
  obtain r1 b1 where f: "fenced_call B t c req cred b = (r1, b1)" by (cases "fenced_call B t c req cred b")
  from Inr assms f have "b' = b1 \<and> (\<forall>e. r1 = Inl e \<longrightarrow> r = Inl e)
      \<and> (\<forall>v. r = Inr v \<longrightarrow> r1 = Inr v \<and> bounded_result E (be_deep B) v cred = Inr ()
          \<and> pre conn = None \<and> post v = None)"
    by (auto simp: guarded_call_def mbind_def mlift_def mret_def ebind_Inr_iff adapter_verdict_def
        split: sum.splits option.splits)
  with fenced_run [OF f] show ?thesis by fastforce
qed

lemma recorded_run:
  assumes "recorded_call E ad t c a act tool uri fallback call b = (r, b')"
  shows "\<exists>r1 b1. call b = (r1, b1) \<and> bk_calls b' = bk_calls b1 \<and> bk_active b' = bk_active b1
    \<and> (\<forall>v. r = Inr v \<longrightarrow> r1 = Inr v
        \<and> record_external_call E t c a act ''allowed'' ''completed'' tool uri (bk_world b1) = (Inr (), bk_world b'))
    \<and> (\<forall>e. r = Inl e \<longrightarrow> e = ExternalMcpError fallback \<or> (\<exists>e1. r1 = Inl e1 \<and> e = call_error ad fallback e1))"
proof -
  obtain r1 b1 where c: "call b = (r1, b1)" by (cases "call b")
  show ?thesis
  proof (cases r1)
    case (Inl e)
    with assms c show ?thesis
      unfolding recorded_call_def
      by (auto simp: mbind_def mtry_def mraise_def split: prod.splits sum.splits dest!: try_record_run)
  next
    case (Inr v)
    with assms c show ?thesis
      unfolding recorded_call_def
      by (auto simp: mbind_def mtry_def mraise_def mret_def split: prod.splits sum.splits if_splits dest!: try_record_run)
  qed
qed

lemma admitted_run:
  assumes "while_admitted B t a c op m b = (r, b')"
  shows "(\<exists>e rate. r = Inl e \<and> b' = b\<lparr>bk_rate := rate, bk_reads := Suc (bk_reads b)\<rparr>)
    \<or> (\<exists>k rate active b1. try_acquire k (bk_active b) = (True, active)
        \<and> m (b\<lparr>bk_rate := rate, bk_reads := Suc (bk_reads b), bk_active := active\<rparr>) = (r, b1)
        \<and> b' = b1\<lparr>bk_active := release k (bk_active b1)\<rparr>)"
proof -
  obtain ok retry rate where d: "dim_allow (be_clock B (bk_reads b)) [(''tenant'', t), (''actor'', a), (''connection'', c)]
      (bk_rate b) = ((ok, retry), rate)" by (metis prod.collapse)
  obtain got active where k: "try_acquire (admission_key t a c op) (bk_active b) = (got, active)" by (metis prod.collapse)
  show ?thesis
  proof (cases "ok \<and> got")
    case True
    obtain b1 where m: "m (b\<lparr>bk_rate := rate, bk_reads := Suc (bk_reads b), bk_active := active\<rparr>) = (r, b1)"
      "b' = b1\<lparr>bk_active := release (admission_key t a c op) (bk_active b1)\<rparr>"
      using assms k d True unfolding while_admitted_def admit_def mbind_def Let_def by (auto split: prod.splits)
    from k True have "try_acquire (admission_key t a c op) (bk_active b) = (True, active)" by simp
    with m show ?thesis by blast
  next
    case False
    have "\<not> got \<Longrightarrow> active = bk_active b" using k by (auto simp: try_acquire_def Let_def split: if_splits)
    with False show ?thesis using assms k d
      unfolding while_admitted_def admit_def mbind_def Let_def by (cases ok; cases got) (auto split: prod.splits)
  qed
qed

section \<open>Everything the broker can do\<close>

inductive broker_step :: "env \<Rightarrow> broker_env \<Rightarrow> ip_table \<Rightarrow> broker \<Rightarrow> broker \<Rightarrow> bool" for E B ip where
  register: "broker_register E B ip t a g b = (p, b') \<Longrightarrow> broker_step E B ip b b'"
| lists: "broker_list E B ip t a n b = (ps, b') \<Longrightarrow> broker_step E B ip b b'"
| status: "broker_status E B ip t a c b = (p, b') \<Longrightarrow> broker_step E B ip b b'"
| health: "broker_health E B ip t a c probe b = (p, b') \<Longrightarrow> broker_step E B ip b b'"
| revoke: "broker_revoke E B ip t a c why b = (p, b') \<Longrightarrow> broker_step E B ip b b'"
| audit: "broker_audit B t a oc n b = (rows, b') \<Longrightarrow> broker_step E B ip b b'"
| call_tool: "broker_call_tool E B t a c tool args pre post b = (r, b') \<Longrightarrow> broker_step E B ip b b'"
| authorize: "broker_authorize_tool E t a c tool args b = (x, b') \<Longrightarrow> broker_step E B ip b b'"
| read_resource: "broker_read_resource E B ip t a c uri b = (r, b') \<Longrightarrow> broker_step E B ip b b'"

subsection \<open>Where the calls go\<close>

definition endpoints :: "world \<Rightarrow> string set" where
  "endpoints w = x_endpoint ` set (t_connections (w_db w))"

definition public_endpoint :: "ip_table \<Rightarrow> string \<Rightarrow> bool" where
  "public_endpoint ip v \<longleftrightarrow> (\<exists>u host. urlsplit ip v = Some u \<and> su_scheme u = ''https'' \<and> bare_url u
     \<and> su_path u \<noteq> [] \<and> hostname u = Some host \<and> (\<forall>info. ip host \<noteq> Some (info, False)))"

text \<open>Addresses are only added, and those added are in \<open>G\<close>.\<close>

definition endpoints_within :: "string set \<Rightarrow> world \<Rightarrow> world \<Rightarrow> bool" where
  "endpoints_within G w w' \<longleftrightarrow> endpoints w \<subseteq> endpoints w' \<and> endpoints w' \<subseteq> endpoints w \<union> G"

definition calls_within :: "string set \<Rightarrow> broker \<Rightarrow> broker \<Rightarrow> bool" where
  "calls_within G b b' \<longleftrightarrow> endpoints_within G (bk_world b) (bk_world b')
     \<and> (\<exists>new. bk_calls b' = bk_calls b @ new \<and> up_endpoint ` set new \<subseteq> endpoints (bk_world b'))"

lemma endpoints_simps [simp]: "endpoints (w\<lparr>w_ids := n\<rparr>) = endpoints w" "endpoints (w\<lparr>w_now := n\<rparr>) = endpoints w"
  "endpoints (w'\<lparr>w_db := w_db w\<rparr>) = endpoints w"
  by (simp_all add: endpoints_def)

interpretation ends: world_relation "endpoints_within G" for G
proof
  show "endpoints_within G w v" if "endpoints_within G w u" "endpoints_within G u v" for w u v
    using that unfolding endpoints_within_def by blast
qed (simp_all add: endpoints_within_def)

interpretation calls: action_relation "calls_within G" for G
proof
  show "calls_within G b b" for b by (simp add: calls_within_def ends.R_refl)
  show "calls_within G b d" if "calls_within G b c" "calls_within G c d" for b c d
  proof -
    from that(1) obtain n1 where n1: "bk_calls c = bk_calls b @ n1" "up_endpoint ` set n1 \<subseteq> endpoints (bk_world c)"
      unfolding calls_within_def by blast
    from that(2) obtain n2 where n2: "bk_calls d = bk_calls c @ n2" "up_endpoint ` set n2 \<subseteq> endpoints (bk_world d)"
      unfolding calls_within_def by blast
    from that(2) have "endpoints (bk_world c) \<subseteq> endpoints (bk_world d)"
      by (simp add: calls_within_def endpoints_within_def)
    moreover have "endpoints_within G (bk_world b) (bk_world d)"
      using that ends.R_trans by (auto simp: calls_within_def)
    ultimately show ?thesis using n1 n2 by (auto simp: calls_within_def)
  qed
qed

lemma ends_execute:
  "(\<And>db. x_endpoint ` set (t_connections (f db)) = x_endpoint ` set (t_connections db)) \<Longrightarrow>
    steps_by (endpoints_within G) (execute ok f)"
  by (rule ends.steps_execute) (simp add: endpoints_within_def endpoints_def)

lemma ends_ensure: "steps_by (endpoints_within G) (ensure_tenant E t)"
  unfolding ensure_tenant_def insert_or_ignore_tenant_def by (intro ends.world_intros ends_execute) auto

lemma ends_audit: "steps_by (endpoints_within G) (write_external_audit E t c a act out why tool uri)"
  unfolding write_external_audit_def insert_call_audit_row_def by (intro ends.world_intros ends_execute) simp

lemma ends_insert: "x_endpoint r \<in> G \<Longrightarrow> steps_by (endpoints_within G) (insert_connection_row r)"
  unfolding insert_connection_row_def
  by (rule ends.steps_execute) (auto simp: endpoints_within_def endpoints_def)

lemma endpoints_map: "(\<And>r. x_endpoint (g r) = x_endpoint r) \<Longrightarrow> x_endpoint ` set (map g rs) = x_endpoint ` set rs"
  by (induction rs) auto

lemma ends_update: "(\<And>r. x_endpoint (f r) = x_endpoint r) \<Longrightarrow> steps_by (endpoints_within G) (update_connection t c f)"
  unfolding update_connection_def
  by (rule ends_execute) (simp add: endpoints_map del: set_map)

lemmas ends_intros = ends.world_intros ends_ensure ends_audit ends_update

lemma ends_deny: "steps_by (endpoints_within G) (deny E t c a act why tool e)"
  unfolding deny_def record_external_denial_def by (intro ends_intros)

lemma ends_lookup: "steps_by (endpoints_within G) (lookup_or_deny E t c a act tool)"
  unfolding lookup_or_deny_def by (intro ends_intros) (auto intro!: ends_intros ends_deny split: py_exn.split)

lemma ends_tool: "steps_by (endpoints_within G) (authorize_external_tool E t c tool a args)"
  unfolding authorize_external_tool_def by (intro ends_intros ends_lookup ends_deny)

lemma ends_resource: "steps_by (endpoints_within G) (authorize_external_resource E ip t c uri a)"
  unfolding authorize_external_resource_def by (intro ends_intros ends_lookup ends_deny)

lemma ends_call: "steps_by (endpoints_within G) (record_external_call E t c a act out why tool uri)"
  unfolding record_external_call_def by (intro ends_intros)

lemma ends_health: "steps_by (endpoints_within G) (record_external_health E t c a st)"
  unfolding record_external_health_def by (intro ends_intros) (simp add: set_health_def)

lemma ends_revoke: "steps_by (endpoints_within G) (revoke_external_connection E ip t c a why)"
  unfolding revoke_external_connection_def by (intro ends_intros) (simp add: set_revoked_def)

lemma ends_register: "steps_by (endpoints_within {v. public_endpoint ip v}) (register_external_connection E ip t a g)"
proof -
  have "yields (mlift (check_registration E ip t a g) :: (world, _) action) (\<lambda>_. public_endpoint ip (rg_endpoint g))"
  proof (rule yieldsI)
    fix s :: world and x s' assume "mlift (check_registration E ip t a g) s = (Inr x, s')"
    then show "public_endpoint ip (rg_endpoint g)"
      using external_origin_Inr [of E ip "rg_endpoint g"] check_registration_Inr [of E ip t a g]
      unfolding public_endpoint_def by (cases x) (auto simp: mlift_iff)
  qed
  then show ?thesis
    unfolding register_external_connection_def
    by (elim ends.steps_mbind_yields [OF ends.steps_mlift])
      (auto intro!: ends_intros ends_insert split: prod.split)
qed

lemma calls_on_world: "steps_by (endpoints_within G) m \<Longrightarrow> steps_by (calls_within G) (on_world m)"
  by (rule steps_byI) (auto simp: on_world_iff calls_within_def dest: steps_byD)

lemma calls_on_db: "steps_by (calls_within G) (on_db f)"
  unfolding on_db_def by (intro calls_on_world ends.world_intros)

lemma calls_fenced: "steps_by (calls_within G) (fenced_call B t c req cred)"
proof (rule steps_byI)
  fix b r b' assume "fenced_call B t c req cred b = (r, b')"
  from fenced_run [OF this] show "calls_within G b b'"
  proof (elim disjE exE conjE)
    fix x call
    assume "external_row (w_db (bk_world b)) t c = Inr x"
      "call = \<lparr>up_endpoint = x_endpoint (cn_row x), up_request = req, up_credential = cred\<rparr>"
      and b': "b' = b\<lparr>bk_calls := bk_calls b @ [call]\<rparr>"
    then have "up_endpoint call \<in> endpoints (bk_world b)"
      by (auto simp: external_row_Inr find_connection_def find_Some_iff endpoints_def)
    with b' show ?thesis by (simp add: calls_within_def endpoints_within_def)
  qed (simp add: calls.R_refl)
qed

lemmas calls_intros = calls.steps_intros calls_on_world calls_on_db calls_fenced

lemma calls_record: "steps_by (calls_within G) (try_record_call E t c a act out why tool uri)"
  "steps_by (calls_within G) (try_record_health E t c a st)"
  unfolding try_record_call_def try_record_health_def by (intro calls_intros ends_call ends_health)+

lemma calls_admitted: "steps_by (calls_within G) m \<Longrightarrow> steps_by (calls_within G) (while_admitted B t a c op m)"
proof (rule steps_byI)
  fix b r b' assume m: "steps_by (calls_within G) m" and "while_admitted B t a c op m b = (r, b')"
  from admitted_run [OF this(2)] show "calls_within G b b'"
    by (elim disjE exE conjE) (auto simp: calls_within_def endpoints_within_def dest!: steps_byD [OF m])
qed

lemma calls_guarded: "steps_by (calls_within G) (guarded_call E B t c x req pre post)"
  unfolding guarded_call_def by (intro calls_intros)

lemma calls_recorded: "steps_by (calls_within G) m \<Longrightarrow>
    steps_by (calls_within G) (recorded_call E ad t c a act tool uri fallback m)"
  unfolding recorded_call_def by (intro calls_intros calls_record)

lemma calls_health: "steps_by (calls_within G) (health_admitted E B ip t a c probe)"
  unfolding health_admitted_def probe_health_def health_failure_def by (intro calls_intros calls_record)

lemma calls_register: "steps_by (calls_within {v. public_endpoint ip v}) (register_admitted E B ip t a g)"
  unfolding register_admitted_def by (intro calls_intros ends_register)

lemma broker_step_calls: "broker_step E B ip b b' \<Longrightarrow> calls_within {v. public_endpoint ip v} b b'"
proof (induction rule: broker_step.induct)
  case (register t a g b p b')
  then show ?case unfolding broker_register_def
    by (rule steps_byD [rotated]) (intro calls_intros calls_admitted calls_register)
next
  case (health t a c probe b p b')
  then show ?case unfolding broker_health_def by (rule steps_byD [rotated]) (intro calls_admitted calls_health)
next
  case (lists t a n b ps b')
  then show ?case unfolding broker_list_def by (rule steps_byD [rotated]) (intro calls_admitted calls_intros)
next
  case (status t a c b p b')
  then show ?case unfolding broker_status_def by (rule steps_byD [rotated]) (intro calls_admitted calls_intros)
next
  case (revoke t a c why b p b')
  then show ?case unfolding broker_revoke_def
    by (rule steps_byD [rotated]) (intro calls_admitted calls_intros ends_revoke)
next
  case (audit t a oc n b rows b')
  then show ?case unfolding broker_audit_def by (rule steps_byD [rotated]) (intro calls_admitted calls_intros)
next
  case (call_tool t a c tool args pre post b r b')
  then show ?case unfolding broker_call_tool_def call_tool_admitted_def
    by (rule steps_byD [rotated]) (intro calls_intros calls_admitted calls_recorded calls_guarded ends_tool)
next
  case (authorize t a c tool args b x b')
  then show ?case unfolding broker_authorize_tool_def by (rule steps_byD [rotated]) (intro calls_intros ends_tool)
next
  case (read_resource t a c uri b r b')
  then show ?case unfolding broker_read_resource_def read_resource_admitted_def
    by (rule steps_byD [rotated]) (intro calls_intros calls_admitted calls_recorded calls_guarded ends_resource)
qed

lemma broker_run_calls: "(broker_step E B ip)\<^sup>*\<^sup>* b b' \<Longrightarrow> calls_within {v. public_endpoint ip v} b b'"
  by (induction rule: rtranclp_induct) (auto intro: calls.R_refl calls.R_trans broker_step_calls)

subsection \<open>Slots\<close>

text \<open>The slots held are the same: inside an admitted operation nothing touches them, and an operation
  gives back the one it took.\<close>

definition same_slots :: "concurrency_limiter \<Rightarrow> concurrency_limiter \<Rightarrow> bool" where
  "same_slots l l' \<longleftrightarrow> cl_total l' = cl_total l \<and> (\<forall>j. active_count l' j = active_count l j)"

definition slots_kept :: "broker \<Rightarrow> broker \<Rightarrow> bool" where
  "slots_kept b b' \<longleftrightarrow> (conc_ok (bk_active b) \<longrightarrow> conc_ok (bk_active b') \<and> same_slots (bk_active b) (bk_active b'))"

definition slots_untouched :: "broker \<Rightarrow> broker \<Rightarrow> bool" where
  "slots_untouched b b' \<longleftrightarrow> bk_active b' = bk_active b"

interpretation inner: action_relation slots_untouched
  by unfold_locales (auto simp: slots_untouched_def)

interpretation slots: action_relation slots_kept
  by unfold_locales (auto simp: slots_kept_def same_slots_def)

lemma untouched_on_world: "steps_by slots_untouched (on_world m)" "steps_by slots_untouched (on_db f)"
  unfolding on_db_def by (auto intro!: steps_byI simp: on_world_iff slots_untouched_def)

lemma untouched_fenced: "steps_by slots_untouched (fenced_call B t c req cred)"
  by (rule steps_byI, drule fenced_run) (auto simp: slots_untouched_def)

lemmas untouched_intros = inner.steps_intros untouched_on_world untouched_fenced

lemma untouched_record: "steps_by slots_untouched (try_record_call E t c a act out why tool uri)"
  "steps_by slots_untouched (try_record_health E t c a st)"
  unfolding try_record_call_def try_record_health_def by (intro untouched_intros)+

lemma untouched_guarded: "steps_by slots_untouched (guarded_call E B t c x req pre post)"
  unfolding guarded_call_def by (intro untouched_intros)

lemma untouched_recorded: "steps_by slots_untouched m \<Longrightarrow>
    steps_by slots_untouched (recorded_call E ad t c a act tool uri fallback m)"
  unfolding recorded_call_def by (intro untouched_intros untouched_record)

lemma untouched_health: "steps_by slots_untouched (health_admitted E B ip t a c probe)"
  unfolding health_admitted_def probe_health_def health_failure_def by (intro untouched_intros untouched_record)

lemma untouched_register: "steps_by slots_untouched (register_admitted E B ip t a g)"
  unfolding register_admitted_def by (intro untouched_intros)

lemma slots_admitted: "steps_by slots_untouched m \<Longrightarrow> steps_by slots_kept (while_admitted B t a c op m)"
proof (rule steps_byI)
  fix b r b' assume m: "steps_by slots_untouched m" and "while_admitted B t a c op m b = (r, b')"
  from admitted_run [OF this(2)] show "slots_kept b b'"
  proof (elim disjE exE conjE)
    fix k rate active b1
    assume k: "try_acquire k (bk_active b) = (True, active)"
      and r: "m (b\<lparr>bk_rate := rate, bk_reads := Suc (bk_reads b), bk_active := active\<rparr>) = (r, b1)"
      and b': "b' = b1\<lparr>bk_active := release k (bk_active b1)\<rparr>"
    from steps_byD [OF m r] have "bk_active b1 = active" by (simp add: slots_untouched_def)
    with k b' acquire_release [of "bk_active b" k active] try_acquire_ok [of "bk_active b" k] release_ok [of active k]
    show ?thesis by (simp add: slots_kept_def same_slots_def)
  qed (simp add: slots_kept_def same_slots_def)
qed

lemma slots_inner: "steps_by slots_untouched m \<Longrightarrow> steps_by slots_kept m"
  unfolding steps_by_def slots_untouched_def slots_kept_def same_slots_def by simp

lemma broker_step_slots: "broker_step E B ip b b' \<Longrightarrow> slots_kept b b'"
proof (induction rule: broker_step.induct)
  case (register t a g b p b')
  then show ?case unfolding broker_register_def
    by (rule steps_byD [rotated]) (intro slots.steps_intros slots_admitted untouched_register)
next
  case (health t a c probe b p b')
  then show ?case unfolding broker_health_def by (rule steps_byD [rotated]) (intro slots_admitted untouched_health)
next
  case (lists t a n b ps b')
  then show ?case unfolding broker_list_def by (rule steps_byD [rotated]) (intro slots_admitted untouched_intros)
next
  case (status t a c b p b')
  then show ?case unfolding broker_status_def by (rule steps_byD [rotated]) (intro slots_admitted untouched_intros)
next
  case (revoke t a c why b p b')
  then show ?case unfolding broker_revoke_def by (rule steps_byD [rotated]) (intro slots_admitted untouched_intros)
next
  case (audit t a oc n b rows b')
  then show ?case unfolding broker_audit_def by (rule steps_byD [rotated]) (intro slots_admitted untouched_intros)
next
  case (call_tool t a c tool args pre post b r b')
  then show ?case unfolding broker_call_tool_def call_tool_admitted_def
    by (rule steps_byD [rotated])
      (intro slots.steps_intros slots_admitted untouched_intros untouched_recorded untouched_guarded)
next
  case (authorize t a c tool args b x b')
  then show ?case unfolding broker_authorize_tool_def
    by (rule steps_byD [rotated]) (intro slots_inner untouched_intros)
next
  case (read_resource t a c uri b r b')
  then show ?case unfolding broker_read_resource_def read_resource_admitted_def
    by (rule steps_byD [rotated])
      (intro slots.steps_intros slots_admitted untouched_intros untouched_recorded untouched_guarded)
qed

section \<open>Properties\<close>

lemma admitted_Inr:
  assumes "while_admitted B t a c op m b = (Inr v, b')"
  shows "\<exists>b0 b1. bk_world b0 = bk_world b \<and> bk_calls b0 = bk_calls b \<and> m b0 = (Inr v, b1)
    \<and> bk_calls b' = bk_calls b1 \<and> bk_world b' = bk_world b1"
  using admitted_run [OF assms]
proof (elim disjE exE conjE)
  fix k rate active b1
  let ?b0 = "b\<lparr>bk_rate := rate, bk_reads := Suc (bk_reads b), bk_active := active\<rparr>"
  assume "m ?b0 = (Inr v, b1)" "b' = b1\<lparr>bk_active := release k (bk_active b1)\<rparr>"
  then show ?thesis by (intro exI [of _ ?b0] exI [of _ b1]) simp
qed simp

lemma call_tool_Inr:
  assumes "broker_call_tool E B t a c tool args pre post b = (Inr v, b')"
  shows "\<exists>x call. external_row (w_db (bk_world b)) t c = Inr x \<and> x_status (cn_row x) = ''active'' \<and> tool \<in> set (cn_tools x)
    \<and> up_endpoint call = x_endpoint (cn_row x) \<and> up_request call = UpTool tool args \<and> bk_calls b' = bk_calls b @ [call]
    \<and> be_upstream B (length (bk_calls b)) call = Inr v \<and> bounded_result E (be_deep B) v (up_credential call) = Inr ()
    \<and> pre x = None \<and> post v = None
    \<and> record_external_call E t c a ''tool_call'' ''allowed'' ''completed'' (Some tool) None (bk_world b) = (Inr (), bk_world b')"
proof -
  from assms obtain b0 b1 where b0: "bk_world b0 = bk_world b" "bk_calls b0 = bk_calls b"
    and run: "call_tool_admitted E B t a c tool args pre post b0 = (Inr v, b1)"
    and b': "bk_calls b' = bk_calls b1" "bk_world b' = bk_world b1"
    unfolding broker_call_tool_def mbind_Inr_iff mlift_iff by (blast dest: admitted_Inr)
  from run obtain x w1 where auth: "authorize_external_tool E t c tool a args (bk_world b0) = (Inr x, w1)"
    and rec: "recorded_call E True t c a ''tool_call'' (Some tool) None ''external MCP tool call failed''
       (guarded_call E B t c x (UpTool tool args) pre post) (b0\<lparr>bk_world := w1\<rparr>) = (Inr v, b1)"
    by (auto simp: call_tool_admitted_def mbind_Inr_iff on_world_iff)
  note row = tool_Inr [OF auth]
  from recorded_run [OF rec] obtain b2 where g: "guarded_call E B t c x (UpTool tool args) pre post (b0\<lparr>bk_world := w1\<rparr>) = (Inr v, b2)"
    and r: "bk_calls b1 = bk_calls b2"
      "record_external_call E t c a ''tool_call'' ''allowed'' ''completed'' (Some tool) None (bk_world b2) = (Inr (), bk_world b1)"
    by auto
  from guarded_run [OF g] row r b0 b' show ?thesis by auto
qed

lemma read_resource_run:
  assumes "broker_read_resource E B ip t a c uri b = (r, b')"
  shows "(\<exists>e. r = Inl e \<and> bk_calls b' = bk_calls b) \<or>
    (\<exists>x b0 b1 b2. authorize_external_resource E ip t c uri a (bk_world b) = (Inr x, bk_world b) \<and> bk_world b0 = bk_world b
      \<and> bk_calls b0 = bk_calls b \<and> bk_calls b' = bk_calls b1
      \<and> recorded_call E False t c a ''resource_read'' None (Some uri) ''external MCP resource read failed''
          (guarded_call E B t c x (UpResource uri) (\<lambda>_. None) (\<lambda>_. None)) b0 = (r, b1))"
proof (cases "length (utf8 uri) > 2048")
  case True
  with assms show ?thesis by (auto simp: broker_read_resource_def mbind_def mguard_def mraise_def)
next
  case False
  with assms have "while_admitted B t a c ''resource'' (read_resource_admitted E B ip t a c uri) b = (r, b')"
    by (simp add: broker_read_resource_def mbind_def mguard_def mret_def)
  from admitted_run [OF this] show ?thesis
  proof (elim disjE exE conjE)
    fix k rate active b1
    let ?b0 = "b\<lparr>bk_rate := rate, bk_reads := Suc (bk_reads b), bk_active := active\<rparr>"
    assume run: "read_resource_admitted E B ip t a c uri ?b0 = (r, b1)" and b': "b' = b1\<lparr>bk_active := release k (bk_active b1)\<rparr>"
    obtain ax w1 where auth: "authorize_external_resource E ip t c uri a (bk_world b) = (ax, w1)" by (metis prod.collapse)
    show ?thesis
    proof (cases ax)
      case (Inl e)
      with run auth b' show ?thesis by (auto simp: read_resource_admitted_def mbind_def on_world_def)
    next
      case (Inr x)
      with auth resource_Inr [of E ip t c uri a "bk_world b" x w1] have "w1 = bk_world b" by simp
      with Inr auth run b' show ?thesis
        by (intro disjI2 exI [of _ x] exI [of _ ?b0] exI [of _ b1]) (simp add: read_resource_admitted_def mbind_def on_world_def)
    qed
  qed simp
qed

text \<open>C40: The scan of an upstream's result for the credential always comes to an answer, whatever the
  value, its nesting, the texts in it and the decoders: it never runs on.\<close>

theorem scan_always_answers:
  "\<exists>found. contains_credential E deep v credential = Some found"
  using scan_returns [of E deep credential 0 "[(v, 0)]"] by (auto simp: contains_credential_def)

text \<open>C9: A credential does not come back: when a tool call or a resource read returns a value and the
  upstream was called with a credential, no text of that value contains it, neither as it stands, nor
  percent-decoded any number of times, nor inside texts that are JSON themselves, at any depth.\<close>

theorem credential_not_returned:
  assumes "broker_call_tool E B t a c tool args pre post b = (Inr v, b') \<or> broker_read_resource E B ip t a c uri b = (Inr v, b')"
    and "up_credential (last (bk_calls b')) = Some credential" and "carries v s"
  shows "find_sub credential ((unquote E ^^ n) s) = None"
proof -
  have "\<exists>call. bk_calls b' = bk_calls b @ [call] \<and> bounded_result E (be_deep B) v (up_credential call) = Inr ()"
    using assms(1)
  proof
    assume "broker_read_resource E B ip t a c uri b = (Inr v, b')"
    from read_resource_run [OF this] obtain x b0 b1 where b0: "bk_calls b0 = bk_calls b" "bk_calls b' = bk_calls b1"
      and rec: "recorded_call E False t c a ''resource_read'' None (Some uri) ''external MCP resource read failed''
        (guarded_call E B t c x (UpResource uri) (\<lambda>_. None) (\<lambda>_. None)) b0 = (Inr v, b1)" by auto
    from recorded_run [OF rec] obtain b2 where
      g: "guarded_call E B t c x (UpResource uri) (\<lambda>_. None) (\<lambda>_. None) b0 = (Inr v, b2)" and "bk_calls b1 = bk_calls b2"
      by auto
    with guarded_run [OF g] b0 show ?thesis by auto
  next
    assume "broker_call_tool E B t a c tool args pre post b = (Inr v, b')"
    from call_tool_Inr [OF this] show ?thesis by (elim exE conjE) (intro exI conjI)
  qed
  with assms(2) have "free_of E credential v" by (auto intro: bounded_clean)
  with assms(3) show ?thesis by (simp add: free_of_def)
qed

text \<open>C13: What a tool call returns came from the approved upstream, and is on record: there was exactly
  one upstream call, of that tool with those arguments, at the address of the registered connection,
  which was active and approves the tool; its answer is what is returned; and one audit row says that
  this actor's call of this tool on this connection was allowed.\<close>

theorem returned_call_was_approved:
  assumes "broker_call_tool E B t actor c tool args pre post b = (Inr v, b')"
  shows "\<exists>r tools call row. find_connection (w_db (bk_world b)) t c = Some r \<and> x_status r = ''active''
    \<and> external_json_list (x_tools r) = Inr tools \<and> tool \<in> set tools
    \<and> up_endpoint call = x_endpoint r \<and> up_request call = UpTool tool args
    \<and> bk_calls b' = bk_calls b @ [call] \<and> be_upstream B (length (bk_calls b)) call = Inr v
    \<and> t_call_audit (w_db (bk_world b')) = t_call_audit (w_db (bk_world b)) @ [row]
    \<and> y_tenant row = t \<and> y_connection row = c \<and> y_actor row = actor \<and> y_tool row = Some tool \<and> y_outcome row = ''allowed''"
proof -
  from call_tool_Inr [OF assms] obtain x call where x: "external_row (w_db (bk_world b)) t c = Inr x"
      "x_status (cn_row x) = ''active''" "tool \<in> set (cn_tools x)" "up_endpoint call = x_endpoint (cn_row x)"
      "up_request call = UpTool tool args" "bk_calls b' = bk_calls b @ [call]" "be_upstream B (length (bk_calls b)) call = Inr v"
    and rec: "record_external_call E t c actor ''tool_call'' ''allowed'' ''completed'' (Some tool) None (bk_world b) = (Inr (), bk_world b')"
    by (elim exE conjE) (rule that)
  from rec obtain row where row: "t_call_audit (w_db (bk_world b')) = t_call_audit (w_db (bk_world b)) @ [row]" "y_tenant row = t"
      "y_connection row = c" "y_actor row = actor" "y_tool row = Some tool" "y_outcome row = ''allowed''"
    by (auto simp: record_external_call_def write_external_audit_def insert_call_audit_row_def mbind_Inr_iff transact_Inr
        new_id_iff utc_now_iff execute_iff split: if_splits)
  from x(1) have "find_connection (w_db (bk_world b)) t c = Some (cn_row x)"
    "external_json_list (x_tools (cn_row x)) = Inr (cn_tools x)" by (simp_all add: external_row_Inr)
  with x(2-7) row show ?thesis
    by (intro exI [of _ "cn_row x"] exI [of _ "cn_tools x"] exI [of _ call] exI [of _ row] conjI)
qed

text \<open>C28: Every upstream the broker ever calls is public: whatever sequence of operations it runs from a
  registry whose addresses are public (an empty one, for instance), each address it called is an \<open>https\<close> URL with a path and without user information,
  query and fragment, whose host is no address outside the public ranges.\<close>

theorem upstream_endpoints_public:
  assumes "(broker_step E B ip)\<^sup>*\<^sup>* b b'" and "bk_calls b = []" 
    and "\<forall>r \<in> set (t_connections (w_db (bk_world b))). public_endpoint ip (x_endpoint r)"
    and "call \<in> set (bk_calls b')"
  shows "\<exists>u host. urlsplit ip (up_endpoint call) = Some u \<and> su_scheme u = ''https'' \<and> bare_url u
    \<and> su_path u \<noteq> [] \<and> hostname u = Some host \<and> (\<forall>info. ip host \<noteq> Some (info, False))"
proof -
  from broker_run_calls [OF assms(1)] have "up_endpoint call \<in> endpoints (bk_world b) \<union> {v. public_endpoint ip v}"
    using assms(2,4) by (auto simp: calls_within_def endpoints_within_def)
  with assms(3) have "public_endpoint ip (up_endpoint call)" by (auto simp: endpoints_def)
  then show ?thesis by (simp only: public_endpoint_def)
qed

text \<open>No operation of the broker leaks a slot: whatever sequence of operations runs, and however they
  end, the concurrency limiter holds as many slots in all and for every key as before.\<close>

theorem no_slot_leaks:
  assumes "(broker_step E B ip)\<^sup>*\<^sup>* b b'" and "conc_ok (bk_active b)"
  shows "conc_ok (bk_active b') \<and> cl_total (bk_active b') = cl_total (bk_active b)
    \<and> (\<forall>key. active_count (bk_active b') key = active_count (bk_active b) key)"
proof -
  from assms(1) have "slots_kept b b'"
    by (induction rule: rtranclp_induct) (auto intro: slots.R_refl slots.R_trans broker_step_slots)
  with assms(2) show ?thesis by (simp add: slots_kept_def same_slots_def)
qed

text \<open>What an upstream says in its errors stays inside: when a resource read has reached the upstream
  and fails, the exception is an \<open>ExternalMcpError\<close> with one of the fixed messages.\<close>

theorem upstream_failure_is_masked:
  assumes "broker_read_resource E B ip t a c uri b = (Inl e, b')" and "bk_calls b' \<noteq> bk_calls b"
  shows "\<exists>m \<in> set SAFE_EXTERNAL_ERRORS. e = ExternalMcpError m"
proof -
  from read_resource_run [OF assms(1)] assms(2) obtain x b0 b1 where
    rec: "recorded_call E False t c a ''resource_read'' None (Some uri) ''external MCP resource read failed''
      (guarded_call E B t c x (UpResource uri) (\<lambda>_. None) (\<lambda>_. None)) b0 = (Inl e, b1)" by auto
  have m: "''external MCP resource read failed'' \<in> set SAFE_EXTERNAL_ERRORS"
    "''external MCP connection is revoked'' \<in> set SAFE_EXTERNAL_ERRORS" by (simp_all add: SAFE_EXTERNAL_ERRORS_def)
  from recorded_run [OF rec] have "e = ExternalMcpError ''external MCP resource read failed'' \<or>
      (\<exists>e1. e = call_error False ''external MCP resource read failed'' e1)" by auto
  with m show ?thesis by (auto simp: call_error_def sanitize_external_error_def)
qed

text \<open>A registration may only point at the public internet: \<open>resolve_endpoint\<close> returns a host that
  is not \<open>localhost\<close> or below it and at least one address, every one of them in a public range, and
  only for an \<open>https\<close> address without user information, query and fragment.\<close>

theorem resolved_endpoint_is_public:
  assumes "resolve_endpoint ip D endpoint = Inr (host, addresses)"
  shows "host \<noteq> [] \<and> host \<noteq> ''localhost'' \<and> \<not> ends_with ''.localhost'' host \<and> addresses \<noteq> []
    \<and> (\<forall>a \<in> set addresses. \<exists>info. ip a = Some (info, True))
    \<and> (\<exists>u. urlsplit ip endpoint = Some u \<and> su_scheme u = ''https'' \<and> userinfo u = (None, None)
         \<and> su_query u = [] \<and> su_fragment u = [])"
proof -
  from assms obtain port where h: "endpoint_host ip D endpoint = Inr (host, port)"
    and g: "addresses \<noteq> []" "\<not> list_ex (\<lambda>a. \<not> (case ip a of Some (_, global) \<Rightarrow> global | None \<Rightarrow> False)) addresses"
    by (auto simp: resolve_endpoint_def ebind_Inr_iff split: prod.splits if_splits)
  from g(2) have "\<forall>a \<in> set addresses. \<exists>info. ip a = Some (info, True)"
    by (fastforce simp: list_ex_iff split: option.splits)
  moreover from h have "host \<noteq> [] \<and> host \<noteq> ''localhost'' \<and> \<not> ends_with ''.localhost'' host
    \<and> (\<exists>u. urlsplit ip endpoint = Some u \<and> su_scheme u = ''https'' \<and> userinfo u = (None, None)
         \<and> su_query u = [] \<and> su_fragment u = [])"
    unfolding endpoint_host_def Let_def by (auto split: option.splits if_splits)
  ultimately show ?thesis using g(1) by blast
qed

section \<open>Sample runs\<close>

text \<open>A connection with a credential, an upstream that answers \<open>hi\<close> to a tool call and fails a resource
  read.\<close>

definition keyed_connection :: connection_row where
  "keyed_connection = sample_connection\<lparr>x_credential := Some ''ref'', x_resources := json_list_text [''https://a.b/r'']\<rparr>"

definition sample_broker :: broker where
  "sample_broker = \<lparr>bk_world = registry_world\<lparr>w_db := (w_db registry_world)\<lparr>t_connections := [keyed_connection]\<rparr>\<rparr>,
     bk_rate = \<lparr>dl_limits = [(''tenant'', 5)], dl_window_seconds = 60, dl_max_keys = 8, dl_windows = []\<rparr>,
     bk_active = \<lparr>cl_limit = 2, cl_per_key_limit = 2, cl_max_keys = 4, cl_active = [], cl_total = 0\<rparr>,
     bk_reads = 0, bk_calls = []\<rparr>"

definition sample_broker_env :: broker_env where
  "sample_broker_env = \<lparr>be_issue = (\<lambda>_ _ _ _. Some (JStr ''key'')), be_validates = True, be_validate = (\<lambda>_. None),
     be_upstream = (\<lambda>n call. case up_request call of UpTool _ _ \<Rightarrow> Inr (JStr ''hi'')
       | _ \<Rightarrow> Inl (ExternalMcpError ''key leaked'')),
     be_clock = (\<lambda>_. 0), be_deep = (\<lambda>_. False)\<rparr>"

definition keyed :: connection where
  "keyed = \<lparr>cn_row = keyed_connection, cn_tools = [''f''], cn_resources = [''https://a.b/r''],
     cn_origins = [''https://a.b''], cn_policy = JObj []\<rparr>"

lemma keyed_row: "external_row (w_db (bk_world sample_broker)) ''t'' ''c'' = Inr keyed"
  by (simp add: external_row_Inr list_text_round empty_policy find_connection_def sample_broker_def keyed_def
      keyed_connection_def sample_connection_def)

lemma hi_scanned: "bounded_result env0 (\<lambda>_. False) (JStr ''hi'') (Some ''key'') = Inr ()"
proof -
  have d: "dumps_strict (JStr ''hi'') = Some (CHR 0x22 # ''hi'' @ [CHR 0x22])" by code_simp
  have l: "loads ''hi'' = None" by code_simp
  have k: "\<not> decode_scan env0 ''key'' 2 ''hi''"
    by (simp add: decode_scan.simps [of _ _ 2] starts_with_def unquote_def)
  have u: "length (utf8 ''hi'') = 2" "length (utf8 ''key'') = 3" "length (utf8 (CHR 0x22 # ''hi'' @ [CHR 0x22])) = 4"
    by code_simp+
  have "credential_scan env0 (\<lambda>_. False) ''key'' 1 [] = Some False" by (subst credential_scan.simps) simp
  then have "credential_scan env0 (\<lambda>_. False) ''key'' 0 [(JStr ''hi'', 0)] = Some False"
    by (subst credential_scan.simps) (simp add: l k u MAX_CREDENTIAL_SCAN_NODES_def MAX_CREDENTIAL_SCAN_DEPTH_def
      MAX_CREDENTIAL_DECODE_PASSES_def MAX_CREDENTIAL_SCAN_STRING_BYTES_def)
  then show ?thesis
    using u by (simp add: bounded_result_def contains_credential_def d MAX_CREDENTIAL_SCAN_STRING_BYTES_def
        MAX_EXTERNAL_RESULT_BYTES_def guard_raise_def)
qed

lemmas broker_eval = on_world_def mbind_def mtry_def mret_def mlift_def mguard_def mraise_def

lemma sample_limits: "\<exists>k rate active. admit sample_broker_env ''t'' ''a'' ''c'' op sample_broker =
    (Inr k, sample_broker\<lparr>bk_rate := rate, bk_reads := 1, bk_active := active\<rparr>)"
  by (simp add: admit_def sample_broker_def sample_broker_env_def dim_allow_def dim_candidates_def live_windows_def
      try_acquire_def active_count_def Let_def)

lemma admitted_sample:
  assumes "\<And>rate active. \<exists>b'. m (sample_broker\<lparr>bk_rate := rate, bk_reads := 1, bk_active := active\<rparr>) = (r, b') \<and> bk_calls b' = cs"
  shows "\<exists>b'. while_admitted sample_broker_env ''t'' ''a'' ''c'' op m sample_broker = (r, b') \<and> bk_calls b' = cs"
proof -
  from sample_limits obtain k rate active where a: "admit sample_broker_env ''t'' ''a'' ''c'' op sample_broker =
    (Inr k, sample_broker\<lparr>bk_rate := rate, bk_reads := 1, bk_active := active\<rparr>)" by blast
  from assms obtain b' where "m (sample_broker\<lparr>bk_rate := rate, bk_reads := 1, bk_active := active\<rparr>) = (r, b')" "bk_calls b' = cs" by blast
  with a show ?thesis by (simp add: while_admitted_def mbind_def)
qed

lemma keyed_checks:
  "x_status (cn_row keyed) = ''active''" "''f'' \<in> set (cn_tools keyed)" "''https://a.b/r'' \<in> set (cn_resources keyed)"
  "broker_credential sample_broker_env keyed = Inr (Some ''key'')" "x_endpoint (cn_row keyed) = ''https://a.b/m''"
  by (simp_all add: keyed_def keyed_connection_def sample_connection_def broker_credential_def sample_broker_env_def)

lemma keyed_guarded:
  assumes "bk_world b = bk_world sample_broker"
  shows "guarded_call env0 sample_broker_env ''t'' ''c'' keyed (UpTool ''f'' JNull) (\<lambda>_. None) (\<lambda>_. None) b
      = (Inr (JStr ''hi''), b\<lparr>bk_calls := bk_calls b @ [\<lparr>up_endpoint = ''https://a.b/m'', up_request = UpTool ''f'' JNull,
          up_credential = Some ''key''\<rparr>]\<rparr>)"
    "guarded_call env0 sample_broker_env ''t'' ''c'' keyed (UpResource uri) (\<lambda>_. None) (\<lambda>_. None) b
      = (Inl (ExternalMcpError ''key leaked''), b\<lparr>bk_calls := bk_calls b @ [\<lparr>up_endpoint = ''https://a.b/m'',
          up_request = UpResource uri, up_credential = Some ''key''\<rparr>]\<rparr>)"
proof -
  have row: "external_row (w_db (bk_world b)) ''t'' ''c'' = Inr keyed" using assms keyed_row by simp
  have "fenced_call sample_broker_env ''t'' ''c'' req (Some ''key'') b = upstream sample_broker_env
      \<lparr>up_endpoint = ''https://a.b/m'', up_request = req, up_credential = Some ''key''\<rparr> b" for req
    using row by (simp add: fenced_call_def external_call_fence_def broker_eval transact_def
        query_or_raise_def keyed_checks)
  with hi_scanned show
    "guarded_call env0 sample_broker_env ''t'' ''c'' keyed (UpTool ''f'' JNull) (\<lambda>_. None) (\<lambda>_. None) b
      = (Inr (JStr ''hi''), b\<lparr>bk_calls := bk_calls b @ [\<lparr>up_endpoint = ''https://a.b/m'', up_request = UpTool ''f'' JNull,
          up_credential = Some ''key''\<rparr>]\<rparr>)"
    "guarded_call env0 sample_broker_env ''t'' ''c'' keyed (UpResource uri) (\<lambda>_. None) (\<lambda>_. None) b
      = (Inl (ExternalMcpError ''key leaked''), b\<lparr>bk_calls := bk_calls b @ [\<lparr>up_endpoint = ''https://a.b/m'',
          up_request = UpResource uri, up_credential = Some ''key''\<rparr>]\<rparr>)"
    by (simp_all add: guarded_call_def mbind_def mlift_def mret_def adapter_verdict_def keyed_checks upstream_def
        sample_broker_env_def [THEN arg_cong [of _ _ be_upstream]] sample_broker_env_def [THEN arg_cong [of _ _ be_deep]])
qed

lemma sample_recorded:
  assumes "bk_world b = bk_world sample_broker"
  shows "\<exists>w'. try_record_call env0 ''t'' ''c'' ''a'' act out why tool uri b = (Inr True, b\<lparr>bk_world := w'\<rparr>)"
  using assms by (auto simp: try_record_call_def record_external_call_def on_world_def registry_eval sample_broker_def
      registry_world_def empty_world_def empty_db_def)

lemma sample_call:
  "\<exists>b'. broker_call_tool env0 sample_broker_env ''t'' ''a'' ''c'' ''f'' JNull (\<lambda>_. None) (\<lambda>_. None) sample_broker
      = (Inr (JStr ''hi''), b') \<and> bk_calls b' = [\<lparr>up_endpoint = ''https://a.b/m'', up_request = UpTool ''f'' JNull,
          up_credential = Some ''key''\<rparr>]"
proof -
  have n: "dumps_strict JNull = Some ''null''" "length (utf8 ''null'') = 4" by code_simp+
  have "authorize_external_tool env0 ''t'' ''c'' ''f'' ''a'' JNull (bk_world sample_broker) = (Inr keyed, bk_world sample_broker)"
    unfolding authorize_external_tool_def
    by (simp add: mbind_def lookup_run strip_def lstrip_def is_space_def ord_of_def keyed_row keyed_checks n
        MAX_EXTERNAL_ARGUMENT_BYTES_def mret_def)
  moreover have "\<exists>b'. recorded_call env0 True ''t'' ''c'' ''a'' ''tool_call'' (Some ''f'') None ''external MCP tool call failed''
       (guarded_call env0 sample_broker_env ''t'' ''c'' keyed (UpTool ''f'' JNull) (\<lambda>_. None) (\<lambda>_. None))
       (sample_broker\<lparr>bk_rate := rate, bk_reads := 1, bk_active := active\<rparr>) = (Inr (JStr ''hi''), b')
     \<and> bk_calls b' = [\<lparr>up_endpoint = ''https://a.b/m'', up_request = UpTool ''f'' JNull, up_credential = Some ''key''\<rparr>]"
    for rate active
  proof -
    let ?call = "\<lparr>up_endpoint = ''https://a.b/m'', up_request = UpTool ''f'' JNull, up_credential = Some ''key''\<rparr>"
    let ?b = "sample_broker\<lparr>bk_rate := rate, bk_reads := 1, bk_active := active, bk_calls := [?call]\<rparr>"
    have "bk_world ?b = bk_world sample_broker" by simp
    from sample_recorded [OF this] obtain w' where "try_record_call env0 ''t'' ''c'' ''a'' ''tool_call'' ''allowed'' ''completed'' (Some ''f'') None ?b
      = (Inr True, ?b\<lparr>bk_world := w'\<rparr>)" by blast
    then show ?thesis
      by (simp add: recorded_call_def mbind_def mtry_def mret_def keyed_guarded sample_broker_def [THEN arg_cong [of _ _ bk_calls]])
  qed
  ultimately have "\<exists>b'. while_admitted sample_broker_env ''t'' ''a'' ''c'' ''tool'' (call_tool_admitted env0 sample_broker_env ''t'' ''a'' ''c''
        ''f'' JNull (\<lambda>_. None) (\<lambda>_. None)) sample_broker = (Inr (JStr ''hi''), b')
      \<and> bk_calls b' = [\<lparr>up_endpoint = ''https://a.b/m'', up_request = UpTool ''f'' JNull, up_credential = Some ''key''\<rparr>]"
    by (intro admitted_sample) (simp add: call_tool_admitted_def mbind_def on_world_def)
  then show ?thesis
    by (simp add: broker_call_tool_def mbind_def mlift_def check_request_size_def n guard_raise_def MAX_EXTERNAL_REQUEST_BYTES_def)
qed

lemma sample_resource:
  "\<exists>e b'. broker_read_resource env0 sample_broker_env no_ip ''t'' ''a'' ''c'' ''https://a.b/r'' sample_broker
      = (Inl e, b') \<and> bk_calls b' = [\<lparr>up_endpoint = ''https://a.b/m'', up_request = UpResource ''https://a.b/r'',
          up_credential = Some ''key''\<rparr>]"
proof -
  have u: "length (utf8 ''https://a.b/r'') = 13" by code_simp
  have "\<not> resource_uri_is_unsafe env0 no_ip ''https://a.b/r''"
    by (simp add: resource_uri_is_unsafe_def url_eval no_ip_def)
  then have "authorize_external_resource env0 no_ip ''t'' ''c'' ''https://a.b/r'' ''a'' (bk_world sample_broker) = (Inr keyed, bk_world sample_broker)"
    unfolding authorize_external_resource_def
    by (simp add: mbind_def lookup_run strip_def lstrip_def is_space_def ord_of_def keyed_row keyed_checks mret_def)
  moreover have "\<exists>b'. recorded_call env0 False ''t'' ''c'' ''a'' ''resource_read'' None (Some ''https://a.b/r'') ''external MCP resource read failed''
       (guarded_call env0 sample_broker_env ''t'' ''c'' keyed (UpResource ''https://a.b/r'') (\<lambda>_. None) (\<lambda>_. None))
       (sample_broker\<lparr>bk_rate := rate, bk_reads := 1, bk_active := active\<rparr>)
       = (Inl (call_error False ''external MCP resource read failed'' (ExternalMcpError ''key leaked'')), b')
     \<and> bk_calls b' = [\<lparr>up_endpoint = ''https://a.b/m'', up_request = UpResource ''https://a.b/r'', up_credential = Some ''key''\<rparr>]"
    for rate active
  proof -
    let ?call = "\<lparr>up_endpoint = ''https://a.b/m'', up_request = UpResource ''https://a.b/r'', up_credential = Some ''key''\<rparr>"
    let ?b = "sample_broker\<lparr>bk_rate := rate, bk_reads := 1, bk_active := active, bk_calls := [?call]\<rparr>"
    let ?out = "call_outcome False (ExternalMcpError ''key leaked'')"
    have "bk_world ?b = bk_world sample_broker" by simp
    from sample_recorded [OF this] obtain w' where "try_record_call env0 ''t'' ''c'' ''a'' ''resource_read'' (fst ?out) (snd ?out)
      None (Some ''https://a.b/r'') ?b = (Inr True, ?b\<lparr>bk_world := w'\<rparr>)" by blast
    then show ?thesis
      by (simp add: recorded_call_def mbind_def mtry_def mraise_def keyed_guarded sample_broker_def [THEN arg_cong [of _ _ bk_calls]])
  qed
  ultimately have "\<exists>b'. while_admitted sample_broker_env ''t'' ''a'' ''c'' ''resource'' (read_resource_admitted env0 sample_broker_env
        no_ip ''t'' ''a'' ''c'' ''https://a.b/r'') sample_broker
      = (Inl (call_error False ''external MCP resource read failed'' (ExternalMcpError ''key leaked'')), b')
      \<and> bk_calls b' = [\<lparr>up_endpoint = ''https://a.b/m'', up_request = UpResource ''https://a.b/r'', up_credential = Some ''key''\<rparr>]"
    by (intro admitted_sample) (simp add: read_resource_admitted_def mbind_def on_world_def)
  then show ?thesis
    by (simp add: broker_read_resource_def mbind_def mguard_def mret_def u) (elim exE, intro exI)
qed

lemma credential_not_returned_witness:
  "find_sub ''key'' ((unquote env0 ^^ 3) ''hi'') = None"
proof -
  from sample_call obtain b' where
    r: "broker_call_tool env0 sample_broker_env ''t'' ''a'' ''c'' ''f'' JNull (\<lambda>_. None) (\<lambda>_. None) sample_broker = (Inr (JStr ''hi''), b')"
      "up_credential (last (bk_calls b')) = Some ''key''" by auto
  show ?thesis by (rule credential_not_returned [OF disjI1 [OF r(1)] r(2) itself])
qed

lemma returned_call_was_approved_witness:
  "\<exists>row. t_call_audit (w_db (bk_world (snd (broker_call_tool env0 sample_broker_env ''t'' ''a'' ''c'' ''f'' JNull
      (\<lambda>_. None) (\<lambda>_. None) sample_broker)))) = [row] \<and> y_actor row = ''a'' \<and> y_outcome row = ''allowed''"
proof -
  from sample_call obtain b' where
    r: "broker_call_tool env0 sample_broker_env ''t'' ''a'' ''c'' ''f'' JNull (\<lambda>_. None) (\<lambda>_. None) sample_broker = (Inr (JStr ''hi''), b')"
    by blast
  from returned_call_was_approved [OF r] r show ?thesis
    by (auto simp: sample_broker_def registry_world_def empty_world_def empty_db_def)
qed

lemma upstream_failure_is_masked_witness:
  "\<exists>b' m. broker_read_resource env0 sample_broker_env no_ip ''t'' ''a'' ''c'' ''https://a.b/r'' sample_broker
     = (Inl (ExternalMcpError m), b') \<and> m \<in> set SAFE_EXTERNAL_ERRORS"
proof -
  from sample_resource obtain b' e where
    r: "broker_read_resource env0 sample_broker_env no_ip ''t'' ''a'' ''c'' ''https://a.b/r'' sample_broker = (Inl e, b')"
      "bk_calls b' \<noteq> bk_calls sample_broker" by (auto simp: sample_broker_def)
  from upstream_failure_is_masked [OF r] r(1) show ?thesis by auto
qed

lemma upstream_endpoints_public_witness:
  "\<exists>b' call u host. bk_calls b' = [call] \<and> urlsplit no_ip (up_endpoint call) = Some u \<and> su_scheme u = ''https'' \<and> hostname u = Some host
    \<and> snd (broker_call_tool env0 sample_broker_env ''t'' ''a'' ''c'' ''f'' JNull (\<lambda>_. None) (\<lambda>_. None) sample_broker) = b'"
proof -
  from sample_call obtain b' call where
    r: "broker_call_tool env0 sample_broker_env ''t'' ''a'' ''c'' ''f'' JNull (\<lambda>_. None) (\<lambda>_. None) sample_broker = (Inr (JStr ''hi''), b')"
      "bk_calls b' = [call]" by blast
  from broker_step.call_tool [OF r(1)] have run: "(broker_step env0 sample_broker_env no_ip)\<^sup>*\<^sup>* sample_broker b'" by blast
  have "external_origin env0 no_ip (x_endpoint keyed_connection) True = Inr ''https://a.b''"
    using sample_origin(2) by (simp add: keyed_connection_def sample_connection_def)
  from external_origin_Inr [OF this] have "public_endpoint no_ip (x_endpoint keyed_connection)" by (simp add: public_endpoint_def)
  then have "\<forall>r \<in> set (t_connections (w_db (bk_world sample_broker))). public_endpoint no_ip (x_endpoint r)"
    by (simp add: sample_broker_def)
  from upstream_endpoints_public [OF run _ this] r show ?thesis by (auto simp: sample_broker_def)
qed

lemma no_slot_leaks_witness:
  "cl_total (bk_active (snd (broker_call_tool env0 sample_broker_env ''t'' ''a'' ''c'' ''f'' JNull
      (\<lambda>_. None) (\<lambda>_. None) sample_broker))) = 0"
proof -
  from sample_call obtain b' where
    r: "broker_call_tool env0 sample_broker_env ''t'' ''a'' ''c'' ''f'' JNull (\<lambda>_. None) (\<lambda>_. None) sample_broker = (Inr (JStr ''hi''), b')"
    by blast
  from broker_step.call_tool [OF this] have "(broker_step env0 sample_broker_env no_ip)\<^sup>*\<^sup>* sample_broker b'" by blast
  from no_slot_leaks [OF this] r show ?thesis by (simp add: sample_broker_def conc_ok_def)
qed

definition sample_ips :: ip_table where
  "sample_ips = (\<lambda>s. if s = ''1.2.3.4'' then Some (4, True) else None)"

definition sample_resolver :: resolver where
  "sample_resolver = \<lparr>rs_idna = Some, rs_lookup = (\<lambda>_ _. Some [''1.2.3.4'']),
     rs_address = (\<lambda>s. if s = ''1.2.3.4'' then Some s else None)\<rparr>"

lemma resolved_endpoint_is_public_witness:
  "case resolve_endpoint sample_ips sample_resolver ''https://a.b/m'' of
     Inr (host, addresses) \<Rightarrow> \<not> ends_with ''.localhost'' host \<and> sample_ips (hd addresses) \<noteq> None
   | Inl _ \<Rightarrow> False"
proof -
  have r: "resolve_endpoint sample_ips sample_resolver ''https://a.b/m'' = Inr (''a.b'', [''1.2.3.4''])"
    by (simp add: resolve_endpoint_def endpoint_host_def endpoint_addresses_def url_eval drop_trailing_dots_def
        ends_with_def starts_with_def sample_ips_def sample_resolver_def)
  from resolved_endpoint_is_public [OF this] r show ?thesis by auto
qed

end
