(* ===== verification/Mcp_Tools.thy ===== *)
theory Mcp_Tools
  imports Broker Bridge Graph Listing Search Sharing Audit_Log
begin

text \<open>
  The MCP surface of \<open>mcp_protocol.py\<close>: the tools as requests, one handler each over the service and
  the broker, the identity and scope check in front of them, and the mapping of every exception to a fixed
  public message. The request's principal and capability (context variables of the code) are a record; the
  bounds of the \<open>Field\<close> annotations, which the MCP framework enforces before a handler runs, are
  \<open>fields_ok\<close>. What the framework itself answers is outside the model.
\<close>

section \<open>Names, scopes and public messages\<close>

definition MAX_BASE64_LENGTH :: nat where "MAX_BASE64_LENGTH = 12 * 1024 * 1024"
definition EXTERNAL_MCP_ADMIN_SCOPE :: string where "EXTERNAL_MCP_ADMIN_SCOPE = ''tenant:admin''"

definition TOOL_SCOPES :: "(string \<times> string) list" where
  "TOOL_SCOPES =
     [(''artifact_create'', ''artifact:write''), (''artifact_write'', ''artifact:write''),
      (''artifact_list'', ''artifact:read''), (''artifact_read'', ''artifact:read''),
      (''artifact_read_chunk'', ''artifact:read''), (''artifact_search'', ''artifact:search''),
      (''artifact_grep'', ''artifact:search''), (''graph_link'', ''graph:write''),
      (''graph_traverse'', ''graph:read''), (''graph_component'', ''graph:read''),
      (''artifact_versions'', ''artifact:read''), (''artifact_share'', ''artifact:share''),
      (''artifact_revoke'', ''artifact:share''), (''artifact_acl'', ''artifact:share''),
      (''external_mcp_connection_register'', EXTERNAL_MCP_ADMIN_SCOPE),
      (''external_mcp_connection_list'', EXTERNAL_MCP_ADMIN_SCOPE),
      (''external_mcp_connection_status'', EXTERNAL_MCP_ADMIN_SCOPE),
      (''external_mcp_connection_revoke'', EXTERNAL_MCP_ADMIN_SCOPE),
      (''external_mcp_audit'', EXTERNAL_MCP_ADMIN_SCOPE),
      (''external_mcp_tool_call'', EXTERNAL_MCP_ADMIN_SCOPE),
      (''external_mcp_resource_read'', EXTERNAL_MCP_ADMIN_SCOPE),
      (''audit_export'', EXTERNAL_MCP_ADMIN_SCOPE)]"

definition tool_scope :: "string \<Rightarrow> string" where
  "tool_scope tool = (case map_of TOOL_SCOPES tool of Some s \<Rightarrow> s | None \<Rightarrow> [])"

definition SAFE_MESSAGES :: "string list" where
  "SAFE_MESSAGES =
     [''authentication required'', ''operation not permitted'', ''content_base64 is not valid base64'',
      ''MCP tool failed safely'', ''invalid artifact_list cursor'', ''artifact not found'',
      ''version not found'', ''version blob missing'', ''chunk not found'', ''invalid artifact_search cursor'',
      ''invalid search query'', ''self-links are not allowed'',
      ''edge already exists with different immutable metadata'', ''max_depth must be between 0 and 10'',
      ''share reason is reserved'', ''share action is invalid'',
      ''share target is not an active tenant member'', ''grant not found'',
      ''artifact owner grant cannot be revoked'', ''external MCP origin is invalid'',
      ''external MCP endpoint host is not public'', ''external MCP endpoint validation failed'',
      ''external MCP connection not found'',
      ''external MCP connection needs an explicit tool or resource allowlist'',
      ''external MCP endpoint origin must be explicitly allowed'', ''external MCP registration is invalid'',
      ''external MCP registration value is too large'', ''external MCP registration list is too large'',
      ''external MCP registration item is too large'', ''external MCP registration exceeds the allowed size'',
      ''external MCP registration failed'', ''external MCP connection name already exists'',
      ''external MCP connection is revoked'', ''external MCP health status is invalid'',
      ''external MCP tool is not approved'', ''external MCP tool arguments are invalid'',
      ''external MCP tool arguments exceed the allowed size'', ''external MCP resource is not approved'',
      ''approved_resources must contain safe resource URIs'',
      ''credential_ref must be an opaque secret:// reference'', ''external MCP policy is invalid'',
      ''external MCP policy exceeds the allowed size'', ''external MCP rate limited'',
      ''external MCP concurrency limit exceeded'', ''external MCP audit failed'',
      ''external MCP audit export failed'', ''audit integrity verification failed'',
      ''audit time window is invalid'', ''audit time window is inverted'',
      ''audit legal hold event list is out of bounds'', ''audit export exceeds the allowed size'',
      ''invalid audit cursor'', ''from_time is invalid'', ''to_time is invalid'',
      ''from_time must include a timezone'', ''to_time must include a timezone'',
      ''audit details are invalid'', ''audit details contain a restricted field'',
      ''audit detail is out of bounds'', ''audit details must contain scalar values'',
      ''audit retention class is invalid'', ''tenant_id is invalid'', ''actor_id is invalid'',
      ''action is invalid'', ''outcome is invalid'', ''resource_type is invalid'', ''resource_id is invalid'',
      ''policy_version is invalid'', ''source is invalid'', ''reason is invalid'', ''request_id is invalid'',
      ''correlation_id is invalid'', ''credential broker unavailable'',
      ''credential broker returned an invalid credential'', ''external MCP response exceeds the allowed size'',
      ''external MCP transport timed out'', ''external MCP transport unavailable'',
      ''external MCP upstream call failed'', ''external MCP endpoint resolution timed out'',
      ''external MCP endpoint is invalid'', ''external MCP endpoint resolves to a blocked address'',
      ''external MCP endpoint cannot be resolved'', ''external MCP transport cannot validate registration'',
      ''external MCP result is invalid'', ''external MCP result contains credential material'',
      ''external MCP result exceeds the allowed size'', ''external MCP adapter validation failed'',
      ''external MCP result failed adapter validation'', ''external MCP health result is invalid'',
      ''external MCP tool call failed'', ''external MCP resource read failed'',
      ''external MCP health check failed'', ''external MCP resource URI exceeds the allowed size'',
      ''external MCP request arguments are invalid'',
      ''external MCP request arguments exceed the allowed size'', ''parent version mismatch'',
      ''query exceeds the allowed size'', ''pattern exceeds the allowed size'',
      ''artifact exceeds the allowed size'', ''query exceeds 500 characters'',
      ''pattern exceeds 500 characters'', ''invalid field value'', ''source_context exceeds 32768 bytes'',
      ''approved_tools must be a list of exact strings'', ''approved_tools has too many entries'',
      ''approved_tools must contain exact, non-wildcard strings'',
      ''approved_tools must not contain duplicates'', ''approved_resources must be a list of exact strings'',
      ''approved_resources has too many entries'',
      ''approved_resources must contain exact, non-wildcard strings'',
      ''approved_resources must not contain duplicates'', ''allowed_origins must be a list of exact strings'',
      ''allowed_origins has too many entries'', ''allowed_origins must contain exact, non-wildcard strings'',
      ''allowed_origins must not contain duplicates'']"

definition SAFE_PUBLIC_MCP_MESSAGES :: "string list" where
  "SAFE_PUBLIC_MCP_MESSAGES = SAFE_MESSAGES
     @ map (\<lambda>f. f @ '' must not be empty'') [''actor'', ''connection_id'', ''edge_type'', ''grant_id'', ''media_type'',
         ''name'', ''reason'', ''source_context'', ''subject_actor_id'', ''tenant_id'']
     @ [''source_context must be JSON serializable'']
     @ map (\<lambda>(f, n). f @ '' exceeds '' @ nat_text n @ '' characters'') [(''actor'', MAX_NAME_LENGTH),
         (''connection_id'', MAX_NAME_LENGTH), (''edge_type'', MAX_EDGE_TYPE_LENGTH), (''grant_id'', MAX_NAME_LENGTH),
         (''media_type'', MAX_MEDIA_TYPE_LENGTH), (''name'', MAX_NAME_LENGTH), (''reason'', MAX_REASON_LENGTH),
         (''subject_actor_id'', MAX_NAME_LENGTH), (''tenant_id'', MAX_NAME_LENGTH)]"

definition safe_mcp_error_message :: "py_exn \<Rightarrow> string" where
  "safe_mcp_error_message e = (let m = error_text e in
     if m \<in> set SAFE_PUBLIC_MCP_MESSAGES then m
     else if starts_with ''parent version mismatch; expected '' m then ''parent version mismatch''
     else if starts_with ''external MCP rate limited; retry after '' m then ''external MCP rate limited''
     else if starts_with ''query exceeds '' m then ''query exceeds the allowed size''
     else if starts_with ''pattern exceeds '' m then ''pattern exceeds the allowed size''
     else if starts_with ''artifact exceeds '' m then ''artifact exceeds the allowed size''
     else if ends_with '' must not be empty'' m \<or> ends_with '' must be JSON serializable'' m then ''invalid field value''
     else if ends_with '' characters'' m \<or> ends_with '' bytes'' m then ''invalid field value''
     else ''MCP tool failed safely'')"

definition tool_errors :: "('s, 'a) action \<Rightarrow> ('s, 'a) action" where
  "tool_errors m = mtry m (\<lambda>e. mraise (ToolError (safe_mcp_error_message e)))"

definition decode_content :: "string \<Rightarrow> py_exn + bytes" where
  "decode_content s =
     (case b64_decode std_alphabet s of
        None \<Rightarrow> Inl (ToolError ''content_base64 is not valid base64'')
      | Some bs \<Rightarrow> Inr bs)"

section \<open>The server and its requests\<close>

text \<open>What \<open>build_mcp_server\<close> closes over, with the parameters of the service and of the broker.\<close>

record mcp_server =
  sv_tenant :: "string option"
  sv_actor :: "string option"
  sv_env :: env
  sv_broker :: broker_env
  sv_ip :: ip_table
  sv_fts :: fts_engine

record mcp_request =
  rq_principal :: "principal option"
  rq_capability :: "capability_binding option"
  rq_trace :: "(string \<times> string) option"

datatype tool_call =
    ArtifactCreate string string "string option" string "json option"
  | ArtifactWrite string string string "string option" string "json option"
  | ArtifactList int "string option" "string option" "string option"
  | ArtifactRead string "string option"
  | ArtifactReadChunk string
  | ArtifactSearch string int "string option" "string option"
  | ArtifactGrep string int
  | GraphLink string string string "json option"
  | GraphTraverse string int int
  | GraphComponent string int
  | ArtifactVersions string int
  | ArtifactShare string string string string
  | ArtifactRevoke string string string
  | ArtifactAcl string
  | ConnectionRegister registration
  | ConnectionList int
  | ConnectionStatus string bool
  | ConnectionRevoke string string
  | CallAudit "string option" int
  | AuditExport "string option" "string option" int "string option"
  | ExternalToolCall string string "json option"
  | ExternalResourceRead string string

datatype tool_result =
    RCreated "artifact_view \<times> version_view"
  | RWritten version_view
  | RListed "listed list"
  | RRead artifact_read
  | RChunk chunk_view
  | RFound "search_item list"
  | RMatches "grep_match list"
  | RLinked edge_view
  | RSteps "step_view list"
  | RComponent "component_view list"
  | RVersions "version_view list"
  | RGrant grant_row
  | RGrants "grant_row list"
  | RConnection public_connection
  | RConnections "public_connection list"
  | RCallAudit "call_audit_row list"
  | RExport audit_export
  | RExternal json

fun tool_name :: "tool_call \<Rightarrow> string" where
  "tool_name (ArtifactCreate _ _ _ _ _) = ''artifact_create''"
| "tool_name (ArtifactWrite _ _ _ _ _ _) = ''artifact_write''"
| "tool_name (ArtifactList _ _ _ _) = ''artifact_list''"
| "tool_name (ArtifactRead _ _) = ''artifact_read''"
| "tool_name (ArtifactReadChunk _) = ''artifact_read_chunk''"
| "tool_name (ArtifactSearch _ _ _ _) = ''artifact_search''"
| "tool_name (ArtifactGrep _ _) = ''artifact_grep''"
| "tool_name (GraphLink _ _ _ _) = ''graph_link''"
| "tool_name (GraphTraverse _ _ _) = ''graph_traverse''"
| "tool_name (GraphComponent _ _) = ''graph_component''"
| "tool_name (ArtifactVersions _ _) = ''artifact_versions''"
| "tool_name (ArtifactShare _ _ _ _) = ''artifact_share''"
| "tool_name (ArtifactRevoke _ _ _) = ''artifact_revoke''"
| "tool_name (ArtifactAcl _) = ''artifact_acl''"
| "tool_name (ConnectionRegister _) = ''external_mcp_connection_register''"
| "tool_name (ConnectionList _) = ''external_mcp_connection_list''"
| "tool_name (ConnectionStatus _ _) = ''external_mcp_connection_status''"
| "tool_name (ConnectionRevoke _ _) = ''external_mcp_connection_revoke''"
| "tool_name (CallAudit _ _) = ''external_mcp_audit''"
| "tool_name (AuditExport _ _ _ _) = ''audit_export''"
| "tool_name (ExternalToolCall _ _ _) = ''external_mcp_tool_call''"
| "tool_name (ExternalResourceRead _ _) = ''external_mcp_resource_read''"

text \<open>The \<open>Field\<close> bounds.\<close>

definition chars :: "nat \<Rightarrow> nat \<Rightarrow> string \<Rightarrow> bool" where
  "chars lo hi s \<longleftrightarrow> lo \<le> length s \<and> length s \<le> hi"

definition opt_chars :: "nat \<Rightarrow> nat \<Rightarrow> string option \<Rightarrow> bool" where
  "opt_chars lo hi v \<longleftrightarrow> (case v of None \<Rightarrow> True | Some s \<Rightarrow> chars lo hi s)"

definition object_arg :: "json option \<Rightarrow> bool" where
  "object_arg v \<longleftrightarrow> (case v of None \<Rightarrow> True | Some j \<Rightarrow> jis_obj j)"

definition in_range :: "int \<Rightarrow> int \<Rightarrow> int \<Rightarrow> bool" where
  "in_range lo hi n \<longleftrightarrow> lo \<le> n \<and> n \<le> hi"

fun fields_ok :: "tool_call \<Rightarrow> bool" where
  "fields_ok (ArtifactCreate name content media reason ctx) \<longleftrightarrow>
     chars 1 255 name \<and> chars 0 MAX_BASE64_LENGTH content \<and> opt_chars 0 255 media \<and> chars 1 2000 reason \<and> object_arg ctx"
| "fields_ok (ArtifactWrite aid parent content media reason ctx) \<longleftrightarrow>
     chars 1 MAX_ID_LENGTH aid \<and> chars 1 MAX_ID_LENGTH parent \<and> chars 0 MAX_BASE64_LENGTH content
     \<and> opt_chars 0 255 media \<and> chars 1 2000 reason \<and> object_arg ctx"
| "fields_ok (ArtifactList limit name media cursor) \<longleftrightarrow>
     in_range 1 100 limit \<and> opt_chars 1 255 name \<and> opt_chars 1 255 media \<and> opt_chars 0 512 cursor"
| "fields_ok (ArtifactRead aid version) \<longleftrightarrow> chars 1 MAX_ID_LENGTH aid \<and> opt_chars 0 MAX_ID_LENGTH version"
| "fields_ok (ArtifactReadChunk cid) \<longleftrightarrow> chars 1 MAX_ID_LENGTH cid"
| "fields_ok (ArtifactSearch q limit graph_root cursor) \<longleftrightarrow>
     chars 1 500 q \<and> in_range 1 100 limit \<and> opt_chars 1 MAX_ID_LENGTH graph_root \<and> opt_chars 0 512 cursor"
| "fields_ok (ArtifactGrep pat limit) \<longleftrightarrow> chars 1 500 pat \<and> in_range 1 500 limit"
| "fields_ok (GraphLink src tgt etype metadata) \<longleftrightarrow>
     chars 1 MAX_ID_LENGTH src \<and> chars 1 MAX_ID_LENGTH tgt \<and> chars 1 100 etype \<and> object_arg metadata"
| "fields_ok (GraphTraverse start depth limit) \<longleftrightarrow>
     chars 1 MAX_ID_LENGTH start \<and> in_range 0 10 depth \<and> in_range 1 500 limit"
| "fields_ok (GraphComponent start limit) \<longleftrightarrow> chars 1 MAX_ID_LENGTH start \<and> in_range 1 500 limit"
| "fields_ok (ArtifactVersions aid limit) \<longleftrightarrow> chars 1 MAX_ID_LENGTH aid \<and> in_range 1 500 limit"
| "fields_ok (ArtifactShare aid subject act reason) \<longleftrightarrow>
     chars 1 MAX_ID_LENGTH aid \<and> chars 1 MAX_ID_LENGTH subject \<and> act \<in> {''read'', ''write'', ''share''} \<and> chars 1 2000 reason"
| "fields_ok (ArtifactRevoke aid gid reason) \<longleftrightarrow>
     chars 1 MAX_ID_LENGTH aid \<and> chars 1 MAX_ID_LENGTH gid \<and> chars 1 2000 reason"
| "fields_ok (ArtifactAcl aid) \<longleftrightarrow> chars 1 MAX_ID_LENGTH aid"
| "fields_ok (ConnectionRegister g) \<longleftrightarrow>
     chars 1 255 (rg_name g) \<and> chars 1 4096 (rg_endpoint g) \<and> object_arg (rg_policy g)
     \<and> opt_chars 0 2048 (rg_credential g) \<and> chars 1 2000 (rg_reason g)"
| "fields_ok (ConnectionList limit) \<longleftrightarrow> in_range 1 (int MAX_EXTERNAL_LIST_ITEMS) limit"
| "fields_ok (ConnectionStatus cid probe) \<longleftrightarrow> chars 1 MAX_ID_LENGTH cid"
| "fields_ok (ConnectionRevoke cid reason) \<longleftrightarrow> chars 1 MAX_ID_LENGTH cid \<and> chars 1 2000 reason"
| "fields_ok (CallAudit cid limit) \<longleftrightarrow> opt_chars 0 MAX_ID_LENGTH cid \<and> in_range 1 (int MAX_EXTERNAL_LIST_ITEMS) limit"
| "fields_ok (AuditExport from_time to_time limit cursor) \<longleftrightarrow>
     opt_chars 0 64 from_time \<and> opt_chars 0 64 to_time \<and> in_range 1 10000 limit \<and> opt_chars 0 512 cursor"
| "fields_ok (ExternalToolCall cid tool args) \<longleftrightarrow> chars 1 MAX_ID_LENGTH cid \<and> chars 1 2048 tool \<and> object_arg args"
| "fields_ok (ExternalResourceRead cid uri) \<longleftrightarrow> chars 1 MAX_ID_LENGTH cid \<and> chars 1 2048 uri"

section \<open>Who is asking\<close>

definition not_permitted :: py_exn where
  "not_permitted = ToolError ''operation not permitted''"

definition identity :: "mcp_server \<Rightarrow> mcp_request \<Rightarrow> string list \<Rightarrow> string \<Rightarrow> py_exn + string \<times> string" where
  "identity S R required tool =
     ebind (guard_raise (case rq_capability R of None \<Rightarrow> False | Some c \<Rightarrow> cb_tool c \<noteq> tool) not_permitted) (\<lambda>_.
     case rq_principal R of
       Some p \<Rightarrow> if list_ex (\<lambda>s. s \<notin> set (p_scopes p)) required then Inl not_permitted else Inr (p_tenant p, p_actor p)
     | None \<Rightarrow>
         (case (sv_tenant S, sv_actor S) of
            (Some t, Some a) \<Rightarrow> Inr (t, a)
          | _ \<Rightarrow> Inl (FolioError ''authentication required'')))"

definition policy_actor :: "mcp_server \<Rightarrow> mcp_request \<Rightarrow> string \<Rightarrow> string option" where
  "policy_actor S R actor =
     (if rq_principal R \<noteq> None then Some actor
      else if sv_tenant S \<noteq> None \<and> sv_actor S \<noteq> None then None else Some actor)"

text \<open>\<open>identity(TOOL_SCOPES[tool], tool=tool)\<close> and then the operation inside \<open>_tool_errors\<close>, which gets the
  tenant, the actor and the policy actor.\<close>

definition as_caller ::
    "mcp_server \<Rightarrow> mcp_request \<Rightarrow> string list \<Rightarrow> string \<Rightarrow>
     (string \<Rightarrow> string \<Rightarrow> string option \<Rightarrow> ('s, 'a) action) \<Rightarrow> ('s, 'a) action" where
  "as_caller S R required tool operation =
     mbind (mlift (identity S R required tool)) (\<lambda>(tenant, actor).
     tool_errors (operation tenant actor (policy_actor S R actor)))"

definition as_tool ::
    "mcp_server \<Rightarrow> mcp_request \<Rightarrow> string \<Rightarrow> (string \<Rightarrow> string \<Rightarrow> string option \<Rightarrow> ('s, 'a) action) \<Rightarrow> ('s, 'a) action" where
  "as_tool S R tool operation = as_caller S R [tool_scope tool] tool operation"

definition mresult :: "('a \<Rightarrow> 'b) \<Rightarrow> ('s, 'a) action \<Rightarrow> ('s, 'b) action" where
  "mresult f m = mbind m (\<lambda>x. mret (f x))"


section \<open>The tools\<close>

type_synonym tool = "mcp_server \<Rightarrow> mcp_request \<Rightarrow> (broker, tool_result) action"

definition artifact_create :: "string \<Rightarrow> string \<Rightarrow> string option \<Rightarrow> string \<Rightarrow> json option \<Rightarrow> tool" where
  "artifact_create name content media reason ctx S R =
     as_tool S R ''artifact_create'' (\<lambda>tenant actor _.
       mbind (mlift (decode_content content)) (\<lambda>data.
       mresult RCreated (on_world (create_artifact (sv_env S) tenant name data media actor reason ctx))))"

text \<open>Here the identity check is inside \<open>_tool_errors\<close>.\<close>

definition artifact_write ::
    "string \<Rightarrow> string \<Rightarrow> string \<Rightarrow> string option \<Rightarrow> string \<Rightarrow> json option \<Rightarrow> tool" where
  "artifact_write aid parent content media reason ctx S R =
     tool_errors (
       mbind (mlift (identity S R [tool_scope ''artifact_write''] ''artifact_write'')) (\<lambda>(tenant, actor).
       let policy = policy_actor S R actor in
       mbind (on_world (mread (\<lambda>w. get_artifact w tenant aid policy ''write''))) (\<lambda>a.
       mbind (mlift (decode_content content)) (\<lambda>data.
       mresult RWritten (on_world (write_version (sv_env S) tenant aid data
         (case media of Some (c # cs) \<Rightarrow> c # cs | _ \<Rightarrow> av_media a) actor reason (or_empty ctx) (Some parent)
         (Some policy)))))))"

definition artifact_list :: "int \<Rightarrow> string option \<Rightarrow> string option \<Rightarrow> string option \<Rightarrow> tool" where
  "artifact_list limit name media cursor S R =
     as_tool S R ''artifact_list'' (\<lambda>tenant _ policy.
       mresult RListed (on_db (\<lambda>db. list_artifacts (sv_env S) db tenant limit policy name media cursor)))"

text \<open>A capability covers one read: its tool and the digest of its arguments are compared first.\<close>

definition read_capability :: "env \<Rightarrow> mcp_request \<Rightarrow> string \<Rightarrow> string option \<Rightarrow> py_exn + unit" where
  "read_capability E R aid version =
     (case rq_capability R of
        None \<Rightarrow> Inr ()
      | Some c \<Rightarrow>
          if cb_tool c \<noteq> ''artifact_read'' then Inl not_permitted
          else ebind (capability_arguments_digest E ((''artifact_id'', JStr aid)
              # (case version of None \<Rightarrow> [] | Some v \<Rightarrow> [(''version_id'', JStr v)]))) (\<lambda>digest.
            guard_raise (cb_digest c \<noteq> digest) not_permitted))"

definition artifact_read_tool :: "string \<Rightarrow> string option \<Rightarrow> tool" where
  "artifact_read_tool aid version S R =
     mbind (mlift (read_capability (sv_env S) R aid version)) (\<lambda>_.
     as_tool S R ''artifact_read'' (\<lambda>tenant _ policy.
       mresult RRead (on_world (mread (\<lambda>w. read_artifact (sv_env S) w tenant aid version policy)))))"

definition artifact_read_chunk :: "string \<Rightarrow> tool" where
  "artifact_read_chunk cid S R =
     as_tool S R ''artifact_read_chunk'' (\<lambda>tenant _ policy.
       mresult RChunk (on_world (mread (\<lambda>w. read_chunk w tenant cid policy))))"

definition artifact_search :: "string \<Rightarrow> int \<Rightarrow> string option \<Rightarrow> string option \<Rightarrow> tool" where
  "artifact_search q limit graph_root cursor S R =
     as_caller S R (tool_scope ''artifact_search'' # (if graph_root \<noteq> None then [tool_scope ''graph_component''] else []))
       ''artifact_search'' (\<lambda>tenant _ policy.
       mresult RFound (on_db (\<lambda>db. search (sv_env S) (sv_fts S) db tenant q limit policy graph_root cursor)))"

definition artifact_grep :: "string \<Rightarrow> int \<Rightarrow> tool" where
  "artifact_grep pat limit S R =
     as_tool S R ''artifact_grep'' (\<lambda>tenant _ policy.
       mresult RMatches (on_db (\<lambda>db. grep db tenant pat limit policy)))"

definition graph_link :: "string \<Rightarrow> string \<Rightarrow> string \<Rightarrow> json option \<Rightarrow> tool" where
  "graph_link src tgt etype metadata S R =
     as_tool S R ''graph_link'' (\<lambda>tenant _ policy.
       mresult RLinked (on_world (link (sv_env S) tenant src tgt etype metadata policy)))"

definition graph_traverse :: "string \<Rightarrow> int \<Rightarrow> int \<Rightarrow> tool" where
  "graph_traverse start depth limit S R =
     as_tool S R ''graph_traverse'' (\<lambda>tenant _ policy.
       mresult RSteps (on_world (mread (\<lambda>w. traverse w tenant start depth limit policy))))"

definition graph_component_tool :: "string \<Rightarrow> int \<Rightarrow> tool" where
  "graph_component_tool start limit S R =
     as_tool S R ''graph_component'' (\<lambda>tenant _ policy.
       mresult RComponent (on_db (\<lambda>db. graph_component db tenant start limit policy)))"

definition artifact_versions :: "string \<Rightarrow> int \<Rightarrow> tool" where
  "artifact_versions aid limit S R =
     as_tool S R ''artifact_versions'' (\<lambda>tenant _ policy.
       mresult RVersions (on_world (mread (\<lambda>w. versions w tenant aid limit policy))))"

definition artifact_share :: "string \<Rightarrow> string \<Rightarrow> string \<Rightarrow> string \<Rightarrow> tool" where
  "artifact_share aid subject act reason S R =
     as_tool S R ''artifact_share'' (\<lambda>tenant actor policy.
       mresult RGrant (on_world (share_artifact (sv_env S) tenant aid actor subject act reason (Some policy))))"

definition artifact_revoke :: "string \<Rightarrow> string \<Rightarrow> string \<Rightarrow> tool" where
  "artifact_revoke aid gid reason S R =
     as_tool S R ''artifact_revoke'' (\<lambda>tenant actor policy.
       mresult RGrant (on_world (revoke_share (sv_env S) tenant aid actor gid reason (Some policy))))"

definition artifact_acl_tool :: "string \<Rightarrow> tool" where
  "artifact_acl_tool aid S R =
     as_tool S R ''artifact_acl'' (\<lambda>tenant actor policy.
       mresult RGrants (on_world (mread (\<lambda>w. artifact_acl w tenant aid actor (Some policy)))))"

definition external_mcp_connection_register :: "registration \<Rightarrow> tool" where
  "external_mcp_connection_register g S R =
     as_tool S R ''external_mcp_connection_register'' (\<lambda>tenant actor _.
       mresult RConnection (broker_register (sv_env S) (sv_broker S) (sv_ip S) tenant actor g))"

definition external_mcp_connection_list :: "int \<Rightarrow> tool" where
  "external_mcp_connection_list limit S R =
     as_tool S R ''external_mcp_connection_list'' (\<lambda>tenant actor _.
       mresult RConnections (broker_list (sv_env S) (sv_broker S) (sv_ip S) tenant actor limit))"

definition external_mcp_connection_status :: "string \<Rightarrow> bool \<Rightarrow> tool" where
  "external_mcp_connection_status cid probe S R =
     as_tool S R ''external_mcp_connection_status'' (\<lambda>tenant actor _.
       mresult RConnection (broker_health (sv_env S) (sv_broker S) (sv_ip S) tenant actor cid probe))"

definition external_mcp_connection_revoke :: "string \<Rightarrow> string \<Rightarrow> tool" where
  "external_mcp_connection_revoke cid reason S R =
     as_tool S R ''external_mcp_connection_revoke'' (\<lambda>tenant actor _.
       mresult RConnection (broker_revoke (sv_env S) (sv_broker S) (sv_ip S) tenant actor cid reason))"

definition external_mcp_audit_tool :: "string option \<Rightarrow> int \<Rightarrow> tool" where
  "external_mcp_audit_tool cid limit S R =
     as_tool S R ''external_mcp_audit'' (\<lambda>tenant actor _.
       mresult RCallAudit (broker_audit (sv_broker S) tenant actor cid limit))"

definition audit_export_tool :: "string option \<Rightarrow> string option \<Rightarrow> int \<Rightarrow> string option \<Rightarrow> tool" where
  "audit_export_tool from_time to_time limit cursor S R =
     as_tool S R ''audit_export'' (\<lambda>tenant actor _.
       mresult RExport (on_world (export_audit_events (sv_env S) (rq_trace R) tenant actor from_time to_time limit cursor)))"

definition external_mcp_tool_call :: "string \<Rightarrow> string \<Rightarrow> json option \<Rightarrow> tool" where
  "external_mcp_tool_call cid name args S R =
     as_tool S R ''external_mcp_tool_call'' (\<lambda>tenant actor _.
       mresult RExternal (broker_call_tool (sv_env S) (sv_broker S) tenant actor cid name (or_empty args)
         (\<lambda>_. None) (\<lambda>_. None)))"

definition external_mcp_resource_read :: "string \<Rightarrow> string \<Rightarrow> tool" where
  "external_mcp_resource_read cid uri S R =
     as_tool S R ''external_mcp_resource_read'' (\<lambda>tenant actor _.
       mresult RExternal (broker_read_resource (sv_env S) (sv_broker S) (sv_ip S) tenant actor cid uri))"

text \<open>What the MCP server does with a call whose fields are in bounds.\<close>

fun serve :: "tool_call \<Rightarrow> tool" where
  "serve (ArtifactCreate name content media reason ctx) S R = artifact_create name content media reason ctx S R"
| "serve (ArtifactWrite aid parent content media reason ctx) S R = artifact_write aid parent content media reason ctx S R"
| "serve (ArtifactList limit name media cursor) S R = artifact_list limit name media cursor S R"
| "serve (ArtifactRead aid version) S R = artifact_read_tool aid version S R"
| "serve (ArtifactReadChunk cid) S R = artifact_read_chunk cid S R"
| "serve (ArtifactSearch q limit graph_root cursor) S R = artifact_search q limit graph_root cursor S R"
| "serve (ArtifactGrep pat limit) S R = artifact_grep pat limit S R"
| "serve (GraphLink src tgt etype metadata) S R = graph_link src tgt etype metadata S R"
| "serve (GraphTraverse start depth limit) S R = graph_traverse start depth limit S R"
| "serve (GraphComponent start limit) S R = graph_component_tool start limit S R"
| "serve (ArtifactVersions aid limit) S R = artifact_versions aid limit S R"
| "serve (ArtifactShare aid subject act reason) S R = artifact_share aid subject act reason S R"
| "serve (ArtifactRevoke aid gid reason) S R = artifact_revoke aid gid reason S R"
| "serve (ArtifactAcl aid) S R = artifact_acl_tool aid S R"
| "serve (ConnectionRegister g) S R = external_mcp_connection_register g S R"
| "serve (ConnectionList limit) S R = external_mcp_connection_list limit S R"
| "serve (ConnectionStatus cid probe) S R = external_mcp_connection_status cid probe S R"
| "serve (ConnectionRevoke cid reason) S R = external_mcp_connection_revoke cid reason S R"
| "serve (CallAudit cid limit) S R = external_mcp_audit_tool cid limit S R"
| "serve (AuditExport from_time to_time limit cursor) S R = audit_export_tool from_time to_time limit cursor S R"
| "serve (ExternalToolCall cid name args) S R = external_mcp_tool_call cid name args S R"
| "serve (ExternalResourceRead cid uri) S R = external_mcp_resource_read cid uri S R"

lemmas tool_defs = artifact_create_def artifact_write_def artifact_list_def artifact_read_tool_def
  artifact_read_chunk_def artifact_search_def artifact_grep_def graph_link_def graph_traverse_def
  graph_component_tool_def artifact_versions_def artifact_share_def artifact_revoke_def artifact_acl_tool_def
  external_mcp_connection_register_def external_mcp_connection_list_def external_mcp_connection_status_def
  external_mcp_connection_revoke_def external_mcp_audit_tool_def audit_export_tool_def
  external_mcp_tool_call_def external_mcp_resource_read_def


section \<open>Errors and authority\<close>

lemma safe_message: "safe_mcp_error_message e \<in> set SAFE_PUBLIC_MCP_MESSAGES"
proof -
  have "set [''parent version mismatch'', ''external MCP rate limited'', ''query exceeds the allowed size'',
      ''pattern exceeds the allowed size'', ''artifact exceeds the allowed size'', ''invalid field value'',
      ''MCP tool failed safely''] \<subseteq> set SAFE_MESSAGES"
    by (simp add: SAFE_MESSAGES_def)
  then show ?thesis
    unfolding safe_mcp_error_message_def Let_def SAFE_PUBLIC_MCP_MESSAGES_def by simp
qed

lemma fixed_messages:
  "''operation not permitted'' \<in> set SAFE_PUBLIC_MCP_MESSAGES" "''authentication required'' \<in> set SAFE_PUBLIC_MCP_MESSAGES"
  by (simp_all add: SAFE_PUBLIC_MCP_MESSAGES_def SAFE_MESSAGES_def)

text \<open>\<open>public m\<close>: whatever \<open>m\<close> raises has a public message.\<close>

definition public_errors :: "('s, 'a) action \<Rightarrow> bool" where
  "public_errors m \<longleftrightarrow> (\<forall>s e s'. m s = (Inl e, s') \<longrightarrow> error_text e \<in> set SAFE_PUBLIC_MCP_MESSAGES)"

lemma public_errorsD: "public_errors m \<Longrightarrow> m s = (Inl e, s') \<Longrightarrow> error_text e \<in> set SAFE_PUBLIC_MCP_MESSAGES"
  by (auto simp: public_errors_def)

lemma public_tool_errors: "public_errors (tool_errors m)"
  by (auto simp: public_errors_def tool_errors_def mtry_def mraise_def safe_message split: prod.splits sum.splits)

lemma identity_error: "identity S R required tool = Inl e \<Longrightarrow> error_text e \<in> set SAFE_PUBLIC_MCP_MESSAGES"
  using fixed_messages
  by (auto simp: identity_def ebind_Inl_iff guard_raise_Inl not_permitted_def split: option.splits if_splits)

lemma public_as_caller: "public_errors (as_caller S R required tool operation)"
  unfolding public_errors_def as_caller_def
  by (auto simp: mbind_Inl_iff mlift_iff split: prod.splits dest: identity_error public_errorsD [OF public_tool_errors])

lemma public_as_tool: "public_errors (as_tool S R tool operation)"
  unfolding as_tool_def by (rule public_as_caller)

lemma public_serve: "(\<forall>aid version. call \<noteq> ArtifactRead aid version) \<Longrightarrow> public_errors (serve call S R)"
  by (cases call) (simp_all add: tool_defs public_as_tool public_as_caller public_tool_errors)

lemma read_capability_error:
  assumes "read_capability E R aid version = Inl e" "aid \<noteq> []"
  shows "error_text e \<in> set SAFE_PUBLIC_MCP_MESSAGES \<or> version = Some [] \<and> rq_capability R \<noteq> None"
  using assms fixed_messages
  by (auto simp: read_capability_def capability_arguments_digest_def nonempty_text_def not_permitted_def ebind_Inl_iff
      guard_raise_Inl split: option.splits if_splits)

text \<open>The scopes a call needs.\<close>

fun required_scopes :: "tool_call \<Rightarrow> string list" where
  "required_scopes (ArtifactSearch q limit (Some graph_root) cursor) = [''artifact:search'', ''graph:read'']"
| "required_scopes call = [tool_scope (tool_name call)]"

lemma identity_refuses:
  assumes "(\<exists>c. rq_capability R = Some c \<and> cb_tool c \<noteq> tool)
    \<or> (\<exists>p. rq_principal R = Some p \<and> \<not> set required \<subseteq> set (p_scopes p))"
  shows "identity S R required tool = Inl not_permitted"
  using assms by (auto simp: identity_def guard_raise_def list_ex_iff split: option.splits)

lemma as_caller_refuses: "identity S R required tool = Inl e \<Longrightarrow> as_caller S R required tool operation b = (Inl e, b)"
  by (simp add: as_caller_def mbind_def mlift_def)

lemma scopes_table: "tool_scope ''artifact_search'' = ''artifact:search''" "tool_scope ''graph_component'' = ''graph:read''"
  by (simp_all add: tool_scope_def TOOL_SCOPES_def)

text \<open>A server with a fixed local identity, and a principal's request.\<close>

definition sample_server :: mcp_server where
  "sample_server = \<lparr>sv_tenant = Some ''t'', sv_actor = Some ''local'', sv_env = env0, sv_broker = sample_broker_env,
     sv_ip = no_ip, sv_fts = no_fts\<rparr>"

definition sample_request :: "string \<Rightarrow> string list \<Rightarrow> mcp_request" where
  "sample_request t scopes = \<lparr>rq_principal = Some \<lparr>p_tenant = t, p_actor = ''ann'', p_issuer = ''i'', p_subject = ''s'',
     p_scopes = scopes\<rparr>, rq_capability = None, rq_trace = None\<rparr>"

section \<open>Properties\<close>

text \<open>C12: What a tool reports is public: whatever a call of the MCP surface raises, its message is one of
  the fixed messages of the code; nothing of an exception's own text, of the database, an upstream or a
  credential gets out. (The one exception is a read under a renderer capability with an empty version id,
  whose \<open>ValueError\<close> escapes.)\<close>

theorem tool_errors_are_public:
  assumes "serve call S R b = (Inl e, b')" and "fields_ok call"
  shows "error_text e \<in> set SAFE_PUBLIC_MCP_MESSAGES
    \<or> (\<exists>aid c. call = ArtifactRead aid (Some []) \<and> rq_capability R = Some c)"
proof (cases "\<exists>aid version. call = ArtifactRead aid version")
  case False
  with public_serve [of call S R] assms(1) show ?thesis by (auto simp: public_errors_def)
next
  case True
  then obtain aid version where call: "call = ArtifactRead aid version" by blast
  with assms(2) have "aid \<noteq> []" by (auto simp: chars_def)
  from assms(1) consider "read_capability (sv_env S) R aid version = Inl e"
    | u where "as_tool S R ''artifact_read'' (\<lambda>tenant _ policy.
       mresult RRead (on_world (mread (\<lambda>w. read_artifact (sv_env S) w tenant aid version policy)))) u = (Inl e, b')"
    unfolding call serve.simps artifact_read_tool_def mbind_Inl_iff mlift_iff by auto
  then show ?thesis
  proof cases
    case 1
    with read_capability_error \<open>aid \<noteq> []\<close> call show ?thesis by blast
  next
    case 2
    from public_errorsD [OF public_as_tool this] show ?thesis ..
  qed
qed

lemma tool_errors_are_public_witness:
  "\<exists>e b'. serve (ArtifactCreate ''n'' ''*'' None ''why'' None) sample_server (sample_request ''t'' [''artifact:write''])
      sample_broker = (Inl e, b') \<and> error_text e \<in> set SAFE_PUBLIC_MCP_MESSAGES"
proof -
  have "b64_decode std_alphabet ''*'' = None" by code_simp
  then obtain e b' where run: "serve (ArtifactCreate ''n'' ''*'' None ''why'' None) sample_server
      (sample_request ''t'' [''artifact:write'']) sample_broker = (Inl e, b')"
    by (simp add: artifact_create_def as_tool_def as_caller_def identity_def sample_request_def tool_scope_def TOOL_SCOPES_def
        guard_raise_def decode_content_def tool_errors_def mtry_def mbind_def mlift_def mraise_def)
  have "fields_ok (ArtifactCreate ''n'' ''*'' None ''why'' None)"
    by (simp add: chars_def opt_chars_def object_arg_def MAX_BASE64_LENGTH_def)
  from tool_errors_are_public [OF run this] run show ?thesis by blast
qed

text \<open>C6: No tool runs without authority: when the request's capability is for another tool, or its
  principal lacks a scope the call needs (a search within a graph needs \<open>graph:read\<close> as well), the call
  is refused and nothing has changed.\<close>

theorem tool_needs_authority:
  assumes "(\<exists>c. rq_capability R = Some c \<and> cb_tool c \<noteq> tool_name call)
    \<or> (\<exists>p. rq_principal R = Some p \<and> \<not> set (required_scopes call) \<subseteq> set (p_scopes p))"
  shows "\<exists>e. serve call S R b = (Inl e, b)"
proof -
  have i: "identity S R (required_scopes call) (tool_name call) = Inl not_permitted"
    by (rule identity_refuses) (rule assms)
  show ?thesis
  proof (cases call)
    case (ArtifactRead aid version)
    with i as_caller_refuses [OF i] show ?thesis
      by (cases "read_capability (sv_env S) R aid version")
        (simp_all add: artifact_read_tool_def as_tool_def mbind_def mlift_def as_caller_def)
  next
    case (ArtifactSearch q limit graph_root cursor)
    with i show ?thesis
      by (cases graph_root) (simp_all add: artifact_search_def as_caller_def mbind_def mlift_def scopes_table)
  next
    case (ArtifactWrite aid parent content media reason ctx)
    with i show ?thesis by (simp add: artifact_write_def tool_errors_def mtry_def mbind_def mlift_def mraise_def)
  qed (use i in \<open>simp_all add: tool_defs as_tool_def as_caller_def mbind_def mlift_def\<close>)
qed

lemma tool_needs_authority_witness:
  "\<exists>e. serve (ArtifactAcl ''art'') sample_server (sample_request ''t'' [''artifact:read'']) sample_broker
    = (Inl e, sample_broker)"
  by (rule tool_needs_authority) (simp add: sample_request_def tool_scope_def TOOL_SCOPES_def)

text \<open>A verified principal always wins: with a principal on the request, the tenant and actor fixed at
  the server play no part in what any tool does.\<close>

theorem principal_wins:
  assumes "rq_principal R = Some p"
  shows "serve call (S\<lparr>sv_tenant := t, sv_actor := a\<rparr>) R b = serve call S R b"
proof -
  have "identity (S\<lparr>sv_tenant := t, sv_actor := a\<rparr>) R required tool = identity S R required tool"
    "policy_actor (S\<lparr>sv_tenant := t, sv_actor := a\<rparr>) R actor = policy_actor S R actor" for required tool actor
    using assms by (simp_all add: identity_def policy_actor_def)
  then show ?thesis by (cases call) (simp_all add: tool_defs as_tool_def as_caller_def)
qed

lemma principal_wins_witness:
  "serve (ArtifactAcl ''art'') (sample_server\<lparr>sv_tenant := Some ''u'', sv_actor := None\<rparr>)
      (sample_request ''t'' [''artifact:share'']) sample_broker
    = serve (ArtifactAcl ''art'') sample_server (sample_request ''t'' [''artifact:share'']) sample_broker"
  by (rule principal_wins) (simp add: sample_request_def)

end
