(* ===== verification/Service.thy ===== *)
theory Service
  imports Mcp_Tools
begin

text \<open>
  What holds of the whole service over runs of MCP calls. A relation between worlds that every operation
  of the service and the registry respects is respected by every tool, through the broker and the error
  mapping (locale \<open>service_relation\<close>); its interpretations are the integrity of the artifact graph, the
  append-only history, the integrity of the audit log and the isolation of tenants.
\<close>

section \<open>From operations to tools\<close>

definition lifts :: "(world \<Rightarrow> world \<Rightarrow> bool) \<Rightarrow> broker \<Rightarrow> broker \<Rightarrow> bool" where
  "lifts R b b' \<longleftrightarrow> R (bk_world b) (bk_world b')"

text \<open>The tenant a request acts for.\<close>

definition caller_tenant :: "mcp_server \<Rightarrow> mcp_request \<Rightarrow> string option" where
  "caller_tenant S Q = (case rq_principal Q of Some p \<Rightarrow> Some (p_tenant p)
     | None \<Rightarrow> if sv_actor S = None then None else sv_tenant S)"

lemma identity_tenant: "identity S Q required tool = Inr (t, a) \<Longrightarrow> caller_tenant S Q = Some t"
  by (auto simp: identity_def caller_tenant_def ebind_Inr_iff split: option.splits if_splits)

definition serve_run :: "mcp_server \<Rightarrow> (tool_call \<times> mcp_request) list \<Rightarrow> broker \<Rightarrow> broker" where
  "serve_run S = fold (\<lambda>(call, Q) b. snd (serve call S Q b))"

locale service_relation = action_relation R for R :: "world \<Rightarrow> world \<Rightarrow> bool" +
  fixes E :: env and mine :: "string \<Rightarrow> bool"
  assumes on_create: "mine t \<Longrightarrow> steps_by R (create_artifact E t nm data media who why ctx)"
    and on_write: "mine t \<Longrightarrow> steps_by R (write_version E t aid data m who why c parent auth)"
    and on_link: "mine t \<Longrightarrow> steps_by R (link E t src tgt etype meta pol)"
    and on_share: "mine t \<Longrightarrow> steps_by R (share_artifact E t aid who subject act why auth)"
    and on_revoke: "mine t \<Longrightarrow> steps_by R (revoke_share E t aid who gid why auth)"
    and on_export: "mine t \<Longrightarrow> steps_by R (export_audit_events E tr t who fr til limit cursor)"
    and on_register: "mine t \<Longrightarrow> steps_by R (register_external_connection E ip t who g)"
    and on_health: "mine t \<Longrightarrow> steps_by R (record_external_health E t cid who st)"
    and on_disconnect: "mine t \<Longrightarrow> steps_by R (revoke_external_connection E ip t cid who why)"
    and on_tool: "mine t \<Longrightarrow> steps_by R (authorize_external_tool E t cid nm who args)"
    and on_resource: "mine t \<Longrightarrow> steps_by R (authorize_external_resource E ip t cid uri who)"
    and on_call: "mine t \<Longrightarrow> steps_by R (record_external_call E t cid who act out why used addr)"
begin

sublocale lifted: action_relation "lifts R"
  by unfold_locales (auto simp: lifts_def intro: R_refl R_trans)

lemma lift_world: "steps_by R m \<Longrightarrow> steps_by (lifts R) (on_world m)"
  by (rule steps_byI) (auto simp: on_world_iff lifts_def dest: steps_byD)

lemma lift_db: "steps_by (lifts R) (on_db f)"
  unfolding on_db_def by (rule lift_world) (simp add: steps_by_def query_or_raise_def R_refl)

lemma keep_mread: "steps_by R (mread f)"
  by (simp add: steps_by_def mread_def R_refl)

lemma lift_fenced: "steps_by (lifts R) (fenced_call B t cid req cred)"
  by (rule steps_byI, drule fenced_run) (auto simp: lifts_def R_refl)

lemma lift_admitted: "steps_by (lifts R) m \<Longrightarrow> steps_by (lifts R) (while_admitted B t who cid op m)"
proof (rule steps_byI)
  fix b r b' assume m: "steps_by (lifts R) m" and "while_admitted B t who cid op m b = (r, b')"
  from admitted_run [OF this(2)] show "lifts R b b'"
    by (elim disjE exE conjE) (auto simp: lifts_def R_refl dest!: steps_byD [OF m])
qed

lemmas lift_intros = lifted.steps_intros lift_world lift_db keep_mread lift_fenced lift_admitted

lemma lift_record: "mine t \<Longrightarrow> steps_by (lifts R) (try_record_call E t cid who act out why used addr)"
  "mine t \<Longrightarrow> steps_by (lifts R) (try_record_health E t cid who st)"
  unfolding try_record_call_def try_record_health_def by (intro lift_intros on_call on_health; assumption)+

lemma lift_recorded: "mine t \<Longrightarrow> steps_by (lifts R) m \<Longrightarrow>
    steps_by (lifts R) (recorded_call E ad t cid who act used addr fallback m)"
  unfolding recorded_call_def by (intro lift_intros lift_record)

lemma lift_guarded: "steps_by (lifts R) (guarded_call E B t cid x req pre post)"
  unfolding guarded_call_def by (intro lift_intros)

lemma lift_broker:
  assumes "mine t"
  shows "steps_by (lifts R) (broker_register E B ip t who g)" "steps_by (lifts R) (broker_list E B ip t who n)"
    "steps_by (lifts R) (broker_health E B ip t who cid probe)" "steps_by (lifts R) (broker_revoke E B ip t who cid why)"
    "steps_by (lifts R) (broker_audit B t who oc n)" "steps_by (lifts R) (broker_call_tool E B t who cid nm args pre post)"
    "steps_by (lifts R) (broker_read_resource E B ip t who cid uri)"
  unfolding broker_register_def register_admitted_def broker_list_def broker_health_def health_admitted_def
    probe_health_def health_failure_def broker_revoke_def broker_audit_def broker_call_tool_def call_tool_admitted_def
    broker_read_resource_def read_resource_admitted_def
  using assms
  by (intro lift_intros lift_record lift_recorded lift_guarded on_register on_disconnect on_tool on_resource; assumption)+

lemma lift_tool_errors: "steps_by (lifts R) m \<Longrightarrow> steps_by (lifts R) (tool_errors m)"
  unfolding tool_errors_def by (intro lift_intros)

lemma lift_mresult: "steps_by (lifts R) m \<Longrightarrow> steps_by (lifts R) (mresult f m)"
  unfolding mresult_def by (intro lift_intros)

lemma lift_identity:
  assumes "\<And>t. caller_tenant S Q = Some t \<Longrightarrow> mine t"
    "\<And>t who. mine t \<Longrightarrow> steps_by (lifts R) (operation t who)"
  shows "steps_by (lifts R) (mbind (mlift (identity S Q required tool)) (\<lambda>(t, who). operation t who))"
proof (cases "identity S Q required tool")
  case (Inr p)
  obtain t who where p: "p = (t, who)" by (cases p)
  with Inr assms(1) identity_tenant have "mine t" by blast
  from assms(2) [OF this] show ?thesis by (simp add: Inr p mbind_def mlift_def steps_by_def)
qed (simp add: mbind_def mlift_def steps_by_def lifts_def R_refl)

lemma lift_as_caller:
  assumes "\<And>t. caller_tenant S Q = Some t \<Longrightarrow> mine t"
    "\<And>t who pol. mine t \<Longrightarrow> steps_by (lifts R) (operation t who pol)"
  shows "steps_by (lifts R) (as_caller S Q required tool operation)"
  unfolding as_caller_def by (rule lift_identity [OF assms(1)]) (auto intro: lift_tool_errors assms(2))

text \<open>Every tool respects the relation.\<close>

lemma serve_respects:
  assumes "\<And>t. caller_tenant S Q = Some t \<Longrightarrow> mine t" "sv_env S = E"
  shows "steps_by (lifts R) (serve call S Q)"
proof -
  note intros = lift_intros lift_as_caller lift_mresult lift_broker on_create on_link on_share on_revoke on_export
  have "steps_by (lifts R) (artifact_write aid parent content media reason ctx S Q)" for aid parent content media reason ctx
    unfolding artifact_write_def Let_def assms(2)
    by (intro lift_tool_errors lift_identity [OF assms(1)] lift_intros lift_mresult on_write)
  moreover have "steps_by (lifts R) (artifact_create nm content media reason ctx S Q)" for nm content media reason ctx
    unfolding artifact_create_def as_tool_def assms(2)
    by (rule lift_as_caller [OF assms(1)], assumption, intro intros)
  ultimately show ?thesis
    by (cases call) (simp_all only: serve.simps artifact_list_def artifact_read_tool_def artifact_read_chunk_def
        artifact_search_def artifact_grep_def graph_link_def graph_traverse_def graph_component_tool_def
        artifact_versions_def artifact_share_def artifact_revoke_def artifact_acl_tool_def
        external_mcp_connection_register_def external_mcp_connection_list_def external_mcp_connection_status_def
        external_mcp_connection_revoke_def external_mcp_audit_tool_def audit_export_tool_def
        external_mcp_tool_call_def external_mcp_resource_read_def as_tool_def assms(2),
      (intro lifted.steps_intros lift_as_caller [OF assms(1)] intros; assumption)+)
qed

lemma serve_run_respects:
  assumes "\<And>call Q t. (call, Q) \<in> set calls \<Longrightarrow> caller_tenant S Q = Some t \<Longrightarrow> mine t" "sv_env S = E"
  shows "R (bk_world b) (bk_world (serve_run S calls b))"
  using assms(1)
proof (induction calls arbitrary: b)
  case (Cons c calls)
  obtain call Q where c: "c = (call, Q)" by (cases c)
  with Cons.prems have "steps_by (lifts R) (serve call S Q)" by (intro serve_respects [OF _ assms(2)]) auto
  then have "R (bk_world b) (bk_world (snd (serve call S Q b)))" by (simp add: steps_by_def lifts_def)
  moreover have "R (bk_world (snd (serve call S Q b))) (bk_world (serve_run S calls (snd (serve call S Q b))))"
    using Cons.prems by (intro Cons.IH) auto
  ultimately show ?case unfolding c serve_run_def fold_simps prod.case comp_def by (rule R_trans)
qed (simp add: serve_run_def R_refl)

end

section \<open>From inserts and updates to operations\<close>

locale store_relation = world_relation R for R :: "world \<Rightarrow> world \<Rightarrow> bool" +
  fixes E :: env and mine :: "string \<Rightarrow> bool"
  assumes prim_tenant: "mine (tn_id tr) \<Longrightarrow> steps_by R (insert_or_ignore_tenant tr)"
    and prim_artifact: "mine (a_tenant ar) \<Longrightarrow> steps_by R (insert_artifact_row ar)"
    and prim_version: "mine (v_tenant vr) \<Longrightarrow> steps_by R (insert_version_row vr)"
    and prim_chunk: "mine (c_tenant cr) \<Longrightarrow> steps_by R (insert_chunk_row cr)"
    and prim_fts: "mine (f_tenant fr) \<Longrightarrow> steps_by R (insert_fts_row fr)"
    and prim_substring: "mine (f_tenant fr) \<Longrightarrow> steps_by R (insert_substring_row fr)"
    and prim_edge: "mine (e_tenant er) \<Longrightarrow> steps_by R (insert_edge_row er)"
    and prim_grant: "mine (g_tenant gr) \<Longrightarrow> steps_by R (insert_grant_row gr)"
    and prim_current: "mine t \<Longrightarrow> steps_by R (set_current_version vid media aid t)"
    and prim_blob: "steps_by R (store_blob E d h)"
    and prim_connection: "mine (x_tenant xr) \<Longrightarrow> steps_by R (insert_connection_row xr)"
    and prim_update: "mine t \<Longrightarrow> (\<And>r. x_tenant (f r) = x_tenant r) \<Longrightarrow> steps_by R (update_connection t cid f)"
    and prim_call_audit: "mine (y_tenant yr) \<Longrightarrow> steps_by R (insert_call_audit_row yr)"
begin

lemma op_ensure: "mine t \<Longrightarrow> steps_by R (ensure_tenant E t)"
  unfolding ensure_tenant_def by (intro world_intros prim_tenant) simp

lemma op_chunk: "mine t \<Longrightarrow> steps_by R (insert_one_chunk E t aid vid x)"
  unfolding insert_one_chunk_def
  by (cases x) (simp, intro world_intros prim_chunk prim_fts prim_substring; simp)

lemma op_insert: "mine t \<Longrightarrow> steps_by R (insert_version E t aid data m who why c parent)"
  unfolding insert_version_def
  by (intro world_intros prim_version prim_blob prim_current op_chunk; simp)

lemma op_mread: "steps_by R (mread f)"
  by (simp add: steps_by_def mread_def R_refl)

lemma op_write: "mine t \<Longrightarrow> steps_by R (write_version E t aid data m who why c parent auth)"
  unfolding write_version_def by (intro world_intros op_insert op_mread)

lemma op_create: "mine t \<Longrightarrow> steps_by R (create_artifact E t nm data media who why ctx)"
  unfolding create_artifact_def Let_def insert_owner_grants_def
  by (intro world_intros op_ensure op_insert op_mread prim_artifact prim_grant; simp add: owner_grant_def)

lemma op_assert: "steps_by R (assert_row f)"
  unfolding assert_row_def by (intro world_intros)

lemma op_link: "mine t \<Longrightarrow> steps_by R (link E t src tgt etype meta pol)"
  unfolding link_def by (intro world_intros prim_edge op_assert; simp)

lemma op_share: "mine t \<Longrightarrow> steps_by R (share_artifact E t aid who subject act why auth)"
  unfolding share_artifact_def by (intro world_intros prim_grant op_assert; simp)

lemma op_external_audit: "mine t \<Longrightarrow> steps_by R (write_external_audit E t cid who act out why used addr)"
  unfolding write_external_audit_def by (intro world_intros prim_call_audit) simp

lemma op_deny: "mine t \<Longrightarrow> steps_by R (deny E t cid who act why used e)"
  unfolding deny_def record_external_denial_def by (intro world_intros op_external_audit)

lemma op_lookup: "mine t \<Longrightarrow> steps_by R (lookup_or_deny E t cid who act used)"
  unfolding lookup_or_deny_def
  by (intro world_intros) (auto intro!: world_intros op_deny split: py_exn.split)

lemma op_tool: "mine t \<Longrightarrow> steps_by R (authorize_external_tool E t cid nm who args)"
  unfolding authorize_external_tool_def by (intro world_intros op_lookup op_deny)

lemma op_resource: "mine t \<Longrightarrow> steps_by R (authorize_external_resource E ip t cid uri who)"
  unfolding authorize_external_resource_def by (intro world_intros op_lookup op_deny)

lemma op_call: "mine t \<Longrightarrow> steps_by R (record_external_call E t cid who act out why used addr)"
  unfolding record_external_call_def by (intro world_intros op_external_audit)

lemma op_health: "mine t \<Longrightarrow> steps_by R (record_external_health E t cid who st)"
  unfolding record_external_health_def
  by (intro world_intros op_external_audit prim_update; simp add: set_health_def)

lemma op_disconnect: "mine t \<Longrightarrow> steps_by R (revoke_external_connection E ip t cid who why)"
  unfolding revoke_external_connection_def
  by (intro world_intros op_external_audit prim_update; simp add: set_revoked_def)

lemma op_register: "mine t \<Longrightarrow> steps_by R (register_external_connection E ip t who g)"
  unfolding register_external_connection_def
  by (intro world_intros) (auto intro!: world_intros op_ensure op_external_audit prim_connection split: prod.split)

lemma service_relation_of_store:
  assumes "\<And>t aid who gid why auth. mine t \<Longrightarrow> steps_by R (revoke_share E t aid who gid why auth)"
    and "\<And>tr t who fr til limit cursor. mine t \<Longrightarrow> steps_by R (export_audit_events E tr t who fr til limit cursor)"
  shows "service_relation R E mine"
  by unfold_locales (intro op_create op_write op_link op_share assms op_register op_health op_disconnect op_tool
    op_resource op_call; assumption)+

end

section \<open>The relations\<close>

interpretation graph_kept: service_relation "keeps_graph E" E "\<lambda>_. True" for E
  by unfold_locales (intro sound_create_artifact sound_write_version sound_link sound_share sound_revoke
    sound_framed [OF framed_export] framed_external [THEN sound_framed])+

interpretation history_store: store_relation grows E "\<lambda>_. True" for E
proof
  show "steps_by grows (insert_connection_row xr)" for xr
    by (rule steps_grows_framed [OF framed_insert_connection])
  show "steps_by grows (update_connection t cid f)" for t cid f
    by (rule steps_grows_framed [OF framed_update_connection])
  show "steps_by grows (insert_call_audit_row yr)" for yr
    unfolding insert_call_audit_row_def by (rule steps_grows_framed, rule framed_execute) (simp add: same_graph_def)
qed (intro steps_grows grows_store_blob)+

interpretation history_kept: service_relation grows E "\<lambda>_. True" for E
  by (rule history_store.service_relation_of_store) (intro steps_revoke steps_grows_framed [OF framed_export])+

text \<open>No operation but the audit log's own touches the event table.\<close>

interpretation audit_store: store_relation "keeps_audit E" E' "\<lambda>_. True" for E E'
proof
  show "steps_by (keeps_audit E) (store_blob E' d h)" for d h
    by (rule steps_byI) (auto simp: store_blob_def Let_def keeps_audit_def)
qed (simp_all add: insert_defs set_current_version_def insert_connection_row_def update_connection_def
      insert_call_audit_row_def audited_execute)

interpretation audit_kept: service_relation "keeps_audit E" E "\<lambda>_. True" for E
proof (rule audit_store.service_relation_of_store)
  show "steps_by (keeps_audit E) (revoke_share E t aid who gid why auth)" for t aid who gid why auth
    unfolding revoke_share_def set_grant_revoked_def
    by (intro audited.world_intros audited_execute audit_store.op_assert) simp
qed (rule audited_export)

text \<open>Isolation: of the rows of tenant \<open>u\<close> nothing changes, provided the keys are keys.\<close>

definition rows_of :: "string \<Rightarrow> database \<Rightarrow> database" where
  "rows_of u db = db
     \<lparr>t_tenants := [], t_artifacts := filter (\<lambda>r. a_tenant r = u) (t_artifacts db),
      t_versions := filter (\<lambda>r. v_tenant r = u) (t_versions db), t_chunks := filter (\<lambda>r. c_tenant r = u) (t_chunks db),
      t_chunk_fts := filter (\<lambda>r. f_tenant r = u) (t_chunk_fts db),
      t_substring_fts := filter (\<lambda>r. f_tenant r = u) (t_substring_fts db),
      t_edges := filter (\<lambda>r. e_tenant r = u) (t_edges db), t_grants := filter (\<lambda>r. g_tenant r = u) (t_grants db),
      t_connections := filter (\<lambda>r. x_tenant r = u) (t_connections db),
      t_call_audit := filter (\<lambda>r. y_tenant r = u) (t_call_audit db),
      t_events := filter (\<lambda>r. ev_tenant r = u) (t_events db), t_exports := filter (\<lambda>r. xp_tenant r = u) (t_exports db)\<rparr>"

definition spares :: "string \<Rightarrow> world \<Rightarrow> world \<Rightarrow> bool" where
  "spares u w w' \<longleftrightarrow> (keys_ok (w_db w) \<longrightarrow> keys_ok (w_db w') \<and> rows_of u (w_db w') = rows_of u (w_db w))"

interpretation spared: world_relation "spares u" for u
  by unfold_locales (auto simp: spares_def)

lemma spares_execute:
  assumes "steps_by keeps_keys (execute ok f)" "\<And>db. rows_of u (f db) = rows_of u db"
  shows "steps_by (spares u) (execute ok f)"
  using assms unfolding steps_by_def execute_def spares_def keeps_keys_def by simp

lemma spares_other:
  assumes "\<And>db. rows_of u (f db) = rows_of u db"
    "\<And>db. t_artifacts (f db) = t_artifacts db \<and> t_versions (f db) = t_versions db \<and> t_chunks (f db) = t_chunks db
      \<and> t_edges (f db) = t_edges db \<and> t_grants (f db) = t_grants db"
  shows "steps_by (spares u) (execute ok f)"
proof (rule spares_execute [OF _ assms(1)])
  show "steps_by keeps_keys (execute ok f)"
    by (rule keys.steps_execute) (simp add: keeps_keys_def keys_ok_def active_grants_def assms(2))
qed

lemma filter_updated:
  "(\<And>r. P r \<Longrightarrow> \<not> Q r) \<Longrightarrow> (\<And>r. Q (f r) = Q r) \<Longrightarrow> filter Q (map (\<lambda>r. if P r then f r else r) rs) = filter Q rs"
  by (induction rs) auto

interpretation spared_store: store_relation "spares u" E "\<lambda>t. t \<noteq> u" for u E
proof
  show "steps_by (spares u) (insert_or_ignore_tenant tr)" for tr
    unfolding insert_or_ignore_tenant_def by (rule spares_other) (auto simp: rows_of_def)
  show "steps_by (spares u) (insert_fts_row fr)" "steps_by (spares u) (insert_substring_row fr)"
    if "f_tenant fr \<noteq> u" for fr
    unfolding insert_fts_row_def insert_substring_row_def using that
    by (auto intro!: spares_other simp: rows_of_def)
  show "steps_by (spares u) (insert_connection_row xr)" if "x_tenant xr \<noteq> u" for xr
    unfolding insert_connection_row_def using that by (auto intro!: spares_other simp: rows_of_def)
  show "steps_by (spares u) (insert_call_audit_row yr)" if "y_tenant yr \<noteq> u" for yr
    unfolding insert_call_audit_row_def using that by (auto intro!: spares_other simp: rows_of_def)
  show "steps_by (spares u) (update_connection t cid f)" if other: "t \<noteq> u" "\<And>r. x_tenant (f r) = x_tenant r" for t cid f
  proof -
    have "filter (\<lambda>r. x_tenant r = u) (map (\<lambda>r. if x_id r = cid \<and> x_tenant r = t then f r else r) rs)
      = filter (\<lambda>r. x_tenant r = u) rs" for rs
      by (rule filter_updated) (auto simp: other)
    then show ?thesis unfolding update_connection_def by (intro spares_other) (simp_all add: rows_of_def)
  qed
  show "steps_by (spares u) (set_current_version vid media aid t)" if "t \<noteq> u" for vid media aid t
  proof -
    have "filter (\<lambda>r. a_tenant r = u) (map (\<lambda>r. if a_id r = aid \<and> a_tenant r = t
        then r\<lparr>a_current := Some vid, a_media := media\<rparr> else r) rs) = filter (\<lambda>r. a_tenant r = u) rs" for rs :: "artifact_row list"
      by (rule filter_updated) (auto simp: that)
    with steps_keys(9) [of vid media aid t] show ?thesis
      unfolding set_current_version_def by (intro spares_execute) (simp_all add: rows_of_def)
  qed
  show "steps_by (spares u) (store_blob E d h)" for d h
    by (rule steps_byI) (auto simp: store_blob_def Let_def spares_def)
qed (use steps_keys in \<open>auto simp: insert_defs rows_of_def intro!: spares_execute\<close>)

lemma spares_quiet: "steps_by quiet m \<Longrightarrow> steps_by (spares u) m"
  unfolding steps_by_def quiet_def spares_def by simp

lemma spares_revoke:
  assumes "t \<noteq> u"
  shows "steps_by (spares u) (revoke_share E t aid who gid why auth)"
proof (rule steps_byI)
  fix w r w' assume run: "revoke_share E t aid who gid why auth w = (r, w')"
  have keys: "keys_ok (w_db w) \<longrightarrow> keys_ok (w_db w')"
    using steps_byD [OF steps_revoke(2) run] by (simp add: keeps_keys_def)
  show "spares u w w'"
  proof (cases r)
    case (Inl e)
    with run revoke_error have "w_db w' = w_db w" by blast
    then show ?thesis by (simp add: spares_def)
  next
    case (Inr g)
    with run obtain now row where row: "row \<in> set (t_grants (w_db w))" "g_id row = gid" "g_tenant row = t"
      and w': "g_status row = ''active'' \<and> w' = w\<lparr>w_db := (w_db w)\<lparr>t_grants :=
         revoked_rows who now why gid (t_grants (w_db w))\<rparr>, w_now := Suc (w_now w)\<rparr>
       \<or> g_status row \<noteq> ''active'' \<and> w' = w"
      by (auto elim: revoke_cases)
    have "filter (\<lambda>g. g_tenant g = u) (revoked_rows who now why gid (t_grants (w_db w)))
        = filter (\<lambda>g. g_tenant g = u) (t_grants (w_db w))" if "keys_ok (w_db w)"
    proof -
      have "g_tenant g = t" if "g \<in> set (t_grants (w_db w))" "g_id g = gid" for g
        using that row \<open>keys_ok (w_db w)\<close> by (metis keys_ok_def distinct_map inj_on_def)
      with assms have "filter (\<lambda>g. g_tenant g = u) (map f gs) = filter (\<lambda>g. g_tenant g = u) gs"
        if "set gs \<subseteq> set (t_grants (w_db w))"
          "f = (\<lambda>g. if g_id g = gid \<and> g_status g = ''active'' then g\<lparr>g_status := ''revoked'', g_revoked_by := Some who,
             g_revoked_at := Some now, g_revocation := Some why\<rparr> else g)" for gs and f :: "grant_row \<Rightarrow> grant_row"
        using that by (induction gs) auto
      then show ?thesis unfolding revoked_rows_def by blast
    qed
    with w' keys show ?thesis by (auto simp: spares_def rows_of_def)
  qed
qed

lemma spares_export:
  assumes "t \<noteq> u"
  shows "steps_by (spares u) (export_audit_events E tr t who fr til limit cursor)"
proof -
  have x: "steps_by (spares u) (export_expiry E)"
    by (rule spares_quiet, rule steps_byI) (auto simp: export_expiry_def quiet_def Let_def)
  have d: "details_ok (aq_details (export_request t who xid))" for xid
    by (simp add: details_ok_def export_request_def dict_ok_def)
  have i: "steps_by (spares u) (insert_export_row r)" if "xp_tenant r = t" for r
    unfolding insert_export_row_def using that assms by (auto intro!: spares_other simp: rows_of_def)
  have a: "steps_by (spares u) (insert_audit_event e)" if "ae_tenant e = t" for e
    unfolding insert_audit_event_def insert_event_row_def using that assms
    by (auto intro!: spares_other simp: rows_of_def event_row_of_def)
  have e: "steps_by (spares u) (mbind (build_audit_event E tr (export_request t who xid)) (\<lambda>e.
     mbind (transact (mbind (ensure_tenant E t) (\<lambda>_. mbind (insert_export_row r) (\<lambda>_. insert_audit_event e))))
       (\<lambda>_. mret z)))" if "xp_tenant r = t" for xid r z
    by (rule spared.steps_mbind_yields [OF spares_quiet [OF quiet_build] build_yields [OF d]])
      (intro spared.world_intros spared_store.op_ensure [OF assms] i that a; simp add: export_request_def)
  show ?thesis
    unfolding export_audit_events_def Let_def
    by (intro spared.world_intros x e) (auto intro!: spared.world_intros x e split: prod.split)
qed

interpretation spared_kept: service_relation "spares u" E "\<lambda>t. t \<noteq> u" for u E
  by (rule spared_store.service_relation_of_store) (rule spares_revoke spares_export, assumption)+

section \<open>Properties\<close>

text \<open>C1: The service keeps its data sound: whatever MCP calls are made, in whatever order and however they
  end, the artifact graph stays consistent (keys, references, linear histories, stored content), every
  audit event still verifies, and nothing written is lost (versions, chunks and edges are only appended,
  no revoked grant comes back, no blob disappears).\<close>

theorem service_keeps_integrity:
  assumes "graph_ok (sv_env S) (bk_world b)" and "audit_ok (sv_env S) (w_db (bk_world b))"
  shows "graph_ok (sv_env S) (bk_world (serve_run S calls b)) \<and> audit_ok (sv_env S) (w_db (bk_world (serve_run S calls b)))
    \<and> grows (bk_world b) (bk_world (serve_run S calls b))"
  using graph_kept.serve_run_respects [of calls S _ b, OF _ refl] audit_kept.serve_run_respects [of calls S _ b, OF _ refl]
    history_kept.serve_run_respects [of calls S _ b, OF _ refl] assms
  by (simp add: keeps_graph_def keeps_audit_def)

lemma service_keeps_integrity_witness:
  "graph_ok env0 (bk_world (serve_run sample_server
     [(ArtifactCreate ''n'' ''aGk='' None ''why'' None, sample_request ''t'' [''artifact:write'']),
      (ArtifactList 5 None None None, sample_request ''t'' [''artifact:read''])]
     (sample_broker\<lparr>bk_world := empty_world\<rparr>)))"
proof -
  have "graph_ok (sv_env sample_server) (bk_world (sample_broker\<lparr>bk_world := empty_world\<rparr>))"
    "audit_ok (sv_env sample_server) (w_db (bk_world (sample_broker\<lparr>bk_world := empty_world\<rparr>)))"
    by (simp add: graph_ok_empty) (simp add: audit_ok_def empty_world_def empty_db_def)
  from service_keeps_integrity [OF this] show ?thesis by (simp add: sample_server_def)
qed

text \<open>C3: No update is lost: once a write from some parent has succeeded, no write that names the same parent ever
  succeeds again: whatever MCP calls are made in between (further writes to the same artifact included), whoever
  makes it and whatever it holds, it is refused and leaves the database as it is.\<close>

theorem no_lost_update:
  assumes "graph_ok (sv_env S) (bk_world b)"
    and "write_version (sv_env S) t aid data media who why ctx parent auth (bk_world b) = (Inr m, w')"
    and "w2 = bk_world (serve_run S calls (b\<lparr>bk_world := w'\<rparr>))"
  shows "(\<exists>e. fst (write_version (sv_env S) t2 aid data2 media2 who2 why2 ctx2 parent auth2 w2) = Inl e)
    \<and> w_db (snd (write_version (sv_env S) t2 aid data2 media2 who2 why2 ctx2 parent auth2 w2)) = w_db w2"
proof -
  let ?b = "b\<lparr>bk_world := w'\<rparr>"
  have "graph_ok (sv_env S) w'"
    using steps_byD [OF sound_write_version assms(2)] assms(1) by (simp add: keeps_graph_def)
  then have ok: "graph_ok (sv_env S) w2"
    using graph_kept.serve_run_respects [of calls S _ ?b, OF _ refl] assms(3) by (simp add: keeps_graph_def)
  have "grows w' w2"
    using history_kept.serve_run_respects [of calls S _ ?b, OF _ refl] assms(3) by simp
  with write_spends [OF assms(1,2)] have spent: "spent_parent (w_db w2) aid parent" by (rule spent_grows)
  obtain r w3 where run: "write_version (sv_env S) t2 aid data2 media2 who2 why2 ctx2 parent auth2 w2 = (r, w3)" by (metis surj_pair)
  from spent_refused [OF ok spent run] run show ?thesis by simp
qed

lemma no_lost_update_witness:
  "\<exists>w aid (a :: artifact_row) m w' e. write_version env0 ''t'' aid [104, 105] ''text/plain'' ''ann'' ''why'' (JObj []) (a_current a) None w
      = (Inr m, w')
    \<and> fst (write_version env0 ''t'' aid [106] ''text/plain'' ''eve'' ''why'' (JObj []) (a_current a) None
        (bk_world (serve_run sample_server [(ArtifactWrite aid (vv_id m) ''aGk='' None ''why'' None,
          sample_request ''t'' [''artifact:write''])] (sample_broker\<lparr>bk_world := w'\<rparr>)))) = Inl e"
proof -
  obtain w aid m w' and a :: artifact_row where w: "graph_ok env0 w" "write_version env0 ''t'' aid [104, 105] ''text/plain''
      ''ann'' ''why'' (JObj []) (a_current a) None w = (Inr m, w')" using sample_write by blast
  have env: "sv_env sample_server = env0" by (simp add: sample_server_def)
  let ?b = "sample_broker\<lparr>bk_world := w\<rparr>"
  from w no_lost_update [of sample_server ?b "''t''" aid "[104, 105]" "''text/plain''" "''ann''" "''why''" "JObj []" "a_current a"
      None m w', OF _ _ refl, unfolded env] show ?thesis by fastforce
qed

text \<open>C19: Tenants are isolated: a run of calls none of which acts for a tenant leaves every row of that
  tenant as it was: its artifacts, versions, chunks, search indexes, edges, grants, external connections
  and their call audit, audit events and exports.\<close>

theorem tenants_are_isolated:
  assumes "\<And>call Q. (call, Q) \<in> set calls \<Longrightarrow> caller_tenant S Q \<noteq> Some u" and "keys_ok (w_db (bk_world b))"
  shows "rows_of u (w_db (bk_world (serve_run S calls b))) = rows_of u (w_db (bk_world b))"
  using spared_kept.serve_run_respects [of calls S u _ b, OF _ refl] assms by (auto simp: spares_def)

lemma tenants_are_isolated_witness:
  "rows_of ''t'' (w_db (bk_world (serve_run sample_server
     [(ConnectionRevoke ''c'' ''why'', sample_request ''u'' [''tenant:admin'']),
      (ArtifactCreate ''n'' ''aGk='' None ''why'' None, sample_request ''u'' [''artifact:write''])] sample_broker)))
    = rows_of ''t'' (w_db (bk_world sample_broker)) \<and> t_connections (rows_of ''t'' (w_db (bk_world sample_broker))) = [keyed_connection]"
proof -
  have "keys_ok (w_db (bk_world sample_broker))"
    by (simp add: keys_ok_def active_grants_def sample_broker_def registry_world_def empty_world_def empty_db_def)
  moreover have "caller_tenant sample_server Q \<noteq> Some ''t''"
    if "(call, Q) \<in> set [(ConnectionRevoke ''c'' ''why'', sample_request ''u'' [''tenant:admin'']),
      (ArtifactCreate ''n'' ''aGk='' None ''why'' None, sample_request ''u'' [''artifact:write''])]" for call Q
    using that by (auto simp: caller_tenant_def sample_request_def)
  moreover have "t_connections (rows_of ''t'' (w_db (bk_world sample_broker))) = [keyed_connection]"
    by (simp add: rows_of_def sample_broker_def keyed_connection_def sample_connection_def)
  ultimately show ?thesis using tenants_are_isolated [of _ sample_server "''t''" sample_broker] by blast
qed

text \<open>C7: Content survives the protocol: when an \<open>artifact_write\<close> succeeds, an \<open>artifact_read\<close> of that
  artifact by anyone of the tenant who may read it returns the version just written, with content that
  decodes to the bytes sent (provided no other bytes have their SHA-256 hash).\<close>

theorem mcp_write_then_read:
  assumes "graph_ok (sv_env S) (bk_world b)"
    and "serve (ArtifactWrite aid parent content media reason ctx) S Q b = (Inr r, b')"
    and "b64_decode std_alphabet content = Some data"
    and "\<And>d. sha256_hex (sv_env S) d = sha256_hex (sv_env S) data \<Longrightarrow> d = data"
    and "caller_tenant S Q = Some t" and "identity S Q' [''artifact:read''] ''artifact_read'' = Inr (t, who)"
    and "rq_capability Q' = None"
    and "authorize (w_db (bk_world b')) t aid (policy_actor S Q' who) ''read'' = Inr ()"
  shows "\<exists>m v. r = RWritten m \<and> serve (ArtifactRead aid None) S Q' b' = (Inr (RRead v), b')
    \<and> rd_version v = m \<and> b64_decode std_alphabet (rd_content_base64 v) = Some data"
proof -
  from assms(2,3) obtain t' w0 m w' media' where i: "identity S Q [tool_scope ''artifact_write''] ''artifact_write'' = Inr (t', w0)"
    and r: "r = RWritten m" "b' = b\<lparr>bk_world := w'\<rparr>"
    and run: "write_version (sv_env S) t' aid data media' w0 reason (or_empty ctx) (Some parent)
        (Some (policy_actor S Q w0)) (bk_world b) = (Inr m, w')"
    by (auto simp: artifact_write_def tool_errors_def mtry_Inr mraise_iff mbind_Inr_iff mlift_iff on_world_iff mread_iff
        decode_content_def mresult_def mret_iff Let_def split: prod.splits)
  from identity_tenant [OF i] assms(5) have "t' = t" by simp
  with run have run': "write_version (sv_env S) t aid data media' w0 reason (or_empty ctx) (Some parent)
        (Some (policy_actor S Q w0)) (bk_world b) = (Inr m, w')" by simp
  from assms(8) r(2) have "authorize (w_db w') t aid (policy_actor S Q' who) ''read'' = Inr ()" by simp
  from written_is_read [OF assms(1) run' this assms(4)] obtain v where
    v: "read_artifact (sv_env S) w' t aid None (policy_actor S Q' who) = Inr v" "rd_version v = m"
      "b64_decode std_alphabet (rd_content_base64 v) = Some data" by blast
  have "tool_scope ''artifact_read'' = ''artifact:read''" by (simp add: tool_scope_def TOOL_SCOPES_def)
  with v r assms(6,7) have "serve (ArtifactRead aid None) S Q' b' = (Inr (RRead v), b')"
    by (simp add: artifact_read_tool_def read_capability_def as_tool_def as_caller_def mbind_def mlift_def tool_errors_def
        mtry_def mresult_def on_world_def mread_def mret_def)
  with v r show ?thesis by blast
qed

lemma mcp_write_then_read_witness:
  "\<exists>b' aid v. serve (ArtifactRead aid None) sample_server \<lparr>rq_principal = None, rq_capability = None, rq_trace = None\<rparr> b'
      = (Inr (RRead v), b') \<and> b64_decode std_alphabet (rd_content_base64 v) = Some [104, 105]"
proof -
  from sample_write obtain w aid a m w' where w: "graph_ok env0 w" "find_artifact (w_db w) ''t'' aid = Some a" "a_owner a = ''ann''"
    and run: "write_version env0 ''t'' aid [104, 105] ''text/plain'' ''ann'' ''why'' (JObj []) (a_current a) None w = (Inr m, w')"
    and reader: "authorize (w_db w') ''t'' aid None ''read'' = Inr ()" by blast
  from find_artifact_Some [OF w(2)] current_exists [OF w(1)] obtain p where p: "a_current a = Some p" by metis
  let ?b = "sample_broker\<lparr>bk_world := w\<rparr>" and ?Q = "sample_request ''t'' [''artifact:write'']"
  let ?Q' = "\<lparr>rq_principal = None, rq_capability = None, rq_trace = None\<rparr> :: mcp_request"
  from b64_decode_encode [OF good_alphabets(1)] obtain c where
    content: "b64_decode std_alphabet c = Some [104, 105]" by blast
  have "get_artifact w ''t'' aid (Some ''ann'') ''write'' = Inr (view_artifact a)"
    using w(2,3) by (simp add: get_artifact_def err_simps actor_ok_def permits_def ACL_ACTIONS_def strip_def lstrip_def
        is_space_def ord_of_def)
  moreover from run p have "write_version env0 ''t'' aid [104, 105] ''text/plain'' ''ann'' ''why'' (or_empty None) (Some p)
      (Some (Some ''ann'')) w = (Inr m, w')" by (simp add: write_version_def request_actor_def or_empty_def)
  ultimately have "serve (ArtifactWrite aid p c (Some ''text/plain'') ''why'' None)
      sample_server ?Q ?b = (Inr (RWritten m), ?b\<lparr>bk_world := w'\<rparr>)"
    by (simp add: artifact_write_def tool_errors_def mtry_def mbind_def mlift_def identity_def sample_request_def
        tool_scope_def TOOL_SCOPES_def guard_raise_def policy_actor_def sample_server_def on_world_def mread_def
        decode_content_def content mresult_def mret_def Let_def)
  from mcp_write_then_read [OF _ this content, of "''t''" ?Q' "''local''"] w(1) reader env0_hash
  show ?thesis
    by (force simp: sample_server_def sample_request_def caller_tenant_def identity_def guard_raise_def policy_actor_def)
qed

end
