(* ===== verification/Identity.thy ===== *)
theory Identity
  imports Auth Url
begin

text \<open>
  The hosted login of \<open>identity.py\<close>: the checks of its configuration, the authorization URL, the code
  exchange and the verification of the ID token. The network, PyJWT, the JSON parser on bytes and the clock
  are parameters, as in \<open>Auth\<close>.
\<close>

section \<open>Configuration\<close>

definition MAX_IDENTITY_URL_LENGTH :: nat where "MAX_IDENTITY_URL_LENGTH = 4 * 1024"
definition MAX_IDENTITY_TOKEN_LENGTH :: nat where "MAX_IDENTITY_TOKEN_LENGTH = 128 * 1024"
definition MAX_IDENTITY_TIMEOUT_SECONDS :: rat where "MAX_IDENTITY_TIMEOUT_SECONDS = 30"
definition MAX_IDENTITY_RESPONSE_BYTES :: int where "MAX_IDENTITY_RESPONSE_BYTES = 4 * 1024 * 1024"

record identity_claims =
  ic_issuer :: string
  ic_subject :: string

record identity_config =
  id_issuer :: string
  id_jwks_url :: string
  id_authorization :: string
  id_token_endpoint :: string
  id_client :: string
  id_redirect :: string
  id_timeout :: rat
  id_max_bytes :: int

text \<open>\<open>urlsplit\<close> raises a \<open>ValueError\<close> of its own for brackets out of place.\<close>

definition https_url :: "ip_table \<Rightarrow> string \<Rightarrow> string \<Rightarrow> py_exn + string" where
  "https_url ip field v =
     (let bad = ValueError (field @ '' must be an exact HTTPS URL'') in
      if v = [] \<or> length v > MAX_IDENTITY_URL_LENGTH \<or> v \<noteq> strip v \<or> list_ex ctrl_char v then Inl bad
      else case urlsplit ip v of
        None \<Rightarrow> Inl (ValueError ''invalid URL'')
      | Some u \<Rightarrow>
          if su_scheme u \<noteq> ''https'' \<or> su_netloc u = [] \<or> hostname u = None \<or> userinfo u \<noteq> (None, None)
            \<or> su_query u \<noteq> [] \<or> su_fragment u \<noteq> [] then Inl bad
          else if port_of u = None then Inl bad else Inr v)"

definition https_callback_uri :: "ip_table \<Rightarrow> string \<Rightarrow> py_exn + string" where
  "https_callback_uri ip v =
     ebind (https_url ip ''redirect URI'' v) (\<lambda>_.
     if map_option su_path (urlsplit ip v) \<noteq> Some ''/auth/callback''
     then Inl (ValueError ''redirect URI must use the exact /auth/callback path'') else Inr v)"

definition client_id :: "string \<Rightarrow> py_exn + string" where
  "client_id v =
     (if v = [] \<or> length v > 512 \<or> v \<noteq> strip v \<or> list_ex (\<lambda>c. is_space c \<or> ord_of c < 32) v
      then Inl (ValueError ''client ID is invalid'') else Inr v)"

definition identity_config_init :: "ip_table \<Rightarrow> identity_config \<Rightarrow> py_exn + identity_config" where
  "identity_config_init ip C =
     ebind (https_url ip ''issuer'' (id_issuer C)) (\<lambda>_.
     ebind (https_url ip ''JWKS URL'' (id_jwks_url C)) (\<lambda>_.
     ebind (https_url ip ''authorization endpoint'' (id_authorization C)) (\<lambda>_.
     ebind (https_url ip ''token endpoint'' (id_token_endpoint C)) (\<lambda>_.
     ebind (https_callback_uri ip (id_redirect C)) (\<lambda>_.
     ebind (client_id (id_client C)) (\<lambda>_.
     if id_timeout C \<le> 0 \<or> id_timeout C > MAX_IDENTITY_TIMEOUT_SECONDS
     then Inl (ValueError ''identity timeout must be between 0 and 30 seconds'')
     else if id_max_bytes C < 1 \<or> id_max_bytes C > MAX_IDENTITY_RESPONSE_BYTES
     then Inl (ValueError ''identity response limit is invalid'')
     else Inr C))))))"

section \<open>Form encoding\<close>

text \<open>\<open>urllib.parse.urlencode\<close> of text values: \<open>quote_plus\<close> of key and value.\<close>

definition unreserved :: "char \<Rightarrow> bool" where
  "unreserved c \<longleftrightarrow> is_alnum_ascii c \<or> c \<in> set ''_.-~''"

definition hex_digit_upper :: "nat \<Rightarrow> char" where
  "hex_digit_upper n = ''0123456789ABCDEF'' ! n"

definition quote_byte :: "8 word \<Rightarrow> string" where
  "quote_byte b = (let n = unat b; c = char_of n in
     if unreserved c then [c] else if n = 32 then ''+''
     else [CHR ''%'', hex_digit_upper (n div 16), hex_digit_upper (n mod 16)])"

definition quote_plus :: "string \<Rightarrow> string" where
  "quote_plus s = concat (map quote_byte (utf8 s))"

definition urlencode :: "(string \<times> string) list \<Rightarrow> string" where
  "urlencode kvs = join_with ''&'' (map (\<lambda>(k, v). quote_plus k @ ''='' @ quote_plus v) kvs)"

section \<open>The adapter\<close>

text \<open>\<open>lg_post\<close>: what the n-th POST of a form to the token endpoint answers (\<open>None\<close>: it raised \<open>OSError\<close>
  or \<open>TimeoutError\<close>).\<close>

record 'k login_env =
  lg_jwt :: "'k jwt_lib"
  lg_jwks :: jwks_conf
  lg_post :: "nat \<Rightarrow> string \<Rightarrow> bytes option"
  lg_now :: "nat \<Rightarrow> rat"
  lg_skew :: rat

record 'k login =
  li_jwks :: "'k jwks"
  li_ready :: bool
  li_posts :: nat
  li_readings :: nat

definition redirect_mismatch :: py_exn where
  "redirect_mismatch = AuthenticationError ''redirect URI does not match identity configuration''"

definition bad_identity_token :: py_exn where
  "bad_identity_token = AuthenticationError ''identity token is invalid''"

definition bad_token_response :: py_exn where
  "bad_token_response = AuthenticationError ''identity token response is invalid''"

definition on_jwks :: "('k jwks, 'a) action \<Rightarrow> ('k login, 'a) action" where
  "on_jwks m = (\<lambda>s. case m (li_jwks s) of (r, j) \<Rightarrow> (r, s\<lparr>li_jwks := j\<rparr>))"

definition login_init :: "rat \<Rightarrow> 'k jwks \<Rightarrow> py_exn + 'k login" where
  "login_init skew jwks =
     (if skew < 0 then Inl (ValueError ''identity clock skew must not be negative'')
      else Inr \<lparr>li_jwks = jwks, li_ready = False, li_posts = 0, li_readings = 0\<rparr>)"

definition warm_up :: "'k login_env \<Rightarrow> ('k login, unit) action" where
  "warm_up L = mbind (on_jwks (jwks_refresh (lg_jwt L) (lg_jwks L))) (\<lambda>_. \<lambda>s. (Inr (), s\<lparr>li_ready := True\<rparr>))"

definition authorization_params ::
    "identity_config \<Rightarrow> string \<Rightarrow> string \<Rightarrow> string \<Rightarrow> (string \<times> string) list" where
  "authorization_params C state nonce challenge =
     [(''response_type'', ''code''), (''client_id'', id_client C), (''redirect_uri'', id_redirect C),
      (''scope'', ''openid''), (''state'', state), (''nonce'', nonce), (''code_challenge'', challenge),
      (''code_challenge_method'', ''S256'')]"

definition authorization_url ::
    "identity_config \<Rightarrow> string \<Rightarrow> string \<Rightarrow> string \<Rightarrow> string \<Rightarrow> py_exn + string" where
  "authorization_url C state nonce challenge redirect =
     (if redirect \<noteq> id_redirect C then Inl redirect_mismatch
      else Inr (id_authorization C @ ''?'' @ urlencode (authorization_params C state nonce challenge)))"

definition id_audience_matches :: "json option \<Rightarrow> string \<Rightarrow> bool" where
  "id_audience_matches v audience \<longleftrightarrow>
     (case v of
        Some (JStr s) \<Rightarrow> s = audience
      | Some (JArr vs) \<Rightarrow> vs \<noteq> [] \<and> list_all (\<lambda>v. case v of JStr _ \<Rightarrow> True | _ \<Rightarrow> False) vs \<and> JStr audience \<in> set vs
      | _ \<Rightarrow> False)"

text \<open>The times: \<open>exp\<close> and \<open>iat\<close> are required, and both are read before either is compared.\<close>

definition check_login_times :: "rat \<Rightarrow> rat \<Rightarrow> json \<Rightarrow> py_exn + unit" where
  "check_login_times skew now claims =
     ebind (numeric_claim bad_identity_token claims ''exp'' True) (\<lambda>ex.
     ebind (numeric_claim bad_identity_token claims ''iat'' True) (\<lambda>iat.
     ebind (guard_raise (case ex of Some t \<Rightarrow> t \<le> now - skew | None \<Rightarrow> True) bad_identity_token) (\<lambda>_.
     ebind (guard_raise (case iat of Some t \<Rightarrow> t > now + skew | None \<Rightarrow> True) bad_identity_token) (\<lambda>_.
     ebind (numeric_claim bad_identity_token claims ''nbf'' False) (\<lambda>nbf.
     guard_raise (case nbf of Some t \<Rightarrow> t > now + skew | None \<Rightarrow> False) bad_identity_token)))))"

text \<open>\<open>hmac.compare_digest\<close> of two strings: a \<open>TypeError\<close>, which nothing catches, unless both are ASCII.\<close>

definition digest_equal :: "string \<Rightarrow> string \<Rightarrow> py_exn + bool" where
  "digest_equal x y =
     (if list_all (\<lambda>c. ord_of c < 128) (x @ y) then Inr (x = y)
      else Inl (OtherError ''comparing strings with non-ASCII characters is not supported''))"

definition check_nonce :: "string \<Rightarrow> json option \<Rightarrow> py_exn + unit" where
  "check_nonce nonce v =
     (case v of
        Some (JStr n) \<Rightarrow> ebind (digest_equal n nonce) (\<lambda>same. guard_raise (\<not> same) bad_identity_token)
      | _ \<Rightarrow> Inl bad_identity_token)"

definition check_login_claims :: "identity_config \<Rightarrow> string \<Rightarrow> json \<Rightarrow> py_exn + string" where
  "check_login_claims C nonce claims =
     ebind (guard_raise (\<not> jis_obj claims \<or> jget claims ''iss'' \<noteq> Some (JStr (id_issuer C))
        \<or> \<not> id_audience_matches (jget claims ''aud'') (id_client C) \<or> jget claims ''azp'' \<noteq> Some (JStr (id_client C)))
       bad_identity_token) (\<lambda>_.
     ebind (check_nonce nonce (jget claims ''nonce'')) (\<lambda>_.
     ebind (guard_raise (\<not> nonempty_text (jget claims ''sub'')) bad_identity_token) (\<lambda>_.
     Inr (scope_text (jget_none claims ''sub'')))))"

definition verify_id_token ::
    "'k login_env \<Rightarrow> identity_config \<Rightarrow> string \<Rightarrow> string \<Rightarrow> ('k login, identity_claims) action" where
  "verify_id_token L C token nonce =
     mbind (on_jwks (decode_token (lg_jwt L) (lg_jwks L) bad_identity_token token)) (\<lambda>claims.
     mbind (mlift (check_login_claims C nonce claims)) (\<lambda>subject.
     mbind (\<lambda>s. (Inr (lg_now L (li_readings s)), s\<lparr>li_readings := Suc (li_readings s)\<rparr>)) (\<lambda>now.
     mbind (mlift (check_login_times (lg_skew L) now claims)) (\<lambda>_.
     mret \<lparr>ic_issuer = id_issuer C, ic_subject = subject\<rparr>))))"

definition token_form :: "identity_config \<Rightarrow> string \<Rightarrow> string \<Rightarrow> string" where
  "token_form C code verifier = urlencode
     [(''grant_type'', ''authorization_code''), (''code'', code), (''redirect_uri'', id_redirect C),
      (''client_id'', id_client C), (''code_verifier'', verifier)]"

text \<open>The ID token in the answer of the token endpoint.\<close>

definition token_response :: "'k login_env \<Rightarrow> identity_config \<Rightarrow> bytes option \<Rightarrow> py_exn + string" where
  "token_response L C answer =
     (case answer of
        None \<Rightarrow> Inl (AuthenticationError ''identity token exchange failed'')
      | Some response \<Rightarrow>
          let body = take (nat (id_max_bytes C + 1)) response in
          if int (length body) > id_max_bytes C then Inl (AuthenticationError ''identity token response is too large'')
          else case body_json (lg_jwt L) body of
            None \<Rightarrow> Inl bad_token_response
          | Some r \<Rightarrow>
              if \<not> jis_obj r \<or> \<not> nonempty_text (jget r ''id_token'')
                \<or> length (scope_text (jget_none r ''id_token'')) > MAX_IDENTITY_TOKEN_LENGTH
              then Inl bad_token_response else Inr (scope_text (jget_none r ''id_token'')))"

definition post_form :: "'k login_env \<Rightarrow> string \<Rightarrow> ('k login, bytes option) action" where
  "post_form L form = (\<lambda>s. (Inr (lg_post L (li_posts s) form), s\<lparr>li_posts := Suc (li_posts s)\<rparr>))"

definition complete_callback ::
    "'k login_env \<Rightarrow> identity_config \<Rightarrow> string \<Rightarrow> string \<Rightarrow> string \<Rightarrow> string \<Rightarrow> ('k login, identity_claims) action" where
  "complete_callback L C code nonce verifier redirect =
     mbind (mguard (redirect \<noteq> id_redirect C) redirect_mismatch) (\<lambda>_.
     mbind (post_form L (token_form C code verifier)) (\<lambda>answer.
     mbind (mlift (token_response L C answer)) (\<lambda>token.
     verify_id_token L C token nonce)))"

section \<open>What a completed login has verified\<close>

definition login_times_ok :: "rat \<Rightarrow> rat \<Rightarrow> json \<Rightarrow> bool" where
  "login_times_ok skew now claims \<longleftrightarrow>
     (\<exists>t. numeric_claim bad_identity_token claims ''exp'' True = Inr (Some t) \<and> now < t + skew)
     \<and> (\<exists>t. numeric_claim bad_identity_token claims ''iat'' True = Inr (Some t) \<and> t \<le> now + skew)
     \<and> (\<forall>t. numeric_claim bad_identity_token claims ''nbf'' False = Inr (Some t) \<longrightarrow> t \<le> now + skew)"

lemma check_login_times_ok:
  assumes "check_login_times skew now claims = Inr u"
  shows "login_times_ok skew now claims"
proof -
  obtain ex nbf iat where c: "numeric_claim bad_identity_token claims ''exp'' True = Inr ex"
    "numeric_claim bad_identity_token claims ''iat'' True = Inr iat"
    "numeric_claim bad_identity_token claims ''nbf'' False = Inr nbf"
    "\<not> (case ex of Some t \<Rightarrow> t \<le> now - skew | None \<Rightarrow> True)"
    "\<not> (case iat of Some t \<Rightarrow> t > now + skew | None \<Rightarrow> True)"
    "\<not> (case nbf of Some t \<Rightarrow> t > now + skew | None \<Rightarrow> False)"
    using assms by (auto simp: check_login_times_def err_simps)
  then show ?thesis by (auto simp: login_times_ok_def split: option.splits)
qed

lemma check_nonce_Inr: "check_nonce nonce v = Inr u \<longleftrightarrow> v = Some (JStr nonce) \<and> list_all (\<lambda>c. ord_of c < 128) nonce"
  by (auto simp: check_nonce_def digest_equal_def err_simps split: option.splits json.splits if_splits)

lemma check_login_claims_Inr:
  assumes "check_login_claims C nonce claims = Inr sub"
  shows "jget claims ''iss'' = Some (JStr (id_issuer C)) \<and> id_audience_matches (jget claims ''aud'') (id_client C)
    \<and> jget claims ''azp'' = Some (JStr (id_client C)) \<and> jget claims ''nonce'' = Some (JStr nonce)
    \<and> jget claims ''sub'' = Some (JStr sub) \<and> sub \<noteq> []"
  using assms
  by (auto simp: check_login_claims_def err_simps check_nonce_Inr nonempty_text_def jget_none_def
      split: option.splits json.splits)

lemma verify_id_token_Inr:
  assumes "verify_id_token L C token nonce s = (Inr c, s')"
  shows "\<exists>claims j. decode_token (lg_jwt L) (lg_jwks L) bad_identity_token token (li_jwks s) = (Inr claims, j)
    \<and> s' = s\<lparr>li_jwks := j, li_readings := Suc (li_readings s)\<rparr>
    \<and> check_login_claims C nonce claims = Inr (ic_subject c) \<and> ic_issuer c = id_issuer C
    \<and> login_times_ok (lg_skew L) (lg_now L (li_readings s)) claims"
  using assms
  by (auto simp: verify_id_token_def mbind_Inr_iff on_jwks_def err_simps intro!: check_login_times_ok split: prod.splits)

section \<open>Properties\<close>

text \<open>C27: A completed login is verified: when the callback yields an identity, the redirect URI was the
  configured one, exactly one code exchange took place, and the ID token in its answer names RS256 and a key
  of the issuer's key set under which its signature verifies; its issuer, audience, authorized party and
  nonce are the configured ones and the login's own, its times hold within the skew, and the identity is
  its subject under the configured issuer.\<close>

theorem login_claims_verified:
  assumes "complete_callback L C code nonce verifier redirect s = (Inr c, s')"
  shows "\<exists>token header kid key claims. redirect = id_redirect C \<and> li_posts s' = Suc (li_posts s)
    \<and> token_response L C (lg_post L (li_posts s) (token_form C code verifier)) = Inr token
    \<and> unverified_header (lg_jwt L) token = Some header \<and> jget header ''alg'' = Some (JStr OIDC_ALGORITHM)
    \<and> jget header ''kid'' = Some (JStr kid) \<and> map_of (jk_keys (li_jwks s')) kid = Some key
    \<and> jwt_decode (lg_jwt L) token key = Some claims
    \<and> jget claims ''iss'' = Some (JStr (id_issuer C)) \<and> id_audience_matches (jget claims ''aud'') (id_client C)
    \<and> jget claims ''azp'' = Some (JStr (id_client C)) \<and> jget claims ''nonce'' = Some (JStr nonce)
    \<and> jget claims ''sub'' = Some (JStr (ic_subject c)) \<and> ic_subject c \<noteq> [] \<and> ic_issuer c = id_issuer C
    \<and> login_times_ok (lg_skew L) (lg_now L (li_readings s)) claims"
proof -
  from assms obtain token where r: "redirect = id_redirect C"
    and t: "token_response L C (lg_post L (li_posts s) (token_form C code verifier)) = Inr token"
    and v: "verify_id_token L C token nonce (s\<lparr>li_posts := Suc (li_posts s)\<rparr>) = (Inr c, s')"
    by (auto simp: complete_callback_def mbind_Inr_iff post_form_def err_simps split: if_splits)
  from verify_id_token_Inr [OF v] obtain claims j where
    d: "decode_token (lg_jwt L) (lg_jwks L) bad_identity_token token (li_jwks s) = (Inr claims, j)"
    and s': "li_jwks s' = j" "li_posts s' = Suc (li_posts s)"
    and c: "check_login_claims C nonce claims = Inr (ic_subject c)" "ic_issuer c = id_issuer C"
      "login_times_ok (lg_skew L) (lg_now L (li_readings s)) claims" by auto
  from decode_token_Inr [OF d] check_login_claims_Inr [OF c(1)] r t s' c(2,3) show ?thesis by blast
qed

text \<open>A provider whose token endpoint answers with a token for the code, and a key set with the key of the
  samples of \<open>Auth\<close>.\<close>

definition sample_login_env :: "nat login_env" where
  "sample_login_env = \<lparr>lg_jwt = sample_jwt\<lparr>jwt_decode := (\<lambda>token k. if k = 7 then Some (JObj [(''iss'', JStr ''i''),
        (''aud'', JArr [JStr ''c'']), (''azp'', JStr ''c''), (''nonce'', JStr ''n''), (''sub'', JStr token), (''exp'', JInt 10),
        (''iat'', JInt 4)]) else None),
      body_json := (\<lambda>body. Some (JObj [(''id_token'', JStr ''t''), (''keys'', JArr [JObj [(''kty'', JStr ''RSA''), (''kid'', JStr ''k'')]])]))\<rparr>,
     lg_jwks = sample_jc, lg_post = (\<lambda>n form. Some []), lg_now = (\<lambda>n. 5), lg_skew = 0\<rparr>"

definition sample_identity_config :: identity_config where
  "sample_identity_config = \<lparr>id_issuer = ''i'', id_jwks_url = [], id_authorization = [], id_token_endpoint = [],
     id_client = ''c'', id_redirect = ''r'', id_timeout = 5, id_max_bytes = 100\<rparr>"

lemma sample_login:
  "\<exists>s'. complete_callback sample_login_env sample_identity_config ''x'' ''n'' ''v'' ''r''
      \<lparr>li_jwks = no_keys, li_ready = True, li_posts = 0, li_readings = 0\<rparr> = (Inr \<lparr>ic_issuer = ''i'', ic_subject = ''t''\<rparr>, s')"
  by (simp add: complete_callback_def sample_login_env_def sample_identity_config_def post_form_def token_response_def
      verify_id_token_def on_jwks_def check_login_claims_def check_nonce_def digest_equal_def check_login_times_def
      id_audience_matches_def MAX_IDENTITY_TOKEN_LENGTH_def ord_of_def auth_eval Let_def)

lemma login_claims_verified_witness:
  "\<exists>s' claims. fst (complete_callback sample_login_env sample_identity_config ''x'' ''n'' ''v'' ''r''
      \<lparr>li_jwks = no_keys, li_ready = True, li_posts = 0, li_readings = 0\<rparr>) = Inr \<lparr>ic_issuer = ''i'', ic_subject = ''t''\<rparr>
    \<and> map_of (jk_keys (li_jwks (s' :: nat login))) ''k'' = Some (7 :: nat)
    \<and> jget claims ''nonce'' = Some (JStr ''n'') \<and> jget claims ''sub'' = Some (JStr ''t'')"
proof -
  from sample_login obtain s' where run: "complete_callback sample_login_env sample_identity_config ''x'' ''n'' ''v'' ''r''
      \<lparr>li_jwks = no_keys, li_ready = True, li_posts = 0, li_readings = 0\<rparr> = (Inr \<lparr>ic_issuer = ''i'', ic_subject = ''t''\<rparr>, s')"
    by blast
  from login_claims_verified [OF run] obtain token header kid key claims where
    f: "unverified_header (lg_jwt sample_login_env) token = Some header" "jget header ''kid'' = Some (JStr kid)"
      "map_of (jk_keys (li_jwks s')) kid = Some key" "jwt_decode (lg_jwt sample_login_env) token key = Some claims"
      "jget claims ''nonce'' = Some (JStr ''n'')" "jget claims ''sub'' = Some (JStr ''t'')" by auto
  from f(1,2,4) have "kid = ''k''" "key = 7"
    by (auto simp: sample_login_env_def sample_jwt_def split: if_splits)
  with run f show ?thesis by auto
qed

end
