(* ===== verification/Slack.thy ===== *)
theory Slack
  imports Broker Audit_Log Auth
begin

text \<open>
  The Slack edge of \<open>slack.py\<close>: its bounds on a request, the policy of the connection, the two validators it
  hands to the broker, the search, and saving a search as an artifact. Instants are microseconds, as
  \<open>iso_parse\<close> gives them.
\<close>

section \<open>Bounds\<close>

definition SLACK_SEARCH_TOOL :: string where "SLACK_SEARCH_TOOL = ''slack.search''"
definition MAX_SLACK_QUERY_LENGTH :: nat where "MAX_SLACK_QUERY_LENGTH = 500"
definition MAX_SLACK_CHANNEL_LENGTH :: nat where "MAX_SLACK_CHANNEL_LENGTH = 255"
definition MAX_SLACK_TIME_LENGTH :: nat where "MAX_SLACK_TIME_LENGTH = 64"
definition MAX_SLACK_MESSAGES :: nat where "MAX_SLACK_MESSAGES = 50"
definition MAX_SLACK_MESSAGE_LENGTH :: nat where "MAX_SLACK_MESSAGE_LENGTH = 20000"
definition MAX_SLACK_ARTIFACT_BYTES :: nat where "MAX_SLACK_ARTIFACT_BYTES = 512 * 1024"
definition MAX_SLACK_RANGE :: int where "MAX_SLACK_RANGE = 31 * 24 * 3600 * 1000000"
definition MAX_SLACK_POLICY_CHANNELS :: nat where "MAX_SLACK_POLICY_CHANNELS = 128"

definition slack_error :: "string \<Rightarrow> py_exn" where
  "slack_error m = FolioError (''Slack '' @ m)"

definition slack_text :: "json \<Rightarrow> string \<Rightarrow> nat \<Rightarrow> py_exn + string" where
  "slack_text v field maximum =
     (case v of
        JStr s \<Rightarrow>
          if s = [] \<or> length s > maximum \<or> list_ex (\<lambda>c. ord_of c < 32 \<and> ord_of c \<notin> {9, 10, 13}) s
          then Inl (slack_error (field @ '' is invalid'')) else Inr s
      | _ \<Rightarrow> Inl (slack_error (field @ '' is invalid'')))"

definition slack_timestamp :: "env \<Rightarrow> json \<Rightarrow> string \<Rightarrow> py_exn + int" where
  "slack_timestamp E v field =
     ebind (slack_text v field MAX_SLACK_TIME_LENGTH) (\<lambda>s.
     case iso_parse E (replace_z s) of
       None \<Rightarrow> Inl (slack_error (field @ '' must be an ISO-8601 timestamp''))
     | Some (t, zone) \<Rightarrow>
         if \<not> zone then Inl (slack_error (field @ '' must include a timezone''))
         else if t < 0 \<or> int MAX_INSTANT \<le> t then Inl (OtherError ''date value out of range'')
         else Inr t)"

record slack_bounds =
  sb_channel :: string
  sb_start :: int
  sb_end :: int
  sb_query :: string
  sb_limit :: int

definition slack_bounds_of ::
    "env \<Rightarrow> string \<Rightarrow> string \<Rightarrow> string \<Rightarrow> string \<Rightarrow> int \<Rightarrow> py_exn + slack_bounds" where
  "slack_bounds_of E channel start_time end_time qtext limit =
     ebind (slack_text (JStr channel) ''channel'' MAX_SLACK_CHANNEL_LENGTH) (\<lambda>channel.
     ebind (guard_raise (list_ex is_space channel) (slack_error ''channel is invalid'')) (\<lambda>_.
     ebind (slack_timestamp E (JStr start_time) ''start_time'') (\<lambda>start.
     ebind (slack_timestamp E (JStr end_time) ''end_time'') (\<lambda>finish.
     ebind (guard_raise (finish \<le> start) (slack_error ''end_time must be after start_time'')) (\<lambda>_.
     ebind (guard_raise (finish - start > MAX_SLACK_RANGE)
       (slack_error ''time range exceeds the approved maximum'')) (\<lambda>_.
     ebind (slack_text (JStr qtext) ''query'' MAX_SLACK_QUERY_LENGTH) (\<lambda>qtext.
     ebind (guard_raise (limit < 1 \<or> int MAX_SLACK_MESSAGES < limit)
       (slack_error (''limit must be between 1 and '' @ nat_text MAX_SLACK_MESSAGES))) (\<lambda>_.
     Inr \<lparr>sb_channel = channel, sb_start = start, sb_end = finish, sb_query = qtext, sb_limit = limit\<rparr>))))))))"

text \<open>The policy: the approved channels and the longest range, in microseconds.\<close>

definition slack_policy :: "json \<Rightarrow> py_exn + string list \<times> int" where
  "slack_policy policy =
     (case policy of
        JObj [] \<Rightarrow> Inl (slack_error ''connection policy is missing'')
      | JObj kvs \<Rightarrow>
          if set (map fst kvs) \<noteq> {''slack''} then Inl (slack_error ''connection policy is invalid'')
          else (case map_of kvs ''slack'' of
            Some (JObj p) \<Rightarrow>
              if set (map fst p) \<noteq> {''channels'', ''max_time_range_seconds''}
              then Inl (slack_error ''connection policy is invalid'')
              else (case map_of p ''channels'' of
                Some (JArr cs) \<Rightarrow>
                  if cs = [] \<or> length cs > MAX_SLACK_POLICY_CHANNELS then Inl (slack_error ''channel policy is invalid'')
                  else ebind (emap_list (\<lambda>c. slack_text c ''approved channel'' MAX_SLACK_CHANNEL_LENGTH) cs) (\<lambda>channels.
                    if \<not> distinct channels \<or> list_ex (list_ex is_space) channels
                    then Inl (slack_error ''channel policy is invalid'')
                    else (case map_of p ''max_time_range_seconds'' of
                      Some (JInt n) \<Rightarrow>
                        if n < 1 \<or> n * 1000000 > MAX_SLACK_RANGE then Inl (slack_error ''time-range policy is invalid'')
                        else Inr (channels, n * 1000000)
                    | _ \<Rightarrow> Inl (slack_error ''time-range policy is invalid'')))
              | _ \<Rightarrow> Inl (slack_error ''channel policy is invalid''))
          | _ \<Rightarrow> Inl (slack_error ''connection policy is missing''))
      | _ \<Rightarrow> Inl (slack_error ''connection policy is invalid''))"

text \<open>\<open>isoformat()\<close> in UTC with a final Z: microseconds only when there are any.\<close>

definition wire_timestamp :: "int \<Rightarrow> string" where
  "wire_timestamp t = (let us = nat t; s = us div 1000000 in
     date_text (civil (s div 60 div 60 div 24)) @ ''T'' @ pad 2 (s div 60 div 60 mod 24) @ '':''
       @ pad 2 (s div 60 mod 60) @ '':'' @ pad 2 (s mod 60)
       @ (if us mod 1000000 = 0 then [] else CHR ''.'' # pad 6 (us mod 1000000)) @ ''Z'')"

section \<open>Messages\<close>

record slack_message =
  sm_id :: string
  sm_channel :: string
  sm_timestamp :: string
  sm_text :: string

definition outside_bounds :: py_exn where
  "outside_bounds = slack_error ''search returned a message outside its resource bounds''"

definition one_message :: "env \<Rightarrow> slack_bounds \<Rightarrow> json \<Rightarrow> py_exn + slack_message" where
  "one_message E q item =
     (if \<not> jis_obj item then Inl (slack_error ''search returned an invalid message'')
      else ebind (slack_text (jget_none item ''id'') ''message id'' 255) (\<lambda>mid.
        ebind (slack_text (jget_none item ''channel'') ''message channel'' MAX_SLACK_CHANNEL_LENGTH) (\<lambda>channel.
        ebind (slack_text (jget_none item ''timestamp'') ''message timestamp'' MAX_SLACK_TIME_LENGTH) (\<lambda>stamp.
        ebind (slack_text (jget_none item ''text'') ''message text'' MAX_SLACK_MESSAGE_LENGTH) (\<lambda>body.
        ebind (slack_timestamp E (JStr stamp) ''message timestamp'') (\<lambda>t.
        ebind (guard_raise (channel \<noteq> sb_channel q \<or> t < sb_start q \<or> sb_end q \<le> t) outside_bounds) (\<lambda>_.
        Inr \<lparr>sm_id = mid, sm_channel = channel, sm_timestamp = wire_timestamp t, sm_text = body\<rparr>)))))))"

text \<open>The loop over the items, with what it has so far: a message seen before is skipped, and the loop ends
  at the limit.\<close>

fun collect_messages ::
    "env \<Rightarrow> slack_bounds \<Rightarrow> json list \<Rightarrow> slack_message list \<Rightarrow> py_exn + slack_message list" where
  "collect_messages E q [] found = Inr found"
| "collect_messages E q (item # items) found =
     ebind (one_message E q item) (\<lambda>m.
     if sm_id m \<in> sm_id ` set found then collect_messages E q items found
     else if int (Suc (length found)) = sb_limit q then Inr (found @ [m])
     else collect_messages E q items (found @ [m]))"

definition slack_messages :: "env \<Rightarrow> slack_bounds \<Rightarrow> json \<Rightarrow> py_exn + slack_message list" where
  "slack_messages E q raw =
     (case (if jis_obj raw then jget_none raw ''messages'' else raw) of
        JArr items \<Rightarrow>
          if int (length items) > sb_limit q
          then Inl (slack_error ''search returned more messages than requested'')
          else collect_messages E q items []
      | _ \<Rightarrow> Inl (slack_error ''search returned an invalid message list''))"

section \<open>The validators\<close>

definition validate_policy :: "slack_bounds \<Rightarrow> connection \<Rightarrow> py_exn option" where
  "validate_policy q c =
     (case slack_policy (cn_policy c) of
        Inl e \<Rightarrow> Some e
      | Inr (channels, longest) \<Rightarrow>
          if sb_channel q \<notin> set channels
          then Some (validation_error ''Slack channel is not approved'' ''slack_channel_denied'' ''denied'' True)
          else if sb_end q - sb_start q > longest
          then Some (validation_error ''Slack time range exceeds the approved maximum'' ''slack_time_range_denied'' ''denied'' True)
          else None)"

definition validate_result :: "env \<Rightarrow> slack_bounds \<Rightarrow> json \<Rightarrow> py_exn option" where
  "validate_result E q raw =
     (case slack_messages E q raw of
        Inr _ \<Rightarrow> None
      | Inl e \<Rightarrow> let m = error_text e in
          if \<not> is_folio_error e then Some e
          else Some (validation_error m
            (if contains ''more messages than requested'' m then ''slack_result_over_limit''
             else if contains ''outside its resource bounds'' m then ''slack_result_out_of_bounds''
             else ''slack_result_invalid'') ''failed'' True))"

section \<open>Search and save\<close>

definition slack_arguments :: "slack_bounds \<Rightarrow> json" where
  "slack_arguments q = JObj [(''channel'', JStr (sb_channel q)), (''start_time'', JStr (wire_timestamp (sb_start q))),
     (''end_time'', JStr (wire_timestamp (sb_end q))), (''query'', JStr (sb_query q)), (''limit'', JInt (sb_limit q))]"

record slack_search =
  ss_connection :: string
  ss_channel :: string
  ss_start :: string
  ss_end :: string
  ss_query :: string
  ss_policy_version :: string
  ss_messages :: "slack_message list"
  ss_count :: nat

text \<open>The policy version is the one of the connection the first validator was shown; the registry's row
  cannot change between the check and this read.\<close>

definition policy_version_seen :: "database \<Rightarrow> string \<Rightarrow> string \<Rightarrow> string" where
  "policy_version_seen db tenant cid =
     (case external_row db tenant cid of Inr c \<Rightarrow> x_policy_version (cn_row c) | Inl _ \<Rightarrow> ''external-mcp-v1'')"

definition search_internal ::
    "env \<Rightarrow> broker_env \<Rightarrow> string \<Rightarrow> string \<Rightarrow> string \<Rightarrow> string \<Rightarrow> string \<Rightarrow> string \<Rightarrow> string \<Rightarrow> int \<Rightarrow>
     (broker, slack_search) action" where
  "search_internal E B tenant actor cid channel start_time end_time qtext limit =
     mbind (mlift (slack_bounds_of E channel start_time end_time qtext limit)) (\<lambda>q.
     mbind (mget (\<lambda>b. policy_version_seen (w_db (bk_world b)) tenant cid)) (\<lambda>version.
     mbind (broker_call_tool E B tenant actor cid SLACK_SEARCH_TOOL (slack_arguments q)
       (validate_policy q) (validate_result E q)) (\<lambda>raw.
     mbind (mlift (slack_messages E q raw)) (\<lambda>messages.
     mret \<lparr>ss_connection = cid, ss_channel = sb_channel q, ss_start = wire_timestamp (sb_start q),
           ss_end = wire_timestamp (sb_end q), ss_query = sb_query q, ss_policy_version = version,
           ss_messages = messages, ss_count = length messages\<rparr>))))"

definition artifact_body :: "env \<Rightarrow> slack_search \<Rightarrow> py_exn + bytes" where
  "artifact_body E s =
     (let lines = [''# Slack approved search'', [], ''Channel: '' @ ss_channel s,
          ''Time range: '' @ ss_start s @ '' to '' @ ss_end s,
          ''Query fingerprint: sha256:'' @ sha256_hex E (utf8 (ss_query s)), []]
          @ map (\<lambda>m. ''- '' @ sm_timestamp m @ '' ('' @ sm_id m @ ''): '' @ sm_text m) (ss_messages s);
          body = utf8 (join_with [CHR 0x0A] lines @ [CHR 0x0A]) in
      if length body > MAX_SLACK_ARTIFACT_BYTES then Inl (slack_error ''saved artifact exceeds the allowed size'')
      else Inr body)"

definition source_context :: "env \<Rightarrow> slack_search \<Rightarrow> json" where
  "source_context E s = JObj [(''interface'', JStr ''approved-slack-search''), (''provider'', JStr ''slack''),
     (''connection_id'', JStr (ss_connection s)), (''channel'', JStr (ss_channel s)),
     (''start_time'', JStr (ss_start s)), (''end_time'', JStr (ss_end s)),
     (''query_hash'', JStr (sha256_hex E (utf8 (ss_query s)))), (''policy_version'', JStr (ss_policy_version s)),
     (''message_ids'', JArr (map (JStr \<circ> sm_id) (ss_messages s)))]"

record slack_saved =
  sl_artifact :: artifact_view
  sl_version :: version_view
  sl_source :: json
  sl_count :: nat

definition save_internal ::
    "env \<Rightarrow> broker_env \<Rightarrow> string \<Rightarrow> string \<Rightarrow> string \<Rightarrow> string \<Rightarrow> string \<Rightarrow> string \<Rightarrow> string \<Rightarrow> string \<Rightarrow> int \<Rightarrow>
     string \<Rightarrow> (broker, slack_saved) action" where
  "save_internal E B tenant actor cid name channel start_time end_time qtext limit reason =
     mbind (mlift (slack_text (JStr name) ''artifact name'' 255)) (\<lambda>name.
     mbind (mlift (slack_text (JStr reason) ''reason'' 2000)) (\<lambda>_.
     mbind (search_internal E B tenant actor cid channel start_time end_time qtext limit) (\<lambda>s.
     mbind (mlift (artifact_body E s)) (\<lambda>data.
     mbind (on_world (create_artifact E tenant name data (Some ''text/markdown'') actor ''approved Slack search''
       (Some (source_context E s)))) (\<lambda>(a, v).
     mret \<lparr>sl_artifact = a, sl_version = v, sl_source = source_context E s, sl_count = ss_count s\<rparr>)))))"

section \<open>The authenticated edge\<close>

definition edge_identity :: "principal option \<Rightarrow> string list \<Rightarrow> string list \<Rightarrow> py_exn + string \<times> string" where
  "edge_identity p required any_scope =
     (case p of
        None \<Rightarrow> Inl (FolioError ''operation not permitted'')
      | Some p \<Rightarrow>
          if list_ex (\<lambda>s. s \<notin> set (p_scopes p)) required
            \<or> (any_scope \<noteq> [] \<and> \<not> list_ex (\<lambda>s. s \<in> set (p_scopes p)) any_scope)
          then Inl (FolioError ''operation not permitted'') else Inr (p_tenant p, p_actor p))"

definition edge_search ::
    "env \<Rightarrow> broker_env \<Rightarrow> principal option \<Rightarrow> string \<Rightarrow> string \<Rightarrow> string \<Rightarrow> string \<Rightarrow> string \<Rightarrow> int \<Rightarrow>
     (broker, slack_search) action" where
  "edge_search E B p cid channel start_time end_time qtext limit =
     mbind (mlift (edge_identity p [''artifact:search''] [])) (\<lambda>(tenant, actor).
     search_internal E B tenant actor cid channel start_time end_time qtext limit)"

definition edge_save ::
    "env \<Rightarrow> broker_env \<Rightarrow> principal option \<Rightarrow> string \<Rightarrow> string \<Rightarrow> string \<Rightarrow> string \<Rightarrow> string \<Rightarrow> string \<Rightarrow> int \<Rightarrow> string \<Rightarrow>
     (broker, slack_saved) action" where
  "edge_save E B p cid name channel start_time end_time qtext limit reason =
     mbind (mlift (edge_identity p [''artifact:write''] [''artifact:search'', ''artifact:read''])) (\<lambda>(tenant, actor).
     save_internal E B tenant actor cid name channel start_time end_time qtext limit reason)"

section \<open>What a search returns\<close>

definition message_ok :: "slack_bounds \<Rightarrow> slack_message \<Rightarrow> bool" where
  "message_ok q m \<longleftrightarrow> sm_channel m = sb_channel q \<and> sm_id m \<noteq> [] \<and> length (sm_text m) \<le> MAX_SLACK_MESSAGE_LENGTH
     \<and> (\<exists>t. sm_timestamp m = wire_timestamp t \<and> sb_start q \<le> t \<and> t < sb_end q)"

lemma slack_text_Inr: "slack_text v field maximum = Inr s \<Longrightarrow> v = JStr s \<and> s \<noteq> [] \<and> length s \<le> maximum"
  by (auto simp: slack_text_def split: json.splits if_splits)

lemma one_message_ok: "one_message E q item = Inr m \<Longrightarrow> message_ok q m"
  by (auto simp: one_message_def err_simps message_ok_def not_less not_le dest!: slack_text_Inr split: if_splits)

lemma collect_messages_ok:
  assumes "collect_messages E q items found = Inr ms" and "int (length found) < sb_limit q"
    and "distinct (map sm_id found)" "\<forall>m \<in> set found. message_ok q m"
  shows "int (length ms) \<le> sb_limit q \<and> distinct (map sm_id ms) \<and> (\<forall>m \<in> set ms. message_ok q m)"
  using assms
proof (induction items arbitrary: found)
  case (Cons item items)
  from Cons.prems(1) obtain m where m: "one_message E q item = Inr m" by (auto simp: ebind_Inr_iff)
  note new = one_message_ok [OF m]
  consider "sm_id m \<in> sm_id ` set found" | "sm_id m \<notin> sm_id ` set found" "int (Suc (length found)) = sb_limit q"
    | "sm_id m \<notin> sm_id ` set found" "int (Suc (length found)) \<noteq> sb_limit q" by blast
  then show ?case
  proof cases
    case 1 with Cons m show ?thesis by simp
  next
    case 2 with Cons.prems m new show ?thesis by auto
  next
    case 3
    with Cons.prems m new show ?thesis by (intro Cons.IH [of "found @ [m]"]) auto
  qed
qed auto

lemma slack_messages_ok:
  assumes "slack_messages E q raw = Inr ms" "1 \<le> sb_limit q"
  shows "int (length ms) \<le> sb_limit q \<and> distinct (map sm_id ms) \<and> (\<forall>m \<in> set ms. message_ok q m)"
proof -
  from assms(1) obtain items where "collect_messages E q items [] = Inr ms"
    by (auto simp: slack_messages_def split: json.splits if_splits)
  from collect_messages_ok [OF this] assms(2) show ?thesis by simp
qed

lemma slack_bounds_Inr:
  assumes "slack_bounds_of E channel start_time end_time qtext limit = Inr q"
  shows "sb_channel q = channel \<and> sb_query q = qtext \<and> sb_limit q = limit \<and> 1 \<le> limit \<and> limit \<le> int MAX_SLACK_MESSAGES
    \<and> sb_start q < sb_end q \<and> sb_end q - sb_start q \<le> MAX_SLACK_RANGE"
  using assms by (auto simp: slack_bounds_of_def err_simps not_less not_le dest!: slack_text_Inr)

lemma validate_policy_None:
  assumes "validate_policy q c = None"
  obtains channels longest where "slack_policy (cn_policy c) = Inr (channels, longest)" "sb_channel q \<in> set channels"
    "sb_end q - sb_start q \<le> longest"
  using assms by (auto simp: validate_policy_def split: sum.splits prod.splits if_splits)

section \<open>Properties\<close>

text \<open>C32: The Slack edge stays within what was approved: a search that returns came from a principal with the
  search scope, went to exactly one upstream call of \<open>slack.search\<close> with the bounded arguments, over an
  active connection of the principal's tenant that allows the tool and whose policy approves the channel and
  the time range; and it returns at most the requested number of messages, without duplicates, each of the
  channel and within the time range.\<close>

theorem slack_results_in_bounds:
  assumes "edge_search E B p cid channel start_time end_time qtext limit b = (Inr s, b')"
  shows "\<exists>pr q x channels longest call. p = Some pr \<and> ''artifact:search'' \<in> set (p_scopes pr)
    \<and> slack_bounds_of E channel start_time end_time qtext limit = Inr q
    \<and> sb_end q - sb_start q \<le> MAX_SLACK_RANGE \<and> limit \<le> int MAX_SLACK_MESSAGES
    \<and> external_row (w_db (bk_world b)) (p_tenant pr) cid = Inr x \<and> x_status (cn_row x) = ''active''
    \<and> SLACK_SEARCH_TOOL \<in> set (cn_tools x) \<and> slack_policy (cn_policy x) = Inr (channels, longest)
    \<and> channel \<in> set channels \<and> sb_end q - sb_start q \<le> longest
    \<and> bk_calls b' = bk_calls b @ [call] \<and> up_request call = UpTool SLACK_SEARCH_TOOL (slack_arguments q)
    \<and> int (length (ss_messages s)) \<le> limit \<and> distinct (map sm_id (ss_messages s))
    \<and> (\<forall>m \<in> set (ss_messages s). message_ok q m)"
proof -
  from assms obtain pr where p: "p = Some pr" "''artifact:search'' \<in> set (p_scopes pr)"
    and run: "search_internal E B (p_tenant pr) (p_actor pr) cid channel start_time end_time qtext limit b = (Inr s, b')"
    by (auto simp: edge_search_def edge_identity_def mbind_Inr_iff mlift_iff split: option.splits if_splits)
  from run obtain q raw where q: "slack_bounds_of E channel start_time end_time qtext limit = Inr q"
    and call: "broker_call_tool E B (p_tenant pr) (p_actor pr) cid SLACK_SEARCH_TOOL (slack_arguments q)
      (validate_policy q) (validate_result E q) b = (Inr raw, b')"
    and ms: "slack_messages E q raw = Inr (ss_messages s)"
    by (auto simp: search_internal_def mbind_Inr_iff mlift_iff mget_def mret_iff)
  note bounds = slack_bounds_Inr [OF q]
  from call_tool_Inr [OF call] obtain x u where x: "external_row (w_db (bk_world b)) (p_tenant pr) cid = Inr x"
    "x_status (cn_row x) = ''active''" "SLACK_SEARCH_TOOL \<in> set (cn_tools x)"
    "up_request u = UpTool SLACK_SEARCH_TOOL (slack_arguments q)" "bk_calls b' = bk_calls b @ [u]"
    and pre: "validate_policy q x = None" by blast
  from validate_policy_None [OF pre] obtain channels longest where pol: "slack_policy (cn_policy x) = Inr (channels, longest)"
    "sb_channel q \<in> set channels" "sb_end q - sb_start q \<le> longest" .
  from slack_messages_ok [OF ms] bounds have
    m: "int (length (ss_messages s)) \<le> limit" "distinct (map sm_id (ss_messages s))" "\<forall>m \<in> set (ss_messages s). message_ok q m"
    by auto
  show ?thesis
    by (intro exI [of _ pr] exI [of _ q] exI [of _ x] exI [of _ channels] exI [of _ longest] exI [of _ u])
      (use p q x pol m bounds in simp)
qed

text \<open>A connection approved for one channel and a minute, an upstream that answers with one message.\<close>

definition slack_sample_policy :: json where
  "slack_sample_policy = JObj [(''slack'', JObj [(''channels'', JArr [JStr ''C'']), (''max_time_range_seconds'', JInt 60)])]"

definition slack_connection :: connection where
  "slack_connection = \<lparr>cn_row = sample_connection\<lparr>x_tools := json_list_text [''slack.search''], x_policy_json := dumps slack_sample_policy\<rparr>,
     cn_tools = [''slack.search''], cn_resources = [], cn_origins = [''https://a.b''], cn_policy = slack_sample_policy\<rparr>"

definition slack_broker :: broker where
  "slack_broker = sample_broker\<lparr>bk_world := registry_world\<lparr>w_db := (w_db registry_world)\<lparr>t_connections := [cn_row slack_connection]\<rparr>\<rparr>\<rparr>"

definition slack_answer :: json where
  "slack_answer = JObj [(''messages'', JArr [JObj [(''id'', JStr ''m''), (''channel'', JStr ''C''),
     (''timestamp'', JStr ''aaa''), (''text'', JStr ''hi'')]])]"

definition slack_upstream :: broker_env where
  "slack_upstream = sample_broker_env\<lparr>be_upstream := (\<lambda>n call. Inr slack_answer)\<rparr>"

definition slack_asked :: slack_bounds where
  "slack_asked = \<lparr>sb_channel = ''C'', sb_start = 3, sb_end = 4, sb_query = ''q'', sb_limit = 5\<rparr>"

lemma slack_row: "external_row (w_db (bk_world slack_broker)) ''t'' ''c'' = Inr slack_connection"
proof -
  have "loads (dumps slack_sample_policy) = Some slack_sample_policy" by (rule loads_dumps) (simp add: slack_sample_policy_def dict_ok_def)
  then have "external_policy_dict (dumps slack_sample_policy) = Inr slack_sample_policy"
    by (simp add: external_policy_dict_def) (simp add: slack_sample_policy_def EXTERNAL_POLICY_KEYS_def)
  then show ?thesis
    by (simp add: external_row_Inr list_text_round find_connection_def slack_broker_def slack_connection_def sample_connection_def)
qed

lemma slack_bounds_sample: "slack_bounds_of env0 ''C'' ''aaa'' ''aaaa'' ''q'' 5 = Inr slack_asked"
  by (simp add: slack_bounds_of_def slack_text_def slack_timestamp_def env0_def replace_z_def MAX_INSTANT_def guard_raise_def
      MAX_SLACK_RANGE_def MAX_SLACK_MESSAGES_def MAX_SLACK_CHANNEL_LENGTH_def MAX_SLACK_TIME_LENGTH_def MAX_SLACK_QUERY_LENGTH_def
      is_space_def ord_of_def slack_asked_def)

lemma slack_answer_checked: "\<exists>m. slack_messages env0 slack_asked slack_answer = Inr [m]" "validate_policy slack_asked slack_connection = None"
  by (simp_all add: slack_messages_def slack_answer_def slack_asked_def jget_none_def one_message_def slack_text_def slack_timestamp_def
      env0_def replace_z_def MAX_INSTANT_def guard_raise_def MAX_SLACK_MESSAGE_LENGTH_def MAX_SLACK_CHANNEL_LENGTH_def MAX_SLACK_TIME_LENGTH_def
      ord_of_def is_space_def validate_policy_def slack_policy_def slack_connection_def slack_sample_policy_def MAX_SLACK_POLICY_CHANNELS_def
      MAX_SLACK_RANGE_def ebind_Inr_iff)

lemma first_day: "civil 0 = (1, 1, 1)"
  by (simp add: civil_def year_of_def days_before_year_def month_lengths_def Let_def)

lemma slack_pads: "pad 2 0 = ''00''" "pad 2 1 = ''01''" "pad 4 1 = ''0001''" "pad 6 3 = ''000003''" "pad 6 4 = ''000004''"
  by code_simp+

lemma slack_times: "wire_timestamp 3 = ''0001-01-01T00:00:00.000003Z''" "wire_timestamp 4 = ''0001-01-01T00:00:00.000004Z''"
  by (simp_all add: wire_timestamp_def Let_def first_day date_text_def slack_pads slack_pads [unfolded One_nat_def])

lemma slack_sizes: "\<exists>d. dumps_strict (slack_arguments slack_asked) = Some d \<and> length (utf8 d) \<le> 1000"
  "\<exists>d. dumps_strict slack_answer = Some d \<and> length (utf8 d) \<le> 1000"
proof -
  have "length (utf8 (render (JObj [(''channel'', JStr ''C''), (''start_time'', JStr ''0001-01-01T00:00:00.000003Z''),
     (''end_time'', JStr ''0001-01-01T00:00:00.000004Z''), (''query'', JStr ''q''), (''limit'', JInt 5)]))) \<le> 1000"
    "length (utf8 (render slack_answer)) \<le> 1000" by code_simp+
  then show "\<exists>d. dumps_strict (slack_arguments slack_asked) = Some d \<and> length (utf8 d) \<le> 1000"
    "\<exists>d. dumps_strict slack_answer = Some d \<and> length (utf8 d) \<le> 1000"
    by (simp_all add: dumps_strict_def slack_arguments_def slack_asked_def slack_times slack_answer_def)
qed

lemma slack_facts: "x_status (cn_row slack_connection) = ''active''" "cn_tools slack_connection = [''slack.search'']"
  "broker_credential slack_upstream slack_connection = Inr None"
  by (simp_all add: slack_connection_def sample_connection_def broker_credential_def)

lemma slack_guarded:
  assumes "bk_world b = bk_world slack_broker"
  shows "\<exists>call. guarded_call env0 slack_upstream ''t'' ''c'' slack_connection (UpTool SLACK_SEARCH_TOOL (slack_arguments slack_asked))
      (validate_policy slack_asked) (validate_result env0 slack_asked) b = (Inr slack_answer, b\<lparr>bk_calls := bk_calls b @ [call]\<rparr>)"
proof -
  have row: "external_row (w_db (bk_world b)) ''t'' ''c'' = Inr slack_connection" using assms slack_row by simp
  then have "fenced_call slack_upstream ''t'' ''c'' req None b = upstream slack_upstream
      \<lparr>up_endpoint = x_endpoint (cn_row slack_connection), up_request = req, up_credential = None\<rparr> b" for req
    by (simp add: fenced_call_def external_call_fence_def broker_eval transact_def query_or_raise_def slack_facts)
  moreover obtain d where "dumps_strict slack_answer = Some d" "length (utf8 d) \<le> 1000" using slack_sizes(2) by blast
  ultimately show ?thesis using slack_answer_checked
    by (auto simp: guarded_call_def mbind_def mlift_def mret_def adapter_verdict_def slack_facts upstream_def validate_result_def
        bounded_result_def guard_raise_def MAX_EXTERNAL_RESULT_BYTES_def slack_upstream_def [THEN arg_cong [of _ _ be_upstream]])
qed

lemma slack_recorded:
  assumes "bk_world b = bk_world slack_broker"
  shows "\<exists>w'. try_record_call env0 ''t'' ''c'' ''a'' act out why tool uri b = (Inr True, b\<lparr>bk_world := w'\<rparr>)"
  using assms by (auto simp: try_record_call_def record_external_call_def on_world_def registry_eval slack_broker_def
      registry_world_def empty_world_def empty_db_def)

lemma slack_called:
  "\<exists>b'. broker_call_tool env0 slack_upstream ''t'' ''a'' ''c'' SLACK_SEARCH_TOOL (slack_arguments slack_asked)
      (validate_policy slack_asked) (validate_result env0 slack_asked) slack_broker = (Inr slack_answer, b')"
proof -
  obtain d where d: "dumps_strict (slack_arguments slack_asked) = Some d" "length (utf8 d) \<le> 1000" using slack_sizes(1) by blast
  obtain k rate active where a: "admit slack_upstream ''t'' ''a'' ''c'' ''tool'' slack_broker =
      (Inr k, slack_broker\<lparr>bk_rate := rate, bk_reads := 1, bk_active := active\<rparr>)"
    by (simp add: admit_def slack_broker_def sample_broker_def slack_upstream_def sample_broker_env_def dim_allow_def dim_candidates_def
        live_windows_def try_acquire_def active_count_def Let_def)
  let ?b = "slack_broker\<lparr>bk_rate := rate, bk_reads := 1, bk_active := active\<rparr>"
  have auth: "authorize_external_tool env0 ''t'' ''c'' SLACK_SEARCH_TOOL ''a'' (slack_arguments slack_asked) (bk_world slack_broker)
      = (Inr slack_connection, bk_world slack_broker)"
    using d unfolding authorize_external_tool_def
    by (simp add: mbind_def lookup_run strip_def lstrip_def is_space_def ord_of_def slack_row slack_facts
        MAX_EXTERNAL_ARGUMENT_BYTES_def mret_def SLACK_SEARCH_TOOL_def)
  obtain call where g: "guarded_call env0 slack_upstream ''t'' ''c'' slack_connection (UpTool SLACK_SEARCH_TOOL (slack_arguments slack_asked))
      (validate_policy slack_asked) (validate_result env0 slack_asked) ?b = (Inr slack_answer, ?b\<lparr>bk_calls := bk_calls ?b @ [call]\<rparr>)"
    using slack_guarded [of ?b] by auto
  obtain w' where r: "try_record_call env0 ''t'' ''c'' ''a'' ''tool_call'' ''allowed'' ''completed'' (Some SLACK_SEARCH_TOOL) None
      (?b\<lparr>bk_calls := bk_calls ?b @ [call]\<rparr>) = (Inr True, ?b\<lparr>bk_calls := bk_calls ?b @ [call], bk_world := w'\<rparr>)"
    using slack_recorded [of "?b\<lparr>bk_calls := bk_calls ?b @ [call]\<rparr>" "''tool_call''" "''allowed''" "''completed''"
      "Some SLACK_SEARCH_TOOL" None] by auto
  have "\<exists>b'. call_tool_admitted env0 slack_upstream ''t'' ''a'' ''c'' SLACK_SEARCH_TOOL (slack_arguments slack_asked)
      (validate_policy slack_asked) (validate_result env0 slack_asked) ?b = (Inr slack_answer, b')"
    using auth g r by (simp add: call_tool_admitted_def on_world_def recorded_call_def mbind_def mtry_def mret_def)
  with a d show ?thesis
    by (auto simp: broker_call_tool_def while_admitted_def mbind_def mlift_def check_request_size_def guard_raise_def
        MAX_EXTERNAL_REQUEST_BYTES_def mtry_def mret_def split: sum.splits prod.splits)
qed

lemma slack_results_in_bounds_witness:
  "\<exists>s b' call. edge_search env0 slack_upstream (Some \<lparr>p_tenant = ''t'', p_actor = ''a'', p_issuer = [], p_subject = [],
      p_scopes = [''artifact:search'']\<rparr>) ''c'' ''C'' ''aaa'' ''aaaa'' ''q'' 5 slack_broker = (Inr s, b')
    \<and> bk_calls b' = bk_calls slack_broker @ [call] \<and> length (ss_messages s) \<le> 5"
proof -
  let ?p = "\<lparr>p_tenant = ''t'', p_actor = ''a'', p_issuer = [], p_subject = [], p_scopes = [''artifact:search'']\<rparr>"
  obtain b' where "broker_call_tool env0 slack_upstream ''t'' ''a'' ''c'' SLACK_SEARCH_TOOL (slack_arguments slack_asked)
      (validate_policy slack_asked) (validate_result env0 slack_asked) slack_broker = (Inr slack_answer, b')"
    using slack_called by blast
  with slack_answer_checked(1) obtain s where run: "edge_search env0 slack_upstream (Some ?p) ''c'' ''C'' ''aaa'' ''aaaa'' ''q'' 5 slack_broker
      = (Inr s, b')"
    by (auto simp: edge_search_def edge_identity_def search_internal_def slack_bounds_sample mbind_def mlift_def mget_def mret_def)
  from slack_results_in_bounds [OF run] run show ?thesis by auto
qed

end
