(* ===== verification/Http_Requests.thy ===== *)
theory Http_Requests
  imports Identity Mcp_Tools Sessions Relay
begin

text \<open>
  What \<open>server.py\<close> reads of an HTTP request: headers, cookies, the query string, the sign-in destination,
  the length and the chunks of a body; and its checks of URLs and origins. The grammar of
  \<open>http.cookies.SimpleCookie\<close> is a parameter: the cookies of a header, or the exception it raises.
\<close>

section \<open>Constants\<close>

definition MAX_AUTH_QUERY_BYTES :: nat where "MAX_AUTH_QUERY_BYTES = 8 * 1024"
definition MAX_AUTH_QUERY_VALUE :: nat where "MAX_AUTH_QUERY_VALUE = 4 * 1024"
definition MAX_PUBLIC_MCP_TIMEOUT_SECONDS :: rat where "MAX_PUBLIC_MCP_TIMEOUT_SECONDS = 300"
definition INTERNAL_PRINCIPAL_HEADER :: string where "INTERNAL_PRINCIPAL_HEADER = ''x-folio-internal-principal''"
definition SESSION_COOKIE_NAME :: string where "SESSION_COOKIE_NAME = ''__Host-folio_session''"
definition AUTH_STATE_COOKIE_NAME :: string where "AUTH_STATE_COOKIE_NAME = ''__Host-folio_auth_state''"
definition SESSION_COOKIE_PATH :: string where "SESSION_COOKIE_PATH = ''/''"

section \<open>Requests\<close>

text \<open>A message of the ASGI channel: a piece of the body and whether more follows, a disconnect, or nothing
  before the deadline.\<close>

datatype http_message = Chunk bytes bool | Disconnect | Stall

record http_request =
  hq_method :: string
  hq_path :: string
  hq_scheme :: string
  hq_headers :: "(bytes \<times> bytes) list"
  hq_query :: bytes
  hq_client :: "string option"
  hq_messages :: "http_message list"

type_synonym cookie_parser = "string \<Rightarrow> py_exn + (string \<times> string) list"

definition header_values :: "string \<Rightarrow> http_request \<Rightarrow> bytes list" where
  "header_values name Q = map snd (filter (\<lambda>(h, _). map lower_byte h = utf8 name) (hq_headers Q))"

text \<open>\<open>decode("ascii")\<close>; \<open>None\<close> is the \<open>UnicodeDecodeError\<close>.\<close>

definition ascii_text :: "bytes \<Rightarrow> string option" where
  "ascii_text bs = (if list_all (\<lambda>b. unat b < 128) bs then Some (latin1 bs) else None)"

definition header_value :: "string \<Rightarrow> http_request \<Rightarrow> string option" where
  "header_value name Q = (case header_values name Q of [v] \<Rightarrow> ascii_text v | _ \<Rightarrow> None)"

definition client_key :: "http_request \<Rightarrow> string" where
  "client_key Q = (case hq_client Q of Some host \<Rightarrow> host | None \<Rightarrow> ''unknown'')"

definition public_mcp_key :: "http_request \<Rightarrow> principal option \<Rightarrow> string" where
  "public_mcp_key Q p =
     (case p of
        None \<Rightarrow> ''ip:'' @ client_key Q
      | Some p \<Rightarrow> ''identity:'' @ dumps (JArr [JStr (p_tenant p), JStr (p_actor p)]))"

fun split_at :: "char \<Rightarrow> string \<Rightarrow> string list" where
  "split_at c [] = [[]]"
| "split_at c (x # xs) = (case split_at c xs of
     [] \<Rightarrow> [[x]]
   | s # ss \<Rightarrow> if x = c then [] # s # ss else (x # s) # ss)"

text \<open>A cookie counts only if its name occurs exactly once in exactly one header. \<open>CookieError\<close> is not among
  the exceptions the code catches here.\<close>

definition cookie :: "cookie_parser \<Rightarrow> string \<Rightarrow> http_request \<Rightarrow> py_exn + string option" where
  "cookie parse name Q =
     (case header_values ''cookie'' Q of
        [v] \<Rightarrow>
          if length (filter (\<lambda>part. starts_with (name @ ''='') (strip part)) (split_at (CHR '';'') (latin1 v))) \<noteq> 1
          then Inr None
          else (case parse (latin1 v) of
              Inl (ValueError _) \<Rightarrow> Inr None
            | Inl e \<Rightarrow> Inl e
            | Inr cs \<Rightarrow> Inr (case map_of cs name of Some (c # value) \<Rightarrow> Some (c # value) | _ \<Rightarrow> None))
      | _ \<Rightarrow> Inr None)"

definition session_cookie :: "cookie_parser \<Rightarrow> http_request \<Rightarrow> py_exn + string option" where
  "session_cookie parse Q = cookie parse SESSION_COOKIE_NAME Q"

section \<open>Query strings\<close>

definition plus_blank :: "string \<Rightarrow> string" where
  "plus_blank s = map (\<lambda>c. if c = CHR ''+'' then CHR '' '' else c) s"

text \<open>The pairs \<open>parse_qs\<close> collects, in order.\<close>

definition query_pairs :: "env \<Rightarrow> bool \<Rightarrow> string \<Rightarrow> (string \<times> string) list" where
  "query_pairs E keep_blank qs = concat (map (\<lambda>field.
     case partition_at (CHR ''='') field of (name, found, value) \<Rightarrow>
       if field = [] \<or> (\<not> keep_blank \<and> value = []) then []
       else [(unquote E (plus_blank name), unquote E (plus_blank value))]) (split_at (CHR ''&'') qs))"

definition query_values :: "env \<Rightarrow> bool \<Rightarrow> string \<Rightarrow> string \<Rightarrow> string list" where
  "query_values E keep_blank name qs = map snd (filter (\<lambda>(n, _). n = name) (query_pairs E keep_blank qs))"

definition query_value :: "env \<Rightarrow> string \<Rightarrow> http_request \<Rightarrow> string option" where
  "query_value E name Q =
     (if length (hq_query Q) > MAX_AUTH_QUERY_BYTES then None
      else case ascii_text (hq_query Q) of
        None \<Rightarrow> None
      | Some qs \<Rightarrow>
          (case query_values E False name qs of
             [v] \<Rightarrow> if v = [] \<or> length v > MAX_AUTH_QUERY_VALUE then None else Some v
           | _ \<Rightarrow> None))"

definition RETURN_PAGES :: "string list" where
  "RETURN_PAGES = [''inspect'', ''artifacts'', ''standalone'', ''workspace'']"

definition return_char :: "char \<Rightarrow> bool" where
  "return_char c \<longleftrightarrow> 33 \<le> ord_of c \<and> ord_of c < 127 \<and> c \<notin> set [CHR ''?'', CHR ''#'', CHR 0x5C]"

definition safe_return_to :: "string \<Rightarrow> string option" where
  "safe_return_to v =
     (if v = ''/'' then Some ''/''
      else if length v > MAX_AUTH_QUERY_VALUE \<or> \<not> starts_with ''/'' v \<or> starts_with ''//'' v then None
      else case split_at (CHR ''/'') v of
        [_, page, artifact] \<Rightarrow>
          if page \<in> set RETURN_PAGES \<and> artifact \<noteq> [] \<and> list_all return_char artifact then Some v else None
      | _ \<Rightarrow> None)"

definition request_return_to :: "env \<Rightarrow> http_request \<Rightarrow> string \<times> bool" where
  "request_return_to E Q =
     (if length (hq_query Q) > MAX_AUTH_QUERY_BYTES then (''/'', False)
      else case ascii_text (hq_query Q) of
        None \<Rightarrow> (''/'', False)
      | Some qs \<Rightarrow>
          (case query_values E True ''return_to'' qs of
             [] \<Rightarrow> (''/'', True)
           | [v] \<Rightarrow> (case safe_return_to v of Some r \<Rightarrow> (r, True) | None \<Rightarrow> (''/'', False))
           | _ \<Rightarrow> (''/'', False)))"

section \<open>URLs and origins\<close>

text \<open>The constructor's own check of the redirect URI; \<open>urlsplit\<close> may raise.\<close>

definition auth_redirect_uri :: "ip_table \<Rightarrow> string option \<Rightarrow> py_exn + string option" where
  "auth_redirect_uri ip v =
     (case v of
        None \<Rightarrow> Inr None
      | Some v \<Rightarrow>
          if v = [] \<or> length v > MAX_AUTH_QUERY_VALUE \<or> v \<noteq> strip v \<or> list_ex ctrl_char v then Inr None
          else (case urlsplit ip v of
              None \<Rightarrow> Inl (ValueError ''invalid URL'')
            | Some u \<Rightarrow>
                if su_scheme u \<noteq> ''https'' \<or> su_netloc u = [] \<or> hostname u = None \<or> userinfo u \<noteq> (None, None)
                  \<or> su_query u \<noteq> [] \<or> su_fragment u \<noteq> [] \<or> su_path u \<noteq> ''/auth/callback'' \<or> port_of u = None
                then Inr None else Inr (Some v)))"

definition auth_origin :: "ip_table \<Rightarrow> string option \<Rightarrow> py_exn + string option" where
  "auth_origin ip v =
     (case v of
        None \<Rightarrow> Inr None
      | Some v \<Rightarrow>
          (case urlsplit ip v of
              None \<Rightarrow> Inl (ValueError ''invalid URL'')
            | Some u \<Rightarrow>
                if su_scheme u \<noteq> ''https'' \<or> su_netloc u = [] \<or> hostname u = None \<or> port_of u = None then Inr None
                else Inr (Some (su_scheme u @ ''://'' @ su_netloc u))))"

definition valid_provider_url :: "ip_table \<Rightarrow> string \<Rightarrow> py_exn + bool" where
  "valid_provider_url ip v =
     (if v = [] \<or> length v > MAX_AUTH_QUERY_VALUE \<or> v \<noteq> strip v \<or> list_ex ctrl_char v then Inr False
      else case urlsplit ip v of
        None \<Rightarrow> Inl (ValueError ''invalid URL'')
      | Some u \<Rightarrow> Inr (su_scheme u \<in> {''http'', ''https''} \<and> su_netloc u \<noteq> [] \<and> userinfo u = (None, None)
          \<and> su_fragment u = []))"

text \<open>The origin of the request against the configured one.\<close>

definition same_origin :: "ip_table \<Rightarrow> string option \<Rightarrow> string option \<Rightarrow> http_request \<Rightarrow> py_exn + bool" where
  "same_origin ip redirect control Q =
     ebind (auth_origin ip redirect) (\<lambda>from_redirect.
     case (case control of Some c \<Rightarrow> Some c | None \<Rightarrow> from_redirect) of
       None \<Rightarrow> Inr False
     | Some expected \<Rightarrow>
         (case header_values ''origin'' Q of
            [v] \<Rightarrow> (case ascii_text v of None \<Rightarrow> Inr False | Some origin \<Rightarrow> digest_equal origin expected)
          | _ \<Rightarrow> Inr False))"

section \<open>Bodies\<close>

text \<open>\<open>int(...)\<close> of header bytes; \<open>None\<close> is the \<open>ValueError\<close> (no number, or more digits than the limit of
  4300).\<close>

definition byte_space :: "char \<Rightarrow> bool" where
  "byte_space c \<longleftrightarrow> ord_of c = 32 \<or> (9 \<le> ord_of c \<and> ord_of c \<le> 13)"

fun grouped_digits :: "string \<Rightarrow> bool" where
  "grouped_digits [] = False"
| "grouped_digits [c] = is_digit_ascii c"
| "grouped_digits (c # d # s) \<longleftrightarrow> is_digit_ascii c \<and> (grouped_digits (d # s) \<or> (d = CHR ''_'' \<and> grouped_digits s))"

definition int_of_bytes :: "bytes \<Rightarrow> int option" where
  "int_of_bytes bs =
     (let s = rev (dropWhile byte_space (rev (dropWhile byte_space (latin1 bs))));
          sign = (s \<noteq> [] \<and> hd s \<in> set ''+-'');
          body = (if sign then tl s else s);
          digits = filter is_digit_ascii body
      in if \<not> grouped_digits body \<or> length digits > 4300 then None
         else Some (if sign \<and> hd s = CHR ''-'' then - int (digits_value digits) else int (digits_value digits)))"

text \<open>The whole body is read before the application sees it. \<open>Refused\<close>: it grew past the maximum;
  \<open>Late\<close>: the deadline passed; \<open>Complete\<close>: the messages read, and those still in the channel.\<close>

datatype body_read = Refused | Late | Complete "http_message list" "http_message list"

fun read_messages :: "int \<Rightarrow> nat \<Rightarrow> http_message list \<Rightarrow> http_message list \<Rightarrow> body_read" where
  "read_messages maximum body_size seen [] = Late"
| "read_messages maximum body_size seen (Stall # rest) = Late"
| "read_messages maximum body_size seen (Disconnect # rest) = Complete (seen @ [Disconnect]) rest"
| "read_messages maximum body_size seen (Chunk body more_body # rest) =
     (let body_size' = body_size + length body in
      if int body_size' > maximum then Refused
      else if \<not> more_body then Complete (seen @ [Chunk body more_body]) rest
      else read_messages maximum body_size' (seen @ [Chunk body more_body]) rest)"

definition read_body :: "int \<Rightarrow> http_request \<Rightarrow> body_read" where
  "read_body maximum Q =
     (case header_values ''content-length'' Q of
        [v] \<Rightarrow> (case int_of_bytes v of
            Some n \<Rightarrow> if n > maximum then Refused else read_messages maximum 0 [] (hq_messages Q)
          | None \<Rightarrow> read_messages maximum 0 [] (hq_messages Q))
      | _ \<Rightarrow> read_messages maximum 0 [] (hq_messages Q))"

fun chunk_bytes :: "http_message \<Rightarrow> bytes" where
  "chunk_bytes (Chunk body _) = body"
| "chunk_bytes _ = []"

text \<open>What the application behind the check receives: never more than the maximum, and the messages as they
  were sent.\<close>

lemma read_messages_bounded:
  assumes "read_messages maximum n seen msgs = Complete got rest"
    and "length (concat (map chunk_bytes seen)) = n" "int n \<le> maximum"
  shows "got @ rest = seen @ msgs \<and> int (length (concat (map chunk_bytes got))) \<le> maximum"
  using assms by (induction maximum n seen msgs rule: read_messages.induct) (auto simp: Let_def split: if_splits)

lemma read_body_bounded:
  assumes "read_body maximum Q = Complete got rest" "0 \<le> maximum"
  shows "got @ rest = hq_messages Q \<and> int (length (concat (map chunk_bytes got))) \<le> maximum"
proof -
  have "read_messages maximum 0 [] (hq_messages Q) = Complete got rest"
    using assms(1) by (auto simp: read_body_def split: list.splits option.splits if_splits)
  from read_messages_bounded [OF this] assms(2) show ?thesis by simp
qed

text \<open>A sign-in destination is the root or a page of this server.\<close>

definition local_page :: "string \<Rightarrow> bool" where
  "local_page v \<longleftrightarrow> v = ''/'' \<or> (\<exists>page artifact. page \<in> set RETURN_PAGES \<and> artifact \<noteq> []
     \<and> v = ''/'' @ page @ ''/'' @ artifact \<and> list_all return_char artifact \<and> CHR ''/'' \<notin> set artifact)"

lemma split_at_nonempty: "split_at c s \<noteq> []"
proof (induction s)
  case (Cons x xs)
  show ?case by (simp split: list.split)
qed simp

lemma split_at_join: "join_with [c] (split_at c s) = s"
proof (induction s)
  case (Cons x xs)
  obtain s ss where s: "split_at c xs = s # ss" using split_at_nonempty [of c xs] by (cases "split_at c xs") simp_all
  have "join_with [c] (([] :: string) # s # ss) = c # join_with [c] (s # ss)"
    "join_with [c] ((x # s) # ss) = x # join_with [c] (s # ss)" by (cases ss; simp)+
  with Cons s show ?case by simp
qed simp

lemma split_at_free: "p \<in> set (split_at c s) \<Longrightarrow> c \<notin> set p"
  by (induction s arbitrary: p) (auto simp: split_at_nonempty split: list.splits if_splits)

lemma safe_return_to_local:
  assumes "safe_return_to v = Some r"
  shows "r = v \<and> local_page v"
proof (cases "v = ''/''")
  case True
  with assms show ?thesis by (simp add: safe_return_to_def local_page_def)
next
  case False
  with assms have c: "starts_with ''/'' v" "(case split_at (CHR ''/'') v of
      [_, page, artifact] \<Rightarrow> if page \<in> set RETURN_PAGES \<and> artifact \<noteq> [] \<and> list_all return_char artifact then Some v else None
    | _ \<Rightarrow> None) = Some r"
    by (simp_all add: safe_return_to_def split: if_splits)
  from c(2) obtain x page artifact where s: "split_at (CHR ''/'') v = [x, page, artifact]"
    and p: "page \<in> set RETURN_PAGES" "artifact \<noteq> []" "list_all return_char artifact" and r: "r = v"
    by (simp split: list.splits if_splits)
  have v: "v = x @ ''/'' @ page @ ''/'' @ artifact" using split_at_join [of "CHR ''/''" v] s by simp
  have f: "CHR ''/'' \<notin> set x" "CHR ''/'' \<notin> set artifact" using split_at_free [of _ "CHR ''/''" v] s by auto
  from v c(1) f(1) have "x = []" by (cases x) (auto simp: starts_with_def)
  with v p f(2) r show ?thesis
    unfolding local_page_def by (intro conjI disjI2 exI [of _ page] exI [of _ artifact]) simp_all
qed

end
