(* ===== verification/Http_App.thy ===== *)
theory Http_App
  imports Http_Requests Service Schema
begin

text \<open>
  The HTTP application \<open>FolioHttpApp\<close> of \<open>server.py\<close>: routes, sign-in, sign-out, the authentication of a
  request, the limits in front of the MCP endpoint, readiness and metrics. Behind it stand the tools of
  \<open>Mcp_Tools\<close>, the session store of \<open>Sessions\<close>, the relays of \<open>Relay\<close>, the token verifier of \<open>Auth\<close> and the
  hosted login of \<open>Identity\<close>. The MCP library (which tool calls a request asks for, and the response to their
  results) and the browser pages are parameters. Each request is one step: the server is an asynchronous
  program on one thread, and nothing here is awaited between a check and the change it guards.
\<close>

section \<open>Responses\<close>

record set_cookie =
  ck_name :: string
  ck_value :: string
  ck_max_age :: int
  ck_path :: string
  ck_secure :: bool
  ck_httponly :: bool
  ck_samesite :: string

record http_response =
  hr_status :: nat
  hr_headers :: "(string \<times> string) list"
  hr_location :: "string option"
  hr_cookies :: "set_cookie list"
  hr_body :: "json option"

definition json_response :: "nat \<Rightarrow> (string \<times> string) list \<Rightarrow> json \<Rightarrow> http_response" where
  "json_response status headers body = \<lparr>hr_status = status, hr_headers = headers, hr_location = None, hr_cookies = [],
     hr_body = Some body\<rparr>"

definition no_store :: "(string \<times> string) list" where "no_store = [(''Cache-Control'', ''no-store'')]"

definition redirect_response :: "nat \<Rightarrow> string \<Rightarrow> set_cookie list \<Rightarrow> http_response" where
  "redirect_response status location cookies = \<lparr>hr_status = status, hr_headers = no_store, hr_location = Some location,
     hr_cookies = cookies, hr_body = None\<rparr>"

definition lax_cookie :: "string \<Rightarrow> string \<Rightarrow> int \<Rightarrow> set_cookie" where
  "lax_cookie name value max_age = \<lparr>ck_name = name, ck_value = value, ck_max_age = max_age, ck_path = SESSION_COOKIE_PATH,
     ck_secure = True, ck_httponly = True, ck_samesite = ''lax''\<rparr>"

definition error_body :: "string \<Rightarrow> string \<Rightarrow> string \<Rightarrow> bool \<Rightarrow> bool \<Rightarrow> json" where
  "error_body code message request_id retryable reauthenticate =
     JObj [(''code'', JStr code), (''message'', JStr message), (''request_id'', JStr request_id),
       (''retryable'', JBool retryable), (''reauthenticate'', JBool reauthenticate)]"

text \<open>What the application behind the MCP endpoint does with its request: it answers, it passes the deadline
  (before or after its response has begun), or it raises.\<close>

datatype app_outcome = Answered http_response | Deadline bool | Failed py_exn

section \<open>The application's state and parameters\<close>

datatype relay_state = TrustedRelay trusted_relay | SignedRelay signed_relay

datatype served = Context | ByMcp | ByPages | BySignIn | ByOther

text \<open>\<open>hs_served\<close> records, for the theorems, the principal each request was given (\<open>set_request_principal\<close>,
  \<open>Context\<close>) and what was handed on under it.\<close>

record 'k http_state =
  hs_broker :: broker
  hs_sessions :: session_store
  hs_relay :: "relay_state option"
  hs_keys :: "'k jwks"
  hs_login :: "'k login"
  hs_auth_rates :: "(string \<times> rate_limiter) list"
  hs_mcp_rate :: rate_limiter
  hs_mcp_active :: concurrency_limiter
  hs_reads :: nat
  hs_ready :: "bool option"
  hs_failed :: "string list"
  hs_failures :: nat
  hs_recoveries :: nat
  hs_served :: "(served \<times> http_request \<times> principal option \<times> capability_binding option) list"

type_synonym ('k, 'a) http_action = "('k http_state, 'a) action"

record 'k http_env =
  hx_server :: mcp_server
  hx_hosted :: bool
  hx_auth :: "('k jwt_lib \<times> jwks_conf \<times> verifier) option"
  hx_sessions :: "session_conf option"
  hx_login :: "('k login_env \<times> identity_config) option"
  hx_redirect :: "string option"
  hx_control :: "string option"
  hx_max_request :: int
  hx_hsts :: int
  hx_config_ready :: bool
  hx_tenant :: "string option"
  hx_actor :: "string option"
  hx_relay :: relay_env
  hx_cookies :: cookie_parser
  hx_monotonic :: "nat \<Rightarrow> rat"
  hx_time :: "nat \<Rightarrow> rat"
  hx_calls :: "http_request \<Rightarrow> tool_call list"
  hx_reply :: "http_request \<Rightarrow> (py_exn + tool_result) list \<Rightarrow> app_outcome"
  hx_page_calls :: "http_request \<Rightarrow> principal option \<Rightarrow> tool_call list"
  hx_page :: "http_request \<Rightarrow> principal option \<Rightarrow> (py_exn + tool_result) list \<Rightarrow> relay_state option \<Rightarrow>
    (py_exn + http_response) \<times> relay_state option"
  hx_other :: "http_request \<Rightarrow> py_exn + http_response"
  hx_probe :: probe
  hx_backup :: "(nat \<Rightarrow> bool option) option"
  hx_tls :: "(nat \<Rightarrow> bool option) option"

abbreviation "hx_env X \<equiv> sv_env (hx_server X)"
abbreviation "hx_ip X \<equiv> sv_ip (hx_server X)"

definition auth_limit :: "int \<Rightarrow> rate_limiter" where
  "auth_limit n = \<lparr>rl_limit = n, rl_window_seconds = 60, rl_max_keys = 4096, rl_windows = []\<rparr>"

text \<open>The constructor: its checks, and the state it starts from.\<close>

definition http_app_init ::
    "'k http_env \<Rightarrow> rat \<Rightarrow> int \<Rightarrow> int \<Rightarrow> int \<Rightarrow> string option \<Rightarrow> broker \<Rightarrow> session_store \<Rightarrow> relay_state option \<Rightarrow> 'k jwks \<Rightarrow>
     'k login \<Rightarrow> py_exn + 'k http_env \<times> 'k http_state" where
  "http_app_init X timeout rate_limit concurrency per_key redirect b sessions relay keys login =
     (if hx_max_request X < 1 then Inl (ValueError ''max_request_bytes must be positive'')
      else if timeout \<le> 0 \<or> timeout > MAX_PUBLIC_MCP_TIMEOUT_SECONDS
      then Inl (ValueError ''public_mcp_timeout_seconds must be between 0 and 300 seconds'')
      else ebind (auth_redirect_uri (hx_ip X) redirect) (\<lambda>redirect.
        ebind (rate_limiter_init rate_limit 60 4096) (\<lambda>rate.
        ebind (concurrency_limiter_init concurrency per_key 4096) (\<lambda>active.
        if hx_hosted X \<and> hx_auth X = None then Inl (ValueError ''hosted mode requires configured OIDC authentication'')
        else Inr (X\<lparr>hx_redirect := redirect\<rparr>,
          \<lparr>hs_broker = b, hs_sessions = sessions, hs_relay = relay, hs_keys = keys, hs_login = login,
           hs_auth_rates = [(''/auth/start'', auth_limit 10), (''/auth/callback'', auth_limit 20), (''/auth/logout'', auth_limit 20)],
           hs_mcp_rate = rate, hs_mcp_active = active, hs_reads = 0, hs_ready = None, hs_failed = [], hs_failures = 0,
           hs_recoveries = 0, hs_served = []\<rparr>)))))"

section \<open>Parts of the state\<close>

definition on_broker :: "(broker, 'a) action \<Rightarrow> ('k, 'a) http_action" where
  "on_broker m = (\<lambda>s. case m (hs_broker s) of (r, b) \<Rightarrow> (r, s\<lparr>hs_broker := b\<rparr>))"

definition on_sessions :: "(session_store, 'a) action \<Rightarrow> ('k, 'a) http_action" where
  "on_sessions m = (\<lambda>s. case m (hs_sessions s) of (r, t) \<Rightarrow> (r, s\<lparr>hs_sessions := t\<rparr>))"

definition on_keys :: "('k jwks, 'a) action \<Rightarrow> ('k, 'a) http_action" where
  "on_keys m = (\<lambda>s. case m (hs_keys s) of (r, t) \<Rightarrow> (r, s\<lparr>hs_keys := t\<rparr>))"

definition on_login :: "('k login, 'a) action \<Rightarrow> ('k, 'a) http_action" where
  "on_login m = (\<lambda>s. case m (hs_login s) of (r, t) \<Rightarrow> (r, s\<lparr>hs_login := t\<rparr>))"

definition relay_capability :: "'k http_env \<Rightarrow> string \<Rightarrow> ('k, capability option) http_action" where
  "relay_capability X token = (\<lambda>s.
     case hs_relay s of
       None \<Rightarrow> (Inr None, s)
     | Some (TrustedRelay t) \<Rightarrow> (case trusted_resolve_capability (hx_env X) (hx_relay X) token t of
         (r, t') \<Rightarrow> (r, s\<lparr>hs_relay := Some (TrustedRelay t')\<rparr>))
     | Some (SignedRelay t) \<Rightarrow> (case signed_resolve_capability (hx_env X) (hx_relay X) token t of
         (r, t') \<Rightarrow> (r, s\<lparr>hs_relay := Some (SignedRelay t')\<rparr>)))"

definition http_clock :: "(nat \<Rightarrow> rat) \<Rightarrow> ('k, rat) http_action" where
  "http_clock clock = (\<lambda>s. (Inr (clock (hs_reads s)), s\<lparr>hs_reads := Suc (hs_reads s)\<rparr>))"

definition http_db :: "'k http_state \<Rightarrow> database" where
  "http_db s = w_db (bk_world (hs_broker s))"

text \<open>\<open>uuid.uuid4().hex\<close>\<close>

definition fresh_hex :: "'k http_env \<Rightarrow> ('k, string) http_action" where
  "fresh_hex X = on_broker (on_world (\<lambda>w. (Inr (uuid_hex (hx_env X) (w_ids w)), w\<lparr>w_ids := Suc (w_ids w)\<rparr>)))"

section \<open>Errors and their audit\<close>

type_synonym trace = "(string \<times> string) option"

definition http_error ::
    "'k http_env \<Rightarrow> nat \<Rightarrow> string \<Rightarrow> string \<Rightarrow> bool \<Rightarrow> bool \<Rightarrow> (string \<times> string) list \<Rightarrow> string option \<Rightarrow>
     ('k, http_response) http_action" where
  "http_error X status code message retryable reauthenticate headers request_id =
     mbind (case request_id of Some r \<Rightarrow> mret r | None \<Rightarrow> fresh_hex X) (\<lambda>rid.
     mret (json_response status (no_store @ headers) (error_body code message rid retryable reauthenticate)))"

definition correlation_of :: "http_request \<Rightarrow> string \<Rightarrow> string" where
  "correlation_of Q request_id =
     (let given = (case map_of (rev (hq_headers Q)) (utf8 ''x-correlation-id'') of
          Some v \<Rightarrow> ascii_only (latin1 v) | None \<Rightarrow> []) in
      if given = [] \<or> length given > 255 \<or> list_ex ctrl_or_blank given then request_id else given)"

definition audit_actor :: "string option \<Rightarrow> string option \<Rightarrow> string" where
  "audit_actor own configured = (case (case own of Some v \<Rightarrow> Some v | None \<Rightarrow> configured) of
     Some (c # cs) \<Rightarrow> c # cs | _ \<Rightarrow> ''unknown'')"

definition audit_entry ::
    "'k http_env \<Rightarrow> principal option \<Rightarrow> http_request \<Rightarrow> string \<Rightarrow> string \<Rightarrow> nat \<Rightarrow> string \<Rightarrow> audit_request" where
  "audit_entry X p Q event outcome status request_id =
     \<lparr>aq_tenant = audit_actor (map_option p_tenant p) (hx_tenant X), aq_actor = audit_actor (map_option p_actor p) (hx_actor X),
      aq_action = event, aq_outcome = outcome, aq_request = Some request_id,
      aq_correlation = Some (correlation_of Q request_id), aq_resource_type = ''http_route'',
      aq_resource = (if hq_path Q = [] then None else Some (hq_path Q)), aq_reason = event,
      aq_policy = AUDIT_SCHEMA_VERSION, aq_source = ''http'',
      aq_details = Some (JObj [(''status_code'', JInt (int status))]), aq_retention = ''security''\<rparr>"

definition http_audit ::
    "'k http_env \<Rightarrow> trace \<Rightarrow> principal option \<Rightarrow> http_request \<Rightarrow> string \<Rightarrow> string \<Rightarrow> nat \<Rightarrow> string \<Rightarrow> ('k, unit) http_action" where
  "http_audit X T p Q event outcome status request_id =
     mtry (mbind (on_broker (on_world (record_audit_event (hx_env X) T (audit_entry X p Q event outcome status request_id))))
       (\<lambda>_. mret ())) (\<lambda>_. mret ())"

definition public_mcp_error ::
    "'k http_env \<Rightarrow> trace \<Rightarrow> principal option \<Rightarrow> http_request \<Rightarrow> nat \<Rightarrow> string \<Rightarrow> string \<Rightarrow> int \<Rightarrow> bool \<Rightarrow> string \<Rightarrow>
     ('k, http_response) http_action" where
  "public_mcp_error X T p Q status code message wait retryable event =
     mbind (fresh_hex X) (\<lambda>rid.
     mbind (http_audit X T p Q event ''denied'' status rid) (\<lambda>_.
     http_error X status code message retryable False [(''Retry-After'', int_text wait)] (Some rid)))"

section \<open>Rates\<close>

text \<open>The limiters of \<open>server.py\<close> repeat those of \<open>resource_limits.py\<close> line by line.\<close>

definition server_rate_allow :: "rat \<Rightarrow> string \<Rightarrow> rate_limiter \<Rightarrow> (bool \<times> int) \<times> rate_limiter" where
  "server_rate_allow = rate_allow"

definition server_try_acquire :: "string \<Rightarrow> concurrency_limiter \<Rightarrow> bool \<times> concurrency_limiter" where
  "server_try_acquire = try_acquire"

definition server_release :: "string \<Rightarrow> concurrency_limiter \<Rightarrow> concurrency_limiter" where
  "server_release = release"

text \<open>\<open>None\<close>: allowed; otherwise the response that refuses.\<close>

definition route_event :: "string \<Rightarrow> string" where
  "route_event route = map (\<lambda>c. if c = CHR ''/'' then CHR ''_'' else c) (if starts_with ''/'' route then tl route else route)
     @ ''_rate_limited''"

definition check_auth_rate ::
    "'k http_env \<Rightarrow> trace \<Rightarrow> http_request \<Rightarrow> string \<Rightarrow> ('k, http_response option) http_action" where
  "check_auth_rate X T Q route =
     mbind (http_clock (hx_monotonic X)) (\<lambda>now.
     mbind (\<lambda>s. case map_of (hs_auth_rates s) route of
         None \<Rightarrow> (Inl (OtherError route), s)
       | Some l \<Rightarrow> (case server_rate_allow now (client_key Q) l of
           (verdict, l') \<Rightarrow> (Inr verdict, s\<lparr>hs_auth_rates := AList.update route l' (hs_auth_rates s)\<rparr>))) (\<lambda>(allowed, wait).
     if allowed then mret None
     else mbind (fresh_hex X) (\<lambda>rid.
       mbind (http_audit X T None Q (route_event route) ''denied'' 429 rid) (\<lambda>_.
       mbind (http_error X 429 ''auth_rate_limited'' ''Too many authentication requests. Try again later.'' True False
         [(''Retry-After'', int_text wait)] (Some rid)) (\<lambda>r. mret (Some r))))))"

definition check_public_mcp_rate ::
    "'k http_env \<Rightarrow> trace \<Rightarrow> http_request \<Rightarrow> principal option \<Rightarrow> principal option \<Rightarrow> ('k, http_response option) http_action" where
  "check_public_mcp_rate X T Q p context =
     mbind (http_clock (hx_monotonic X)) (\<lambda>now.
     mbind (\<lambda>s. case server_rate_allow now (public_mcp_key Q p) (hs_mcp_rate s) of
         (verdict, l') \<Rightarrow> (Inr verdict, s\<lparr>hs_mcp_rate := l'\<rparr>)) (\<lambda>(allowed, wait).
     if allowed then mret None
     else mbind (public_mcp_error X T context Q 429 ''mcp_rate_limited'' ''Too many MCP requests. Try again later.'' wait
       True ''mcp_rate_limited'') (\<lambda>r. mret (Some r))))"

definition mcp_timeout :: "'k http_env \<Rightarrow> trace \<Rightarrow> principal option \<Rightarrow> http_request \<Rightarrow> ('k, http_response) http_action" where
  "mcp_timeout X T context Q =
     public_mcp_error X T context Q 504 ''mcp_timeout'' ''MCP request timed out. Try again later.'' 1 True ''mcp_timeout''"

text \<open>The request the application behind the check sees (it reads the messages again), or a refusal.\<close>

definition check_public_mcp_body ::
    "'k http_env \<Rightarrow> trace \<Rightarrow> http_request \<Rightarrow> ('k, http_response + http_request) http_action" where
  "check_public_mcp_body X T Q =
     (case read_body (hx_max_request X) Q of
        Complete got rest \<Rightarrow> mret (Inr (Q\<lparr>hq_messages := got @ rest\<rparr>))
      | Refused \<Rightarrow> mbind (public_mcp_error X T None Q 413 ''request_too_large'' ''Request body exceeds the allowed size.'' 0 False
          ''mcp_request_too_large'') (\<lambda>r. mret (Inl r))
      | Late \<Rightarrow> mbind (mcp_timeout X T None Q) (\<lambda>r. mret (Inl r)))"

section \<open>Who is asking\<close>

text \<open>The capability of the internal header must still agree with the membership.\<close>

definition relayed_principal :: "'k http_env \<Rightarrow> database \<Rightarrow> principal \<Rightarrow> py_exn + principal" where
  "relayed_principal X db p =
     (if hx_sessions X = None then Inr p
      else case lookup_membership db (p_issuer p) (p_subject p) of
        Inl (MembershipError _) \<Rightarrow> Inl (AuthenticationError ''internal principal is not active'')
      | Inl e \<Rightarrow> Inl e
      | Inr None \<Rightarrow> Inl (AuthenticationError ''internal principal is not active'')
      | Inr (Some m) \<Rightarrow>
          if m_status m \<noteq> ''active'' \<or> m_tenant m \<noteq> p_tenant p \<or> m_actor m \<noteq> p_actor p
            \<or> \<not> set (p_scopes p) \<subseteq> set (m_scopes m)
          then Inl (AuthenticationError ''internal principal is not active'')
          else Inr \<lparr>p_tenant = m_tenant m, p_actor = m_actor m, p_issuer = m_issuer m, p_subject = m_subject m,
            p_scopes = m_scopes m\<rparr>)"

definition authenticate_context ::
    "'k http_env \<Rightarrow> http_request \<Rightarrow> bool \<Rightarrow> ('k, principal \<times> capability_binding option) http_action" where
  "authenticate_context X Q allow_session =
     (case header_value INTERNAL_PRINCIPAL_HEADER Q of
        Some token \<Rightarrow>
          mbind (mguard (hq_path Q \<noteq> ''/mcp'') (AuthenticationError ''internal principal is limited to MCP'')) (\<lambda>_.
          mbind (mget hs_relay) (\<lambda>relay.
          mbind (mguard (relay = None) (AuthenticationError ''internal principal relay is unavailable'')) (\<lambda>_.
          mbind (relay_capability X token) (\<lambda>found.
          case found of
            None \<Rightarrow> mraise (AuthenticationError ''internal principal is invalid'')
          | Some c \<Rightarrow>
              mbind (mget http_db) (\<lambda>db.
              mbind (mlift (relayed_principal X db (cp_principal c))) (\<lambda>p.
              mret (p, if cb_tool (cp_binding c) = IDENTITY_RELAY_TOOL then None else Some (cp_binding c))))))))
      | None \<Rightarrow>
          mbind (mlift (session_cookie (hx_cookies X) Q)) (\<lambda>session_id.
          case (if allow_session then session_id else None) of
            Some t \<Rightarrow>
              (case hx_sessions X of
                 None \<Rightarrow> mraise (AuthenticationError ''session authentication is unavailable'')
               | Some S \<Rightarrow>
                   mbind (mget http_db) (\<lambda>db.
                   mbind (on_sessions (lookup_session (hx_env X) S db t)) (\<lambda>p.
                   case p of None \<Rightarrow> mraise (AuthenticationError ''session is invalid'') | Some p \<Rightarrow> mret (p, None))))
          | None \<Rightarrow>
              (case hx_auth X of
                 None \<Rightarrow> mraise (AuthenticationError ''authentication is required'')
               | Some (J, C, V) \<Rightarrow>
                   mbind (mget http_db) (\<lambda>db.
                   mbind (http_clock (hx_time X)) (\<lambda>now.
                   mbind (on_keys (Auth.authenticate J C V db now (hq_headers Q))) (\<lambda>p. mret (p, None)))))))"

section \<open>Sign-in\<close>

definition identity_ready :: "'k http_env \<Rightarrow> 'k http_state \<Rightarrow> bool" where
  "identity_ready X s \<longleftrightarrow> hx_login X \<noteq> None \<and> hx_sessions X \<noteq> None \<and> hx_redirect X \<noteq> None \<and> li_ready (hs_login s)"

definition provider_unavailable :: "'k http_env \<Rightarrow> ('k, http_response) http_action" where
  "provider_unavailable X = http_error X 503 ''identity_provider_unavailable''
     ''Sign-in is temporarily unavailable. Try again.'' True False [] None"

definition auth_start :: "'k http_env \<Rightarrow> trace \<Rightarrow> http_request \<Rightarrow> ('k, http_response) http_action" where
  "auth_start X T Q =
     mbind (check_auth_rate X T Q ''/auth/start'') (\<lambda>refused.
     case refused of Some r \<Rightarrow> mret r | None \<Rightarrow>
     mbind (mget (identity_ready X)) (\<lambda>ready.
     if \<not> ready then provider_unavailable X
     else case (request_return_to (hx_env X) Q, hx_sessions X, hx_login X, hx_redirect X) of
       ((return_to, True), Some S, Some (L, C), Some redirect) \<Rightarrow>
         mbind (on_sessions (begin_auth (hx_env X) S return_to redirect AUTH_TRANSACTION_TTL_SECONDS)) (\<lambda>t.
         case ebind (authorization_url C (at_state t) (at_nonce t) (at_challenge t) (at_redirect t)) (\<lambda>url.
             ebind (valid_provider_url (hx_ip X) url) (\<lambda>valid.
             if valid then Inr url else Inl (ValueError ''provider authorization URL is invalid''))) of
           Inl _ \<Rightarrow> mbind (on_sessions (discard_auth (hx_env X) (at_state t))) (\<lambda>_. provider_unavailable X)
         | Inr url \<Rightarrow> mret (redirect_response 302 url [lax_cookie AUTH_STATE_COOKIE_NAME (at_state t) 600]))
     | _ \<Rightarrow> http_error X 400 ''invalid_return_to'' ''The sign-in destination is not available.'' False False [] None))"

definition invalid_callback :: "'k http_env \<Rightarrow> ('k, http_response) http_action" where
  "invalid_callback X = http_error X 400 ''invalid_auth_callback'' ''Sign-in could not be completed.'' False False [] None"

text \<open>The identity the provider vouches for, and the new session.\<close>

definition sign_in ::
    "'k http_env \<Rightarrow> session_conf \<Rightarrow> 'k login_env \<Rightarrow> identity_config \<Rightarrow> string \<Rightarrow> auth_transaction \<Rightarrow> ('k, string) http_action" where
  "sign_in X S L C code t =
     mbind (on_login (complete_callback L C code (at_nonce t) (at_verifier t) (at_redirect t))) (\<lambda>identity.
     mbind (mget http_db) (\<lambda>db.
     on_sessions (create_for_identity (hx_env X) S db (ic_issuer identity) (ic_subject identity))))"

definition auth_callback :: "'k http_env \<Rightarrow> trace \<Rightarrow> http_request \<Rightarrow> ('k, http_response) http_action" where
  "auth_callback X T Q =
     mbind (check_auth_rate X T Q ''/auth/callback'') (\<lambda>refused.
     case refused of Some r \<Rightarrow> mret r | None \<Rightarrow>
     mbind (mget (identity_ready X)) (\<lambda>ready.
     if \<not> ready then provider_unavailable X
     else case (query_value (hx_env X) ''state'' Q, query_value (hx_env X) ''code'' Q, hx_sessions X, hx_login X) of
       (Some state, Some code, Some S, Some (L, C)) \<Rightarrow>
         mbind (mlift (cookie (hx_cookies X) AUTH_STATE_COOKIE_NAME Q)) (\<lambda>state_cookie.
         mbind (mlift (case state_cookie of None \<Rightarrow> Inr False | Some c \<Rightarrow> digest_equal c state)) (\<lambda>same.
         if \<not> same then invalid_callback X else
         mbind (on_sessions (consume_auth (hx_env X) S state)) (\<lambda>transaction.
         case transaction of None \<Rightarrow> invalid_callback X | Some t \<Rightarrow>
         mbind (\<lambda>s. case sign_in X S L C code t s of (r, s') \<Rightarrow> (Inr r, s')) (\<lambda>signed_in.
         case signed_in of
           Inl (AuthenticationError _) \<Rightarrow>
             http_error X 401 ''authentication_failed'' ''Sign-in could not be completed.'' False True [] None
         | Inl _ \<Rightarrow> provider_unavailable X
         | Inr session_id \<Rightarrow>
             mbind (mlift (session_cookie (hx_cookies X) Q)) (\<lambda>old.
             mbind (case old of None \<Rightarrow> mret False | Some t0 \<Rightarrow> on_sessions (revoke_session (hx_env X) S t0)) (\<lambda>_.
             mret (redirect_response 303 (at_return_to t)
               [lax_cookie SESSION_COOKIE_NAME session_id (max 1 \<lfloor>sc_absolute S\<rfloor>),
                lax_cookie AUTH_STATE_COOKIE_NAME [] 0])))))))
     | _ \<Rightarrow> invalid_callback X))"

section \<open>Sign-out and the session of a browser\<close>

definition logout :: "'k http_env \<Rightarrow> trace \<Rightarrow> http_request \<Rightarrow> ('k, http_response) http_action" where
  "logout X T Q =
     mbind (check_auth_rate X T Q ''/auth/logout'') (\<lambda>refused.
     case refused of Some r \<Rightarrow> mret r | None \<Rightarrow>
     mbind (mlift (same_origin (hx_ip X) (hx_redirect X) (hx_control X) Q)) (\<lambda>same.
     if \<not> same then
       mbind (fresh_hex X) (\<lambda>rid.
       mbind (http_audit X T None Q ''logout_csrf_denied'' ''denied'' 403 rid) (\<lambda>_.
       http_error X 403 ''csrf_failed'' ''This sign-out request is not allowed.'' False False [] (Some rid)))
     else
       mbind (mlift (session_cookie (hx_cookies X) Q)) (\<lambda>session_id.
       mbind (case (session_id, hx_sessions X) of
           (Some t, Some S) \<Rightarrow> on_sessions (revoke_session (hx_env X) S t) | _ \<Rightarrow> mret False) (\<lambda>_.
       mbind (fresh_hex X) (\<lambda>rid.
       mbind (http_audit X T None Q ''logout_succeeded'' (if session_id \<noteq> None then ''revoked'' else ''no_session'') 204 rid) (\<lambda>_.
       mret \<lparr>hr_status = 204, hr_headers = no_store, hr_location = None,
         hr_cookies = [lax_cookie SESSION_COOKIE_NAME [] 0], hr_body = None\<rparr>))))))"

definition sign_in_required :: "'k http_env \<Rightarrow> (string \<times> string) list \<Rightarrow> ('k, http_response) http_action" where
  "sign_in_required X headers = http_error X 401 ''authentication_required'' ''Sign-in required. Sign in to continue.''
     False True headers None"

definition me :: "'k http_env \<Rightarrow> http_request \<Rightarrow> ('k, http_response) http_action" where
  "me X Q =
     mbind (\<lambda>s. case authenticate_context X Q True s of (r, s') \<Rightarrow> (Inr r, s')) (\<lambda>r.
     case r of
       Inl (AuthenticationError _) \<Rightarrow> sign_in_required X []
     | Inl e \<Rightarrow> mraise e
     | Inr (p, _) \<Rightarrow> mret (json_response 200 no_store (JObj [(''authenticated'', JBool True),
         (''tenant_id'', JStr (p_tenant p)), (''actor_id'', JStr (p_actor p))])))"

section \<open>Health, readiness, metrics\<close>

definition authentication_name :: "'k http_env \<Rightarrow> string" where
  "authentication_name X = (if hx_auth X \<noteq> None then ''oidc-bearer'' else ''none-local-development'')"

definition health_response :: "'k http_env \<Rightarrow> http_response" where
  "health_response X = json_response 200 [] (JObj [(''status'', JStr ''ok''), (''live'', JBool True),
     (''deployment_mode'', JStr (if hx_hosted X then ''hosted'' else ''local'')),
     (''authentication'', JStr (authentication_name X))])"

text \<open>The dependencies with their verdicts; a monitor that raises is not ready. Of a dependency only its
  \<open>ready\<close> flag is modelled.\<close>

definition monitor_ready :: "(nat \<Rightarrow> bool option) \<Rightarrow> nat \<Rightarrow> bool" where
  "monitor_ready monitor n = (case monitor n of Some b \<Rightarrow> b | None \<Rightarrow> False)"

definition http_dependencies :: "'k http_env \<Rightarrow> 'k http_state \<Rightarrow> (string \<times> bool) list" where
  "http_dependencies X s =
     (let r = readiness (hx_env X) (hx_probe X) in
      [(''database'', rd_database r), (''blob'', rd_blob r), (''migration'', rd_migration r), (''acl'', rd_acl r),
       (''external_mcp'', rd_external r), (''audit'', rd_audit r), (''config'', hx_config_ready X), (''provider'', True),
       (''identity'', (hx_login X = None \<and> hx_redirect X = None) \<or> identity_ready X s)]
      @ (if hx_hosted X then [(''backup_operations'', case hx_backup X of None \<Rightarrow> False | Some m \<Rightarrow> monitor_ready m (hs_reads s))]
         else [])
      @ (case hx_tls X of None \<Rightarrow> [] | Some m \<Rightarrow> [(''tls_certificate'', monitor_ready m (hs_reads s))]))"

definition record_readiness :: "bool \<Rightarrow> string list \<Rightarrow> 'k http_state \<Rightarrow> 'k http_state" where
  "record_readiness ready failed s =
     (let s' = s\<lparr>hs_ready := Some ready, hs_failed := sort failed\<rparr> in
      if hs_ready s = None \<or> hs_ready s = Some ready then s'
      else if ready then s'\<lparr>hs_recoveries := Suc (hs_recoveries s')\<rparr>
      else s'\<lparr>hs_failures := Suc (hs_failures s')\<rparr>)"

definition http_readiness :: "'k http_env \<Rightarrow> ('k, http_response) http_action" where
  "http_readiness X = (\<lambda>s.
     let ds = http_dependencies X s; ready = list_all snd ds;
         s' = record_readiness ready (map fst (filter (\<lambda>d. \<not> snd d) ds)) (s\<lparr>hs_reads := Suc (hs_reads s)\<rparr>)
     in (Inr (json_response (if ready then 200 else 503) [] (JObj [(''status'', JStr (if ready then ''ok'' else ''not_ready'')),
          (''ready'', JBool ready), (''dependencies'', JObj (map (\<lambda>(n, b). (n, JObj [(''ready'', JBool b)])) ds)),
          (''deployment_mode'', JStr (if hx_hosted X then ''hosted'' else ''local'')),
          (''authentication'', JStr (authentication_name X))])), s'))"

text \<open>The figures of the monitors are left out.\<close>

definition http_metrics :: "'k http_state \<Rightarrow> http_response" where
  "http_metrics s =
     (case audit_metrics (http_db s) of (events, denied, exports, purges) \<Rightarrow>
        json_response 200 no_store (JObj [(''audit_events_total'', JInt (int events)), (''audit_events_denied_total'', JInt (int denied)),
          (''audit_exports_total'', JInt (int exports)), (''audit_retention_purges_total'', JInt (int purges)),
          (''readiness_failures_total'', JInt (int (hs_failures s))), (''readiness_recoveries_total'', JInt (int (hs_recoveries s)))]))"

section \<open>The application behind\<close>

definition hand_on ::
    "served \<Rightarrow> http_request \<Rightarrow> principal option \<Rightarrow> capability_binding option \<Rightarrow> ('k, unit) http_action" where
  "hand_on to Q p c = (\<lambda>s. (Inr (), s\<lparr>hs_served := hs_served s @ [(to, Q, p, c)]\<rparr>))"

text \<open>The tool calls of a request, one after the other, each with its own outcome, under the principal and
  the capability of the request.\<close>

fun run_calls :: "'k http_env \<Rightarrow> mcp_request \<Rightarrow> tool_call list \<Rightarrow> ('k, (py_exn + tool_result) list) http_action" where
  "run_calls X R [] = mret []"
| "run_calls X R (call # calls) =
     mbind (\<lambda>s. case on_broker (serve call (hx_server X) R) s of (r, s') \<Rightarrow> (Inr r, s')) (\<lambda>r.
     mbind (run_calls X R calls) (\<lambda>rs. mret (r # rs)))"

definition mcp_app ::
    "'k http_env \<Rightarrow> trace \<Rightarrow> http_request \<Rightarrow> principal option \<Rightarrow> capability_binding option \<Rightarrow> ('k, app_outcome) http_action" where
  "mcp_app X T Q p c =
     mbind (hand_on ByMcp Q p c) (\<lambda>_.
     mbind (run_calls X \<lparr>rq_principal = p, rq_capability = c, rq_trace = T\<rparr> (hx_calls X Q)) (\<lambda>rs.
     mret (hx_reply X Q rs)))"

text \<open>The browser pages call tools in the process itself (the administration client) and issue capabilities
  of the relay for the calls they send to the MCP endpoint.\<close>

definition page_app ::
    "'k http_env \<Rightarrow> trace \<Rightarrow> served \<Rightarrow> http_request \<Rightarrow> principal option \<Rightarrow> capability_binding option \<Rightarrow>
     ('k, http_response option) http_action" where
  "page_app X T to Q p c =
     mbind (hand_on to Q p c) (\<lambda>_.
     mbind (run_calls X \<lparr>rq_principal = p, rq_capability = c, rq_trace = T\<rparr> (hx_page_calls X Q p)) (\<lambda>rs.
     mbind (\<lambda>s. case hx_page X Q p rs (hs_relay s) of (r, relay) \<Rightarrow> (r, s\<lparr>hs_relay := relay\<rparr>)) (\<lambda>r. mret (Some r))))"

definition acquire_slot :: "string \<Rightarrow> ('k, bool) http_action" where
  "acquire_slot key = (\<lambda>s. case server_try_acquire key (hs_mcp_active s) of (ok, l) \<Rightarrow> (Inr ok, s\<lparr>hs_mcp_active := l\<rparr>))"

definition release_slot :: "string \<Rightarrow> ('k, unit) http_action" where
  "release_slot key = (\<lambda>s. (Inr (), s\<lparr>hs_mcp_active := server_release key (hs_mcp_active s)\<rparr>))"

text \<open>\<open>None\<close>: the response had begun when the deadline passed, and nothing more is sent.\<close>

definition mcp_route ::
    "'k http_env \<Rightarrow> trace \<Rightarrow> http_request \<Rightarrow> principal option \<Rightarrow> capability_binding option \<Rightarrow> ('k, http_response option) http_action" where
  "mcp_route X T Q p c =
     mbind (check_public_mcp_rate X T Q p p) (\<lambda>refused.
     case refused of Some r \<Rightarrow> mret (Some r) | None \<Rightarrow>
     let key = public_mcp_key Q p in
     mbind (acquire_slot key) (\<lambda>acquired.
     if \<not> acquired then
       mbind (fresh_hex X) (\<lambda>rid.
       mbind (http_audit X T p Q ''mcp_concurrency_limited'' ''denied'' 429 rid) (\<lambda>_.
       mbind (http_error X 429 ''mcp_concurrency_limited'' ''MCP service is busy. Try again later.'' True False
         [(''Retry-After'', ''1'')] (Some rid)) (\<lambda>r. mret (Some r))))
     else
       mbind (mcp_app X T Q p c) (\<lambda>outcome.
       mbind (case outcome of
           Answered r \<Rightarrow> mret (Inr (Some r))
         | Deadline started \<Rightarrow> if started then mret (Inr None) else mbind (mcp_timeout X T p Q) (\<lambda>r. mret (Inr (Some r)))
         | Failed e \<Rightarrow> mret (Inl e)) (\<lambda>r.
       mbind (release_slot key) (\<lambda>_. mlift r)))))"

section \<open>Routes\<close>

definition PAGE_PREFIXES :: "string list" where
  "PAGE_PREFIXES = [''/inspect/'', ''/artifacts/'', ''/standalone/'', ''/workspace/'']"

definition PAGE_PATHS :: "string list" where
  "PAGE_PATHS = [''/'', ''/api/mcp'', ''/api/admin/mcp'', ''/api/bridge'', ''/connections.css'', ''/connections.js'',
     ''/settings/connections'', ''/ui.css'', ''/ui.js'']"

definition page_route :: "string \<Rightarrow> bool" where
  "page_route path \<longleftrightarrow> path \<in> set PAGE_PATHS \<or> list_ex (\<lambda>prefix. starts_with prefix path) PAGE_PREFIXES"

definition route_on ::
    "'k http_env \<Rightarrow> trace \<Rightarrow> http_request \<Rightarrow> principal option \<Rightarrow> capability_binding option \<Rightarrow> ('k, http_response option) http_action" where
  "route_on X T Q p c =
     (if page_route (hq_path Q) then page_app X T ByPages Q p c
      else if hq_path Q = ''/mcp'' then mcp_route X T Q p c
      else mbind (hand_on ByOther Q p c) (\<lambda>_. mbind (mlift (hx_other X Q)) (\<lambda>r. mret (Some r))))"

text \<open>Authentication comes first whenever it is configured, or the internal header is there and a relay is.\<close>

definition protected_routes :: "'k http_env \<Rightarrow> trace \<Rightarrow> http_request \<Rightarrow> ('k, http_response option) http_action" where
  "protected_routes X T Q =
     mbind (mget hs_relay) (\<lambda>relay.
     if hx_auth X \<noteq> None \<or> (header_value INTERNAL_PRINCIPAL_HEADER Q \<noteq> None \<and> relay \<noteq> None) then
       mbind (\<lambda>s. case authenticate_context X Q (hq_path Q \<noteq> ''/mcp'') s of (r, s') \<Rightarrow> (Inr r, s')) (\<lambda>r.
       case r of
         Inl (AuthenticationError _) \<Rightarrow>
           mbind (if hq_path Q = ''/mcp'' then check_public_mcp_rate X T Q None None else mret None) (\<lambda>refused.
           case refused of Some r \<Rightarrow> mret (Some r) | None \<Rightarrow>
           mbind (sign_in_required X [(''WWW-Authenticate'', ''Bearer'')]) (\<lambda>r. mret (Some r)))
       | Inl e \<Rightarrow> mraise e
       | Inr (p, c) \<Rightarrow> mbind (hand_on Context Q (Some p) c) (\<lambda>_. route_on X T Q (Some p) c))
     else route_on X T Q None None)"

definition http_routes :: "'k http_env \<Rightarrow> trace \<Rightarrow> http_request \<Rightarrow> ('k, http_response option) http_action" where
  "http_routes X T Q =
     (let answer = (\<lambda>m. mbind m (\<lambda>r. mret (Some r))) in
      if hq_method Q = ''GET'' \<and> hq_path Q = ''/sign-in'' then page_app X T BySignIn Q None None
      else if hq_method Q = ''GET'' \<and> hq_path Q = ''/auth/start'' then answer (auth_start X T Q)
      else if hq_method Q = ''GET'' \<and> hq_path Q = ''/auth/callback'' then answer (auth_callback X T Q)
      else if hq_method Q = ''GET'' \<and> hq_path Q = ''/health'' then mret (Some (health_response X))
      else if hq_method Q = ''GET'' \<and> hq_path Q \<in> {''/readyz'', ''/ready''} then answer (http_readiness X)
      else if hq_method Q = ''GET'' \<and> hq_path Q = ''/metrics'' then mget (\<lambda>s. Some (http_metrics s))
      else if hq_method Q = ''GET'' \<and> hq_path Q = ''/v1/me'' then answer (me X Q)
      else if hq_method Q = ''POST'' \<and> hq_path Q = ''/auth/logout'' then answer (logout X T Q)
      else protected_routes X T Q)"

definition handle_http :: "'k http_env \<Rightarrow> trace \<Rightarrow> http_request \<Rightarrow> ('k, http_response option) http_action" where
  "handle_http X T Q =
     (if hq_path Q = ''/mcp'' \<and> hq_method Q = ''POST'' then
        mbind (check_public_mcp_body X T Q) (\<lambda>checked.
        case checked of Inl r \<Rightarrow> mret (Some r) | Inr Q' \<Rightarrow> http_routes X T Q')
      else http_routes X T Q)"

text \<open>\<open>secure_send\<close>: the header of strict transport security, on HTTPS and unless it is there already.\<close>

definition secure_response :: "'k http_env \<Rightarrow> http_request \<Rightarrow> http_response \<Rightarrow> http_response" where
  "secure_response X Q r =
     (if hx_hsts X \<noteq> 0 \<and> hq_scheme Q = ''https'' \<and> \<not> list_ex (\<lambda>(h, _). lower h = ''strict-transport-security'') (hr_headers r)
      then r\<lparr>hr_headers := hr_headers r @ [(''strict-transport-security'',
        ''max-age='' @ int_text (hx_hsts X) @ ''; includeSubDomains'')]\<rparr>
      else r)"

text \<open>One request: two identifiers are drawn for its trace.\<close>

definition http_call :: "'k http_env \<Rightarrow> http_request \<Rightarrow> ('k, http_response option) http_action" where
  "http_call X Q =
     mbind (fresh_hex X) (\<lambda>trace_id.
     mbind (fresh_hex X) (\<lambda>span.
     mbind (handle_http X (Some (trace_id, take 16 span)) Q) (\<lambda>r.
     mret (map_option (secure_response X Q) r))))"

definition http_run :: "'k http_env \<Rightarrow> http_request list \<Rightarrow> 'k http_state \<Rightarrow> 'k http_state" where
  "http_run X = fold (\<lambda>Q s. snd (http_call X Q s))"

end
