(* ===== verification/Http_Relations.thy ===== *)
theory Http_Relations
  imports Http_App
begin

text \<open>
  Relations that every HTTP request respects, because the primitive steps of the application do: locale
  \<open>http_handlers\<close> for the routes in front of authentication, \<open>route_relation\<close> for what runs behind it,
  \<open>http_relation\<close> for whole requests and runs of requests. Interpretations: what the session store keeps, the
  slots of the MCP endpoint, the record of what was handed on, the rows of other tenants.
\<close>

section \<open>From steps to requests\<close>

definition returns_local :: "session_store \<Rightarrow> bool" where
  "returns_local t \<longleftrightarrow> list_all (\<lambda>r. local_page (ar_return_to r)) (ss_auth t)"

text \<open>What the session store may do to the pending sign-ins.\<close>

definition keeps_returns :: "session_store \<Rightarrow> session_store \<Rightarrow> bool" where
  "keeps_returns t t' \<longleftrightarrow> (returns_local t \<longrightarrow> returns_local t')"

interpretation returns: action_relation keeps_returns
  by unfold_locales (auto simp: keeps_returns_def)

text \<open>A step that touches neither the service, the sessions, the slots nor the record.\<close>

definition aside :: "'k http_state \<Rightarrow> 'k http_state \<Rightarrow> bool" where
  "aside s s' \<longleftrightarrow> hs_broker s' = hs_broker s \<and> hs_sessions s' = hs_sessions s \<and> hs_mcp_active s' = hs_mcp_active s
     \<and> hs_served s' = hs_served s"

interpretation aside: action_relation aside
  by unfold_locales (auto simp: aside_def)

locale http_handlers = action_relation R for R :: "'k http_state \<Rightarrow> 'k http_state \<Rightarrow> bool" +
  fixes X :: "'k http_env"
  assumes on_aside: "aside s s' \<Longrightarrow> R s s'"
    and on_fresh: "steps_by R (fresh_hex X)"
    and on_audit: "steps_by R (http_audit X T None Q event outcome status rid)"
    and on_store: "keeps_returns (hs_sessions s) t \<Longrightarrow> session_effects (hx_env X) S (hs_sessions s) t \<Longrightarrow>
      R s (s\<lparr>hs_sessions := t\<rparr>)"
begin

lemma steps_aside: "steps_by aside m \<Longrightarrow> steps_by R m"
  by (auto simp: steps_by_def intro: on_aside)

lemma steps_store: "steps_by keeps_returns m \<Longrightarrow> steps_by (session_effects (hx_env X) S) m \<Longrightarrow> steps_by R (on_sessions m)"
  by (rule steps_byI) (auto simp: on_sessions_def intro!: on_store dest: steps_byD split: prod.splits)

lemma steps_catch: "steps_by R m \<Longrightarrow> steps_by R (\<lambda>s. case m s of (r, s') \<Rightarrow> (Inr (f r), s'))"
  by (rule steps_byI) (auto dest: steps_byD split: prod.splits)

end

locale http_relation = http_handlers R X for R :: "'k http_state \<Rightarrow> 'k http_state \<Rightarrow> bool" and X :: "'k http_env" +
  assumes on_context: "steps_by R (mbind (hand_on Context Q (Some p) c) (\<lambda>_. route_on X T Q (Some p) c))"
    and on_open: "steps_by R (route_on X T Q None None)"
    and on_sign_in: "steps_by R (page_app X T BySignIn Q None None)"

lemma aside_clock: "steps_by aside (http_clock c)"
  by (simp add: steps_by_def http_clock_def aside_def)

lemma aside_keys: "steps_by aside (on_keys m)"
  by (rule steps_byI) (auto simp: on_keys_def aside_def split: prod.splits)

lemma aside_login: "steps_by aside (on_login m)"
  by (rule steps_byI) (auto simp: on_login_def aside_def split: prod.splits)

lemma aside_relay: "steps_by aside (relay_capability X token)"
  by (rule steps_byI) (auto simp: relay_capability_def aside_def split: option.splits relay_state.splits prod.splits)

lemma aside_readiness: "steps_by aside (http_readiness X)"
  by (rule steps_byI) (auto simp: http_readiness_def record_readiness_def aside_def Let_def)

section \<open>What the session store does to pending sign-ins\<close>

lemma returns_same: "(\<And>s r s'. m s = (r, s') \<Longrightarrow> ss_auth s' = ss_auth s) \<Longrightarrow> steps_by keeps_returns m"
  by (rule steps_byI) (simp add: keeps_returns_def returns_local_def)

lemma returns_prims: "steps_by keeps_returns (session_token S)" "steps_by keeps_returns (session_clock S)"
  "steps_by keeps_returns (insert_session_row r)" "steps_by keeps_returns (update_session h f)"
  by (auto intro!: returns_same simp: session_token_def session_clock_def insert_session_row_def update_session_def split: if_splits)

lemma returns_delete: "steps_by keeps_returns (delete_auth P)"
  by (rule steps_byI) (auto simp: delete_auth_def keeps_returns_def returns_local_def list_all_iff)

lemma returns_insert: "local_page (ar_return_to r) \<Longrightarrow> steps_by keeps_returns (insert_auth_row r)"
  by (rule steps_byI) (auto simp: insert_auth_row_def keeps_returns_def returns_local_def split: if_splits)

lemma returns_block: "steps_by keeps_returns m \<Longrightarrow> steps_by keeps_returns (auth_block m)"
  by (rule steps_byI) (auto simp: auth_block_def keeps_returns_def returns_local_def dest: steps_byD split: prod.splits sum.splits)

lemmas returns_intros = returns.steps_intros returns_prims returns_delete returns_block

lemma returns_ops: "steps_by keeps_returns (lookup_session E S db t)" "steps_by keeps_returns (revoke_session E S t)"
  "steps_by keeps_returns (consume_auth E S state)" "steps_by keeps_returns (discard_auth E state)"
  "steps_by keeps_returns (create_for_identity E S db issuer subject)"
  unfolding lookup_session_def resolve_session_def revoke_session_def consume_auth_def discard_auth_def
    create_for_identity_def create_session_def
  by (intro returns_intros)+

lemma returns_begin: "local_page r \<Longrightarrow> steps_by keeps_returns (begin_auth E S r redirect ttl)"
  unfolding begin_auth_def by (intro returns_intros returns_insert) simp

lemma request_return_local: "request_return_to E Q = (r, True) \<Longrightarrow> local_page r"
  by (auto simp: request_return_to_def local_page_def [of "''/''"] dest: safe_return_to_local split: if_splits option.splits list.splits)

lemma lookup_effects: "steps_by (session_effects E S) (lookup_session E S db t)"
  unfolding lookup_session_def by (intro effects.steps_intros resolve_effects)

section \<open>Every request respects the relation\<close>

lemma aside_auth_rate: "steps_by aside (\<lambda>s. case map_of (hs_auth_rates s) route of
      None \<Rightarrow> (Inl (OtherError route), s)
    | Some l \<Rightarrow> (case server_rate_allow now key l of
        (verdict, l') \<Rightarrow> (Inr verdict, s\<lparr>hs_auth_rates := AList.update route l' (hs_auth_rates s)\<rparr>)))"
  by (rule steps_byI) (auto simp: aside_def split: option.splits prod.splits)

lemma aside_mcp_rate: "steps_by aside (\<lambda>s. case server_rate_allow now key (hs_mcp_rate s) of
    (verdict, l') \<Rightarrow> (Inr verdict, s\<lparr>hs_mcp_rate := l'\<rparr>))"
  by (rule steps_byI) (auto simp: aside_def split: prod.splits)

context http_handlers
begin

lemma steps_store_ops: "steps_by R (on_sessions (lookup_session (hx_env X) S db t))"
  "steps_by R (on_sessions (revoke_session (hx_env X) S t))" "steps_by R (on_sessions (consume_auth (hx_env X) S state))"
  "steps_by R (on_sessions (discard_auth (hx_env X) state))"
  "steps_by R (on_sessions (create_for_identity (hx_env X) S db issuer subject))"
  "local_page r \<Longrightarrow> steps_by R (on_sessions (begin_auth (hx_env X) S r redirect ttl))"
  by (rule steps_store [OF _ lookup_effects] steps_store [OF _ revoke_effects] steps_store [OF _ consume_effects]
      steps_store [OF _ discard_effects] steps_store [OF _ create_for_identity_effects] steps_store [OF _ begin_effects];
      simp add: returns_ops returns_begin)+

lemma steps_error: "steps_by R (http_error X status code message retryable reauthenticate headers rid)"
  unfolding http_error_def by (intro steps_intros on_fresh)

lemma steps_refusal: "steps_by R (public_mcp_error X T None Q status code message wait retryable event)"
  unfolding public_mcp_error_def by (intro steps_intros on_fresh on_audit steps_error)

lemma steps_auth_rate: "steps_by R (check_auth_rate X T Q route)"
  unfolding check_auth_rate_def
  by (intro steps_mbind steps_aside [OF aside_clock] steps_aside [OF aside_auth_rate])
    (auto intro!: steps_intros on_fresh on_audit steps_error split: prod.split)

lemma steps_mcp_rate: "steps_by R (check_public_mcp_rate X T Q p None)"
  unfolding check_public_mcp_rate_def
  by (intro steps_mbind steps_aside [OF aside_clock] steps_aside [OF aside_mcp_rate])
    (auto intro!: steps_intros steps_refusal split: prod.split)

lemma steps_body: "steps_by R (check_public_mcp_body X T Q)"
  unfolding check_public_mcp_body_def mcp_timeout_def
  by (cases "read_body (hx_max_request X) Q") (simp_all, (intro steps_intros steps_refusal)+)

lemma steps_context: "steps_by R (authenticate_context X Q allow)"
  unfolding authenticate_context_def
  by (auto intro!: steps_intros steps_store_ops steps_aside [OF aside_relay] steps_aside [OF aside_clock]
      steps_aside [OF aside_keys] split: option.split)

lemma steps_start: "steps_by R (auth_start X T Q)"
proof -
  have b: "steps_by R (on_sessions (begin_auth (hx_env X) S r redirect ttl))" if "request_return_to (hx_env X) Q = (r, True)" for S r redirect ttl
    using request_return_local [OF that] by (rule steps_store_ops)
  show ?thesis
    unfolding auth_start_def provider_unavailable_def
    by (intro steps_mbind steps_auth_rate steps_case_option steps_mret steps_mget steps_if steps_error)
      (auto intro!: steps_intros steps_error steps_store_ops b split: option.split bool.split prod.split sum.split)
qed

lemma steps_callback: "steps_by R (auth_callback X T Q)"
proof -
  have "steps_by R (sign_in X S L C code t)" for S L C code t
    unfolding sign_in_def by (intro steps_intros steps_aside [OF aside_login] steps_store_ops)
  note sign_in = steps_catch [OF this, where f = "\<lambda>r. r"]
  show ?thesis
    unfolding auth_callback_def provider_unavailable_def invalid_callback_def
    by (intro steps_mbind steps_auth_rate steps_case_option steps_mret steps_mget steps_if steps_error)
      (auto intro!: steps_intros steps_error steps_store_ops sign_in split: option.split bool.split prod.split sum.split py_exn.split)
qed

lemma steps_logout: "steps_by R (logout X T Q)"
  unfolding logout_def
  by (auto intro!: steps_intros on_fresh on_audit steps_error steps_auth_rate steps_store_ops split: option.split)

lemma steps_me: "steps_by R (me X Q)"
  unfolding me_def sign_in_required_def
  by (auto intro!: steps_intros steps_error steps_catch [OF steps_context, where f = "\<lambda>r. r"]
      split: sum.split py_exn.split prod.split)

end

context http_relation
begin

lemma steps_protected: "steps_by R (protected_routes X T Q)"
  unfolding protected_routes_def sign_in_required_def
  by (auto intro!: steps_intros steps_error on_open on_context steps_mcp_rate steps_catch [OF steps_context, where f = "\<lambda>r. r"]
      split: sum.split py_exn.split prod.split option.split)

lemma steps_routes: "steps_by R (http_routes X T Q)"
  unfolding http_routes_def Let_def
  by (intro steps_if steps_mbind on_sign_in steps_start steps_callback steps_aside [OF aside_readiness] steps_mget steps_me
      steps_logout steps_protected steps_mret)

lemma call_respects: "steps_by R (http_call X Q)"
  unfolding http_call_def handle_http_def
  by (intro steps_mbind on_fresh steps_if steps_body steps_routes steps_mret) (auto intro: steps_mret steps_routes split: sum.split)

lemma run_respects: "R s (http_run X Qs s)"
proof (induction Qs arbitrary: s)
  case (Cons Q Qs)
  have "R s (snd (http_call X Q s))" using call_respects [of Q] by (simp add: steps_by_def)
  moreover have "R (snd (http_call X Q s)) (http_run X Qs (snd (http_call X Q s)))" by (rule Cons.IH)
  ultimately show ?case unfolding http_run_def fold_simps comp_def by (rule R_trans)
qed (simp add: http_run_def R_refl)

end

section \<open>What the routes behind authentication do\<close>

locale route_relation = action_relation R for R :: "'k http_state \<Rightarrow> 'k http_state \<Rightarrow> bool" +
  fixes X :: "'k http_env" and allowed :: "principal option \<Rightarrow> bool"
  assumes route_aside: "aside s s' \<Longrightarrow> R s s'"
    and route_fresh: "steps_by R (fresh_hex X)"
    and route_record: "allowed p \<Longrightarrow> steps_by R (on_broker (on_world (record_audit_event (hx_env X) T
      (audit_entry X p Q event outcome status rid))))"
    and route_hand: "allowed p \<Longrightarrow> steps_by R (hand_on to Q p c)"
    and route_tool: "allowed p \<Longrightarrow> steps_by R (on_broker (serve call (hx_server X)
      \<lparr>rq_principal = p, rq_capability = c, rq_trace = T\<rparr>))"
begin

lemma route_audit: "allowed p \<Longrightarrow> steps_by R (http_audit X T p Q event outcome status rid)"
  unfolding http_audit_def by (intro steps_intros route_record)

lemma route_calls: "allowed p \<Longrightarrow> steps_by R (run_calls X \<lparr>rq_principal = p, rq_capability = c, rq_trace = T\<rparr> calls)"
proof (induction calls)
  case (Cons call calls)
  have "steps_by R (\<lambda>s. case on_broker (serve call (hx_server X) \<lparr>rq_principal = p, rq_capability = c, rq_trace = T\<rparr>) s of
      (r, s') \<Rightarrow> (Inr r, s'))"
    using route_tool [OF Cons.prems] by (intro steps_byI) (auto dest: steps_byD split: prod.splits)
  with Cons show ?case by (auto intro!: steps_intros)
qed (simp add: steps_mret)

lemma route_mcp_app: "allowed p \<Longrightarrow> steps_by R (mcp_app X T Q p c)"
  unfolding mcp_app_def by (intro steps_intros route_hand route_calls)

lemma route_page: "allowed p \<Longrightarrow> steps_by R (page_app X T to Q p c)"
proof -
  have "steps_by aside (\<lambda>s. case hx_page X Q p rs (hs_relay s) of (r, relay) \<Rightarrow> (r, s\<lparr>hs_relay := relay\<rparr>))" for rs
    by (rule steps_byI) (auto simp: aside_def split: prod.splits)
  then have "steps_by R (\<lambda>s. case hx_page X Q p rs (hs_relay s) of (r, relay) \<Rightarrow> (r, s\<lparr>hs_relay := relay\<rparr>))" for rs
    by (auto simp: steps_by_def intro: route_aside)
  then show "allowed p \<Longrightarrow> steps_by R (page_app X T to Q p c)"
    unfolding page_app_def by (intro steps_intros route_hand route_calls)
qed

lemma route_error: "steps_by R (http_error X status code message retryable reauthenticate headers rid)"
  unfolding http_error_def by (intro steps_intros route_fresh)

lemma route_refusal: "allowed p \<Longrightarrow> steps_by R (public_mcp_error X T p Q status code message wait retryable event)"
  unfolding public_mcp_error_def by (intro steps_intros route_fresh route_audit route_error)

lemma route_rate: "allowed context \<Longrightarrow> steps_by R (check_public_mcp_rate X T Q p context)"
proof -
  have "steps_by R (http_clock c)" for c
    using aside_clock [of c] by (auto simp: steps_by_def intro: route_aside)
  moreover have "steps_by R (\<lambda>s. case server_rate_allow now key (hs_mcp_rate s) of
      (verdict, l') \<Rightarrow> (Inr verdict, s\<lparr>hs_mcp_rate := l'\<rparr>))" for now key
    using aside_mcp_rate [of now key] by (auto simp: steps_by_def intro: route_aside)
  ultimately show "allowed context \<Longrightarrow> steps_by R (check_public_mcp_rate X T Q p context)"
    unfolding check_public_mcp_rate_def by (auto intro!: steps_intros route_refusal split: prod.split)
qed

lemma route_auth_rate: "allowed None \<Longrightarrow> steps_by R (check_auth_rate X T Q route)"
proof -
  have a: "steps_by R (http_clock c)" for c
    using aside_clock [of c] by (auto simp: steps_by_def intro: route_aside)
  have b: "steps_by R (\<lambda>s. case map_of (hs_auth_rates s) route of
      None \<Rightarrow> (Inl (OtherError route), s)
    | Some l \<Rightarrow> (case server_rate_allow now key l of
        (verdict, l') \<Rightarrow> (Inr verdict, s\<lparr>hs_auth_rates := AList.update route l' (hs_auth_rates s)\<rparr>)))" for now key
    using aside_auth_rate [of route now key] by (auto simp: steps_by_def intro: route_aside)
  show "allowed None \<Longrightarrow> steps_by R (check_auth_rate X T Q route)"
    unfolding check_auth_rate_def by (intro steps_mbind a b)
      (auto intro!: steps_intros route_fresh route_audit route_error split: prod.split)
qed

text \<open>What happens between taking a slot and giving it back.\<close>

lemma route_answer: "allowed p \<Longrightarrow> steps_by R (mbind (mcp_app X T Q p c) (\<lambda>outcome. case outcome of
      Answered r \<Rightarrow> mret (Inr (Some r))
    | Deadline started \<Rightarrow> if started then mret (Inr None) else mbind (mcp_timeout X T p Q) (\<lambda>r. mret (Inr (Some r)))
    | Failed e \<Rightarrow> mret (Inl e)))"
  unfolding mcp_timeout_def by (auto intro!: steps_intros route_mcp_app route_refusal split: app_outcome.split)

lemma route_on_steps:
  assumes "allowed p" "\<And>key. steps_by R (acquire_slot key)" "\<And>key. steps_by R (release_slot key)"
  shows "steps_by R (route_on X T Q p c)"
  unfolding route_on_def mcp_route_def mcp_timeout_def Let_def
  using assms by (auto intro!: steps_intros route_page route_hand route_mcp_app route_refusal route_rate route_fresh
    route_audit route_error split: app_outcome.split)

end

lemma on_broker_steps: "steps_by Q m \<Longrightarrow> steps_by (\<lambda>s s'. Q (hs_broker s) (hs_broker s')) (on_broker m)"
  by (rule steps_byI) (auto simp: on_broker_def dest: steps_byD split: prod.splits)

section \<open>Interpretations\<close>

definition world_of :: "'k http_state \<Rightarrow> world" where
  "world_of s = bk_world (hs_broker s)"

lemma fresh_run: "fresh_hex X s = (Inr (uuid_hex (hx_env X) (w_ids (world_of s))),
    s\<lparr>hs_broker := (hs_broker s)\<lparr>bk_world := (world_of s)\<lparr>w_ids := Suc (w_ids (world_of s))\<rparr>\<rparr>\<rparr>)"
  by (simp add: fresh_hex_def on_broker_def on_world_def world_of_def)

text \<open>A relation between sessions, slots or records is not touched by what runs in the service.\<close>

lemma on_broker_frame [simp]: "hs_sessions (snd (on_broker m s)) = hs_sessions s"
  "hs_mcp_active (snd (on_broker m s)) = hs_mcp_active s" "hs_served (snd (on_broker m s)) = hs_served s"
  by (simp_all add: on_broker_def split: prod.split)

interpretation apart_route: route_relation "\<lambda>s s'. hs_sessions s' = hs_sessions s" X "\<lambda>_. True" for X
  by unfold_locales (auto simp: aside_def hand_on_def steps_by_def fresh_hex_def)

lemma apart_route_on: "steps_by (\<lambda>s s'. hs_sessions s' = hs_sessions s) (route_on X T Q p c)"
  by (rule apart_route.route_on_steps [OF TrueI])
    (simp_all add: steps_by_def acquire_slot_def release_slot_def split: prod.split)

text \<open>So what the session store's operations keep, every request keeps.\<close>

lemma http_of_sessions:
  assumes "action_relation K"
    and store: "\<And>t t' S. keeps_returns t t' \<Longrightarrow> session_effects (hx_env X) S t t' \<Longrightarrow> K t t'"
  shows "http_relation (\<lambda>s s'. K (hs_sessions s) (hs_sessions s')) X"
proof -
  have K: "K t t" "K t u \<Longrightarrow> K u v \<Longrightarrow> K t v" for t u v
    using assms(1) by (auto simp: action_relation_def)
  have weaken: "steps_by (\<lambda>s s'. K (hs_sessions s) (hs_sessions s')) m"
    if "steps_by (\<lambda>s s'. hs_sessions s' = hs_sessions s) m" for m :: "('a, 'c) http_action"
    using that K(1) by (auto simp: steps_by_def)
  show ?thesis
  proof
    fix T Q p c
    show "steps_by (\<lambda>s s'. K (hs_sessions s) (hs_sessions s')) (mbind (hand_on Context Q (Some p) c) (\<lambda>_. route_on X T Q (Some p) c))"
      by (intro weaken apart_route.steps_mbind apart_route.route_hand apart_route_on) simp
  qed (auto intro: K store weaken apart_route.route_fresh apart_route.route_audit apart_route_on apart_route.route_page
      simp: aside_def)
qed

interpretation returns_http: http_relation "\<lambda>s s'. keeps_returns (hs_sessions s) (hs_sessions s')" X for X
  by (rule http_of_sessions [OF returns.action_relation_axioms])

text \<open>An ended session stays ended.\<close>

definition keeps_ended :: "string \<Rightarrow> session_store \<Rightarrow> session_store \<Rightarrow> bool" where
  "keeps_ended h t t' \<longleftrightarrow> (row_ended h t \<longrightarrow> row_ended h t')"

interpretation ended: action_relation "keeps_ended h" for h
  by unfold_locales (auto simp: keeps_ended_def)

interpretation ended_http: http_relation "\<lambda>s s'. keeps_ended h (hs_sessions s) (hs_sessions s')" X for h and X
  by (rule http_of_sessions [OF ended.action_relation_axioms]) (auto simp: keeps_ended_def intro: row_ended.effects_inv)

text \<open>The slots: as many in use after a request as before it.\<close>

definition same_mcp_slots :: "concurrency_limiter \<Rightarrow> concurrency_limiter \<Rightarrow> bool" where
  "same_mcp_slots l l' \<longleftrightarrow> (conc_ok l \<longrightarrow> conc_ok l' \<and> cl_total l' = cl_total l \<and> (\<forall>j. active_count l' j = active_count l j))"

interpretation slots_route: route_relation "\<lambda>s s'. hs_mcp_active s' = hs_mcp_active s" X "\<lambda>_. True" for X
  by unfold_locales (auto simp: aside_def hand_on_def steps_by_def fresh_hex_def)

lemma same_mcp_slots_trans: "same_mcp_slots k l \<Longrightarrow> same_mcp_slots l m \<Longrightarrow> same_mcp_slots k m"
  by (simp add: same_mcp_slots_def)

interpretation mcp_slots: action_relation "\<lambda>s s'. same_mcp_slots (hs_mcp_active s) (hs_mcp_active s')"
  by unfold_locales (auto simp: same_mcp_slots_def)

lemma slots_kept: "steps_by (\<lambda>s s'. hs_mcp_active s' = hs_mcp_active s) m \<Longrightarrow>
    steps_by (\<lambda>s s'. same_mcp_slots (hs_mcp_active s) (hs_mcp_active s')) m"
  by (auto simp: steps_by_def same_mcp_slots_def)

definition always_returns :: "('s, 'a) action \<Rightarrow> bool" where
  "always_returns m \<longleftrightarrow> (\<forall>s. \<exists>x s'. m s = (Inr x, s'))"

lemma returns_mbind: "always_returns m \<Longrightarrow> (\<And>x. always_returns (f x)) \<Longrightarrow> always_returns (mbind m f)"
  unfolding always_returns_def mbind_def by (metis (mono_tags, lifting) case_prod_conv old.sum.simps(6))

lemma returns_simple: "always_returns (mret x)" "always_returns (fresh_hex X)" "always_returns (hand_on to Q p c)"
  by (simp_all add: always_returns_def mret_def fresh_run hand_on_def)

lemma returns_audit: "always_returns (http_audit X T p Q event outcome status rid)"
  by (auto simp: always_returns_def http_audit_def mtry_def mbind_def mret_def split: prod.splits sum.splits)

lemma returns_calls: "always_returns (run_calls X R calls)"
proof (induction calls)
  case (Cons call calls)
  have "always_returns (\<lambda>s. case on_broker (serve call (hx_server X) R) s of (r, s') \<Rightarrow> (Inr r, s'))"
    by (auto simp: always_returns_def split: prod.split)
  with Cons show ?case by (auto intro!: returns_mbind returns_simple)
qed (simp add: returns_simple)

lemma returns_error: "always_returns (http_error X status code message retryable reauthenticate headers rid)"
  unfolding http_error_def by (intro returns_mbind) (cases rid, simp_all add: returns_simple)

lemma returns_answer: "always_returns (mbind (mcp_app X T Q p c) (\<lambda>outcome. case outcome of
      Answered r \<Rightarrow> mret (Inr (Some r))
    | Deadline started \<Rightarrow> if started then mret (Inr None) else mbind (mcp_timeout X T p Q) (\<lambda>r. mret (Inr (Some r)))
    | Failed e \<Rightarrow> mret (Inl e)))"
  unfolding mcp_app_def mcp_timeout_def public_mcp_error_def
  by (auto intro!: returns_mbind returns_simple returns_audit returns_calls returns_error split: app_outcome.split)

lemma held_slot:
  assumes "always_returns m" and "steps_by (\<lambda>s s'. hs_mcp_active s' = hs_mcp_active s) m"
    and "steps_by (\<lambda>s s'. hs_mcp_active s' = hs_mcp_active s) n"
  shows "steps_by (\<lambda>s s'. same_mcp_slots (hs_mcp_active s) (hs_mcp_active s')) (mbind (acquire_slot key) (\<lambda>acquired.
    if \<not> acquired then n else mbind m (\<lambda>r. mbind (release_slot key) (\<lambda>_. mlift r))))"
proof (rule steps_byI)
  fix s r s' assume run: "mbind (acquire_slot key) (\<lambda>acquired.
    if \<not> acquired then n else mbind m (\<lambda>r. mbind (release_slot key) (\<lambda>_. mlift r))) s = (r, s')"
  obtain ok l where t: "try_acquire key (hs_mcp_active s) = (ok, l)" by (cases "try_acquire key (hs_mcp_active s)")
  then have a: "acquire_slot key s = (Inr ok, s\<lparr>hs_mcp_active := l\<rparr>)" by (simp add: acquire_slot_def server_try_acquire_def)
  show "same_mcp_slots (hs_mcp_active s) (hs_mcp_active s')"
  proof (cases ok)
    case False
    with t have "l = hs_mcp_active s" by (auto simp: try_acquire_def Let_def split: if_splits)
    with run a False assms(3) show ?thesis by (auto simp: mbind_def same_mcp_slots_def dest: steps_byD)
  next
    case True
    from assms(1) obtain x s1 where m: "m (s\<lparr>hs_mcp_active := l\<rparr>) = (Inr x, s1)"
      unfolding always_returns_def by blast
    with assms(2) have l: "hs_mcp_active s1 = l" by (auto dest: steps_byD)
    from run a True m have "s' = s1\<lparr>hs_mcp_active := release key l\<rparr>"
      by (auto simp: mbind_def release_slot_def mlift_def server_release_def l split: sum.splits)
    moreover have "same_mcp_slots (hs_mcp_active s) (release key l)"
      using acquire_release [OF _ t [unfolded eqTrueI [OF True]]] try_acquire_ok [of "hs_mcp_active s" key] release_ok [of l key] t
      by (simp add: same_mcp_slots_def)
    ultimately show ?thesis by simp
  qed
qed

interpretation slots_http: http_relation "\<lambda>s s'. same_mcp_slots (hs_mcp_active s) (hs_mcp_active s')" X for X
proof -
  note kept = slots_kept [OF slots_route.route_rate [OF TrueI]] slots_kept [OF slots_route.route_page [OF TrueI]]
    slots_kept [OF slots_route.route_hand [OF TrueI]] slots_kept [OF slots_route.route_fresh]
    slots_kept [OF slots_route.route_audit [OF TrueI]] slots_kept [OF slots_route.route_error]
  have busy: "steps_by (\<lambda>s s'. hs_mcp_active s' = hs_mcp_active s) (mbind (fresh_hex X) (\<lambda>rid.
      mbind (http_audit X T p Q event outcome status rid) (\<lambda>_.
      mbind (http_error X code c m b b' h (Some rid)) (\<lambda>r. mret (Some r)))))" for T p Q event outcome status code c m b b' h
    by (intro slots_route.steps_intros slots_route.route_fresh slots_route.route_audit slots_route.route_error) simp
  have "steps_by (\<lambda>s s'. same_mcp_slots (hs_mcp_active s) (hs_mcp_active s')) (mcp_route X T Q p c)" for T Q p c
    unfolding mcp_route_def Let_def
  proof (rule mcp_slots.steps_mbind [OF kept(1)], rule mcp_slots.steps_case_option [OF _ mcp_slots.steps_mret])
    show "steps_by (\<lambda>s s'. same_mcp_slots (hs_mcp_active s) (hs_mcp_active s')) (mbind (acquire_slot (public_mcp_key Q p)) (\<lambda>acquired.
      if \<not> acquired then
        mbind (fresh_hex X) (\<lambda>rid. mbind (http_audit X T p Q ''mcp_concurrency_limited'' ''denied'' 429 rid) (\<lambda>_.
        mbind (http_error X 429 ''mcp_concurrency_limited'' ''MCP service is busy. Try again later.'' True False
          [(''Retry-After'', ''1'')] (Some rid)) (\<lambda>r. mret (Some r))))
      else mbind (mcp_app X T Q p c) (\<lambda>outcome.
        mbind (case outcome of
            Answered r \<Rightarrow> mret (Inr (Some r))
          | Deadline started \<Rightarrow> if started then mret (Inr None) else mbind (mcp_timeout X T p Q) (\<lambda>r. mret (Inr (Some r)))
          | Failed e \<Rightarrow> mret (Inl e)) (\<lambda>r.
        mbind (release_slot (public_mcp_key Q p)) (\<lambda>_. mlift r)))))"
      by (rule held_slot [OF returns_answer slots_route.route_answer [OF TrueI] busy, unfolded mbind_assoc])
  qed
  then have route: "steps_by (\<lambda>s s'. same_mcp_slots (hs_mcp_active s) (hs_mcp_active s')) (route_on X T Q p c)" for T Q p c
    unfolding route_on_def by (intro mcp_slots.steps_intros kept)
  show "http_relation (\<lambda>s s'. same_mcp_slots (hs_mcp_active s) (hs_mcp_active s')) X"
  proof
    fix T Q p c
    show "steps_by (\<lambda>s s'. same_mcp_slots (hs_mcp_active s) (hs_mcp_active s'))
      (mbind (hand_on Context Q (Some p) c) (\<lambda>_. route_on X T Q (Some p) c))"
      by (intro mcp_slots.steps_mbind kept route)
  qed (rule route kept | simp add: aside_def same_mcp_slots_def keeps_returns_def)+
qed

text \<open>The record only grows.\<close>

definition record_grows :: "'k http_state \<Rightarrow> 'k http_state \<Rightarrow> bool" where
  "record_grows s s' \<longleftrightarrow> (\<exists>more. hs_served s' = hs_served s @ more)"

interpretation record_route: route_relation record_grows X "\<lambda>_. True" for X :: "'k http_env"
proof
  fix s t u :: "'k http_state" assume "record_grows s t" "record_grows t u"
  then show "record_grows s u" by (auto simp: record_grows_def)
qed (auto simp: record_grows_def aside_def hand_on_def steps_by_def fresh_hex_def)

lemma record_route_on: "steps_by record_grows (route_on X T Q p c)"
proof (rule record_route.route_on_steps [OF TrueI])
  show "steps_by record_grows (acquire_slot key)" "steps_by record_grows (release_slot key)" for key
    by (simp_all add: steps_by_def acquire_slot_def release_slot_def record_grows_def split: prod.split)
qed

interpretation record_http: http_relation record_grows X for X :: "'k http_env"
  by unfold_locales (rule record_route_on record_route.route_fresh record_route.route_audit [OF TrueI] record_route.route_page [OF TrueI]
    record_route.steps_mbind record_route.route_hand [OF TrueI] | simp add: aside_def record_grows_def)+

text \<open>Whose rows a request may touch: those of the tenant its tools act for, and of the tenant its audit
  entries are filed under.\<close>

definition acts_for :: "'k http_env \<Rightarrow> string \<Rightarrow> principal option \<Rightarrow> bool" where
  "acts_for X u p \<longleftrightarrow> audit_actor (map_option p_tenant p) (hx_tenant X) = u
     \<or> caller_tenant (hx_server X) \<lparr>rq_principal = p, rq_capability = None, rq_trace = None\<rparr> = Some u"

definition spares_state :: "string \<Rightarrow> 'k http_state \<Rightarrow> 'k http_state \<Rightarrow> bool" where
  "spares_state u s s' \<longleftrightarrow> spares u (world_of s) (world_of s')"

interpretation spared_state: action_relation "spares_state u" for u
  by unfold_locales (auto simp: spares_state_def intro: spared.R_refl spared.R_trans)

lemma spares_record:
  assumes "aq_tenant q \<noteq> u" "details_ok (aq_details q)"
  shows "steps_by (spares u) (record_audit_event E T q)"
proof -
  have "steps_by (spares u) (insert_audit_event e)" if "ae_tenant e = aq_tenant q" for e
    unfolding insert_audit_event_def insert_event_row_def using that assms(1)
    by (auto intro!: spares_other simp: rows_of_def event_row_of_def)
  then show ?thesis
    unfolding record_audit_event_def
    by (intro spared.steps_mbind_yields [OF spares_quiet [OF quiet_build] build_yields [OF assms(2)]])
      (intro spared.world_intros spared_store.op_ensure; use assms in simp)
qed

lemma lifts_broker: "steps_by (lifts (spares u)) m \<Longrightarrow> steps_by (spares_state u) (on_broker m)"
  by (rule steps_byI) (auto simp: on_broker_def spares_state_def world_of_def lifts_def dest: steps_byD split: prod.splits)

interpretation spared_route: route_relation "spares_state u" X "\<lambda>p. \<not> acts_for X u p" for u and X :: "'k http_env"
proof
  fix p T Q event outcome status rid call c to
  show "steps_by (spares_state u) (fresh_hex X)"
    by (simp add: steps_by_def fresh_run spares_state_def spares_def world_of_def)
  assume other: "\<not> acts_for X u p"
  have "steps_by (spares u) (record_audit_event (hx_env X) T (audit_entry X p Q event outcome status rid))"
    using other by (intro spares_record) (simp_all add: acts_for_def audit_entry_def details_ok_def dict_ok_def)
  then show "steps_by (spares_state u) (on_broker (on_world (record_audit_event (hx_env X) T (audit_entry X p Q event outcome status rid))))"
    by (intro lifts_broker spared_kept.lift_world)
  show "steps_by (spares_state u) (hand_on to Q p c)"
    by (simp add: steps_by_def hand_on_def spares_state_def world_of_def spares_def)
  show "steps_by (spares_state u) (on_broker (serve call (hx_server X) \<lparr>rq_principal = p, rq_capability = c, rq_trace = T\<rparr>))"
    using other by (intro lifts_broker spared_kept.serve_respects) (auto simp: acts_for_def caller_tenant_def)
qed (auto simp: aside_def spares_state_def world_of_def spares_def)

lemma spared_route_on: "\<not> acts_for X u p \<Longrightarrow> steps_by (spares_state u) (route_on X T Q p c)"
  by (rule spared_route.route_on_steps)
    (simp_all add: steps_by_def acquire_slot_def release_slot_def spares_state_def world_of_def spares_def split: prod.split)

text \<open>Every step records what it does, and spares a tenant for which nothing recorded acts.\<close>

definition isolates :: "'k http_env \<Rightarrow> string \<Rightarrow> 'k http_state \<Rightarrow> 'k http_state \<Rightarrow> bool" where
  "isolates X u s s' \<longleftrightarrow> (\<exists>more. hs_served s' = hs_served s @ more
     \<and> (\<not> acts_for X u None \<longrightarrow> list_all (\<lambda>(to, Q, p, c). \<not> acts_for X u p) more \<longrightarrow> spares_state u s s'))"

lemma isolatesI: "record_grows s s' \<Longrightarrow> (\<not> acts_for X u None \<Longrightarrow> spares_state u s s') \<Longrightarrow> isolates X u s s'"
  by (auto simp: isolates_def record_grows_def)

lemma steps_isolates:
  "steps_by record_grows m \<Longrightarrow> (\<not> acts_for X u None \<Longrightarrow> steps_by (spares_state u) m) \<Longrightarrow> steps_by (isolates X u) m"
  by (rule steps_byI) (auto intro: isolatesI dest: steps_byD)

interpretation isolates_http: http_relation "isolates X u" X for X :: "'k http_env" and u
proof
  fix s t v :: "'k http_state" assume "isolates X u s t" "isolates X u t v"
  then show "isolates X u s v" unfolding isolates_def by (fastforce intro: spared_state.R_trans)
next
  fix s t :: "'k http_state" assume "aside s t"
  then show "isolates X u s t"
    by (intro isolatesI record_route.route_aside) (auto simp: aside_def spares_state_def world_of_def spares_def)
next
  fix T Q p c
  have "steps_by (spares_state u) (mbind (hand_on Context Q (Some p) c) (\<lambda>_. route_on X T Q (Some p) c))" if "\<not> acts_for X u (Some p)"
    using that by (intro spared_state.steps_mbind spared_route.route_hand spared_route_on)
  moreover have "isolates X u s s'" if "acts_for X u (Some p)" "mbind (hand_on Context Q (Some p) c) (\<lambda>_. route_on X T Q (Some p) c) s = (r, s')" for s s' r
  proof -
    from that(2) have "route_on X T Q (Some p) c (s\<lparr>hs_served := hs_served s @ [(Context, Q, Some p, c)]\<rparr>) = (r, s')"
      by (simp add: mbind_def hand_on_def)
    from steps_byD [OF record_route_on this] that(1) show ?thesis by (auto simp: record_grows_def isolates_def)
  qed
  ultimately show "steps_by (isolates X u) (mbind (hand_on Context Q (Some p) c) (\<lambda>_. route_on X T Q (Some p) c))"
    by (cases "acts_for X u (Some p)") (rule steps_byI, blast, rule steps_isolates [OF record_http.on_context], blast)
next
  fix T Q event outcome status rid
  show "steps_by (isolates X u) (fresh_hex X)"
    by (intro steps_isolates record_http.on_fresh spared_route.route_fresh)
  show "steps_by (isolates X u) (http_audit X T None Q event outcome status rid)"
    by (intro steps_isolates record_http.on_audit spared_route.route_audit)
  show "steps_by (isolates X u) (route_on X T Q None None)"
    by (intro steps_isolates record_http.on_open spared_route_on)
  show "steps_by (isolates X u) (page_app X T BySignIn Q None None)"
    by (intro steps_isolates record_http.on_sign_in spared_route.route_page)
next
  fix s :: "'k http_state" and t assume "keeps_returns (hs_sessions s) t"
  show "isolates X u s (s\<lparr>hs_sessions := t\<rparr>)"
    by (rule isolatesI) (simp_all add: record_grows_def spares_state_def world_of_def spares_def)
qed (rule isolatesI, simp_all add: record_grows_def spares_state_def spares_def)

end
