(* ===== verification/Http_Safety.thy ===== *)
theory Http_Safety
  imports Http_Relations
begin

text \<open>
  Properties of the HTTP application over single requests and whole runs: isolation of tenants, sign-in
  destinations, slots of the MCP endpoint, whom a request runs as, completed sign-ins, sign-outs, bodies that
  are too large. The witnesses evaluate requests against a sample server.
\<close>

section \<open>Responses and what went before them\<close>

lemma http_error_run: "http_error X status code message retryable reauthenticate headers rid s = (r, s') \<Longrightarrow>
    (\<exists>x. r = Inr x \<and> hr_status x = status)"
  by (auto simp: http_error_def mbind_def mret_def fresh_run json_response_def split: option.splits)

lemma http_audit_run: "http_audit X T p Q event outcome status rid s = (r, s') \<Longrightarrow> r = Inr ()"
  using returns_audit [of X T p Q event outcome status rid] unfolding always_returns_def by (metis old.unit.exhaust prod.inject)

lemma auth_rate_refusal: "check_auth_rate X T Q route s = (Inr (Some r), s') \<Longrightarrow> hr_status r = 429"
  by (auto simp: check_auth_rate_def err_simps split: if_splits prod.splits dest!: http_error_run)

lemma auth_rate_sessions: "check_auth_rate X T Q route s = (r, s') \<Longrightarrow> hs_sessions s' = hs_sessions s"
  by (rule steps_byD [OF apart_route.route_auth_rate [OF TrueI]])

lemma secure_status [simp]: "hr_status (secure_response X Q r) = hr_status r"
  "hr_location (secure_response X Q r) = hr_location r" "hr_cookies (secure_response X Q r) = hr_cookies r"
  by (simp_all add: secure_response_def)

lemma http_call_routed:
  assumes "http_call X Q s = (Inr (Some r), s')" "hq_path Q \<noteq> ''/mcp'' \<or> hq_method Q \<noteq> ''POST''"
  obtains T s1 r0 where "http_routes X T Q s1 = (Inr (Some r0), s')" "r = secure_response X Q r0"
    "hs_sessions s1 = hs_sessions s" "hs_served s1 = hs_served s" "http_db s1 = http_db s"
    "hs_login s1 = hs_login s"
  using assms by (auto simp: http_call_def handle_http_def err_simps fresh_run http_db_def world_of_def map_option_case
      split: option.splits)

lemma logout_done:
  assumes "logout X T Q s = (Inr r, s')" "hr_status r = 204"
    and t: "session_cookie (hx_cookies X) Q = Inr (Some t)" "hx_sessions X = Some S"
  shows "same_origin (hx_ip X) (hx_redirect X) (hx_control X) Q = Inr True
    \<and> (\<exists>b. revoke_session (hx_env X) S t (hs_sessions s) = (Inr b, hs_sessions s'))"
proof -
  from assms(1) obtain refused s1 where rate: "check_auth_rate X T Q ''/auth/logout'' s = (Inr refused, s1)"
    and go: "(case refused of Some r \<Rightarrow> mret r | None \<Rightarrow>
     mbind (mlift (same_origin (hx_ip X) (hx_redirect X) (hx_control X) Q)) (\<lambda>same.
     if \<not> same then
       mbind (fresh_hex X) (\<lambda>rid.
       mbind (http_audit X T None Q ''logout_csrf_denied'' ''denied'' 403 rid) (\<lambda>_.
       http_error X 403 ''csrf_failed'' ''This sign-out request is not allowed.'' False False [] (Some rid)))
     else
       mbind (mlift (session_cookie (hx_cookies X) Q)) (\<lambda>session_id.
       mbind (case (session_id, hx_sessions X) of
           (Some t, Some S) \<Rightarrow> on_sessions (revoke_session (hx_env X) S t) | _ \<Rightarrow> mret False) (\<lambda>_.
       mbind (fresh_hex X) (\<lambda>rid.
       mbind (http_audit X T None Q ''logout_succeeded'' (if session_id \<noteq> None then ''revoked'' else ''no_session'') 204 rid) (\<lambda>_.
       mret \<lparr>hr_status = 204, hr_headers = no_store, hr_location = None,
         hr_cookies = [lax_cookie SESSION_COOKIE_NAME [] 0], hr_body = None\<rparr>)))))) s1 = (Inr r, s')"
    unfolding logout_def mbind_Inr_iff by blast
  from rate go assms(2) have none: "refused = None" by (auto simp: mret_iff dest: auth_rate_refusal split: option.splits)
  from go none t assms(2) obtain b s2 rid s3 where same: "same_origin (hx_ip X) (hx_redirect X) (hx_control X) Q = Inr True"
    and run: "on_sessions (revoke_session (hx_env X) S t) s1 = (Inr b, s2)" "fresh_hex X s2 = (Inr rid, s3)"
      "http_audit X T None Q ''logout_succeeded'' ''revoked'' 204 rid s3 = (Inr (), s')"
    by (auto simp: err_simps split: if_splits dest!: http_error_run)
  have "hs_sessions s' = hs_sessions s2"
    using run(2) steps_byD [OF apart_route.route_audit [OF TrueI] run(3)] by (auto simp: fresh_run)
  then show ?thesis using same run(1) auth_rate_sessions [OF rate]
    by (auto simp: on_sessions_def split: prod.splits)
qed

lemma revoke_ends:
  assumes "revoke_session E S t u = (Inr b, u')" "usable_token t" "find_session (session_hash E t) u \<noteq> None"
  shows "row_ended (session_hash E t) u'"
proof -
  let ?f = "\<lambda>r. if sr_revoked r = None then r\<lparr>sr_revoked := Some (sc_clock S (ss_reads u))\<rparr> else r"
  from assms have "ss_rows u' = map (\<lambda>r. if sr_hash r = session_hash E t then ?f r else r) (ss_rows u)"
    by (auto simp: revoke_session_def action_defs session_clock_def update_session_def)
  with assms(3) show ?thesis by (auto simp: row_ended_def find_session_def find_session_update)
qed

lemma dead_session_refused:
  assumes "\<not> usable_token t \<or> row_ended (session_hash (hx_env X) t) (hs_sessions s)"
    and "header_value INTERNAL_PRINCIPAL_HEADER Q = None" "session_cookie (hx_cookies X) Q = Inr (Some t)" "hx_sessions X = Some S"
  shows "fst (authenticate_context X Q True s) = Inl (AuthenticationError ''session is invalid'')"
proof -
  have "fst (resolve_session (hx_env X) S db t (hs_sessions s)) = Inr None" for db
  proof (cases "usable_token t")
    case True
    with assms(1) show ?thesis by (intro ended_never_resolves) simp
  qed (simp add: resolve_session_def mret_def)
  then obtain u where u: "resolve_session (hx_env X) S (http_db s) t (hs_sessions s) = (Inr None, u)"
    by (metis prod.collapse)
  show ?thesis
    using assms(2-) u
    by (simp add: authenticate_context_def lookup_session_def mbind_def mlift_def mget_def mret_def mraise_def on_sessions_def)
qed

section \<open>Who a request runs as\<close>

definition active_member :: "database \<Rightarrow> principal \<Rightarrow> bool" where
  "active_member db p \<longleftrightarrow> (\<exists>m. lookup_membership db (p_issuer p) (p_subject p) = Inr (Some m) \<and> m_status m = ''active''
     \<and> m_tenant m = p_tenant p \<and> m_actor m = p_actor p \<and> m_scopes m = p_scopes p)"

lemma active_principal_member: "active_principal db issuer subject = Inr p \<Longrightarrow> active_member db p"
  by (auto simp: active_principal_def active_member_def split: sum.splits option.splits if_splits py_exn.splits)

lemma lookup_identity: "lookup_membership db i u = Inr (Some m) \<Longrightarrow> m_issuer m = i \<and> m_subject m = u"
  using lookup_membership_Some [of db i u m] view_membership_Inr
  by (auto simp: member_row_def find_Some_iff membership_key_def split: option.splits)

lemma relayed_member: "relayed_principal X db p = Inr q \<Longrightarrow> hx_sessions X \<noteq> None \<Longrightarrow> active_member db q"
  by (auto simp: relayed_principal_def active_member_def split: sum.splits option.splits if_splits py_exn.splits)
    (frule lookup_identity, auto)

lemma session_member_active: "session_member db r = Inr (Some m) \<Longrightarrow> active_member db (row_principal r m)"
  by (auto simp: session_member_def active_member_def row_principal_def split: sum.splits option.splits if_splits py_exn.splits)

lemma lookup_member: "lookup_session E S db t u = (Inr (Some p), u') \<Longrightarrow> active_member db p"
  by (auto simp: lookup_session_def resolve_session_def err_simps dest!: session_member_active split: if_splits option.splits)

lemma on_sessions_iff: "on_sessions m s = (r, s') \<longleftrightarrow> (\<exists>t. m (hs_sessions s) = (r, t) \<and> s' = s\<lparr>hs_sessions := t\<rparr>)"
  by (auto simp: on_sessions_def split: prod.splits)

lemma on_keys_iff: "on_keys m s = (r, s') \<longleftrightarrow> (\<exists>t. m (hs_keys s) = (r, t) \<and> s' = s\<lparr>hs_keys := t\<rparr>)"
  by (auto simp: on_keys_def split: prod.splits)

lemma context_member:
  assumes "authenticate_context X Q allow s = (Inr (p, c), s')" "hx_sessions X \<noteq> None"
  shows "active_member (http_db s) p"
proof -
  have db: "http_db s2 = http_db s1" if "relay_capability X token s1 = (r, s2)" for token s1 s2 r
    using steps_byD [OF aside_relay that] by (simp add: aside_def http_db_def)
  from assms show ?thesis
    by (auto simp: authenticate_context_def err_simps on_sessions_iff on_keys_iff http_clock_def http_db_def Auth.authenticate_def
        dest!: db relayed_member lookup_member verify_token_Inr active_principal_member split: option.splits if_splits prod.splits)
qed

text \<open>What one request adds to the record.\<close>

definition adds :: "(principal option \<Rightarrow> bool) \<Rightarrow> 'k http_state \<Rightarrow> 'k http_state \<Rightarrow> bool" where
  "adds P s s' \<longleftrightarrow> (\<exists>more. hs_served s' = hs_served s @ more \<and> list_all (\<lambda>(to, Q, p, c). P p) more)"

lemma adds_trans: "adds P s t \<Longrightarrow> adds P t u \<Longrightarrow> adds P s u"
  by (auto simp: adds_def)

lemma adds_same: "hs_served s' = hs_served s \<Longrightarrow> adds P s s'"
  by (simp add: adds_def)

interpretation adds_route: route_relation "adds P" X P for P :: "principal option \<Rightarrow> bool" and X :: "'k http_env"
  by unfold_locales (auto simp: aside_def fresh_hex_def steps_by_def adds_same hand_on_def intro: adds_trans, auto simp: adds_def)

lemma adds_route_on: "P p \<Longrightarrow> steps_by (adds P) (route_on X T Q p c)"
  by (rule adds_route.route_on_steps) (auto simp: steps_by_def acquire_slot_def release_slot_def adds_same split: prod.split)

interpretation still: action_relation "\<lambda>s s'. hs_served s' = hs_served s"
  by unfold_locales auto

interpretation still_http: http_handlers "\<lambda>s s'. hs_served s' = hs_served s" X for X :: "'k http_env"
proof
  fix T Q event outcome status rid
  have broker: "steps_by (\<lambda>s s'. hs_served s' = hs_served s) (on_broker m)" for m :: "(broker, 'b) action"
    by (simp add: steps_by_def)
  show "steps_by (\<lambda>s s'. hs_served s' = hs_served s) (http_audit X T None Q event outcome status rid)"
    unfolding http_audit_def by (intro still.steps_intros broker)
qed (auto simp: aside_def fresh_hex_def steps_by_def)

lemma mget_run: "mbind (mget g) f s = f (g s) s"
  by (simp add: mbind_def mget_def)

lemma catch_run: "m s = (a, t) \<Longrightarrow> mbind (\<lambda>s. case m s of (r, s') \<Rightarrow> (Inr r, s')) f s = f a t"
  by (simp add: mbind_def)

definition run_as :: "http_request \<Rightarrow> database \<Rightarrow> principal option \<Rightarrow> bool" where
  "run_as Q db p \<longleftrightarrow> (case p of None \<Rightarrow> hq_method Q = ''GET'' \<and> hq_path Q = ''/sign-in'' | Some p \<Rightarrow> active_member db p)"

lemma protected_adds:
  assumes "protected_routes X T Q s = (r, s')" "hx_auth X \<noteq> None" "hx_sessions X \<noteq> None"
  shows "adds (run_as Q (http_db s)) s s'"
proof -
  obtain a s1 where a: "authenticate_context X Q (hq_path Q \<noteq> ''/mcp'') s = (a, s1)" by (metis surj_pair)
  have s1: "hs_served s1 = hs_served s" by (rule steps_byD [OF still_http.steps_context a])
  from assms(1,2) a have go: "(case a of
         Inl (AuthenticationError _) \<Rightarrow>
           mbind (if hq_path Q = ''/mcp'' then check_public_mcp_rate X T Q None None else mret None) (\<lambda>refused.
           case refused of Some r \<Rightarrow> mret (Some r) | None \<Rightarrow>
           mbind (sign_in_required X [(''WWW-Authenticate'', ''Bearer'')]) (\<lambda>r. mret (Some r)))
       | Inl e \<Rightarrow> mraise e
       | Inr (p, c) \<Rightarrow> mbind (hand_on Context Q (Some p) c) (\<lambda>_. route_on X T Q (Some p) c)) s1 = (r, s')"
    by (simp add: protected_routes_def mget_run catch_run [where m = "authenticate_context X Q b" for b, OF a])
  show ?thesis
  proof (cases a)
    case (Inl e)
    have "steps_by (\<lambda>s s'. hs_served s' = hs_served s) (mbind (if hq_path Q = ''/mcp'' then check_public_mcp_rate X T Q None None else mret None) (\<lambda>refused.
           case refused of Some r \<Rightarrow> mret (Some r) | None \<Rightarrow>
           mbind (sign_in_required X [(''WWW-Authenticate'', ''Bearer'')]) (\<lambda>r. mret (Some r))))"
      unfolding sign_in_required_def by (intro still.steps_intros still_http.steps_mcp_rate still_http.steps_error)
    with Inl go s1 show ?thesis by (auto simp: mraise_iff intro!: adds_same dest: steps_byD split: py_exn.splits)
  next
    case (Inr x)
    then obtain p c where x: "a = Inr (p, c)" by (cases x) auto
    from context_member [OF a [unfolded x] assms(3)] have m: "run_as Q (http_db s) (Some p)" by (simp add: run_as_def)
    have "steps_by (adds (run_as Q (http_db s))) (mbind (hand_on Context Q (Some p) c) (\<lambda>_. route_on X T Q (Some p) c))"
      by (intro adds_route.steps_mbind adds_route.route_hand adds_route_on m)
    from steps_byD [OF this] go have "adds (run_as Q (http_db s)) s1 s'" unfolding x by simp
    with s1 show ?thesis by (simp add: adds_def)
  qed
qed

lemma routes_add:
  assumes "http_routes X T Q s = (r, s')" "hx_auth X \<noteq> None" "hx_sessions X \<noteq> None"
  shows "adds (run_as Q (http_db s)) s s'"
proof (cases "hq_method Q = ''GET'' \<and> hq_path Q = ''/sign-in''")
  case True
  have "steps_by (adds (run_as Q (http_db s))) (page_app X T BySignIn Q None None)"
    using True by (intro adds_route.route_page) (simp add: run_as_def)
  with True assms(1) show ?thesis by (auto simp: http_routes_def dest: steps_byD)
next
  case False
  have m: "steps_by (\<lambda>s s'. hs_served s' = hs_served s) (mbind m (\<lambda>r. mret (Some r)))"
    if "steps_by (\<lambda>s s'. hs_served s' = hs_served s) m" for m :: "('a, http_response) http_action"
    using that by (intro still.steps_intros)
  note quiet = m [OF still_http.steps_start] m [OF still_http.steps_callback] m [OF still_http.steps_me] m [OF still_http.steps_logout]
    m [OF still_http.steps_aside [OF aside_readiness]]
  from False assms(1) protected_adds [OF _ assms(2,3)] show ?thesis
    by (auto simp: http_routes_def Let_def mret_iff mget_iff intro!: adds_same dest: steps_byD [OF quiet(1)] steps_byD [OF quiet(2)]
        steps_byD [OF quiet(3)] steps_byD [OF quiet(4)] steps_byD [OF quiet(5)] split: if_splits)
qed

lemma body_checked:
  assumes "check_public_mcp_body X T Q s = (Inr (Inr Q'), s')"
  shows "s' = s \<and> hq_path Q' = hq_path Q \<and> hq_method Q' = hq_method Q"
  using assms by (auto simp: check_public_mcp_body_def mbind_Inr_iff mret_iff split: body_read.splits)

lemma handle_adds:
  assumes "handle_http X T Q s = (r, s')" "hx_auth X \<noteq> None" "hx_sessions X \<noteq> None"
  shows "adds (run_as Q (http_db s)) s s'"
proof (cases "hq_path Q = ''/mcp'' \<and> hq_method Q = ''POST''")
  case False
  with assms(1) routes_add [OF _ assms(2,3)] show ?thesis by (simp add: handle_http_def)
next
  case True
  obtain x y where b: "check_public_mcp_body X T Q s = (x, y)" by (metis surj_pair)
  have y: "hs_served y = hs_served s" by (rule steps_byD [OF still_http.steps_body b])
  from assms(1) True have h: "mbind (check_public_mcp_body X T Q) (\<lambda>checked.
        case checked of Inl r \<Rightarrow> mret (Some r) | Inr Q' \<Rightarrow> http_routes X T Q') s = (r, s')" by (simp add: handle_http_def)
  show ?thesis
  proof (cases "\<exists>Q'. x = Inr (Inr Q')")
    case ok: True
    then obtain Q' where Q': "x = Inr (Inr Q')" by blast
    note same = body_checked [OF b [unfolded Q']]
    from h b Q' same have "http_routes X T Q' s = (r, s')" by (simp add: mbind_def)
    from routes_add [OF this assms(2,3)] same show ?thesis by (simp add: run_as_def [abs_def])
  next
    case refused: False
    with h b y show ?thesis by (cases x) (auto simp: mbind_def mret_def intro!: adds_same split: sum.splits)
  qed
qed

lemma refusal_run:
  "\<exists>r s'. public_mcp_error X T p Q status code message wait retryable event s = (Inr r, s') \<and> hr_status r = status"
proof -
  obtain rid s1 where f: "fresh_hex X s = (Inr rid, s1)" by (simp add: fresh_run)
  obtain a s2 where a: "http_audit X T p Q event ''denied'' status rid s1 = (a, s2)" by (metis surj_pair)
  obtain r s3 where e: "http_error X status code message retryable False [(''Retry-After'', int_text wait)] (Some rid) s2 = (r, s3)"
    by (metis surj_pair)
  from f a e http_audit_run [OF a] http_error_run [OF e] show ?thesis by (auto simp: public_mcp_error_def mbind_def)
qed

section \<open>Requests that reach nothing\<close>

text \<open>The routes the application answers itself without asking who is there (\<open>/v1/me\<close> asks on its own), and what
  a refused request gets.\<close>

definition OPEN_ROUTES :: "(string \<times> string) list" where
  "OPEN_ROUTES = [(''GET'', ''/auth/start''), (''GET'', ''/auth/callback''), (''POST'', ''/auth/logout''), (''GET'', ''/health''),
     (''GET'', ''/readyz''), (''GET'', ''/ready''), (''GET'', ''/metrics''), (''GET'', ''/v1/me'')]"

definition refused :: "py_exn + http_response option \<Rightarrow> bool" where
  "refused r \<longleftrightarrow> (case r of Inl _ \<Rightarrow> True | Inr None \<Rightarrow> False | Inr (Some x) \<Rightarrow> hr_status x \<in> {401, 413, 429, 504})"

lemma mcp_error_status: "public_mcp_error X T p Q status code message wait retryable event s = (Inr r, s') \<Longrightarrow> hr_status r = status"
  using refusal_run [of X T p Q status code message wait retryable event s] by auto

lemma mcp_rate_refusal: "check_public_mcp_rate X T Q p c s = (Inr (Some r), s') \<Longrightarrow> hr_status r = 429"
  by (auto simp: check_public_mcp_rate_def err_simps dest: mcp_error_status split: if_splits prod.splits)

lemma handed_on:
  assumes "mbind (hand_on to Q p c) f s = (r, s')" "steps_by (adds (\<lambda>_. True)) (f ())"
  shows "hs_served s' \<noteq> hs_served s"
  using assms by (auto simp: mbind_def hand_on_def adds_def dest: steps_byD)

lemma adds_page_app: "steps_by (adds (\<lambda>_. True)) (page_app X T to Q p c)"
  by (rule adds_route.route_page) simp

lemma page_steps: "steps_by (adds P) (\<lambda>s. case hx_page X Q p rs (hs_relay s) of (r, relay) \<Rightarrow> (r, s\<lparr>hs_relay := relay\<rparr>))"
  by (rule steps_byI) (auto simp: adds_same split: prod.splits)

lemma page_handed: "page_app X T to Q p c s = (r, s') \<Longrightarrow> hs_served s' \<noteq> hs_served s"
  unfolding page_app_def
  by (erule handed_on) (intro adds_route.steps_intros adds_route.route_calls page_steps, simp)

lemma protected_settles:
  assumes "protected_routes X T Q s = (r, s')" "hx_auth X \<noteq> None"
  shows "hs_served s' \<noteq> hs_served s \<or> refused r"
proof -
  obtain a s1 where a: "authenticate_context X Q (hq_path Q \<noteq> ''/mcp'') s = (a, s1)" by (metis surj_pair)
  have s1: "hs_served s1 = hs_served s" by (rule steps_byD [OF still_http.steps_context a])
  from assms a have go: "(case a of
         Inl (AuthenticationError _) \<Rightarrow>
           mbind (if hq_path Q = ''/mcp'' then check_public_mcp_rate X T Q None None else mret None) (\<lambda>refused.
           case refused of Some r \<Rightarrow> mret (Some r) | None \<Rightarrow>
           mbind (sign_in_required X [(''WWW-Authenticate'', ''Bearer'')]) (\<lambda>r. mret (Some r)))
       | Inl e \<Rightarrow> mraise e
       | Inr (p, c) \<Rightarrow> mbind (hand_on Context Q (Some p) c) (\<lambda>_. route_on X T Q (Some p) c)) s1 = (r, s')"
    by (simp add: protected_routes_def mget_run catch_run [where m = "authenticate_context X Q b" for b, OF a])
  show ?thesis
  proof (cases a)
    case (Inl e)
    have "refused r" if "mbind (if hq_path Q = ''/mcp'' then check_public_mcp_rate X T Q None None else mret None) (\<lambda>refused.
           case refused of Some r \<Rightarrow> mret (Some r) | None \<Rightarrow>
           mbind (sign_in_required X [(''WWW-Authenticate'', ''Bearer'')]) (\<lambda>r. mret (Some r))) s1 = (r, s')"
      using that by (cases r) (auto simp: refused_def mbind_Inr_iff mret_iff sign_in_required_def dest!: mcp_rate_refusal http_error_run
          split: if_splits option.splits)
    with Inl go show ?thesis by (auto simp: mraise_iff refused_def split: py_exn.splits)
  next
    case (Inr x)
    then obtain p c where x: "a = Inr (p, c)" by (cases x) auto
    with go have "mbind (hand_on Context Q (Some p) c) (\<lambda>_. route_on X T Q (Some p) c) s1 = (r, s')" by simp
    from handed_on [OF this adds_route_on [of "\<lambda>_. True", OF TrueI]] s1 show ?thesis by simp
  qed
qed

lemma routes_settle:
  assumes "http_routes X T Q s = (r, s')" "hx_auth X \<noteq> None"
  shows "hs_served s' \<noteq> hs_served s \<or> (hq_method Q, hq_path Q) \<in> set OPEN_ROUTES \<or> refused r"
proof (cases "(hq_method Q, hq_path Q) \<in> set OPEN_ROUTES")
  case False
  show ?thesis
  proof (cases "hq_method Q = ''GET'' \<and> hq_path Q = ''/sign-in''")
    case True
    with assms(1) have "page_app X T BySignIn Q None None s = (r, s')" by (simp add: http_routes_def)
    from page_handed [OF this] show ?thesis by simp
  next
    case other: False
    with False have "http_routes X T Q = protected_routes X T Q"
      unfolding http_routes_def Let_def OPEN_ROUTES_def by auto
    with assms(1) protected_settles [OF _ assms(2)] show ?thesis by simp
  qed
qed simp

lemma handle_settles:
  assumes "handle_http X T Q s = (r, s')" "hx_auth X \<noteq> None"
  shows "hs_served s' \<noteq> hs_served s \<or> (hq_method Q, hq_path Q) \<in> set OPEN_ROUTES \<or> refused r"
proof (cases "hq_path Q = ''/mcp'' \<and> hq_method Q = ''POST''")
  case False
  with assms(1) have "http_routes X T Q s = (r, s')" by (auto simp: handle_http_def split: if_splits)
  from routes_settle [OF this assms(2)] show ?thesis .
next
  case True
  obtain x y where b: "check_public_mcp_body X T Q s = (x, y)" by (metis surj_pair)
  from assms(1) True have h: "mbind (check_public_mcp_body X T Q) (\<lambda>checked.
        case checked of Inl r \<Rightarrow> mret (Some r) | Inr Q' \<Rightarrow> http_routes X T Q') s = (r, s')" by (simp add: handle_http_def)
  show ?thesis
  proof (cases "\<exists>Q'. x = Inr (Inr Q')")
    case ok: True
    then obtain Q' where Q': "x = Inr (Inr Q')" by blast
    note same = body_checked [OF b [unfolded Q']]
    from h b Q' same have "http_routes X T Q' s = (r, s')" by (simp add: mbind_def)
    from routes_settle [OF this assms(2)] same show ?thesis by simp
  next
    case no: False
    have "hr_status z \<in> {413, 504}" if "x = Inr (Inl z)" for z
      using b that by (auto simp: check_public_mcp_body_def mcp_timeout_def mbind_Inr_iff mret_iff dest: mcp_error_status
          split: body_read.splits)
    with h b no show ?thesis by (cases x) (auto simp: mbind_def mret_def refused_def split: sum.splits)
  qed
qed

section \<open>A completed sign-in\<close>

definition state_pending :: "env \<Rightarrow> string \<Rightarrow> session_store \<Rightarrow> bool" where
  "state_pending E state u \<longleftrightarrow> (\<exists>a \<in> set (ss_auth u). ar_hash a = session_hash E state)"

lemma auth_rate_passed:
  "check_auth_rate X T Q route s = (Inr None, s') \<Longrightarrow>
    hs_sessions s' = hs_sessions s \<and> hs_broker s' = hs_broker s \<and> hs_login s' = hs_login s"
  by (auto simp: check_auth_rate_def err_simps http_clock_def split: if_splits prod.splits option.splits)

lemma caught_iff: "(case z of (r, s') \<Rightarrow> (Inr r, s')) = (y, t) \<longleftrightarrow> (\<exists>a. y = Inr a \<and> z = (a, t))"
  by (auto split: prod.splits)

lemma sessions_fix: "(u :: 'k http_state) = u\<lparr>hs_sessions := t\<rparr> \<Longrightarrow> hs_sessions u = t"
  by (drule arg_cong [where f = hs_sessions]) simp

lemma callback_done:
  assumes "auth_callback X T Q s = (Inr r, s')" "hr_status r = 303"
  obtains state code S L C c t v identity l token w where
    "query_value (hx_env X) ''state'' Q = Some state" "query_value (hx_env X) ''code'' Q = Some code"
    "hx_sessions X = Some S" "hx_login X = Some (L, C)"
    "cookie (hx_cookies X) AUTH_STATE_COOKIE_NAME Q = Inr (Some c)" "digest_equal c state = Inr True"
    "consume_auth (hx_env X) S state (hs_sessions s) = (Inr (Some t), v)"
    "complete_callback L C code (at_nonce t) (at_verifier t) (at_redirect t) (hs_login s) = (Inr identity, l)"
    "create_for_identity (hx_env X) S (http_db s) (ic_issuer identity) (ic_subject identity) v = (Inr token, w)"
    "r = redirect_response 303 (at_return_to t) [lax_cookie SESSION_COOKIE_NAME token (max 1 \<lfloor>sc_absolute S\<rfloor>),
       lax_cookie AUTH_STATE_COOKIE_NAME [] 0]"
    "hs_sessions s' = (case session_cookie (hx_cookies X) Q of Inr (Some old) \<Rightarrow> snd (revoke_session (hx_env X) S old w) | _ \<Rightarrow> w)"
proof -
  from assms(1) obtain refused s1 where rate: "check_auth_rate X T Q ''/auth/callback'' s = (Inr refused, s1)"
    unfolding auth_callback_def mbind_Inr_iff by blast
  have none: "refused = None"
    using assms rate by (cases refused) (auto simp: auth_callback_def mbind_def mret_def dest: auth_rate_refusal)
  note same = auth_rate_passed [OF rate [unfolded none]]
  have errors: "\<not> (\<exists>s2. provider_unavailable X s2 = (Inr r, s'))" "\<not> (\<exists>s2. invalid_callback X s2 = (Inr r, s'))"
    "\<not> (\<exists>s2. http_error X 401 ''authentication_failed'' ''Sign-in could not be completed.'' False True [] None s2 = (Inr r, s'))"
    using assms(2) by (auto simp: provider_unavailable_def invalid_callback_def dest!: http_error_run)
  from rate none have rate': "check_auth_rate X T Q ''/auth/callback'' s = (Inr None, s1)" by simp
  from assms(1) errors obtain state code S L C c t v a u where
    q: "query_value (hx_env X) ''state'' Q = Some state" "query_value (hx_env X) ''code'' Q = Some code"
      "hx_sessions X = Some S" "hx_login X = Some (L, C)"
    and c: "cookie (hx_cookies X) AUTH_STATE_COOKIE_NAME Q = Inr (Some c)" "digest_equal c state = Inr True"
    and v: "consume_auth (hx_env X) S state (hs_sessions s1) = (Inr (Some t), v)"
    and a: "sign_in X S L C code t (s1\<lparr>hs_sessions := v\<rparr>) = (a, u)"
    and rest: "(case a of
           Inl (AuthenticationError _) \<Rightarrow>
             http_error X 401 ''authentication_failed'' ''Sign-in could not be completed.'' False True [] None
         | Inl _ \<Rightarrow> provider_unavailable X
         | Inr session_id \<Rightarrow>
             mbind (mlift (session_cookie (hx_cookies X) Q)) (\<lambda>old.
             mbind (case old of None \<Rightarrow> mret False | Some t0 \<Rightarrow> on_sessions (revoke_session (hx_env X) S t0)) (\<lambda>_.
             mret (redirect_response 303 (at_return_to t)
               [lax_cookie SESSION_COOKIE_NAME session_id (max 1 \<lfloor>sc_absolute S\<rfloor>),
                lax_cookie AUTH_STATE_COOKIE_NAME [] 0])))) u = (Inr r, s')"
    by (clarsimp simp: auth_callback_def mbind_Inr_iff mlift_iff mget_iff mret_iff rate' on_sessions_iff caught_iff
        split: if_splits option.splits)
  from rest errors obtain token where token: "a = Inr token" and
    r: "r = redirect_response 303 (at_return_to t) [lax_cookie SESSION_COOKIE_NAME token (max 1 \<lfloor>sc_absolute S\<rfloor>),
       lax_cookie AUTH_STATE_COOKIE_NAME [] 0]"
    by (auto simp: mbind_Inr_iff mret_iff split: sum.splits py_exn.splits)
  from rest token have final: "hs_sessions s' = (case session_cookie (hx_cookies X) Q of
      Inr (Some old) \<Rightarrow> snd (revoke_session (hx_env X) S old (hs_sessions u)) | _ \<Rightarrow> hs_sessions u)"
    by (auto simp: mbind_Inr_iff mlift_iff mret_iff on_sessions_iff split: option.splits) (erule sessions_fix)
  from a same obtain identity l w where "hs_sessions u = w"
    "complete_callback L C code (at_nonce t) (at_verifier t) (at_redirect t) (hs_login s) = (Inr identity, l)"
    "create_for_identity (hx_env X) S (http_db s) (ic_issuer identity) (ic_subject identity) v = (Inr token, w)"
    by (auto simp: token sign_in_def mbind_Inr_iff mget_iff on_sessions_iff on_login_def http_db_def split: prod.splits)
  then show thesis using that q c v r same final by auto
qed

text \<open>What the steps of a sign-in leave in the store.\<close>

lemma consumed_auth:
  assumes "consume_auth E S state u = (Inr (Some t), v)"
  shows "state_pending E state u" "ss_auth v = filter (\<lambda>a. ar_hash a \<noteq> session_hash E state) (ss_auth u)"
proof -
  from assms obtain r where f: "List.find (\<lambda>a. ar_hash a = session_hash E state \<and> ar_expires a > sc_clock S (ss_reads u)) (ss_auth u) = Some r"
    and v: "ss_auth v = filter (\<lambda>a. ar_hash a \<noteq> ar_hash r) (ss_auth u)"
    by (auto simp: consume_auth_def err_simps session_clock_def delete_auth_def split: if_splits option.splits)
  from f have "r \<in> set (ss_auth u)" "ar_hash r = session_hash E state" by (auto simp: find_Some_iff)
  with v show "state_pending E state u" "ss_auth v = filter (\<lambda>a. ar_hash a \<noteq> session_hash E state) (ss_auth u)"
    by (auto simp: state_pending_def)
qed

lemma revoked_store:
  "ss_auth (snd (revoke_session E S old u)) = ss_auth u"
  "r \<in> set (ss_rows u) \<Longrightarrow> \<exists>r' \<in> set (ss_rows (snd (revoke_session E S old u))). sr_hash r' = sr_hash r \<and> sr_issuer r' = sr_issuer r
     \<and> sr_subject r' = sr_subject r \<and> sr_tenant r' = sr_tenant r \<and> sr_actor r' = sr_actor r
     \<and> (sr_revoked r' = sr_revoked r \<or> sr_hash r = session_hash E old)"
proof -
  show "ss_auth (snd (revoke_session E S old u)) = ss_auth u"
    by (simp add: revoke_session_def action_defs session_clock_def update_session_def)
  assume r: "r \<in> set (ss_rows u)"
  show "\<exists>r' \<in> set (ss_rows (snd (revoke_session E S old u))). sr_hash r' = sr_hash r \<and> sr_issuer r' = sr_issuer r
     \<and> sr_subject r' = sr_subject r \<and> sr_tenant r' = sr_tenant r \<and> sr_actor r' = sr_actor r
     \<and> (sr_revoked r' = sr_revoked r \<or> sr_hash r = session_hash E old)"
  proof (cases "usable_token old")
    case True
    let ?f = "\<lambda>r. if sr_hash r = session_hash E old
        then if sr_revoked r = None then r\<lparr>sr_revoked := Some (sc_clock S (ss_reads u))\<rparr> else r else r"
    have "ss_rows (snd (revoke_session E S old u)) = map ?f (ss_rows u)"
      using True by (simp add: revoke_session_def action_defs session_clock_def update_session_def)
    with r show ?thesis by (intro bexI [of _ "?f r"]) auto
  next
    case False
    with r show ?thesis by (intro bexI [of _ r]) (auto simp: revoke_session_def mret_def)
  qed
qed

lemma final_session:
  assumes "u' = (case c of Inr (Some old) \<Rightarrow> snd (revoke_session E S old u) | _ \<Rightarrow> u)" "r \<in> set (ss_rows u)"
  shows "ss_auth u' = ss_auth u \<and> (\<exists>r' \<in> set (ss_rows u'). sr_hash r' = sr_hash r \<and> sr_issuer r' = sr_issuer r
     \<and> sr_subject r' = sr_subject r \<and> sr_tenant r' = sr_tenant r \<and> sr_actor r' = sr_actor r
     \<and> (sr_revoked r' = sr_revoked r \<or> (\<exists>old. c = Inr (Some old) \<and> session_hash E old = sr_hash r)))"
  using assms revoked_store [where E = E and S = S and u = u] by (auto split: sum.splits option.splits) metis

lemma consumed_local:
  assumes "consume_auth E S state u = (Inr (Some t), v)" "returns_local u"
  shows "local_page (at_return_to t)"
proof -
  from assms(1) obtain r P where "List.find P (ss_auth u) = Some r" and r: "at_return_to t = ar_return_to r"
    by (auto simp: consume_auth_def err_simps session_clock_def split: if_splits option.splits)
  then have "r \<in> set (ss_auth u)" by (auto simp: find_Some_iff)
  with assms(2) r show ?thesis by (auto simp: returns_local_def list_all_iff)
qed

lemma created_row:
  assumes "create_for_identity E S db i u v = (Inr token, w)"
  shows "\<exists>m r. active_membership db i u = Inr m \<and> r \<in> set (ss_rows w) \<and> sr_hash r = session_hash E token \<and> sr_issuer r = i
    \<and> sr_subject r = u \<and> sr_tenant r = m_tenant m \<and> sr_actor r = m_actor m \<and> sr_revoked r = None \<and> ss_auth w = ss_auth v"
  using assms by (auto simp: create_for_identity_def create_session_def err_simps insert_session_row_def session_token_def
      session_clock_def split: if_splits)

section \<open>Bodies that are too large\<close>

text \<open>The body a channel delivers: up to the last chunk, a disconnect or the deadline.\<close>

fun request_body :: "http_message list \<Rightarrow> bytes" where
  "request_body (Chunk body more_body # rest) = body @ (if more_body then request_body rest else [])"
| "request_body _ = []"

lemma read_messages_refused:
  "int n \<le> maximum \<Longrightarrow> int (n + length (request_body msgs)) > maximum \<Longrightarrow> read_messages maximum n seen msgs = Refused"
  by (induction maximum n seen msgs rule: read_messages.induct) (auto simp: Let_def split: if_splits)

lemma read_body_refused:
  "0 \<le> maximum \<Longrightarrow> int (length (request_body (hq_messages Q))) > maximum \<Longrightarrow> read_body maximum Q = Refused"
  by (auto simp: read_body_def read_messages_refused split: list.split option.split)

section \<open>Properties of whole runs\<close>

text \<open>C2: Tenants stay apart over HTTP: in any run of HTTP requests (signed in or not, well-formed or not, refused
  or served), if no request was run under an identity whose tools or audit entries are of a tenant, then
  every row of that tenant is as it was, and the keys of the database are still keys.\<close>

theorem http_keeps_tenants_apart:
  assumes "\<not> acts_for X u None"
    and "\<And>to Q p c. (to, Q, p, c) \<in> set (drop (length (hs_served s)) (hs_served (http_run X Qs s))) \<Longrightarrow> \<not> acts_for X u p"
    and "keys_ok (http_db s)"
  shows "rows_of u (http_db (http_run X Qs s)) = rows_of u (http_db s) \<and> keys_ok (http_db (http_run X Qs s))"
proof -
  from isolates_http.run_respects [where X = X and u = u and s = s and Qs = Qs] obtain more where
    m: "hs_served (http_run X Qs s) = hs_served s @ more"
    and sp: "\<not> acts_for X u None \<longrightarrow> list_all (\<lambda>(to, Q, p, c). \<not> acts_for X u p) more \<longrightarrow> spares_state u s (http_run X Qs s)"
    by (auto simp: isolates_def)
  from assms(2) m have "list_all (\<lambda>(to, Q, p, c). \<not> acts_for X u p) more" by (auto simp: list_all_iff)
  with sp assms(1,3) show ?thesis by (simp add: spares_state_def spares_def http_db_def world_of_def)
qed

text \<open>C36: A sign-in never leads off the server: whatever is requested, every pending sign-in returns to the root
  or a page of this server, so no redirect after a sign-in can be steered elsewhere.\<close>

theorem sign_in_returns_stay_local:
  assumes "returns_local (hs_sessions s)"
  shows "returns_local (hs_sessions (http_run X Qs s))"
  using returns_http.run_respects [where X = X and s = s and Qs = Qs] assms by (simp add: keeps_returns_def)

text \<open>C29: No slot of the MCP endpoint leaks: after any run of requests, however they ended (refused, answered, timed
  out, failed), exactly as many slots are in use, in total and for each caller, as before it.\<close>

theorem mcp_slots_do_not_leak:
  assumes "conc_ok (hs_mcp_active s)"
  shows "cl_total (hs_mcp_active (http_run X Qs s)) = cl_total (hs_mcp_active s)
    \<and> (\<forall>j. active_count (hs_mcp_active (http_run X Qs s)) j = active_count (hs_mcp_active s) j)"
  using slots_http.run_respects [where X = X and s = s and Qs = Qs] assms by (simp add: same_mcp_slots_def)

text \<open>C14: Signing out ends the session for good: a sign-out that is answered with 204 came from this server's own
  origin, and after any further requests the session's cookie opens nothing.\<close>

theorem logout_ends_session:
  assumes "http_call X Q s = (Inr (Some r), s1)" "hq_method Q = ''POST''" "hq_path Q = ''/auth/logout''" "hr_status r = 204"
    and "session_cookie (hx_cookies X) Q = Inr (Some t)" "hx_sessions X = Some S"
    and "find_session (session_hash (hx_env X) t) (hs_sessions s) \<noteq> None"
    and "header_value INTERNAL_PRINCIPAL_HEADER Q' = None" "session_cookie (hx_cookies X) Q' = Inr (Some t)"
  shows "same_origin (hx_ip X) (hx_redirect X) (hx_control X) Q = Inr True
    \<and> fst (authenticate_context X Q' True (http_run X Qs s1)) = Inl (AuthenticationError ''session is invalid'')"
proof -
  from assms(1,3) obtain T s0 r0 where routed: "http_routes X T Q s0 = (Inr (Some r0), s1)" "r = secure_response X Q r0"
    "hs_sessions s0 = hs_sessions s" by (elim http_call_routed) auto
  then have "logout X T Q s0 = (Inr r0, s1)" "hr_status r0 = 204"
    using assms(2-4) by (simp_all add: http_routes_def Let_def err_simps)
  from logout_done [OF this assms(5,6)] obtain b where same: "same_origin (hx_ip X) (hx_redirect X) (hx_control X) Q = Inr True"
    and b: "revoke_session (hx_env X) S t (hs_sessions s) = (Inr b, hs_sessions s1)" using routed(3) by auto
  have "\<not> usable_token t \<or> row_ended (session_hash (hx_env X) t) (hs_sessions (http_run X Qs s1))"
    using revoke_ends [OF b] assms(7) ended_http.run_respects [where X = X and s = s1 and Qs = Qs] by (auto simp: keeps_ended_def)
  from dead_session_refused [OF this assms(8,9,6)] same show ?thesis by blast
qed

text \<open>C4: Nothing behind authentication is reached but by an active member: with authentication and sessions
  configured, whatever a request brings (a session cookie, a bearer token, an internal capability), each part
  of the server it is handed to (the request context, the MCP application, the pages, the rest) gets a
  principal that the database holds as an active member, with the tenant, actor and scopes of that membership;
  the sign-in page alone is handed a request without one. A request that is handed to nothing is one of the
  eight routes the application answers itself (health, readiness and metrics, sign-in and sign-out, the
  identity of the session), or it is refused: by 401, 413, 429 or 504, or an exception.\<close>

theorem served_requests_are_members:
  assumes "http_call X Q s = (r, s')" "hx_auth X \<noteq> None" "hx_sessions X \<noteq> None"
  shows "\<exists>more. hs_served s' = hs_served s @ more
    \<and> list_all (\<lambda>(to, Q', p, c). case p of
         None \<Rightarrow> hq_method Q = ''GET'' \<and> hq_path Q = ''/sign-in''
       | Some p \<Rightarrow> active_member (http_db s) p) more
    \<and> (more \<noteq> [] \<or> (hq_method Q, hq_path Q) \<in> set OPEN_ROUTES \<or> refused r)"
proof -
  from assms(1) obtain T u a where run: "handle_http X T Q u = (a, s')" "hs_served u = hs_served s" "http_db u = http_db s"
    and r: "r = ebind a (\<lambda>x. Inr (map_option (secure_response X Q) x))"
    by (force simp: http_call_def mbind_def fresh_run world_of_def http_db_def mret_def split: prod.splits sum.splits)
  from r have "refused a \<Longrightarrow> refused r" by (auto simp: refused_def split: sum.splits option.splits)
  with handle_adds [OF run(1) assms(2,3)] handle_settles [OF run(1) assms(2)] run(2,3) show ?thesis
    by (auto simp: adds_def run_as_def)
qed

text \<open>C30: A body that is too large never reaches the tools: a POST to the MCP endpoint whose body exceeds the
  configured maximum, in one chunk or many and whatever length it declares, is answered with 413, and
  neither authentication nor any tool has run: no session is touched and nothing is handed on.\<close>

theorem oversized_body_refused:
  assumes "hq_path Q = ''/mcp''" "hq_method Q = ''POST''" "0 \<le> hx_max_request X"
    and "int (length (request_body (hq_messages Q))) > hx_max_request X"
  shows "\<exists>r s'. http_call X Q s = (Inr (Some r), s') \<and> hr_status r = 413 \<and> hs_served s' = hs_served s
    \<and> hs_sessions s' = hs_sessions s"
proof -
  let ?u = "snd (fresh_hex X (snd (fresh_hex X s)))"
  let ?T = "Some (uuid_hex (hx_env X) (w_ids (world_of s)), take 16 (uuid_hex (hx_env X) (Suc (w_ids (world_of s)))))"
  let ?m = "\<lambda>s. public_mcp_error X ?T None Q 413 ''request_too_large'' ''Request body exceeds the allowed size.'' 0 False
    ''mcp_request_too_large'' s"
  obtain r s' where e: "?m ?u = (Inr r, s')" and status: "hr_status r = 413" using refusal_run by blast
  have "http_call X Q s = (Inr (Some (secure_response X Q r)), s')"
    using assms e by (simp add: http_call_def handle_http_def check_public_mcp_body_def read_body_refused mbind_def fresh_run
        world_of_def mret_def)
  moreover have "hs_served s' = hs_served ?u" by (rule steps_byD [OF still_http.steps_refusal e])
  moreover have "hs_sessions s' = hs_sessions ?u" by (rule steps_byD [OF apart_route.route_refusal [OF TrueI] e])
  ultimately show ?thesis using status by (simp add: fresh_run)
qed

text \<open>C5: A session is opened only for a verified identity: when the callback answers with its redirect, the state
  of the query is the one in the browser's cookie and belonged to a pending sign-in; the provider's answer was
  verified with that sign-in's nonce, verifier and redirect URI; the identity has an active membership. In the
  store afterwards exactly that pending sign-in is gone, and there is a session of the identity for that
  membership's tenant and actor, not revoked (unless the browser's old session cookie hashes to the same value);
  but for the end of the session of that old cookie the store is what creating the session left. The browser
  gets the token of the session, and is sent to a page of this server.\<close>

theorem sign_in_is_verified:
  assumes "http_call X Q s = (Inr (Some r), s')" "hq_method Q = ''GET''" "hq_path Q = ''/auth/callback''" "hr_status r = 303"
    and "returns_local (hs_sessions s)"
  shows "\<exists>state code S L C t v identity l token w m row.
    query_value (hx_env X) ''state'' Q = Some state \<and> query_value (hx_env X) ''code'' Q = Some code
    \<and> cookie (hx_cookies X) AUTH_STATE_COOKIE_NAME Q = Inr (Some state) \<and> hx_sessions X = Some S \<and> hx_login X = Some (L, C)
    \<and> consume_auth (hx_env X) S state (hs_sessions s) = (Inr (Some t), v)
    \<and> complete_callback L C code (at_nonce t) (at_verifier t) (at_redirect t) (hs_login s) = (Inr identity, l)
    \<and> create_for_identity (hx_env X) S (http_db s) (ic_issuer identity) (ic_subject identity) v = (Inr token, w)
    \<and> active_membership (http_db s) (ic_issuer identity) (ic_subject identity) = Inr m
    \<and> hs_sessions s' = (case session_cookie (hx_cookies X) Q of
        Inr (Some old) \<Rightarrow> snd (revoke_session (hx_env X) S old w) | _ \<Rightarrow> w)
    \<and> state_pending (hx_env X) state (hs_sessions s)
    \<and> ss_auth (hs_sessions s') = filter (\<lambda>a. ar_hash a \<noteq> session_hash (hx_env X) state) (ss_auth (hs_sessions s))
    \<and> row \<in> set (ss_rows (hs_sessions s')) \<and> sr_hash row = session_hash (hx_env X) token
    \<and> sr_issuer row = ic_issuer identity \<and> sr_subject row = ic_subject identity
    \<and> sr_tenant row = m_tenant m \<and> sr_actor row = m_actor m
    \<and> (sr_revoked row = None \<or> (\<exists>old. session_cookie (hx_cookies X) Q = Inr (Some old)
        \<and> session_hash (hx_env X) old = session_hash (hx_env X) token))
    \<and> ck_value (hd (hr_cookies r)) = token
    \<and> hr_location r = Some (at_return_to t) \<and> local_page (at_return_to t)"
proof -
  from assms(1,3) obtain T s0 r0 where routed: "http_routes X T Q s0 = (Inr (Some r0), s')" "r = secure_response X Q r0"
    "hs_sessions s0 = hs_sessions s" "http_db s0 = http_db s" "hs_login s0 = hs_login s" by (elim http_call_routed) auto
  then have run: "auth_callback X T Q s0 = (Inr r0, s')" and status: "hr_status r0 = 303"
    using assms(2-4) by (simp_all add: http_routes_def Let_def err_simps)
  show ?thesis
  proof (rule callback_done [OF run status], goal_cases)
    case (1 state code S L C c t v identity l token w)
    have c: "c = state" using 1(6) by (simp add: digest_equal_def split: if_splits)
    from created_row [OF 1(9)] obtain m row0 where m: "active_membership (http_db s0) (ic_issuer identity) (ic_subject identity) = Inr m"
      and new: "row0 \<in> set (ss_rows w)" "sr_hash row0 = session_hash (hx_env X) token" "sr_issuer row0 = ic_issuer identity"
      "sr_subject row0 = ic_subject identity" "sr_tenant row0 = m_tenant m" "sr_actor row0 = m_actor m" "sr_revoked row0 = None"
      and auth: "ss_auth w = ss_auth v" by blast
    from final_session [OF 1(11) new(1)] obtain row where row: "row \<in> set (ss_rows (hs_sessions s'))"
      "sr_hash row = sr_hash row0" "sr_issuer row = sr_issuer row0" "sr_subject row = sr_subject row0"
      "sr_tenant row = sr_tenant row0" "sr_actor row = sr_actor row0"
      "sr_revoked row = sr_revoked row0 \<or> (\<exists>old. session_cookie (hx_cookies X) Q = Inr (Some old) \<and> session_hash (hx_env X) old = sr_hash row0)"
      and same: "ss_auth (hs_sessions s') = ss_auth w" by blast
    note spent = consumed_auth [OF 1(7)]
    have "local_page (at_return_to t)" using consumed_local [OF 1(7)] routed(3) assms(5) by simp
    with 1 c m row [unfolded new] same auth spent routed show ?case
      by (intro exI [of _ state] exI [of _ code] exI [of _ S] exI [of _ L] exI [of _ C] exI [of _ t] exI [of _ v]
          exI [of _ identity] exI [of _ l] exI [of _ token] exI [of _ w] exI [of _ m] exI [of _ row])
        (simp add: redirect_response_def lax_cookie_def)
  qed
qed

section \<open>Witnesses\<close>

text \<open>A local server with hosted sign-in: one member, a session, a pending sign-in.\<close>

definition web_cookies :: cookie_parser where
  "web_cookies v = Inr (map (\<lambda>part. case partition_at (CHR ''='') (strip part) of (name, found, x) \<Rightarrow> (name, x))
     (split_at (CHR '';'') v))"

definition web_probe :: probe where
  "web_probe = \<lparr>pb_read_only = False, pb_file = \<lparr>pa_exists = True, pa_read = True, pa_write = True, pa_exec = True\<rparr>,
     pb_parent = \<lparr>pa_exists = True, pa_read = True, pa_write = True, pa_exec = True\<rparr>,
     pb_blobs = \<lparr>pa_exists = True, pa_read = True, pa_write = True, pa_exec = True\<rparr>, pb_catalog = None\<rparr>"

definition web_env :: "nat http_env" where
  "web_env = \<lparr>hx_server = sample_server, hx_hosted = False, hx_auth = None, hx_sessions = Some sample_session_conf,
     hx_login = Some (sample_login_env, sample_identity_config), hx_redirect = None, hx_control = Some ''o'',
     hx_max_request = 1, hx_hsts = 0, hx_config_ready = True, hx_tenant = Some ''t'', hx_actor = None,
     hx_relay = sample_relay_env, hx_cookies = web_cookies, hx_monotonic = (\<lambda>_. 0), hx_time = (\<lambda>_. 5),
     hx_calls = (\<lambda>_. [ArtifactList 5 None None None]), hx_reply = (\<lambda>_ _. Answered (json_response 200 [] JNull)),
     hx_page_calls = (\<lambda>_ _. [ArtifactList 5 None None None]), hx_page = (\<lambda>_ _ _ r. (Inr (json_response 200 [] JNull), r)),
     hx_other = (\<lambda>_. Inr (json_response 404 [] JNull)), hx_probe = web_probe, hx_backup = None, hx_tls = None\<rparr>"

definition web_state :: "nat http_state" where
  "web_state = \<lparr>hs_broker = sample_broker\<lparr>bk_world := empty_world\<lparr>w_db := empty_db\<lparr>t_memberships := Some [sample_member_row ''t'']\<rparr>\<rparr>\<rparr>,
     hs_sessions = \<lparr>ss_rows = [sample_session_row], ss_auth = [sample_auth_row], ss_draws = 1, ss_reads = 1\<rparr>, hs_relay = None,
     hs_keys = no_keys, hs_login = \<lparr>li_jwks = no_keys, li_ready = True, li_posts = 0, li_readings = 0\<rparr>,
     hs_auth_rates = [(''/auth/start'', auth_limit 10), (''/auth/callback'', auth_limit 20), (''/auth/logout'', auth_limit 20)],
     hs_mcp_rate = auth_limit 60,
     hs_mcp_active = \<lparr>cl_limit = 2, cl_per_key_limit = 2, cl_max_keys = 4, cl_active = [], cl_total = 0\<rparr>,
     hs_reads = 0, hs_ready = None, hs_failed = [], hs_failures = 0, hs_recoveries = 0, hs_served = []\<rparr>"

definition web_request :: "string \<Rightarrow> string \<Rightarrow> (bytes \<times> bytes) list \<Rightarrow> bytes \<Rightarrow> http_message list \<Rightarrow> http_request" where
  "web_request verb path headers qs msgs = \<lparr>hq_method = verb, hq_path = path, hq_scheme = ''https'', hq_headers = headers,
     hq_query = qs, hq_client = None, hq_messages = msgs\<rparr>"

lemma web_fields [simp]: "hq_method (web_request v p h q m) = v" "hq_path (web_request v p h q m) = p"
  "hq_headers (web_request v p h q m) = h" "hq_query (web_request v p h q m) = q" "hq_messages (web_request v p h q m) = m"
  by (simp_all add: web_request_def)

lemma oversized_body_refused_witness:
  "\<exists>r s'. http_call web_env (web_request ''POST'' ''/mcp'' [] [] [Chunk [1] True, Chunk [2] False]) web_state = (Inr (Some r), s')
    \<and> hr_status r = 413 \<and> hs_served s' = []"
proof -
  have "hx_max_request web_env = 1" by (simp add: web_env_def)
  with oversized_body_refused [of "web_request ''POST'' ''/mcp'' [] [] [Chunk [1] True, Chunk [2] False]" web_env web_state]
  show ?thesis by (fastforce simp: web_state_def)
qed

lemma sign_in_returns_stay_local_witness:
  "returns_local (hs_sessions (http_run web_env [web_request ''GET'' ''/auth/start'' [] (utf8 ''return_to=//x'') [],
     web_request ''GET'' ''/auth/start'' [] [] []] web_state)) \<and> ss_auth (hs_sessions web_state) = [sample_auth_row]"
proof -
  have "returns_local (hs_sessions web_state)"
    by (simp add: returns_local_def web_state_def sample_auth_row_def local_page_def)
  from sign_in_returns_stay_local [OF this] show ?thesis by (simp add: web_state_def)
qed

lemma mcp_slots_do_not_leak_witness:
  "cl_total (hs_mcp_active (http_run web_env [web_request ''POST'' ''/mcp'' [] [] [Chunk [1] False],
     web_request ''GET'' ''/mcp'' [] [] []] web_state)) = 0"
proof -
  have "conc_ok (hs_mcp_active web_state)" by (simp add: web_state_def conc_ok_def)
  from mcp_slots_do_not_leak [OF this] show ?thesis by (simp add: web_state_def)
qed

lemma http_keeps_tenants_apart_witness:
  "rows_of ''u'' (http_db (http_run web_env [web_request ''GET'' ''/artifacts/a'' [] [] []] web_state)) = rows_of ''u'' (http_db web_state)"
proof -
  let ?Q = "web_request ''GET'' ''/artifacts/a'' [] [] []"
  have other: "\<not> acts_for web_env ''u'' None"
    by (simp add: acts_for_def audit_actor_def web_env_def caller_tenant_def sample_server_def)
  have "steps_by (adds (\<lambda>p. p = None)) (route_on web_env T ?Q None None)" for T by (intro adds_route_on) simp
  moreover have "protected_routes web_env T ?Q s = route_on web_env T ?Q None None s" for T s
    by (simp add: protected_routes_def mget_run header_value_def header_values_def) (simp add: web_env_def)
  ultimately have "steps_by (adds (\<lambda>p. p = None)) (http_routes web_env T ?Q)" for T
    by (simp add: http_routes_def Let_def steps_by_def)
  then have "steps_by (adds (\<lambda>p. p = None)) (http_call web_env ?Q)"
    unfolding http_call_def handle_http_def by (simp, intro adds_route.steps_intros adds_route.route_fresh)
  then have "adds (\<lambda>p. p = None) web_state (http_run web_env [?Q] web_state)" by (simp add: steps_by_def http_run_def)
  with other have "\<not> acts_for web_env ''u'' p"
    if "(to, Q, p, c) \<in> set (drop (length (hs_served web_state)) (hs_served (http_run web_env [?Q] web_state)))" for to Q p c
    using that by (auto simp: adds_def list_all_iff)
  moreover have "keys_ok (http_db web_state)"
    by (simp add: web_state_def http_db_def keys_ok_def active_grants_def empty_world_def empty_db_def)
  ultimately show ?thesis by (intro conjunct1 [OF http_keeps_tenants_apart [OF other]])
qed

lemma latin1_utf8: "printable s \<Longrightarrow> latin1 (utf8 s) = s"
  by (simp add: latin1_def utf8_printable)

lemma ascii_utf8: "printable s \<Longrightarrow> ascii_text (utf8 s) = Some s" "printable s \<Longrightarrow> length (utf8 s) = length s"
proof -
  assume p: "printable s"
  then have "list_all (\<lambda>b. unat b < 128) (utf8 s)"
    by (induction s) (auto simp: utf8_def utf8_char_def unat_of_nat)
  with p show "ascii_text (utf8 s) = Some s" by (simp add: ascii_text_def latin1_utf8)
  show "length (utf8 s) = length s" using arg_cong [OF utf8_printable [OF p], of length] by simp
qed

lemma web_text: "ascii_text (utf8 ''state=a&code=x'') = Some ''state=a&code=x''" "length (utf8 ''state=a&code=x'') = 14"
  "ascii_text (utf8 ''o'') = Some ''o''"
  by (simp_all add: ascii_utf8 ord_of_def)

lemma web_query: "query_value E ''state'' (web_request v p h (utf8 ''state=a&code=x'') m) = Some ''a''"
  "query_value E ''code'' (web_request v p h (utf8 ''state=a&code=x'') m) = Some ''x''"
  by (simp_all add: query_value_def MAX_AUTH_QUERY_BYTES_def MAX_AUTH_QUERY_VALUE_def query_values_def query_pairs_def web_text
    plus_blank_def unquote_def)

definition sign_out_request :: http_request where
  "sign_out_request = web_request ''POST'' ''/auth/logout'' [(utf8 ''origin'', utf8 ''o''),
     (utf8 ''cookie'', utf8 ''__Host-folio_session=a'')] [] []"

definition callback_request :: http_request where
  "callback_request = web_request ''GET'' ''/auth/callback'' [(utf8 ''cookie'', utf8 ''__Host-folio_auth_state=a'')]
     (utf8 ''state=a&code=x'') []"

lemma web_headers: "header_values ''origin'' sign_out_request = [utf8 ''o'']"
  "header_values ''cookie'' sign_out_request = [utf8 ''__Host-folio_session=a'']"
  "header_values ''cookie'' callback_request = [utf8 ''__Host-folio_auth_state=a'']"
  by (simp_all add: header_values_def sign_out_request_def callback_request_def utf8_def utf8_char_def ord_of_def lower_byte_def)

lemma web_reads: "session_cookie web_cookies sign_out_request = Inr (Some ''a'')"
  "cookie web_cookies AUTH_STATE_COOKIE_NAME callback_request = Inr (Some ''a'')"
  "session_cookie web_cookies callback_request = Inr None"
  "header_value INTERNAL_PRINCIPAL_HEADER sign_out_request = None"
  by (simp_all add: session_cookie_def cookie_def web_headers latin1_utf8 ord_of_def SESSION_COOKIE_NAME_def AUTH_STATE_COOKIE_NAME_def
      strip_def lstrip_def is_space_def starts_with_def web_cookies_def)
    (simp add: header_value_def header_values_def sign_out_request_def utf8_def utf8_char_def ord_of_def lower_byte_def
      INTERNAL_PRINCIPAL_HEADER_def)

lemma web_env_fields [simp]: "sv_env (hx_server web_env) = env0" "hx_ip web_env = no_ip" "hx_redirect web_env = None"
  "hx_control web_env = Some ''o''" "hx_sessions web_env = Some sample_session_conf" "hx_cookies web_env = web_cookies"
  "hx_login web_env = Some (sample_login_env, sample_identity_config)" "hx_hsts web_env = 0" "hx_monotonic web_env = (\<lambda>_. 0)"
  by (simp_all add: web_env_def sample_server_def)

lemma web_passes:
  assumes "map_of (hs_auth_rates s) route = Some (auth_limit n)" "0 < n" "hx_monotonic X = (\<lambda>_. 0)"
  shows "\<exists>l. check_auth_rate X T Q route s = (Inr None, s\<lparr>hs_reads := Suc (hs_reads s), hs_auth_rates := l\<rparr>)"
  using assms by (simp add: check_auth_rate_def http_clock_def mbind_def server_rate_allow_def rate_allow_def mret_def
      auth_limit_def live_windows_def) (rule exI, rule refl)

lemma sign_out_call:
  "\<exists>r s'. http_call web_env sign_out_request web_state = (Inr (Some r), s') \<and> hr_status r = 204"
proof -
  let ?T = "Some (uuid_hex env0 (w_ids (world_of web_state)), take 16 (uuid_hex env0 (Suc (w_ids (world_of web_state)))))"
  let ?u = "snd (fresh_hex web_env (snd (fresh_hex web_env web_state)))"
  have rates: "map_of (hs_auth_rates ?u) ''/auth/logout'' = Some (auth_limit 20)"
    by (simp add: fresh_run web_state_def)
  obtain l where l: "check_auth_rate web_env ?T sign_out_request ''/auth/logout'' ?u
      = (Inr None, ?u\<lparr>hs_reads := Suc (hs_reads ?u), hs_auth_rates := l\<rparr>)"
    using web_passes [OF rates] by fastforce
  have same: "same_origin (hx_ip web_env) (hx_redirect web_env) (hx_control web_env) sign_out_request = Inr True"
    by (simp add: same_origin_def auth_origin_def web_headers web_text digest_equal_def ord_of_def)
  obtain v b where v: "on_sessions (revoke_session env0 sample_session_conf ''a'') (?u\<lparr>hs_reads := Suc (hs_reads ?u), hs_auth_rates := l\<rparr>)
      = (Inr b, v)"
    by (auto simp: on_sessions_def revoke_session_def usable_token_def action_defs session_clock_def update_session_def)
  obtain rid w where w: "fresh_hex web_env v = (Inr rid, w)" by (simp add: fresh_run)
  obtain a x where a: "http_audit web_env ?T None sign_out_request ''logout_succeeded'' ''revoked'' 204 rid w = (a, x)"
    by (metis surj_pair)
  have "logout web_env ?T sign_out_request ?u = (Inr \<lparr>hr_status = 204, hr_headers = no_store, hr_location = None,
         hr_cookies = [lax_cookie SESSION_COOKIE_NAME [] 0], hr_body = None\<rparr>, x)" (is "_ = (Inr ?r, _)")
    using l same v w a http_audit_run [OF a] web_reads(1)
    by (simp add: logout_def mbind_def mlift_def mret_def)
  then have "http_call web_env sign_out_request web_state = (Inr (Some (secure_response web_env sign_out_request ?r)), x)"
    by (simp add: http_call_def mbind_def fresh_run handle_http_def sign_out_request_def http_routes_def mret_def world_of_def)
  then show ?thesis by simp
qed

lemma logout_ends_session_witness:
  "\<exists>s1. http_call web_env sign_out_request web_state = (fst (http_call web_env sign_out_request web_state), s1)
    \<and> fst (authenticate_context web_env sign_out_request True (http_run web_env [callback_request] s1))
      = Inl (AuthenticationError ''session is invalid'')"
proof -
  obtain r s1 where run: "http_call web_env sign_out_request web_state = (Inr (Some r), s1)" "hr_status r = 204"
    using sign_out_call by blast
  have row: "find_session (session_hash env0 ''a'') (hs_sessions web_state) \<noteq> None"
    by (simp add: sample_hash1 web_state_def find_session_def sample_session_row_def)
  have "fst (authenticate_context web_env sign_out_request True (http_run web_env [callback_request] s1))
      = Inl (AuthenticationError ''session is invalid'')"
    by (rule conjunct2 [OF logout_ends_session [OF run(1) _ _ run(2)]])
      (simp_all add: web_reads row [simplified], simp_all add: sign_out_request_def)
  with run(1) show ?thesis by auto
qed

text \<open>A page asked for with the cookie of a session.\<close>

definition member_request :: http_request where
  "member_request = web_request ''GET'' ''/'' [(utf8 ''cookie'', utf8 ''__Host-folio_session=a'')] [] []"

definition member_env :: "nat http_env" where
  "member_env = web_env\<lparr>hx_auth := Some (sample_jwt, sample_jc, sample_verifier), hx_page_calls := (\<lambda>_ _. [])\<rparr>"

definition member_state :: "nat http_state" where
  "member_state = web_state\<lparr>hs_broker := sample_broker\<lparr>bk_world := sample_members\<rparr>\<rparr>"

lemma member_reads: "session_cookie web_cookies member_request = Inr (Some ''a'')"
  "header_value INTERNAL_PRINCIPAL_HEADER member_request = None"
proof -
  have "header_values ''cookie'' member_request = [utf8 ''__Host-folio_session=a'']"
    by (simp add: header_values_def member_request_def utf8_def utf8_char_def ord_of_def lower_byte_def)
  then show "session_cookie web_cookies member_request = Inr (Some ''a'')"
    by (simp add: session_cookie_def cookie_def latin1_utf8 ord_of_def SESSION_COOKIE_NAME_def
      strip_def lstrip_def is_space_def starts_with_def web_cookies_def)
  show "header_value INTERNAL_PRINCIPAL_HEADER member_request = None"
    by (simp add: header_value_def header_values_def member_request_def utf8_def utf8_char_def ord_of_def lower_byte_def
      INTERNAL_PRINCIPAL_HEADER_def)
qed

lemma member_context: "\<exists>p c u. authenticate_context member_env member_request True s = (Inr (p, c), u)"
  if "hs_sessions s = hs_sessions web_state" "http_db s = w_db sample_members"
proof -
  have "\<exists>p u. lookup_session env0 sample_session_conf (w_db sample_members) ''a'' (hs_sessions web_state) = (Inr (Some p), u)"
    by (simp add: lookup_session_def resolve_session_def usable_token_def action_defs session_clock_def find_session_def web_state_def
        sample_hash1 session_dead_def sample_conf_fields session_member_def update_session_def)
      (simp add: sample_session_row_def sample_lookup)
  then obtain p u where l: "lookup_session env0 sample_session_conf (w_db sample_members) ''a'' (hs_sessions web_state) = (Inr (Some p), u)" by blast
  have X: "hx_sessions member_env = Some sample_session_conf" "hx_cookies member_env = web_cookies" "sv_env (hx_server member_env) = env0"
    by (simp_all add: member_env_def)
  show ?thesis
    using l that by (simp add: authenticate_context_def member_reads X mbind_def mlift_def mget_def mret_def on_sessions_def)
qed

lemma member_served: "\<exists>r s'. http_call member_env member_request member_state = (Inr (Some r), s') \<and> hr_status r = 200"
proof -
  let ?T = "Some (uuid_hex env0 (w_ids (world_of member_state)), take 16 (uuid_hex env0 (Suc (w_ids (world_of member_state)))))"
  let ?u = "snd (fresh_hex member_env (snd (fresh_hex member_env member_state)))"
  have u: "hs_sessions ?u = hs_sessions web_state" "http_db ?u = w_db sample_members"
    by (simp_all add: fresh_run member_state_def http_db_def world_of_def)
  obtain p c v where a: "authenticate_context member_env member_request True ?u = (Inr (p, c), v)" using member_context [OF u] by blast
  have Q: "hq_method member_request = ''GET''" "hq_path member_request = ''/''" by (simp_all add: member_request_def)
  have X: "hx_auth member_env \<noteq> None" "hx_page_calls member_env member_request (Some p) = []"
    "hx_page member_env member_request (Some p) [] z = (Inr (json_response 200 [] JNull), z)" "hx_hsts member_env = 0" for z
    by (simp_all add: member_env_def web_env_def)
  have page: "page_route ''/''" by (simp add: page_route_def PAGE_PATHS_def)
  have "\<exists>v'. protected_routes member_env T member_request ?u = (Inr (Some (json_response 200 [] JNull)), v')" for T
  proof -
    have "protected_routes member_env T member_request ?u
        = mbind (hand_on Context member_request (Some p) c) (\<lambda>_. route_on member_env T member_request (Some p) c) v"
      using X(1) Q(2) by (simp add: protected_routes_def mget_run catch_run [where m = "authenticate_context member_env member_request True", OF a])
    then show ?thesis using Q(2) X page by (simp add: route_on_def page_app_def mbind_def hand_on_def mret_def)
  qed
  then obtain v' where "protected_routes member_env ?T member_request ?u = (Inr (Some (json_response 200 [] JNull)), v')" by blast
  then have "handle_http member_env ?T member_request ?u = (Inr (Some (json_response 200 [] JNull)), v')"
    using Q by (simp add: handle_http_def http_routes_def)
  moreover have "sv_env (hx_server member_env) = env0" by (simp add: member_env_def)
  ultimately show ?thesis
    by (simp add: http_call_def mbind_def fresh_run mret_def world_of_def secure_response_def json_response_def X(4))
qed

lemma served_requests_are_members_witness:
  "\<exists>to Q p c. (to, Q, Some p, c) \<in> set (hs_served (snd (http_call member_env member_request member_state)))
    \<and> active_member (http_db member_state) p"
proof -
  obtain r s' where run: "http_call member_env member_request member_state = (Inr (Some r), s')" "hr_status r = 200"
    using member_served by blast
  have conf: "hx_auth member_env \<noteq> None" "hx_sessions member_env \<noteq> None" by (simp_all add: member_env_def)
  have f: "hq_method member_request = ''GET''" "hq_path member_request = ''/''" "hs_served member_state = []"
    by (simp_all add: member_request_def member_state_def web_state_def)
  from served_requests_are_members [OF run(1) conf] obtain x more where "hs_served s' = x # more"
    "case x of (to, Q', p, c) \<Rightarrow> case p of None \<Rightarrow> False | Some p \<Rightarrow> active_member (http_db member_state) p"
    using run(2) unfolding f by (auto simp: OPEN_ROUTES_def refused_def neq_Nil_conv split: option.splits)
  with run(1) show ?thesis by (cases x) (force split: option.splits)
qed

text \<open>With a redirect URI, as the callback needs.\<close>

abbreviation "web_hosted \<equiv> web_env\<lparr>hx_redirect := Some ''r''\<rparr>"

lemma web_created: "\<exists>w. create_for_identity env0 sample_session_conf (empty_db\<lparr>t_memberships := Some [sample_member_row ''t'']\<rparr>) ''i'' ''t''
    \<lparr>ss_rows = [sample_session_row], ss_auth = [], ss_draws = 1, ss_reads = 2\<rparr> = (Inr ''aa'', w)"
  by (simp add: create_for_identity_def active_membership_def create_session_def auth_eval sample_loads sample_scopes session_token_def
      session_clock_def insert_session_row_def sample_session_row_def sample_hash [of 2, simplified numeral_2_eq_2, simplified]
      sample_conf_fields)

lemma callback_call: "\<exists>r s'. http_call web_hosted callback_request web_state = (Inr (Some r), s') \<and> hr_status r = 303"
proof -
  let ?T = "Some (uuid_hex env0 (w_ids (world_of web_state)), take 16 (uuid_hex env0 (Suc (w_ids (world_of web_state)))))"
  let ?u = "snd (fresh_hex web_hosted (snd (fresh_hex web_hosted web_state)))"
  have u: "map_of (hs_auth_rates ?u) ''/auth/callback'' = Some (auth_limit 20)" "li_ready (hs_login ?u)"
    "hs_login ?u = \<lparr>li_jwks = no_keys, li_ready = True, li_posts = 0, li_readings = 0\<rparr>"
    "hs_sessions ?u = \<lparr>ss_rows = [sample_session_row], ss_auth = [sample_auth_row], ss_draws = 1, ss_reads = 1\<rparr>"
    "http_db ?u = empty_db\<lparr>t_memberships := Some [sample_member_row ''t'']\<rparr>"
    by (simp_all add: fresh_run web_state_def http_db_def world_of_def)
  obtain l where l: "check_auth_rate web_hosted ?T callback_request ''/auth/callback'' ?u
      = (Inr None, ?u\<lparr>hs_reads := Suc (hs_reads ?u), hs_auth_rates := l\<rparr>)"
    using web_passes [OF u(1), where X = web_hosted] by fastforce
  let ?v = "?u\<lparr>hs_reads := Suc (hs_reads ?u), hs_auth_rates := l\<rparr>"
  have ready: "identity_ready web_hosted ?v" using u(2) by (simp add: identity_ready_def)
  have q: "query_value env0 ''state'' callback_request = Some ''a''" "query_value env0 ''code'' callback_request = Some ''x''"
    by (simp_all add: callback_request_def web_query)
  let ?t = "\<lparr>at_state = ''a'', at_nonce = ''n'', at_verifier = ''v'', at_challenge = ''c'', at_return_to = ''/'', at_redirect = ''r''\<rparr>"
  have c: "consume_auth env0 sample_session_conf ''a'' (hs_sessions ?v) = (Inr (Some ?t),
      \<lparr>ss_rows = [sample_session_row], ss_auth = [], ss_draws = 1, ss_reads = 2\<rparr>)"
    by (simp add: u(4) consume_auth_def usable_token_def action_defs session_clock_def delete_auth_def
      sample_auth_row_def sample_hash1 sample_conf_fields)
  from sample_login obtain j where "complete_callback sample_login_env sample_identity_config ''x'' ''n'' ''v'' ''r''
      (hs_login ?v) = (Inr \<lparr>ic_issuer = ''i'', ic_subject = ''t''\<rparr>, j)" by (auto simp: u(3))
  moreover from web_created obtain w where "create_for_identity env0 sample_session_conf (http_db ?u) ''i'' ''t''
    \<lparr>ss_rows = [sample_session_row], ss_auth = [], ss_draws = 1, ss_reads = 2\<rparr> = (Inr ''aa'', w)" by (auto simp: u(5))
  ultimately obtain z where "sign_in web_hosted sample_session_conf sample_login_env sample_identity_config ''x'' ?t
      (?v\<lparr>hs_sessions := \<lparr>ss_rows = [sample_session_row], ss_auth = [], ss_draws = 1, ss_reads = 2\<rparr>\<rparr>) = (Inr ''aa'', z)"
    by (simp add: sign_in_def on_login_def on_sessions_def mbind_def mget_def http_db_def)
  with l ready q c obtain r where "auth_callback web_hosted ?T callback_request ?u = (Inr r, z)" "hr_status r = 303"
    by (simp add: auth_callback_def mbind_def mget_def mlift_def mret_def web_reads digest_equal_def ord_of_def on_sessions_def
        redirect_response_def)
  then have "http_call web_hosted callback_request web_state = (Inr (Some (secure_response web_hosted callback_request r)), z)
      \<and> hr_status r = 303"
    by (simp add: http_call_def mbind_def fresh_run handle_http_def callback_request_def http_routes_def mret_def world_of_def Let_def)
  then show ?thesis by auto
qed

lemma sign_in_is_verified_witness:
  "\<exists>t v identity l m r. fst (http_call web_hosted callback_request web_state) = Inr (Some r) \<and> hr_location r = Some (at_return_to t)
    \<and> consume_auth env0 sample_session_conf ''a'' (hs_sessions web_state) = (Inr (Some t), v)
    \<and> complete_callback sample_login_env sample_identity_config ''x'' (at_nonce t) (at_verifier t) (at_redirect t)
        (hs_login web_state) = (Inr identity, l)
    \<and> active_membership (http_db web_state) (ic_issuer identity) (ic_subject identity) = Inr m"
proof -
  obtain r s' where run: "http_call web_hosted callback_request web_state = (Inr (Some r), s')" "hr_status r = 303"
    using callback_call by blast
  have q: "hq_method callback_request = ''GET''" "hq_path callback_request = ''/auth/callback''"
    "query_value env0 ''state'' callback_request = Some ''a''" "query_value env0 ''code'' callback_request = Some ''x''"
    by (simp_all add: callback_request_def web_query)
  have "returns_local (hs_sessions web_state)"
    by (simp add: returns_local_def web_state_def sample_auth_row_def local_page_def)
  from sign_in_is_verified [OF run(1) q(1,2) run(2) this] q(3,4) run(1) show ?thesis by fastforce
qed

end
