(* ===== verification/Browser_Api.thy ===== *)
theory Browser_Api
  imports Http_App Bridge
begin

text \<open>
  The browser application \<open>InspectionApp\<close> of \<open>inspection.py\<close>: which page a path gives and with what (the text
  of the pages is left out), and the API the pages use: rate and concurrency limits, the checks of a request,
  the tool call through the public, the administration or the bridge caller, and the errors. The three callers
  are parameters: the n-th call's answer, which may also be an exception or no answer before the deadline.
\<close>

section \<open>Headers and pages\<close>

definition CONTROL_HEADERS :: "(string \<times> string) list" where
  "CONTROL_HEADERS = [(''Cache-Control'', ''no-store''), (''Referrer-Policy'', ''no-referrer''),
     (''X-Content-Type-Options'', ''nosniff'')]"

definition MAX_RESOURCE_TIMEOUT_SECONDS :: rat where "MAX_RESOURCE_TIMEOUT_SECONDS = 300"
definition MAX_RESOURCE_RESPONSE_BYTES :: int where "MAX_RESOURCE_RESPONSE_BYTES = 4 * 1024 * 1024"
definition MAX_RESOURCE_ARGUMENT_BYTES :: nat where "MAX_RESOURCE_ARGUMENT_BYTES = 64 * 1024"
definition MAX_BRIDGE_BODY_BYTES :: int where "MAX_BRIDGE_BODY_BYTES = 64 * 1024"

definition quoted_word :: "string \<Rightarrow> string" where
  "quoted_word s = [CHR 0x27] @ s @ [CHR 0x27]"

definition control_headers :: "string \<Rightarrow> (string \<times> string) list" where
  "control_headers render_origin = CONTROL_HEADERS @ [(''Content-Security-Policy'', join_with ''; ''
     [''default-src '' @ quoted_word ''none'', ''base-uri '' @ quoted_word ''none'', ''connect-src '' @ quoted_word ''self'',
      ''form-action '' @ quoted_word ''self'', ''frame-ancestors '' @ quoted_word ''none'', ''frame-src '' @ render_origin,
      ''img-src '' @ quoted_word ''none'', ''object-src '' @ quoted_word ''none'', ''script-src '' @ quoted_word ''self'',
      ''style-src '' @ quoted_word ''self''])]"

text \<open>The destination after a sign-in the page offers.\<close>

definition ui_return_to :: "string \<Rightarrow> string" where
  "ui_return_to v =
     (if v = ''/'' \<or> \<not> starts_with ''/'' v \<or> starts_with ''//'' v then ''/''
      else case split_at (CHR ''/'') v of
        [_, page, artifact] \<Rightarrow>
          if page \<in> set RETURN_PAGES \<and> artifact \<noteq> [] \<and> list_all (\<lambda>c. c \<notin> set [CHR ''?'', CHR ''#'', CHR 0x5C]) artifact
          then v else ''/''
      | _ \<Rightarrow> ''/'')"

definition ui_request_return_to :: "env \<Rightarrow> http_request \<Rightarrow> string" where
  "ui_request_return_to E Q =
     ui_return_to (case ascii_text (hq_query Q) of
       None \<Rightarrow> ''/''
     | Some qs \<Rightarrow> (case query_values E False ''return_to'' qs of [] \<Rightarrow> ''/'' | v # _ \<Rightarrow> v))"

record ui_page =
  up_state :: string
  up_sign_in :: bool
  up_return :: string
  up_organization :: "string option"
  up_actor :: "string option"
  up_debug :: bool
  up_human :: bool
  up_workspace :: bool
  up_standalone :: bool

datatype browser_response =
    UiPage "(string \<times> string) list" ui_page
  | ConnectionsPage "(string \<times> string) list" string
  | StaticAsset "(string \<times> string) list" string
  | ApiResponse http_response

section \<open>The application\<close>

datatype api_caller = UserCaller | AdminCaller | BridgeCaller

datatype api_answer = Returns json | Raises py_exn | NeverAnswers

record api_env =
  ae_env :: env
  ae_control :: string
  ae_render :: string
  ae_max_request :: int
  ae_max_response :: int
  ae_state :: string
  ae_organization :: "string option"
  ae_actor :: "string option"
  ae_has_admin :: bool
  ae_clock :: "nat \<Rightarrow> rat"
  ae_bridge_clock :: "nat \<Rightarrow> rat"
  ae_uuid :: "nat \<Rightarrow> string"
  ae_loads :: "bytes \<Rightarrow> py_exn + json"
  ae_answer :: "nat \<Rightarrow> api_caller \<Rightarrow> string \<Rightarrow> json_args \<Rightarrow> api_answer"
  ae_bridge_answer :: "nat \<Rightarrow> string \<Rightarrow> json_args \<Rightarrow> caller_outcome option"

record api_state =
  ap_rate :: dimension_limiter
  ap_active :: concurrency_limiter
  ap_bridge :: bridge
  ap_reads :: nat
  ap_draws :: nat
  ap_calls :: "(api_caller \<times> string \<times> json_args) list"

definition inspection_init ::
    "rat \<Rightarrow> int \<Rightarrow> (string \<times> int) list option \<Rightarrow> rat \<Rightarrow> int \<Rightarrow> int \<Rightarrow> bridge \<Rightarrow> py_exn + api_state" where
  "inspection_init timeout max_response rates window concurrency per_key b =
     (if timeout \<le> 0 \<or> timeout > MAX_RESOURCE_TIMEOUT_SECONDS
      then Inl (ValueError ''timeout_seconds is outside the allowed resource bound'')
      else if max_response < 1 \<or> max_response > MAX_RESOURCE_RESPONSE_BYTES
      then Inl (ValueError ''max_response_bytes is outside the allowed resource bound'')
      else ebind (dimension_limiter_init (case rates of Some (r # rs) \<Rightarrow> r # rs
          | _ \<Rightarrow> [(''tenant'', 600), (''actor'', 600), (''ip'', 600)]) window 4096) (\<lambda>rate.
        ebind (concurrency_limiter_init concurrency per_key 4096) (\<lambda>active.
        Inr \<lparr>ap_rate = rate, ap_active = active, ap_bridge = b, ap_reads = 0, ap_draws = 0, ap_calls = []\<rparr>)))"

definition on_bridge :: "(bridge, 'a) action \<Rightarrow> (api_state, 'a) action" where
  "on_bridge m = (\<lambda>s. case m (ap_bridge s) of (r, b) \<Rightarrow> (r, s\<lparr>ap_bridge := b\<rparr>))"

definition resource_dimensions :: "api_env \<Rightarrow> principal option \<Rightarrow> http_request \<Rightarrow> (string \<times> string) list" where
  "resource_dimensions A p Q =
     [(''tenant'', audit_actor (map_option p_tenant p) (ae_organization A)),
      (''actor'', audit_actor (map_option p_actor p) (ae_actor A)), (''ip'', client_key Q)]"

definition api_error :: "nat \<Rightarrow> string \<Rightarrow> string \<Rightarrow> string \<Rightarrow> int option \<Rightarrow> http_response" where
  "api_error status code message request_id wait = json_response status
     (CONTROL_HEADERS @ (case wait of None \<Rightarrow> [] | Some n \<Rightarrow> [(''Retry-After'', int_text (max 0 n))]))
     (JObj [(''code'', JStr code), (''error'', JStr message), (''request_id'', JStr request_id)])"

section \<open>One API request\<close>

text \<open>How a request fails: the three limits, the deadline (while the body was read, or later), a refusal
  with its own response, or an exception.\<close>

datatype api_failure = Overflow | ArgumentsTooLarge | ResponseTooLarge | Expired bool | TurnedAway http_response | Failure py_exn

text \<open>Header dictionaries keep the last of several headers of one name.\<close>

definition last_header :: "string \<Rightarrow> http_request \<Rightarrow> bytes option" where
  "last_header name Q = map_of (rev (map (\<lambda>(h, v). (map lower_byte h, v)) (hq_headers Q))) (utf8 name)"

definition last_header_text :: "string \<Rightarrow> http_request \<Rightarrow> string" where
  "last_header_text name Q = (case last_header name Q of None \<Rightarrow> [] | Some v \<Rightarrow> latin1 v)"

definition base_media_type :: "string \<Rightarrow> string" where
  "base_media_type v = lower (strip (fst (partition_at (CHR '';'') v)))"

definition api_refusal :: "nat \<Rightarrow> string \<Rightarrow> http_response" where
  "api_refusal status message = json_response status CONTROL_HEADERS (JObj [(''error'', JStr message)])"

text \<open>The checks of origin and content type, with the reason the bridge records.\<close>

definition api_gate :: "api_env \<Rightarrow> http_request \<Rightarrow> (string \<times> http_response) option" where
  "api_gate A Q =
     (if last_header_text ''origin'' Q \<noteq> ae_control A
      then Some (''origin_mismatch'', api_refusal 403 ''request origin is not permitted'')
      else if base_media_type (last_header_text ''content-type'' Q) \<noteq> ''application/json''
      then Some (''invalid_content_type'', api_refusal 400 ''Content-Type must be application/json'')
      else None)"

fun api_body :: "int \<Rightarrow> bytes \<Rightarrow> http_message list \<Rightarrow> api_failure + bytes" where
  "api_body maximum got [] = Inl (Expired True)"
| "api_body maximum got (Stall # rest) = Inl (Expired True)"
| "api_body maximum got (Disconnect # rest) = Inl (Failure (PublicMcpError ''request disconnected''))"
| "api_body maximum got (Chunk body more_body # rest) =
     (if int (length (got @ body)) > maximum then Inl Overflow
      else if more_body then api_body maximum (got @ body) rest
      else Inr (got @ body))"

definition admin_refused :: http_response where
  "admin_refused = json_response 403 CONTROL_HEADERS (JObj [(''code'', JStr ''permission_denied''),
     (''message'', JStr ''Organization administrator permission is required.''), (''reauthenticate'', JBool False)])"

definition admin_gate :: "api_env \<Rightarrow> principal option \<Rightarrow> api_failure + unit" where
  "admin_gate A p =
     (if (case p of None \<Rightarrow> False | Some p \<Rightarrow> EXTERNAL_MCP_ADMIN_SCOPE \<notin> set (p_scopes p)) then Inl (TurnedAway admin_refused)
      else guard_raise (\<not> ae_has_admin A) (Failure (PublicMcpError ''admin connection service is unavailable'')))"

definition api_maximum :: "api_env \<Rightarrow> bool \<Rightarrow> int" where
  "api_maximum A by_bridge = (if by_bridge then min (ae_max_request A) MAX_BRIDGE_BODY_BYTES else ae_max_request A)"

definition api_length :: "int \<Rightarrow> http_request \<Rightarrow> api_failure + unit" where
  "api_length maximum Q =
     (case last_header ''content-length'' Q of
        None \<Rightarrow> Inr ()
      | Some v \<Rightarrow> (case int_of_bytes v of
          None \<Rightarrow> Inl (Failure (PublicMcpError ''Content-Length must be an integer''))
        | Some n \<Rightarrow> guard_raise (n > maximum) Overflow))"

definition api_loads :: "api_env \<Rightarrow> bytes \<Rightarrow> api_failure + json" where
  "api_loads A raw =
     (case ae_loads A raw of
        Inr v \<Rightarrow> Inr v
      | Inl (ValueError _) \<Rightarrow> Inl (Failure (invalid_request ''request body must be valid JSON''))
      | Inl e \<Rightarrow> Inl (Failure e))"

definition api_payload :: "api_env \<Rightarrow> bool \<Rightarrow> bool \<Rightarrow> principal option \<Rightarrow> http_request \<Rightarrow> api_failure + json" where
  "api_payload A by_bridge admin p Q =
     ebind (if admin then admin_gate A p else Inr ()) (\<lambda>_.
     ebind (api_length (api_maximum A by_bridge) Q) (\<lambda>_.
     ebind (api_body (api_maximum A by_bridge) [] (hq_messages Q)) (api_loads A)))"

text \<open>The tool and its arguments.\<close>

definition api_tool :: "bool \<Rightarrow> json \<Rightarrow> api_failure + string \<times> json_args" where
  "api_tool admin payload =
     (case payload of
        JObj kvs \<Rightarrow>
          if set (map fst kvs) \<noteq> {''tool'', ''arguments''} then Inl (Failure (PublicMcpError ''MCP request has invalid fields''))
          else (case jget_none payload ''tool'' of
              JStr t \<Rightarrow>
                if t \<notin> set (if admin then ADMIN_TOOLS else PUBLIC_TOOLS)
                then Inl (Failure (PublicMcpError (if admin then ''tool is not part of the admin MCP contract''
                  else ''tool is not part of the Folio MCP contract'')))
                else (case jget_none payload ''arguments'' of
                    JObj args \<Rightarrow>
                      (case dumps_strict (JObj args) of
                         None \<Rightarrow> Inl (Failure (PublicMcpError ''arguments must be JSON serializable''))
                       | Some encoded \<Rightarrow>
                           if length (utf8 encoded) > MAX_RESOURCE_ARGUMENT_BYTES then Inl ArgumentsTooLarge
                           else Inr (t, args))
                  | _ \<Rightarrow> Inl (Failure (PublicMcpError ''arguments must be a JSON object'')))
            | _ \<Rightarrow> Inl (Failure (PublicMcpError (if admin then ''tool is not part of the admin MCP contract''
                  else ''tool is not part of the Folio MCP contract''))))
      | _ \<Rightarrow> Inl (Failure (PublicMcpError ''MCP request has invalid fields'')))"

definition call_tool :: "api_env \<Rightarrow> api_caller \<Rightarrow> string \<Rightarrow> json_args \<Rightarrow> (api_state, api_failure + json) action" where
  "call_tool A who tool args = (\<lambda>s.
     (Inr (case ae_answer A (length (ap_calls s)) who tool args of
         Returns v \<Rightarrow> Inr v | Raises e \<Rightarrow> Inl (Failure e) | NeverAnswers \<Rightarrow> Inl (Expired False)),
      s\<lparr>ap_calls := ap_calls s @ [(who, tool, args)]\<rparr>))"

text \<open>The bridge reaches its caller once the request is authorised; a deadline in that call is not the
  bridge's own timeout, and leaves no record.\<close>

definition bridge_reaches :: "bridge \<Rightarrow> bridge_request \<Rightarrow> bool" where
  "bridge_reaches b q \<longleftrightarrow> boundary_authorize (br_boundary b) (bq_attachment q) (bq_tool q)
     \<and> require_artifact_binding (bq_tool q) (bq_artifact q) (bq_args q) = Inr ()"

definition call_bridge :: "api_env \<Rightarrow> bridge_request \<Rightarrow> (api_state, api_failure + json) action" where
  "call_bridge A q = (\<lambda>s.
     let b = ap_bridge s; reaches = bridge_reaches b q;
         answer = ae_bridge_answer A (length (ap_calls s)) (bq_tool q) (bq_args q);
         s' = (if reaches then s\<lparr>ap_calls := ap_calls s @ [(BridgeCaller, bq_tool q, bq_args q)]\<rparr> else s)
     in if reaches \<and> answer = None
        then (Inr (Inl (Expired False)), s'\<lparr>ap_bridge := snd (bridge_clock (ae_bridge_clock A) b)\<rparr>)
        else case bridge_call (ae_bridge_clock A) (\<lambda>_ _. case answer of Some r \<Rightarrow> r | None \<Rightarrow> CallFailed) q b of
          (r, b') \<Rightarrow> (Inr (case r of Inl e \<Rightarrow> Inl (Failure e)
              | Inr v \<Rightarrow> Inr (JObj [(''request_id'', JStr (bq_id q)), (''result'', v)])), s'\<lparr>ap_bridge := b'\<rparr>))"

definition api_invoke :: "api_env \<Rightarrow> bool \<Rightarrow> bool \<Rightarrow> json \<Rightarrow> (api_state, api_failure + json) action" where
  "api_invoke A by_bridge admin payload =
     (if by_bridge then (case validate_bridge_request payload of Inl e \<Rightarrow> mret (Inl (Failure e)) | Inr q \<Rightarrow> call_bridge A q)
      else case api_tool admin payload of
        Inl f \<Rightarrow> mret (Inl f)
      | Inr (tool, args) \<Rightarrow> call_tool A (if admin then AdminCaller else UserCaller) tool args)"

definition api_bounded :: "api_env \<Rightarrow> json \<Rightarrow> api_failure + json" where
  "api_bounded A v =
     (case dumps_strict v of
        None \<Rightarrow> Inl (Failure (PublicMcpError ''response is not JSON serializable''))
      | Some encoded \<Rightarrow> if int (length (utf8 encoded)) > ae_max_response A then Inl ResponseTooLarge else Inr v)"

definition error_status :: "py_exn \<Rightarrow> nat" where
  "error_status e = (let message = error_text e in
     if (case e of BridgeRequestError _ reason \<Rightarrow> reason = ''capability_not_attached'' | _ \<Rightarrow> False) then 403
     else if ends_with ''not found'' message then 404
     else if contains ''parent version mismatch'' message then 409
     else if ends_with ''timed out'' message then 504
     else if contains ''unavailable'' message \<or> contains ''result exceeds'' message then 502
     else 400)"

definition bridge_rejects :: "api_env \<Rightarrow> bool \<Rightarrow> string \<Rightarrow> (api_state, unit) action" where
  "bridge_rejects A by_bridge reason =
     (if by_bridge then on_bridge (audit_rejection (ae_bridge_clock A) reason) else mret ())"

definition failed_response :: "string \<Rightarrow> py_exn \<Rightarrow> http_response" where
  "failed_response request_id e = json_response (error_status e) CONTROL_HEADERS
     (JObj [(''error'', JStr (error_text e)), (''request_id'', JStr request_id)])"

definition api_failed :: "api_env \<Rightarrow> bool \<Rightarrow> string \<Rightarrow> api_failure \<Rightarrow> (api_state, http_response) action" where
  "api_failed A by_bridge request_id f =
     (case f of
        Overflow \<Rightarrow> mbind (bridge_rejects A by_bridge ''oversized_body'') (\<lambda>_.
          mret (api_error 413 ''request_too_large'' ''request body too large'' request_id (Some 0)))
      | ArgumentsTooLarge \<Rightarrow>
          mret (api_error 422 ''arguments_too_large'' ''Tool arguments exceed the allowed size.'' request_id None)
      | ResponseTooLarge \<Rightarrow>
          mret (api_error 502 ''response_too_large'' ''Response exceeds the allowed size.'' request_id None)
      | Expired reading \<Rightarrow>
          mret (if reading then api_error 408 ''request_body_timeout'' ''Request body timed out. Try again later.'' request_id (Some 1)
            else api_error 504 ''resource_timeout'' ''Request timed out. Try again later.'' request_id (Some 1))
      | TurnedAway r \<Rightarrow> mret r
      | Failure e \<Rightarrow> (case e of
            BridgeRequestError _ reason \<Rightarrow>
              mbind (if reason \<noteq> ''capability_not_attached'' then bridge_rejects A by_bridge reason else mret ()) (\<lambda>_.
              mret (failed_response request_id e))
          | PublicMcpError _ \<Rightarrow> mret (failed_response request_id e)
          | _ \<Rightarrow> mret (json_response 502 CONTROL_HEADERS (JObj [(''code'', JStr ''request_failed_safely''),
              (''error'', JStr ''request failed safely''), (''request_id'', JStr request_id)]))))"

definition api_request ::
    "api_env \<Rightarrow> bool \<Rightarrow> bool \<Rightarrow> principal option \<Rightarrow> string \<Rightarrow> http_request \<Rightarrow> (api_state, http_response) action" where
  "api_request A by_bridge admin p request_id Q =
     (case api_gate A Q of
        Some (reason, r) \<Rightarrow> mbind (bridge_rejects A by_bridge reason) (\<lambda>_. mret r)
      | None \<Rightarrow>
          mbind (case api_payload A by_bridge admin p Q of
              Inl f \<Rightarrow> mret (Inl f) | Inr payload \<Rightarrow> api_invoke A by_bridge admin payload) (\<lambda>answer.
          case ebind answer (api_bounded A) of
            Inl f \<Rightarrow> api_failed A by_bridge request_id f
          | Inr v \<Rightarrow> mret (json_response 200 CONTROL_HEADERS v)))"

definition api_key :: "(string \<times> string) list \<Rightarrow> string" where
  "api_key dimensions = dumps (JArr (map (\<lambda>(_, v). JStr v) dimensions))"

definition api ::
    "api_env \<Rightarrow> bool \<Rightarrow> bool \<Rightarrow> principal option \<Rightarrow> http_request \<Rightarrow> (api_state, http_response) action" where
  "api A by_bridge admin p Q =
     mbind (\<lambda>s. (Inr (ae_uuid A (ap_draws s)), s\<lparr>ap_draws := Suc (ap_draws s)\<rparr>)) (\<lambda>request_id.
     mbind (\<lambda>s. case dim_allow (ae_clock A (ap_reads s)) (resource_dimensions A p Q) (ap_rate s) of
         (verdict, l) \<Rightarrow> (Inr verdict, s\<lparr>ap_rate := l, ap_reads := Suc (ap_reads s)\<rparr>)) (\<lambda>(allowed, wait).
     if \<not> allowed
     then mret (api_error 429 ''resource_rate_limited'' ''Too many requests. Try again later.'' request_id (Some wait))
     else
       let key = api_key (resource_dimensions A p Q) in
       mbind (\<lambda>s. case try_acquire key (ap_active s) of (ok, l) \<Rightarrow> (Inr ok, s\<lparr>ap_active := l\<rparr>)) (\<lambda>acquired.
       if \<not> acquired
       then mret (api_error 429 ''resource_concurrency_limited'' ''Service is busy. Try again later.'' request_id (Some 1))
       else
         mbind (\<lambda>s. case api_request A by_bridge admin p request_id Q s of (r, s') \<Rightarrow> (Inr r, s')) (\<lambda>r.
         mbind (\<lambda>s. (Inr (), s\<lparr>ap_active := release key (ap_active s)\<rparr>)) (\<lambda>_. mlift r)))))"

section \<open>Dispatch\<close>

definition human_path :: "string \<Rightarrow> bool" where
  "human_path path \<longleftrightarrow> starts_with ''/artifacts/'' path \<or> starts_with ''/standalone/'' path \<or> starts_with ''/workspace/'' path"

definition sign_in_page :: "api_env \<Rightarrow> http_request \<Rightarrow> ui_page" where
  "sign_in_page A Q = \<lparr>up_state = ae_state A, up_sign_in = True, up_return = ui_request_return_to (ae_env A) Q,
     up_organization = None, up_actor = None, up_debug = False, up_human = False, up_workspace = False, up_standalone = False\<rparr>"

definition library_page :: "api_env \<Rightarrow> principal option \<Rightarrow> string \<Rightarrow> ui_page" where
  "library_page A p path = \<lparr>up_state = (if p \<noteq> None then ''authenticated'' else ae_state A), up_sign_in = False, up_return = ''/'',
     up_organization = (case p of Some q \<Rightarrow> Some (p_tenant q) | None \<Rightarrow> ae_organization A),
     up_actor = (case p of Some q \<Rightarrow> Some (p_actor q) | None \<Rightarrow> ae_actor A),
     up_debug = starts_with ''/inspect/'' path, up_human = human_path path,
     up_workspace = starts_with ''/workspace/'' path, up_standalone = starts_with ''/standalone/'' path\<rparr>"

definition inspection_call :: "api_env \<Rightarrow> principal option \<Rightarrow> http_request \<Rightarrow> (api_state, browser_response) action" where
  "inspection_call A p Q =
     (let path = hq_path Q; get = (hq_method Q = ''GET''); headers = control_headers (ae_render A) in
      if get \<and> path = ''/sign-in'' then mret (UiPage headers (sign_in_page A Q))
      else if get \<and> path = ''/settings/connections''
      then mret (ConnectionsPage headers (if p \<noteq> None then ''authenticated'' else ae_state A))
      else if get \<and> (path = ''/'' \<or> starts_with ''/inspect/'' path \<or> human_path path)
      then mret (UiPage headers (library_page A p path))
      else if get \<and> path \<in> {''/ui.css'', ''/ui.js'', ''/connections.css'', ''/connections.js''}
      then mret (StaticAsset headers path)
      else if hq_method Q = ''POST'' \<and> path \<in> {''/api/mcp'', ''/api/admin/mcp'', ''/api/bridge''}
      then mbind (api A (path = ''/api/bridge'') (path = ''/api/admin/mcp'') p Q) (\<lambda>r. mret (ApiResponse r))
      else mret (ApiResponse (api_refusal 404 ''not found'')))"

definition inspection_run :: "api_env \<Rightarrow> (principal option \<times> http_request) list \<Rightarrow> api_state \<Rightarrow> api_state" where
  "inspection_run A = fold (\<lambda>(p, Q) s. snd (inspection_call A p Q s))"

section \<open>What a request leaves alone\<close>

text \<open>Everything but the tool call and the slots.\<close>

definition beside :: "api_state \<Rightarrow> api_state \<Rightarrow> bool" where
  "beside s s' \<longleftrightarrow> ap_calls s' = ap_calls s \<and> ap_active s' = ap_active s"

interpretation beside: action_relation beside
  by unfold_locales (auto simp: beside_def)

lemma beside_bridge: "steps_by beside (on_bridge m)"
  by (rule steps_byI) (auto simp: on_bridge_def beside_def split: prod.splits)

lemma beside_rejects: "steps_by beside (bridge_rejects A by_bridge reason)"
  unfolding bridge_rejects_def by (intro beside.steps_intros beside_bridge)

lemma beside_failed: "steps_by beside (api_failed A by_bridge rid f)"
  unfolding api_failed_def
  by (auto intro!: beside.steps_intros beside_rejects split: api_failure.split py_exn.split)

section \<open>What reaches the tools\<close>

text \<open>The calls a request may make, by caller.\<close>

inductive allowed_call :: "principal option \<Rightarrow> http_request \<Rightarrow> bridge \<Rightarrow> api_caller \<times> string \<times> json_args \<Rightarrow> bool" for p Q b where
  user_call: "hq_path Q = ''/api/mcp'' \<Longrightarrow> tool \<in> set PUBLIC_TOOLS \<Longrightarrow> dumps_strict (JObj args) = Some encoded \<Longrightarrow>
    length (utf8 encoded) \<le> MAX_RESOURCE_ARGUMENT_BYTES \<Longrightarrow> allowed_call p Q b (UserCaller, tool, args)"
| admin_call: "hq_path Q = ''/api/admin/mcp'' \<Longrightarrow> tool \<in> set ADMIN_TOOLS \<Longrightarrow>
    (case p of None \<Rightarrow> True | Some p \<Rightarrow> EXTERNAL_MCP_ADMIN_SCOPE \<in> set (p_scopes p)) \<Longrightarrow> dumps_strict (JObj args) = Some encoded \<Longrightarrow>
    length (utf8 encoded) \<le> MAX_RESOURCE_ARGUMENT_BYTES \<Longrightarrow> allowed_call p Q b (AdminCaller, tool, args)"
| page_call: "hq_path Q = ''/api/bridge'' \<Longrightarrow> boundary_authorize (br_boundary b) att tool \<Longrightarrow> args_typed art tool args \<Longrightarrow>
    allowed_call p Q b (BridgeCaller, tool, args)"

inductive_cases allowed_call_cases: "allowed_call p Q b c"

lemma api_tool_Inr:
  "api_tool admin payload = Inr (tool, args) \<Longrightarrow> tool \<in> set (if admin then ADMIN_TOOLS else PUBLIC_TOOLS)
    \<and> (\<exists>encoded. dumps_strict (JObj args) = Some encoded \<and> length (utf8 encoded) \<le> MAX_RESOURCE_ARGUMENT_BYTES)"
  by (auto simp: api_tool_def split: json.splits if_splits option.splits)

definition adds_calls :: "(api_caller \<times> string \<times> json_args \<Rightarrow> bool) \<Rightarrow> api_state \<Rightarrow> api_state \<Rightarrow> bool" where
  "adds_calls P s s' \<longleftrightarrow> ap_active s' = ap_active s
     \<and> (ap_calls s' = ap_calls s \<or> (\<exists>c. ap_calls s' = ap_calls s @ [c] \<and> P c))"

lemma invoke_adds:
  assumes "api_invoke A by_bridge admin payload s = (r, s')"
    and "by_bridge \<Longrightarrow> hq_path Q = ''/api/bridge''" "\<not> by_bridge \<Longrightarrow> hq_path Q = (if admin then ''/api/admin/mcp'' else ''/api/mcp'')"
    and "admin \<Longrightarrow> (case p of None \<Rightarrow> True | Some p \<Rightarrow> EXTERNAL_MCP_ADMIN_SCOPE \<in> set (p_scopes p))"
  shows "adds_calls (allowed_call p Q (ap_bridge s)) s s'"
proof (cases by_bridge)
  case True
  show ?thesis
  proof (cases "validate_bridge_request payload")
    case (Inl e)
    with True assms(1) show ?thesis by (auto simp: api_invoke_def mret_def adds_calls_def)
  next
    case (Inr q)
    have "allowed_call p Q (ap_bridge s) (BridgeCaller, bq_tool q, bq_args q)" if "bridge_reaches (ap_bridge s) q"
      using validated_request_typed [OF Inr] that assms(2) True by (auto simp: bridge_reaches_def intro: page_call)
    with True Inr assms(1) show ?thesis
      by (auto simp: api_invoke_def call_bridge_def Let_def adds_calls_def split: prod.splits if_splits)
  qed
next
  case False
  show ?thesis
  proof (cases "api_tool admin payload")
    case (Inl e)
    with False assms(1) show ?thesis by (auto simp: api_invoke_def mret_def adds_calls_def)
  next
    case (Inr x)
    then obtain tool args where x: "api_tool admin payload = Inr (tool, args)" by (cases x) auto
    have "allowed_call p Q (ap_bridge s) (if admin then AdminCaller else UserCaller, tool, args)"
      using api_tool_Inr [OF x] assms(3,4) False by (auto intro: user_call admin_call)
    with False x assms(1) show ?thesis by (auto simp: api_invoke_def call_tool_def adds_calls_def)
  qed
qed

lemma payload_admin:
  "api_payload A by_bridge True p Q = Inr payload \<Longrightarrow> (case p of None \<Rightarrow> True | Some p \<Rightarrow> EXTERNAL_MCP_ADMIN_SCOPE \<in> set (p_scopes p))"
  by (auto simp: api_payload_def admin_gate_def err_simps split: option.splits if_splits)

definition api_paths :: "string list" where
  "api_paths = [''/api/mcp'', ''/api/admin/mcp'', ''/api/bridge'']"

text \<open>A request whose origin and type are right, and the call it may make.\<close>

definition gated_call :: "api_env \<Rightarrow> principal option \<Rightarrow> http_request \<Rightarrow> bridge \<Rightarrow> api_caller \<times> string \<times> json_args \<Rightarrow> bool" where
  "gated_call A p Q b c \<longleftrightarrow> hq_method Q = ''POST'' \<and> last_header_text ''origin'' Q = ae_control A
     \<and> base_media_type (last_header_text ''content-type'' Q) = ''application/json'' \<and> allowed_call p Q b c"

definition bounded_reply :: "api_env \<Rightarrow> http_response \<Rightarrow> bool" where
  "bounded_reply A r \<longleftrightarrow> (hr_status r = 200 \<longrightarrow> (\<exists>v encoded. hr_body r = Some v \<and> dumps_strict v = Some encoded
     \<and> int (length (utf8 encoded)) \<le> ae_max_response A))"

lemma error_status_range: "error_status e \<noteq> 200"
  by (simp add: error_status_def Let_def)

lemma failed_bounded: "api_failed A by_bridge rid f s = (r, s') \<Longrightarrow> (\<forall>h. f = TurnedAway h \<longrightarrow> hr_status h \<noteq> 200) \<Longrightarrow>
    (\<exists>x. r = Inr x \<and> hr_status x \<noteq> 200)"
proof -
  have reject: "bridge_rejects A b reason s1 = (x, s2) \<Longrightarrow> x = Inr ()" for b reason s1 s2 x
    by (auto simp: bridge_rejects_def on_bridge_def audit_rejection_def bridge_clock_def bridge_audit_def mbind_def mret_def split: prod.splits if_splits)
  show "api_failed A by_bridge rid f s = (r, s') \<Longrightarrow> (\<forall>h. f = TurnedAway h \<longrightarrow> hr_status h \<noteq> 200) \<Longrightarrow> ?thesis"
    by (cases f) (auto simp: api_failed_def mbind_def mret_def api_error_def json_response_def failed_response_def error_status_range
        dest!: reject split: prod.splits sum.splits py_exn.splits if_splits)
qed

lemma body_refusals: "api_body maximum got msgs \<noteq> Inl (TurnedAway h)"
  by (induction maximum got msgs rule: api_body.induct) auto

lemma loads_refusals: "api_loads A raw \<noteq> Inl (TurnedAway h)"
  by (auto simp: api_loads_def split: sum.splits py_exn.splits)

lemma length_refusals: "api_length maximum Q \<noteq> Inl (TurnedAway h)"
  by (auto simp: api_length_def guard_raise_def split: option.splits)

lemma payload_refusals: "api_payload A by_bridge admin p Q = Inl (TurnedAway h) \<Longrightarrow> hr_status h \<noteq> 200"
  unfolding api_payload_def ebind_Inl_iff
  using body_refusals loads_refusals length_refusals
  by (auto simp: admin_gate_def guard_raise_def admin_refused_def json_response_def split: if_splits)

lemma tool_refusals: "api_tool admin payload \<noteq> Inl (TurnedAway h)"
proof (cases payload)
  case (JObj kvs)
  show ?thesis
    by (cases "jget_none payload ''tool''"; cases "jget_none payload ''arguments''") (simp_all add: api_tool_def JObj split: option.split)
qed (simp_all add: api_tool_def)

lemma invoke_refusals: "api_invoke A by_bridge admin payload s = (Inr (Inl f), s') \<Longrightarrow> f \<noteq> TurnedAway h"
  unfolding api_invoke_def using tool_refusals
  by (auto simp: call_bridge_def call_tool_def mret_def Let_def split: sum.splits if_splits prod.splits api_answer.splits)

lemma bounded_Inl: "api_bounded A v \<noteq> Inl (TurnedAway h)"
  by (auto simp: api_bounded_def split: option.splits if_splits)

lemma bounded_Inr: "api_bounded A v = Inr x \<Longrightarrow> x = v \<and> (\<exists>e. dumps_strict v = Some e \<and> int (length (utf8 e)) \<le> ae_max_response A)"
  by (auto simp: api_bounded_def split: option.splits if_splits)

lemma rejects_run: "bridge_rejects A b reason s = (x, s') \<Longrightarrow> x = Inr ()"
  by (auto simp: bridge_rejects_def on_bridge_def audit_rejection_def bridge_clock_def bridge_audit_def mbind_def mret_def
      split: prod.splits if_splits)

lemma invoke_run: "\<exists>x. fst (api_invoke A by_bridge admin payload s) = Inr x"
  by (auto simp: api_invoke_def call_bridge_def call_tool_def mret_def Let_def split: sum.splits prod.splits)

lemma adds_beside: "adds_calls P s t \<Longrightarrow> beside t u \<Longrightarrow> adds_calls P s u"
  by (auto simp: adds_calls_def beside_def)

text \<open>After the gate: an answer, and what is made of it.\<close>

lemma answered_done:
  assumes "(case ebind answer (api_bounded A) of Inl f \<Rightarrow> api_failed A by_bridge rid f
      | Inr v \<Rightarrow> mret (json_response 200 CONTROL_HEADERS v)) s = (r, s')"
    and "\<And>h. answer = Inl (TurnedAway h) \<Longrightarrow> hr_status h \<noteq> 200"
  shows "beside s s' \<and> (\<exists>x. r = Inr x \<and> bounded_reply A x)"
proof (cases "ebind answer (api_bounded A)")
  case (Inl f)
  then have f: "\<forall>h. f = TurnedAway h \<longrightarrow> hr_status h \<noteq> 200" using assms(2) by (auto simp: ebind_Inl_iff bounded_Inl)
  from Inl assms(1) have run: "api_failed A by_bridge rid f s = (r, s')" by simp
  from failed_bounded [OF run f] steps_byD [OF beside_failed run] show ?thesis by (auto simp: bounded_reply_def)
next
  case (Inr v)
  then obtain e where "dumps_strict v = Some e" "int (length (utf8 e)) \<le> ae_max_response A"
    by (auto simp: ebind_Inr_iff dest: bounded_Inr)
  with Inr assms(1) show ?thesis by (auto simp: mret_iff beside_def bounded_reply_def json_response_def)
qed

lemma request_done:
  assumes run: "api_request A by_bridge admin p rid Q s = (r, s')" and post: "hq_method Q = ''POST''"
    and path: "by_bridge = (hq_path Q = ''/api/bridge'')" "admin = (hq_path Q = ''/api/admin/mcp'')" "hq_path Q \<in> set api_paths"
  shows "adds_calls (gated_call A p Q (ap_bridge s)) s s' \<and> (\<exists>x. r = Inr x \<and> bounded_reply A x)"
proof (cases "api_gate A Q")
  case (Some refusal)
  obtain reason h where h: "refusal = (reason, h)" by (cases refusal)
  obtain x u where b: "bridge_rejects A by_bridge reason s = (x, u)" by (metis surj_pair)
  from run Some h b rejects_run [OF b] have "r = Inr h" "s' = u" by (auto simp: api_request_def mbind_def mret_def)
  moreover have "hr_status h \<noteq> 200" using Some h by (auto simp: api_gate_def api_refusal_def json_response_def split: if_splits)
  ultimately show ?thesis using steps_byD [OF beside_rejects b] by (auto simp: adds_calls_def beside_def bounded_reply_def)
next
  case None
  then have gate: "last_header_text ''origin'' Q = ae_control A" "base_media_type (last_header_text ''content-type'' Q) = ''application/json''"
    by (auto simp: api_gate_def split: if_splits)
  show ?thesis
  proof (cases "api_payload A by_bridge admin p Q")
    case (Inl f)
    with run None have "(case ebind (Inl f) (api_bounded A) of Inl f \<Rightarrow> api_failed A by_bridge rid f
      | Inr v \<Rightarrow> mret (json_response 200 CONTROL_HEADERS v)) s = (r, s')" by (simp add: api_request_def mbind_def mret_def)
    from answered_done [OF this] payload_refusals [OF Inl [THEN trans]] have "beside s s' \<and> (\<exists>x. r = Inr x \<and> bounded_reply A x)" by blast
    then show ?thesis by (simp add: adds_calls_def beside_def)
  next
    case (Inr payload)
    obtain x u where i: "api_invoke A by_bridge admin payload s = (Inr x, u)" using invoke_run by (metis prod.collapse)
    with run None Inr have go: "(case ebind x (api_bounded A) of Inl f \<Rightarrow> api_failed A by_bridge rid f
      | Inr v \<Rightarrow> mret (json_response 200 CONTROL_HEADERS v)) u = (r, s')" by (simp add: api_request_def mbind_def)
    have refusals: "x = Inl (TurnedAway h) \<Longrightarrow> hr_status h \<noteq> 200" for h using invoke_refusals i by blast
    have "adds_calls (allowed_call p Q (ap_bridge s)) s u"
    proof (rule invoke_adds [OF i])
      show "admin \<Longrightarrow> (case p of None \<Rightarrow> True | Some p \<Rightarrow> EXTERNAL_MCP_ADMIN_SCOPE \<in> set (p_scopes p))"
        using payload_admin Inr by simp
    qed (use path in \<open>auto simp: api_paths_def\<close>)
    then have "adds_calls (gated_call A p Q (ap_bridge s)) s u" using gate post by (auto simp: adds_calls_def gated_call_def)
    with answered_done [OF go refusals] adds_beside show ?thesis by blast
  qed
qed

text \<open>Around it, a slot.\<close>

lemma slot_round_trip:
  "conc_ok l \<Longrightarrow> try_acquire k l = (True, l') \<Longrightarrow> conc_ok (release k l') \<and> same_slots l (release k l')"
  using acquire_release [of l k l'] try_acquire_ok [of l k] release_ok [of l' k] by (simp add: same_slots_def)

lemma slot_refused: "try_acquire k l = (False, l') \<Longrightarrow> l' = l"
  by (auto simp: try_acquire_def Let_def split: if_splits)

lemma api_done:
  assumes run: "api A by_bridge admin p Q s = (r, s')" and post: "hq_method Q = ''POST''"
    and path: "by_bridge = (hq_path Q = ''/api/bridge'')" "admin = (hq_path Q = ''/api/admin/mcp'')" "hq_path Q \<in> set api_paths"
  shows "(ap_calls s' = ap_calls s \<or> (\<exists>c. ap_calls s' = ap_calls s @ [c] \<and> gated_call A p Q (ap_bridge s) c))
    \<and> (\<exists>x. r = Inr x \<and> bounded_reply A x)
    \<and> (conc_ok (ap_active s) \<longrightarrow> conc_ok (ap_active s') \<and> same_slots (ap_active s) (ap_active s'))"
proof -
  let ?rid = "ae_uuid A (ap_draws s)" and ?key = "api_key (resource_dimensions A p Q)"
  obtain allowed wait l where d: "dim_allow (ae_clock A (ap_reads s)) (resource_dimensions A p Q) (ap_rate s) = ((allowed, wait), l)"
    by (metis surj_pair)
  obtain ok m where m: "try_acquire ?key (ap_active s) = (ok, m)" by (metis surj_pair)
  let ?u = "s\<lparr>ap_draws := Suc (ap_draws s), ap_rate := l, ap_reads := Suc (ap_reads s)\<rparr>"
  let ?v = "?u\<lparr>ap_active := m\<rparr>"
  consider (refused) "\<not> allowed" | (busy) "allowed" "\<not> ok" | (served) "allowed" "ok" by blast
  then show ?thesis
  proof cases
    case refused
    with run d show ?thesis by (auto simp: api_def mbind_def mret_def bounded_reply_def api_error_def json_response_def same_slots_def)
  next
    case busy
    with slot_refused m have "m = ap_active s" by auto
    with busy run d m show ?thesis
      by (auto simp: api_def mbind_def mret_def Let_def bounded_reply_def api_error_def json_response_def same_slots_def)
  next
    case served
    obtain y w where req: "api_request A by_bridge admin p ?rid Q ?v = (y, w)" by (metis surj_pair)
    from request_done [OF req post path] obtain x where
      calls: "adds_calls (gated_call A p Q (ap_bridge ?v)) ?v w" and x: "y = Inr x" "bounded_reply A x" by blast
    from run d m served req x have "r = Inr x" "s' = w\<lparr>ap_active := release ?key (ap_active w)\<rparr>"
      by (auto simp: api_def mbind_def mlift_def Let_def)
    with calls x served m show ?thesis by (auto simp: adds_calls_def slot_round_trip)
  qed
qed

lemma inspection_done:
  assumes "inspection_call A p Q s = (r, s')"
  shows "(ap_calls s' = ap_calls s \<or> (\<exists>c. ap_calls s' = ap_calls s @ [c] \<and> gated_call A p Q (ap_bridge s) c))
    \<and> (\<exists>x. r = Inr x \<and> (\<forall>h. x = ApiResponse h \<longrightarrow> bounded_reply A h))
    \<and> (conc_ok (ap_active s) \<longrightarrow> conc_ok (ap_active s') \<and> same_slots (ap_active s) (ap_active s'))"
proof (cases "hq_method Q = ''POST'' \<and> hq_path Q \<in> set api_paths")
  case True
  obtain y w where y: "api A (hq_path Q = ''/api/bridge'') (hq_path Q = ''/api/admin/mcp'') p Q s = (y, w)" by (metis surj_pair)
  with True assms have "mbind (api A (hq_path Q = ''/api/bridge'') (hq_path Q = ''/api/admin/mcp'') p Q) (\<lambda>r. mret (ApiResponse r)) s = (r, s')"
    by (simp add: inspection_call_def api_paths_def Let_def)
  with y api_done [OF y] True show ?thesis by (auto simp: mbind_def mret_def)
next
  case False
  with assms show ?thesis
    by (auto simp: inspection_call_def api_paths_def Let_def mret_iff bounded_reply_def api_refusal_def json_response_def same_slots_def
        split: if_splits)
qed

section \<open>Properties\<close>

text \<open>C15: The browser reaches the tools only through the gate: a request of the browser application makes at most
  one tool call, and only as a POST of JSON from the control origin to one of the three API paths; a user's
  call is of a public tool, an administration call is of an administration tool, and where the request
  runs under a principal, of one with the administration scope (a request without a principal, which only a
  server without configured authentication lets through, is not asked for it); both have arguments within their
  bound; and a page's call is one its attachment
  permits with arguments of the tool's type. Every 200 of the API is within the response bound.\<close>

theorem browser_calls_are_gated:
  assumes "inspection_call A p Q s = (r, s')"
  shows "(ap_calls s' = ap_calls s \<or> (\<exists>c. ap_calls s' = ap_calls s @ [c] \<and> gated_call A p Q (ap_bridge s) c))
    \<and> (\<exists>x. r = Inr x \<and> (\<forall>h. x = ApiResponse h \<longrightarrow> bounded_reply A h))"
  using inspection_done [OF assms] by blast

text \<open>No slot of the browser API leaks: after any run of requests, whatever the callers did (answered, raised,
  never answered), as many slots are in use as before, in total and for each caller.\<close>

theorem browser_slots_do_not_leak:
  assumes "conc_ok (ap_active s)"
  shows "cl_total (ap_active (inspection_run A rs s)) = cl_total (ap_active s)
    \<and> active_count (ap_active (inspection_run A rs s)) j = active_count (ap_active s) j"
proof -
  have "conc_ok (ap_active (inspection_run A rs s)) \<and> same_slots (ap_active s) (ap_active (inspection_run A rs s))"
    using assms
  proof (induction rs arbitrary: s)
    case (Cons x rs)
    obtain p Q where x: "x = (p, Q)" by (cases x)
    obtain r u where u: "inspection_call A p Q s = (r, u)" by (metis surj_pair)
    from inspection_done [OF u] Cons.prems have "conc_ok (ap_active u)" "same_slots (ap_active s) (ap_active u)" by auto
    with Cons.IH [of u] show ?case by (auto simp: inspection_run_def x u same_slots_def)
  qed (simp add: inspection_run_def same_slots_def)
  then show ?thesis by (simp add: same_slots_def)
qed

section \<open>Witnesses\<close>

definition browser_env :: api_env where
  "browser_env = \<lparr>ae_env = env0, ae_control = ''o'', ae_render = ''r'', ae_max_request = 100, ae_max_response = 100, ae_state = ''local'',
     ae_organization = Some ''t'', ae_actor = None, ae_has_admin = False, ae_clock = (\<lambda>_. 0), ae_bridge_clock = (\<lambda>_. 0),
     ae_uuid = (\<lambda>_. ''u''), ae_loads = (\<lambda>_. Inr (JObj [(''tool'', JStr ''artifact_read''), (''arguments'', JObj [])])),
     ae_answer = (\<lambda>_ _ _ _. Returns (JObj [])), ae_bridge_answer = (\<lambda>_ _ _. None)\<rparr>"

definition browser_state :: api_state where
  "browser_state = \<lparr>ap_rate = \<lparr>dl_limits = [(''tenant'', 5)], dl_window_seconds = 60, dl_max_keys = 8, dl_windows = []\<rparr>,
     ap_active = \<lparr>cl_limit = 2, cl_per_key_limit = 2, cl_max_keys = 4, cl_active = [], cl_total = 0\<rparr>,
     ap_bridge = sample_bridge, ap_reads = 0, ap_draws = 0, ap_calls = []\<rparr>"

definition browser_request :: http_request where
  "browser_request = \<lparr>hq_method = ''POST'', hq_path = ''/api/mcp'', hq_scheme = ''https'',
     hq_headers = [(utf8 ''Origin'', utf8 ''o''), (utf8 ''content-type'', utf8 ''application/json; x'')], hq_query = [], hq_client = None,
     hq_messages = [Chunk [1] False]\<rparr>"

lemma browser_gate: "api_gate browser_env browser_request = None"
  by (simp add: api_gate_def browser_env_def browser_request_def last_header_text_def last_header_def latin1_def lower_byte_def
      base_media_type_def utf8_def utf8_char_def ord_of_def strip_def lstrip_def is_space_def lower_def) code_simp

lemma browser_payload: "api_payload browser_env False False None browser_request
    = Inr (JObj [(''tool'', JStr ''artifact_read''), (''arguments'', JObj [])])"
  by (simp add: api_payload_def api_length_def last_header_def browser_request_def lower_byte_def utf8_def utf8_char_def ord_of_def
      api_maximum_def browser_env_def api_loads_def)

lemma browser_tool: "api_tool False (JObj [(''tool'', JStr ''artifact_read''), (''arguments'', JObj [])]) = Inr (''artifact_read'', [])"
proof -
  have "dumps_strict (JObj []) = Some ''{}''" by code_simp
  moreover have "length (utf8 ''{}'') = 2" by (simp add: utf8_def utf8_char_def ord_of_def)
  moreover have "set (map fst [(''tool'', JStr ''artifact_read''), (''arguments'', JObj [])]) = {''tool'', ''arguments''}" by simp
  ultimately show ?thesis by (simp add: api_tool_def jget_none_def PUBLIC_TOOLS_def MAX_RESOURCE_ARGUMENT_BYTES_def)
qed

lemma browser_requested:
  "\<exists>h w. api_request browser_env False False None rid browser_request s = (Inr h, w)
    \<and> ap_calls w = ap_calls s @ [(UserCaller, ''artifact_read'', [])]"
proof -
  let ?u = "s\<lparr>ap_calls := ap_calls s @ [(UserCaller, ''artifact_read'', [])]\<rparr>"
  have c: "call_tool browser_env UserCaller ''artifact_read'' [] s = (Inr (Inr (JObj [])), ?u)"
    by (simp add: call_tool_def browser_env_def)
  obtain r w where e: "(case ebind (Inr (JObj [])) (api_bounded browser_env) of Inl f \<Rightarrow> api_failed browser_env False rid f
      | Inr v \<Rightarrow> mret (json_response 200 CONTROL_HEADERS v)) ?u = (r, w)" by (metis surj_pair)
  have "api_request browser_env False False None rid browser_request s = (r, w)"
    using c e by (simp add: api_request_def browser_gate browser_payload api_invoke_def browser_tool mbind_def)
  with answered_done [OF e] show ?thesis by (auto simp: beside_def)
qed

lemma browser_room:
  "\<exists>l. dim_allow t (resource_dimensions browser_env None browser_request) (ap_rate browser_state) = ((True, 0), l)"
  "\<exists>m. try_acquire k (ap_active browser_state) = (True, m)"
  by (simp_all add: dim_allow_def dim_candidates_def resource_dimensions_def browser_env_def browser_state_def audit_actor_def
      live_windows_def dim_limit_def try_acquire_def active_count_def Let_def)

lemma browser_call: "ap_calls (snd (inspection_call browser_env None browser_request browser_state)) = [(UserCaller, ''artifact_read'', [])]"
proof -
  let ?rid = "ae_uuid browser_env (ap_draws browser_state)" and ?key = "api_key (resource_dimensions browser_env None browser_request)"
  obtain l where l: "dim_allow (ae_clock browser_env (ap_reads browser_state)) (resource_dimensions browser_env None browser_request)
      (ap_rate browser_state) = ((True, 0), l)" using browser_room(1) by blast
  obtain m where m: "try_acquire ?key (ap_active browser_state) = (True, m)" using browser_room(2) by blast
  let ?v = "browser_state\<lparr>ap_draws := Suc (ap_draws browser_state), ap_rate := l, ap_reads := Suc (ap_reads browser_state), ap_active := m\<rparr>"
  obtain h w where w: "api_request browser_env False False None ?rid browser_request ?v = (Inr h, w)"
    "ap_calls w = ap_calls ?v @ [(UserCaller, ''artifact_read'', [])]" using browser_requested by blast
  have "inspection_call browser_env None browser_request = mbind (api browser_env False False None browser_request) (\<lambda>r. mret (ApiResponse r))"
    by (simp add: inspection_call_def browser_request_def)
  with l m w show ?thesis
    by (simp add: api_def mbind_def mlift_def mret_def Let_def) (simp add: browser_state_def)
qed

lemma browser_calls_are_gated_witness:
  "gated_call browser_env None browser_request (ap_bridge browser_state) (UserCaller, ''artifact_read'', [])"
proof -
  obtain r s' where run: "inspection_call browser_env None browser_request browser_state = (r, s')" by (metis surj_pair)
  with browser_call have "ap_calls s' = [(UserCaller, ''artifact_read'', [])]" by simp
  with browser_calls_are_gated [OF run] show ?thesis by (simp add: browser_state_def)
qed

lemma browser_slots_do_not_leak_witness:
  "cl_total (ap_active (inspection_run browser_env [(None, browser_request), (None, browser_request)] browser_state)) = 0"
proof -
  have "conc_ok (ap_active browser_state)" by (simp add: browser_state_def conc_ok_def)
  from browser_slots_do_not_leak [OF this] show ?thesis by (simp add: browser_state_def)
qed

end
