(* ===== verification/Renderer.thy ===== *)
theory Renderer
  imports Browser_Api
begin

text \<open>
  The renderer of \<open>renderer.py\<close>: a process of its own that reads one artifact version through the public MCP
  endpoint and serves it under the headers of a sandbox. Its caller is a parameter: the n-th read's answer.
  Responses the ASGI library builds keep the headers the code gives; those the library adds are left out.
\<close>

section \<open>Paths and types\<close>

definition RENDERABLE_MEDIA_TYPES :: "string list" where
  "RENDERABLE_MEDIA_TYPES = [''application/javascript'', ''text/css'', ''text/html'', ''text/javascript'']"

definition MAX_RENDERER_TIMEOUT_SECONDS :: rat where "MAX_RENDERER_TIMEOUT_SECONDS = 300"
definition MAX_RENDERER_RESPONSE_BYTES :: int where "MAX_RENDERER_RESPONSE_BYTES = 4 * 1024 * 1024"
definition MAX_RENDERER_PATH_BYTES :: nat where "MAX_RENDERER_PATH_BYTES = 1024"

text \<open>\<open>quote\<close> with no safe characters of its own.\<close>

definition quote_all :: "string \<Rightarrow> string" where
  "quote_all s = concat (map (\<lambda>b. if unat b = 32 then ''%20'' else quote_byte b) (utf8 s))"

definition versioned_content_url :: "string \<Rightarrow> string \<Rightarrow> py_exn + string" where
  "versioned_content_url artifact_id version_id =
     (if artifact_id = [] then Inl (ValueError ''artifact_id is required'')
      else if version_id = [] then Inl (ValueError ''version_id is required'')
      else Inr (''/content/'' @ quote_all artifact_id @ ''/'' @ quote_all version_id))"

text \<open>\<open>html.escape\<close> with quotes.\<close>

definition html_escape :: "string \<Rightarrow> string" where
  "html_escape s = concat (map (\<lambda>c. if c = CHR ''&'' then ''&amp;'' else if c = CHR ''<'' then ''&lt;''
     else if c = CHR ''>'' then ''&gt;'' else if c = CHR 0x22 then ''&quot;'' else if c = CHR 0x27 then ''&#x27;'' else [c]) s)"

definition double_quoted :: "string \<Rightarrow> string" where
  "double_quoted s = CHR 0x22 # s @ [CHR 0x22]"

definition wrapper_page :: "string \<Rightarrow> string \<Rightarrow> string \<Rightarrow> py_exn + string" where
  "wrapper_page artifact_id version_id media_type =
     ebind (versioned_content_url artifact_id version_id) (\<lambda>source.
     let css = (media_type = ''text/css'');
         head = (if css then ''<link rel='' @ double_quoted ''stylesheet'' @ '' href='' @ double_quoted (html_escape source) @ ''>'' else []);
         body = (if css then ''<main><h1>Stylesheet preview</h1><p>Folio Lattice CSS artifact.</p><button>Button</button></main>''
           else ''<main><h1>JavaScript preview</h1><p id='' @ double_quoted ''output'' @ ''>Script loaded.</p></main>'');
         tail = (if css then ''<script>document.body.dataset.computedColor=getComputedStyle(document.body).color</script>''
           else ''<script src='' @ double_quoted (html_escape source) @ ''></script>'')
     in Inr (''<!doctype html>'' @ [CHR 10] @ ''<html lang='' @ double_quoted ''en'' @ ''><head><meta charset='' @ double_quoted ''utf-8''
       @ ''><title>Artifact preview</title>'' @ head @ ''</head>'' @ [CHR 10] @ ''<body>'' @ body @ tail @ ''</body></html>''))"

section \<open>State, parameters, responses\<close>

record render_response =
  rn_status :: nat
  rn_headers :: "(string \<times> string) list"
  rn_media :: string
  rn_json :: "json option"
  rn_text :: "string option"

definition render_json :: "nat \<Rightarrow> (string \<times> string) list \<Rightarrow> json \<Rightarrow> render_response" where
  "render_json status headers body = \<lparr>rn_status = status, rn_headers = headers, rn_media = ''application/json'',
     rn_json = Some body, rn_text = None\<rparr>"

definition render_text :: "(string \<times> string) list \<Rightarrow> string \<Rightarrow> string \<Rightarrow> render_response" where
  "render_text headers media body = \<lparr>rn_status = 200, rn_headers = headers, rn_media = media, rn_json = None, rn_text = Some body\<rparr>"

record renderer_env =
  re_env :: env
  re_control :: string
  re_max_response :: int
  re_hsts :: int
  re_clock :: "nat \<Rightarrow> rat"
  re_uuid :: "nat \<Rightarrow> string"
  re_text :: "bytes \<Rightarrow> string option"
  re_raw_path :: "http_request \<Rightarrow> bytes"
  re_ready :: "nat \<Rightarrow> bool option"
  re_answer :: "nat \<Rightarrow> json_args \<Rightarrow> api_answer"

record renderer_state =
  rs_rate :: dimension_limiter
  rs_active :: concurrency_limiter
  rs_reads :: nat
  rs_draws :: nat
  rs_calls :: "json_args list"

text \<open>A read that fails: the deadline, a response over the limit, a public error, or an exception nothing
  catches.\<close>

datatype render_failure = RenderTimeout | RenderTooLarge | RenderRefused string | RenderUncaught py_exn

definition renderer_init ::
    "rat \<Rightarrow> int \<Rightarrow> (string \<times> int) list option \<Rightarrow> rat \<Rightarrow> int \<Rightarrow> int \<Rightarrow> py_exn + renderer_state" where
  "renderer_init timeout max_response rates window concurrency per_key =
     (if timeout \<le> 0 \<or> timeout > MAX_RENDERER_TIMEOUT_SECONDS
      then Inl (ValueError ''timeout_seconds is outside the allowed renderer bound'')
      else if max_response < 1 \<or> max_response > MAX_RENDERER_RESPONSE_BYTES
      then Inl (ValueError ''max_response_bytes is outside the allowed renderer bound'')
      else ebind (dimension_limiter_init (case rates of Some (r # rs) \<Rightarrow> r # rs | _ \<Rightarrow> [(''ip'', 600)]) window 4096) (\<lambda>rate.
        ebind (concurrency_limiter_init concurrency per_key 4096) (\<lambda>active.
        Inr \<lparr>rs_rate = rate, rs_active = active, rs_reads = 0, rs_draws = 0, rs_calls = []\<rparr>)))"

abbreviation "re_headers R \<equiv> sandbox_headers (re_control R)"

definition renderer_error :: "renderer_env \<Rightarrow> nat \<Rightarrow> string \<Rightarrow> string \<Rightarrow> string \<Rightarrow> int option \<Rightarrow> render_response" where
  "renderer_error R status code message request_id wait = render_json status
     (re_headers R @ (case wait of None \<Rightarrow> [] | Some n \<Rightarrow> [(''Retry-After'', int_text (max 0 n))]))
     (JObj [(''code'', JStr code), (''error'', JStr message), (''request_id'', JStr request_id)])"

definition renderer_refusal :: "renderer_env \<Rightarrow> nat \<Rightarrow> string \<Rightarrow> render_response" where
  "renderer_refusal R status message = render_json status (re_headers R) (JObj [(''error'', JStr message)])"

section \<open>Reading\<close>

definition uncaught :: "py_exn + 'a \<Rightarrow> render_failure + 'a" where
  "uncaught r = (case r of Inl e \<Rightarrow> Inl (RenderUncaught e) | Inr x \<Rightarrow> Inr x)"

text \<open>\<open>value[key]\<close> and a value used as text: no such key, or no such type, raises.\<close>

definition subscript :: "json \<Rightarrow> string \<Rightarrow> render_failure + json" where
  "subscript v k = (case jget v k of None \<Rightarrow> Inl (RenderUncaught (OtherError k)) | Some x \<Rightarrow> Inr x)"

definition text_of :: "json \<Rightarrow> render_failure + string" where
  "text_of v = (case v of JStr s \<Rightarrow> Inr s | _ \<Rightarrow> Inl (RenderUncaught (OtherError ''not a text'')))"

definition check_response_size :: "renderer_env \<Rightarrow> json \<Rightarrow> render_failure + unit" where
  "check_response_size R v =
     (case dumps_strict v of
        None \<Rightarrow> Inl (RenderRefused ''renderer response is invalid'')
      | Some encoded \<Rightarrow> guard_raise (int (length (utf8 encoded)) > re_max_response R) RenderTooLarge)"

definition read_artifact_call :: "renderer_env \<Rightarrow> json_args \<Rightarrow> (renderer_state, render_failure + json) action" where
  "read_artifact_call R args = (\<lambda>s.
     (Inr (case re_answer R (length (rs_calls s)) args of
         Returns v \<Rightarrow> Inr v
       | Raises (PublicMcpError m) \<Rightarrow> Inl (RenderRefused m)
       | Raises e \<Rightarrow> Inl (RenderUncaught e)
       | NeverAnswers \<Rightarrow> Inl RenderTimeout),
      s\<lparr>rs_calls := rs_calls s @ [args]\<rparr>))"

definition request_bytes :: "renderer_env \<Rightarrow> http_request \<Rightarrow> nat" where
  "request_bytes R Q = length (re_raw_path R Q) + length (hq_query Q)"

text \<open>What a read artifact is rendered as.\<close>

definition rendered :: "renderer_env \<Rightarrow> string \<Rightarrow> json \<Rightarrow> render_failure + render_response" where
  "rendered R artifact_id v =
     ebind (check_response_size R v) (\<lambda>_.
     ebind (subscript v ''version'') (\<lambda>version.
     ebind (subscript version ''media_type'') (\<lambda>declared.
     ebind (text_of declared) (\<lambda>declared.
     let media = base_media_type declared in
     if media \<notin> set RENDERABLE_MEDIA_TYPES
     then Inr (renderer_refusal R 415 (''unsupported render media type: '' @ media))
     else if media = ''text/html''
     then ebind (subscript v ''text'') (\<lambda>t. ebind (text_of t) (\<lambda>t. Inr (render_text (re_headers R) ''text/html'' t)))
     else ebind (subscript version ''id'') (\<lambda>vid.
       case vid of
         JStr vid \<Rightarrow> ebind (uncaught (wrapper_page artifact_id vid media)) (\<lambda>page. Inr (render_text (re_headers R) ''text/html'' page))
       | _ \<Rightarrow> Inl (RenderUncaught (ValueError ''version_id is required'')))))))"

definition render_artifact ::
    "renderer_env \<Rightarrow> http_request \<Rightarrow> string \<Rightarrow> string option \<Rightarrow> (renderer_state, render_failure + render_response) action" where
  "render_artifact R Q artifact_id version_id =
     (if request_bytes R Q > MAX_RENDERER_PATH_BYTES then mret (Inl (RenderRefused ''render request is too large''))
      else if length artifact_id > 255 \<or> (case version_id of None \<Rightarrow> False | Some v \<Rightarrow> length v > 255)
      then mret (Inl (RenderRefused ''render identifier is too large''))
      else mbind (read_artifact_call R ((''artifact_id'', JStr artifact_id) #
          (case version_id of None \<Rightarrow> [] | Some v \<Rightarrow> [(''version_id'', JStr v)]))) (\<lambda>v.
        mret (ebind v (rendered R artifact_id))))"

definition content_of :: "renderer_env \<Rightarrow> json \<Rightarrow> render_failure + render_response" where
  "content_of R v =
     ebind (check_response_size R v) (\<lambda>_.
     ebind (subscript v ''version'') (\<lambda>version.
     ebind (subscript version ''media_type'') (\<lambda>declared.
     ebind (text_of declared) (\<lambda>declared.
     let media = base_media_type declared in
     if media \<notin> {''application/javascript'', ''text/css'', ''text/javascript''}
     then Inl (RenderRefused ''artifact content is not a render resource'')
     else ebind (subscript v ''text'') (\<lambda>t. ebind (text_of t) (\<lambda>t. Inr (render_text (re_headers R) media t)))))))"

definition render_content ::
    "renderer_env \<Rightarrow> http_request \<Rightarrow> string \<Rightarrow> string \<Rightarrow> (renderer_state, render_failure + render_response) action" where
  "render_content R Q artifact_id version_id =
     (if request_bytes R Q > MAX_RENDERER_PATH_BYTES then mret (Inl (RenderRefused ''content request is too large''))
      else if length artifact_id > 255 \<or> length version_id > 255
      then mret (Inl (RenderRefused ''content identifier is too large''))
      else mbind (read_artifact_call R [(''artifact_id'', JStr artifact_id), (''version_id'', JStr version_id)]) (\<lambda>v.
        mret (ebind v (content_of R))))"

definition render_health :: "renderer_env \<Rightarrow> (renderer_state, render_failure + render_response) action" where
  "render_health R = mget (\<lambda>s. case re_ready R (rs_reads s) of
     None \<Rightarrow> Inl RenderTimeout
   | Some ready \<Rightarrow> Inr (render_json (if ready then 200 else 503) (re_headers R)
       (JObj [(''status'', JStr (if ready then ''ok'' else ''not_ready'')), (''ready'', JBool ready)])))"

section \<open>Limits and routes\<close>

definition render_outcome :: "renderer_env \<Rightarrow> string \<Rightarrow> render_failure + render_response \<Rightarrow> py_exn + render_response" where
  "render_outcome R request_id x =
     (case x of
        Inr r \<Rightarrow> Inr r
      | Inl RenderTimeout \<Rightarrow> Inr (renderer_error R 504 ''renderer_timeout'' ''Render request timed out. Try again later.'' request_id (Some 1))
      | Inl RenderTooLarge \<Rightarrow> Inr (renderer_error R 502 ''renderer_response_too_large''
          ''Render response exceeds the allowed size.'' request_id None)
      | Inl (RenderRefused m) \<Rightarrow> Inr (renderer_error R (if ends_with ''not found'' m then 404 else 400) ''renderer_request_failed'' m
          request_id None)
      | Inl (RenderUncaught e) \<Rightarrow> Inl e)"

definition render_bounded ::
    "renderer_env \<Rightarrow> http_request \<Rightarrow> (renderer_state, render_failure + render_response) action \<Rightarrow> (renderer_state, render_response) action" where
  "render_bounded R Q operation =
     mbind (\<lambda>s. (Inr (re_uuid R (rs_draws s)), s\<lparr>rs_draws := Suc (rs_draws s)\<rparr>)) (\<lambda>request_id.
     mbind (\<lambda>s. case dim_allow (re_clock R (rs_reads s)) [(''ip'', client_key Q)] (rs_rate s) of
         (verdict, l) \<Rightarrow> (Inr verdict, s\<lparr>rs_rate := l, rs_reads := Suc (rs_reads s)\<rparr>)) (\<lambda>(allowed, wait).
     if \<not> allowed
     then mret (renderer_error R 429 ''renderer_rate_limited'' ''Too many render requests. Try again later.'' request_id (Some wait))
     else mbind (\<lambda>s. case try_acquire (client_key Q) (rs_active s) of (ok, l) \<Rightarrow> (Inr ok, s\<lparr>rs_active := l\<rparr>)) (\<lambda>acquired.
       if \<not> acquired
       then mret (renderer_error R 429 ''renderer_concurrency_limited'' ''Renderer is busy. Try again later.'' request_id (Some 1))
       else mbind operation (\<lambda>x.
         mbind (\<lambda>s. (Inr (), s\<lparr>rs_active := release (client_key Q) (rs_active s)\<rparr>)) (\<lambda>_.
         mlift (render_outcome R request_id x))))))"

definition render_route :: "renderer_env \<Rightarrow> http_request \<Rightarrow> (renderer_state, render_response) action" where
  "render_route R Q =
     (let path = hq_path Q; missing = mret (renderer_refusal R 404 ''not found'') in
      if path \<in> {''/health'', ''/readyz''} then render_bounded R Q (render_health R)
      else if hq_method Q \<noteq> ''GET'' then mret (renderer_refusal R 405 ''method not allowed'')
      else if starts_with ''/render/'' path then
        (if map_option (map lower_byte) (last_header ''sec-fetch-dest'' Q) \<noteq> Some (utf8 ''iframe'') then missing
         else let artifact_id = drop 8 path in
           if artifact_id = [] \<or> CHR ''/'' \<in> set artifact_id then missing
           else mbind (mlift (case re_text R (hq_query Q) of None \<Rightarrow> Inl (ValueError ''invalid start byte'')
               | Some qs \<Rightarrow> Inr (case query_values (re_env R) False ''version_id'' qs of [] \<Rightarrow> None | v # _ \<Rightarrow> Some v))) (\<lambda>version_id.
             render_bounded R Q (render_artifact R Q artifact_id version_id)))
      else if starts_with ''/content/'' path then
        (case split_at (CHR ''/'') path of
           [_, _, artifact_id, version_id] \<Rightarrow>
             if artifact_id = [] \<or> version_id = [] then missing
             else render_bounded R Q (render_content R Q artifact_id version_id)
         | _ \<Rightarrow> missing)
      else missing)"

definition render_secure :: "renderer_env \<Rightarrow> http_request \<Rightarrow> render_response \<Rightarrow> render_response" where
  "render_secure R Q r =
     (if hq_scheme Q = ''https'' \<and> re_hsts R \<noteq> 0
        \<and> \<not> list_ex (\<lambda>(h, _). lower h = ''strict-transport-security'') (rn_headers r)
      then r\<lparr>rn_headers := rn_headers r @ [(''strict-transport-security'',
        ''max-age='' @ int_text (re_hsts R) @ ''; includeSubDomains'')]\<rparr>
      else r)"

definition renderer_call :: "renderer_env \<Rightarrow> http_request \<Rightarrow> (renderer_state, render_response) action" where
  "renderer_call R Q = mbind (render_route R Q) (\<lambda>r. mret (render_secure R Q r))"

definition renderer_run :: "renderer_env \<Rightarrow> http_request list \<Rightarrow> renderer_state \<Rightarrow> renderer_state" where
  "renderer_run R = fold (\<lambda>Q s. snd (renderer_call R Q s))"

section \<open>What every response carries and every read is for\<close>

definition sandboxed :: "renderer_env \<Rightarrow> render_response \<Rightarrow> bool" where
  "sandboxed R r \<longleftrightarrow> set (re_headers R) \<subseteq> set (rn_headers r)
     \<and> (rn_text r \<noteq> None \<longrightarrow> rn_status r = 200 \<and> rn_media r \<in> set RENDERABLE_MEDIA_TYPES)"

text \<open>A read is of the artifact, and the version, the path names.\<close>

definition names_artifact :: "http_request \<Rightarrow> json_args \<Rightarrow> bool" where
  "names_artifact Q args \<longleftrightarrow> hq_method Q = ''GET'' \<and> (\<exists>a. a \<noteq> [] \<and> length a \<le> 255 \<and> CHR ''/'' \<notin> set a
     \<and> ((hq_path Q = ''/render/'' @ a \<and> (args = [(''artifact_id'', JStr a)]
           \<or> (\<exists>v. length v \<le> 255 \<and> args = [(''artifact_id'', JStr a), (''version_id'', JStr v)])))
       \<or> (\<exists>v. v \<noteq> [] \<and> length v \<le> 255 \<and> hq_path Q = ''/content/'' @ a @ ''/'' @ v
           \<and> args = [(''artifact_id'', JStr a), (''version_id'', JStr v)])))"

definition reads_only :: "http_request \<Rightarrow> renderer_state \<Rightarrow> renderer_state \<Rightarrow> bool" where
  "reads_only Q s s' \<longleftrightarrow> rs_active s' = rs_active s
     \<and> (rs_calls s' = rs_calls s \<or> (\<exists>args. rs_calls s' = rs_calls s @ [args] \<and> names_artifact Q args))"

text \<open>An operation under the limits.\<close>

definition confined_read :: "renderer_env \<Rightarrow> http_request \<Rightarrow> (renderer_state, render_failure + render_response) action \<Rightarrow> bool" where
  "confined_read R Q m \<longleftrightarrow> (\<forall>s. \<exists>x s'. m s = (Inr x, s') \<and> reads_only Q s s' \<and> (\<forall>r. x = Inr r \<longrightarrow> sandboxed R r))"

lemma sandboxed_plain: "sandboxed R (renderer_error R status code message rid wait)" "sandboxed R (renderer_refusal R status message)"
  "sandboxed R (render_json status (re_headers R) v)"
  by (auto simp: sandboxed_def renderer_error_def renderer_refusal_def render_json_def)

lemma sandboxed_text: "media \<in> set RENDERABLE_MEDIA_TYPES \<Longrightarrow> sandboxed R (render_text (re_headers R) media t)"
  by (simp add: sandboxed_def render_text_def)

lemma text_case_Inr: "(case j of JStr t \<Rightarrow> f t | _ \<Rightarrow> Inl e) = Inr r \<longleftrightarrow> (\<exists>t. j = JStr t \<and> f t = Inr r)"
  by (cases j) simp_all

lemma rendered_sandboxed: "rendered R a v = Inr r \<Longrightarrow> sandboxed R r"
proof -
  have html: "''text/html'' \<in> set RENDERABLE_MEDIA_TYPES" by (simp add: RENDERABLE_MEDIA_TYPES_def)
  show "rendered R a v = Inr r \<Longrightarrow> sandboxed R r"
    by (auto simp: rendered_def ebind_Inr_iff Let_def intro!: sandboxed_plain sandboxed_text html
        simp: text_case_Inr split: if_splits)
qed

lemma content_sandboxed: "content_of R v = Inr r \<Longrightarrow> sandboxed R r"
  by (auto simp: content_of_def ebind_Inr_iff Let_def RENDERABLE_MEDIA_TYPES_def intro!: sandboxed_text split: if_splits)

lemma confined_return: "(\<And>r. x = Inr r \<Longrightarrow> sandboxed R r) \<Longrightarrow> confined_read R Q (mret x)"
  by (auto simp: confined_read_def mret_def reads_only_def)

lemma confined_call:
  assumes "names_artifact Q args" "\<And>v r. f v = Inr r \<Longrightarrow> sandboxed R r"
  shows "confined_read R Q (mbind (read_artifact_call R args) (\<lambda>v. mret (ebind v f)))"
  using assms by (auto simp: confined_read_def mbind_def read_artifact_call_def mret_def reads_only_def ebind_Inr_iff)

lemma render_confined:
  assumes "hq_method Q = ''GET''" "hq_path Q = ''/render/'' @ a" "a \<noteq> []" "CHR ''/'' \<notin> set a"
  shows "confined_read R Q (render_artifact R Q a v)"
proof -
  have names: "names_artifact Q ((''artifact_id'', JStr a) # (case v of None \<Rightarrow> [] | Some v \<Rightarrow> [(''version_id'', JStr v)]))"
    if "\<not> (length a > 255 \<or> (case v of None \<Rightarrow> False | Some v \<Rightarrow> length v > 255))"
    using that assms by (auto simp: names_artifact_def split: option.splits)
  show ?thesis
    unfolding render_artifact_def by (auto intro!: confined_return confined_call names rendered_sandboxed)
qed

lemma content_confined:
  assumes "hq_method Q = ''GET''" "hq_path Q = ''/content/'' @ a @ ''/'' @ v" "a \<noteq> []" "v \<noteq> []" "CHR ''/'' \<notin> set a"
  shows "confined_read R Q (render_content R Q a v)"
  unfolding render_content_def
  using assms by (auto intro!: confined_return confined_call content_sandboxed simp: names_artifact_def)

lemma health_confined: "confined_read R Q (render_health R)"
  by (auto simp: confined_read_def render_health_def mget_def reads_only_def split: option.splits intro: sandboxed_plain)

text \<open>The result of a request: at most one read, of what the path names; a sandboxed response; the slots as
  before.\<close>

definition confined_result :: "renderer_env \<Rightarrow> http_request \<Rightarrow> renderer_state \<Rightarrow> (py_exn + render_response) \<times> renderer_state \<Rightarrow> bool" where
  "confined_result R Q s z \<longleftrightarrow> (case z of (r, s') \<Rightarrow>
     (rs_calls s' = rs_calls s \<or> (\<exists>args. rs_calls s' = rs_calls s @ [args] \<and> names_artifact Q args))
     \<and> (\<forall>x. r = Inr x \<longrightarrow> sandboxed R x)
     \<and> (conc_ok (rs_active s) \<longrightarrow> conc_ok (rs_active s') \<and> same_slots (rs_active s) (rs_active s')))"

lemma bounded_confined:
  assumes "confined_read R Q m"
  shows "confined_result R Q s (render_bounded R Q m s)"
proof -
  obtain allowed wait l where d: "dim_allow (re_clock R (rs_reads s)) [(''ip'', client_key Q)] (rs_rate s) = ((allowed, wait), l)"
    by (metis surj_pair)
  obtain ok n where n: "try_acquire (client_key Q) (rs_active s) = (ok, n)" by (metis surj_pair)
  let ?u = "s\<lparr>rs_draws := Suc (rs_draws s), rs_rate := l, rs_reads := Suc (rs_reads s)\<rparr>"
  consider (refused) "\<not> allowed" | (busy) "allowed" "\<not> ok" | (served) "allowed" "ok" by blast
  then show ?thesis
  proof cases
    case refused
    with d show ?thesis by (simp add: confined_result_def render_bounded_def mbind_def mret_def sandboxed_plain same_slots_def)
  next
    case busy
    with slot_refused n have "n = rs_active s" by auto
    with busy d n show ?thesis
      by (simp add: confined_result_def render_bounded_def mbind_def mret_def sandboxed_plain same_slots_def)
  next
    case served
    from assms obtain x w where w: "m (?u\<lparr>rs_active := n\<rparr>) = (Inr x, w)" "reads_only Q (?u\<lparr>rs_active := n\<rparr>) w"
      "\<forall>r. x = Inr r \<longrightarrow> sandboxed R r" unfolding confined_read_def by blast
    have "\<forall>y. render_outcome R (re_uuid R (rs_draws s)) x = Inr y \<longrightarrow> sandboxed R y"
      using w(3) by (auto simp: render_outcome_def sandboxed_plain split: sum.splits render_failure.splits)
    with w(1,2) d n served show ?thesis
      by (auto simp: confined_result_def render_bounded_def mbind_def mlift_def reads_only_def slot_round_trip)
  qed
qed

lemma plain_confined: "sandboxed R r \<Longrightarrow> confined_result R Q s (mret r s)"
  by (simp add: confined_result_def mret_def same_slots_def)

lemma starts_with_render: "starts_with ''/render/'' s \<Longrightarrow> s = ''/render/'' @ drop 8 s"
proof -
  assume "starts_with ''/render/'' s"
  then have "take 8 s = ''/render/''" by (simp add: starts_with_def eval_nat_numeral)
  with append_take_drop_id [of 8 s] show ?thesis by simp
qed

lemma content_segment:
  assumes "starts_with ''/content/'' (CHR ''/'' # y @ CHR ''/'' # z)" "CHR ''/'' \<notin> set y"
  shows "y = ''content''"
proof -
  have "takeWhile (\<lambda>c. c \<noteq> CHR ''/'') (y @ CHR ''/'' # z) = y"
    using assms(2) by (subst takeWhile_append2) auto
  moreover have "take 8 (y @ CHR ''/'' # z) = ''content/''" using assms(1) by (simp add: starts_with_def eval_nat_numeral del: take_append)
  with append_take_drop_id [of 8 "y @ CHR ''/'' # z"] have "y @ CHR ''/'' # z = ''content/'' @ drop 8 (y @ CHR ''/'' # z)"
    by (simp del: take_append drop_append append_assoc)
  moreover have "takeWhile (\<lambda>c. c \<noteq> CHR ''/'') (''content/'' @ w) = ''content''" for w by simp
  ultimately show ?thesis by metis
qed

lemma route_confined: "confined_result R Q s (render_route R Q s)"
proof -
  note plain = plain_confined [OF sandboxed_plain(2)]
  have path: "hq_path Q = ''/render/'' @ drop 8 (hq_path Q)" if "starts_with ''/render/'' (hq_path Q)"
    using that by (rule starts_with_render)
  consider (health) "hq_path Q \<in> {''/health'', ''/readyz''}"
    | (other) "hq_path Q \<notin> {''/health'', ''/readyz''}" "hq_method Q \<noteq> ''GET''"
    | (render) "hq_path Q \<notin> {''/health'', ''/readyz''}" "hq_method Q = ''GET''" "starts_with ''/render/'' (hq_path Q)"
    | (rest) "hq_path Q \<notin> {''/health'', ''/readyz''}" "hq_method Q = ''GET''" "\<not> starts_with ''/render/'' (hq_path Q)" by blast
  then show ?thesis
  proof cases
    case health
    then show ?thesis using bounded_confined [OF health_confined] by (auto simp: render_route_def Let_def)
  next
    case other
    then show ?thesis using plain by (simp add: render_route_def Let_def)
  next
    case render
    let ?a = "drop 8 (hq_path Q)"
    show ?thesis
    proof (cases "map_option (map lower_byte) (last_header ''sec-fetch-dest'' Q) = Some (utf8 ''iframe'') \<and> ?a \<noteq> [] \<and> CHR ''/'' \<notin> set ?a")
      case False
      then show ?thesis using render plain by (auto simp: render_route_def Let_def)
    next
      case True
      from render_confined [OF render(2) path [OF render(3)]] True have c: "confined_read R Q (render_artifact R Q ?a v)" for v by blast
      show ?thesis
      proof (cases "re_text R (hq_query Q)")
        case None
        with True render show ?thesis
          by (auto simp: render_route_def Let_def mbind_def mlift_def confined_result_def same_slots_def)
      next
        case (Some qs)
        with True render bounded_confined [OF c] show ?thesis by (auto simp: render_route_def Let_def mbind_def mlift_def)
      qed
    qed
  next
    case rest
    show ?thesis
    proof (cases "\<exists>x y a v. split_at (CHR ''/'') (hq_path Q) = [x, y, a, v] \<and> a \<noteq> [] \<and> v \<noteq> [] \<and> starts_with ''/content/'' (hq_path Q)")
      case True
      then obtain x y a v where s: "split_at (CHR ''/'') (hq_path Q) = [x, y, a, v]" "a \<noteq> []" "v \<noteq> []" "starts_with ''/content/'' (hq_path Q)" by blast
      have p: "hq_path Q = x @ ''/'' @ y @ ''/'' @ a @ ''/'' @ v" using split_at_join [of "CHR ''/''" "hq_path Q"] s(1) by simp
      have free: "CHR ''/'' \<notin> set x" "CHR ''/'' \<notin> set y" "CHR ''/'' \<notin> set a"
        using split_at_free [of _ "CHR ''/''" "hq_path Q"] s(1) by auto
      from p s(4) free(1) have "x = []" by (cases x) (auto simp: starts_with_def)
      moreover from this p s(4) free(2) have "y = ''content''" using content_segment [of y "a @ ''/'' @ v"] by simp
      ultimately have "hq_path Q = ''/content/'' @ a @ ''/'' @ v" using p by simp
      from bounded_confined [OF content_confined [OF rest(2) this s(2,3) free(3)]] s rest show ?thesis
        by (simp add: render_route_def Let_def)
    next
      case False
      then show ?thesis using rest plain by (auto simp: render_route_def Let_def split: list.splits)
    qed
  qed
qed

lemma secure_sandboxed: "sandboxed R r \<Longrightarrow> sandboxed R (render_secure R Q r)"
  by (auto simp: sandboxed_def render_secure_def)

lemma call_confined: "confined_result R Q s (renderer_call R Q s)"
proof -
  obtain r s' where run: "render_route R Q s = (r, s')" by (metis surj_pair)
  with route_confined [of R Q s] show ?thesis
    by (cases r) (auto simp: renderer_call_def mbind_def mret_def confined_result_def secure_sandboxed)
qed

text \<open>C16: A request to the renderer makes at most one read, of the artifact and the version its path names, only for
  \<open>GET\<close>; what is answered carries every header of the sandbox, and is a text only with status 200 and one of the
  renderable types; and the slot it took is free again, whatever the outcome.\<close>

theorem renderer_confined:
  assumes "renderer_call R Q s = (r, s')" "conc_ok (rs_active s)"
  shows "(rs_calls s' = rs_calls s \<or> (\<exists>args. rs_calls s' = rs_calls s @ [args] \<and> names_artifact Q args))
    \<and> (case r of Inl _ \<Rightarrow> True | Inr x \<Rightarrow> sandboxed R x)
    \<and> conc_ok (rs_active s') \<and> same_slots (rs_active s) (rs_active s')"
  using call_confined [of R Q s] assms by (auto simp: confined_result_def split: sum.splits)

section \<open>Witness\<close>

definition renderer_page :: json where
  "renderer_page = JObj [(''text'', JStr ''<p>hi</p>''),
     (''version'', JObj [(''id'', JStr ''v''), (''media_type'', JStr ''text/html'')])]"

definition renderer_sample :: renderer_env where
  "renderer_sample = \<lparr>re_env = env0, re_control = ''o'', re_max_response = 100, re_hsts = 0, re_clock = (\<lambda>_. 0), re_uuid = (\<lambda>_. ''u''),
     re_text = (\<lambda>_. Some []), re_raw_path = (\<lambda>_. []), re_ready = (\<lambda>_. Some True), re_answer = (\<lambda>_ _. Returns renderer_page)\<rparr>"

definition renderer_start :: renderer_state where
  "renderer_start = \<lparr>rs_rate = \<lparr>dl_limits = [(''ip'', 5)], dl_window_seconds = 60, dl_max_keys = 8, dl_windows = []\<rparr>,
     rs_active = \<lparr>cl_limit = 2, cl_per_key_limit = 2, cl_max_keys = 4, cl_active = [], cl_total = 0\<rparr>,
     rs_reads = 0, rs_draws = 0, rs_calls = []\<rparr>"

definition content_request :: http_request where
  "content_request = \<lparr>hq_method = ''GET'', hq_path = ''/content/a/v'', hq_scheme = ''https'', hq_headers = [], hq_query = [],
     hq_client = None, hq_messages = []\<rparr>"

lemma content_read: "rs_calls (snd (renderer_call renderer_sample content_request renderer_start))
    = [[(''artifact_id'', JStr ''a''), (''version_id'', JStr ''v'')]]"
proof -
  have "client_key content_request \<noteq> []" by (simp add: client_key_def content_request_def)
  then have "\<exists>l. dim_allow (re_clock renderer_sample 0) [(''ip'', client_key content_request)] (rs_rate renderer_start) = ((True, 0), l)"
    by (simp add: dim_allow_def dim_candidates_def renderer_sample_def renderer_start_def live_windows_def dim_limit_def Let_def)
  then obtain l where l: "dim_allow (re_clock renderer_sample 0) [(''ip'', client_key content_request)] (rs_rate renderer_start) = ((True, 0), l)" by blast
  have "\<exists>m. try_acquire (client_key content_request) (rs_active renderer_start) = (True, m)"
    by (simp add: try_acquire_def renderer_start_def active_count_def Let_def)
  then obtain m where m: "try_acquire (client_key content_request) (rs_active renderer_start) = (True, m)" by blast
  have room: "\<not> request_bytes renderer_sample content_request > MAX_RENDERER_PATH_BYTES"
    by (simp add: request_bytes_def renderer_sample_def content_request_def)
  have route: "render_route renderer_sample content_request
      = render_bounded renderer_sample content_request (render_content renderer_sample content_request ''a'' ''v'')"
    by (simp add: render_route_def content_request_def starts_with_def Let_def)
  have "\<exists>x. render_content renderer_sample content_request ''a'' ''v'' w
      = (Inr x, w\<lparr>rs_calls := rs_calls w @ [[(''artifact_id'', JStr ''a''), (''version_id'', JStr ''v'')]]\<rparr>)" for w
    using room by (simp add: render_content_def mbind_def mret_def read_artifact_call_def)
  then obtain x where x: "\<And>w. render_content renderer_sample content_request ''a'' ''v'' w
      = (Inr (x w), w\<lparr>rs_calls := rs_calls w @ [[(''artifact_id'', JStr ''a''), (''version_id'', JStr ''v'')]]\<rparr>)" by metis
  have fresh: "rs_reads renderer_start = 0" "rs_calls renderer_start = []" by (simp_all add: renderer_start_def)
  show ?thesis using l m x fresh
    by (auto simp: renderer_call_def route render_bounded_def mbind_def mlift_def mret_def split: sum.splits)
qed

lemma renderer_confined_witness: "names_artifact content_request [(''artifact_id'', JStr ''a''), (''version_id'', JStr ''v'')]"
proof -
  obtain r s' where run: "renderer_call renderer_sample content_request renderer_start = (r, s')" by (metis surj_pair)
  have "conc_ok (rs_active renderer_start)" by (simp add: renderer_start_def conc_ok_def)
  from renderer_confined [OF run this] content_read run show ?thesis by (simp add: renderer_start_def)
qed

end
