(* ===== verification/Spec2Isabelle.thy ===== *)
theory Spec2Isabelle
  imports Resource_Limits Graph Listing Search Schema Auth Sessions Relay Bridge Audit_Log Broker Service Identity Slack Http_Safety Renderer
begin

text \<open>
  Folio Lattice (\<open>src/src/folio_lattice\<close>) keeps the artifacts of agents and people: named, immutably
  versioned files of a tenant, the links between them, the grants on them and an audit log. Agents reach
  it over MCP, people through a browser; a process of its own renders artifacts in a sandbox. This
  development is a shallow model of that program with the theorems that make it correct. File names
  below are those of \<open>src/src/folio_lattice\<close>.

  \<^bold>\<open>How the parts interact.\<close> One service object over an SQLite database and a blob directory holds all durable
  data (\<open>service.py\<close>). The MCP server (\<open>mcp_protocol.py\<close>) turns each tool call into service operations under
  the principal of the request; outgoing calls to other MCP servers go through the broker
  (\<open>external_mcp.py\<close>), which asks the registry of the service first. The HTTP application (\<open>server.py\<close>)
  authenticates a request by a bearer token (\<open>auth.py\<close>), a browser session (\<open>sessions.py\<close>, filled by the hosted
  sign-in of \<open>identity.py\<close>) or a relayed capability (\<open>public_mcp.py\<close>), bounds it and hands it to the MCP
  application or to the browser application (\<open>inspection.py\<close>), which reaches the tools through
  \<open>public_mcp.py\<close> and, for rendered pages, through the bridge (\<open>bridge.py\<close>, \<open>sandbox.py\<close>). The renderer
  (\<open>renderer.py\<close>) reads one version through the public MCP endpoint. \<open>slack.py\<close> is one client of the broker.

  \<^bold>\<open>Conventions.\<close> A \<open>str\<close> is a HOL \<open>string\<close>, one character per code point (so code points above 255 are outside
  the model), \<open>bytes\<close> are lists of 8-bit words, Python integers are \<open>int\<close> or \<open>nat\<close>, clocks rationals (so the
  rounding of floats is outside the model), a float in JSON its literal text (Python's \<open>repr\<close> may write another one), a
  \<open>dict\<close> whose order matters an association list. Stateful code is an action
  \<open>'s \<Rightarrow> (py_exn + 'a) \<times> 's\<close>: every raise is a value of \<open>py_exn\<close>, which keeps the class and the message, and the
  state after an exception is part of the result; \<open>mbind\<close>, \<open>mguard\<close>, \<open>caught\<close> compose actions. A transaction
  restores the database, not the blobs or the counters, when its body raises. Clock readings, random tokens and
  identifiers are streams, indexed by a counter of the state.

  \<^bold>\<open>Theories, in the order of import.\<close>
  \<^item> \<open>Prelude\<close>: exceptions, string functions, dictionaries, the action monad; the locales \<open>stepwise\<close> (an
    invariant of steps holds over runs) and \<open>action_relation\<close> (a reflexive and transitive relation between states is
    kept by composed actions when the primitive ones keep it).
  \<^item> \<open>Json\<close>, \<open>Base64\<close>, \<open>Url\<close>, \<open>Clock\<close>: what the code uses of \<open>json\<close>, \<open>base64\<close>, \<open>urllib.parse\<close> and \<open>datetime\<close>, with round
    trips.
  \<^item> \<open>Resource_Limits\<close> (\<open>resource_limits.py\<close>): the three limiters; admitted requests per window, slots.
  \<^item> \<open>Store\<close>, \<open>Access\<close>, \<open>Artifacts\<close>, \<open>Sharing\<close>, \<open>Graph\<close>, \<open>Listing\<close>, \<open>Search\<close>, \<open>Schema\<close>, \<open>External_Registry\<close>,
    \<open>Audit_Log\<close> (\<open>service.py\<close>) and \<open>Audit_Event\<close> (\<open>audit.py\<close>): one record per table, one definition per operation.
    \<open>Integrity\<close> states what every write keeps of the tables (\<open>graph_ok\<close>: keys, references within a tenant, one linear
    history per artifact, owner grants, chunks, blobs under their hash); \<open>Versions\<close> what creating and writing
    do; \<open>Frame\<close> which operations leave the artifact tables alone. The locale \<open>world_relation\<close> carries a relation through
    transactions, \<open>keyset\<close> is the contract of cursor pagination, interpreted on both orders of the code.
  \<^item> \<open>Auth\<close> (\<open>auth.py\<close>), \<open>Identity\<close> (\<open>identity.py\<close>), \<open>Sessions\<close> (\<open>sessions.py\<close>), \<open>Relay\<close> (\<open>public_mcp.py\<close>): who a caller is. Sessions
    refine an abstract map (\<open>spec_step\<close>, \<open>abs_sessions\<close>); \<open>session_invariant\<close> and \<open>capability_relay\<close> are the contracts of
    the store and of the two relays.
  \<^item> \<open>Bridge\<close> (\<open>sandbox.py\<close>, \<open>bridge.py\<close>), \<open>Broker\<close> (\<open>external_mcp.py\<close>), \<open>Slack\<close> (\<open>slack.py\<close>): what leaves and enters the
    system, and the admission, the scans and the records of every ending.
  \<^item> \<open>Mcp_Tools\<close> (\<open>mcp_protocol.py\<close>): every tool as a datatype constructor, \<open>serve\<close> as the server. \<open>Service\<close> composes it
    with the store: the locales \<open>service_relation\<close> and \<open>store_relation\<close> lift a relation from the operations to runs of calls,
    interpreted for integrity, growth of histories, the audit log and isolation of tenants.
  \<^item> \<open>Http_Requests\<close>, \<open>Http_App\<close> (\<open>server.py\<close>): reading a request, and \<open>http_call\<close>, one request with every route;
    \<open>Http_Relations\<close> lifts relations from the routes to requests and runs (\<open>http_handlers\<close>, \<open>http_relation\<close>,
    \<open>route_relation\<close>); \<open>Http_Safety\<close> holds the properties.
  \<^item> \<open>Browser_Api\<close> (\<open>inspection.py\<close>), \<open>Renderer\<close> (\<open>renderer.py\<close>): the gate in front of the tools, and the confinement of
    what is rendered.

  \<^bold>\<open>What is shown.\<close> Integrity: any run of MCP calls keeps \<open>graph_ok\<close> and the hashes of the audit log; a
  successful write appends exactly one version to a linear history, its parent is never written from again, and what was
  written is read back. Isolation: neither MCP calls nor HTTP requests of other tenants change a tenant's rows;
  listing, search, grep and graph answers hold only what the caller may read, and the SQL access clause agrees
  with the procedural check. Identity: what is behind authentication is handed only requests of active members (a verified token, session or
  signed capability), and every other request is refused or answered by the application itself; identities do not move between tenants; sign-in needs its own state, nonce and verifier; a
  sign-out ends the session. Outgoing calls: only approved tools at public HTTPS endpoints, revocation is final, and
  no result carries the credential in any decoding of the scan. Bounds: windows, slots, bodies, results. Errors: a
  tool's error text is one of a public list.

  \<^bold>\<open>Termination and fuel.\<close> Every definition is a total function except the credential scan, whose loop over decodings
  is \<open>partial_function (option)\<close>; that it returns is the property \<open>scan_always_answers\<close>. The JSON parser takes fuel; the
  length of the text plus two is proved enough in the round trip of \<open>Json\<close> (\<open>jfuel_bound\<close>).
  Graph searches are functions with measures on the nodes left.

  \<^bold>\<open>Parameters.\<close> What is not under \<open>src\<close> is an argument: SHA-256, HMAC, JWT decoding and key sets, UTF-8 decoding of
  foreign bytes, the MIME table, the IP address table, the cookie parser, the answers of the two
  full-text indexes, DNS answers, the MCP sessions, the token endpoint, clocks and random sources. Properties name what
  they need of them: that the hash does not collide on the data at hand (the read-back of a write, the detection of
  tampering), that \<open>fromisoformat\<close> reads the times the code prints (the cursors of a listing), and \<open>env_ok\<close> for the liveness of writes (random identifiers do not
  repeat). Their witnesses instantiate these parameters with concrete functions.

  \<^bold>\<open>Not modelled.\<close> Of \<open>service.py\<close> the \<open>CREATE\<close> and \<open>ALTER TABLE\<close> statements and in-place schema migrations: the model starts from
  the present tables. Of \<open>server.py\<close> the settings read from the environment, the wiring of \<open>build_runtime\<close> and the \<open>run\<close>
  functions, \<open>_bind_mcp_actor\<close>, the figures of the monitors in the metrics and the log lines. Of \<open>inspection.py\<close>
  and \<open>connections.py\<close> the text of the HTML, CSS and JavaScript pages. Of \<open>external_mcp.py\<close> and
  \<open>public_mcp.py\<close> the HTTP transports and the certificate pinning below the MCP session. \<open>backup.py\<close>,
  \<open>backup_ops.py\<close>, \<open>deployment.py\<close>, \<open>ops.py\<close> and \<open>tls.py\<close> are files, external programs and certificates of the machine;
  their two statuses are parameters of the HTTP application. \<open>agent_recipe.py\<close> and the scripts under
  \<open>docs\<close> are clients of the modelled tools. Requests are modelled as one step each: the interleaving of an
  asynchronous server appears only between requests, and in the broker between a call and its fence.
\<close>

end
